(* ===== verification/Prelude.thy ===== *)
theory Prelude
  imports Main "HOL-Library.Word" "HOL-Library.Char_ord" "HOL-Library.Sublist"
begin

text \<open>
  Shared foundations of the SoulSystem development.

  \<^item> Results: a Rust \<open>Result\<close> is a sum, \<open>Inl\<close> the error. A function that may panic
    returns an \<open>'a run\<close>.
  \<^item> Strings: a Rust \<open>String\<close> is the list of its UTF-8 bytes (a HOL \<open>string\<close>, one
    \<open>char\<close> per byte). The functions of \<open>str\<close> and \<open>String\<close> the sources call are
    defined on the bytes, so that they agree with Rust on well-formed UTF-8:
    \<open>contains\<close>, \<open>starts_with\<close>, \<open>replace\<close>, \<open>split_whitespace\<close>, \<open>trim\<close>, \<open>split\<close>,
    \<open>split_once\<close>, \<open>join\<close>, \<open>to_ascii_lowercase\<close>, integer parsing, and
    \<open>String::push(byte as char)\<close>, which re-encodes a Latin-1 code point.
  \<^item> Bounded histories: a \<open>VecDeque\<close> or \<open>Vec\<close> that drops its oldest entries, stated
    once as a locale.
\<close>

section \<open>Results, panics\<close>

datatype 'a run = Panicked | Returned 'a

fun bind_run :: "'a run \<Rightarrow> ('a \<Rightarrow> 'b run) \<Rightarrow> 'b run" where
  "bind_run Panicked f = Panicked"
| "bind_run (Returned a) f = f a"

fun bind_res :: "'e + 'a \<Rightarrow> ('a \<Rightarrow> 'e + 'b) \<Rightarrow> 'e + 'b" where
  "bind_res (Inl e) f = Inl e"
| "bind_res (Inr a) f = f a"

lemma bind_res_Inr_iff: "bind_res r f = Inr b \<longleftrightarrow> (\<exists>a. r = Inr a \<and> f a = Inr b)"
  by (cases r) auto

lemma bind_res_Inl_iff:
  "bind_res r f = Inl e \<longleftrightarrow> r = Inl e \<or> (\<exists>a. r = Inr a \<and> f a = Inl e)"
  by (cases r) auto

type_synonym usize = "64 word"
type_synonym u64 = "64 word"
type_synonym u32 = "32 word"
type_synonym u16 = "16 word"
type_synonym u8 = "8 word"

section \<open>Substrings\<close>

fun starts_with :: "'a list \<Rightarrow> 'a list \<Rightarrow> bool" where
  "starts_with s [] = True"
| "starts_with [] (p # ps) = False"
| "starts_with (c # s) (p # ps) = (c = p \<and> starts_with s ps)"

lemma starts_with_iff: "starts_with s p \<longleftrightarrow> (\<exists>r. s = p @ r)"
  by (induction s p rule: starts_with.induct) auto

lemma starts_with_append [simp]: "starts_with (p @ r) p"
  by (auto simp: starts_with_iff)

fun contains :: "'a list \<Rightarrow> 'a list \<Rightarrow> bool" where
  "contains [] p = (p = [])"
| "contains (c # s) p = (starts_with (c # s) p \<or> contains s p)"

lemma contains_iff: "contains s p \<longleftrightarrow> (\<exists>a b. s = a @ p @ b)"
proof (induction s)
  case (Cons c s)
  have "(\<exists>a b. c # s = a @ p @ b) \<longleftrightarrow> (\<exists>b. c # s = p @ b) \<or> (\<exists>a b. s = a @ p @ b)"
    by (metis append_Cons append_Nil list.exhaust list.inject)
  with Cons.IH show ?case by (simp add: starts_with_iff)
qed auto

lemma contains_infix: "contains s p \<Longrightarrow> contains (a @ s @ b) p"
  by (metis append.assoc contains_iff)

lemma contains_Nil [simp]: "contains s []"
  by (auto simp: contains_iff)

lemma contains_single: "contains s [c] \<longleftrightarrow> c \<in> set s"
  by (auto simp: contains_iff dest: split_list)

text \<open>\<open>str::replace\<close> for a non-empty pattern: left to right, matches do not overlap. The
  counter says how many bytes of the current match are still to be skipped.\<close>

fun replace_from :: "nat \<Rightarrow> 'a list \<Rightarrow> 'a list \<Rightarrow> 'a list \<Rightarrow> 'a list" where
  "replace_from k p r [] = []"
| "replace_from (Suc k) p r (c # s) = replace_from k p r s"
| "replace_from 0 p r (c # s) =
     (if starts_with (c # s) p then r @ replace_from (length p - 1) p r s
      else c # replace_from 0 p r s)"

abbreviation replace_all :: "'a list \<Rightarrow> 'a list \<Rightarrow> 'a list \<Rightarrow> 'a list" where
  "replace_all s p r \<equiv> replace_from 0 p r s"

lemma replace_all_absent: "p \<noteq> [] \<Longrightarrow> hd p \<notin> set s \<Longrightarrow> replace_all s p r = s"
proof (induction s)
  case (Cons c s)
  then have "\<not> starts_with (c # s) p" by (cases p) auto
  with Cons show ?case by simp
qed simp

lemma find_SomeD: "find P xs = Some x \<Longrightarrow> x \<in> set xs \<and> P x"
  by (auto simp: find_Some_iff)

section \<open>Characters and UTF-8\<close>

text \<open>A \<open>char\<close> is a byte; its top bit tells ASCII from the bytes of longer UTF-8 sequences.\<close>

definition ascii :: "char \<Rightarrow> bool" where
  "ascii c \<longleftrightarrow> \<not> digit7 c"

text \<open>\<open>out.push(b as char)\<close>: the byte is read as the Latin-1 code point of that number and
  appended in UTF-8. A byte of 128 or more becomes the two bytes \<open>110000xx 10xxxxxx\<close>.\<close>

definition push_byte_as_char :: "char \<Rightarrow> string" where
  "push_byte_as_char c =
     (if ascii c then [c]
      else [if digit6 c then CHR 0xC3 else CHR 0xC2,
            Char (digit0 c) (digit1 c) (digit2 c) (digit3 c) (digit4 c) (digit5 c) False True])"

lemma push_ascii [simp]: "ascii c \<Longrightarrow> push_byte_as_char c = [c]"
  by (simp add: push_byte_as_char_def)

lemma push_not_ascii: "\<not> ascii c \<Longrightarrow> d \<in> set (push_byte_as_char c) \<Longrightarrow> \<not> ascii d"
  by (auto simp: push_byte_as_char_def ascii_def split: if_splits)

lemma push_not_Nil [simp]: "push_byte_as_char c \<noteq> []"
  by (simp add: push_byte_as_char_def)

section \<open>Whitespace\<close>

definition ascii_ws :: "char \<Rightarrow> bool" where
  "ascii_ws c \<longleftrightarrow> c \<in> set [CHR 0x09, CHR 0x0A, CHR 0x0B, CHR 0x0C, CHR 0x0D, CHR '' '']"

lemma ascii_ws_ascii: "ascii_ws c \<Longrightarrow> ascii c"
  by (auto simp: ascii_ws_def ascii_def)

text \<open>The UTF-8 encodings of the code points beyond ASCII that have the Unicode property
  \<open>White_Space\<close>: U+0085, U+00A0, U+1680, U+2000 to U+200A, U+2028, U+2029, U+202F, U+205F,
  U+3000.\<close>

definition multi_ws :: "string list" where
  "multi_ws =
     [[CHR 0xC2, CHR 0x85], [CHR 0xC2, CHR 0xA0], [CHR 0xE1, CHR 0x9A, CHR 0x80],
      [CHR 0xE2, CHR 0x80, CHR 0x80], [CHR 0xE2, CHR 0x80, CHR 0x81],
      [CHR 0xE2, CHR 0x80, CHR 0x82], [CHR 0xE2, CHR 0x80, CHR 0x83],
      [CHR 0xE2, CHR 0x80, CHR 0x84], [CHR 0xE2, CHR 0x80, CHR 0x85],
      [CHR 0xE2, CHR 0x80, CHR 0x86], [CHR 0xE2, CHR 0x80, CHR 0x87],
      [CHR 0xE2, CHR 0x80, CHR 0x88], [CHR 0xE2, CHR 0x80, CHR 0x89],
      [CHR 0xE2, CHR 0x80, CHR 0x8A], [CHR 0xE2, CHR 0x80, CHR 0xA8],
      [CHR 0xE2, CHR 0x80, CHR 0xA9], [CHR 0xE2, CHR 0x80, CHR 0xAF],
      [CHR 0xE2, CHR 0x81, CHR 0x9F], [CHR 0xE3, CHR 0x80, CHR 0x80]]"

text \<open>Number of bytes of the whitespace character the string begins with; 0 when it begins with
  none. The table is a parameter because trimming at the end reads the bytes backwards.\<close>

definition ws_len :: "string list \<Rightarrow> string \<Rightarrow> nat" where
  "ws_len tab s = (case s of [] \<Rightarrow> 0
     | c # _ \<Rightarrow> if ascii_ws c then 1
                else case find (starts_with s) tab of Some w \<Rightarrow> length w | None \<Rightarrow> 0)"

fun split_ws_from :: "string \<Rightarrow> nat \<Rightarrow> string \<Rightarrow> string list" where
  "split_ws_from acc k [] = (if acc = [] then [] else [acc])"
| "split_ws_from acc (Suc k) (c # s) = split_ws_from acc k s"
| "split_ws_from acc 0 (c # s) =
     (if ws_len multi_ws (c # s) = 0 then split_ws_from (acc @ [c]) 0 s
      else (if acc = [] then [] else [acc]) @ split_ws_from [] (ws_len multi_ws (c # s) - 1) s)"

abbreviation split_whitespace :: "string \<Rightarrow> string list" where
  "split_whitespace s \<equiv> split_ws_from [] 0 s"

fun trim_from :: "string list \<Rightarrow> nat \<Rightarrow> string \<Rightarrow> string" where
  "trim_from tab k [] = []"
| "trim_from tab (Suc k) (c # s) = trim_from tab k s"
| "trim_from tab 0 (c # s) =
     (if ws_len tab (c # s) = 0 then c # s else trim_from tab (ws_len tab (c # s) - 1) s)"

definition trim :: "string \<Rightarrow> string" where
  "trim s = rev (trim_from (map rev multi_ws) 0 (rev (trim_from multi_ws 0 s)))"

text \<open>On ASCII strings only the ASCII whitespace bytes count.\<close>

lemma ws_len_no_match:
  assumes "\<forall>w \<in> set tab. \<not> starts_with (c # s) w"
  shows "ws_len tab (c # s) = (if ascii_ws c then 1 else 0)"
proof -
  from assms have "find (starts_with (c # s)) tab = None"
    unfolding find_None_iff by blast
  then show ?thesis by (simp add: ws_len_def)
qed

lemma ws_len_ascii:
  assumes "ascii c"
  shows "ws_len multi_ws (c # s) = (if ascii_ws c then 1 else 0)"
    and "ws_len (map rev multi_ws) (c # s) = (if ascii_ws c then 1 else 0)"
proof -
  have "\<forall>w \<in> set multi_ws. \<not> starts_with (c # s) w \<and> \<not> starts_with (c # s) (rev w)"
    using assms by (auto simp: multi_ws_def ascii_def)
  then show "ws_len multi_ws (c # s) = (if ascii_ws c then 1 else 0)"
    and "ws_len (map rev multi_ws) (c # s) = (if ascii_ws c then 1 else 0)"
    by (simp_all add: ws_len_no_match)
qed

lemma split_ws_ascii_Cons:
  "ascii c \<Longrightarrow> split_ws_from acc 0 (c # s) =
     (if ascii_ws c then (if acc = [] then [] else [acc]) @ split_ws_from [] 0 s
      else split_ws_from (acc @ [c]) 0 s)"
  by (simp add: ws_len_ascii)

lemma trim_from_ascii:
  "list_all ascii s \<Longrightarrow> trim_from multi_ws 0 s = dropWhile ascii_ws s"
  "list_all ascii s \<Longrightarrow> trim_from (map rev multi_ws) 0 s = dropWhile ascii_ws s"
  by (induction s) (auto simp: ws_len_ascii)

lemma trim_ascii:
  assumes "list_all ascii s"
  shows "trim s = rev (dropWhile ascii_ws (rev (dropWhile ascii_ws s)))"
proof -
  have "list_all ascii (rev (dropWhile ascii_ws s))"
    using assms by (auto simp: list_all_iff dest: set_dropWhileD)
  with assms show ?thesis by (simp add: trim_def trim_from_ascii)
qed

lemma trim_plain:
  assumes "\<And>c. c \<in> set s \<Longrightarrow> ascii c \<and> \<not> ascii_ws c"
  shows "trim s = s"
proof -
  have "list_all ascii s" using assms by (simp add: list_all_iff)
  moreover have "dropWhile ascii_ws t = t" if "set t \<subseteq> set s" for t
    using that assms by (cases t) auto
  ultimately show ?thesis by (simp add: trim_ascii)
qed

lemma split_ws_dropWhile:
  "list_all ascii s \<Longrightarrow> split_whitespace (dropWhile ascii_ws s) = split_whitespace s"
  by (induction s) (auto simp: split_ws_ascii_Cons simp del: split_ws_from.simps(3))

lemma split_ws_snoc:
  assumes "list_all ascii s" "ascii_ws c"
  shows "split_ws_from acc 0 (s @ [c]) = split_ws_from acc 0 s"
  using assms
  by (induction s arbitrary: acc)
     (auto simp: split_ws_ascii_Cons ascii_ws_ascii simp del: split_ws_from.simps(3))

lemma split_ws_dropWhile_rev:
  "list_all ascii s \<Longrightarrow> split_whitespace (rev (dropWhile ascii_ws (rev s))) = split_whitespace s"
proof (induction s rule: rev_induct)
  case (snoc c s)
  then show ?case by (auto simp: split_ws_snoc)
qed simp

lemma split_ws_trim_ascii:
  assumes "list_all ascii s"
  shows "split_whitespace (trim s) = split_whitespace s"
proof -
  have "list_all ascii (dropWhile ascii_ws s)"
    using assms by (auto simp: list_all_iff dest: set_dropWhileD)
  then show ?thesis
    using assms by (simp add: trim_ascii split_ws_dropWhile_rev split_ws_dropWhile)
qed

text \<open>Tokens are never empty; every string that is not all whitespace has one.\<close>

lemma split_ws_tokens: "t \<in> set (split_ws_from acc k s) \<Longrightarrow> t \<noteq> []"
  by (induction acc k s rule: split_ws_from.induct) (auto split: if_splits)

lemma split_ws_acc: "acc \<noteq> [] \<Longrightarrow> split_ws_from acc k s \<noteq> []"
  by (induction acc k s rule: split_ws_from.induct) auto

lemma trim_from_Nil_split:
  "split_ws_from [] k s = [] \<Longrightarrow> trim_from multi_ws k s = []"
  by (induction "[] :: string" k s rule: split_ws_from.induct)
     (auto split: if_splits simp: split_ws_acc)

section \<open>Splitting, joining, case\<close>

text \<open>\<open>str::split(c)\<close>: one piece more than there are separators.\<close>

fun split_char :: "char \<Rightarrow> string \<Rightarrow> string list" where
  "split_char sep [] = [[]]"
| "split_char sep (c # s) =
     (if c = sep then [] # split_char sep s
      else case split_char sep s of [] \<Rightarrow> [[c]] | p # ps \<Rightarrow> (c # p) # ps)"

text \<open>\<open>str::split_once(c)\<close>.\<close>

fun split_once :: "char \<Rightarrow> string \<Rightarrow> (string \<times> string) option" where
  "split_once sep [] = None"
| "split_once sep (c # s) =
     (if c = sep then Some ([], s) else map_option (\<lambda>(a, b). (c # a, b)) (split_once sep s))"

fun join :: "'a list \<Rightarrow> 'a list list \<Rightarrow> 'a list" where
  "join sep [] = []"
| "join sep [x] = x"
| "join sep (x # y # xs) = x @ sep @ join sep (y # xs)"

lemma split_char_not_Nil [simp]: "split_char sep s \<noteq> []"
  by (induction s) (auto split: list.splits)

lemma split_char_single: "sep \<notin> set p \<Longrightarrow> split_char sep p = [p]"
  by (induction p) auto

lemma split_char_append:
  "sep \<notin> set p \<Longrightarrow> split_char sep (p @ sep # s) = p # split_char sep s"
  by (induction p) auto

lemma split_char_hd: "hd (split_char sep s) = takeWhile (\<lambda>c. c \<noteq> sep) s"
proof (induction s)
  case (Cons c s)
  then show ?case by (cases "split_char sep s") auto
qed simp

lemma split_char_join:
  "ps \<noteq> [] \<Longrightarrow> \<forall>p \<in> set ps. sep \<notin> set p \<Longrightarrow> split_char sep (join [sep] ps) = ps"
  by (induction "[sep]" ps rule: join.induct) (auto simp: split_char_single split_char_append)

lemma split_once_None_iff: "split_once sep s = None \<longleftrightarrow> sep \<notin> set s"
  by (induction s) auto

lemma split_once_append: "sep \<notin> set p \<Longrightarrow> split_once sep (p @ sep # s) = Some (p, s)"
  by (induction p) auto

definition strip_prefix :: "'a list \<Rightarrow> 'a list \<Rightarrow> 'a list option" where
  "strip_prefix p s = (if starts_with s p then Some (drop (length p) s) else None)"

lemma strip_prefix_append [simp]: "strip_prefix p (p @ s) = Some s"
  by (simp add: strip_prefix_def)

lemma strip_prefix_Some_iff: "strip_prefix p s = Some r \<longleftrightarrow> s = p @ r"
  by (auto simp: strip_prefix_def starts_with_iff)

definition lower_pairs :: "(char \<times> char) list" where
  "lower_pairs = zip ''ABCDEFGHIJKLMNOPQRSTUVWXYZ'' ''abcdefghijklmnopqrstuvwxyz''"

definition to_ascii_lowercase :: "string \<Rightarrow> string" where
  "to_ascii_lowercase = map (\<lambda>c. case map_of lower_pairs c of Some d \<Rightarrow> d | None \<Rightarrow> c)"

text \<open>\<open>str::to_lowercase\<close>, as far as a search for an ASCII needle can see it: the ASCII letters, and
  the only two other code points whose lower-case form contains an ASCII character, the Kelvin sign
  U+212A and the dotted capital I U+0130. The bytes of other characters stay, and never match an
  ASCII needle either way.\<close>

fun lower_from :: "nat \<Rightarrow> string \<Rightarrow> string" where
  "lower_from k [] = []"
| "lower_from (Suc k) (c # s) = lower_from k s"
| "lower_from 0 (c # s) =
     (if starts_with (c # s) [CHR 0xE2, CHR 0x84, CHR 0xAA] then CHR ''k'' # lower_from 2 s
      else if starts_with (c # s) [CHR 0xC4, CHR 0xB0] then CHR ''i'' # CHR 0xCC # CHR 0x87 # lower_from 1 s
      else to_ascii_lowercase [c] @ lower_from 0 s)"

definition to_lowercase :: "string \<Rightarrow> string" where
  "to_lowercase s = lower_from 0 s"

section \<open>Integer parsing\<close>

definition dec_digit :: "char \<Rightarrow> nat option" where
  "dec_digit = map_of (zip ''0123456789'' [0, 1, 2, 3, 4, 5, 6, 7, 8, 9])"

definition hex_digit :: "char \<Rightarrow> nat option" where
  "hex_digit = map_of (zip ''0123456789abcdefABCDEF''
     [0, 1, 2, 3, 4, 5, 6, 7, 8, 9, 10, 11, 12, 13, 14, 15, 10, 11, 12, 13, 14, 15])"

fun digits_val :: "(char \<Rightarrow> nat option) \<Rightarrow> nat \<Rightarrow> nat \<Rightarrow> string \<Rightarrow> nat option" where
  "digits_val dig radix acc [] = Some acc"
| "digits_val dig radix acc (c # s) =
     (case dig c of None \<Rightarrow> None | Some d \<Rightarrow> digits_val dig radix (radix * acc + d) s)"

text \<open>\<open>from_str_radix\<close> / \<open>parse\<close> of an unsigned type with \<open>bound\<close> values: an optional \<open>+\<close>, at
  least one digit, no overflow. A \<open>-\<close> is an invalid digit.\<close>

definition parse_unsigned :: "(char \<Rightarrow> nat option) \<Rightarrow> nat \<Rightarrow> nat \<Rightarrow> string \<Rightarrow> nat option" where
  "parse_unsigned dig radix bound s =
     (let ds = (if starts_with s ''+'' then tl s else s)
      in if ds = [] then None
         else case digits_val dig radix 0 ds of
                None \<Rightarrow> None
              | Some n \<Rightarrow> if n < bound then Some n else None)"

lemma parse_unsigned_bound: "parse_unsigned dig radix bound s = Some n \<Longrightarrow> n < bound"
  by (auto simp: parse_unsigned_def Let_def split: if_splits option.splits)

abbreviation parse_u32 :: "string \<Rightarrow> nat option" where
  "parse_u32 \<equiv> parse_unsigned dec_digit 10 4294967296"

abbreviation parse_usize :: "string \<Rightarrow> nat option" where
  "parse_usize \<equiv> parse_unsigned dec_digit 10 18446744073709551616"

abbreviation parse_u8_hex :: "string \<Rightarrow> nat option" where
  "parse_u8_hex \<equiv> parse_unsigned hex_digit 16 256"

text \<open>\<open>parse::<i64>\<close>: a sign, then digits, within the range of two's complement.\<close>

definition parse_i64 :: "string \<Rightarrow> int option" where
  "parse_i64 s =
     (let neg = starts_with s ''-'';
          ds = (if neg \<or> starts_with s ''+'' then tl s else s)
      in if ds = [] then None
         else case digits_val dec_digit 10 0 ds of
                None \<Rightarrow> None
              | Some n \<Rightarrow> let v = (if neg then - int n else int n)
                          in if - 9223372036854775808 \<le> v \<and> v < 9223372036854775808
                             then Some v else None)"

text \<open>\<open>to_string\<close> of an unsigned integer.\<close>

definition dec_char :: "nat \<Rightarrow> char" where
  "dec_char n = ''0123456789'' ! n"

fun show_nat :: "nat \<Rightarrow> string" where
  "show_nat n = (if n < 10 then [dec_char n] else show_nat (n div 10) @ [dec_char (n mod 10)])"

declare show_nat.simps [simp del]

lemma dec_digit_char: "n < 10 \<Longrightarrow> dec_digit (dec_char n) = Some n"
proof -
  assume "n < 10"
  then have "n \<in> {0, 1, 2, 3, 4, 5, 6, 7, 8, 9}" by auto
  then show ?thesis by (auto simp: dec_digit_def dec_char_def)
qed

lemma dec_char_not_plus: "n < 10 \<Longrightarrow> dec_char n \<noteq> CHR ''+'' \<and> dec_char n \<noteq> CHR ''-''"
  using dec_digit_char [of n] by (auto simp: dec_digit_def)

lemma digits_val_append:
  "digits_val dig radix acc (s @ t) =
     (case digits_val dig radix acc s of None \<Rightarrow> None | Some a \<Rightarrow> digits_val dig radix a t)"
  by (induction s arbitrary: acc) (auto split: option.splits)

lemma digits_val_show_nat: "digits_val dec_digit 10 0 (show_nat n) = Some n"
proof (induction n rule: show_nat.induct)
  case (1 n)
  show ?case
  proof (cases "n < 10")
    case True
    then show ?thesis by (simp add: show_nat.simps [of n] dec_digit_char)
  next
    case False
    with 1 show ?thesis
      by (simp add: show_nat.simps [of n] digits_val_append dec_digit_char)
  qed
qed

lemma show_nat_not_Nil [simp]: "show_nat n \<noteq> []"
  by (subst show_nat.simps) simp

lemma show_nat_hd: "\<exists>d < 10. hd (show_nat n) = dec_char d"
proof (induction n rule: show_nat.induct)
  case (1 n)
  then show ?case by (cases "n < 10") (auto simp: show_nat.simps [of n])
qed

lemma parse_show_nat: "n < bound \<Longrightarrow> parse_unsigned dec_digit 10 bound (show_nat n) = Some n"
proof -
  assume n: "n < bound"
  have "\<not> starts_with (show_nat n) ''+''"
    using show_nat_hd [of n] dec_char_not_plus by (cases "show_nat n") auto
  with n show ?thesis by (simp add: parse_unsigned_def digits_val_show_nat)
qed

text \<open>The lower-case hexadecimal form \<open>{:x}\<close>.\<close>

lemma show_nat_chars: "set (show_nat n) \<subseteq> dec_char ` {0..<10}"
proof (induction n rule: show_nat.induct)
  case (1 n)
  then show ?case by (cases "n < 10") (auto simp: show_nat.simps [of n])
qed

lemma dec_char_range: "dec_char ` {0..<10} = set ''0123456789''"
proof -
  have "{0..<10} = {0, 1, 2, 3, 4, 5, 6, 7, 8, 9 :: nat}" by auto
  then show ?thesis by (simp add: dec_char_def)
qed

lemma show_nat_plain: "c \<in> set (show_nat n) \<Longrightarrow> c \<in> set ''0123456789''"
  using show_nat_chars dec_char_range by blast

definition hex_char :: "nat \<Rightarrow> char" where
  "hex_char n = ''0123456789abcdef'' ! n"

fun show_hex :: "nat \<Rightarrow> string" where
  "show_hex n = (if n < 16 then [hex_char n] else show_hex (n div 16) @ [hex_char (n mod 16)])"

declare show_hex.simps [simp del]

section \<open>Bytes of integers\<close>

text \<open>\<open>to_le_bytes\<close> and \<open>from_le_bytes\<close> on \<open>n\<close> bytes; the big-endian forms are their reverse.\<close>

fun le_bytes :: "nat \<Rightarrow> nat \<Rightarrow> u8 list" where
  "le_bytes 0 v = []"
| "le_bytes (Suc n) v = of_nat (v mod 256) # le_bytes n (v div 256)"

fun le_nat :: "u8 list \<Rightarrow> nat" where
  "le_nat [] = 0"
| "le_nat (b # bs) = unat b + 256 * le_nat bs"

abbreviation be_nat :: "u8 list \<Rightarrow> nat" where
  "be_nat bs \<equiv> le_nat (rev bs)"

abbreviation be_bytes :: "nat \<Rightarrow> nat \<Rightarrow> u8 list" where
  "be_bytes n v \<equiv> rev (le_bytes n v)"

lemma le_bytes_length [simp]: "length (le_bytes n v) = n"
  by (induction n arbitrary: v) auto

lemma le_nat_bytes: "le_nat (le_bytes n v) = v mod 256 ^ n"
  by (induction n arbitrary: v) (auto simp: unat_of_nat mod_mult2_eq)

lemma le_nat_bytes_id [simp]: "v < 256 ^ n \<Longrightarrow> le_nat (le_bytes n v) = v"
  by (simp add: le_nat_bytes)

lemma unat_u8_less: "unat (b :: u8) < 256"
  using unsigned_less [of b] by simp

lemma le_nat_less: "le_nat bs < 256 ^ length bs"
proof (induction bs)
  case (Cons b bs)
  then show ?case using unat_u8_less [of b] by simp
qed simp

lemma le_bytes_nat: "length bs = n \<Longrightarrow> le_bytes n (le_nat bs) = bs"
proof (induction bs arbitrary: n)
  case (Cons b bs)
  then show ?case using unat_u8_less [of b] by auto
qed simp

section \<open>Bounded histories\<close>

text \<open>
  Several components keep the most recent entries of something (sandbox verdicts, working
  memory, action records, provenance entries): an entry is appended at the back and the oldest
  ones are dropped until the capacity is respected. The law below is what such a component
  promises while it is within its capacity.
\<close>

locale bounded_history =
  fixes push :: "'a \<Rightarrow> 'h \<Rightarrow> 'h"
    and entries :: "'h \<Rightarrow> 'a list"
    and limit :: "'h \<Rightarrow> nat"
  assumes push_entries:
      "length (entries h) \<le> limit h \<Longrightarrow>
       entries (push x h) = drop (Suc (length (entries h)) - limit h) (entries h @ [x])"
    and push_limit: "limit (push x h) = limit h"
begin

lemma push_within: "length (entries h) \<le> limit h \<Longrightarrow> length (entries (push x h)) \<le> limit (push x h)"
  by (simp add: push_entries push_limit)

lemma fold_push:
  assumes "length (entries h) \<le> limit h"
  shows "entries (fold push xs h) =
           drop (length (entries h) + length xs - limit h) (entries h @ xs)"
    and "limit (fold push xs h) = limit h"
proof -
  have "entries (fold push xs h) = drop (length (entries h) + length xs - limit h) (entries h @ xs)
        \<and> limit (fold push xs h) = limit h"
    using assms
  proof (induction xs arbitrary: h)
    case (Cons x xs)
    have within: "length (entries (push x h)) \<le> limit (push x h)"
      using Cons.prems by (rule push_within)
    show ?case
    proof (cases "length (entries h) < limit h")
      case True
      with Cons.IH [OF within] Cons.prems show ?thesis
        by (simp add: push_entries push_limit)
    next
      case False
      with Cons.prems have eq: "length (entries h) = limit h" by simp
      with Cons.IH [OF within] Cons.prems show ?thesis
        by (cases "limit h"; cases "entries h") (auto simp: push_entries push_limit)
    qed
  qed simp
  then show "entries (fold push xs h) =
           drop (length (entries h) + length xs - limit h) (entries h @ xs)"
    and "limit (fold push xs h) = limit h" by auto
qed

lemma fold_push_within:
  "length (entries h) \<le> limit h \<Longrightarrow> length (entries (fold push xs h)) \<le> limit h"
  by (simp add: fold_push(1))

end

end
