(* ===== verification/Sandbox_Policy.thy ===== *)
theory Sandbox_Policy
  imports Prelude "HOL-Library.Product_Lexorder"
begin

text \<open>
  The policy data of the command sandbox: \<open>soul_sandbox/src/types.rs\<close> and
  \<open>soul_sandbox/src/policy.rs\<close>. Tables are copied in the order of the source, since the
  first match decides which error is reported. Durations are in nanoseconds.
\<close>

section \<open>Errors, threats, verdicts\<close>

datatype SandboxError =
    Empty
  | Forbidden string
  | NotWhitelisted string
  | SensitivePath string
  | ShellEscape string
  | Io string

datatype ThreatKind =
    DestructiveRecursive | ForkBomb | RawDiskWrite | SystemConfigWrite | ShellEscapeThreat
  | DownloadExec | SensitivePathThreat | ShellBypass | EvalSource

text \<open>The derived \<open>Debug\<close> representation, which the error texts contain.\<close>

fun threat_debug :: "ThreatKind \<Rightarrow> string" where
  "threat_debug DestructiveRecursive = ''DestructiveRecursive''"
| "threat_debug ForkBomb = ''ForkBomb''"
| "threat_debug RawDiskWrite = ''RawDiskWrite''"
| "threat_debug SystemConfigWrite = ''SystemConfigWrite''"
| "threat_debug ShellEscapeThreat = ''ShellEscape''"
| "threat_debug DownloadExec = ''DownloadExec''"
| "threat_debug SensitivePathThreat = ''SensitivePath''"
| "threat_debug ShellBypass = ''ShellBypass''"
| "threat_debug EvalSource = ''EvalSource''"

record SandboxVerdict =
  command :: string
  command_normalized :: string
  binary :: string
  allowed :: bool
  reason :: string
  stdout :: string
  stderr :: string
  exit_code :: "int option"
  duration_ms :: nat
  started_at :: nat
  finished_at :: nat
  threats :: "string list"
  timed_out :: bool

section \<open>Tables\<close>

definition BANNED_BINARIES :: "string list" where
  "BANNED_BINARIES = [''sudo'', ''su'', ''doas'', ''pkexec'', ''bash'', ''sh'', ''zsh'',
     ''fish'', ''csh'', ''ksh'']"

definition FORBIDDEN_PATTERNS :: "(string \<times> ThreatKind) list" where
  "FORBIDDEN_PATTERNS =
    [(''rm -rf /'', DestructiveRecursive),
     (''rm -rf /*'', DestructiveRecursive),
     (''rm -rf ~'', DestructiveRecursive),
     (''rm -rf $HOME'', DestructiveRecursive),
     ('':(){ :|:& };:'', ForkBomb),
     ('' > /dev/sd'', RawDiskWrite),
     (''of=/dev/sd'', RawDiskWrite),
     (''dd if='', RawDiskWrite),
     (''mkfs'', RawDiskWrite),
     (''tee /etc/'', SystemConfigWrite),
     ('' > /etc/'', SystemConfigWrite),
     ('' > /boot/'', SystemConfigWrite),
     ('' > /sys/'', SystemConfigWrite),
     ('' > /proc/'', SystemConfigWrite),
     ('' > /var/'', SystemConfigWrite),
     ('' > /root/'', SystemConfigWrite),
     (''| sh'', DownloadExec),
     (''| bash'', DownloadExec),
     (''| sh'' @ [CHR 0x0A], DownloadExec),
     (''| sudo'', ShellEscapeThreat),
     (''|su -'', ShellEscapeThreat),
     (''| nc '', ShellEscapeThreat)]"

definition SHELL_BYPASS_TOKENS :: "(string \<times> ThreatKind) list" where
  "SHELL_BYPASS_TOKENS =
    [(''bash -c'', ShellBypass),
     (''sh -c'', ShellBypass),
     (''zsh -c'', ShellBypass),
     (''eval '', EvalSource),
     (''eval('', EvalSource),
     (''source '', EvalSource),
     (''. /'', EvalSource),
     (''exec '', ShellBypass),
     (''env '', ShellBypass),
     (''xargs '', ShellBypass),
     (''-delete'', ShellBypass),
     ('' -exec '', ShellBypass)]"

definition SENSITIVE_PATHS :: "string list" where
  "SENSITIVE_PATHS =
    [''/etc/'', ''/etc'', ''/boot/'', ''/boot'', ''/proc/'', ''/proc'', ''/sys/'', ''/sys'',
     ''/var/'', ''/var'', ''/root/'', ''/root'', ''/dev/sd'', ''/dev/nvme'', ''/dev/hd'',
     ''/dev/vd'', ''/usr/lib/'', ''/usr/lib64/'', ''/lib/'', ''/lib64/'', ''/sbin/'', ''/bin/'',
     ''/var/log/'', ''/var/lib/sudo'', ''/etc/shadow'', ''/etc/passwd'', ''/etc/sudoers'',
     ''/etc/ssh/'', ''/root/.ssh/'']"

text \<open>\<open>PathBuf::join\<close> with a relative path; the environment variable \<open>HOME\<close> is an argument.\<close>

definition path_join :: "string \<Rightarrow> string \<Rightarrow> string" where
  "path_join base rel =
     (if base = [] \<or> last base = CHR ''/'' then base @ rel else base @ ''/'' @ rel)"

definition default_hidden_paths :: "string option \<Rightarrow> string list" where
  "default_hidden_paths home =
     [''/etc/shadow'', ''/etc/gshadow'', ''/etc/ssh''] @
     (case home of None \<Rightarrow> []
      | Some h \<Rightarrow> map (path_join h) [''.ssh'', ''.aws'', ''.gnupg''])"

section \<open>Resource limits\<close>

record ResourceLimits =
  max_address_space_bytes :: "u64 option"
  max_processes :: "u64 option"
  max_open_files :: "u64 option"
  cgroup_pids_max :: "u64 option"
  cgroup_memory_max_bytes :: "u64 option"
  max_cpu_seconds :: "u64 option"
  max_file_size_bytes :: "u64 option"
  max_core_bytes :: "u64 option"

definition default_limits :: ResourceLimits where
  "default_limits =
    \<lparr> max_address_space_bytes = Some (4 * 1024 * 1024 * 1024),
      max_processes = None,
      max_open_files = Some 256,
      cgroup_pids_max = Some 512,
      cgroup_memory_max_bytes = None,
      max_cpu_seconds = Some 60,
      max_file_size_bytes = Some (256 * 1024 * 1024),
      max_core_bytes = Some 0 \<rparr>"

definition unlimited :: ResourceLimits where
  "unlimited =
    \<lparr> max_address_space_bytes = None, max_processes = None, max_open_files = None,
      cgroup_pids_max = None, cgroup_memory_max_bytes = None, max_cpu_seconds = None,
      max_file_size_bytes = None, max_core_bytes = None \<rparr>"

definition wants_cgroup :: "ResourceLimits \<Rightarrow> bool" where
  "wants_cgroup l \<longleftrightarrow> cgroup_pids_max l \<noteq> None \<or> cgroup_memory_max_bytes l \<noteq> None"

definition is_unlimited :: "ResourceLimits \<Rightarrow> bool" where
  "is_unlimited l \<longleftrightarrow> l = unlimited"

lemma unlimited_no_cgroup: "is_unlimited l \<Longrightarrow> \<not> wants_cgroup l"
  by (simp add: is_unlimited_def wants_cgroup_def unlimited_def)

section \<open>Network destinations\<close>

text \<open>\<open>IpAddr\<close> and \<open>SocketAddr\<close> of the standard library: an address is its octets read as a
  number, most significant first; a V6 socket address also has flow information and a scope.\<close>

datatype IpAddr = V4 u32 | V6 "128 word"

datatype SocketAddr = SocketAddrV4 u32 u16 | SocketAddrV6 "128 word" u16 u32 u32

text \<open>\<open>SocketAddr::new\<close> and \<open>SocketAddr::ip\<close>.\<close>

fun socket_addr_new :: "IpAddr \<Rightarrow> u16 \<Rightarrow> SocketAddr" where
  "socket_addr_new (V4 a) p = SocketAddrV4 a p"
| "socket_addr_new (V6 a) p = SocketAddrV6 a p 0 0"

fun socket_ip :: "SocketAddr \<Rightarrow> IpAddr" where
  "socket_ip (SocketAddrV4 a p) = V4 a"
| "socket_ip (SocketAddrV6 a p f sc) = V6 a"

text \<open>The derived order: V4 before V6, then the fields from the first to the last. A
  \<open>BTreeSet\<close> iterates in this order.\<close>

fun addr_key :: "SocketAddr \<Rightarrow> nat \<times> nat \<times> nat \<times> nat \<times> nat" where
  "addr_key (SocketAddrV4 a p) = (0, unat a, unat p, 0, 0)"
| "addr_key (SocketAddrV6 a p f sc) = (1, unat a, unat p, unat f, unat sc)"

lemma addr_key_inject: "addr_key a = addr_key b \<longleftrightarrow> a = b"
  by (cases a; cases b) (simp_all add: unsigned_word_eqI word_unat_eq_iff)

instantiation SocketAddr :: linorder
begin

definition less_eq_SocketAddr :: "SocketAddr \<Rightarrow> SocketAddr \<Rightarrow> bool" where
  "less_eq_SocketAddr a b \<longleftrightarrow> addr_key a \<le> addr_key b"

definition less_SocketAddr :: "SocketAddr \<Rightarrow> SocketAddr \<Rightarrow> bool" where
  "less_SocketAddr a b \<longleftrightarrow> addr_key a < addr_key b"

instance
proof
  fix a b c :: SocketAddr
  show "a < b \<longleftrightarrow> a \<le> b \<and> \<not> b \<le> a" by (auto simp: less_eq_SocketAddr_def less_SocketAddr_def)
  show "a \<le> a" by (simp add: less_eq_SocketAddr_def)
  show "a \<le> b \<Longrightarrow> b \<le> c \<Longrightarrow> a \<le> c" by (auto simp: less_eq_SocketAddr_def)
  show "a \<le> b \<Longrightarrow> b \<le> a \<Longrightarrow> a = b"
    unfolding less_eq_SocketAddr_def using addr_key_inject antisym by blast
  show "a \<le> b \<or> b \<le> a" by (auto simp: less_eq_SocketAddr_def)
qed

end

text \<open>The \<open>BTreeSet\<close> of permitted addresses and the names resolved when the policy was built.\<close>

record EgressPolicy =
  allowed_set :: "SocketAddr set"
  resolved_names :: "(string \<times> SocketAddr list) list"

section \<open>Sandbox policy\<close>

record SandboxPolicy =
  whitelist :: "string set option"
  timeout :: nat
  log_all :: bool
  block_sensitive_paths :: bool
  block_shell_bypass :: bool
  seccomp_profile :: "string option"
  network_isolated :: bool
  max_output_bytes :: nat
  resource_limits :: ResourceLimits
  pid_isolated :: bool
  mount_isolated :: bool
  hidden_paths :: "string list"
  egress_policy :: "EgressPolicy option"
  working_dir :: "string option"

definition default_policy :: "string option \<Rightarrow> SandboxPolicy" where
  "default_policy home =
    \<lparr> whitelist = None,
      timeout = 30 * 1000000000,
      log_all = True,
      block_sensitive_paths = True,
      block_shell_bypass = True,
      seccomp_profile = Some ''default'',
      network_isolated = True,
      max_output_bytes = 2 * 1024 * 1024,
      resource_limits = default_limits,
      pid_isolated = True,
      mount_isolated = True,
      hidden_paths = default_hidden_paths home,
      egress_policy = None,
      working_dir = None \<rparr>"

text \<open>\<open>SandboxPolicy::strict\<close>: banned binaries never enter the whitelist.\<close>

definition strict :: "string option \<Rightarrow> string list \<Rightarrow> SandboxPolicy" where
  "strict home binaries =
     (default_policy home)
       \<lparr> whitelist := Some (set (filter (\<lambda>b. b \<notin> set BANNED_BINARIES) binaries)) \<rparr>"

lemma strict_whitelist:
  "whitelist (strict home bs) = Some wl \<Longrightarrow> b \<in> wl \<longleftrightarrow> b \<in> set bs \<and> b \<notin> set BANNED_BINARIES"
  by (auto simp: strict_def)

end
