(* ===== verification/Sandbox_Normalize.thy ===== *)
theory Sandbox_Normalize
  imports Sandbox_Policy
begin

text \<open>
  The textual normalisation and sanitisation of commands: the free functions at the top of
  \<open>soul_sandbox/src/lib.rs\<close>. A loop over byte or character indices is a recursion on the
  remaining input. \<open>normalize\<close> is what the security checks look at; \<open>sanitize_for_execution\<close>
  is what is split into an argument vector and run.
\<close>

section \<open>ANSI C quoting\<close>

text \<open>The bytes \<open>$'\x\<close> that open a quoted hexadecimal escape.\<close>

definition ansi_open :: string where
  "ansi_open = [CHR ''$'', CHR 0x27, CHR 0x5C, CHR ''x'']"

fun collect_hex :: "string \<Rightarrow> string \<Rightarrow> string \<times> string" where
  "collect_hex hex [] = (hex, [])"
| "collect_hex hex (c # s) =
     (if c \<noteq> CHR 0x27 \<and> length hex < 2 then collect_hex (hex @ push_byte_as_char c) s
      else (hex, c # s))"

definition ansi_escape_at :: "string \<Rightarrow> (string \<times> string) option" where
  "ansi_escape_at s =
     (if starts_with s ansi_open
      then (case collect_hex [] (drop 4 s) of
              (hex, r) \<Rightarrow>
                if length hex = 2 \<and> starts_with r [CHR 0x27]
                then map_option (\<lambda>b. (push_byte_as_char (char_of b), tl r)) (parse_u8_hex hex)
                else None)
      else None)"

lemma collect_hex_shrinks: "collect_hex h s = (h', r) \<Longrightarrow> length r \<le> length s"
  by (induction h s rule: collect_hex.induct) (auto split: if_splits)

lemma ansi_escape_shrinks: "ansi_escape_at s = Some (out, r) \<Longrightarrow> length r < length s"
  by (auto simp: ansi_escape_at_def starts_with_iff ansi_open_def split: if_splits prod.splits
      dest!: collect_hex_shrinks)

function decode_ansi_c_quoting :: "string \<Rightarrow> string" where
  "decode_ansi_c_quoting [] = []"
| "decode_ansi_c_quoting (c # s) =
     (case ansi_escape_at (c # s) of
        Some (out, r) \<Rightarrow> out @ decode_ansi_c_quoting r
      | None \<Rightarrow> push_byte_as_char c @ decode_ansi_c_quoting s)"
  by pat_completeness auto
termination
  by (relation "measure length") (auto dest: ansi_escape_shrinks)

section \<open>IFS, backticks, command substitution\<close>

definition neutralize_ifs :: "string \<Rightarrow> string" where
  "neutralize_ifs s = replace_all (replace_all s ''${IFS}'' '' '') ''$_IFS'' '' ''"

text \<open>\<open>blank_subst depth\<close> is the scanning loop: at depth 0 it copies bytes until \<open>$(\<close>, inside a
  substitution it emits one space per byte until the parentheses balance.\<close>

fun blank_subst :: "nat \<Rightarrow> string \<Rightarrow> string" where
  "blank_subst depth [] = []"
| "blank_subst (Suc depth) (c # s) =
     CHR '' '' # blank_subst (if c = CHR ''('' then Suc (Suc depth)
                              else if c = CHR '')'' then depth else Suc depth) s"
| "blank_subst 0 [c] = push_byte_as_char c"
| "blank_subst 0 (c # d # s) =
     (if c = CHR ''$'' \<and> d = CHR ''('' then CHR '' '' # CHR '' '' # blank_subst 1 s
      else push_byte_as_char c @ blank_subst 0 (d # s))"

definition neutralize_shell_metachars :: "string \<Rightarrow> string" where
  "neutralize_shell_metachars s = blank_subst 0 (filter (\<lambda>c. c \<noteq> CHR ''`'') s)"

definition normalize :: "string \<Rightarrow> string" where
  "normalize cmd = neutralize_shell_metachars (neutralize_ifs (decode_ansi_c_quoting cmd))"

section \<open>Redirections, pipes, separators\<close>

function neutralize_redirects_and_pipes :: "string \<Rightarrow> string" where
  "neutralize_redirects_and_pipes [] = []"
| "neutralize_redirects_and_pipes (c # s) =
     (if c = CHR ''|'' then
        (if starts_with s ''|'' then ''  '' @ neutralize_redirects_and_pipes (tl s)
         else '' '' @ neutralize_redirects_and_pipes s)
      else if c = CHR ''&'' then
        (if starts_with s ''&'' then ''  '' @ neutralize_redirects_and_pipes (tl s)
         else c # neutralize_redirects_and_pipes s)
      else if c = CHR '';'' then '' '' @ neutralize_redirects_and_pipes s
      else if c = CHR ''>'' \<or> c = CHR ''<'' then '' '' @ neutralize_redirects_and_pipes s
      else c # neutralize_redirects_and_pipes s)"
  by pat_completeness auto
termination
  by (relation "measure length") auto

definition sanitize_for_execution :: "string \<Rightarrow> string" where
  "sanitize_for_execution cmd = neutralize_redirects_and_pipes cmd"

section \<open>What sanitising removes\<close>

definition shell_operator :: "char \<Rightarrow> bool" where
  "shell_operator c \<longleftrightarrow> c \<in> set ''|;<>''"

lemma starts_with_one: "starts_with s [a] \<longleftrightarrow> (\<exists>r. s = a # r)"
  by (simp add: starts_with_iff)

lemma starts_with_two: "starts_with s [a, b] \<longleftrightarrow> (\<exists>r. s = a # b # r)"
  by (simp add: starts_with_iff)

text \<open>The three things the loop does: blank a doubled operator, blank a single one, copy.\<close>

definition doubled :: "char \<Rightarrow> string \<Rightarrow> bool" where
  "doubled c s \<longleftrightarrow> (c = CHR ''|'' \<or> c = CHR ''&'') \<and> starts_with s [c]"

lemma redirects_Cons:
  "neutralize_redirects_and_pipes (c # s) =
     (if doubled c s then ''  '' @ neutralize_redirects_and_pipes (tl s)
      else (if shell_operator c then CHR '' '' else c) # neutralize_redirects_and_pipes s)"
  by (simp add: doubled_def shell_operator_def)

lemma redirects_induct [case_names Nil doubled single]:
  assumes "P []"
    and "\<And>c s. doubled c (c # s) \<Longrightarrow> P s \<Longrightarrow> P (c # c # s)"
    and "\<And>c s. \<not> doubled c s \<Longrightarrow> P s \<Longrightarrow> P (c # s)"
  shows "P s"
proof (induction s rule: length_induct)
  case (1 s)
  show ?case
  proof (cases s)
    case (Cons c t)
    show ?thesis
    proof (cases "doubled c t")
      case True
      then obtain u where "t = c # u" by (auto simp: doubled_def starts_with_one)
      with True 1 Cons show ?thesis by (auto intro: assms(2))
    qed (use 1 Cons assms(3) in auto)
  qed (use assms(1) in simp)
qed

declare neutralize_redirects_and_pipes.simps(2) [simp del]

lemma redirects_length: "length (neutralize_redirects_and_pipes s) = length s"
  by (induction s rule: redirects_induct) (simp_all add: redirects_Cons)

lemma space_not_operator [simp]: "\<not> shell_operator (CHR '' '')"
  by (simp add: shell_operator_def)

lemma redirects_no_operator:
  "c \<in> set (neutralize_redirects_and_pipes s) \<Longrightarrow> \<not> shell_operator c"
  by (induction s rule: redirects_induct) (auto simp: redirects_Cons split: if_splits)

lemma redirects_head_amp:
  "neutralize_redirects_and_pipes s = CHR ''&'' # r \<Longrightarrow> starts_with s ''&''"
  by (cases s) (auto simp: redirects_Cons split: if_splits)

lemma redirects_no_and: "\<not> contains (neutralize_redirects_and_pipes s) ''&&''"
proof (induction s rule: redirects_induct)
  case (single c s)
  have "\<not> starts_with (c # neutralize_redirects_and_pipes s) ''&&''"
    using single.hyps by (auto simp: starts_with_two doubled_def dest!: redirects_head_amp)
  with single show ?case by (simp add: redirects_Cons)
qed (simp_all add: redirects_Cons)

lemma redirects_id:
  "\<forall>c \<in> set s. \<not> shell_operator c \<Longrightarrow> \<not> contains s ''&&'' \<Longrightarrow>
   neutralize_redirects_and_pipes s = s"
proof (induction s rule: redirects_induct)
  case (doubled c s)
  then show ?case by (auto simp: doubled_def shell_operator_def)
qed (auto simp: redirects_Cons)

lemma sanitize_idem:
  "sanitize_for_execution (sanitize_for_execution s) = sanitize_for_execution s"
  by (simp add: sanitize_for_execution_def redirects_id redirects_no_and)
     (meson redirects_id redirects_no_and redirects_no_operator)

section \<open>What normalising removes\<close>

lemma push_special:
  assumes "c \<in> set (push_byte_as_char d)" and "ascii c"
  shows "c = d"
  using assms by (cases "ascii d") (auto dest: push_not_ascii)

lemma blank_subst_chars:
  "c \<in> set (blank_subst d s) \<Longrightarrow> ascii c \<Longrightarrow> c = CHR '' '' \<or> c \<in> set s"
  by (induction d s rule: blank_subst.induct) (auto dest: push_special split: if_splits)

lemma blank_subst_head_paren:
  "blank_subst d s = CHR ''('' # r \<Longrightarrow> d = 0 \<and> (\<exists>t. s = CHR ''('' # t)"
proof (induction d s rule: blank_subst.induct)
  case (3 c)
  then show ?case using push_special [of "CHR ''(''" c] by (auto simp: ascii_def)
next
  case (4 c e s)
  then have "hd (push_byte_as_char c) = CHR ''(''"
    by (cases "push_byte_as_char c") (auto split: if_splits)
  then have "CHR ''('' \<in> set (push_byte_as_char c)"
    by (metis list.set_sel(1) push_not_Nil)
  then show ?case using push_special [of "CHR ''(''" c] by (auto simp: ascii_def)
qed auto

lemma starts_dollar_paren_push:
  assumes "starts_with (push_byte_as_char c @ r) ''$(''"
  shows "c = CHR ''$'' \<and> (\<exists>t. r = CHR ''('' # t)"
  using assms by (cases "ascii c") (auto simp: starts_with_two push_byte_as_char_def split: if_splits)

lemma contains_push:
  "contains (push_byte_as_char c @ r) ''$('' \<longleftrightarrow>
     starts_with (push_byte_as_char c @ r) ''$('' \<or> contains r ''$(''"
  by (cases "ascii c") (auto simp: push_byte_as_char_def)

lemma blank_subst_no_substitution: "\<not> contains (blank_subst d s) ''$(''"
proof (induction d s rule: blank_subst.induct)
  case (3 c)
  then show ?case using contains_push [of c "[]"] starts_dollar_paren_push [of c "[]"] by auto
next
  case (4 c e s)
  then show ?case
    by (auto simp: contains_push dest!: starts_dollar_paren_push blank_subst_head_paren
        split: if_splits)
qed auto

lemma normalize_no_backtick: "CHR ''`'' \<notin> set (normalize cmd)"
  by (auto simp: normalize_def neutralize_shell_metachars_def ascii_def dest!: blank_subst_chars)

lemma normalize_no_substitution: "\<not> contains (normalize cmd) ''$(''"
  by (simp add: normalize_def neutralize_shell_metachars_def blank_subst_no_substitution)

section \<open>Plain commands\<close>

text \<open>A command made of ASCII bytes without shell metacharacters is what an operator normally
  types. Neither normalising nor sanitising touches it.\<close>

definition plain_char :: "char \<Rightarrow> bool" where
  "plain_char c \<longleftrightarrow> ascii c \<and> c \<notin> set ''$`|&;<>''"

definition plain :: "string \<Rightarrow> bool" where
  "plain s \<longleftrightarrow> list_all plain_char s"

lemma plain_ascii: "plain s \<Longrightarrow> list_all ascii s"
  by (auto simp: plain_def plain_char_def list_all_iff)

lemma decode_ansi_plain:
  "list_all ascii s \<Longrightarrow> CHR ''$'' \<notin> set s \<Longrightarrow> decode_ansi_c_quoting s = s"
proof (induction s)
  case (Cons c s)
  then have "ansi_escape_at (c # s) = None"
    by (auto simp: ansi_escape_at_def ansi_open_def)
  with Cons show ?case by simp
qed simp

lemma blank_subst_plain:
  "list_all ascii s \<Longrightarrow> CHR ''$'' \<notin> set s \<Longrightarrow> blank_subst 0 s = s"
  by (induction "0 :: nat" s rule: blank_subst.induct) auto

lemma normalize_plain: "plain s \<Longrightarrow> normalize s = s"
proof -
  assume p: "plain s"
  then have *: "list_all ascii s" "CHR ''$'' \<notin> set s" "filter (\<lambda>c. c \<noteq> CHR ''`'') s = s"
    by (auto simp: plain_def plain_char_def list_all_iff filter_id_conv)
  then show ?thesis
    by (simp add: normalize_def neutralize_shell_metachars_def neutralize_ifs_def
        decode_ansi_plain blank_subst_plain replace_all_absent)
qed

lemma plain_no_and: "plain s \<Longrightarrow> \<not> contains s ''&&''"
  by (auto simp: contains_iff plain_def plain_char_def)

lemma plain_no_operator: "plain s \<Longrightarrow> \<forall>c \<in> set s. \<not> shell_operator c"
  by (auto simp: plain_def plain_char_def list_all_iff shell_operator_def)

lemma sanitize_plain: "plain s \<Longrightarrow> sanitize_for_execution s = s"
  by (simp add: sanitize_for_execution_def redirects_id plain_no_and plain_no_operator)

end
