(* ===== verification/Sandbox_Check.thy ===== *)
theory Sandbox_Check
  imports Sandbox_Normalize
begin

text \<open>
  The decision part of \<open>soul_sandbox/src/lib.rs\<close>: which commands a policy admits
  (\<open>Sandbox::scan\<close>, \<open>scan_paths\<close>, \<open>head_binary\<close>, \<open>check\<close>, \<open>check_argv\<close>), the structured argument
  vectors (\<open>SpawnSpec\<close>) and the commands built from them (\<open>build_command\<close>,
  \<open>supervised_command\<close>).
\<close>

section \<open>Scanning and checking command strings\<close>

definition first_token :: "string \<Rightarrow> string" where
  "first_token s = (case split_whitespace s of [] \<Rightarrow> [] | t # _ \<Rightarrow> t)"

definition head_binary :: "string \<Rightarrow> string" where
  "head_binary cmd = first_token (normalize cmd)"

definition scan :: "SandboxPolicy \<Rightarrow> string \<Rightarrow> ThreatKind list" where
  "scan pol cmd =
     (let normalized = normalize cmd
      in map snd (filter (\<lambda>(pat, _). contains normalized pat) FORBIDDEN_PATTERNS)
         @ (if block_shell_bypass pol
            then map snd (filter (\<lambda>(tok, _). contains normalized tok) SHELL_BYPASS_TOKENS)
            else []))"

definition scan_paths :: "string \<Rightarrow> string list" where
  "scan_paths cmd = (let normalized = normalize cmd in filter (contains normalized) SENSITIVE_PATHS)"

definition find_pattern :: "string \<Rightarrow> (string \<times> ThreatKind) list \<Rightarrow> (string \<times> ThreatKind) option" where
  "find_pattern s tab = find (\<lambda>(pat, _). contains s pat) tab"

fun pattern_error :: "string \<times> ThreatKind \<Rightarrow> SandboxError" where
  "pattern_error (pat, kind) = Forbidden (threat_debug kind @ '' ('' @ pat @ '')'')"

definition banned_error :: "string \<Rightarrow> SandboxError" where
  "banned_error bin = ShellEscape (''binaire banni: '' @ bin)"

definition check :: "SandboxPolicy \<Rightarrow> string \<Rightarrow> SandboxError + string" where
  "check pol cmd =
     (let trimmed = trim cmd in
      if trimmed = [] then Inl Empty
      else let normalized = normalize trimmed; bin = first_token normalized in
      if bin \<in> set BANNED_BINARIES then Inl (banned_error bin)
      else case find_pattern normalized FORBIDDEN_PATTERNS of
        Some p \<Rightarrow> Inl (pattern_error p)
      | None \<Rightarrow>
      (case (if block_shell_bypass pol then find_pattern normalized SHELL_BYPASS_TOKENS else None) of
        Some p \<Rightarrow> Inl (pattern_error p)
      | None \<Rightarrow>
      (case (if block_sensitive_paths pol then find (contains normalized) SENSITIVE_PATHS else None) of
        Some path \<Rightarrow> Inl (SensitivePath path)
      | None \<Rightarrow>
      (case whitelist pol of
        Some wl \<Rightarrow> if bin \<notin> wl then Inl (NotWhitelisted bin) else Inr bin
      | None \<Rightarrow> Inr bin))))"

section \<open>Checking argument vectors\<close>

text \<open>The test \<open>if let Some(ref whitelist) = ... { if !whitelist.contains(program) ... }\<close>.\<close>

definition whitelisted :: "SandboxPolicy \<Rightarrow> string \<Rightarrow> bool" where
  "whitelisted pol bin \<longleftrightarrow> (case whitelist pol of None \<Rightarrow> True | Some wl \<Rightarrow> bin \<in> wl)"

fun sensitive_argument :: "string list \<Rightarrow> string option" where
  "sensitive_argument [] = None"
| "sensitive_argument (argument # rest) =
     (case find (contains argument) SENSITIVE_PATHS of
        Some path \<Rightarrow> Some path
      | None \<Rightarrow> sensitive_argument rest)"

definition check_argv :: "SandboxPolicy \<Rightarrow> string list \<Rightarrow> SandboxError + string" where
  "check_argv pol argv =
     (case argv of
        [] \<Rightarrow> Inl Empty
      | program # rest \<Rightarrow>
        if trim program = [] then Inl Empty
        else if program \<in> set BANNED_BINARIES then Inl (banned_error program)
        else if \<not> whitelisted pol program then Inl (NotWhitelisted program)
        else let normalized = normalize (join '' '' argv) in
        case find_pattern normalized FORBIDDEN_PATTERNS of
          Some p \<Rightarrow> Inl (pattern_error p)
        | None \<Rightarrow>
        (case (if block_shell_bypass pol then find_pattern normalized SHELL_BYPASS_TOKENS else None) of
          Some p \<Rightarrow> Inl (pattern_error p)
        | None \<Rightarrow>
        (case (if block_sensitive_paths pol then sensitive_argument rest else None) of
          Some path \<Rightarrow> Inl (SensitivePath path)
        | None \<Rightarrow> Inr program)))"

section \<open>Structured argument vectors\<close>

record SpawnSpec =
  program :: string
  args :: "string list"
  piped :: bool
  capture_stderr :: bool

definition spec_new :: "string \<Rightarrow> SpawnSpec" where
  "spec_new p = \<lparr>program = p, args = [], piped = False, capture_stderr = False\<rparr>"

definition piped_stdio :: "SpawnSpec \<Rightarrow> SpawnSpec" where
  "piped_stdio sp = sp\<lparr>piped := True\<rparr>"

definition captured_stdio :: "SpawnSpec \<Rightarrow> SpawnSpec" where
  "captured_stdio sp = sp\<lparr>piped := True, capture_stderr := True\<rparr>"

definition VALUE_SENTINEL :: string where
  "VALUE_SENTINEL = CHR 0x00 # ''soul_sandbox:value'' @ [CHR 0x00]"

definition spec_flag :: "string \<Rightarrow> SpawnSpec \<Rightarrow> SpawnSpec" where
  "spec_flag arg sp = sp\<lparr>args := args sp @ [arg]\<rparr>"

definition spec_value :: "string \<Rightarrow> SpawnSpec \<Rightarrow> SpawnSpec" where
  "spec_value arg sp = sp\<lparr>args := (args sp @ [VALUE_SENTINEL]) @ [arg]\<rparr>"

text \<open>The \<open>Debug\<close> rendering of a string, used in one error text: quotes and backslashes are
  escaped, control characters are named or written \<open>\u{..}\<close>, the other bytes are copied.\<close>

definition escape_debug :: "char \<Rightarrow> string" where
  "escape_debug c =
     (if c = CHR 0x22 then [CHR 0x5C, CHR 0x22]
      else if c = CHR 0x5C then [CHR 0x5C, CHR 0x5C]
      else if c = CHR 0x0A then CHR 0x5C # ''n''
      else if c = CHR 0x0D then CHR 0x5C # ''r''
      else if c = CHR 0x09 then CHR 0x5C # ''t''
      else if c = CHR 0x00 then CHR 0x5C # ''0''
      else let n = (of_char c :: nat) in
        if n < 16 then CHR 0x5C # ''u{'' @ [hex_char n] @ ''}''
        else if n < 32 \<or> n = 127
          then CHR 0x5C # ''u{'' @ [hex_char (n div 16), hex_char (n mod 16)] @ ''}''
        else [c])"

definition str_debug :: "string \<Rightarrow> string" where
  "str_debug s = [CHR 0x22] @ concat (map escape_debug s) @ [CHR 0x22]"

definition injection_error :: "string \<Rightarrow> SandboxError" where
  "injection_error arg =
     Forbidden (''argument injection: caller-supplied value '' @ str_debug arg
       @ '' begins with '' @ [CHR 0x27] @ ''-'' @ [CHR 0x27]
       @ '' and would be parsed as a flag by the spawned program'')"

definition nul_error :: SandboxError where
  "nul_error = Forbidden ''caller-supplied value contains a NUL byte''"

fun resolve_args :: "bool \<Rightarrow> string list \<Rightarrow> SandboxError + string list" where
  "resolve_args expecting_value [] = Inr []"
| "resolve_args expecting_value (arg # rest) =
     (if arg = VALUE_SENTINEL then resolve_args True rest
      else if expecting_value \<and> starts_with arg ''-'' then Inl (injection_error arg)
      else if expecting_value \<and> CHR 0x00 \<in> set arg then Inl nul_error
      else map_sum id (Cons arg) (resolve_args False rest))"

definition resolve :: "SpawnSpec \<Rightarrow> SandboxError + (string \<times> string list)" where
  "resolve sp =
     (if trim (program sp) = [] then Inl Empty
      else map_sum id (Pair (program sp)) (resolve_args False (args sp)))"

definition preview :: "SpawnSpec \<Rightarrow> SandboxError + string list" where
  "preview sp = map_sum id (\<lambda>(p, as). p # as) (resolve sp)"

section \<open>Commands\<close>

datatype Stdio = Null | Piped | Inherit

text \<open>A \<open>std::process::Command\<close>: what would be executed, and the isolation hook. The last field
  is \<open>None\<close> while no hook is registered and \<open>Some procs\<close> once \<open>apply_sandbox_pre_exec\<close> was
  called with that \<open>cgroup_procs\<close>.\<close>

record Command =
  cmd_argv :: "string list"
  cmd_stdin :: Stdio
  cmd_stdout :: Stdio
  cmd_stderr :: Stdio
  cmd_cwd :: "string option"
  cmd_hook :: "string option option"

text \<open>\<open>build_command\<close> indexes \<open>parts[0]\<close> without a check: it panics on a command with no token.\<close>

definition build_command :: "SandboxPolicy \<Rightarrow> string \<Rightarrow> Stdio \<Rightarrow> (Command \<times> string \<times> string list) run" where
  "build_command pol cmd stdin_mode =
     (case split_whitespace cmd of
        [] \<Rightarrow> Panicked
      | p # ps \<Rightarrow> Returned
          (\<lparr>cmd_argv = p # ps, cmd_stdin = stdin_mode, cmd_stdout = Piped, cmd_stderr = Piped,
            cmd_cwd = working_dir pol, cmd_hook = None\<rparr>, p, p # ps))"

definition apply_hook :: "string option \<Rightarrow> Command \<Rightarrow> Command" where
  "apply_hook cgroup_procs c = c\<lparr>cmd_hook := Some cgroup_procs\<rparr>"

definition supervised_command :: "SandboxPolicy \<Rightarrow> SpawnSpec \<Rightarrow> SandboxError + Command" where
  "supervised_command pol sp =
     bind_res (resolve sp) (\<lambda>(prog, as).
     bind_res (check_argv pol (prog # as)) (\<lambda>_.
       Inr (apply_hook None
         \<lparr>cmd_argv = prog # as,
          cmd_stdin = (if piped sp then Piped else Null),
          cmd_stdout = (if piped sp then Piped else Null),
          cmd_stderr = (if piped sp then (if capture_stderr sp then Piped else Inherit) else Null),
          cmd_cwd = working_dir pol, cmd_hook = None\<rparr>)))"

section \<open>What \<open>check\<close> admits\<close>

lemma find_pattern_None: "find_pattern s tab = None \<longleftrightarrow> (\<forall>(pat, kind) \<in> set tab. \<not> contains s pat)"
  by (auto simp: find_pattern_def find_None_iff)

lemma find_contains_None: "find (contains s) tab = None \<longleftrightarrow> (\<forall>pat \<in> set tab. \<not> contains s pat)"
  by (auto simp: find_None_iff)

lemma scan_Nil_iff:
  "scan pol cmd = [] \<longleftrightarrow>
     find_pattern (normalize cmd) FORBIDDEN_PATTERNS = None \<and>
     (block_shell_bypass pol \<longrightarrow> find_pattern (normalize cmd) SHELL_BYPASS_TOKENS = None)"
  by (auto simp: scan_def Let_def find_pattern_None filter_empty_conv)

lemma scan_paths_Nil_iff: "scan_paths cmd = [] \<longleftrightarrow> find (contains (normalize cmd)) SENSITIVE_PATHS = None"
  by (simp add: scan_paths_def Let_def find_contains_None filter_empty_conv)

lemma check_Inr_iff:
  "check pol cmd = Inr bin \<longleftrightarrow>
     trim cmd \<noteq> [] \<and> bin = head_binary (trim cmd) \<and> bin \<notin> set BANNED_BINARIES \<and>
     scan pol (trim cmd) = [] \<and>
     (block_sensitive_paths pol \<longrightarrow> scan_paths (trim cmd) = []) \<and> whitelisted pol bin"
  by (auto simp: check_def Let_def head_binary_def scan_Nil_iff scan_paths_Nil_iff whitelisted_def
      split: option.splits if_splits)

lemma sensitive_argument_None:
  "sensitive_argument rest = None \<longleftrightarrow>
     (\<forall>arg \<in> set rest. \<forall>path \<in> set SENSITIVE_PATHS. \<not> contains arg path)"
  by (induction rest) (auto simp: find_contains_None split: option.splits dest: find_SomeD)

lemma check_argv_Inr_iff:
  "check_argv pol argv = Inr bin \<longleftrightarrow>
     (\<exists>rest. argv = bin # rest \<and> trim bin \<noteq> [] \<and> bin \<notin> set BANNED_BINARIES \<and>
        whitelisted pol bin \<and> scan pol (join '' '' argv) = [] \<and>
        (block_sensitive_paths pol \<longrightarrow>
           (\<forall>arg \<in> set rest. \<forall>path \<in> set SENSITIVE_PATHS. \<not> contains arg path)))"
  unfolding sensitive_argument_None [symmetric] scan_Nil_iff
  by (cases argv) (auto simp: check_argv_def Let_def split: option.splits if_splits)

section \<open>What a specification resolves to\<close>

text \<open>The arguments a caller of the builder adds, and the builder folded over them.\<close>

datatype spec_arg = Flag string | Value string

fun add_arg :: "spec_arg \<Rightarrow> SpawnSpec \<Rightarrow> SpawnSpec" where
  "add_arg (Flag a) sp = spec_flag a sp"
| "add_arg (Value a) sp = spec_value a sp"

definition spec_of :: "string \<Rightarrow> spec_arg list \<Rightarrow> SpawnSpec" where
  "spec_of prog as = fold add_arg as (spec_new prog)"

fun arg_text :: "spec_arg \<Rightarrow> string" where
  "arg_text (Flag a) = a"
| "arg_text (Value a) = a"

fun arg_safe :: "spec_arg \<Rightarrow> bool" where
  "arg_safe (Flag a) = True"
| "arg_safe (Value a) = (\<not> starts_with a ''-'' \<and> CHR 0x00 \<notin> set a)"

fun raw_args :: "spec_arg \<Rightarrow> string list" where
  "raw_args (Flag a) = [a]"
| "raw_args (Value a) = [VALUE_SENTINEL, a]"

lemma fold_add_arg:
  "args (fold add_arg as sp) = args sp @ concat (map raw_args as) \<and>
   program (fold add_arg as sp) = program sp"
proof (induction as arbitrary: sp)
  case (Cons a as)
  then show ?case by (cases a) (auto simp: spec_flag_def spec_value_def)
qed simp

lemma sentinel_simps:
  "VALUE_SENTINEL \<noteq> []" "\<not> starts_with VALUE_SENTINEL ''-''" "CHR 0x00 \<in> set VALUE_SENTINEL"
  by (simp_all add: VALUE_SENTINEL_def)

lemma resolve_args_raw:
  assumes "\<forall>a \<in> set as. arg_text a \<noteq> VALUE_SENTINEL"
  shows "(\<exists>r. resolve_args False (concat (map raw_args as)) = Inr r) \<longleftrightarrow> list_all arg_safe as"
    and "list_all arg_safe as \<Longrightarrow>
         resolve_args False (concat (map raw_args as)) = Inr (map arg_text as)"
proof -
  have "(if list_all arg_safe as
         then resolve_args False (concat (map raw_args as)) = Inr (map arg_text as)
         else \<exists>e. resolve_args False (concat (map raw_args as)) = Inl e)"
    using assms
  proof (induction as)
    case (Cons a as)
    then show ?case by (cases a) (auto split: if_splits)
  qed simp
  then show "(\<exists>r. resolve_args False (concat (map raw_args as)) = Inr r) \<longleftrightarrow> list_all arg_safe as"
    and "list_all arg_safe as \<Longrightarrow>
         resolve_args False (concat (map raw_args as)) = Inr (map arg_text as)"
    by (auto split: if_splits)
qed

lemma preview_spec_of:
  assumes "\<forall>a \<in> set as. arg_text a \<noteq> VALUE_SENTINEL"
  shows "preview (spec_of prog as) = Inr argv \<longleftrightarrow>
           trim prog \<noteq> [] \<and> list_all arg_safe as \<and> argv = prog # map arg_text as"
proof -
  have a: "args (spec_of prog as) = concat (map raw_args as)" "program (spec_of prog as) = prog"
    using fold_add_arg [of as "spec_new prog"] by (auto simp: spec_of_def spec_new_def)
  show ?thesis
    using resolve_args_raw [OF assms]
    by (auto simp: preview_def resolve_def a map_sum_def split: sum.splits)
qed

lemma supervised_command_Inr:
  assumes "supervised_command pol sp = Inr c"
  shows "preview sp = Inr (cmd_argv c)" "check_argv pol (cmd_argv c) = Inr (hd (cmd_argv c))"
    "cmd_hook c = Some None"
proof -
  from assms obtain prog as b where *: "resolve sp = Inr (prog, as)" "check_argv pol (prog # as) = Inr b"
    "cmd_argv c = prog # as" "cmd_hook c = Some None"
    by (auto simp: supervised_command_def bind_res_Inr_iff apply_hook_def)
  moreover from *(2) have "b = prog" by (auto simp: check_argv_Inr_iff)
  ultimately show "preview sp = Inr (cmd_argv c)"
    "check_argv pol (cmd_argv c) = Inr (hd (cmd_argv c))" "cmd_hook c = Some None"
    by (auto simp: preview_def)
qed

section \<open>Which program a checked command string starts\<close>

lemma first_token_trim: "list_all ascii s \<Longrightarrow> first_token (trim s) = first_token s"
  by (simp add: first_token_def split_ws_trim_ascii)

lemma trim_subset: "set (trim s) \<subseteq> set s"
proof -
  have sub: "set (trim_from tab j t) \<subseteq> set t" for tab j and t :: string
    by (induction tab j t rule: trim_from.induct) (auto split: if_splits)
  show ?thesis using sub unfolding trim_def by (metis dual_order.trans set_rev)
qed

lemma plain_trim: "plain s \<Longrightarrow> plain (trim s)"
  using trim_subset by (auto simp: plain_def list_all_iff)

lemma check_plain_runs_checked_binary:
  assumes "plain cmd" "check pol cmd = Inr bin"
  shows "build_command pol (sanitize_for_execution cmd) m =
           Returned (\<lparr>cmd_argv = split_whitespace cmd, cmd_stdin = m, cmd_stdout = Piped,
                      cmd_stderr = Piped, cmd_cwd = working_dir pol, cmd_hook = None\<rparr>,
                     bin, split_whitespace cmd)"
    and "split_whitespace cmd \<noteq> []" "hd (split_whitespace cmd) = bin"
proof -
  from assms have t: "trim cmd \<noteq> []" "bin = first_token cmd"
    by (auto simp: check_Inr_iff head_binary_def normalize_plain plain_trim first_token_trim
        plain_ascii)
  have "trim cmd = [] \<or> split_whitespace cmd \<noteq> []"
    using trim_from_Nil_split [of 0 cmd] by (auto simp: trim_def)
  with t have ne: "split_whitespace cmd \<noteq> []" by simp
  then obtain p ps where sw: "split_whitespace cmd = p # ps" by (cases "split_whitespace cmd") auto
  with t have "bin = p" by (simp add: first_token_def)
  with sw assms(1) show "build_command pol (sanitize_for_execution cmd) m =
           Returned (\<lparr>cmd_argv = split_whitespace cmd, cmd_stdin = m, cmd_stdout = Piped,
                      cmd_stderr = Piped, cmd_cwd = working_dir pol, cmd_hook = None\<rparr>,
                     bin, split_whitespace cmd)"
    and "split_whitespace cmd \<noteq> []" "hd (split_whitespace cmd) = bin"
    by (simp_all add: sanitize_plain build_command_def)
qed

end
