(* ===== verification/Sandbox_Seccomp.thy ===== *)
theory Sandbox_Seccomp
  imports Prelude
begin

text \<open>
  The seccomp filters of \<open>soul_sandbox/src/seccomp.rs\<close>: the classic BPF programs the sandbox
  assembles, and their meaning.

  The programs are data of the source; what they decide is given by an interpreter for the
  three kinds of instruction they use (load an absolute word, jump if equal, return), as the
  kernel documents classic BPF: a program is run on the words of \<open>seccomp_data\<close>, jumps only go
  forward, and its result is the action for the system call. System call numbers come from the
  \<open>libc\<close> crate and are a parameter \<open>sysno\<close>, a map from names to numbers; loading a program into
  the kernel is a parameter too.
\<close>

unbundle bit_operations_syntax

section \<open>Instructions\<close>

definition BPF_LD :: u16 where "BPF_LD = 0x00"
definition BPF_JMP :: u16 where "BPF_JMP = 0x05"
definition BPF_RET :: u16 where "BPF_RET = 0x06"
definition BPF_W :: u16 where "BPF_W = 0x00"
definition BPF_ABS :: u16 where "BPF_ABS = 0x20"
definition BPF_K :: u16 where "BPF_K = 0x00"
definition BPF_JEQ :: u16 where "BPF_JEQ = 0x10"

lemmas bpf_constants = BPF_LD_def BPF_JMP_def BPF_RET_def BPF_W_def BPF_ABS_def BPF_K_def
  BPF_JEQ_def

record SockFilter =
  code :: u16
  jt :: u8
  jf :: u8
  k :: u32

definition bpf_stmt :: "u16 \<Rightarrow> u32 \<Rightarrow> SockFilter" where
  "bpf_stmt c kk = \<lparr>code = c, jt = 0, jf = 0, k = kk\<rparr>"

definition bpf_jump :: "u16 \<Rightarrow> u32 \<Rightarrow> u8 \<Rightarrow> u8 \<Rightarrow> SockFilter" where
  "bpf_jump c kk t f = \<lparr>code = c, jt = t, jf = f, k = kk\<rparr>"

definition SECCOMP_RET_ALLOW :: u32 where "SECCOMP_RET_ALLOW = 0x7FFF0000"
definition SECCOMP_RET_ERRNO :: u32 where "SECCOMP_RET_ERRNO = 0x00050000"

text \<open>\<open>libc\<close> constants of the Linux ABI the file uses.\<close>

definition SECCOMP_RET_KILL_PROCESS :: u32 where "SECCOMP_RET_KILL_PROCESS = 0x80000000"
definition EPERM :: u32 where "EPERM = 1"

lemmas seccomp_constants = SECCOMP_RET_ALLOW_def SECCOMP_RET_ERRNO_def
  SECCOMP_RET_KILL_PROCESS_def EPERM_def

datatype target_arch = X86_64 | Aarch64

fun AUDIT_ARCH :: "target_arch \<Rightarrow> u32" where
  "AUDIT_ARCH X86_64 = 0xC000003E"
| "AUDIT_ARCH Aarch64 = 0xC00000B7"

section \<open>Filter builders\<close>

definition arch_guard :: "target_arch \<Rightarrow> SockFilter list" where
  "arch_guard arch =
    [bpf_stmt (BPF_LD OR BPF_W OR BPF_ABS) 4,
     bpf_jump (BPF_JMP OR BPF_JEQ OR BPF_K) (AUDIT_ARCH arch) 1 0,
     bpf_stmt (BPF_RET OR BPF_K) SECCOMP_RET_KILL_PROCESS,
     bpf_stmt (BPF_LD OR BPF_W OR BPF_ABS) 0]"

definition match_return :: "u32 \<Rightarrow> 64 word \<Rightarrow> SockFilter list" where
  "match_return action syscall =
    [bpf_jump (BPF_JMP OR BPF_JEQ OR BPF_K) (ucast syscall) 0 1,
     bpf_stmt (BPF_RET OR BPF_K) action]"

definition errno_action :: "u32 \<Rightarrow> u32" where
  "errno_action errno = SECCOMP_RET_ERRNO OR (errno AND 0xFFFF)"

definition build_bpf_filter :: "target_arch \<Rightarrow> 64 word list \<Rightarrow> u32 \<Rightarrow> SockFilter list" where
  "build_bpf_filter arch syscalls errno =
     arch_guard arch
     @ concat (map (match_return SECCOMP_RET_ALLOW) syscalls)
     @ [bpf_stmt (BPF_RET OR BPF_K) (errno_action errno)]"

definition build_bpf_denylist_filter ::
    "target_arch \<Rightarrow> 64 word list \<Rightarrow> u32 \<Rightarrow> SockFilter list" where
  "build_bpf_denylist_filter arch syscalls errno =
     arch_guard arch
     @ concat (map (match_return (errno_action errno)) syscalls)
     @ [bpf_stmt (BPF_RET OR BPF_K) SECCOMP_RET_ALLOW]"

section \<open>System call lists\<close>

type_synonym sysno = "string \<Rightarrow> 64 word"

definition STRICT_SYSCALLS :: "sysno \<Rightarrow> 64 word list" where
  "STRICT_SYSCALLS sys = map sys
    [''execve'', ''execveat'', ''read'', ''write'', ''exit'', ''exit_group'', ''rt_sigreturn'',
     ''futex'', ''mmap'', ''munmap'', ''brk'', ''close'', ''fcntl'', ''getpid'', ''getgid'']"

definition DEFAULT_SYSCALLS :: "sysno \<Rightarrow> 64 word list" where
  "DEFAULT_SYSCALLS sys = map sys
    [''execve'', ''execveat'', ''read'', ''write'', ''openat'', ''close'', ''exit'',
     ''exit_group'', ''rt_sigreturn'', ''futex'', ''mmap'', ''munmap'', ''brk'', ''fcntl'',
     ''getpid'', ''getgid'', ''statx'', ''lseek'', ''ioctl'', ''getuid'']"

definition DANGEROUS_SYSCALLS :: "sysno \<Rightarrow> 64 word list" where
  "DANGEROUS_SYSCALLS sys = map sys
    [''ptrace'', ''process_vm_readv'', ''process_vm_writev'', ''mount'', ''umount2'',
     ''pivot_root'', ''chroot'', ''unshare'', ''setns'', ''reboot'', ''kexec_load'',
     ''init_module'', ''finit_module'', ''delete_module'', ''acct'', ''swapon'', ''swapoff'',
     ''settimeofday'', ''clock_settime'', ''clock_adjtime'', ''adjtimex'', ''syslog'',
     ''add_key'', ''request_key'', ''keyctl'', ''bpf'', ''perf_event_open'', ''quotactl'']"

definition dangerous_syscalls :: "target_arch \<Rightarrow> sysno \<Rightarrow> 64 word list" where
  "dangerous_syscalls arch sys =
     (case arch of
        X86_64 \<Rightarrow> DANGEROUS_SYSCALLS sys @ [sys ''iopl'', sys ''ioperm'']
      | Aarch64 \<Rightarrow> DANGEROUS_SYSCALLS sys)"

section \<open>Installation\<close>

text \<open>\<open>load_bpf\<close> passes the length as \<open>u16\<close>; \<open>prctl\<close> answers success or an error text.\<close>

definition load_bpf ::
    "(u16 \<Rightarrow> SockFilter list \<Rightarrow> string + unit) \<Rightarrow> SockFilter list \<Rightarrow> string + unit" where
  "load_bpf prctl prog = prctl (of_nat (length prog)) prog"

definition install_filter ::
    "target_arch \<Rightarrow> sysno \<Rightarrow> (u16 \<Rightarrow> SockFilter list \<Rightarrow> string + unit) \<Rightarrow> string \<Rightarrow> string + unit"
where
  "install_filter arch sys prctl profile =
     (if profile = ''strict'' then load_bpf prctl (build_bpf_filter arch (STRICT_SYSCALLS sys) EPERM)
      else if profile = ''allowlist-default''
        then load_bpf prctl (build_bpf_filter arch (DEFAULT_SYSCALLS sys) EPERM)
      else if profile = ''default''
        then load_bpf prctl (build_bpf_denylist_filter arch (dangerous_syscalls arch sys) EPERM)
      else if profile = ''unconfined'' then Inr ()
      else Inl ''unknown seccomp profile'')"

section \<open>Meaning of a program\<close>

text \<open>\<open>bpf_run load prog acc\<close>: the result of running \<open>prog\<close> with accumulator \<open>acc\<close>, where \<open>load\<close>
  reads the 32-bit word of \<open>seccomp_data\<close> at a byte offset. \<open>None\<close> when the program falls off
  its end or meets another instruction.\<close>

function bpf_run :: "(u32 \<Rightarrow> u32) \<Rightarrow> SockFilter list \<Rightarrow> u32 \<Rightarrow> u32 option" where
  "bpf_run load [] acc = None"
| "bpf_run load (i # rest) acc =
     (if code i = (BPF_RET OR BPF_K) then Some (k i)
      else if code i = (BPF_LD OR BPF_W OR BPF_ABS) then bpf_run load rest (load (k i))
      else if code i = (BPF_JMP OR BPF_JEQ OR BPF_K)
        then bpf_run load (drop (unat (if acc = k i then jt i else jf i)) rest) acc
      else None)"
  by pat_completeness auto
termination
  by (relation "measure (\<lambda>(load, prog, acc). length prog)") auto

text \<open>The two words of \<open>seccomp_data\<close> the filters read.\<close>

definition seccomp_words :: "u32 \<Rightarrow> u32 \<Rightarrow> u32 \<Rightarrow> u32" where
  "seccomp_words nr arch off = (if off = 0 then nr else if off = 4 then arch else 0)"

definition filter_verdict :: "SockFilter list \<Rightarrow> u32 \<Rightarrow> u32 \<Rightarrow> u32 option" where
  "filter_verdict prog nr arch = bpf_run (seccomp_words nr arch) prog 0"

section \<open>The programs decide what they are meant to\<close>

lemma run_ret:
  "bpf_run load (bpf_stmt (BPF_RET OR BPF_K) a # rest) acc = Some a"
  by (simp add: bpf_stmt_def bpf_constants)

lemma run_match_return:
  "bpf_run load (match_return a s @ rest) acc =
     (if acc = ucast s then Some a else bpf_run load rest acc)"
  by (simp add: match_return_def bpf_stmt_def bpf_jump_def bpf_constants)

lemma run_match_list:
  "bpf_run load (concat (map (match_return a) ss) @ rest) acc =
     (if acc \<in> ucast ` set ss then Some a else bpf_run load rest acc)"
  by (induction ss) (auto simp: run_match_return)

lemma run_arch_guard:
  "bpf_run (seccomp_words nr ar) (arch_guard arch @ rest) acc =
     (if ar = AUDIT_ARCH arch then bpf_run (seccomp_words nr ar) rest nr
      else Some SECCOMP_RET_KILL_PROCESS)"
  by (simp add: arch_guard_def bpf_stmt_def bpf_jump_def bpf_constants seccomp_words_def)

lemmas bpf_run_rules = run_arch_guard run_match_list run_ret

declare bpf_run.simps(2) [simp del]

lemma allowlist_filter_verdict:
  "filter_verdict (build_bpf_filter arch ss e) nr ar =
     Some (if ar \<noteq> AUDIT_ARCH arch then SECCOMP_RET_KILL_PROCESS
           else if nr \<in> ucast ` set ss then SECCOMP_RET_ALLOW else errno_action e)"
  by (simp add: filter_verdict_def build_bpf_filter_def bpf_run_rules)

lemma denylist_filter_verdict:
  "filter_verdict (build_bpf_denylist_filter arch ss e) nr ar =
     Some (if ar \<noteq> AUDIT_ARCH arch then SECCOMP_RET_KILL_PROCESS
           else if nr \<in> ucast ` set ss then errno_action e else SECCOMP_RET_ALLOW)"
  by (simp add: filter_verdict_def build_bpf_denylist_filter_def bpf_run_rules)

lemma filter_length:
  "length (build_bpf_filter arch ss e) = 5 + 2 * length ss"
  "length (build_bpf_denylist_filter arch ss e) = 5 + 2 * length ss"
  by (induction ss)
     (auto simp: build_bpf_filter_def build_bpf_denylist_filter_def arch_guard_def match_return_def)

text \<open>The programs that are loaded, one per profile name.\<close>

definition profile_program :: "target_arch \<Rightarrow> sysno \<Rightarrow> string \<Rightarrow> SockFilter list option" where
  "profile_program arch sys profile =
     (if profile = ''strict'' then Some (build_bpf_filter arch (STRICT_SYSCALLS sys) EPERM)
      else if profile = ''allowlist-default''
        then Some (build_bpf_filter arch (DEFAULT_SYSCALLS sys) EPERM)
      else if profile = ''default''
        then Some (build_bpf_denylist_filter arch (dangerous_syscalls arch sys) EPERM)
      else None)"

lemma install_filter_program:
  "install_filter arch sys prctl profile =
     (case profile_program arch sys profile of
        Some prog \<Rightarrow> prctl (of_nat (length prog)) prog
      | None \<Rightarrow> if profile = ''unconfined'' then Inr () else Inl ''unknown seccomp profile'')"
  by (simp add: install_filter_def profile_program_def load_bpf_def)

text \<open>The length survives the conversion to \<open>u16\<close>, so the kernel sees the whole program.\<close>

lemma profile_program_length:
  assumes "profile_program arch sys profile = Some prog"
  shows "unat (of_nat (length prog) :: u16) = length prog"
proof -
  have "length prog < 2 ^ 16"
    using assms by (auto simp: profile_program_def filter_length STRICT_SYSCALLS_def
        DEFAULT_SYSCALLS_def dangerous_syscalls_def DANGEROUS_SYSCALLS_def
        split: if_splits target_arch.splits)
  then show ?thesis by (simp add: unat_of_nat)
qed

text \<open>An active profile never lets a process of another architecture through, and in every active
  profile \<open>execve\<close> is permitted provided the default profile does not list its number among the
  dangerous ones: a filter that blocked it could not start any command.\<close>

lemma profile_foreign_arch:
  assumes "profile_program arch sys profile = Some prog" "ar \<noteq> AUDIT_ARCH arch"
  shows "filter_verdict prog nr ar = Some SECCOMP_RET_KILL_PROCESS"
  using assms
  by (auto simp: profile_program_def allowlist_filter_verdict denylist_filter_verdict
      split: if_splits)

lemma profile_permits_execve:
  assumes "profile_program arch sys profile = Some prog"
    and "ucast (sys ''execve'') \<notin> (ucast ` set (dangerous_syscalls arch sys) :: u32 set)"
  shows "filter_verdict prog (ucast (sys ''execve'')) (AUDIT_ARCH arch) = Some SECCOMP_RET_ALLOW"
  using assms
  by (auto simp: profile_program_def allowlist_filter_verdict denylist_filter_verdict
      STRICT_SYSCALLS_def DEFAULT_SYSCALLS_def split: if_splits)

end
