(* ===== verification/Sandbox_Isolation.thy ===== *)
theory Sandbox_Isolation
  imports Sandbox_Policy Sandbox_Seccomp
begin

text \<open>
  Process isolation: \<open>set_one_rlimit\<close>, \<open>apply_resource_limits\<close> and \<open>apply_sandbox_pre_exec\<close> of
  \<open>soul_sandbox/src/lib.rs\<close> (Linux build) and \<open>soul_sandbox/src/cgroup.rs\<close>.

  The answers of the operating system are the fields of a record \<open>os\<close>: which calls fail, what
  \<open>unshare\<close>, \<open>fork\<close> and \<open>waitpid\<close> return. A hook run produces the calls it made, in order, the
  resource limits then in force, and how it ended: it continues to \<open>exec\<close>, it aborts the spawn
  with an error, or the process leaves with \<open>_exit\<close>.
\<close>

section \<open>Resource limits\<close>

datatype Resource = RLIMIT_AS | RLIMIT_NPROC | RLIMIT_NOFILE | RLIMIT_CPU | RLIMIT_FSIZE | RLIMIT_CORE

text \<open>Soft and hard limit of each resource.\<close>

type_synonym rlimits = "Resource \<Rightarrow> u64 \<times> u64"

definition RLIM_INFINITY :: u64 where "RLIM_INFINITY = - 1"

record rlimit_os =
  getrlimit_err :: "Resource \<Rightarrow> string option"
  setrlimit_err :: "Resource \<Rightarrow> u64 \<times> u64 \<Rightarrow> string option"

definition set_one_rlimit :: "('o rlimit_os_scheme) \<Rightarrow> Resource \<Rightarrow> u64 \<Rightarrow> rlimits \<Rightarrow> string + rlimits" where
  "set_one_rlimit os r desired lims =
     (case getrlimit_err os r of
        Some e \<Rightarrow> Inl e
      | None \<Rightarrow>
        let hard = snd (lims r);
            v = (if hard = RLIM_INFINITY then desired else min desired hard)
        in (case setrlimit_err os r (v, v) of
              Some e \<Rightarrow> Inl e
            | None \<Rightarrow> Inr (lims(r := (v, v)))))"

definition set_opt_rlimit :: "('o rlimit_os_scheme) \<Rightarrow> Resource \<Rightarrow> u64 option \<Rightarrow> rlimits \<Rightarrow> string + rlimits" where
  "set_opt_rlimit os r d lims =
     (case d of None \<Rightarrow> Inr lims | Some desired \<Rightarrow> set_one_rlimit os r desired lims)"

definition apply_resource_limits :: "('o rlimit_os_scheme) \<Rightarrow> ResourceLimits \<Rightarrow> rlimits \<Rightarrow> string + rlimits" where
  "apply_resource_limits os l lims =
     bind_res (set_opt_rlimit os RLIMIT_AS (max_address_space_bytes l) lims) (\<lambda>lims.
     bind_res (set_opt_rlimit os RLIMIT_NPROC (max_processes l) lims) (\<lambda>lims.
     bind_res (set_opt_rlimit os RLIMIT_NOFILE (max_open_files l) lims) (\<lambda>lims.
     bind_res (set_opt_rlimit os RLIMIT_CPU (max_cpu_seconds l) lims) (\<lambda>lims.
     bind_res (set_opt_rlimit os RLIMIT_FSIZE (max_file_size_bytes l) lims) (\<lambda>lims.
     set_opt_rlimit os RLIMIT_CORE (max_core_bytes l) lims)))))"

text \<open>The limit a configuration asks for, per resource.\<close>

fun configured :: "ResourceLimits \<Rightarrow> Resource \<Rightarrow> u64 option" where
  "configured l RLIMIT_AS = max_address_space_bytes l"
| "configured l RLIMIT_NPROC = max_processes l"
| "configured l RLIMIT_NOFILE = max_open_files l"
| "configured l RLIMIT_CPU = max_cpu_seconds l"
| "configured l RLIMIT_FSIZE = max_file_size_bytes l"
| "configured l RLIMIT_CORE = max_core_bytes l"

text \<open>What the code means by applying a limit: clamped to the inherited hard limit, set on both.\<close>

definition clamped :: "u64 option \<Rightarrow> u64 \<times> u64 \<Rightarrow> u64 \<times> u64" where
  "clamped d old = (case d of None \<Rightarrow> old | Some v \<Rightarrow> (min v (snd old), min v (snd old)))"

lemma min_infinity: "(if hard = RLIM_INFINITY then d else min d hard) = min d (hard :: u64)"
  by (simp add: RLIM_INFINITY_def min_absorb1 word_order.extremum)

text \<open>The two calls for one configured limit succeed.\<close>

definition rlimit_calls_ok :: "('o rlimit_os_scheme) \<Rightarrow> u64 option \<Rightarrow> Resource \<Rightarrow> u64 \<times> u64 \<Rightarrow> bool" where
  "rlimit_calls_ok os d r old \<longleftrightarrow>
     d \<noteq> None \<longrightarrow> getrlimit_err os r = None \<and> setrlimit_err os r (clamped d old) = None"

lemma set_opt_rlimit_Inr_iff:
  "set_opt_rlimit os r d lims = Inr lims' \<longleftrightarrow>
     lims' = lims(r := clamped d (lims r)) \<and> rlimit_calls_ok os d r (lims r)"
  by (auto simp: set_opt_rlimit_def set_one_rlimit_def clamped_def rlimit_calls_ok_def Let_def min_infinity
      split: option.splits)

lemma all_resources: "(\<forall>r. P r) \<longleftrightarrow> P RLIMIT_AS \<and> P RLIMIT_NPROC \<and> P RLIMIT_NOFILE \<and> P RLIMIT_CPU
    \<and> P RLIMIT_FSIZE \<and> P RLIMIT_CORE"
  by (metis Resource.exhaust)

lemma apply_resource_limits_Inr_iff:
  "apply_resource_limits os l lims = Inr lims' \<longleftrightarrow>
     lims' = (\<lambda>r. clamped (configured l r) (lims r)) \<and>
     (\<forall>r. rlimit_calls_ok os (configured l r) r (lims r))"
  by (simp add: apply_resource_limits_def bind_res_Inr_iff set_opt_rlimit_Inr_iff fun_eq_iff [of lims']
      all_resources) blast

lemma apply_resource_limits_total:
  assumes "\<And>r. getrlimit_err os r = None" "\<And>r v. setrlimit_err os r v = None"
  shows "\<exists>lims'. apply_resource_limits os l lims = Inr lims'"
  by (simp add: apply_resource_limits_Inr_iff rlimit_calls_ok_def assms)

section \<open>Control groups\<close>

datatype CgroupUnavailable = NotConfigured | NotUsable string | ControllersMissing string

text \<open>The file system answers used by \<open>cgroup.rs\<close>; the process id is an argument.\<close>

record cgroup_os =
  cgroup_dir :: "string option"
  read_controllers :: "string \<Rightarrow> string + string"
  create_dir_err :: "string \<Rightarrow> string option"
  write_err :: "string \<Rightarrow> string \<Rightarrow> string option"

definition cgroup_detect :: "('o cgroup_os_scheme) \<Rightarrow> nat \<Rightarrow> CgroupUnavailable + string" where
  "cgroup_detect os pid =
     (case cgroup_dir os of
        None \<Rightarrow> Inl NotConfigured
      | Some base \<Rightarrow>
        (case read_controllers os (path_join base ''cgroup.controllers'') of
           Inl e \<Rightarrow> Inl (NotUsable e)
         | Inr controllers \<Rightarrow>
           if \<not> (''pids'' \<in> set (split_whitespace controllers)
                \<and> ''memory'' \<in> set (split_whitespace controllers))
           then Inl (ControllersMissing (trim controllers))
           else (case create_dir_err os (path_join base (''.soul-probe-'' @ show_nat pid)) of
                   Some e \<Rightarrow> Inl (NotUsable e)
                 | None \<Rightarrow> Inr base)))"

text \<open>\<open>create_leaf\<close>: the new value of the leaf counter, the files written, and the leaf's path or
  the first error.\<close>

definition write_opt :: "('o cgroup_os_scheme) \<Rightarrow> string \<Rightarrow> u64 option
    \<Rightarrow> (string \<times> string) list \<Rightarrow> string + (string \<times> string) list" where
  "write_opt os path v written =
     (case v of
        None \<Rightarrow> Inr written
      | Some n \<Rightarrow> (case write_err os path (show_nat (unat n)) of
                     Some e \<Rightarrow> Inl e
                   | None \<Rightarrow> Inr (written @ [(path, show_nat (unat n))])))"

definition create_leaf :: "('o cgroup_os_scheme) \<Rightarrow> nat \<Rightarrow> string \<Rightarrow> u64
    \<Rightarrow> u64 option \<Rightarrow> u64 option \<Rightarrow> u64 \<times> (string + (string \<times> (string \<times> string) list))" where
  "create_leaf os pid base counter pids_max memory_max_bytes =
     (let leaf = path_join base (''soul-'' @ show_nat pid @ ''-'' @ show_nat (unat counter))
      in (counter + 1,
          case create_dir_err os leaf of
            Some e \<Rightarrow> Inl e
          | None \<Rightarrow>
            bind_res (write_opt os (path_join leaf ''pids.max'') pids_max []) (\<lambda>w.
            bind_res (write_opt os (path_join leaf ''memory.max'') memory_max_bytes w) (\<lambda>w.
              Inr (leaf, w)))))"

definition procs_path :: "string \<Rightarrow> string" where
  "procs_path leaf = path_join leaf ''cgroup.procs''"

lemma create_leaf_limits_written:
  assumes "create_leaf os pid base counter pm mm = (c, Inr (leaf, w))"
  shows "pm = Some n \<Longrightarrow> (path_join leaf ''pids.max'', show_nat (unat n)) \<in> set w"
    and "mm = Some m \<Longrightarrow> (path_join leaf ''memory.max'', show_nat (unat m)) \<in> set w"
  using assms
  by (auto simp: create_leaf_def write_opt_def Let_def bind_res_Inr_iff split: option.splits)

section \<open>The hook between fork and exec\<close>

datatype ns_flag = CLONE_NEWUSER | CLONE_NEWNET | CLONE_NEWPID | CLONE_NEWNS

datatype mount_call = Make_Private | Mount_Proc | Cover_Tmpfs string | Cover_Null string

datatype wait_answer = Wait_Status wait_status | Wait_Interrupted | Wait_Failed
and wait_status = WExited int | WSignaled int | WOther

datatype fork_answer = Fork_Failed string | Fork_Child | Fork_Parent

datatype sys_call =
    Setpgid
  | Write_Procs string
  | Unshare "ns_flag set"
  | Fork
  | Set_Pdeathsig
  | Getppid
  | Mount mount_call
  | Close_From_3
  | Waitpid
  | Install_Listener
  | Send_Listener int
  | Set_Rlimits
  | Set_No_New_Privs
  | Install_Filter string

record hook_os = rlimit_os +
  write_procs_err :: "string \<Rightarrow> string option"
  unshare_ok :: "ns_flag set \<Rightarrow> bool"
  fork_answer :: fork_answer
  pdeathsig_err :: "string option"
  parent_is_init :: bool
  mount_ok :: "mount_call \<Rightarrow> bool"
  waitpid_answers :: "wait_answer list"
  listener_err :: "string option"
  send_fd_err :: "string option"
  no_new_privs_err :: "string option"
  target :: target_arch
  sys_numbers :: sysno
  prctl_seccomp :: "u16 \<Rightarrow> SockFilter list \<Rightarrow> string + unit"

text \<open>\<open>Blocked\<close> is a process still waiting for its child when the known answers are used up.\<close>

datatype 'a hook_end = Continue 'a | Abort string | Exit int | Blocked

type_synonym 'a hook = "'a hook_end \<times> sys_call list"

fun hook_bind :: "'a hook \<Rightarrow> ('a \<Rightarrow> 'b hook) \<Rightarrow> 'b hook" where
  "hook_bind (Continue a, calls) f = (case f a of (r, calls') \<Rightarrow> (r, calls @ calls'))"
| "hook_bind (Abort e, calls) f = (Abort e, calls)"
| "hook_bind (Exit n, calls) f = (Exit n, calls)"
| "hook_bind (Blocked, calls) f = (Blocked, calls)"

definition call :: "sys_call \<Rightarrow> string option \<Rightarrow> unit hook" where
  "call c err = (case err of None \<Rightarrow> Continue () | Some e \<Rightarrow> Abort e, [c])"

definition ns_flags :: "SandboxPolicy \<Rightarrow> ns_flag set" where
  "ns_flags pol =
     (if network_isolated pol then {CLONE_NEWNET} else {})
     \<union> (if pid_isolated pol
        then {CLONE_NEWPID} \<union> (if mount_isolated pol then {CLONE_NEWNS} else {}) else {})"

text \<open>The \<open>unshare\<close> step: whether a PID namespace and a mount namespace were obtained.\<close>

definition enter_namespaces :: "('o hook_os_scheme) \<Rightarrow> SandboxPolicy \<Rightarrow> (bool \<times> bool) hook" where
  "enter_namespaces os pol =
     (if ns_flags pol = {} then (Continue (False, False), [])
      else if unshare_ok os ({CLONE_NEWUSER} \<union> ns_flags pol)
        then (Continue (pid_isolated pol, pid_isolated pol \<and> mount_isolated pol),
              [Unshare ({CLONE_NEWUSER} \<union> ns_flags pol)])
        else (Continue (False, False), [Unshare ({CLONE_NEWUSER} \<union> ns_flags pol)]))"

text \<open>Covering the hidden paths: a \<open>tmpfs\<close> first, \<open>/dev/null\<close> where that is refused.\<close>

definition cover_path :: "('o hook_os_scheme) \<Rightarrow> string \<Rightarrow> sys_call list" where
  "cover_path os path =
     (if mount_ok os (Cover_Tmpfs path) then [Mount (Cover_Tmpfs path)]
      else [Mount (Cover_Tmpfs path), Mount (Cover_Null path)])"

text \<open>\<open>CString::new\<close> drops a path with a NUL byte.\<close>

definition c_strings :: "string list \<Rightarrow> string list" where
  "c_strings paths = filter (\<lambda>p. CHR 0x00 \<notin> set p) paths"

definition namespace_child :: "('o hook_os_scheme) \<Rightarrow> SandboxPolicy \<Rightarrow> bool \<Rightarrow> unit hook" where
  "namespace_child os pol got_mntns =
     hook_bind (call Set_Pdeathsig (pdeathsig_err os)) (\<lambda>_.
     hook_bind (if parent_is_init os then (Exit (128 + 9), [Getppid]) else (Continue (), [Getppid])) (\<lambda>_.
     (Continue (),
      if got_mntns
      then [Mount Make_Private, Mount Mount_Proc] @ concat (map (cover_path os) (c_strings (hidden_paths pol)))
      else [])))"

text \<open>The intermediate process: it waits for its child, retrying when interrupted, and mirrors its
  status. The status stays 0, which reads as a normal exit with code 0, when \<open>waitpid\<close> fails.\<close>

fun mirror_status :: "wait_status \<Rightarrow> int" where
  "mirror_status (WExited c) = c"
| "mirror_status (WSignaled n) = 128 + n"
| "mirror_status WOther = 1"

fun wait_loop :: "wait_answer list \<Rightarrow> wait_status option" where
  "wait_loop [] = None"
| "wait_loop (Wait_Status st # _) = Some st"
| "wait_loop (Wait_Failed # _) = Some (WExited 0)"
| "wait_loop (Wait_Interrupted # rest) = wait_loop rest"

definition intermediate :: "('o hook_os_scheme) \<Rightarrow> unit hook" where
  "intermediate os =
     (case wait_loop (waitpid_answers os) of
        Some st \<Rightarrow> Exit (mirror_status st)
      | None \<Rightarrow> Blocked,
      [Close_From_3, Waitpid])"

definition fork_into_namespace :: "('o hook_os_scheme) \<Rightarrow> SandboxPolicy \<Rightarrow> bool \<times> bool \<Rightarrow> unit hook" where
  "fork_into_namespace os pol got =
     (case got of (got_pidns, got_mntns) \<Rightarrow>
        if got_pidns
        then hook_bind (Continue (), [Fork]) (\<lambda>_.
             case fork_answer os of
               Fork_Failed e \<Rightarrow> (Abort e, [])
             | Fork_Child \<Rightarrow> namespace_child os pol got_mntns
             | Fork_Parent \<Rightarrow> intermediate os)
        else (Continue (), []))"

definition egress_step :: "('o hook_os_scheme) \<Rightarrow> int \<Rightarrow> unit hook" where
  "egress_step os egress_sock =
     (if egress_sock \<ge> 0
      then hook_bind (call Install_Listener (listener_err os)) (\<lambda>_.
           call (Send_Listener egress_sock) (send_fd_err os))
      else (Continue (), []))"

definition limits_step :: "('o hook_os_scheme) \<Rightarrow> ResourceLimits \<Rightarrow> rlimits \<Rightarrow> rlimits hook" where
  "limits_step os l lims =
     (case apply_resource_limits os l lims of
        Inl e \<Rightarrow> (Abort e, [Set_Rlimits])
      | Inr lims' \<Rightarrow> (Continue lims', [Set_Rlimits]))"

definition seccomp_step :: "('o hook_os_scheme) \<Rightarrow> string option \<Rightarrow> unit hook" where
  "seccomp_step os profile =
     (case profile of
        None \<Rightarrow> (Continue (), [])
      | Some p \<Rightarrow>
        hook_bind (call Set_No_New_Privs (no_new_privs_err os)) (\<lambda>_.
          (case install_filter (target os) (sys_numbers os) (prctl_seccomp os) p of
             Inl e \<Rightarrow> (Abort e, [Install_Filter p])
           | Inr _ \<Rightarrow> (Continue (), [Install_Filter p]))))"

definition cgroup_step :: "('o hook_os_scheme) \<Rightarrow> string option \<Rightarrow> unit hook" where
  "cgroup_step os procs =
     (case procs of None \<Rightarrow> (Continue (), []) | Some f \<Rightarrow> call (Write_Procs f) (write_procs_err os f))"

text \<open>The whole closure; its value is the resource limits the program then runs under.\<close>

definition apply_sandbox_pre_exec ::
    "('o hook_os_scheme) \<Rightarrow> SandboxPolicy \<Rightarrow> int \<Rightarrow> string option \<Rightarrow> rlimits \<Rightarrow> rlimits hook" where
  "apply_sandbox_pre_exec os pol egress_sock cgroup_procs lims =
     hook_bind (Continue (), [Setpgid]) (\<lambda>_.
     hook_bind (cgroup_step os cgroup_procs) (\<lambda>_.
     hook_bind (enter_namespaces os pol) (\<lambda>got.
     hook_bind (fork_into_namespace os pol got) (\<lambda>_.
     hook_bind (egress_step os egress_sock) (\<lambda>_.
     hook_bind (limits_step os (resource_limits pol) lims) (\<lambda>lims'.
     hook_bind (seccomp_step os (seccomp_profile pol)) (\<lambda>_.
       (Continue lims', []))))))))"

section \<open>The hook is fail-closed\<close>

lemma hook_bind_Continue:
  "hook_bind m f = (Continue b, cs) \<longleftrightarrow>
     (\<exists>a cs1 cs2. m = (Continue a, cs1) \<and> f a = (Continue b, cs2) \<and> cs = cs1 @ cs2)"
proof -
  obtain r c where "m = (r, c)" by (cases m)
  then show ?thesis by (cases r) (auto split: prod.splits)
qed

declare hook_bind.simps(1) [simp del]

lemma call_Continue [simp]: "call c err = (Continue u, cs) \<longleftrightarrow> err = None \<and> cs = [c]"
  by (auto simp: call_def split: option.splits)

lemma egress_step_Continue:
  "egress_step os sock = (Continue u, cs) \<longleftrightarrow>
     (sock \<ge> 0 \<longrightarrow> listener_err os = None \<and> send_fd_err os = None) \<and>
     cs = (if sock \<ge> 0 then [Install_Listener, Send_Listener sock] else [])"
  by (auto simp: egress_step_def hook_bind_Continue)

lemma seccomp_step_Continue:
  "seccomp_step os profile = (Continue u, cs) \<longleftrightarrow>
     (\<forall>p. profile = Some p \<longrightarrow> no_new_privs_err os = None \<and>
        install_filter (target os) (sys_numbers os) (prctl_seccomp os) p = Inr ()) \<and>
     cs = (case profile of None \<Rightarrow> [] | Some p \<Rightarrow> [Set_No_New_Privs, Install_Filter p])"
  by (auto simp: seccomp_step_def hook_bind_Continue split: option.splits sum.splits)

lemma limits_step_Continue:
  "limits_step os l lims = (Continue lims', cs) \<longleftrightarrow>
     lims' = (\<lambda>r. clamped (configured l r) (lims r)) \<and>
     (\<forall>r. rlimit_calls_ok os (configured l r) r (lims r)) \<and> cs = [Set_Rlimits]"
  using apply_resource_limits_Inr_iff [of os l lims]
  by (auto simp: limits_step_def split: sum.splits)

lemma cgroup_step_Continue:
  "cgroup_step os procs = (Continue u, cs) \<longleftrightarrow>
     (\<forall>f. procs = Some f \<longrightarrow> write_procs_err os f = None) \<and>
     cs = (case procs of None \<Rightarrow> [] | Some f \<Rightarrow> [Write_Procs f])"
  by (auto simp: cgroup_step_def split: option.splits)

lemma fork_into_namespace_Continue:
  "(\<exists>cs. fork_into_namespace os pol got = (Continue u, cs)) \<longleftrightarrow>
     (fst got \<longrightarrow> fork_answer os = Fork_Child \<and> pdeathsig_err os = None \<and> \<not> parent_is_init os)"
  by (auto simp: fork_into_namespace_def namespace_child_def intermediate_def hook_bind_Continue
      split: prod.splits if_splits fork_answer.splits option.splits)

lemma fork_into_namespace_calls:
  "fork_into_namespace os pol got = (Continue u, cs) \<Longrightarrow> fst got \<Longrightarrow> Set_Pdeathsig \<in> set cs"
  by (auto simp: fork_into_namespace_def namespace_child_def intermediate_def hook_bind_Continue
      split: prod.splits if_splits fork_answer.splits option.splits)

lemma pre_exec_parts:
  "apply_sandbox_pre_exec os pol sock procs lims = (Continue lims', calls) \<longleftrightarrow>
     (\<exists>c1 c2 c3 c4 c5 c6 got.
        cgroup_step os procs = (Continue (), c1) \<and> enter_namespaces os pol = (Continue got, c2) \<and>
        fork_into_namespace os pol got = (Continue (), c3) \<and> egress_step os sock = (Continue (), c4) \<and>
        limits_step os (resource_limits pol) lims = (Continue lims', c5) \<and>
        seccomp_step os (seccomp_profile pol) = (Continue (), c6) \<and>
        calls = Setpgid # c1 @ c2 @ c3 @ c4 @ c5 @ c6)"
  by (auto simp: apply_sandbox_pre_exec_def hook_bind_Continue)

text \<open>A PID namespace was asked for and the host could create it.\<close>

definition pid_namespace :: "('o hook_os_scheme) \<Rightarrow> SandboxPolicy \<Rightarrow> bool" where
  "pid_namespace os pol \<longleftrightarrow> pid_isolated pol \<and> unshare_ok os ({CLONE_NEWUSER} \<union> ns_flags pol)"

lemma enter_namespaces_pid:
  "\<exists>got cs. enter_namespaces os pol = (Continue got, cs) \<and> fst got = pid_namespace os pol"
  by (auto simp: enter_namespaces_def ns_flags_def pid_namespace_def)

text \<open>The answers under which the hook lets its process go on to \<open>exec\<close>: none of the mandatory calls
  failed, and this is the inner process of its PID namespace, whose parent is alive.\<close>

definition isolation_succeeds ::
    "('o hook_os_scheme) \<Rightarrow> SandboxPolicy \<Rightarrow> int \<Rightarrow> string option \<Rightarrow> rlimits \<Rightarrow> bool" where
  "isolation_succeeds os pol sock procs lims \<longleftrightarrow>
     (\<forall>f. procs = Some f \<longrightarrow> write_procs_err os f = None) \<and>
     (pid_namespace os pol \<longrightarrow>
        fork_answer os = Fork_Child \<and> pdeathsig_err os = None \<and> \<not> parent_is_init os) \<and>
     (sock \<ge> 0 \<longrightarrow> listener_err os = None \<and> send_fd_err os = None) \<and>
     (\<forall>r. rlimit_calls_ok os (configured (resource_limits pol) r) r (lims r)) \<and>
     (\<forall>p. seccomp_profile pol = Some p \<longrightarrow> no_new_privs_err os = None \<and>
        install_filter (target os) (sys_numbers os) (prctl_seccomp os) p = Inr ())"

text \<open>What has happened when a process reaches \<open>exec\<close>, and that nothing else keeps it from there.\<close>

lemma pre_exec_Continue_iff:
  "(\<exists>lims' calls. apply_sandbox_pre_exec os pol sock procs lims = (Continue lims', calls))
     \<longleftrightarrow> isolation_succeeds os pol sock procs lims"
proof -
  obtain got cs where "enter_namespaces os pol = (Continue got, cs)" "fst got = pid_namespace os pol"
    using enter_namespaces_pid by blast
  then show ?thesis
    using fork_into_namespace_Continue [of os pol got "()"]
    by (auto simp: pre_exec_parts cgroup_step_Continue egress_step_Continue limits_step_Continue
        seccomp_step_Continue isolation_succeeds_def)
qed

lemma pre_exec_Continue_calls:
  assumes "apply_sandbox_pre_exec os pol sock procs lims = (Continue lims', calls)"
  shows "lims' = (\<lambda>r. clamped (configured (resource_limits pol) r) (lims r)) \<and>
    (\<exists>before.
      calls = before
         @ (if sock \<ge> 0 then [Install_Listener, Send_Listener sock] else [])
         @ [Set_Rlimits]
         @ (case seccomp_profile pol of None \<Rightarrow> [] | Some p \<Rightarrow> [Set_No_New_Privs, Install_Filter p]) \<and>
      (\<forall>f. procs = Some f \<longrightarrow> Write_Procs f \<in> set before) \<and>
      (pid_namespace os pol \<longrightarrow> Set_Pdeathsig \<in> set before))"
proof -
  from assms obtain c1 c2 c3 c4 c5 c6 got where
    parts: "cgroup_step os procs = (Continue (), c1)" "enter_namespaces os pol = (Continue got, c2)"
      "fork_into_namespace os pol got = (Continue (), c3)" "egress_step os sock = (Continue (), c4)"
      "limits_step os (resource_limits pol) lims = (Continue lims', c5)"
      "seccomp_step os (seccomp_profile pol) = (Continue (), c6)"
    and calls: "calls = Setpgid # c1 @ c2 @ c3 @ c4 @ c5 @ c6"
    unfolding pre_exec_parts by blast
  have pid: "Set_Pdeathsig \<in> set c3" if "pid_namespace os pol"
    using enter_namespaces_pid [of os pol] fork_into_namespace_calls [OF parts(3)] parts(2) that by auto
  note steps = parts(4) [unfolded egress_step_Continue] parts(5) [unfolded limits_step_Continue]
    parts(6) [unfolded seccomp_step_Continue] parts(1) [unfolded cgroup_step_Continue]
  have "calls = (Setpgid # c1 @ c2 @ c3)
         @ (if sock \<ge> 0 then [Install_Listener, Send_Listener sock] else [])
         @ [Set_Rlimits]
         @ (case seccomp_profile pol of None \<Rightarrow> [] | Some p \<Rightarrow> [Set_No_New_Privs, Install_Filter p])"
    using calls steps by simp
  moreover have "\<forall>f. procs = Some f \<longrightarrow> Write_Procs f \<in> set (Setpgid # c1 @ c2 @ c3)"
    using steps by auto
  moreover have "pid_namespace os pol \<longrightarrow> Set_Pdeathsig \<in> set (Setpgid # c1 @ c2 @ c3)"
    using pid by simp
  ultimately show ?thesis using steps by blast
qed

end
