(* ===== verification/Sandbox_Egress.thy ===== *)
theory Sandbox_Egress
  imports Sandbox_Policy Sandbox_Seccomp
begin

text \<open>
  Per-destination network enforcement: \<open>soul_sandbox/src/egress.rs\<close>. The policy is a set of
  socket addresses; a filter traps \<open>connect\<close>; a supervisor loop answers one notification after
  the other. Name resolution, the notification \<open>ioctl\<close>s and the target's memory are
  parameters: the loop is run on the list of what they answer.
\<close>

section \<open>Display of addresses\<close>

definition show_v4 :: "u32 \<Rightarrow> string" where
  "show_v4 a = join ''.'' (map (\<lambda>b. show_nat (unat b)) (be_bytes 4 (unat a)))"

text \<open>The first longest run of zero segments, as start and length.\<close>

fun longest_zeros :: "nat \<Rightarrow> nat \<times> nat \<Rightarrow> nat \<times> nat \<Rightarrow> nat list \<Rightarrow> nat \<times> nat" where
  "longest_zeros i current longest [] = longest"
| "longest_zeros i current longest (x # xs) =
     (if x = 0
      then let current = (if snd current = 0 then (i, 1) else (fst current, snd current + 1))
           in longest_zeros (i + 1) current (if snd current > snd longest then current else longest) xs
      else longest_zeros (i + 1) (0, 0) longest xs)"

fun pair_segments :: "u8 list \<Rightarrow> nat list" where
  "pair_segments (h # l # bs) = (256 * unat h + unat l) # pair_segments bs"
| "pair_segments bs = []"

definition show_v6 :: "128 word \<Rightarrow> string" where
  "show_v6 a =
     (let octets = be_bytes 16 (unat a);
          segments = pair_segments octets;
          fmt = (\<lambda>ss. join '':'' (map show_hex ss));
          (start, len) = longest_zeros 0 (0, 0) (0, 0) segments
      in if take 12 octets = replicate 10 0 @ [255, 255]
         then ''::ffff:'' @ show_v4 (of_nat (be_nat (drop 12 octets)))
         else if len > 1 then fmt (take start segments) @ ''::'' @ fmt (drop (start + len) segments)
         else fmt segments)"

fun show_addr :: "SocketAddr \<Rightarrow> string" where
  "show_addr (SocketAddrV4 a p) = show_v4 a @ '':'' @ show_nat (unat p)"
| "show_addr (SocketAddrV6 a p f sc) =
     ''['' @ show_v6 a @ (if sc = 0 then [] else ''%'' @ show_nat (unat sc)) @ '']:'' @ show_nat (unat p)"

section \<open>The policy\<close>

definition deny_all :: EgressPolicy where
  "deny_all = \<lparr>allowed_set = {}, resolved_names = []\<rparr>"

definition allow_addr :: "SocketAddr \<Rightarrow> EgressPolicy \<Rightarrow> EgressPolicy" where
  "allow_addr addr p = p\<lparr>allowed_set := insert addr (allowed_set p)\<rparr>"

definition allow_host ::
    "(string \<Rightarrow> u16 \<Rightarrow> string + SocketAddr list) \<Rightarrow> string \<Rightarrow> u16 \<Rightarrow> EgressPolicy \<Rightarrow> string + EgressPolicy"
where
  "allow_host to_socket_addrs host port p =
     bind_res (to_socket_addrs host port) (\<lambda>addrs.
       if addrs = []
       then Inl (host @ '':'' @ show_nat (unat port) @ '' resolved to no addresses'')
       else Inr (p\<lparr>allowed_set := set addrs \<union> allowed_set p,
                   resolved_names := resolved_names p @ [(host, addrs)]\<rparr>))"

definition is_deny_all :: "EgressPolicy \<Rightarrow> bool" where
  "is_deny_all p \<longleftrightarrow> allowed_set p = {}"

definition permits :: "EgressPolicy \<Rightarrow> SocketAddr \<Rightarrow> bool" where
  "permits p addr \<longleftrightarrow> addr \<in> allowed_set p"

definition name_note :: "SocketAddr \<Rightarrow> string \<times> SocketAddr list \<Rightarrow> string" where
  "name_note addr entry =
     (case entry of (name, addrs) \<Rightarrow>
        if \<exists>a \<in> set addrs. socket_ip a = socket_ip addr then []
        else '' ('' @ name @ '' resolved to '' @ join ''/'' (map show_addr addrs)
             @ '' when this policy was built)'')"

definition denial_reason :: "EgressPolicy \<Rightarrow> SocketAddr \<Rightarrow> string" where
  "denial_reason p addr =
     (if allowed_set p = {}
      then ''egress policy denies all destinations; '' @ show_addr addr @ '' refused''
      else show_addr addr @ '' is not in the egress allowlist. Allowed: ''
           @ join '', '' (map show_addr (sorted_list_of_set (allowed_set p)))
           @ concat (map (name_note addr) (resolved_names p)))"

section \<open>Kernel interface\<close>

definition SECCOMP_RET_USER_NOTIF :: u32 where "SECCOMP_RET_USER_NOTIF = 0x7FC00000"

record SeccompData =
  sd_nr :: u32
  sd_arch :: u32
  sd_instruction_pointer :: u64
  sd_args :: "u64 list"

record SeccompNotif =
  notif_id :: u64
  notif_pid :: u32
  notif_flags :: u32
  notif_data :: SeccompData

record SeccompNotifResp =
  resp_id :: u64
  resp_val :: int
  resp_error :: int
  resp_flags :: u32

definition IOC_TYPESHIFT :: nat where "IOC_TYPESHIFT = 0 + 8"
definition IOC_SIZESHIFT :: nat where "IOC_SIZESHIFT = IOC_TYPESHIFT + 8"
definition IOC_DIRSHIFT :: nat where "IOC_DIRSHIFT = IOC_SIZESHIFT + 14"

definition ioc :: "u64 \<Rightarrow> u64 \<Rightarrow> u64 \<Rightarrow> u64 \<Rightarrow> u64" where
  "ioc dir ty nr sz =
     push_bit IOC_DIRSHIFT dir OR push_bit IOC_TYPESHIFT ty OR push_bit 0 nr
     OR push_bit IOC_SIZESHIFT sz"

text \<open>The sizes of the three \<open>repr(C)\<close> structures: \<open>SeccompData\<close> has two 4-byte and seven 8-byte
  fields, \<open>SeccompNotif\<close> adds \<open>8 + 4 + 4\<close>, \<open>SeccompNotifResp\<close> is \<open>8 + 8 + 4 + 4\<close>.\<close>

definition size_of_data :: u64 where "size_of_data = 4 + 4 + 8 + 6 * 8"
definition size_of_notif :: u64 where "size_of_notif = 8 + 4 + 4 + size_of_data"
definition size_of_resp :: u64 where "size_of_resp = 8 + 8 + 4 + 4"

definition ioctl_notif_recv :: u64 where
  "ioctl_notif_recv = ioc (2 OR 1) 0x21 0 size_of_notif"

definition ioctl_notif_send :: u64 where
  "ioctl_notif_send = ioc (2 OR 1) 0x21 1 size_of_resp"

definition ioctl_notif_id_valid :: u64 where
  "ioctl_notif_id_valid = ioc 1 0x21 2 8"

text \<open>The program \<open>install_connect_listener\<close> loads; \<open>connect\<close> is the system call's number.\<close>

definition connect_filter :: "64 word \<Rightarrow> SockFilter list" where
  "connect_filter connect =
    [\<lparr>code = BPF_LD OR BPF_W OR BPF_ABS, jt = 0, jf = 0, k = 0\<rparr>,
     \<lparr>code = BPF_JMP OR BPF_JEQ OR BPF_K, jt = 0, jf = 1, k = ucast connect\<rparr>,
     \<lparr>code = BPF_RET OR BPF_K, jt = 0, jf = 0, k = SECCOMP_RET_USER_NOTIF\<rparr>,
     \<lparr>code = BPF_RET OR BPF_K, jt = 0, jf = 0, k = SECCOMP_RET_ALLOW\<rparr>]"

text \<open>\<open>install_connect_listener\<close>: \<open>prctl\<close> may fail with an error; \<open>seccomp\<close> answers a descriptor or
  an error.\<close>

definition install_connect_listener ::
    "sysno \<Rightarrow> string option \<Rightarrow> (u16 \<Rightarrow> SockFilter list \<Rightarrow> string + int) \<Rightarrow> string + int" where
  "install_connect_listener sys no_new_privs seccomp =
     (case no_new_privs of
        Some e \<Rightarrow> Inl e
      | None \<Rightarrow> let filter = connect_filter (sys ''connect'')
                in seccomp (of_nat (length filter)) filter)"

section \<open>Decoding destinations\<close>

definition AF_INET :: nat where "AF_INET = 2"
definition AF_INET6 :: nat where "AF_INET6 = 10"

text \<open>\<open>from_ne_bytes\<close> is little-endian on the supported targets.\<close>

definition decode_sockaddr :: "u8 list \<Rightarrow> SocketAddr option" where
  "decode_sockaddr buf =
     (if length buf < 2 then None
      else let family = le_nat (take 2 buf) in
      if family = AF_INET then
        (if length buf < 8 then None
         else let port = of_nat (be_nat (take 2 (drop 2 buf)));
                  ip = of_nat (be_nat (take 4 (drop 4 buf)))
              in Some (socket_addr_new (V4 ip) port))
      else if family = AF_INET6 then
        (if length buf < 24 then None
         else let port = of_nat (be_nat (take 2 (drop 2 buf)));
                  octets = of_nat (be_nat (take 16 (drop 8 buf)))
              in Some (socket_addr_new (V6 octets) port))
      else None)"

section \<open>The supervisor\<close>

record EgressDecision =
  destination :: "SocketAddr option"
  decision_allowed :: bool
  decision_reason :: string

text \<open>What the operating system answers during one iteration: the notification received (\<open>None\<close>
  when the \<open>ioctl\<close> fails), reads of the target's memory, whether the notification is still
  live, whether the log's mutex can be taken, whether sending the answer succeeds.\<close>

record notification_event =
  received :: "SeccompNotif option"
  target_memory :: "u32 \<Rightarrow> u64 \<Rightarrow> nat \<Rightarrow> u8 list option"
  still_valid :: bool
  log_lockable :: bool
  send_ok :: bool

definition decode_request :: "(u32 \<Rightarrow> u64 \<Rightarrow> nat \<Rightarrow> u8 list option) \<Rightarrow> SeccompNotif \<Rightarrow> SocketAddr option" where
  "decode_request read_target_memory req =
     (let addr_ptr = sd_args (notif_data req) ! 1;
          addr_len = unat (sd_args (notif_data req) ! 2)
      in if addr_len = 0 \<or> addr_len > 128 then None
         else Option.bind (read_target_memory (notif_pid req) addr_ptr addr_len) decode_sockaddr)"

definition decide :: "EgressPolicy \<Rightarrow> SocketAddr option \<Rightarrow> bool \<times> string" where
  "decide policy decoded =
     (case decoded of
        Some addr \<Rightarrow> if permits policy addr then (True, show_addr addr @ '' permitted'')
                     else (False, denial_reason policy addr)
      | None \<Rightarrow> (False, ''connect to an address this supervisor could not decode; refused rather than waved through''))"

definition EACCES :: int where "EACCES = 13"

definition notif_response :: "SeccompNotif \<Rightarrow> bool \<Rightarrow> SeccompNotifResp" where
  "notif_response req allow =
     \<lparr>resp_id = notif_id req, resp_val = 0, resp_error = (if allow then 0 else - EACCES),
      resp_flags = (if allow then 1 else 0)\<rparr>"

text \<open>The state of the loop: the log, the answers handed to the kernel, and whether the loop has
  ended and closed the descriptor. When the list of events is used up the loop is waiting.\<close>

record supervisor =
  sup_log :: "EgressDecision list"
  sup_sent :: "SeccompNotifResp list"
  sup_closed :: bool

fun supervise :: "EgressPolicy \<Rightarrow> notification_event list \<Rightarrow> supervisor \<Rightarrow> supervisor" where
  "supervise policy [] st = st"
| "supervise policy (ev # evs) st =
     (case received ev of
        None \<Rightarrow> st\<lparr>sup_closed := True\<rparr>
      | Some req \<Rightarrow>
        let decoded = decode_request (target_memory ev) req in
        if \<not> still_valid ev then supervise policy evs st
        else let (allow, reason) = decide policy decoded;
                 st = (if log_lockable ev
                       then st\<lparr>sup_log := sup_log st
                               @ [\<lparr>destination = decoded, decision_allowed = allow, decision_reason = reason\<rparr>]\<rparr>
                       else st);
                 st = st\<lparr>sup_sent := sup_sent st @ [notif_response req allow]\<rparr>
             in if send_ok ev then supervise policy evs st else st\<lparr>sup_closed := True\<rparr>)"

section \<open>What the supervisor lets through\<close>

text \<open>The trap: exactly \<open>connect\<close> is handed to the supervisor.\<close>

lemma connect_filter_verdict:
  "filter_verdict (connect_filter c) nr ar =
     Some (if nr = ucast c then SECCOMP_RET_USER_NOTIF else SECCOMP_RET_ALLOW)"
  by (simp add: filter_verdict_def connect_filter_def bpf_run.simps bpf_constants
      seccomp_words_def)

text \<open>The layout of \<open>sockaddr_in\<close> and \<open>sockaddr_in6\<close> a program passes to \<open>connect\<close>.\<close>

fun encode_sockaddr :: "SocketAddr \<Rightarrow> u8 list" where
  "encode_sockaddr (SocketAddrV4 a p) =
     le_bytes 2 AF_INET @ be_bytes 2 (unat p) @ be_bytes 4 (unat a) @ replicate 8 0"
| "encode_sockaddr (SocketAddrV6 a p f sc) =
     le_bytes 2 AF_INET6 @ be_bytes 2 (unat p) @ be_bytes 4 (unat f) @ be_bytes 16 (unat a)
     @ le_bytes 4 (unat sc)"

lemma word_le_roundtrip:
  "of_nat (le_nat (le_bytes 2 (unat p))) = (p :: u16)"
  "of_nat (le_nat (le_bytes 4 (unat a))) = (a :: u32)"
  "of_nat (le_nat (le_bytes 16 (unat b))) = (b :: 128 word)"
proof -
  have "unat p < 256 ^ 2" "unat a < 256 ^ 4" "unat b < 256 ^ 16"
    using unsigned_less [of p, where 'a = nat] unsigned_less [of a, where 'a = nat]
      unsigned_less [of b, where 'a = nat] by simp_all
  then show "of_nat (le_nat (le_bytes 2 (unat p))) = p"
    "of_nat (le_nat (le_bytes 4 (unat a))) = a" "of_nat (le_nat (le_bytes 16 (unat b))) = b"
    by (simp_all del: le_bytes.simps power_numeral)
qed

lemma take_drop_append:
  "length a = n \<Longrightarrow> take n (a @ b) = a" "length a = n \<Longrightarrow> drop n (a @ b) = b"
  by auto

lemma decode_encode:
  "decode_sockaddr (encode_sockaddr addr) =
     Some (case addr of SocketAddrV4 a p \<Rightarrow> SocketAddrV4 a p
                      | SocketAddrV6 a p f sc \<Rightarrow> SocketAddrV6 a p 0 0)"
proof (cases addr)
  case (SocketAddrV4 a p)
  have d: "drop 2 (encode_sockaddr addr) = be_bytes 2 (unat p) @ be_bytes 4 (unat a) @ replicate 8 0"
    "drop 4 (encode_sockaddr addr) = be_bytes 4 (unat a) @ replicate 8 0"
    "le_nat (take 2 (encode_sockaddr addr)) = AF_INET" "length (encode_sockaddr addr) = 16"
    by (simp_all add: SocketAddrV4 AF_INET_def)
  show ?thesis
    unfolding decode_sockaddr_def d
    by (simp add: SocketAddrV4 take_drop_append word_le_roundtrip del: le_bytes.simps)
next
  case (SocketAddrV6 a p f sc)
  have d: "drop 2 (encode_sockaddr addr) =
             be_bytes 2 (unat p) @ be_bytes 4 (unat f) @ be_bytes 16 (unat a) @ le_bytes 4 (unat sc)"
    "drop 8 (encode_sockaddr addr) = be_bytes 16 (unat a) @ le_bytes 4 (unat sc)"
    "le_nat (take 2 (encode_sockaddr addr)) = AF_INET6" "length (encode_sockaddr addr) = 28"
    by (simp_all add: SocketAddrV6 AF_INET6_def)
  show ?thesis
    unfolding decode_sockaddr_def d
    by (simp add: SocketAddrV6 AF_INET_def AF_INET6_def take_drop_append word_le_roundtrip
        del: le_bytes.simps)
qed

text \<open>The specification of the loop: the events it serves, in order, and the answer each one
  deserves.\<close>

fun served :: "notification_event list \<Rightarrow> notification_event list" where
  "served [] = []"
| "served (ev # evs) =
     (if received ev = None then []
      else if \<not> still_valid ev then served evs
      else if send_ok ev then ev # served evs else [ev])"

definition may_connect :: "EgressPolicy \<Rightarrow> notification_event \<Rightarrow> bool" where
  "may_connect policy ev \<longleftrightarrow>
     (\<exists>addr \<in> allowed_set policy. decode_request (target_memory ev) (the (received ev)) = Some addr)"

lemma decide_allow: "fst (decide policy (decode_request (target_memory ev) req)) \<longleftrightarrow>
    may_connect policy (ev\<lparr>received := Some req\<rparr>)"
  by (auto simp: decide_def may_connect_def permits_def split: option.splits)

lemma supervise_sent:
  "sup_sent (supervise policy evs st) =
     sup_sent st @ map (\<lambda>ev. notif_response (the (received ev)) (may_connect policy ev)) (served evs)"
proof (induction evs arbitrary: st)
  case (Cons ev evs)
  show ?case
  proof (cases "received ev")
    case (Some req)
    then have ev: "ev\<lparr>received := Some req\<rparr> = ev" by simp
    obtain allow r where d: "decide policy (decode_request (target_memory ev) req) = (allow, r)"
      by (cases "decide policy (decode_request (target_memory ev) req)")
    with decide_allow [of policy ev req] ev have "allow = may_connect policy ev" by simp
    with Some d Cons show ?thesis by (simp add: Let_def)
  qed simp
qed simp

lemma supervise_log:
  assumes "\<forall>ev \<in> set evs. log_lockable ev"
  shows "map (\<lambda>d. (destination d, decision_allowed d)) (sup_log (supervise policy evs st)) =
         map (\<lambda>d. (destination d, decision_allowed d)) (sup_log st)
         @ map (\<lambda>ev. (decode_request (target_memory ev) (the (received ev)), may_connect policy ev))
             (served evs)"
  using assms
proof (induction evs arbitrary: st)
  case (Cons ev evs)
  show ?case
  proof (cases "received ev")
    case (Some req)
    then have ev: "ev\<lparr>received := Some req\<rparr> = ev" by simp
    obtain allow r where d: "decide policy (decode_request (target_memory ev) req) = (allow, r)"
      by (cases "decide policy (decode_request (target_memory ev) req)")
    with decide_allow [of policy ev req] ev have "allow = may_connect policy ev" by simp
    with Some d Cons show ?thesis by (simp add: Let_def)
  qed simp
qed simp

end
