(* ===== verification/Utf8.thy ===== *)
theory Utf8
  imports Prelude
begin

text \<open>
  \<open>String::from_utf8_lossy\<close> and UTF-8 validity, as the standard library defines them: the input
  is cut into valid sequences and maximal invalid ones, and each invalid one becomes the
  replacement character U+FFFD.
\<close>

definition byte :: "char \<Rightarrow> nat" where
  "byte c = of_char c"

text \<open>The byte after the end of the input reads as 0, as in the decoder of the library.\<close>

definition byte_at :: "string \<Rightarrow> nat \<Rightarrow> nat" where
  "byte_at s i = (if i < length s then byte (s ! i) else 0)"

definition continuation :: "nat \<Rightarrow> bool" where
  "continuation b \<longleftrightarrow> 0x80 \<le> b \<and> b \<le> 0xBF"

text \<open>Second bytes admitted after the first byte of a three- or four-byte sequence.\<close>

definition second_of_three :: "nat \<Rightarrow> nat \<Rightarrow> bool" where
  "second_of_three a b \<longleftrightarrow>
     (if a = 0xE0 then 0xA0 \<le> b \<and> b \<le> 0xBF
      else if a = 0xED then 0x80 \<le> b \<and> b \<le> 0x9F
      else continuation b)"

definition second_of_four :: "nat \<Rightarrow> nat \<Rightarrow> bool" where
  "second_of_four a b \<longleftrightarrow>
     (if a = 0xF0 then 0x90 \<le> b \<and> b \<le> 0xBF
      else if a = 0xF4 then 0x80 \<le> b \<and> b \<le> 0x8F
      else continuation b)"

text \<open>The sequence at the front of a non-empty input: whether it is valid, and its length.\<close>

definition utf8_chunk :: "string \<Rightarrow> bool \<times> nat" where
  "utf8_chunk s =
     (let a = byte_at s 0; b = byte_at s 1; c = byte_at s 2; d = byte_at s 3 in
      if a < 0x80 then (True, 1)
      else if 0xC2 \<le> a \<and> a \<le> 0xDF then (if continuation b then (True, 2) else (False, 1))
      else if 0xE0 \<le> a \<and> a \<le> 0xEF then
        (if \<not> second_of_three a b then (False, 1)
         else if \<not> continuation c then (False, 2) else (True, 3))
      else if 0xF0 \<le> a \<and> a \<le> 0xF4 then
        (if \<not> second_of_four a b then (False, 1)
         else if \<not> continuation c then (False, 2)
         else if \<not> continuation d then (False, 3) else (True, 4))
      else (False, 1))"

lemma utf8_chunk_pos: "utf8_chunk s = (v, n) \<Longrightarrow> 0 < n"
  by (auto simp: utf8_chunk_def Let_def split: if_splits)

definition replacement :: string where
  "replacement = [CHR 0xEF, CHR 0xBF, CHR 0xBD]"

function from_utf8_lossy :: "string \<Rightarrow> string" where
  "from_utf8_lossy s =
     (if s = [] then []
      else case utf8_chunk s of
        (valid, n) \<Rightarrow> (if valid then take n s else replacement) @ from_utf8_lossy (drop n s))"
  by pat_completeness auto
termination
  by (relation "measure length") (auto dest: utf8_chunk_pos [OF sym] utf8_chunk_pos)

declare from_utf8_lossy.simps [simp del]

function utf8_valid :: "string \<Rightarrow> bool" where
  "utf8_valid s =
     (if s = [] then True
      else case utf8_chunk s of (valid, n) \<Rightarrow> valid \<and> utf8_valid (drop n s))"
  by pat_completeness auto
termination
  by (relation "measure length") (auto dest: utf8_chunk_pos [OF sym] utf8_chunk_pos)

declare utf8_valid.simps [simp del]

lemma from_utf8_lossy_valid: "utf8_valid s \<Longrightarrow> from_utf8_lossy s = s"
proof (induction s rule: from_utf8_lossy.induct)
  case (1 s)
  show ?case
  proof (cases "s = []")
    case False
    obtain v n where c: "utf8_chunk s = (v, n)" by (cases "utf8_chunk s")
    with False 1(2) have "v" "utf8_valid (drop n s)" by (auto simp: utf8_valid.simps [of s])
    with False c 1(1) [OF False] show ?thesis by (simp add: from_utf8_lossy.simps [of s])
  qed (simp add: from_utf8_lossy.simps [of "[]"])
qed

lemma byte_ascii: "ascii c \<longleftrightarrow> byte c < 128"
proof -
  have "of_char c = of_bool (digit0 c) + 2 * of_bool (digit1 c) + 4 * of_bool (digit2 c)
      + 8 * of_bool (digit3 c) + 16 * of_bool (digit4 c) + 32 * of_bool (digit5 c)
      + 64 * of_bool (digit6 c) + 128 * (of_bool (digit7 c) :: nat)"
    by (cases c) simp
  moreover have "of_bool b \<le> (1 :: nat)" for b by simp
  ultimately show ?thesis unfolding byte_def ascii_def
    by (cases "digit0 c"; cases "digit1 c"; cases "digit2 c"; cases "digit3 c"; cases "digit4 c";
        cases "digit5 c"; cases "digit6 c"; cases "digit7 c") simp_all
qed

lemma utf8_valid_ascii: "list_all ascii s \<Longrightarrow> utf8_valid s"
proof (induction s)
  case (Cons c s)
  then have "utf8_chunk (c # s) = (True, 1)"
    by (simp add: utf8_chunk_def byte_at_def byte_ascii)
  with Cons show ?case by (simp add: utf8_valid.simps [of "c # s"])
qed (simp add: utf8_valid.simps [of "[]"])

lemma from_utf8_lossy_ascii: "list_all ascii s \<Longrightarrow> from_utf8_lossy s = s"
  by (simp add: from_utf8_lossy_valid utf8_valid_ascii)

text \<open>Replacing an invalid byte by three others is the worst that can happen to the length.\<close>

lemma from_utf8_lossy_length: "length (from_utf8_lossy s) \<le> 3 * length s"
proof (induction s rule: from_utf8_lossy.induct)
  case (1 s)
  show ?case
  proof (cases "s = []")
    case False
    obtain v n where c: "utf8_chunk s = (v, n)" by (cases "utf8_chunk s")
    then have n: "0 < n" by (rule utf8_chunk_pos)
    have "length (from_utf8_lossy (drop n s)) \<le> 3 * (length s - n)"
      using 1 [OF False c [symmetric]] by simp
    moreover have "length (if v then take n s else replacement) \<le> 3 * min n (length s)"
      using False n by (cases s; cases n) (auto simp: replacement_def)
    moreover have "from_utf8_lossy s = (if v then take n s else replacement) @ from_utf8_lossy (drop n s)"
      using False c by (simp add: from_utf8_lossy.simps [of s])
    ultimately show ?thesis by simp
  qed (simp add: from_utf8_lossy.simps [of "[]"])
qed

end
