(* ===== verification/Sandbox_Exec.thy ===== *)
theory Sandbox_Exec
  imports Sandbox_Check Sandbox_Isolation Sandbox_Egress Utf8
begin

text \<open>
  Execution: the \<open>Sandbox\<close> object of \<open>soul_sandbox/src/lib.rs\<close> with its history, the spawn path
  (cgroup leaf, egress socket, isolation hook, egress supervisor), the wait loop with its
  deadline, capped reading, and the public operations \<open>execute\<close>, \<open>execute_streaming\<close>,
  \<open>execute_with_stdin\<close>, \<open>execute_spec\<close> and \<open>spawn_supervised\<close>.

  The operating system is the record \<open>os\<close>: the answers of the isolation hook's calls (from
  \<open>hook_os\<close>), of the cgroup file system, of \<open>socketpair\<close>, of the descriptor transfer, and the
  child an \<open>exec\<close> of an argument vector yields: the answers of successive \<open>try_wait\<close> calls
  with the time elapsed, and what its pipes deliver. Each operation returns its result and the
  updated object. \<open>Waiting\<close> is a call that is still polling when the known answers are used up.
\<close>

section \<open>Reading output\<close>

datatype read_answer = Read_Bytes string | Read_Interrupted | Read_Error

text \<open>\<open>Read::read_to_end\<close>: retries interrupted reads, keeps what arrived before an error, stops
  at an empty read. The flag says whether it ended at the end of the stream.\<close>

fun read_all :: "read_answer list \<Rightarrow> string \<times> bool" where
  "read_all [] = ([], True)"
| "read_all (Read_Bytes bs # rs) =
     (if bs = [] then ([], True) else (bs @ fst (read_all rs), snd (read_all rs)))"
| "read_all (Read_Interrupted # rs) = read_all rs"
| "read_all (Read_Error # rs) = ([], False)"

definition read_capped :: "read_answer list \<Rightarrow> nat \<Rightarrow> string" where
  "read_capped reader max_bytes = from_utf8_lossy (take max_bytes (fst (read_all reader)))"

fun drain_loop :: "nat \<Rightarrow> string \<Rightarrow> read_answer list \<Rightarrow> string" where
  "drain_loop max_bytes kept [] = kept"
| "drain_loop max_bytes kept (Read_Bytes chunk # rs) =
     (if chunk = [] then kept
      else drain_loop max_bytes
        (if length kept < max_bytes
         then let remaining = max_bytes - length kept
              in kept @ take (min (length chunk) remaining) chunk
         else kept) rs)"
| "drain_loop max_bytes kept (Read_Interrupted # rs) = kept"
| "drain_loop max_bytes kept (Read_Error # rs) = kept"

definition read_capped_draining :: "read_answer list \<Rightarrow> nat \<Rightarrow> string" where
  "read_capped_draining reader max_bytes = from_utf8_lossy (drain_loop max_bytes [] reader)"

text \<open>\<open>BufRead::lines().map_while(Result::ok)\<close>: complete lines without their terminator, a last
  unterminated line at the end of the stream, up to the first that is not UTF-8.\<close>

definition strip_cr :: "string \<Rightarrow> string" where
  "strip_cr l = (if l \<noteq> [] \<and> last l = CHR 0x0D then butlast l else l)"

definition stream_lines :: "read_answer list \<Rightarrow> string list" where
  "stream_lines reader =
     (case read_all reader of (bytes, clean) \<Rightarrow>
        let pieces = split_char (CHR 0x0A) bytes
        in takeWhile utf8_valid
             (map strip_cr (butlast pieces)
              @ (if clean \<and> last pieces \<noteq> [] then [last pieces] else [])))"

section \<open>Children and the operating system\<close>

text \<open>One \<open>try_wait\<close>: the exit code (\<open>None\<close> after a signal), still running with the nanoseconds
  elapsed since the wait began, or an error.\<close>

datatype poll = Exited "int option" | Running nat | Poll_Error string

record Child =
  child_pid :: int
  child_polls :: "poll list"
  child_stdout :: "read_answer list option"
  child_stderr :: "read_answer list option"

record exec_os = hook_os +
  cgroup_answers :: cgroup_os
  cgroup_context :: "string option"
  own_pid :: nat
  leaf_counter :: u64
  socketpair :: "string + int \<times> int"
  recv_fd :: "string + int"
  egress_events :: "notification_event list"
  inherited_limits :: rlimits
  exec_answer :: "string list \<Rightarrow> string + Child"
  exit_only :: Child
  now_start :: nat
  now_end :: nat
  elapsed_ms :: nat

record Sandbox =
  egress_child_sock :: int
  egress_log :: "EgressDecision list"
  policy :: SandboxPolicy
  history :: "SandboxVerdict list"
  history_max :: nat

definition sandbox_new :: "SandboxPolicy \<Rightarrow> Sandbox" where
  "sandbox_new pol =
     \<lparr>egress_child_sock = - 1, egress_log = [], policy = pol, history = [], history_max = 200\<rparr>"

definition with_history_max :: "nat \<Rightarrow> Sandbox \<Rightarrow> Sandbox" where
  "with_history_max n sb = sb\<lparr>history_max := n\<rparr>"

definition set_policy :: "SandboxPolicy \<Rightarrow> Sandbox \<Rightarrow> Sandbox" where
  "set_policy pol sb = sb\<lparr>policy := pol\<rparr>"

definition history_len :: "Sandbox \<Rightarrow> nat" where
  "history_len sb = length (history sb)"

datatype 'a exec_result = Crashed | Waiting | Finished "SandboxError + 'a"

section \<open>Spawning\<close>

text \<open>The cgroup leaf of an execution, shared by the two spawn paths that own their child.\<close>

definition make_leaf :: "('o exec_os_scheme) \<Rightarrow> ResourceLimits \<Rightarrow> string + string option" where
  "make_leaf os limits =
     (if wants_cgroup limits then
        (case cgroup_context os of
           None \<Rightarrow> Inr None
         | Some base \<Rightarrow>
           map_sum id (\<lambda>(leaf, _). Some leaf)
             (snd (create_leaf (cgroup_answers os) (own_pid os) base (leaf_counter os)
                     (cgroup_pids_max limits) (cgroup_memory_max_bytes limits))))
      else Inr None)"

text \<open>\<open>Command::spawn\<close> with the hook registered by \<open>apply_sandbox_pre_exec\<close>, which captured the
  socket \<open>sock\<close>: an aborted hook is reported as the spawn's error and nothing is executed; a
  hook whose process leaves yields a child that never ran the program.\<close>

definition command_spawn ::
    "('o exec_os_scheme) \<Rightarrow> SandboxPolicy \<Rightarrow> int \<Rightarrow> Command \<Rightarrow> string + Child" where
  "command_spawn os pol sock c =
     (case cmd_hook c of
        None \<Rightarrow> exec_answer os (cmd_argv c)
      | Some procs \<Rightarrow>
        (case fst (apply_sandbox_pre_exec os pol sock procs (inherited_limits os)) of
           Continue _ \<Rightarrow> exec_answer os (cmd_argv c)
         | Abort e \<Rightarrow> Inl e
         | Exit _ \<Rightarrow> Inr (exit_only os)
         | Blocked \<Rightarrow> Inr (exit_only os)))"

definition start_supervisor ::
    "('o exec_os_scheme) \<Rightarrow> Child \<Rightarrow> Sandbox \<Rightarrow> Child exec_result \<times> Sandbox" where
  "start_supervisor os child sb =
     (case egress_policy (policy sb) of
        None \<Rightarrow> (Finished (Inr child), sb)
      | Some pol \<Rightarrow>
        (case recv_fd os of
           Inl e \<Rightarrow> (Finished (Inl (Io (''egress supervision could not start: '' @ e))), sb)
         | Inr _ \<Rightarrow>
           (Finished (Inr child),
            sb\<lparr>egress_log := sup_log (supervise pol (egress_events os)
                                \<lparr>sup_log = [], sup_sent = [], sup_closed = False\<rparr>)\<rparr>)))"

definition spawn_with_sandbox ::
    "('o exec_os_scheme) \<Rightarrow> string \<Rightarrow> Stdio \<Rightarrow> Sandbox \<Rightarrow> Child exec_result \<times> Sandbox" where
  "spawn_with_sandbox os cmd stdin_mode sb =
     (case build_command (policy sb) cmd stdin_mode of
        Panicked \<Rightarrow> (Crashed, sb)
      | Returned (c, _, _) \<Rightarrow>
        (case make_leaf os (resource_limits (policy sb)) of
           Inl e \<Rightarrow> (Finished (Inl (Io e)), sb)
         | Inr leaf \<Rightarrow>
           (case (if egress_policy (policy sb) \<noteq> None then map_sum id snd (socketpair os)
                  else Inr (egress_child_sock sb)) of
              Inl e \<Rightarrow> (Finished (Inl (Io e)), sb)
            | Inr child_sock \<Rightarrow>
              (case command_spawn os (policy sb) child_sock
                      (apply_hook (map_option procs_path leaf) c) of
                 Inl e \<Rightarrow> (Finished (Inl (Io e)), sb\<lparr>egress_child_sock := - 1\<rparr>)
               | Inr child \<Rightarrow> start_supervisor os child (sb\<lparr>egress_child_sock := - 1\<rparr>)))))"

section \<open>Waiting\<close>

text \<open>The exit code, the captured output and whether the deadline fired. The process group is
  killed and reaped on the deadline, and its output is not read then.\<close>

fun wait_with_timeout :: "SandboxPolicy \<Rightarrow> poll list \<Rightarrow> read_answer list option
    \<Rightarrow> read_answer list option \<Rightarrow> (int option \<times> string \<times> string \<times> bool) option" where
  "wait_with_timeout pol [] out err = None"
| "wait_with_timeout pol (Exited ec # polls) out err =
     (let cap = max_output_bytes pol;
          so = (case out of Some r \<Rightarrow> read_capped r cap | None \<Rightarrow> []);
          se = (case err of Some r \<Rightarrow> read_capped r cap | None \<Rightarrow> [])
      in Some (ec, so, se, False))"
| "wait_with_timeout pol (Running elapsed # polls) out err =
     (if elapsed > timeout pol
      then Some (None, [], CHR 0x0A # ''[sandbox] timeout killed process group'', True)
      else wait_with_timeout pol polls out err)"
| "wait_with_timeout pol (Poll_Error e # polls) out err =
     Some (None, [], CHR 0x0A # ''[sandbox] wait error: '' @ e, False)"

section \<open>Operations\<close>

fun pop_front_while :: "nat \<Rightarrow> 'a list \<Rightarrow> 'a list" where
  "pop_front_while m [] = []"
| "pop_front_while m (x # xs) =
     (if length (x # xs) > m then pop_front_while m xs else x # xs)"

definition record_verdict :: "SandboxVerdict \<Rightarrow> Sandbox \<Rightarrow> Sandbox" where
  "record_verdict v sb = sb\<lparr>history := pop_front_while (history_max sb) (history sb @ [v])\<rparr>"

definition log_verdict :: "SandboxVerdict \<Rightarrow> Sandbox \<Rightarrow> Sandbox" where
  "log_verdict v sb = (if log_all (policy sb) then record_verdict v sb else sb)"

definition make_verdict :: "('o exec_os_scheme) \<Rightarrow> string \<Rightarrow> string \<Rightarrow> string \<Rightarrow> string list
    \<Rightarrow> int option \<times> string \<times> string \<times> bool \<Rightarrow> SandboxVerdict" where
  "make_verdict os cmd normalized bin thr w =
     (case w of (ec, out, err, late) \<Rightarrow>
        \<lparr>command = cmd, command_normalized = normalized, binary = bin, allowed = True,
         reason = ''ok'', stdout = out, stderr = err, exit_code = ec,
         duration_ms = elapsed_ms os, started_at = now_start os, finished_at = now_end os,
         threats = thr, timed_out = late\<rparr>)"

definition cmd_threats :: "SandboxPolicy \<Rightarrow> string \<Rightarrow> string list" where
  "cmd_threats pol cmd = map threat_debug (scan pol cmd) @ scan_paths cmd"

definition execute ::
    "('o exec_os_scheme) \<Rightarrow> string \<Rightarrow> Sandbox \<Rightarrow> SandboxVerdict exec_result \<times> Sandbox" where
  "execute os cmd sb =
     (case check (policy sb) cmd of
        Inl e \<Rightarrow> (Finished (Inl e), sb)
      | Inr bin \<Rightarrow>
        let safe_cmd = sanitize_for_execution cmd; normalized = normalize safe_cmd in
        (case spawn_with_sandbox os safe_cmd Null sb of
           (Crashed, sb) \<Rightarrow> (Crashed, sb)
         | (Waiting, sb) \<Rightarrow> (Waiting, sb)
         | (Finished (Inl e), sb) \<Rightarrow> (Finished (Inl e), sb)
         | (Finished (Inr child), sb) \<Rightarrow>
           (case wait_with_timeout (policy sb) (child_polls child) (child_stdout child)
                   (child_stderr child) of
              None \<Rightarrow> (Waiting, sb)
            | Some w \<Rightarrow>
              let v = make_verdict os cmd normalized bin (cmd_threats (policy sb) cmd) w
              in (Finished (Inr v), log_verdict v sb))))"

text \<open>\<open>execute_streaming\<close> takes the pipes before it waits, so the verdict carries no output; the
  lines go to a channel, standard output and standard error from one thread each. The two
  lists are what each thread sends; the receiver sees an interleaving of them.\<close>

definition execute_streaming :: "('o exec_os_scheme) \<Rightarrow> string \<Rightarrow> Sandbox
    \<Rightarrow> (SandboxVerdict \<times> string list \<times> string list) exec_result \<times> Sandbox" where
  "execute_streaming os cmd sb =
     (case check (policy sb) cmd of
        Inl e \<Rightarrow> (Finished (Inl e), sb)
      | Inr bin \<Rightarrow>
        (case spawn_with_sandbox os cmd Null sb of
           (Crashed, sb) \<Rightarrow> (Crashed, sb)
         | (Waiting, sb) \<Rightarrow> (Waiting, sb)
         | (Finished (Inl e), sb) \<Rightarrow> (Finished (Inl e), sb)
         | (Finished (Inr child), sb) \<Rightarrow>
           (case wait_with_timeout (policy sb) (child_polls child) None None of
              None \<Rightarrow> (Waiting, sb)
            | Some (ec, _, _, late) \<Rightarrow>
              (Finished (Inr
                 (make_verdict os cmd (normalize cmd) bin [] (ec, [], [], late),
                  case child_stdout child of Some r \<Rightarrow> stream_lines r | None \<Rightarrow> [],
                  case child_stderr child of Some r \<Rightarrow> stream_lines r | None \<Rightarrow> [])),
               sb))))"

definition execute_with_stdin ::
    "('o exec_os_scheme) \<Rightarrow> string \<Rightarrow> Sandbox \<Rightarrow> SandboxVerdict exec_result \<times> Sandbox" where
  "execute_with_stdin os cmd sb =
     (case check (policy sb) cmd of
        Inl e \<Rightarrow> (Finished (Inl e), sb)
      | Inr bin \<Rightarrow>
        (case build_command (policy sb) cmd Piped of
           Panicked \<Rightarrow> (Crashed, sb)
         | Returned (c, _, _) \<Rightarrow>
           (case make_leaf os (resource_limits (policy sb)) of
              Inl e \<Rightarrow> (Finished (Inl (Io e)), sb)
            | Inr leaf \<Rightarrow>
              (case command_spawn os (policy sb) (egress_child_sock sb)
                      (apply_hook (map_option procs_path leaf) c) of
                 Inl e \<Rightarrow> (Finished (Inl (Io e)), sb)
               | Inr child \<Rightarrow>
                 (case wait_with_timeout (policy sb) (child_polls child) (child_stdout child)
                         (child_stderr child) of
                    None \<Rightarrow> (Waiting, sb)
                  | Some w \<Rightarrow>
                    let v = make_verdict os cmd (normalize cmd) bin (cmd_threats (policy sb) cmd) w
                    in (Finished (Inr v), log_verdict v sb))))))"

definition spawn_supervised ::
    "('o exec_os_scheme) \<Rightarrow> SpawnSpec \<Rightarrow> Sandbox \<Rightarrow> SandboxError + Child" where
  "spawn_supervised os spec sb =
     bind_res (supervised_command (policy sb) spec) (\<lambda>c.
       map_sum Io id (command_spawn os (policy sb) (egress_child_sock sb) c))"

definition argv_threats :: "SandboxPolicy \<Rightarrow> string list \<Rightarrow> string list" where
  "argv_threats pol argv =
     map threat_debug (concat (map (scan pol) argv)) @ concat (map scan_paths argv)"

definition execute_spec ::
    "('o exec_os_scheme) \<Rightarrow> SpawnSpec \<Rightarrow> Sandbox \<Rightarrow> SandboxVerdict exec_result \<times> Sandbox" where
  "execute_spec os spec sb =
     (case bind_res (preview spec) (\<lambda>argv.
           bind_res (check_argv (policy sb) argv) (\<lambda>bin.
           bind_res (supervised_command (policy sb) (captured_stdio spec)) (\<lambda>c.
           map_sum Io (\<lambda>child. (argv, bin, child))
             (command_spawn os (policy sb) (egress_child_sock sb) c)))) of
        Inl e \<Rightarrow> (Finished (Inl e), sb)
      | Inr (argv, bin, child) \<Rightarrow>
        let cap = max_output_bytes (policy sb);
            out = (case child_stdout child of Some r \<Rightarrow> read_capped_draining r cap | None \<Rightarrow> []);
            err = (case child_stderr child of Some r \<Rightarrow> read_capped_draining r cap | None \<Rightarrow> [])
        in (case wait_with_timeout (policy sb) (child_polls child) None None of
              None \<Rightarrow> (Waiting, sb)
            | Some (ec, _, _, late) \<Rightarrow>
              let v = make_verdict os (join '' '' argv) (normalize (join '' '' argv)) bin
                        (argv_threats (policy sb) argv) (ec, out, err, late)
              in (Finished (Inr v), log_verdict v sb)))"

section \<open>History\<close>

lemma pop_front_while_drop: "pop_front_while m xs = drop (length xs - m) xs"
proof (induction xs)
  case (Cons x xs)
  then show ?case by (cases "length xs < m") (auto simp: Suc_diff_le)
qed simp

interpretation sh: bounded_history record_verdict history history_max
  by unfold_locales (simp_all add: record_verdict_def pop_front_while_drop)

lemma record_verdict_bounded: "length (history (record_verdict v sb)) \<le> history_max sb"
  by (simp add: record_verdict_def pop_front_while_drop)

section \<open>Capped reading\<close>

lemma read_capped_length: "length (read_capped r m) \<le> 3 * m"
  by (rule order_trans [OF from_utf8_lossy_length [of "take m (fst (read_all r))",
        folded read_capped_def]]) simp

lemma drain_loop_take:
  assumes "Read_Interrupted \<notin> set r" "length kept \<le> m"
  shows "drain_loop m kept r = take m (kept @ fst (read_all r))"
  using assms
proof (induction r arbitrary: kept)
  case (Cons a r)
  then show ?case
  proof (cases a)
    case (Read_Bytes bs)
    have "length (kept @ take (min (length bs) (m - length kept)) bs) \<le> m"
      using Cons.prems by simp
    moreover have "take m ((kept @ take (min (length bs) (m - length kept)) bs) @ t) =
        take m (kept @ bs @ t)" for t
      using Cons.prems by (cases "length bs \<le> m - length kept") auto
    ultimately show ?thesis using Read_Bytes Cons by (auto simp: Let_def)
  qed auto
qed simp

lemma read_capped_draining_eq:
  "Read_Interrupted \<notin> set r \<Longrightarrow> read_capped_draining r m = read_capped r m"
  by (simp add: read_capped_draining_def read_capped_def drain_loop_take)

section \<open>The deadline\<close>

text \<open>The wait loop is decided by the first poll that is not a run within the deadline.\<close>

fun decisive :: "SandboxPolicy \<Rightarrow> poll \<Rightarrow> bool" where
  "decisive pol (Running elapsed) \<longleftrightarrow> timeout pol < elapsed"
| "decisive pol (Exited ec) \<longleftrightarrow> True"
| "decisive pol (Poll_Error e) \<longleftrightarrow> True"

definition captured :: "nat \<Rightarrow> read_answer list option \<Rightarrow> string" where
  "captured cap r = (case r of Some rd \<Rightarrow> read_capped rd cap | None \<Rightarrow> [])"

fun wait_outcome :: "SandboxPolicy \<Rightarrow> read_answer list option \<Rightarrow> read_answer list option \<Rightarrow> poll
    \<Rightarrow> int option \<times> string \<times> string \<times> bool" where
  "wait_outcome pol out err (Exited ec) =
     (ec, captured (max_output_bytes pol) out, captured (max_output_bytes pol) err, False)"
| "wait_outcome pol out err (Running e) =
     (None, [], CHR 0x0A # ''[sandbox] timeout killed process group'', True)"
| "wait_outcome pol out err (Poll_Error e) =
     (None, [], CHR 0x0A # ''[sandbox] wait error: '' @ e, False)"

lemma wait_with_timeout_find:
  "wait_with_timeout pol polls out err =
     map_option (wait_outcome pol out err) (find (decisive pol) polls)"
proof (induction polls)
  case (Cons p polls)
  then show ?case by (cases p) (auto simp: captured_def Let_def)
qed simp

lemma captured_length: "length (captured cap r) \<le> 3 * cap"
  by (auto simp: captured_def read_capped_length split: option.splits)

lemma wait_returns:
  assumes "\<And>i e. i < length polls \<Longrightarrow> polls ! i = Running e \<Longrightarrow> i * 20000000 \<le> e"
    and "timeout pol div 20000000 + 1 < length polls"
  shows "\<exists>w. wait_with_timeout pol polls out err = Some w"
proof -
  let ?i = "timeout pol div 20000000 + 1"
  have "timeout pol < ?i * 20000000" by (simp add: mult.commute dividend_less_div_times)
  then have "decisive pol (polls ! ?i)"
    using assms(1) [of ?i] assms(2) by (cases "polls ! ?i") (auto intro: order.strict_trans2)
  then have "\<exists>p \<in> set polls. decisive pol p" using assms(2) nth_mem by blast
  then have "find (decisive pol) polls \<noteq> None" by (auto simp: find_None_iff)
  then show ?thesis
    unfolding wait_with_timeout_find by (metis not_None_eq option.map_disc_iff)
qed

section \<open>The spawn path is fail-closed\<close>

lemma spawn_keeps:
  assumes "spawn_with_sandbox os cmd m sb = (r, sb')"
  shows "policy sb' = policy sb" "history sb' = history sb" "history_max sb' = history_max sb"
  using assms
  by (auto simp: spawn_with_sandbox_def start_supervisor_def
      split: run.splits sum.splits option.splits if_splits)

lemma spawn_not_waiting: "fst (spawn_with_sandbox os cmd m sb) \<noteq> Waiting"
  by (auto simp: spawn_with_sandbox_def start_supervisor_def
      split: run.splits sum.splits option.splits)

text \<open>The process \<open>child\<close> a spawn with the isolation hook may yield: the answer of executing
  exactly \<open>argv\<close> once the whole hook has continued, a process that executed nothing when the hook's
  process left, and none at all when the hook aborted.\<close>

definition confined :: "('o exec_os_scheme) \<Rightarrow> SandboxPolicy \<Rightarrow> int \<Rightarrow> string option \<Rightarrow> string list
    \<Rightarrow> Child \<Rightarrow> bool" where
  "confined os pol sock procs argv child \<longleftrightarrow>
     (case fst (apply_sandbox_pre_exec os pol sock procs (inherited_limits os)) of
        Continue _ \<Rightarrow> exec_answer os argv = Inr child
      | Abort _ \<Rightarrow> False
      | Exit _ \<Rightarrow> child = exit_only os
      | Blocked \<Rightarrow> child = exit_only os)"

text \<open>The verdict reports a confined run of \<open>argv\<close>: the hook wrote to the control group made for
  this command, its egress socket is the new pair's when the policy has egress rules, and the exit
  code, the two outputs and the timeout flag are those of waiting for that process.\<close>

definition reports_run :: "('o exec_os_scheme) \<Rightarrow> Sandbox \<Rightarrow> string list \<Rightarrow> SandboxVerdict \<Rightarrow> bool" where
  "reports_run os sb argv v \<longleftrightarrow>
     (\<exists>leaf sock child. make_leaf os (resource_limits (policy sb)) = Inr leaf
        \<and> (if egress_policy (policy sb) = None then sock = egress_child_sock sb
           else \<exists>parent. socketpair os = Inr (parent, sock))
        \<and> confined os (policy sb) sock (map_option procs_path leaf) argv child
        \<and> wait_with_timeout (policy sb) (child_polls child) (child_stdout child) (child_stderr child)
            = Some (exit_code v, stdout v, stderr v, timed_out v))"

lemma command_spawn_confined:
  "command_spawn os pol sock c = Inr child \<Longrightarrow> cmd_hook c = Some procs \<Longrightarrow>
   confined os pol sock procs (cmd_argv c) child"
  by (auto simp: command_spawn_def confined_def split: hook_end.splits)

lemma spawn_confined:
  assumes "spawn_with_sandbox os cmd m sb = (Finished (Inr child), sb')"
  obtains leaf sock where "make_leaf os (resource_limits (policy sb)) = Inr leaf"
    "if egress_policy (policy sb) = None then sock = egress_child_sock sb
     else \<exists>parent. socketpair os = Inr (parent, sock)"
    "confined os (policy sb) sock (map_option procs_path leaf) (split_whitespace cmd) child"
proof -
  obtain c p ps leaf sock where
    c: "build_command (policy sb) cmd m = Returned (c, p, ps)"
    and leaf: "make_leaf os (resource_limits (policy sb)) = Inr leaf"
    and sock: "(if egress_policy (policy sb) \<noteq> None then map_sum id snd (socketpair os)
                else Inr (egress_child_sock sb)) = Inr sock"
    and sp: "command_spawn os (policy sb) sock (apply_hook (map_option procs_path leaf) c) = Inr child"
    using assms
    by (auto simp: spawn_with_sandbox_def start_supervisor_def
        split: run.splits sum.splits option.splits)
  from c have "cmd_argv c = split_whitespace cmd"
    by (auto simp: build_command_def split: list.splits)
  then have "confined os (policy sb) sock (map_option procs_path leaf) (split_whitespace cmd) child"
    using command_spawn_confined [OF sp] by (simp add: apply_hook_def)
  moreover have "if egress_policy (policy sb) = None then sock = egress_child_sock sb
     else \<exists>parent. socketpair os = Inr (parent, sock)"
    using sock by (cases "socketpair os") (auto split: if_splits)
  ultimately show thesis using that leaf by blast
qed

lemma spawn_crashed_iff:
  "fst (spawn_with_sandbox os cmd m sb) = Crashed \<longleftrightarrow> split_whitespace cmd = []"
  by (auto simp: spawn_with_sandbox_def start_supervisor_def build_command_def
      split: run.splits sum.splits option.splits list.splits)

section \<open>What an execution guarantees\<close>

lemma log_verdict_history:
  "history (log_verdict v sb) =
     (if log_all (policy sb) then drop (Suc (length (history sb)) - history_max sb) (history sb @ [v])
      else history sb)"
  by (simp add: log_verdict_def record_verdict_def pop_front_while_drop)

lemma execute_Finished:
  assumes "execute os cmd sb = (Finished (Inr v), sb')"
  obtains child sb1 p where
    "check (policy sb) cmd = Inr (binary v)"
    "spawn_with_sandbox os (sanitize_for_execution cmd) Null sb = (Finished (Inr child), sb1)"
    "find (decisive (policy sb)) (child_polls child) = Some p"
    "v = make_verdict os cmd (normalize (sanitize_for_execution cmd)) (binary v)
           (cmd_threats (policy sb) cmd)
           (wait_outcome (policy sb) (child_stdout child) (child_stderr child) p)"
    "sb' = log_verdict v sb1"
  using assms spawn_keeps [of os "sanitize_for_execution cmd" Null sb]
  by (fastforce simp: execute_def Let_def wait_with_timeout_find make_verdict_def
      split: sum.splits exec_result.splits prod.splits option.splits)

lemma execute_reports_run:
  assumes "execute os cmd sb = (Finished (Inr v), sb')"
  shows "reports_run os sb (split_whitespace (sanitize_for_execution cmd)) v"
proof -
  from assms obtain child sb1 p where e:
    "spawn_with_sandbox os (sanitize_for_execution cmd) Null sb = (Finished (Inr child), sb1)"
    "find (decisive (policy sb)) (child_polls child) = Some p"
    "v = make_verdict os cmd (normalize (sanitize_for_execution cmd)) (binary v)
           (cmd_threats (policy sb) cmd)
           (wait_outcome (policy sb) (child_stdout child) (child_stderr child) p)"
    by (rule execute_Finished)
  obtain ec so se t where w: "wait_outcome (policy sb) (child_stdout child) (child_stderr child) p
      = (ec, so, se, t)" by (metis prod_cases4)
  have "exit_code v = ec" "stdout v = so" "stderr v = se" "timed_out v = t"
    by (subst e(3), simp add: make_verdict_def w)+
  then have "wait_with_timeout (policy sb) (child_polls child) (child_stdout child) (child_stderr child)
      = Some (exit_code v, stdout v, stderr v, timed_out v)"
    using e(2) w by (simp add: wait_with_timeout_find)
  with spawn_confined [OF e(1)] show ?thesis unfolding reports_run_def by metis
qed

lemma execute_refused:
  "check (policy sb) cmd = Inl e \<Longrightarrow> execute os cmd sb = (Finished (Inl e), sb)"
  by (simp add: execute_def)

lemma execute_crashed_iff:
  "fst (execute os cmd sb) = Crashed \<longleftrightarrow>
     (\<exists>bin. check (policy sb) cmd = Inr bin) \<and> split_whitespace (sanitize_for_execution cmd) = []"
  using spawn_crashed_iff [of os "sanitize_for_execution cmd" Null sb]
  by (auto simp: execute_def Let_def split: sum.splits exec_result.splits prod.splits option.splits)

end
