(* ===== verification/Tools.thy ===== *)
theory Tools
  imports Sandbox_Exec
begin

text \<open>
  The tools an agent may call (\<open>soul_tools/src/lib.rs\<close>): permission levels, the closed registry of
  tools and their capabilities, the confinement of file paths to a workspace root, atomic writes,
  and the dispatch of a call to the sandbox, the file system, a browser or an MCP server.

  A \<open>Path\<close> is the string of its bytes, and the functions of \<open>std::path\<close> the code uses are defined on
  it for Unix. What the operating system answers is the argument \<open>os\<close>; the effects of a call are
  returned as the list of the operations it performs, in order. JSON values are a datatype with
  \<open>get\<close> and \<open>as_str\<close>; a browser session and an MCP call are answers of \<open>os\<close>.
\<close>

section \<open>Permission levels\<close>

datatype PermissionLevel = Read | Write | Destructive

definition destructive_patterns :: "string list" where
  "destructive_patterns = [''rm -rf'', ''mkfs'', ''dd if'', ''shutdown'', ''reboot'', ''poweroff'',
     ''kill -9'', ''pkill -9'', ''iptables -F'', ''fdisk'', ''parted'']"

definition write_patterns :: "string list" where
  "write_patterns = [''rm '', ''mv '', ''cp '', ''mkdir '', ''touch '', ''chmod '', ''chown '',
     ''write_file'', ''patch_file'', ''git push'', ''git reset --hard'']"

definition from_command :: "string \<Rightarrow> PermissionLevel" where
  "from_command cmd =
     (let lower = to_lowercase cmd
      in if list_ex (contains lower) destructive_patterns then Destructive
         else if list_ex (contains lower) write_patterns then Write
         else Read)"

section \<open>Registry\<close>

datatype ToolId = ExecuteShell | ReadFile | WriteFile | PatchFile | BrowserRead | McpCall

datatype ToolError = UnknownTool string

fun show_tool_error :: "ToolError \<Rightarrow> string" where
  "show_tool_error (UnknownTool name) = ''unknown tool '' @ str_debug name @ '': not a registered tool''"

fun tool_as_str :: "ToolId \<Rightarrow> string" where
  "tool_as_str ExecuteShell = ''execute_shell''"
| "tool_as_str ReadFile = ''read_file''"
| "tool_as_str WriteFile = ''write_file''"
| "tool_as_str PatchFile = ''patch_file''"
| "tool_as_str BrowserRead = ''browser_read''"
| "tool_as_str McpCall = ''mcp_call''"

definition all_tools :: "ToolId list" where
  "all_tools = [ExecuteShell, ReadFile, WriteFile, PatchFile, BrowserRead, McpCall]"

definition from_name :: "string \<Rightarrow> ToolError + ToolId" where
  "from_name name =
     (if name = ''execute_shell'' then Inr ExecuteShell
      else if name = ''read_file'' then Inr ReadFile
      else if name = ''write_file'' then Inr WriteFile
      else if name = ''patch_file'' then Inr PatchFile
      else if name = ''browser_read'' then Inr BrowserRead
      else if name = ''mcp_call'' then Inr McpCall
      else Inl (UnknownTool name))"

definition is_registered :: "string \<Rightarrow> bool" where
  "is_registered name = (case from_name name of Inl _ \<Rightarrow> False | Inr _ \<Rightarrow> True)"

datatype ToolCapability = ReadOnly | NetworkRead | NetworkWrite | FileWrite | ProcessExecution
  | CredentialAccess | MemoryMutation | SelfModification | Administrative

fun capability :: "ToolId \<Rightarrow> ToolCapability" where
  "capability ExecuteShell = ProcessExecution"
| "capability ReadFile = ReadOnly"
| "capability WriteFile = FileWrite"
| "capability PatchFile = FileWrite"
| "capability BrowserRead = NetworkRead"
| "capability McpCall = NetworkWrite"

fun required_permission :: "ToolCapability \<Rightarrow> PermissionLevel" where
  "required_permission ReadOnly = Read"
| "required_permission NetworkRead = Read"
| "required_permission FileWrite = Write"
| "required_permission NetworkWrite = Write"
| "required_permission MemoryMutation = Write"
| "required_permission ProcessExecution = Destructive"
| "required_permission CredentialAccess = Destructive"
| "required_permission SelfModification = Destructive"
| "required_permission Administrative = Destructive"

definition required_permission_for :: "string \<Rightarrow> string option \<Rightarrow> PermissionLevel" where
  "required_permission_for name command' = (case from_name name of
     Inr ExecuteShell \<Rightarrow> from_command (case command' of Some c \<Rightarrow> c | None \<Rightarrow> [])
   | Inr other \<Rightarrow> required_permission (capability other)
   | Inl _ \<Rightarrow> Destructive)"

record CapabilityRequest =
  tool_name :: string
  request_command :: "string option"

definition policy_required_permission :: "CapabilityRequest \<Rightarrow> PermissionLevel" where
  "policy_required_permission r = required_permission_for (tool_name r) (request_command r)"

section \<open>Paths\<close>

text \<open>\<open>Path::components\<close> as the strings of the components: \<open>/\<close> for the root, then the names; empty
  pieces and \<open>.\<close> are dropped, but for a \<open>.\<close> a relative path begins with.\<close>

definition split_body :: "string \<Rightarrow> string \<times> string" where
  "split_body s =
     (if starts_with s ''/'' then (''/'', tl s)
      else if s = ''.'' \<or> starts_with s ''./'' then (''.'', tl s)
      else ([], s))"

definition blank :: "string \<Rightarrow> bool" where
  "blank p \<longleftrightarrow> p = [] \<or> p = ''.''"

definition components :: "string \<Rightarrow> string list" where
  "components s = (case split_body s of (pre, body) \<Rightarrow>
     (if pre = [] then [] else [pre]) @ filter (\<lambda>p. \<not> blank p) (split_char CHR ''/'' body))"

definition is_absolute :: "string \<Rightarrow> bool" where
  "is_absolute s = starts_with s ''/''"

text \<open>\<open>PathBuf::push\<close> and \<open>Path::join\<close>.\<close>

definition path_push :: "string \<Rightarrow> string \<Rightarrow> string" where
  "path_push p q =
     (if is_absolute q then q
      else if p = [] \<or> last p = CHR ''/'' then p @ q
      else p @ ''/'' @ q)"

definition drop_blank :: "string list \<Rightarrow> string list" where
  "drop_blank ps = rev (dropWhile blank (rev ps))"

definition path_parent :: "string \<Rightarrow> string option" where
  "path_parent s = (case split_body s of (pre, body) \<Rightarrow>
     let ps = drop_blank (split_char CHR ''/'' body)
     in if ps = [] then (if pre = ''.'' then Some [] else None)
        else Some (pre @ join ''/'' (drop_blank (butlast ps))))"

definition file_name :: "string \<Rightarrow> string option" where
  "file_name s = (case split_body s of (pre, body) \<Rightarrow>
     let ps = drop_blank (split_char CHR ''/'' body)
     in if ps = [] \<or> last ps = ''..'' then None else Some (last ps))"

definition path_starts_with :: "string \<Rightarrow> string \<Rightarrow> bool" where
  "path_starts_with p q = starts_with (components p) (components q)"

lemma join_split_char: "join [sep] (split_char sep s) = s"
proof (induction s)
  case (Cons c s)
  then show ?case by (cases "split_char sep s") (auto, (cases "tl (split_char sep s)", auto)+)
qed simp

lemma join_take_length: "length (join sep (take m xs)) \<le> length (join sep xs)"
proof (induction sep xs arbitrary: m rule: join.induct)
  case (3 sep x y xs)
  then show ?case by (cases m; cases "m - 1") (auto, metis 3 take_Suc_Cons)
next
  case (2 sep x)
  then show ?case by (cases m) auto
qed simp

lemma join_butlast_length:
  "xs \<noteq> [] \<Longrightarrow> last xs \<noteq> [] \<Longrightarrow> length (join sep (butlast xs)) < length (join sep xs)"
proof (induction sep xs rule: join.induct)
  case (3 sep x y xs)
  then show ?case by (cases xs) simp_all
qed simp_all

lemma drop_blank_take: "\<exists>m. drop_blank ps = take m ps"
  by (metis drop_blank_def dropWhile_eq_drop rev_drop rev_rev_ident)

lemma drop_blank_last: "drop_blank ps \<noteq> [] \<Longrightarrow> \<not> blank (last (drop_blank ps))"
  by (simp add: drop_blank_def last_rev hd_dropWhile)

lemma drop_blank_length: "length (join sep (drop_blank ps)) \<le> length (join sep ps)"
  by (metis drop_blank_take join_take_length)

lemma split_body_length: "split_body s = (pre, body) \<Longrightarrow> length pre + length body = length s"
  by (cases s) (auto simp: split_body_def split: if_splits)

lemma path_parent_shorter:
  assumes "path_parent s = Some p"
  shows "length p < length s"
proof -
  obtain pre body where sb: "split_body s = (pre, body)" by (cases "split_body s")
  define ps where "ps = drop_blank (split_char CHR ''/'' body)"
  show ?thesis
  proof (cases "ps = []")
    case True
    with assms sb show ?thesis
      by (auto simp: path_parent_def ps_def split_body_def split: if_splits)
  next
    case False
    then have "last ps \<noteq> []" using drop_blank_last by (force simp: ps_def blank_def)
    then have "length (join ''/'' (drop_blank (butlast ps))) < length (join ''/'' ps)"
      using False drop_blank_length join_butlast_length le_less_trans by metis
    also have "\<dots> \<le> length body"
      using drop_blank_length [of "''/''" "split_char CHR ''/'' body"] join_split_char
      by (metis ps_def)
    finally show ?thesis
      using assms sb False split_body_length [OF sb] by (auto simp: path_parent_def ps_def [symmetric])
  qed
qed

section \<open>Operating system\<close>

datatype stat_answer = Stat_Ok | Stat_Not_Found | Stat_Error string

datatype lstat_answer = Symlink | Not_Symlink | Lstat_Not_Found | Lstat_Error string

datatype json = JNull | JBool bool | JNumber string | JString string | JArray "json list"
  | JObject "(string \<times> json) list"

record tool_os =
  canonicalize :: "string \<Rightarrow> string + string"
  exists :: "string \<Rightarrow> bool"
  symlink_metadata :: "string \<Rightarrow> lstat_answer"
  metadata :: "string \<Rightarrow> stat_answer"
  file_bytes :: "string \<Rightarrow> string + string"
  write_temp :: "string \<Rightarrow> string \<Rightarrow> string + unit"
  rename_file :: "string \<Rightarrow> string \<Rightarrow> string + unit"
  write_counter :: u64
  process_id :: u32
  current_dir :: "string option"
  home_dir :: "string option"
  shell_os :: exec_os
  browse :: "string \<Rightarrow> string \<Rightarrow> string + string"
  mcp_request :: "string \<Rightarrow> string \<Rightarrow> json \<Rightarrow> string + string"
  join_error :: string

datatype tool_op = Read_Op string | Write_Temp string string | Remove_Temp string
  | Rename_Op string string | Shell_Op string | Browse_Op string string | Mcp_Op string string json

section \<open>Filesystem confinement\<close>

datatype FsPolicyError = EmptyPath | NulByte string | OutsideRoot string | BrokenSymlink string
  | ProtectedPath string | RootNotFound string | Fs_Io string string

fun show_fs_error :: "FsPolicyError \<Rightarrow> string" where
  "show_fs_error EmptyPath = ''empty path''"
| "show_fs_error (NulByte r) = ''path '' @ str_debug r @ '' contains a NUL byte''"
| "show_fs_error (OutsideRoot r) = ''path '' @ str_debug r @ '' escapes the confined workspace root''"
| "show_fs_error (BrokenSymlink r) = ''path '' @ str_debug r @ '' contains a broken symlink''"
| "show_fs_error (ProtectedPath r) = ''path '' @ str_debug r @ '' touches a protected location''"
| "show_fs_error (RootNotFound d) = ''workspace root not found: '' @ d"
| "show_fs_error (Fs_Io r d) = ''path '' @ str_debug r @ '': '' @ d"

record FsPolicy =
  root :: string

definition fs_policy_new :: "tool_os \<Rightarrow> string \<Rightarrow> FsPolicyError + FsPolicy" where
  "fs_policy_new os r = (case canonicalize os r of
     Inl e \<Rightarrow> Inl (RootNotFound e)
   | Inr c \<Rightarrow> Inr \<lparr>root = c\<rparr>)"

fun reject_broken_from :: "tool_os \<Rightarrow> string \<Rightarrow> string \<Rightarrow> string list \<Rightarrow> FsPolicyError + unit" where
  "reject_broken_from os requested current [] = Inr ()"
| "reject_broken_from os requested current (c # cs) =
     (let cur = path_push current c
      in case symlink_metadata os cur of
           Lstat_Not_Found \<Rightarrow> Inr ()
         | Lstat_Error e \<Rightarrow> Inl (Fs_Io requested e)
         | Not_Symlink \<Rightarrow> reject_broken_from os requested cur cs
         | Symlink \<Rightarrow> (case metadata os cur of
             Stat_Ok \<Rightarrow> reject_broken_from os requested cur cs
           | Stat_Not_Found \<Rightarrow> Inl (BrokenSymlink requested)
           | Stat_Error e \<Rightarrow> Inl (Fs_Io requested e)))"

definition reject_broken_symlink :: "tool_os \<Rightarrow> string \<Rightarrow> string \<Rightarrow> FsPolicyError + unit" where
  "reject_broken_symlink os candidate requested = reject_broken_from os requested [] (components candidate)"

text \<open>The walk to the nearest existing ancestor. The names of the missing components are collected
  from the innermost outwards; a component without a file name, such as \<open>..\<close>, contributes none.\<close>

function walk_up :: "tool_os \<Rightarrow> string \<Rightarrow> string list \<Rightarrow> (string \<times> string list) option" where
  "walk_up os existing missing =
     (if exists os existing then Some (existing, missing)
      else case path_parent existing of
             None \<Rightarrow> None
           | Some p \<Rightarrow> walk_up os p (missing @ (case file_name existing of Some n \<Rightarrow> [n] | None \<Rightarrow> [])))"
  by pat_completeness auto
termination
  by (relation "measure (\<lambda>(os, e, m). length e)") (auto dest: path_parent_shorter)

declare walk_up.simps [simp del]

fun push_all :: "string \<Rightarrow> string \<Rightarrow> string list \<Rightarrow> FsPolicyError + string" where
  "push_all requested result [] = Inr result"
| "push_all requested result (c # cs) =
     (if c = ''..'' \<or> c = ''.'' then Inl (OutsideRoot requested)
      else push_all requested (path_push result c) cs)"

definition resolve_path :: "tool_os \<Rightarrow> FsPolicy \<Rightarrow> string \<Rightarrow> bool \<Rightarrow> FsPolicyError + string" where
  "resolve_path os pol requested must_exist =
     (if requested = [] then Inl EmptyPath
      else if CHR 0x00 \<in> set requested then Inl (NulByte requested)
      else let candidate = (if is_absolute requested then requested else path_push (root pol) requested)
           in bind_res (reject_broken_symlink os candidate requested) (\<lambda>_.
                case walk_up os candidate [] of
                  None \<Rightarrow> Inl (OutsideRoot requested)
                | Some (existing, missing) \<Rightarrow>
                    if must_exist \<and> missing \<noteq> [] then Inl (Fs_Io requested ''not found'')
                    else case canonicalize os existing of
                      Inl e \<Rightarrow> Inl (Fs_Io requested e)
                    | Inr canon \<Rightarrow>
                        if \<not> path_starts_with canon (root pol) then Inl (OutsideRoot requested)
                        else bind_res (push_all requested canon (rev missing)) (\<lambda>result.
                          if ''.git'' \<in> set (components result) then Inl (ProtectedPath requested)
                          else if \<not> path_starts_with result (root pol) then Inl (OutsideRoot requested)
                          else Inr result)))"

definition resolve_read :: "tool_os \<Rightarrow> FsPolicy \<Rightarrow> string \<Rightarrow> FsPolicyError + string" where
  "resolve_read os pol requested = resolve_path os pol requested True"

definition resolve_write :: "tool_os \<Rightarrow> FsPolicy \<Rightarrow> string \<Rightarrow> FsPolicyError + string" where
  "resolve_write os pol requested = resolve_path os pol requested False"

definition default_workspace_root :: "tool_os \<Rightarrow> string" where
  "default_workspace_root os = (case current_dir os of Some d \<Rightarrow> d | None \<Rightarrow> ''/'')"

section \<open>File operations\<close>

definition MAX_TOOL_FILE_READ_BYTES :: nat where "MAX_TOOL_FILE_READ_BYTES = 4 * 1024 * 1024"
definition MAX_TOOL_FILE_WRITE_BYTES :: nat where "MAX_TOOL_FILE_WRITE_BYTES = 8 * 1024 * 1024"

text \<open>Opening, writing and syncing the temporary file is one answer of the operating system. A failed
  rename leaves the temporary file behind.\<close>

definition temp_name :: "tool_os \<Rightarrow> string \<Rightarrow> string" where
  "temp_name os fname = ''.'' @ from_utf8_lossy fname @ ''.soultmp-'' @ show_nat (unat (process_id os))
     @ ''-'' @ show_nat (unat (write_counter os))"

definition atomic_write :: "tool_os \<Rightarrow> string \<Rightarrow> string \<Rightarrow> (string + unit) \<times> tool_op list" where
  "atomic_write os path content = (case path_parent path of
     None \<Rightarrow> (Inl ''path has no parent'', [])
   | Some dir \<Rightarrow>
       if dir = [] then (Inl ''path has no parent'', [])
       else case file_name path of
         None \<Rightarrow> (Inl ''path has no file name'', [])
       | Some fname \<Rightarrow>
           let tmp = path_push dir (temp_name os fname)
           in case write_temp os tmp content of
                Inl e \<Rightarrow> (Inl e, [Write_Temp tmp content, Remove_Temp tmp])
              | Inr _ \<Rightarrow> (rename_file os tmp path, [Write_Temp tmp content, Rename_Op tmp path]))"

text \<open>The text of a \<open>FromUtf8Error\<close>, for bytes that are not valid UTF-8.\<close>

function utf8_error_at :: "nat \<Rightarrow> string \<Rightarrow> string" where
  "utf8_error_at i s =
     (if s = [] then []
      else case utf8_chunk s of (valid, len) \<Rightarrow>
        if valid then utf8_error_at (i + len) (drop len s)
        else if length s = len \<and> 0xC2 \<le> byte (hd s) \<and> byte (hd s) \<le> 0xF4
        then ''incomplete utf-8 byte sequence from index '' @ show_nat i
        else ''invalid utf-8 sequence of '' @ show_nat len @ '' bytes from index '' @ show_nat i)"
  by pat_completeness auto
termination
  by (relation "measure (\<lambda>(i, s). length s)") (auto dest: utf8_chunk_pos [OF sym] utf8_chunk_pos)

declare utf8_error_at.simps [simp del]

definition read_file_capped :: "tool_os \<Rightarrow> string \<Rightarrow> nat \<Rightarrow> (string + string) \<times> tool_op list" where
  "read_file_capped os path max_bytes =
     (case file_bytes os path of
        Inl e \<Rightarrow> Inl e
      | Inr all \<Rightarrow>
          let bytes = take (max_bytes + 1) all
          in if length bytes > max_bytes
             then Inl (''file exceeds the '' @ show_nat max_bytes @ '' byte tool read limit'')
             else if utf8_valid bytes then Inr bytes
             else Inl (utf8_error_at 0 bytes), [Read_Op path])"

text \<open>\<open>replacen(old, new, 1)\<close>.\<close>

fun replace_first :: "string \<Rightarrow> string \<Rightarrow> string \<Rightarrow> string" where
  "replace_first s old new =
     (if starts_with s old then new @ drop (length old) s
      else case s of [] \<Rightarrow> [] | c # cs \<Rightarrow> c # replace_first cs old new)"

declare replace_first.simps [simp del]

definition patch_file :: "tool_os \<Rightarrow> string \<Rightarrow> string \<Rightarrow> string \<Rightarrow> (string + string) \<times> tool_op list" where
  "patch_file os path old new = (case read_file_capped os path MAX_TOOL_FILE_READ_BYTES of
     (Inl e, ops) \<Rightarrow> (Inl e, ops)
   | (Inr content, ops) \<Rightarrow>
       if \<not> contains content old then (Inl (''pattern not found in '' @ from_utf8_lossy path), ops)
       else let updated = replace_first content old new
            in if length updated > MAX_TOOL_FILE_WRITE_BYTES
               then (Inl (''patched file exceeds the '' @ show_nat MAX_TOOL_FILE_WRITE_BYTES @ '' byte tool limit''), ops)
               else case atomic_write os path updated of
                 (Inl e, ops') \<Rightarrow> (Inl e, ops @ ops')
               | (Inr _, ops') \<Rightarrow> (Inr (''patched '' @ from_utf8_lossy path), ops @ ops'))"

section \<open>Dispatch\<close>

datatype 'a tool_run = Panics | Blocks | Gives 'a

fun json_get :: "string \<Rightarrow> json \<Rightarrow> json option" where
  "json_get key (JObject m) = map_of m key"
| "json_get key _ = None"

fun json_as_str :: "json \<Rightarrow> string option" where
  "json_as_str (JString s) = Some s"
| "json_as_str _ = None"

definition arg_str :: "string \<Rightarrow> json \<Rightarrow> string option" where
  "arg_str key ps = Option.bind (json_get key ps) json_as_str"

definition arg_or_empty :: "string \<Rightarrow> json \<Rightarrow> string" where
  "arg_or_empty key ps = (case arg_str key ps of Some s \<Rightarrow> s | None \<Rightarrow> [])"

fun show_sandbox_error :: "SandboxError \<Rightarrow> string" where
  "show_sandbox_error Empty = ''commande vide''"
| "show_sandbox_error (Forbidden s) = ''commande interdite: '' @ s"
| "show_sandbox_error (NotWhitelisted s) =
     ''commande non list'' @ [CHR 0xC3, CHR 0xA9] @ ''e en whitelist: '' @ s"
| "show_sandbox_error (SensitivePath s) = ''chemin sensible interdit: '' @ s"
| "show_sandbox_error (ShellEscape s) = ''binaire shell interdit (bash -c, sh -c, eval) ''
     @ [CHR 0xE2, CHR 0x80, CHR 0x94] @ '' passer par argv direct''"
| "show_sandbox_error (SandboxError.Io s) = ''io: '' @ s"

definition show_exit :: "int option \<Rightarrow> string" where
  "show_exit ec = (case ec of
     None \<Rightarrow> ''None''
   | Some n \<Rightarrow> ''Some('' @ (if n < 0 then ''-'' else []) @ show_nat (nat \<bar>n\<bar>) @ '')'')"

definition execute_shell :: "tool_os \<Rightarrow> string \<Rightarrow> (string + string) tool_run \<times> tool_op list" where
  "execute_shell os cmd =
     (case fst (execute (shell_os os) cmd (sandbox_new (default_policy (home_dir os)))) of
        Crashed \<Rightarrow> Panics
      | Waiting \<Rightarrow> Blocks
      | Finished (Inl blocked) \<Rightarrow> Gives (Inl (''blocked by sandbox: '' @ show_sandbox_error blocked))
      | Finished (Inr v) \<Rightarrow>
          if exit_code v = Some 0 then Gives (Inr (stdout v))
          else if trim (stderr v) = []
          then Gives (Inl (''command exited with status '' @ show_exit (exit_code v)))
          else Gives (Inl (stderr v)), [Shell_Op cmd])"

definition execute_tool :: "tool_os \<Rightarrow> string \<Rightarrow> string \<Rightarrow> (string + string) tool_run \<times> tool_op list" where
  "execute_tool os tname ps = execute_shell os (tname @ '' '' @ ps)"

abbreviation no_effect :: "'a \<Rightarrow> 'a tool_run \<times> tool_op list" where
  "no_effect r \<equiv> (Gives r, [])"

definition with_path :: "FsPolicyError + string \<Rightarrow> (string \<Rightarrow> (string + string) \<times> tool_op list)
    \<Rightarrow> (string + string) tool_run \<times> tool_op list" where
  "with_path r f = (case r of
     Inl e \<Rightarrow> no_effect (Inl (show_fs_error e))
   | Inr path \<Rightarrow> (case f path of (res, ops) \<Rightarrow> (Gives res, ops)))"

definition dispatch_tool_in :: "tool_os \<Rightarrow> string \<Rightarrow> json \<Rightarrow> string
    \<Rightarrow> (string + string) tool_run \<times> tool_op list" where
  "dispatch_tool_in os name ps wroot = (case from_name name of
     Inl e \<Rightarrow> no_effect (Inl (show_tool_error e))
   | Inr ExecuteShell \<Rightarrow> execute_shell os (arg_or_empty ''command'' ps)
   | Inr ReadFile \<Rightarrow>
       with_path (bind_res (fs_policy_new os wroot) (\<lambda>pol. resolve_read os pol (arg_or_empty ''path'' ps)))
         (\<lambda>path. read_file_capped os path MAX_TOOL_FILE_READ_BYTES)
   | Inr WriteFile \<Rightarrow>
       let content = arg_or_empty ''content'' ps
       in if length content > MAX_TOOL_FILE_WRITE_BYTES
          then no_effect (Inl (''file content exceeds the '' @ show_nat MAX_TOOL_FILE_WRITE_BYTES @ '' byte tool limit''))
          else with_path (bind_res (fs_policy_new os wroot) (\<lambda>pol. resolve_write os pol (arg_or_empty ''path'' ps)))
            (\<lambda>path. case atomic_write os path content of
               (Inl e, ops) \<Rightarrow> (Inl e, ops)
             | (Inr _, ops) \<Rightarrow> (Inr (''written '' @ show_nat (length content) @ '' bytes''), ops))
   | Inr PatchFile \<Rightarrow>
       with_path (bind_res (fs_policy_new os wroot) (\<lambda>pol. resolve_read os pol (arg_or_empty ''path'' ps)))
         (\<lambda>path. patch_file os path (arg_or_empty ''old_text'' ps) (arg_or_empty ''new_text'' ps))
   | Inr _ \<Rightarrow> no_effect (Inl (''tool '' @ str_debug name @ '' requires asynchronous dispatch'')))"

definition dispatch_tool :: "tool_os \<Rightarrow> string \<Rightarrow> json \<Rightarrow> (string + string) tool_run \<times> tool_op list" where
  "dispatch_tool os name ps = dispatch_tool_in os name ps (default_workspace_root os)"

text \<open>A panic of the blocking task is reported as a join error.\<close>

definition async_dispatch_tool :: "tool_os \<Rightarrow> string \<Rightarrow> json \<Rightarrow> (string + string) tool_run \<times> tool_op list" where
  "async_dispatch_tool os name ps = (case from_name name of
     Inl e \<Rightarrow> no_effect (Inl (show_tool_error e))
   | Inr BrowserRead \<Rightarrow> (case arg_str ''url'' ps of
       None \<Rightarrow> no_effect (Inl ''browser_read requires a url'')
     | Some url \<Rightarrow>
         let endpoint = (case arg_str ''cdp_endpoint'' ps of Some e \<Rightarrow> e | None \<Rightarrow> ''http://127.0.0.1:9222'')
         in (Gives (browse os endpoint url), [Browse_Op endpoint url]))
   | Inr McpCall \<Rightarrow> (case arg_str ''server_url'' ps of
       None \<Rightarrow> no_effect (Inl ''mcp_call requires server_url'')
     | Some server_url \<Rightarrow>
         if \<not> starts_with server_url ''ws://'' \<and> \<not> starts_with server_url ''wss://''
         then no_effect (Inl ''mcp_call server_url must use ws:// or wss://'')
         else (case arg_str ''tool'' ps of
             None \<Rightarrow> no_effect (Inl ''mcp_call requires tool'')
           | Some tool \<Rightarrow>
               let arguments = (case json_get ''arguments'' ps of Some a \<Rightarrow> a | None \<Rightarrow> JObject [])
               in (Gives (mcp_request os server_url tool arguments), [Mcp_Op server_url tool arguments])))
   | Inr _ \<Rightarrow> (case dispatch_tool os name ps of
       (Panics, ops) \<Rightarrow> (Gives (Inl (''tool dispatch join error: '' @ join_error os)), ops)
     | (r, ops) \<Rightarrow> (r, ops)))"

end
