(* ===== verification/Circuit.thy ===== *)
theory Circuit
  imports Prelude
begin

text \<open>
  The circuit breaker in front of the language model and of the organs
  (\<open>soullink-brain/soullink-circuit/src/lib.rs\<close>).

  An \<open>Instant\<close> is a number of nanoseconds since some origin and a \<open>Duration\<close> a number of
  nanoseconds; \<open>elapsed\<close> is the subtraction that stops at zero, as in the standard library. The
  counters keep their width. A call holds the breaker's lock twice, once to be admitted and once
  to report how it ended, and other calls may come in between; so \<open>call\<close> is the composition of
  two steps, \<open>call_admit\<close> and \<open>call_settle\<close>, and the theorems are about arbitrary interleavings
  of these steps.
\<close>

section \<open>State and configuration\<close>

datatype CircuitState = Closed | Open | HalfOpen

fun show_circuit_state :: "CircuitState \<Rightarrow> string" where
  "show_circuit_state Closed = ''closed''"
| "show_circuit_state Open = ''open''"
| "show_circuit_state HalfOpen = ''half-open''"

record CircuitBreakerConfig =
  failure_threshold :: u32
  recovery_timeout :: nat
  half_open_successes_needed :: u32
  call_timeout :: nat

definition from_secs :: "nat \<Rightarrow> nat" where
  "from_secs n = n * 1000000000"

definition default_config :: CircuitBreakerConfig where
  "default_config = \<lparr>failure_threshold = 5, recovery_timeout = from_secs 30,
     half_open_successes_needed = 2, call_timeout = from_secs 10\<rparr>"

definition with_service_name :: "string \<Rightarrow> CircuitBreakerConfig \<Rightarrow> CircuitBreakerConfig" where
  "with_service_name nm c = c"

definition organ_config :: "string \<Rightarrow> u16 \<Rightarrow> CircuitBreakerConfig" where
  "organ_config nm port = with_service_name (nm @ ''-'' @ show_nat (unat port))
     \<lparr>failure_threshold = 3, recovery_timeout = from_secs 15,
      half_open_successes_needed = 1, call_timeout = from_secs 5\<rparr>"

definition llm_provider :: "string \<Rightarrow> CircuitBreakerConfig" where
  "llm_provider nm = with_service_name nm
     \<lparr>failure_threshold = 5, recovery_timeout = from_secs 30,
      half_open_successes_needed = 2, call_timeout = from_secs 30\<rparr>"

definition with_threshold :: "u32 \<Rightarrow> CircuitBreakerConfig \<Rightarrow> CircuitBreakerConfig" where
  "with_threshold n c = c\<lparr>failure_threshold := n\<rparr>"

definition with_recovery_timeout :: "nat \<Rightarrow> CircuitBreakerConfig \<Rightarrow> CircuitBreakerConfig" where
  "with_recovery_timeout d c = c\<lparr>recovery_timeout := d\<rparr>"

datatype CircuitBreakerError =
    Open_Error string nat
  | Timeout_Error string nat
  | Call_Error string string

text \<open>\<open>fmt::Display\<close>; the debug form of a duration is an argument.\<close>

fun show_breaker_error :: "(nat \<Rightarrow> string) \<Rightarrow> CircuitBreakerError \<Rightarrow> string" where
  "show_breaker_error dbg (Open_Error service t) = ''Circuit open for '' @ service"
| "show_breaker_error dbg (Timeout_Error service d) = ''Timeout ('' @ dbg d @ '') calling '' @ service"
| "show_breaker_error dbg (Call_Error service src) = ''Call to '' @ service @ '' failed: '' @ src"

record BreakerState =
  stored :: CircuitState
  failures_in_row :: u32
  opened_at :: "nat option"
  half_open_successes :: u32
  total_calls :: u64
  total_failures :: u64
  total_rejections :: u64

definition breaker_new :: BreakerState where
  "breaker_new = \<lparr>stored = Closed, failures_in_row = 0, opened_at = None,
     half_open_successes = 0, total_calls = 0, total_failures = 0, total_rejections = 0\<rparr>"

record CircuitBreaker =
  service_name :: string
  breaker_config :: CircuitBreakerConfig
  breaker :: BreakerState

definition circuit_new :: "string \<Rightarrow> CircuitBreakerConfig \<Rightarrow> CircuitBreaker" where
  "circuit_new nm c = \<lparr>service_name = nm, breaker_config = c, breaker = breaker_new\<rparr>"

definition circuit_with_config :: "CircuitBreakerConfig \<Rightarrow> CircuitBreaker" where
  "circuit_with_config c = \<lparr>service_name = ''unknown'', breaker_config = c, breaker = breaker_new\<rparr>"

section \<open>Transitions\<close>

definition effective_state :: "CircuitBreakerConfig \<Rightarrow> nat \<Rightarrow> BreakerState \<Rightarrow> CircuitState" where
  "effective_state c now st = (case stored st of
     Open \<Rightarrow> (case opened_at st of
               Some t \<Rightarrow> if now - t \<ge> recovery_timeout c then HalfOpen else Open
             | None \<Rightarrow> Open)
   | s \<Rightarrow> s)"

definition on_success :: "CircuitBreakerConfig \<Rightarrow> nat \<Rightarrow> BreakerState \<Rightarrow> BreakerState" where
  "on_success c now st0 =
     (let st = st0\<lparr>failures_in_row := 0\<rparr>
      in if effective_state c now st = HalfOpen
         then let st1 = st\<lparr>half_open_successes := half_open_successes st + 1\<rparr>
              in if half_open_successes st1 \<ge> half_open_successes_needed c
                 then st1\<lparr>stored := Closed\<rparr> else st1
         else st)"

definition reopen :: "nat \<Rightarrow> BreakerState \<Rightarrow> BreakerState" where
  "reopen now st = st\<lparr>stored := Open, opened_at := Some now, half_open_successes := 0\<rparr>"

definition on_failure :: "CircuitBreakerConfig \<Rightarrow> nat \<Rightarrow> BreakerState \<Rightarrow> BreakerState" where
  "on_failure c now st0 =
     (let st = st0\<lparr>failures_in_row := failures_in_row st0 + 1,
                   total_failures := total_failures st0 + 1\<rparr>
      in case stored st of
           Closed \<Rightarrow> if failures_in_row st \<ge> failure_threshold c then reopen now st else st
         | HalfOpen \<Rightarrow> reopen now st
         | Open \<Rightarrow> st)"

text \<open>The first half of \<open>call\<close>: \<open>Inl\<close> is the rejection.\<close>

definition call_admit :: "nat \<Rightarrow> CircuitBreaker \<Rightarrow> (CircuitBreakerError + unit) \<times> CircuitBreaker" where
  "call_admit now b =
     (let st = breaker b
      in if effective_state (breaker_config b) now st = Open
         then (Inl (Open_Error (service_name b) (case opened_at st of Some t \<Rightarrow> t | None \<Rightarrow> now)),
               b\<lparr>breaker := st\<lparr>total_rejections := total_rejections st + 1\<rparr>\<rparr>)
         else (Inr (), b\<lparr>breaker := st\<lparr>total_calls := total_calls st + 1\<rparr>\<rparr>))"

text \<open>How the protected future ended: with a value, with an error, or not within \<open>call_timeout\<close>.\<close>

datatype 'a call_outcome = Value 'a | Failed string | Elapsed

fun outcome_ok :: "'a call_outcome \<Rightarrow> bool" where
  "outcome_ok (Value v) = True"
| "outcome_ok _ = False"

fun call_settle :: "nat \<Rightarrow> 'a call_outcome \<Rightarrow> CircuitBreaker
    \<Rightarrow> (CircuitBreakerError + 'a) \<times> CircuitBreaker" where
  "call_settle now (Value v) b =
     (Inr v, b\<lparr>breaker := on_success (breaker_config b) now (breaker b)\<rparr>)"
| "call_settle now (Failed e) b =
     (Inl (Call_Error (service_name b) e),
      b\<lparr>breaker := on_failure (breaker_config b) now (breaker b)\<rparr>)"
| "call_settle now Elapsed b =
     (Inl (Timeout_Error (service_name b) (call_timeout (breaker_config b))),
      b\<lparr>breaker := on_failure (breaker_config b) now (breaker b)\<rparr>)"

text \<open>\<open>call\<close> without interference: \<open>t0\<close> and \<open>t1\<close> are the times of the two lock acquisitions and
  \<open>f\<close> is what the protected call does. A rejected call never runs \<open>f\<close>.\<close>

definition breaker_call :: "nat \<Rightarrow> nat \<Rightarrow> (unit \<Rightarrow> 'a call_outcome) \<Rightarrow> CircuitBreaker
    \<Rightarrow> (CircuitBreakerError + 'a) \<times> CircuitBreaker" where
  "breaker_call t0 t1 f b = (case call_admit t0 b of
     (Inl e, b1) \<Rightarrow> (Inl e, b1)
   | (Inr (), b1) \<Rightarrow> call_settle t1 (f ()) b1)"

definition record_success :: "nat \<Rightarrow> CircuitBreaker \<Rightarrow> CircuitBreaker" where
  "record_success now b = b\<lparr>breaker := on_success (breaker_config b) now (breaker b)\<rparr>"

definition record_failure :: "nat \<Rightarrow> CircuitBreaker \<Rightarrow> CircuitBreaker" where
  "record_failure now b = b\<lparr>breaker := on_failure (breaker_config b) now (breaker b)\<rparr>"

definition circuit_state :: "nat \<Rightarrow> CircuitBreaker \<Rightarrow> CircuitState" where
  "circuit_state now b = effective_state (breaker_config b) now (breaker b)"

record CircuitStats =
  stat_service :: string
  stat_state :: CircuitState
  stat_consecutive_failures :: u32
  stat_total_calls :: u64
  stat_total_failures :: u64
  stat_total_rejections :: u64
  stat_failure_threshold :: u32
  stat_recovery_timeout :: nat

definition circuit_stats :: "nat \<Rightarrow> CircuitBreaker \<Rightarrow> CircuitStats" where
  "circuit_stats now b = \<lparr>stat_service = service_name b, stat_state = circuit_state now b,
     stat_consecutive_failures = failures_in_row (breaker b),
     stat_total_calls = total_calls (breaker b), stat_total_failures = total_failures (breaker b),
     stat_total_rejections = total_rejections (breaker b),
     stat_failure_threshold = failure_threshold (breaker_config b),
     stat_recovery_timeout = recovery_timeout (breaker_config b)\<rparr>"

section \<open>Registry\<close>

text \<open>The table maps a service name to its breaker; a breaker handed out by \<open>get\<close> shares the state
  behind the table's entry. The callback is stored and never called, so only its presence is kept.\<close>

record CircuitBreakerRegistry =
  table :: "(string \<times> CircuitBreaker) list"
  registry_default :: CircuitBreakerConfig
  has_callback :: bool

definition registry_new :: "CircuitBreakerConfig \<Rightarrow> CircuitBreakerRegistry" where
  "registry_new c = \<lparr>table = [], registry_default = c, has_callback = False\<rparr>"

definition with_state_change_callback :: "CircuitBreakerRegistry \<Rightarrow> CircuitBreakerRegistry" where
  "with_state_change_callback r = r\<lparr>has_callback := True\<rparr>"

definition registry_clone :: "CircuitBreakerRegistry \<Rightarrow> CircuitBreakerRegistry" where
  "registry_clone r = r\<lparr>has_callback := False\<rparr>"

definition registry_get :: "string \<Rightarrow> CircuitBreakerRegistry \<Rightarrow> CircuitBreaker \<times> CircuitBreakerRegistry" where
  "registry_get service r = (case map_of (table r) service of
     Some b \<Rightarrow> (b, r)
   | None \<Rightarrow> let b = circuit_new service (registry_default r)
             in (b, r\<lparr>table := table r @ [(service, b)]\<rparr>))"

definition registry_allow :: "string \<Rightarrow> CircuitBreakerRegistry \<Rightarrow> bool" where
  "registry_allow service r \<longleftrightarrow> map_of (table r) service = None"

definition registry_services :: "CircuitBreakerRegistry \<Rightarrow> string list" where
  "registry_services r = map fst (table r)"

section \<open>What the breaker does\<close>

text \<open>A step of a breaker: a call asks to be admitted, or the end of a call is reported (by \<open>call\<close>
  itself, or through \<open>record_success\<close> and \<open>record_failure\<close>).\<close>

datatype breaker_step = Admit nat | Settle nat bool

fun breaker_apply :: "breaker_step \<Rightarrow> CircuitBreaker \<Rightarrow> CircuitBreaker" where
  "breaker_apply (Admit now) b = snd (call_admit now b)"
| "breaker_apply (Settle now ok) b = (if ok then record_success now b else record_failure now b)"

fun step_time :: "breaker_step \<Rightarrow> nat" where
  "step_time (Admit now) = now"
| "step_time (Settle now ok) = now"

lemma call_settle_snd: "snd (call_settle now oc b) = breaker_apply (Settle now (outcome_ok oc)) b"
  by (cases oc) (simp_all add: record_success_def record_failure_def)

text \<open>The machine of the code: it watches a run of failures, or it tripped at some time
  and has seen a number of successes since the recovery timeout. It leaves the documented machine,
  \<open>diagram_step\<close> below, when a probe fails.\<close>

datatype watch = Watching nat | Tripped nat nat

fun watch_rejects :: "CircuitBreakerConfig \<Rightarrow> nat \<Rightarrow> watch \<Rightarrow> bool" where
  "watch_rejects c now (Watching k) = False"
| "watch_rejects c now (Tripped t s) = (now - t < recovery_timeout c)"

fun watch_step :: "CircuitBreakerConfig \<Rightarrow> breaker_step \<Rightarrow> watch \<Rightarrow> watch" where
  "watch_step c (Admit now) w = w"
| "watch_step c (Settle now ok) (Watching k) =
     (if ok then Watching 0
      else if unat (failure_threshold c) \<le> Suc k then Tripped now 0 else Watching (Suc k))"
| "watch_step c (Settle now ok) (Tripped t s) =
     (if ok \<and> recovery_timeout c \<le> now - t
      then if unat (half_open_successes_needed c) \<le> Suc s then Watching 0 else Tripped t (Suc s)
      else Tripped t s)"

definition watch_of :: "BreakerState \<Rightarrow> watch" where
  "watch_of st = (case opened_at st of
     Some t \<Rightarrow> if stored st = Open then Tripped t (unat (half_open_successes st))
               else Watching (unat (failures_in_row st))
   | None \<Rightarrow> Watching (unat (failures_in_row st)))"

definition breaker_ok :: "CircuitBreaker \<Rightarrow> bool" where
  "breaker_ok b \<longleftrightarrow> (let st = breaker b; c = breaker_config b in case stored st of
     Closed \<Rightarrow> failures_in_row st = 0 \<or> failures_in_row st < failure_threshold c
   | Open \<Rightarrow> opened_at st \<noteq> None \<and> (half_open_successes st = 0 \<or> half_open_successes st < half_open_successes_needed c)
   | HalfOpen \<Rightarrow> False)"

lemmas breaker_defs = on_success_def on_failure_def reopen_def effective_state_def
  record_success_def record_failure_def call_admit_def

lemma unat_Suc_below:
  fixes x y :: u32
  assumes "x = 0 \<or> x < y"
  shows "unat (x + 1) = Suc (unat x)"
proof -
  have "Suc (unat x) < 2 ^ 32"
  proof (cases "x = 0")
    case False
    with assms have "unat x < unat y" by (simp add: word_less_nat_alt)
    moreover have "unat y < 2 ^ 32" using unsigned_less [of y, where ?'a = nat] by simp
    ultimately show ?thesis by simp
  qed simp
  then show ?thesis by (simp add: unat_word_ariths)
qed

lemma breaker_apply_config [simp]: "breaker_config (breaker_apply e b) = breaker_config b"
  by (cases e) (auto simp: breaker_defs Let_def)

lemma breaker_ok_new: "breaker_ok (circuit_new nm c)"
  by (simp add: breaker_ok_def circuit_new_def breaker_new_def)

lemma breaker_step_refines:
  assumes "breaker_ok b"
  shows "breaker_ok (breaker_apply e b)"
    and "watch_of (breaker (breaker_apply e b)) = watch_step (breaker_config b) e (watch_of (breaker b))"
  using assms
  by (cases e; cases "stored (breaker b)"; cases "opened_at (breaker b)";
      auto simp: breaker_ok_def breaker_defs watch_of_def Let_def unat_Suc_below
        word_le_nat_alt word_less_nat_alt not_le not_less)+

lemma breaker_run_refines:
  assumes "breaker_ok b"
  shows "breaker_ok (fold breaker_apply es b)
    \<and> breaker_config (fold breaker_apply es b) = breaker_config b
    \<and> watch_of (breaker (fold breaker_apply es b))
        = fold (watch_step (breaker_config b)) es (watch_of (breaker b))"
  using assms by (induction es arbitrary: b) (simp_all add: breaker_step_refines)

lemma admit_rejects_iff:
  assumes "breaker_ok b"
  shows "(\<exists>e. fst (call_admit now b) = Inl e)
    \<longleftrightarrow> watch_rejects (breaker_config b) now (watch_of (breaker b))"
  using assms
  by (cases "stored (breaker b)"; cases "opened_at (breaker b)")
     (auto simp: breaker_ok_def breaker_defs watch_of_def Let_def)

fun trip_time :: "watch \<Rightarrow> nat" where
  "trip_time (Tripped t s) = t"
| "trip_time (Watching k) = 0"

lemma call_admit_eq:
  assumes "breaker_ok b"
  shows "fst (call_admit now b) =
     (if watch_rejects (breaker_config b) now (watch_of (breaker b))
      then Inl (Open_Error (service_name b) (trip_time (watch_of (breaker b)))) else Inr ())"
  using assms
  by (cases "stored (breaker b)"; cases "opened_at (breaker b)")
     (auto simp: breaker_ok_def breaker_defs watch_of_def Let_def)

lemma breaker_apply_name [simp]: "service_name (breaker_apply e b) = service_name b"
  by (cases e) (auto simp: breaker_defs Let_def)

lemma breaker_run_name: "service_name (fold breaker_apply es b) = service_name b"
  by (induction es arbitrary: b) simp_all

lemma circuit_new_sel [simp]:
  "breaker_config (circuit_new nm c) = c" "service_name (circuit_new nm c) = nm"
  "watch_of (breaker (circuit_new nm c)) = Watching 0"
  by (simp_all add: circuit_new_def breaker_new_def watch_of_def)

text \<open>The machine of the module's diagram: closed, it counts the run of failures and opens at the one
  that completes the threshold; open, it ignores what is reported for the recovery timeout; half-open, it
  closes after the configured number of successes, and a failed probe opens it again.\<close>

fun diagram_step :: "CircuitBreakerConfig \<Rightarrow> breaker_step \<Rightarrow> watch \<Rightarrow> watch" where
  "diagram_step c (Admit now) w = w"
| "diagram_step c (Settle now ok) (Watching k) =
     (if ok then Watching 0
      else if unat (failure_threshold c) \<le> Suc k then Tripped now 0 else Watching (Suc k))"
| "diagram_step c (Settle now ok) (Tripped t s) =
     (if now - t < recovery_timeout c then Tripped t s
      else if \<not> ok then Tripped now 0
      else if unat (half_open_successes_needed c) \<le> Suc s then Watching 0 else Tripped t (Suc s))"

text \<open>No failure is reported while the circuit is half-open.\<close>

fun probe_fails :: "CircuitBreakerConfig \<Rightarrow> breaker_step \<Rightarrow> watch \<Rightarrow> bool" where
  "probe_fails c (Settle now ok) (Tripped t s) = (\<not> ok \<and> recovery_timeout c \<le> now - t)"
| "probe_fails c _ _ = False"

fun probes_succeed :: "CircuitBreakerConfig \<Rightarrow> breaker_step list \<Rightarrow> watch \<Rightarrow> bool" where
  "probes_succeed c [] w = True"
| "probes_succeed c (e # es) w = (\<not> probe_fails c e w \<and> probes_succeed c es (diagram_step c e w))"

lemma diagram_watch: "\<not> probe_fails c e w \<Longrightarrow> diagram_step c e w = watch_step c e w"
  by (cases "(c, e, w)" rule: diagram_step.cases) auto

lemma diagram_watch_run:
  "probes_succeed c es w \<Longrightarrow> fold (diagram_step c) es w = fold (watch_step c) es w"
proof (induction es arbitrary: w)
  case (Cons e es)
  then show ?case using Cons.IH [of "diagram_step c e w"] diagram_watch [of c e w] by simp
qed simp

text \<open>C21: The breaker follows the diagram of its module as long as no probe fails. From a new breaker, let
  any number of calls be admitted and end, interleaved in any order and at any times, such that no failure
  is reported between the end of the recovery timeout and the closing of the circuit. Then the state
  is the one the diagram gives: it opens at the failure that completes the threshold, counting from the
  last success, and closes after the configured number of successes since the recovery timeout; a call is
  rejected, with the time of the trip and without being run, exactly while less than the recovery timeout
  has passed since the trip, and otherwise its answer is the one of the protected call. (Runs in which a
  probe fails leave the diagram and are excluded. The failure counter of an open circuit may wrap around;
  nothing reads it there.)\<close>

theorem breaker_follows_diagram:
  fixes f :: "unit \<Rightarrow> 'a call_outcome"
  assumes "probes_succeed c es (Watching 0)"
  shows "let b = fold breaker_apply es (circuit_new nm c);
             w = fold (diagram_step c) es (Watching 0)
         in watch_of (breaker b) = w
            \<and> (case w of
                 Watching k \<Rightarrow> circuit_state t0 b = Closed
                   \<and> breaker_call t0 t1 f b = call_settle t1 (f ()) (breaker_apply (Admit t0) b)
               | Tripped t s \<Rightarrow>
                   if t0 - t < recovery_timeout c
                   then circuit_state t0 b = Open
                     \<and> breaker_call t0 t1 f b = (Inl (Open_Error nm t), breaker_apply (Admit t0) b)
                   else circuit_state t0 b = HalfOpen
                     \<and> breaker_call t0 t1 f b = call_settle t1 (f ()) (breaker_apply (Admit t0) b))"
proof -
  define b where "b = fold breaker_apply es (circuit_new nm c)"
  have run: "breaker_ok b" "breaker_config b = c" "service_name b = nm"
    "watch_of (breaker b) = fold (diagram_step c) es (Watching 0)"
    using breaker_run_refines [OF breaker_ok_new] breaker_run_name [of es "circuit_new nm c"]
      diagram_watch_run [OF assms] by (simp_all add: b_def)
  have "breaker_call t0 t1 f b =
      (if watch_rejects c t0 (watch_of (breaker b))
       then (Inl (Open_Error nm (trip_time (watch_of (breaker b)))), breaker_apply (Admit t0) b)
       else call_settle t1 (f ()) (breaker_apply (Admit t0) b))"
    using call_admit_eq [OF run(1), of t0] run(2,3)
    by (cases "call_admit t0 b") (simp add: breaker_call_def split: unit.split)
  moreover have "case watch_of (breaker b) of
        Watching k \<Rightarrow> circuit_state t0 b = Closed
      | Tripped t s \<Rightarrow> circuit_state t0 b = (if t0 - t < recovery_timeout c then Open else HalfOpen)"
    using run(1,2) by (cases "stored (breaker b)"; cases "opened_at (breaker b)")
      (auto simp: breaker_ok_def watch_of_def circuit_state_def effective_state_def Let_def)
  ultimately show ?thesis
    unfolding Let_def b_def [symmetric] run(4) by (auto split: watch.splits)
qed

lemma watch_of_TrippedD:
  "watch_of st = Tripped t s \<Longrightarrow> stored st = Open \<and> opened_at st = Some t"
  by (auto simp: watch_of_def split: option.splits if_splits)

text \<open>A step that brings no success.\<close>

fun failing_step :: "breaker_step \<Rightarrow> bool" where
  "failing_step (Admit now) = True"
| "failing_step (Settle now ok) = (\<not> ok)"

lemma tripped_stays: "failing_step e \<Longrightarrow> watch_step c e (Tripped t s) = Tripped t s"
  by (cases e) auto

lemma tripped_stays_run:
  "list_all failing_step es \<Longrightarrow> fold (watch_step c) es (Tripped t s) = Tripped t s"
  by (induction es) (simp_all add: tripped_stays)

text \<open>A failed probe does not open the circuit again. Once a breaker has tripped and its recovery
  timeout has passed, no number of failing calls makes it reject: whatever failures and timeouts are
  reported after the trip, in any order, every call that comes after the recovery timeout is admitted
  and the circuit shows as half-open for ever.\<close>

theorem failed_probe_keeps_admitting:
  assumes "stored (breaker (fold breaker_apply es (circuit_new nm c))) = Open"
    and "opened_at (breaker (fold breaker_apply es (circuit_new nm c))) = Some t"
    and "list_all failing_step fs"
    and "t + recovery_timeout c \<le> now"
  shows "let b = fold breaker_apply fs (fold breaker_apply es (circuit_new nm c))
         in fst (call_admit now b) = Inr () \<and> circuit_state now b = HalfOpen"
proof -
  define b where "b = fold breaker_apply es (circuit_new nm c)"
  obtain s where w: "watch_of (breaker b) = Tripped t s"
    using assms(1,2) by (auto simp: watch_of_def b_def)
  have b: "breaker_ok b" "breaker_config b = c"
    using breaker_run_refines [OF breaker_ok_new] by (simp_all add: b_def)
  define b' where "b' = fold breaker_apply fs b"
  have b': "breaker_ok b'" "breaker_config b' = c" "watch_of (breaker b') = Tripped t s"
    using breaker_run_refines [OF b(1), of fs] tripped_stays_run [OF assms(3)] b(2) w
    by (simp_all add: b'_def)
  note st = watch_of_TrippedD [OF b'(3)]
  have "fst (call_admit now b') = Inr ()"
    using call_admit_eq [OF b'(1), of now] b'(2,3) assms(4) by simp
  moreover have "circuit_state now b' = HalfOpen"
    using st assms(4) b'(2) by (simp add: circuit_state_def effective_state_def)
  ultimately show ?thesis by (simp add: b'_def b_def)
qed

definition five_failures :: "breaker_step list" where
  "five_failures = [Settle 0 False, Settle 0 False, Settle 0 False, Settle 0 False, Settle 0 False]"

definition failed_probes :: "breaker_step list" where
  "failed_probes = concat (map (\<lambda>i. [Admit (from_secs (30 + i)), Settle (from_secs (30 + i)) False]) [0..<4])"

lemma five_failures_trip:
  "watch_of (breaker (fold breaker_apply five_failures (circuit_new ''llm'' (llm_provider ''SoulSystem''))))
     = Tripped 0 0"
proof -
  have "fold (watch_step (llm_provider ''SoulSystem'')) five_failures (Watching 0) = Tripped 0 0"
    by (simp add: five_failures_def llm_provider_def with_service_name_def)
  then show ?thesis using breaker_run_refines [OF breaker_ok_new] by simp
qed

text \<open>Five failures, a call during the recovery timeout, two successful probes.\<close>

definition recovered_run :: "breaker_step list" where
  "recovered_run = five_failures @ [Admit (from_secs 1), Settle (from_secs 1) False,
     Settle (from_secs 31) True, Settle (from_secs 32) True]"

theorem breaker_follows_diagram_witness:
  "watch_of (breaker (fold breaker_apply five_failures (circuit_new ''llm'' (llm_provider ''SoulSystem'')))) = Tripped 0 0
   \<and> watch_of (breaker (fold breaker_apply recovered_run (circuit_new ''llm'' (llm_provider ''SoulSystem'')))) = Watching 0"
proof -
  let ?c = "llm_provider ''SoulSystem''"
  have trip: "probes_succeed ?c five_failures (Watching 0)"
      "fold (diagram_step ?c) five_failures (Watching 0) = Tripped 0 0"
    by (simp_all add: five_failures_def llm_provider_def with_service_name_def)
  have recover: "probes_succeed ?c recovered_run (Watching 0)"
      "fold (diagram_step ?c) recovered_run (Watching 0) = Watching 0"
    by (simp_all add: recovered_run_def five_failures_def llm_provider_def with_service_name_def from_secs_def)
  show ?thesis
    using breaker_follows_diagram [OF trip(1), unfolded Let_def, THEN conjunct1, of "''llm''"]
      breaker_follows_diagram [OF recover(1), unfolded Let_def, THEN conjunct1, of "''llm''"]
    by (simp only: trip(2) recover(2) simp_thms)
qed

theorem failed_probe_keeps_admitting_witness:
  "let b = fold breaker_apply failed_probes
             (fold breaker_apply five_failures (circuit_new ''llm'' (llm_provider ''SoulSystem'')))
   in fst (call_admit (from_secs 34) b) = Inr () \<and> circuit_state (from_secs 34) b = HalfOpen"
proof (rule failed_probe_keeps_admitting [where t = 0])
  show "stored (breaker (fold breaker_apply five_failures
      (circuit_new ''llm'' (llm_provider ''SoulSystem'')))) = Open"
    and "opened_at (breaker (fold breaker_apply five_failures
      (circuit_new ''llm'' (llm_provider ''SoulSystem'')))) = Some 0"
    using watch_of_TrippedD [OF five_failures_trip] by simp_all
  show "list_all failing_step failed_probes"
    by (simp add: failed_probes_def list_all_iff)
  show "0 + recovery_timeout (llm_provider ''SoulSystem'') \<le> from_secs 34"
    by (simp add: llm_provider_def with_service_name_def from_secs_def)
qed

text \<open>The registry's \<open>allow\<close> answers whether the service is unknown: it is false from the first
  \<open>get\<close> on, whatever the state of the breaker.\<close>

lemma registry_get_denies: "\<not> registry_allow service (snd (registry_get service r))"
  by (auto simp: registry_allow_def registry_get_def Let_def map_add_def split: option.splits)

lemma registry_get_stable:
  "registry_get service (snd (registry_get service r)) = registry_get service r"
  by (auto simp: registry_get_def Let_def map_add_def split: option.splits)

lemma registry_get_other:
  "service' \<noteq> service \<Longrightarrow>
   map_of (table (snd (registry_get service r))) service' = map_of (table r) service'"
  by (auto simp: registry_get_def Let_def map_add_def split: option.splits)

end
