(* ===== verification/Llm.thy ===== *)
theory Llm
  imports Utf8 "HOL-Library.AList"
begin

text \<open>
  The provider layer of the language-model client (\<open>soul_llm\<close>): its errors and their classification
  (\<open>error.rs\<close>), the retry policy (\<open>retry.rs\<close>) and the retry loop (\<open>client.rs\<close>), and the token budget
  (\<open>budget.rs\<close>).

  Durations are nanoseconds. The backoff curve is computed in floating point and the jitter is drawn at
  random: both are arguments, the curve as the scaled delay of an exponent (\<open>None\<close> when it is not a
  positive finite number), the jitter as the random part of a span. What the provider answers to the
  i-th request of a loop and whether the shared retry allowance grants the i-th retry are arguments too.
\<close>

section \<open>Errors\<close>

datatype LlmError =
    Network string
  | Auth string
  | RateLimited "u64 option"
  | BudgetExceeded string nat nat
  | UnknownProvider string
  | Provider string
  | Serialization string
  | Unsupported string
  | Timeout string
  | ServiceUnavailable u16 "u64 option"
  | RetriesExhausted u32 LlmError
  | ProviderBudgetExhausted string LlmError

definition show_retry_after :: "u64 option \<Rightarrow> string" where
  "show_retry_after r = (case r of Some s \<Rightarrow> '' (retry after '' @ show_nat (unat s) @ ''s)'' | None \<Rightarrow> [])"

fun show_llm_error :: "LlmError \<Rightarrow> string" where
  "show_llm_error (Network e) = ''network error: '' @ e"
| "show_llm_error (Auth e) = ''auth error: '' @ e"
| "show_llm_error (RateLimited r) = ''rate limited'' @ show_retry_after r"
| "show_llm_error (BudgetExceeded goal used budget) =
     ''budget exceeded for goal '' @ goal @ '': '' @ show_nat used @ '' > '' @ show_nat budget"
| "show_llm_error (UnknownProvider p) = ''unknown provider: '' @ p"
| "show_llm_error (Provider e) = ''provider error: '' @ e"
| "show_llm_error (Serialization e) = ''serialization error: '' @ e"
| "show_llm_error (Unsupported e) = ''unsupported: '' @ e"
| "show_llm_error (Timeout e) = ''timeout: '' @ e"
| "show_llm_error (ServiceUnavailable st r) =
     ''service unavailable (HTTP '' @ show_nat (unat st) @ '')'' @ show_retry_after r"
| "show_llm_error (RetriesExhausted n e) =
     ''giving up after '' @ show_nat (unat n) @ '' attempts: '' @ show_llm_error e"
| "show_llm_error (ProviderBudgetExhausted p e) =
     ''shared retry budget for provider '' @ p @ '' is spent; not retried: '' @ show_llm_error e"

fun is_retryable :: "LlmError \<Rightarrow> bool" where
  "is_retryable (Network e) = True"
| "is_retryable (Timeout e) = True"
| "is_retryable (RateLimited r) = True"
| "is_retryable (ServiceUnavailable st r) = True"
| "is_retryable _ = False"

fun retry_after :: "LlmError \<Rightarrow> nat option" where
  "retry_after (RateLimited (Some s)) = Some (unat s * 1000000000)"
| "retry_after (ServiceUnavailable st (Some s)) = Some (unat s * 1000000000)"
| "retry_after _ = None"

text \<open>The bytes of the first \<open>n\<close> characters: a byte that continues a character does not count.\<close>

fun take_chars :: "nat \<Rightarrow> string \<Rightarrow> string" where
  "take_chars n [] = []"
| "take_chars n (c # s) =
     (if continuation (byte c) then c # take_chars n s
      else case n of 0 \<Rightarrow> [] | Suc m \<Rightarrow> c # take_chars m s)"

definition from_http_status :: "u16 \<Rightarrow> u64 option \<Rightarrow> string \<Rightarrow> LlmError" where
  "from_http_status status r body =
     (let detail = take_chars 512 body; shown = ''HTTP '' @ show_nat (unat status) @ '': '' @ detail
      in if status = 401 \<or> status = 403 then Auth shown
         else if status = 429 then RateLimited r
         else if 500 \<le> status \<and> status < 600 then ServiceUnavailable status r
         else Provider shown)"

section \<open>Retry policy\<close>

datatype StopReason = NotRetryable | AttemptsExhausted | ServerBackoffTooLong

datatype RetryDecision = After nat | Stop StopReason

record RetryPolicy =
  max_attempts :: u32
  initial_backoff :: nat
  max_backoff :: nat
  jitter :: bool

definition default_retry :: RetryPolicy where
  "default_retry = \<lparr>max_attempts = 3, initial_backoff = 500000000, max_backoff = 30000000000, jitter = True\<rparr>"

definition retry_disabled :: RetryPolicy where
  "retry_disabled = default_retry\<lparr>max_attempts := 1\<rparr>"

definition retry_is_enabled :: "RetryPolicy \<Rightarrow> bool" where
  "retry_is_enabled pol \<longleftrightarrow> max_attempts pol > 1"

text \<open>The parameter \<open>scaled\<close> stands for the floating-point product of the initial backoff and the power of
  the multiplier: \<open>None\<close> when it is not finite or not positive, else the duration it converts to. The
  policies modelled are those whose finite products fit a \<open>Duration\<close>: for a larger one
  \<open>Duration::from_secs_f64\<close> panics before the clamp to \<open>max_backoff\<close>, and there is no such duration.\<close>

definition base_backoff :: "(nat \<Rightarrow> nat option) \<Rightarrow> RetryPolicy \<Rightarrow> nat \<Rightarrow> nat" where
  "base_backoff scaled pol attempt = (case scaled (min (attempt - 1) 32) of
     None \<Rightarrow> min (initial_backoff pol) (max_backoff pol)
   | Some d \<Rightarrow> min d (max_backoff pol))"

definition apply_jitter :: "(nat \<Rightarrow> nat) \<Rightarrow> RetryPolicy \<Rightarrow> nat \<Rightarrow> nat" where
  "apply_jitter rand pol base =
     (if \<not> jitter pol then base
      else let half = base div 2; spread = base - half
           in if spread = 0 then base else half + rand spread)"

record retry_env =
  scaled_backoff :: "nat \<Rightarrow> nat option"
  random_part :: "nat \<Rightarrow> nat"
  allowance :: "nat \<Rightarrow> bool"
  provider_name :: string

definition retry_decide :: "retry_env \<Rightarrow> RetryPolicy \<Rightarrow> nat \<Rightarrow> LlmError \<Rightarrow> RetryDecision" where
  "retry_decide env pol attempt e =
     (if \<not> is_retryable e then Stop NotRetryable
      else if attempt \<ge> unat (max_attempts pol) then Stop AttemptsExhausted
      else case retry_after e of
        Some hint \<Rightarrow> if hint > max_backoff pol then Stop ServerBackoffTooLong
                     else After (apply_jitter (random_part env) pol hint)
      | None \<Rightarrow> After (apply_jitter (random_part env) pol (base_backoff (scaled_backoff env) pol attempt)))"

section \<open>Retry loop\<close>

text \<open>The loop of \<open>with_retry\<close> from the given attempt on; it returns the result, the number of requests
  sent to the provider and the waits between them.\<close>

function with_retry_from :: "retry_env \<Rightarrow> RetryPolicy \<Rightarrow> (nat \<Rightarrow> LlmError + 'a) \<Rightarrow> nat
    \<Rightarrow> (LlmError + 'a) \<times> nat \<times> nat list" where
  "with_retry_from env pol provider attempt = (case provider attempt of
     Inr v \<Rightarrow> (Inr v, 1, [])
   | Inl e \<Rightarrow> (case retry_decide env pol attempt e of
       After delay \<Rightarrow>
         (if \<not> allowance env attempt then (Inl (ProviderBudgetExhausted (provider_name env) e), 1, [])
          else case with_retry_from env pol provider (attempt + 1) of
            (r, sent, waits) \<Rightarrow> (r, sent + 1, delay # waits))
     | Stop AttemptsExhausted \<Rightarrow>
         (if attempt = 1 then (Inl e, 1, [])
          else (Inl (RetriesExhausted (of_nat attempt) e), 1, []))
     | Stop _ \<Rightarrow> (Inl e, 1, [])))"
  by pat_completeness auto
termination
  by (relation "measure (\<lambda>(env, pol, provider, attempt). unat (max_attempts pol) - attempt)")
     (auto simp: retry_decide_def split: if_splits)

declare with_retry_from.simps [simp del]

definition with_retry :: "retry_env \<Rightarrow> RetryPolicy \<Rightarrow> (nat \<Rightarrow> LlmError + 'a) \<Rightarrow> (LlmError + 'a) \<times> nat \<times> nat list" where
  "with_retry env pol provider = with_retry_from env pol provider 1"

section \<open>Token budget\<close>

record TokenUsage =
  prompt_tokens :: nat
  completion_tokens :: nat
  total_tokens :: nat

record LlmBudget =
  goal_token_budget :: nat
  tokens_per_minute_budget :: nat
  goal_usage :: "(string \<times> TokenUsage) list"
  minute_usage :: "(string \<times> TokenUsage) list"
  minute_reset :: nat

definition CHARS_PER_TOKEN :: nat where "CHARS_PER_TOKEN = 4"

definition budget_new :: "nat \<Rightarrow> nat \<Rightarrow> nat \<Rightarrow> LlmBudget" where
  "budget_new goal_budget minute_budget now = \<lparr>goal_token_budget = goal_budget,
     tokens_per_minute_budget = minute_budget, goal_usage = [], minute_usage = [], minute_reset = now\<rparr>"

definition estimate_tokens :: "string \<Rightarrow> nat \<Rightarrow> nat" where
  "estimate_tokens prompt max_tokens = length prompt div CHARS_PER_TOKEN + max_tokens"

definition add_usage :: "TokenUsage \<Rightarrow> TokenUsage \<Rightarrow> TokenUsage" where
  "add_usage u more_u = u\<lparr>prompt_tokens := prompt_tokens u + prompt_tokens more_u,
     completion_tokens := completion_tokens u + completion_tokens more_u,
     total_tokens := total_tokens u + total_tokens more_u\<rparr>"

text \<open>Times are nanoseconds; \<open>minute\<close> is the key of the current minute.\<close>

definition maybe_reset_minute :: "nat \<Rightarrow> LlmBudget \<Rightarrow> LlmBudget" where
  "maybe_reset_minute now b =
     (if (now - minute_reset b) div 60000000000 \<ge> 1 then b\<lparr>minute_usage := [], minute_reset := now\<rparr> else b)"

definition over_budget :: "nat \<Rightarrow> nat \<Rightarrow> (string \<times> TokenUsage) list \<Rightarrow> string \<Rightarrow> nat option" where
  "over_budget limit estimated usage key = (case map_of usage key of
     Some u \<Rightarrow> if total_tokens u + estimated > limit then Some (total_tokens u + estimated) else None
   | None \<Rightarrow> None)"

definition check_budget :: "nat \<Rightarrow> string \<Rightarrow> string \<Rightarrow> nat \<Rightarrow> LlmBudget \<Rightarrow> (string + unit) \<times> LlmBudget" where
  "check_budget now minute goal estimated b =
     (case (if goal_token_budget b > 0
            then over_budget (goal_token_budget b) estimated (goal_usage b) goal else None) of
        Some n \<Rightarrow> (Inl (''Goal '' @ goal @ '' exceeded token budget: '' @ show_nat n @ '' > ''
                         @ show_nat (goal_token_budget b)), b)
      | None \<Rightarrow>
          if tokens_per_minute_budget b > 0
          then let b' = maybe_reset_minute now b
               in case over_budget (tokens_per_minute_budget b') estimated (minute_usage b') minute of
                    Some n \<Rightarrow> (Inl (''Minute token budget exceeded: '' @ show_nat n @ '' > ''
                                 @ show_nat (tokens_per_minute_budget b')), b')
                  | None \<Rightarrow> (Inr (), b')
          else (Inr (), b))"

definition usage_entry :: "string \<Rightarrow> TokenUsage \<Rightarrow> (string \<times> TokenUsage) list \<Rightarrow> (string \<times> TokenUsage) list" where
  "usage_entry key u m = AList.update key (case map_of m key of Some old \<Rightarrow> add_usage old u | None \<Rightarrow> u) m"

definition record_usage :: "string \<Rightarrow> string \<Rightarrow> TokenUsage \<Rightarrow> LlmBudget \<Rightarrow> LlmBudget" where
  "record_usage minute goal u b =
     (let b1 = b\<lparr>goal_usage := usage_entry goal u (goal_usage b)\<rparr>
      in if tokens_per_minute_budget b1 > 0
         then b1\<lparr>minute_usage := usage_entry minute u (minute_usage b1)\<rparr> else b1)"

definition get_goal_usage :: "string \<Rightarrow> LlmBudget \<Rightarrow> TokenUsage option" where
  "get_goal_usage goal b = map_of (goal_usage b) goal"

definition reset_goal :: "string \<Rightarrow> LlmBudget \<Rightarrow> LlmBudget" where
  "reset_goal goal b = b\<lparr>goal_usage := AList.delete goal (goal_usage b)\<rparr>"

section \<open>What the retry loop guarantees\<close>

text \<open>How a loop can end at its last request: with the provider's value; with an error that is not worth a
  retry, or asks for a longer wait than allowed, or is the first of a policy without retries; with the
  error of the last attempt wrapped as exhausted; or refused by the shared allowance.\<close>

definition retry_end :: "retry_env \<Rightarrow> RetryPolicy \<Rightarrow> (nat \<Rightarrow> LlmError + 'a) \<Rightarrow> nat \<Rightarrow> LlmError + 'a \<Rightarrow> bool" where
  "retry_end env pol provider n r \<longleftrightarrow> (case provider n of
     Inr v \<Rightarrow> r = Inr v
   | Inl e \<Rightarrow>
       (if \<not> is_retryable e then r = Inl e
        else if n \<ge> unat (max_attempts pol)
        then r = (if n = 1 then Inl e else Inl (RetriesExhausted (of_nat n) e))
        else if (\<exists>h. retry_after e = Some h \<and> h > max_backoff pol) then r = Inl e
        else \<not> allowance env n \<and> r = Inl (ProviderBudgetExhausted (provider_name env) e)))"

lemma jitter_le:
  assumes "\<And>s. rand s \<le> s"
  shows "apply_jitter rand pol base \<le> base"
proof -
  have "base div 2 + rand (base - base div 2) \<le> base"
    using assms [of "base - base div 2"] by linarith
  then show ?thesis by (simp add: apply_jitter_def Let_def)
qed

lemma retry_wait_le:
  assumes "\<And>s. random_part env s \<le> s" "retry_decide env pol attempt e = After d"
  shows "d \<le> max_backoff pol" "is_retryable e" "attempt < unat (max_attempts pol)"
    "\<not> (\<exists>h. retry_after e = Some h \<and> h > max_backoff pol)"
proof -
  have "base_backoff (scaled_backoff env) pol attempt \<le> max_backoff pol"
    by (simp add: base_backoff_def split: option.split)
  then show "d \<le> max_backoff pol" "is_retryable e" "attempt < unat (max_attempts pol)"
    "\<not> (\<exists>h. retry_after e = Some h \<and> h > max_backoff pol)"
    using assms(2) le_trans [OF jitter_le [of "random_part env" pol, OF assms(1)]]
    by (auto simp: retry_decide_def split: if_splits option.splits)
qed

lemma retry_stop_end:
  assumes "provider a = Inl e" "retry_decide env pol a e = Stop st"
  shows "retry_end env pol provider a (if st = AttemptsExhausted \<and> a \<noteq> 1
    then Inl (RetriesExhausted (of_nat a) e) else Inl e)"
  using assms(2) by (auto simp: retry_end_def assms(1) retry_decide_def split: if_splits option.splits)

lemma with_retry_from_spec:
  assumes "\<And>s. random_part env s \<le> s" "with_retry_from env pol provider a = (r, sent, waits)"
  shows "1 \<le> sent \<and> a + sent \<le> Suc (max a (unat (max_attempts pol))) \<and> length waits + 1 = sent
    \<and> (\<forall>w \<in> set waits. w \<le> max_backoff pol)
    \<and> (\<forall>i. a \<le> i \<and> Suc i < a + sent \<longrightarrow> (\<exists>e. provider i = Inl e \<and> is_retryable e))
    \<and> retry_end env pol provider (a + sent - 1) r"
  using assms
proof (induction env pol provider a arbitrary: r sent waits rule: with_retry_from.induct)
  case (1 env pol provider a)
  note eq = 1(3) [unfolded with_retry_from.simps [of env pol provider a]]
  show ?case
  proof (cases "provider a")
    case (Inr v)
    show ?thesis using eq by (auto simp: retry_end_def Inr)
  next
    case (Inl e)
    show ?thesis
    proof (cases "retry_decide env pol a e")
      case (Stop st)
      then show ?thesis
        using eq retry_stop_end [of provider a, OF Inl Stop] by (cases st) (auto simp: Inl split: if_splits)
    next
      case (After d)
      note w = retry_wait_le [OF 1(2) After]
      show ?thesis
      proof (cases "allowance env a")
        case False
        then show ?thesis using eq w by (auto simp: retry_end_def Inl After)
      next
        case True
        obtain r' sent' waits' where rest: "with_retry_from env pol provider (a + 1) = (r', sent', waits')"
          by (metis prod_cases3)
        have res: "r = r'" "sent = Suc sent'" "waits = d # waits'"
          using eq Inl After True rest by auto
        have ih: "1 \<le> sent' \<and> a + 1 + sent' \<le> Suc (max (a + 1) (unat (max_attempts pol)))
            \<and> length waits' + 1 = sent' \<and> (\<forall>w \<in> set waits'. w \<le> max_backoff pol)
            \<and> (\<forall>i. a + 1 \<le> i \<and> Suc i < a + 1 + sent' \<longrightarrow> (\<exists>e. provider i = Inl e \<and> is_retryable e))
            \<and> retry_end env pol provider (a + 1 + sent' - 1) r'"
          using 1(1) [OF Inl After _ 1(2) rest] True by simp
        have "\<exists>e. provider i = Inl e \<and> is_retryable e" if "a \<le> i" "Suc i < a + sent" for i
          using that ih w Inl res by (cases "i = a") auto
        then show ?thesis using ih w res by (auto simp: max_def split: if_splits)
      qed
    qed
  qed
qed

lemma with_retry_from_sent: "a + fst (snd (with_retry_from env pol provider a)) \<le> Suc (max a (unat (max_attempts pol)))"
proof (induction env pol provider a rule: with_retry_from.induct)
  case (1 env pol provider a)
  show ?case
  proof (cases "provider a")
    case (Inl e)
    show ?thesis
    proof (cases "retry_decide env pol a e")
      case (After d)
      then have "a < unat (max_attempts pol)"
        by (auto simp: retry_decide_def split: if_splits)
      moreover have "allowance env a \<Longrightarrow> a + 1 + fst (snd (with_retry_from env pol provider (a + 1)))
          \<le> Suc (max (a + 1) (unat (max_attempts pol)))"
        using 1 [OF Inl After] by simp
      ultimately show ?thesis
        by (subst with_retry_from.simps) (auto simp: Inl After split: prod.split)
    next
      case (Stop st)
      then show ?thesis
        by (subst with_retry_from.simps) (cases st; simp add: Inl)
    qed
  qed (simp add: with_retry_from.simps [of env pol provider a])
qed

text \<open>C29: The retry loop ends, and how: every call sends at least one request and at most the policy's
  number of attempts (one when that is 0), waits between two requests at most \<open>max_backoff\<close>, retries
  only after a retryable error, and its result is decided by the answer to the last request: the value,
  the error itself when it is not retryable or the server asks for a longer wait than allowed, the error
  wrapped as \<open>RetriesExhausted\<close> when the attempts are used up, or as \<open>ProviderBudgetExhausted\<close> when the
  shared allowance refused another request. The random part of a delay lies within its span, and the policy's
  finite backoff products fit a duration (the conversion panics on others).\<close>

theorem with_retry_bounded:
  assumes "\<And>s. random_part env s \<le> s"
  shows "\<exists>r sent waits. with_retry env pol provider = (r, sent, waits)
    \<and> 1 \<le> sent \<and> sent \<le> max 1 (unat (max_attempts pol)) \<and> length waits + 1 = sent
    \<and> (\<forall>w \<in> set waits. w \<le> max_backoff pol)
    \<and> (\<forall>i. 1 \<le> i \<and> i < sent \<longrightarrow> (\<exists>e. provider i = Inl e \<and> is_retryable e))
    \<and> retry_end env pol provider sent r"
proof -
  obtain r sent waits where "with_retry env pol provider = (r, sent, waits)"
    by (metis prod_cases3)
  then show ?thesis
    using with_retry_from_spec [OF assms, of pol provider 1 r sent waits]
    by (auto simp: with_retry_def)
qed

definition flaky_env :: retry_env where
  "flaky_env = \<lparr>scaled_backoff = (\<lambda>e. Some (4 * 2 ^ e)), random_part = (\<lambda>s. s div 2),
     allowance = (\<lambda>i. True), provider_name = ''openai''\<rparr>"

definition small_policy :: RetryPolicy where
  "small_policy = \<lparr>max_attempts = 3, initial_backoff = 4, max_backoff = 6, jitter = True\<rparr>"

definition flaky_provider :: "nat \<Rightarrow> LlmError + string" where
  "flaky_provider i = (if i < 3 then Inl (ServiceUnavailable 503 None) else Inr ''ok'')"

theorem with_retry_bounded_witness:
  "(\<exists>r sent waits. with_retry flaky_env small_policy flaky_provider = (r, sent, waits)
    \<and> 1 \<le> sent \<and> sent \<le> 3 \<and> length waits + 1 = sent
    \<and> (\<forall>w \<in> set waits. w \<le> 6) \<and> retry_end flaky_env small_policy flaky_provider sent r)
    \<and> with_retry flaky_env small_policy flaky_provider = (Inr ''ok'', 3, [3, 4])"
proof -
  have "random_part flaky_env s \<le> s" for s
    by (simp add: flaky_env_def)
  from with_retry_bounded [of flaky_env small_policy flaky_provider, OF this]
  have "\<exists>r sent waits. with_retry flaky_env small_policy flaky_provider = (r, sent, waits)
    \<and> 1 \<le> sent \<and> sent \<le> 3 \<and> length waits + 1 = sent
    \<and> (\<forall>w \<in> set waits. w \<le> 6) \<and> retry_end flaky_env small_policy flaky_provider sent r"
    by (auto simp: small_policy_def)
  moreover have "with_retry flaky_env small_policy flaky_provider = (Inr ''ok'', 3, [3, 4])"
    by (simp add: with_retry_def with_retry_from.simps flaky_provider_def retry_decide_def
        small_policy_def flaky_env_def base_backoff_def apply_jitter_def Let_def)
  ultimately show ?thesis by blast
qed

section \<open>What the token budget enforces\<close>

lemma first_request_never_refused:
  assumes "map_of (goal_usage b) goal = None" "tokens_per_minute_budget b = 0"
  shows "check_budget now minute goal estimated b = (Inr (), b)"
  using assms by (simp add: check_budget_def over_budget_def)

lemma granted_within_goal_budget:
  assumes "check_budget now minute goal estimated b = (Inr (), b')" "goal_token_budget b > 0"
    "map_of (goal_usage b) goal = Some u"
  shows "total_tokens u + estimated \<le> goal_token_budget b"
  using assms by (auto simp: check_budget_def over_budget_def Let_def split: if_splits option.splits)

lemma get_goal_usage_record:
  "get_goal_usage goal (record_usage minute goal' u b) =
     (if goal = goal' then Some (case get_goal_usage goal b of Some old \<Rightarrow> add_usage old u | None \<Rightarrow> u)
      else get_goal_usage goal b)"
  by (simp add: get_goal_usage_def record_usage_def usage_entry_def update_conv' Let_def split: option.split)

end
