(* ===== verification/Planner.thy ===== *)
theory Planner
  imports Prelude Complex_Main
begin

text \<open>
  The heuristic control loop (\<open>soul_planner/src/lib.rs\<close>): goals, plans, the working memory and the action
  history as bounded rings, the evaluation of a plan and the next-action decision.

  Scores are single-precision numbers: the real operation followed by a rounding \<open>rnd\<close>, a parameter, as
  is \<open>pct\<close>, which prints a number without decimals. Identifiers and times are arguments.
\<close>

section \<open>Goals and plans\<close>

datatype GoalStatus = Goal_Active | Goal_InProgress | Goal_Completed | Goal_Failed

record Goal =
  goal_id :: string
  goal_description :: string
  goal_priority :: u8
  goal_created_at :: nat
  goal_status :: GoalStatus

record Step =
  step_command :: string
  step_description :: string
  step_order :: nat

record Plan =
  plan_id :: string
  plan_goal_id :: string
  plan_steps :: "Step list"

record Evaluation =
  eval_score :: real
  eval_feedback :: string

record Decision =
  decision_action :: string
  decision_reasoning :: string
  decision_confidence :: real

abbreviation e_acute :: string where "e_acute \<equiv> [CHR 0xC3, CHR 0xA9]"
abbreviation e_grave :: string where "e_grave \<equiv> [CHR 0xC3, CHR 0xA8]"
abbreviation em_dash :: string where "em_dash \<equiv> [CHR 0xE2, CHR 0x80, CHR 0x94]"

section \<open>Working memory\<close>

definition WORKING_MEMORY_CAPACITY :: nat where "WORKING_MEMORY_CAPACITY = 100"
definition ACTION_HISTORY_CAPACITY :: nat where "ACTION_HISTORY_CAPACITY = 200"

record WorkingMemory =
  observations :: "string list"
  key_info :: string
  wm_max_size :: nat

definition wm_new :: "nat \<Rightarrow> WorkingMemory" where
  "wm_new n = \<lparr>observations = [], key_info = [], wm_max_size = n\<rparr>"

definition observe :: "string \<Rightarrow> WorkingMemory \<Rightarrow> WorkingMemory" where
  "observe x m = (let obs = observations m @ [x]
     in m\<lparr>observations := (if length obs > wm_max_size m then tl obs else obs)\<rparr>)"

definition recent_observations :: "nat \<Rightarrow> WorkingMemory \<Rightarrow> string list" where
  "recent_observations n m = drop (length (observations m) - n) (observations m)"

definition set_key_info :: "string \<Rightarrow> WorkingMemory \<Rightarrow> WorkingMemory" where
  "set_key_info info m = m\<lparr>key_info := info\<rparr>"

definition to_prompt_section :: "WorkingMemory \<Rightarrow> string" where
  "to_prompt_section m =
     (if key_info m = [] \<and> observations m = [] then []
      else let recent = recent_observations 5 m
           in ''## Working Memory'' @ [CHR 0x0A]
              @ (if key_info m \<noteq> [] then ''Key info: '' @ key_info m @ [CHR 0x0A] else [])
              @ (if recent \<noteq> [] then ''Recent observations:'' @ [CHR 0x0A]
                   @ concat (map (\<lambda>ob. ''- '' @ ob @ [CHR 0x0A]) recent) else []))"

section \<open>Action history\<close>

record ActionRecord =
  ar_command :: string
  ar_result :: string
  ar_success :: bool
  ar_timestamp :: nat

record ActionHistory =
  records :: "ActionRecord list"
  ah_max_size :: nat

definition ah_new :: "nat \<Rightarrow> ActionHistory" where
  "ah_new n = \<lparr>records = [], ah_max_size = n\<rparr>"

definition ah_push :: "ActionRecord \<Rightarrow> ActionHistory \<Rightarrow> ActionHistory" where
  "ah_push r h = (let rs = records h @ [r]
     in h\<lparr>records := (if length rs > ah_max_size h then tl rs else rs)\<rparr>)"

definition ah_record :: "nat \<Rightarrow> string \<Rightarrow> string \<Rightarrow> bool \<Rightarrow> ActionHistory \<Rightarrow> ActionHistory" where
  "ah_record now cmd result success h =
     ah_push \<lparr>ar_command = cmd, ar_result = result, ar_success = success, ar_timestamp = now\<rparr> h"

definition success_rate :: "(real \<Rightarrow> real) \<Rightarrow> ActionHistory \<Rightarrow> real" where
  "success_rate rnd h =
     (if records h = [] then 0
      else rnd (real (length (filter ar_success (records h))) / real (length (records h))))"

definition recent_records :: "nat \<Rightarrow> ActionHistory \<Rightarrow> ActionRecord list" where
  "recent_records n h = drop (length (records h) - n) (records h)"

section \<open>Control loop\<close>

record CognitiveLoop =
  wmemory :: WorkingMemory
  ahistory :: ActionHistory

definition cognitive_new :: CognitiveLoop where
  "cognitive_new = \<lparr>wmemory = wm_new WORKING_MEMORY_CAPACITY, ahistory = ah_new ACTION_HISTORY_CAPACITY\<rparr>"

definition create_plan :: "string \<Rightarrow> Goal \<Rightarrow> string list \<Rightarrow> Plan" where
  "create_plan uuid goal step_commands = \<lparr>plan_id = uuid, plan_goal_id = goal_id goal,
     plan_steps = map (\<lambda>(i, cmd). \<lparr>step_command = cmd,
         step_description = [CHR 0xC3, CHR 0x89] @ ''tape '' @ show_nat (i + 1) @ '': '' @ goal_description goal,
         step_order = i\<rparr>) (enumerate 0 step_commands)\<rparr>"

definition outcome_signal :: "(real \<Rightarrow> real) \<Rightarrow> string \<Rightarrow> real \<times> string" where
  "outcome_signal rnd lower =
     (if contains lower ''success'' \<or> contains lower ''ok'' \<or> contains lower ''completed''
      then (rnd (9 / 10), ''succ'' @ e_grave @ ''s d'' @ e_acute @ ''tect'' @ e_acute)
      else if contains lower ''error'' \<or> contains lower ''fail'' \<or> contains lower ''panic''
      then (rnd (1 / 10), e_acute @ ''chec d'' @ e_acute @ ''tect'' @ e_acute)
      else if contains lower ''timeout'' then (rnd (2 / 10), ''timeout d'' @ e_acute @ ''tect'' @ e_acute)
      else if contains lower ''partial'' \<or> contains lower ''retry''
      then (rnd (5 / 10), ''r'' @ e_acute @ ''sultat partiel'')
      else (rnd (5 / 10), ''r'' @ e_acute @ ''sultat ambigu''))"

definition adjusted_score :: "(real \<Rightarrow> real) \<Rightarrow> ActionHistory \<Rightarrow> real \<Rightarrow> real" where
  "adjusted_score rnd h base_score =
     (let rate = success_rate rnd h
      in if records h = [] then base_score
         else if rate > rnd (8 / 10) \<and> base_score > rnd (5 / 10)
         then min (rnd (rnd (base_score * rnd (7 / 10)) + rnd (rate * rnd (3 / 10)))) 1
         else if rate < rnd (3 / 10) \<and> base_score > rnd (5 / 10)
         then min (rnd (rnd (base_score * rnd (8 / 10)) + rnd (rate * rnd (2 / 10)))) 1
         else base_score)"

definition evaluate_plan :: "(real \<Rightarrow> real) \<Rightarrow> (real \<Rightarrow> string) \<Rightarrow> CognitiveLoop \<Rightarrow> Plan \<Rightarrow> string \<Rightarrow> Evaluation" where
  "evaluate_plan rnd pct cl plan outcome =
     (let signal = outcome_signal rnd (to_lowercase outcome);
          n = length (plan_steps plan);
          penalty = (if n > 5 then rnd (rnd (5 / 100) * min (rnd (rnd (real n) - 5)) 3) else 0)
      in \<lparr>eval_score = max 0 (min 1 (rnd (adjusted_score rnd (ahistory cl) (fst signal) - penalty))),
          eval_feedback = snd signal @ '' | historique: '' @ pct (rnd (success_rate rnd (ahistory cl) * 100))
            @ ''%, '' @ e_acute @ ''tapes: '' @ show_nat n\<rparr>)"

definition decide_action :: "(real \<Rightarrow> real) \<Rightarrow> (real \<Rightarrow> string) \<Rightarrow> real \<Rightarrow> string \<Rightarrow> string \<times> string" where
  "decide_action rnd pct rate ctx =
     (let shown = ''('' @ pct (rnd (rate * 100)) @ ''%)''
      in if contains ctx ''error'' \<or> contains ctx ''fail'' then
           (if rate < rnd (3 / 10)
            then (''abort'', ''Taux d'' @ [CHR 0x27, CHR 0xC3, CHR 0xA9] @ ''chec '' @ e_acute @ ''lev'' @ e_acute
                    @ '' '' @ shown @ '' et contexte d'' @ [CHR 0x27] @ ''erreur '' @ em_dash @ '' arr''
                    @ [CHR 0xC3, CHR 0xAA] @ ''t recommand'' @ e_acute)
            else (''retry_with_adjustment'', ''Erreur d'' @ e_acute @ ''tect'' @ e_acute
                    @ ''e mais historique OK '' @ shown @ '' '' @ em_dash @ '' r'' @ e_acute
                    @ ''essayer avec ajustement''))
         else if contains ctx ''success'' \<or> contains ctx ''completed''
         then (''proceed'', ''Succ'' @ e_grave @ ''s confirm'' @ e_acute @ '', historique: ''
                 @ pct (rnd (rate * 100)) @ ''% '' @ em_dash @ '' continuer'')
         else if contains ctx ''budget_exceeded'' \<or> contains ctx ''token_limit''
         then (''pause_and_summarize'', ''Budget d'' @ e_acute @ ''pass'' @ e_acute @ '' '' @ em_dash
                 @ '' pauses pour r'' @ e_acute @ ''sumer l'' @ [CHR 0x27, CHR 0xC3, CHR 0xA9] @ ''tat d''
                 @ [CHR 0x27] @ ''avancement'')
         else if contains ctx ''timeout''
         then (''simplify_and_retry'', ''Timeout '' @ em_dash @ '' simplifier le plan et r'' @ e_acute @ ''essayer'')
         else if rate > rnd (8 / 10)
         then (''continue'', ''Historique fiable '' @ shown @ '' '' @ em_dash @ '' continuer le plan actuel'')
         else if rate < rnd (3 / 10)
         then (''replan'', ''Historique peu fiable '' @ shown @ '' '' @ em_dash @ '' repenser l''
                 @ [CHR 0x27] @ ''approche'')
         else (''continue'', ''Contexte neutre, historique: '' @ pct (rnd (rate * 100)) @ ''% '' @ em_dash
                 @ '' continuer prudemment''))"

definition planner_decide :: "(real \<Rightarrow> real) \<Rightarrow> (real \<Rightarrow> string) \<Rightarrow> CognitiveLoop \<Rightarrow> string \<Rightarrow> Decision" where
  "planner_decide rnd pct cl context =
     (let rate = success_rate rnd (ahistory cl);
          (action, reasoning) = decide_action rnd pct rate (to_lowercase context)
      in \<lparr>decision_action = action, decision_reasoning = reasoning,
          decision_confidence =
            (if rate > rnd (8 / 10) then rnd (85 / 100)
             else if rate > rnd (5 / 10) then rnd (65 / 100)
             else if rate > rnd (3 / 10) then rnd (45 / 100)
             else rnd (25 / 100))\<rparr>)"

section \<open>The rings are bounded and keep the newest\<close>

lemma push_drop_oldest:
  assumes "length xs \<le> n"
  shows "(if length (xs @ [x]) > n then tl (xs @ [x]) else xs @ [x]) = drop (Suc (length xs) - n) (xs @ [x])"
  using assms by (cases "length xs = n"; cases xs) auto

interpretation wm: bounded_history observe observations wm_max_size
  by unfold_locales (simp_all add: observe_def Let_def push_drop_oldest del: length_append)

interpretation ah: bounded_history ah_push records ah_max_size
  by unfold_locales (simp_all add: ah_push_def Let_def push_drop_oldest del: length_append)

lemma ah_record_max_size [simp]: "ah_max_size (ah_record now cmd res ok h) = ah_max_size h"
  by (simp add: ah_record_def ah.push_limit)

text \<open>The decision of an agent that has no history: an error context is read as a failure rate of
  nothing but failures.\<close>

lemma error_without_history_aborts:
  assumes "records (ahistory cl) = []" "contains (to_lowercase ctx) ''error''" "0 < rnd (3 / 10)"
  shows "decision_action (planner_decide rnd pct cl ctx) = ''abort''"
  using assms by (simp add: planner_decide_def decide_action_def success_rate_def Let_def)

end
