(* ===== verification/Compaction.thy ===== *)
theory Compaction
  imports Utf8
begin

text \<open>
  The conversation compactor (\<open>soul-compaction/src/lib.rs\<close>): four passes over the messages (reclaim tool
  results, shrink old turns, collapse long contents, evict the middle) and the statistics of a run.

  A message is its role, its contents and its token count; identifier, time stamp and metadata are
  carried along by the code and never read. A slice of a string at a byte that is inside a character
  panics. The subtraction of the reclaim statistics is on \<open>usize\<close>: \<open>checks\<close> says whether the program is
  built with overflow checks; without them it wraps.
\<close>

section \<open>Messages\<close>

datatype Role = Role_System | Role_User | Role_Assistant | Role_Tool

record Message =
  msg_role :: Role
  msg_content :: string
  token_count :: "nat option"

definition msg_new :: "Role \<Rightarrow> string \<Rightarrow> Message" where
  "msg_new r s = \<lparr>msg_role = r, msg_content = s, token_count = None\<rparr>"

definition with_tokens :: "nat \<Rightarrow> Message \<Rightarrow> Message" where
  "with_tokens n m = m\<lparr>token_count := Some n\<rparr>"

definition div_ceil :: "nat \<Rightarrow> nat \<Rightarrow> nat" where
  "div_ceil n d = (n + d - 1) div d"

definition estimated_tokens :: "Message \<Rightarrow> nat" where
  "estimated_tokens m = (case token_count m of Some n \<Rightarrow> n | None \<Rightarrow> div_ceil (length (msg_content m)) 4)"

abbreviation tokens :: "Message list \<Rightarrow> nat" where
  "tokens ms \<equiv> sum_list (map estimated_tokens ms)"

abbreviation is_tool :: "Message \<Rightarrow> bool" where
  "is_tool m \<equiv> msg_role m = Role_Tool"

text \<open>\<open>is_char_boundary\<close> and the slice of the first \<open>n\<close> bytes.\<close>

definition char_boundary :: "string \<Rightarrow> nat \<Rightarrow> bool" where
  "char_boundary s n \<longleftrightarrow> n = 0 \<or> n = length s \<or> n < length s \<and> \<not> continuation (byte (s ! n))"

definition slice_to :: "string \<Rightarrow> nat \<Rightarrow> string run" where
  "slice_to s n = (if char_boundary s n then Returned (take n s) else Panicked)"

text \<open>\<open>str::lines\<close>: at every line feed, with a carriage return before it dropped too; the text after the
  last line feed is a line when it is not empty.\<close>

definition strip_cr :: "string \<Rightarrow> string" where
  "strip_cr s = (if s \<noteq> [] \<and> last s = CHR 0x0D then butlast s else s)"

fun lines_from :: "string \<Rightarrow> string \<Rightarrow> string list" where
  "lines_from acc [] = (if acc = [] then [] else [rev acc])"
| "lines_from acc (c # s) =
     (if c = CHR 0x0A then strip_cr (rev acc) # lines_from [] s else lines_from (c # acc) s)"

abbreviation str_lines :: "string \<Rightarrow> string list" where
  "str_lines s \<equiv> lines_from [] s"

section \<open>The four passes\<close>

function pass_reclaim :: "Message list \<Rightarrow> Message list \<times> nat" where
  "pass_reclaim [] = ([], 0)"
| "pass_reclaim (m # ms) =
     (if is_tool m then
        (let group = m # takeWhile is_tool ms;
             (result, removed) = pass_reclaim (dropWhile is_tool ms)
         in if length group > 3
            then (m # msg_new Role_Tool (''['' @ show_nat (length group) @ '' tool results reclaimed, ~''
                        @ show_nat (tokens group) @ '' tokens freed]'')
                    # last group # result, removed + (length group - 2))
            else (group @ result, removed))
      else (let (result, removed) = pass_reclaim ms in (m # result, removed)))"
  by pat_completeness auto
termination
  by (relation "measure length") (auto simp: le_imp_less_Suc length_dropWhile_le)

definition shrink_one :: "Message \<Rightarrow> Message run" where
  "shrink_one m =
     bind_run (if length (msg_content m) > 200
               then bind_run (slice_to (msg_content m) 200)
                      (\<lambda>s. Returned (s @ ''... [compressed from '' @ show_nat (estimated_tokens m) @ '' tokens]''))
               else Returned (msg_content m))
       (\<lambda>truncated. Returned (m\<lparr>msg_content := truncated, token_count := Some 50\<rparr>))"

fun shrink_from :: "nat \<Rightarrow> Message list \<Rightarrow> (Message list \<times> nat) run" where
  "shrink_from old [] = Returned ([], 0)"
| "shrink_from old (m # ms) =
     (if old > 0 \<and> (msg_role m = Role_User \<or> msg_role m = Role_Assistant) \<and> estimated_tokens m > 200
      then bind_run (shrink_one m) (\<lambda>m'. bind_run (shrink_from (old - 1) ms)
             (\<lambda>(r, n). Returned (m' # r, n + 1)))
      else bind_run (shrink_from (old - 1) ms) (\<lambda>(r, n). Returned (m # r, n)))"

definition pass_shrink :: "Message list \<Rightarrow> (Message list \<times> nat) run" where
  "pass_shrink ms = shrink_from (length ms - 10) ms"

definition collapse_one :: "Message \<Rightarrow> Message" where
  "collapse_one m =
     (if length (msg_content m) > 1000 then
        let ls = str_lines (msg_content m)
        in m\<lparr>msg_content := (if ls = [] then [] else hd ls) @ [CHR 0x0A] @ ''[... '' @ show_nat (length ls)
              @ '' lines collapsed, '' @ show_nat (length (msg_content m)) @ '' chars total ...]'' @ [CHR 0x0A]
              @ (if ls = [] then [] else last ls)\<rparr>
      else m)"

definition pass_collapse :: "Message list \<Rightarrow> Message list" where
  "pass_collapse ms = map collapse_one ms"

definition system_count :: "Message list \<Rightarrow> nat" where
  "system_count ms = length (filter (\<lambda>m. msg_role m = Role_System) ms)"

definition pass_evict :: "nat \<Rightarrow> Message list \<Rightarrow> Message list \<times> nat" where
  "pass_evict max_tokens ms =
     (if tokens ms \<le> max_tokens then (ms, 0)
      else let evict_end = length ms - 8; evict_start = system_count ms
           in if evict_end > evict_start
              then (take evict_start ms
                      @ [msg_new Role_System (''['' @ show_nat (evict_end - evict_start)
                           @ '' messages evicted, ~'' @ show_nat (tokens (drop evict_start (take evict_end ms)))
                           @ '' tokens freed]'')]
                      @ drop evict_end ms, evict_end - evict_start)
              else (take evict_start ms @ drop evict_end ms, 0))"

section \<open>A run\<close>

datatype CompactionError = Nothing_To_Compact | Serde string

datatype CompactionStrategy = Reclaim | Shrink | Collapse | Evict

record CompactionStats =
  original_count :: nat
  final_count :: nat
  tokens_before :: nat
  tokens_after :: nat
  reclaimed_tokens :: u64
  removed_messages :: nat
  compressed_messages :: nat
  evicted_messages :: nat

record Compactor =
  comp_max_tokens :: nat
  comp_strategies :: "CompactionStrategy list"

definition compactor_new :: "nat \<Rightarrow> Compactor" where
  "compactor_new n = \<lparr>comp_max_tokens = n, comp_strategies = [Reclaim, Shrink, Collapse, Evict]\<rparr>"

definition with_strategies :: "CompactionStrategy list \<Rightarrow> Compactor \<Rightarrow> Compactor" where
  "with_strategies ss c = c\<lparr>comp_strategies := ss\<rparr>"

text \<open>\<open>a - b\<close> and \<open>a + b\<close> on \<open>usize\<close>.\<close>

definition usize_sub :: "bool \<Rightarrow> nat \<Rightarrow> nat \<Rightarrow> u64 run" where
  "usize_sub checks a b = (if checks \<and> a < b then Panicked else Returned (of_nat a - of_nat b))"

definition usize_add :: "bool \<Rightarrow> u64 \<Rightarrow> u64 \<Rightarrow> u64 run" where
  "usize_add checks a b = (if checks \<and> unat a + unat b \<ge> 2 ^ 64 then Panicked else Returned (a + b))"

definition run_pass :: "bool \<Rightarrow> Compactor \<Rightarrow> CompactionStrategy \<Rightarrow> Message list \<times> CompactionStats
    \<Rightarrow> (Message list \<times> CompactionStats) run" where
  "run_pass checks c st ws = (case ws of (working, stats) \<Rightarrow> (case st of
     Reclaim \<Rightarrow> (case pass_reclaim working of (result, reclaimed) \<Rightarrow>
       bind_run (usize_sub checks (tokens (filter is_tool working)) (tokens (filter is_tool result))) (\<lambda>d.
       bind_run (usize_add checks (reclaimed_tokens stats) d) (\<lambda>t.
         Returned (result, stats\<lparr>removed_messages := removed_messages stats + reclaimed, reclaimed_tokens := t\<rparr>))))
   | Shrink \<Rightarrow> bind_run (pass_shrink working) (\<lambda>(result, compressed).
       Returned (result, stats\<lparr>compressed_messages := compressed_messages stats + compressed\<rparr>))
   | Collapse \<Rightarrow> Returned (pass_collapse working, stats)
   | Evict \<Rightarrow> (case pass_evict (comp_max_tokens c) working of (result, evicted) \<Rightarrow>
       Returned (result, stats\<lparr>evicted_messages := evicted_messages stats + evicted\<rparr>))))"

definition compact_step :: "bool \<Rightarrow> Compactor \<Rightarrow> CompactionStrategy \<Rightarrow> Message list \<times> CompactionStats
    \<Rightarrow> (Message list \<times> CompactionStats) run" where
  "compact_step checks c st ws =
     bind_run (run_pass checks c st ws) (\<lambda>(result, stats).
     bind_run (usize_add checks (reclaimed_tokens stats) (of_nat (tokens (fst ws) - tokens result))) (\<lambda>t.
       Returned (result, stats\<lparr>reclaimed_tokens := t\<rparr>)))"

fun compact_passes :: "bool \<Rightarrow> Compactor \<Rightarrow> CompactionStrategy list \<Rightarrow> Message list \<times> CompactionStats
    \<Rightarrow> (Message list \<times> CompactionStats) run" where
  "compact_passes checks c [] ws = Returned ws"
| "compact_passes checks c (st # sts) ws =
     bind_run (compact_step checks c st ws) (compact_passes checks c sts)"

definition compact :: "bool \<Rightarrow> Compactor \<Rightarrow> Message list \<Rightarrow> (CompactionError + Message list \<times> CompactionStats) run" where
  "compact checks c ms =
     (if ms = [] then Returned (Inl Nothing_To_Compact)
      else bind_run (compact_passes checks c (comp_strategies c) (ms,
               \<lparr>original_count = length ms, final_count = 0, tokens_before = tokens ms, tokens_after = tokens ms,
                reclaimed_tokens = 0, removed_messages = 0, compressed_messages = 0, evicted_messages = 0\<rparr>))
             (\<lambda>(working, stats). Returned (Inr (working,
                stats\<lparr>tokens_after := tokens working, final_count := length working\<rparr>))))"

definition auto_compact :: "bool \<Rightarrow> Message list \<Rightarrow> nat \<Rightarrow> (CompactionError + Message list \<times> CompactionStats) run" where
  "auto_compact checks ms n = compact checks (compactor_new n) ms"

section \<open>What the passes keep\<close>

lemma reclaim_keeps_other:
  "filter (\<lambda>m. \<not> is_tool m) (fst (pass_reclaim ms)) = filter (\<lambda>m. \<not> is_tool m) ms"
proof (induction ms rule: pass_reclaim.induct)
  case (2 m ms)
  show ?case
  proof (cases "is_tool m")
    case True
    have "filter (\<lambda>m. \<not> is_tool m) ms = filter (\<lambda>m. \<not> is_tool m) (dropWhile is_tool ms)"
      by (induction ms) auto
    moreover have "filter (\<lambda>m. \<not> is_tool m) (takeWhile is_tool ms) = []"
      by (auto simp: filter_empty_conv dest: set_takeWhileD)
    moreover have "is_tool (last (m # takeWhile is_tool ms))"
      using True last_in_set [of "m # takeWhile is_tool ms"] set_takeWhileD by fastforce
    ultimately show ?thesis
      using 2(1) [OF True refl] True by (auto simp: msg_new_def Let_def split: prod.splits)
  next
    case False
    then show ?thesis using 2(2) by (auto split: prod.splits)
  qed
qed simp

lemma shrink_from_keeps:
  "shrink_from old ms = Returned (r, n) \<Longrightarrow>
    length r = length ms \<and> map msg_role r = map msg_role ms \<and> drop old r = drop old ms \<and> tokens r \<le> tokens ms"
proof (induction old ms arbitrary: r n rule: shrink_from.induct)
  case (2 old m ms)
  have sh: "shrink_one m = Returned m' \<Longrightarrow> msg_role m' = msg_role m \<and> estimated_tokens m' = 50" for m'
    by (auto simp: shrink_one_def slice_to_def estimated_tokens_def split: if_splits)
  show ?case
  proof (cases "old > 0 \<and> (msg_role m = Role_User \<or> msg_role m = Role_Assistant) \<and> estimated_tokens m > 200")
    case True
    note eq = 2(3) [unfolded shrink_from.simps if_P [OF True]]
    obtain m' where m': "shrink_one m = Returned m'"
      using eq by (cases "shrink_one m") simp_all
    obtain r' n' where rest: "shrink_from (old - 1) ms = Returned (r', n')"
      using eq m' by (cases "shrink_from (old - 1) ms") auto
    have "r = m' # r'" using eq m' rest by simp
    moreover have "drop old (m' # r') = drop (old - 1) r'" "drop old (m # ms) = drop (old - 1) ms"
      using True by (cases old; simp)+
    ultimately show ?thesis
      using 2(1) [OF True rest] sh [OF m'] True by simp
  next
    case False
    note eq = 2(3) [unfolded shrink_from.simps if_not_P [OF False]]
    obtain r' n' where rest: "shrink_from (old - 1) ms = Returned (r', n')"
      using eq by (cases "shrink_from (old - 1) ms") auto
    then show ?thesis
      using 2(2) [OF False rest] eq by (cases old) auto
  qed
qed simp

lemma system_count_le: "system_count ms \<le> length ms"
  by (simp add: system_count_def)

text \<open>What eviction does with a conversation over the limit: the leading messages, as many as there are
  system messages, and the last eight are kept. When more than that lies between them, it is replaced
  by one marker and the result has exactly that many messages plus nine. Otherwise nothing is evicted
  and the messages that belong to both parts appear twice, so the conversation and its token count grow
  by exactly the messages that overlap.\<close>

theorem evict_cuts_or_duplicates:
  assumes "tokens ms > n"
  shows "\<exists>out evicted mid. pass_evict n ms = (out, evicted)
    \<and> out = take (system_count ms) ms @ mid @ drop (length ms - 8) ms
    \<and> (if length ms - 8 > system_count ms
       then length mid = 1 \<and> length out = system_count ms + 9 \<and> evicted = length ms - 8 - system_count ms
       else mid = [] \<and> evicted = 0
         \<and> length out = length ms + (system_count ms - (length ms - 8))
         \<and> tokens out = tokens ms + tokens (drop (length ms - 8) (take (system_count ms) ms)))"
proof (cases "length ms - 8 > system_count ms")
  case True
  then show ?thesis
    using assms by (auto simp: pass_evict_def Let_def min_def)
next
  case False
  let ?e = "length ms - 8" and ?s = "system_count ms"
  have eq: "take ?s ms = take ?e ms @ drop ?e (take ?s ms)"
    using False append_take_drop_id [of ?e "take ?s ms"] by (simp add: min_def)
  have "tokens (take ?s ms) = tokens (take ?e ms) + tokens (drop ?e (take ?s ms))"
    by (subst eq) simp
  moreover have "tokens (take ?e ms) + tokens (drop ?e ms) = tokens ms"
    by (simp flip: map_append sum_list_append)
  ultimately show ?thesis
    using False assms system_count_le [of ms]
    by (auto simp: pass_evict_def Let_def min_def)
qed

definition short_conversation :: "Message list" where
  "short_conversation = [msg_new Role_System ''You are SoulSystem'', msg_new Role_User ''a long task'']"

theorem evict_cuts_or_duplicates_witness:
  "length short_conversation = 2 \<and> length (fst (pass_evict 3 short_conversation)) = 3"
proof -
  have "tokens short_conversation > 3"
    by (simp add: short_conversation_def msg_new_def estimated_tokens_def div_ceil_def)
  from evict_cuts_or_duplicates [OF this] show ?thesis
    by (auto simp: short_conversation_def msg_new_def system_count_def)
qed

text \<open>A message of one long line is not shortened by the collapse pass but more than doubled.\<close>

lemma lines_single: "CHR 0x0A \<notin> set s \<Longrightarrow> acc @ s \<noteq> [] \<Longrightarrow> lines_from acc s = [rev acc @ s]"
  by (induction acc s rule: lines_from.induct) auto

lemma collapse_doubles_single_line:
  assumes "length (msg_content m) > 1000" "CHR 0x0A \<notin> set (msg_content m)"
  shows "length (msg_content (collapse_one m)) > 2 * length (msg_content m)"
proof -
  have "str_lines (msg_content m) = [msg_content m]"
    using assms lines_single [of "msg_content m" "[]"] by fastforce
  then show ?thesis using assms(1) by (simp add: collapse_one_def Let_def)
qed

text \<open>Four tool results too short to be counted: the marker that replaces them counts more, and the
  subtraction of the statistics goes below zero.\<close>

lemma reclaim_statistics_underflow:
  assumes "list_all is_tool (m # ms)" "length ms \<ge> 3" "tokens (m # ms) = 0"
  shows "compact True (compactor_new n) (m # ms) = Panicked"
proof -
  have tw: "takeWhile is_tool ms = ms" "dropWhile is_tool ms = []"
    using assms(1) by (auto simp: list_all_iff takeWhile_eq_all_conv dropWhile_eq_Nil_conv)
  have "ms \<noteq> []" using assms(2) by auto
  then have tool: "is_tool m" "filter is_tool (m # ms) = m # ms" "is_tool (last ms)" "ms \<noteq> []"
    using assms(1) last_in_set [of ms] by (auto simp: list_all_iff)
  have "estimated_tokens (msg_new Role_Tool (''['' @ s)) > 0" for s
    by (simp add: msg_new_def estimated_tokens_def div_ceil_def)
  then have "tokens (filter is_tool (fst (pass_reclaim (m # ms)))) > 0"
    using tool assms(2) by (simp add: tw Let_def msg_new_def)
  moreover obtain out k where out: "pass_reclaim (m # ms) = (out, k)"
    by fastforce
  ultimately have "usize_sub True (tokens (filter is_tool (m # ms))) (tokens (filter is_tool out)) = Panicked"
    using assms(3) by (simp only: tool(2) fst_conv usize_sub_def if_True simp_thms)
  then have "compact_step True (compactor_new n) Reclaim (m # ms, st) = Panicked" for st
    by (simp only: compact_step_def run_pass_def out prod.case CompactionStrategy.case bind_run.simps)
  then show ?thesis by (simp add: compact_def compactor_new_def)
qed

end
