(* ===== verification/Agent.thy ===== *)
theory Agent
  imports Provenance Tools Circuit Llm Planner Compaction
begin

text \<open>
  The autonomous agent (\<open>soul-agent-core/src/lib.rs\<close>) and its chat session (\<open>soul_llm/src/legacy.rs\<close>): the
  guarded call of the language model, the screening and recording of tool results, self-repair,
  compaction, the handling of one tool call and the ReAct loop.

  The agent is a record of the fields these operations read and write. What they do to the outside is
  kept in order in \<open>effects\<close>: events sent to the listener, reads of the emergency-stop latch, dispatched
  tools with their operating-system operations, writes to the causal graph and to the semantic memory,
  the requests sent to the provider, and what the work after a task stores in the tiered memory and in the
  skill directory. The answers of the outside are arguments, one \<open>turn_env\<close> per
  turn and one \<open>call_env\<close> per tool call: the files the latch is read from, the elapsed time, what the
  memories recall, the provider's answers, the operating system. \<open>agent_libs\<close> holds the functions the
  loop calls in other libraries: JSON parsing and printing, the digest, the iteration orders.

  An operation returns a \<open>tool_run\<close>: \<open>Panics\<close> when the code panics, \<open>Blocks\<close> when a tool never returns.
\<close>

section \<open>Chat session\<close>

datatype ChatRole = Chat_System | Chat_User | Chat_Assistant | Chat_Tool

record ToolCall =
  tc_id :: string
  tc_name :: string
  tc_arguments :: string

record ChatMessage =
  cm_role :: ChatRole
  cm_content :: string
  cm_tool_calls :: "ToolCall list option"
  cm_tool_call_id :: "string option"

definition chat_message :: "ChatRole \<Rightarrow> string \<Rightarrow> ChatMessage" where
  "chat_message r s = \<lparr>cm_role = r, cm_content = s, cm_tool_calls = None, cm_tool_call_id = None\<rparr>"

record ChatResponse =
  resp_content :: "string option"
  resp_tool_calls :: "ToolCall list option"

record ChatSession =
  cs_messages :: "ChatMessage list"
  max_context_chars :: nat

definition with_max_context :: "string \<Rightarrow> nat \<Rightarrow> ChatSession" where
  "with_max_context system_prompt n = \<lparr>cs_messages = [chat_message Chat_System system_prompt], max_context_chars = n\<rparr>"

definition session_clear :: "ChatSession \<Rightarrow> ChatSession" where
  "session_clear cs = (case cs_messages cs of [] \<Rightarrow> cs | system # _ \<Rightarrow> cs\<lparr>cs_messages := [system]\<rparr>)"

definition push_message :: "ChatMessage \<Rightarrow> ChatSession \<Rightarrow> ChatSession" where
  "push_message m cs = cs\<lparr>cs_messages := cs_messages cs @ [m]\<rparr>"

definition add_user_message :: "string \<Rightarrow> ChatSession \<Rightarrow> ChatSession" where
  "add_user_message s = push_message (chat_message Chat_User s)"

definition add_assistant_message :: "string \<Rightarrow> ChatSession \<Rightarrow> ChatSession" where
  "add_assistant_message s = push_message (chat_message Chat_Assistant s)"

definition add_assistant_with_tools :: "string option \<Rightarrow> ToolCall list \<Rightarrow> ChatSession \<Rightarrow> ChatSession" where
  "add_assistant_with_tools s tcs =
     push_message ((chat_message Chat_Assistant (case s of Some t \<Rightarrow> t | None \<Rightarrow> []))\<lparr>cm_tool_calls := Some tcs\<rparr>)"

definition add_tool_result :: "string \<Rightarrow> string \<Rightarrow> ChatSession \<Rightarrow> ChatSession" where
  "add_tool_result tool_call_id s =
     push_message ((chat_message Chat_Tool s)\<lparr>cm_tool_call_id := Some tool_call_id\<rparr>)"

section \<open>Agent state\<close>

record AgentConfig =
  ac_name :: string
  max_turns :: nat
  max_tool_retries :: nat
  shell_timeout_secs :: nat
  safety_warning_turns :: "nat list"
  auto_distill :: bool
  cfg_auto_repair :: bool
  max_consecutive_failures :: nat
  working_memory_capacity :: nat
  enable_sub_agents :: bool
  max_sub_agents :: nat
  max_tool_calls :: nat
  max_write_operations :: nat
  max_wall_clock_secs :: nat
  max_provider_attempts :: u32

definition default_agent_config :: AgentConfig where
  "default_agent_config = \<lparr>ac_name = ''SoulSystem'', max_turns = 50, max_tool_retries = 3,
     shell_timeout_secs = 60, safety_warning_turns = [7, 10, 15, 25, 35, 50], auto_distill = True,
     cfg_auto_repair = True, max_consecutive_failures = 3, working_memory_capacity = 50,
     enable_sub_agents = True, max_sub_agents = 4, max_tool_calls = 500, max_write_operations = 100,
     max_wall_clock_secs = 3600, max_provider_attempts = 12\<rparr>"

datatype AgentEvent =
    Thinking string
  | Tool_Call_Event string json
  | Tool_Result_Event string string bool
  | Response string
  | SafetyWarning string
  | Done_Event string
  | Error_Event string

datatype agent_effect =
    Emitted AgentEvent
  | Latch_Read "string option"
  | Dispatched string json "tool_op list" "(string + string) tool_run"
  | Ingested string string
  | Failure_Signal string nat
  | Remembered string
  | Requests nat "string option"
  | Stored string string
  | Skill_Written string string

record AutonomousAgent =
  ag_config :: AgentConfig
  llm_retry :: RetryPolicy
  chat_session :: ChatSession
  planner :: CognitiveLoop
  ag_history :: "string list"
  turn :: nat
  consecutive_failures :: nat
  provider_attempts_spent :: u32
  repair_count :: nat
  running :: bool
  event_tx :: bool
  llm_breaker :: CircuitBreaker
  scanner :: InjectionScanner
  gate :: ApprovalGate
  memory_provenance :: ProvenanceLog
  emergency_stop :: EmergencyStop
  tool_call_count :: nat
  write_operation_count :: nat
  task_started_at :: "nat option"
  effects :: "agent_effect list"

record agent_libs =
  parse_json :: "string \<Rightarrow> json option"
  print_json :: "json \<Rightarrow> string"
  digest :: "string \<Rightarrow> u64"
  rule_order :: "Rule list \<Rightarrow> Rule list"
  table_order :: "string list \<Rightarrow> string list"
  duration_dbg :: "nat \<Rightarrow> string"
  warn_enabled :: bool
  overflow_checks :: bool

record call_env =
  ce_files :: files
  ce_os :: tool_os
  ce_now :: int
  ce_hottest :: "string option"

record recalled =
  rec_text :: string
  rec_layer :: string
  rec_importance :: string
  rec_trust :: string
  instruction_bearing :: bool

record turn_env =
  te_aborted :: bool
  te_files :: files
  te_elapsed :: nat
  te_elapsed_shown :: nat
  te_recalled :: "recalled list"
  te_kg_context :: string
  te_self_model :: string
  te_ccos_files :: nat
  te_ccos_window :: "(string \<times> string \<times> string) list"
  te_admitted_at :: nat
  te_settled_at :: nat
  te_permit :: "LlmError + unit"
  te_retry :: retry_env
  te_answers :: "nat \<Rightarrow> LlmError + ChatResponse"
  te_timeout :: "nat option"
  te_now :: int
  te_call :: "nat \<Rightarrow> call_env"

section \<open>Sequencing\<close>

definition and_then :: "'a tool_run \<times> 's \<Rightarrow> ('a \<Rightarrow> 's \<Rightarrow> 'b tool_run \<times> 's) \<Rightarrow> 'b tool_run \<times> 's" where
  "and_then r f = (case r of
     (Gives x, s) \<Rightarrow> f x s
   | (Panics, s) \<Rightarrow> (Panics, s)
   | (Blocks, s) \<Rightarrow> (Blocks, s))"

definition with_run :: "'a run \<Rightarrow> ('a \<Rightarrow> 's \<Rightarrow> 'b tool_run \<times> 's) \<Rightarrow> 's \<Rightarrow> 'b tool_run \<times> 's" where
  "with_run r f s = (case r of Panicked \<Rightarrow> (Panics, s) | Returned x \<Rightarrow> f x s)"

definition log_effect :: "agent_effect \<Rightarrow> AutonomousAgent \<Rightarrow> AutonomousAgent" where
  "log_effect e a = a\<lparr>effects := effects a @ [e]\<rparr>"

definition emit_event :: "AgentEvent \<Rightarrow> AutonomousAgent \<Rightarrow> AutonomousAgent" where
  "emit_event e a = (if event_tx a then log_effect (Emitted e) a else a)"

definition on_session :: "(ChatSession \<Rightarrow> ChatSession) \<Rightarrow> AutonomousAgent \<Rightarrow> AutonomousAgent" where
  "on_session f a = a\<lparr>chat_session := f (chat_session a)\<rparr>"

definition saturating_add :: "u32 \<Rightarrow> u32 \<Rightarrow> u32" where
  "saturating_add a b = (if unat a + unat b \<ge> 2 ^ 32 then - 1 else a + b)"

definition truncate_output :: "string \<Rightarrow> nat \<Rightarrow> string run" where
  "truncate_output s max_len =
     (if length s \<le> max_len then Returned s
      else bind_run (slice_to s max_len)
        (\<lambda>p. Returned (p @ ''...['' @ show_nat (length s - max_len) @ '' more chars]'')))"

definition permission_requirement :: "PermissionLevel \<Rightarrow> ApprovalRequirement" where
  "permission_requirement level = (case level of
     Read \<Rightarrow> req_safe
   | Write \<Rightarrow> \<lparr>risk = Medium, req_reason = ''mutates state'', auto_approve_safe = False\<rparr>
   | Destructive \<Rightarrow> req_critical ''irreversible / system-wide damage'')"

text \<open>Reading the latch; the reason is read from the same file.\<close>

definition check_latch :: "files \<Rightarrow> AutonomousAgent \<Rightarrow> string option \<times> AutonomousAgent" where
  "check_latch fs a =
     (let es = emergency_stop a; why = (if is_tripped es fs then Some (case trip_reason es fs of Some r \<Rightarrow> r | None \<Rightarrow> []) else None)
      in (why, log_effect (Latch_Read why) a))"

section \<open>The language model behind the breaker\<close>

datatype ProviderOutcome = Exhausted u32 | Retryable | Permanent | BreakerOpen

fun classify :: "LlmError \<Rightarrow> ProviderOutcome" where
  "classify (RetriesExhausted attempts e) = Exhausted attempts"
| "classify e = (if is_retryable e then Retryable else Permanent)"

definition is_worth_retrying :: "ProviderOutcome \<Rightarrow> bool" where
  "is_worth_retrying p \<longleftrightarrow> p = Retryable \<or> p = BreakerOpen"

text \<open>\<open>LlmClient::chat\<close>: a concurrency permit, then the retry loop; with the number of requests sent.\<close>

definition client_chat :: "turn_env \<Rightarrow> RetryPolicy \<Rightarrow> (LlmError + ChatResponse) \<times> nat" where
  "client_chat te pol = (case te_permit te of
     Inl e \<Rightarrow> (Inl e, 0)
   | Inr _ \<Rightarrow> (case with_retry (te_retry te) pol (te_answers te) of (r, sent, waits) \<Rightarrow> (r, sent)))"

text \<open>The classification is made inside the protected call; when that is cut off by the breaker's timeout,
  after some of its requests, nothing has been classified.\<close>

definition guarded_llm_chat_typed :: "agent_libs \<Rightarrow> turn_env \<Rightarrow> AutonomousAgent
    \<Rightarrow> (ProviderOutcome \<times> string + ChatResponse) \<times> AutonomousAgent" where
  "guarded_llm_chat_typed libs te a =
     (let (answer, all_sent) = client_chat te (llm_retry a);
          sent = (case te_timeout te of None \<Rightarrow> all_sent | Some n \<Rightarrow> min n all_sent);
          outcome = (case te_timeout te of
              Some _ \<Rightarrow> Elapsed
            | None \<Rightarrow> (case answer of Inr resp \<Rightarrow> Value resp | Inl e \<Rightarrow> Failed (show_llm_error e)));
          classified = (case te_timeout te of
              Some _ \<Rightarrow> None
            | None \<Rightarrow> (case answer of Inr _ \<Rightarrow> None | Inl e \<Rightarrow> Some (classify e)))
      in case breaker_call (te_admitted_at te) (te_settled_at te) (\<lambda>_. outcome) (llm_breaker a) of
           (Inr resp, b) \<Rightarrow> (Inr resp, log_effect (Requests sent (resp_content resp)) (a\<lparr>llm_breaker := b\<rparr>))
         | (Inl (Open_Error service t), b) \<Rightarrow>
             (Inl (BreakerOpen, show_breaker_error (duration_dbg libs) (Open_Error service t)), a\<lparr>llm_breaker := b\<rparr>)
         | (Inl e, b) \<Rightarrow>
             (Inl (case classified of Some c \<Rightarrow> c | None \<Rightarrow> BreakerOpen, show_breaker_error (duration_dbg libs) e),
              log_effect (Requests sent None) (a\<lparr>llm_breaker := b\<rparr>)))"

section \<open>Memory\<close>

definition record_provenance :: "agent_libs \<Rightarrow> int \<Rightarrow> MemorySource \<Rightarrow> MemoryStore \<Rightarrow> string \<Rightarrow> ScreenedContent
    \<Rightarrow> bool \<Rightarrow> AutonomousAgent \<Rightarrow> AutonomousAgent" where
  "record_provenance libs now src st uri content was_persisted a =
     a\<lparr>memory_provenance := prov_record (table_order libs)
         \<lparr>prov_source = src, prov_trust = sc_trust content, prov_store = st, prov_uri = uri,
          screening_score = sc_score content, persisted = was_persisted, recorded_at = now\<rparr> (memory_provenance a)\<rparr>"

definition path_arg :: "json \<Rightarrow> string option" where
  "path_arg ps = Option.bind
     (case json_get ''path'' ps of Some v \<Rightarrow> Some v
      | None \<Rightarrow> (case json_get ''file'' ps of Some v \<Rightarrow> Some v | None \<Rightarrow> json_get ''filename'' ps)) json_as_str"

fun json_as_array :: "json \<Rightarrow> json list option" where
  "json_as_array (JArray vs) = Some vs"
| "json_as_array _ = None"

definition json_strings :: "string \<Rightarrow> json \<Rightarrow> string list" where
  "json_strings key v = (case Option.bind (json_get key v) json_as_array of
     Some vs \<Rightarrow> List.map_filter json_as_str vs | None \<Rightarrow> [])"

definition ccos_observe_tool :: "agent_libs \<Rightarrow> call_env \<Rightarrow> string \<Rightarrow> json \<Rightarrow> ScreenedContent \<Rightarrow> bool
    \<Rightarrow> AutonomousAgent \<Rightarrow> AutonomousAgent" where
  "ccos_observe_tool libs ce name ps output ok a = (case path_arg ps of
     Some p \<Rightarrow>
       let uri = ''file:'' @ p
       in if ok \<and> sc_text output \<noteq> [] then
            let persistable = is_persistable (sc_trust output);
                a = (if persistable then log_effect (Ingested uri (sc_text output)) a
                     else emit_event (SafetyWarning (''Refused to ingest quarantined output for '' @ [CHR 0x27] @ uri
                            @ [CHR 0x27] @ '' into causal memory; the existing record is left intact'')) a)
            in record_provenance libs (ce_now ce) (ToolOutput name) CausalGraph uri output persistable a
          else if \<not> ok then log_effect (Failure_Signal uri 3) a
          else a
   | None \<Rightarrow>
       if \<not> ok \<and> (contains (sc_text output) ''error['' \<or> contains (sc_text output) ''test failed'')
       then case ce_hottest ce of Some node \<Rightarrow> log_effect (Failure_Signal node 2) a | None \<Rightarrow> a
       else a)"

definition record_tool_outcome :: "agent_libs \<Rightarrow> call_env \<Rightarrow> string \<Rightarrow> json \<Rightarrow> ScreenedContent \<Rightarrow> bool
    \<Rightarrow> AutonomousAgent \<Rightarrow> unit tool_run \<times> AutonomousAgent" where
  "record_tool_outcome libs ce name ps safe_result tool_ok a =
     with_run (truncate_output (print_json libs ps) 100) (\<lambda>shown.
     with_run (truncate_output (sc_text safe_result) 200) (\<lambda>result a.
       let cmd = name @ ''('' @ shown @ '')'';
           a = a\<lparr>planner := (planner a)\<lparr>ahistory := ah_record (nat (ce_now ce)) cmd result tool_ok (ahistory (planner a))\<rparr>\<rparr>
       in (Gives (), record_provenance libs (ce_now ce) (ToolOutput name) PlannerHistory cmd safe_result True a)))
     (ccos_observe_tool libs ce name ps safe_result tool_ok a)"

definition remember_observation :: "agent_libs \<Rightarrow> int \<Rightarrow> MemorySource \<Rightarrow> ScreenedContent \<Rightarrow> AutonomousAgent
    \<Rightarrow> AutonomousAgent" where
  "remember_observation libs now src content a =
     (let t = trim (sc_text content)
      in if length t < 12 then a
         else let persistable = is_persistable (sc_trust content);
                  a = (if persistable then log_effect (Remembered t) a else a)
              in record_provenance libs now src Semantic (''semantic:'' @ show_hex (unat (digest libs t)))
                   content persistable a)"

definition observe_untrusted :: "agent_libs \<Rightarrow> int \<Rightarrow> MemorySource \<Rightarrow> string \<Rightarrow> AutonomousAgent \<Rightarrow> AutonomousAgent" where
  "observe_untrusted libs now src s a =
     remember_observation libs now src (screen (rule_order libs) (scanner a) s) a"

definition screen_tool_output :: "agent_libs \<Rightarrow> string \<Rightarrow> string \<Rightarrow> AutonomousAgent
    \<Rightarrow> ScreenedContent \<times> AutonomousAgent" where
  "screen_tool_output libs tool output a =
     (let content = screen (rule_order libs) (scanner a) output;
          score = show_nat (unat (sc_score content));
          quoted = ''Tool '' @ [CHR 0x27] @ tool @ [CHR 0x27]
      in (content, case sc_trust content of
           Spotlighted \<Rightarrow> emit_event (SafetyWarning (quoted @ '' output flagged suspicious (injection score ''
             @ score @ ''); spotlighting'')) a
         | Quarantined \<Rightarrow> emit_event (SafetyWarning (quoted @ '' output QUARANTINED (injection score ''
             @ score @ ''); withheld'')) a
         | _ \<Rightarrow> a))"

section \<open>Self-repair and compaction\<close>

definition auto_repair :: "AutonomousAgent \<Rightarrow> string list \<times> AutonomousAgent" where
  "auto_repair a =
     (if \<not> cfg_auto_repair (ag_config a) \<or> consecutive_failures a < max_consecutive_failures (ag_config a)
      then ([], a)
      else let cs = chat_session a;
               kept = cs\<lparr>cs_messages := filter (\<lambda>m. cm_role m = Chat_System) (cs_messages cs)\<rparr>;
               msg = ''SYSTEM: Self-repair triggered after '' @ show_nat (consecutive_failures a)
                 @ '' consecutive failures (repair #'' @ show_nat (repair_count a + 1)
                 @ '') '' @ em_dash @ '' context reset, continuing fresh.''
           in ([msg], a\<lparr>chat_session := add_user_message msg kept, ag_history := [],
                        repair_count := repair_count a + 1, consecutive_failures := 0\<rparr>))"

definition repair_and_warn :: "AutonomousAgent \<Rightarrow> AutonomousAgent" where
  "repair_and_warn a = (case auto_repair a of (repairs, a) \<Rightarrow> fold (\<lambda>r. emit_event (SafetyWarning r)) repairs a)"

fun comp_role :: "ChatRole \<Rightarrow> Role" where
  "comp_role Chat_System = Role_System"
| "comp_role Chat_User = Role_User"
| "comp_role Chat_Assistant = Role_Assistant"
| "comp_role Chat_Tool = Role_Tool"

fun chat_role :: "Role \<Rightarrow> ChatRole" where
  "chat_role Role_System = Chat_System"
| "chat_role Role_User = Chat_User"
| "chat_role Role_Assistant = Chat_Assistant"
| "chat_role Role_Tool = Chat_Tool"

fun window_block :: "(string \<times> string \<times> string) list \<Rightarrow> string run" where
  "window_block [] = Returned []"
| "window_block ((uri, score, s) # items) =
     bind_run (truncate_output s 600) (\<lambda>t.
     bind_run (window_block items) (\<lambda>rest.
       Returned ([CHR 0x0A] @ ''=== '' @ uri @ '' (causal score '' @ score @ '') ==='' @ [CHR 0x0A] @ t @ [CHR 0x0A] @ rest)))"

definition inject_ccos_working_set :: "turn_env \<Rightarrow> AutonomousAgent \<Rightarrow> unit tool_run \<times> AutonomousAgent" where
  "inject_ccos_working_set te a =
     (if te_ccos_files te = 0 \<or> te_ccos_window te = [] then (Gives (), a)
      else with_run (window_block (take 8 (te_ccos_window te))) (\<lambda>block a.
        let a = on_session (push_message (chat_message Chat_System (''[CCOS causal working set '' @ em_dash
                  @ '' code this session depends on]'' @ [CHR 0x0A] @ block))) a
        in (Gives (), emit_event (SafetyWarning (''CCOS re-injected ''
              @ show_nat (min (length (te_ccos_window te)) 8) @ '' causal file(s) after compaction'')) a)) a)"

definition session_chars :: "ChatSession \<Rightarrow> nat" where
  "session_chars cs = sum_list (map (length \<circ> cm_content) (cs_messages cs))"

definition to_compaction :: "ChatMessage \<Rightarrow> Message" where
  "to_compaction m = with_tokens (length (cm_content m) div 4) (msg_new (comp_role (cm_role m)) (cm_content m))"

definition of_compaction :: "Message \<Rightarrow> ChatMessage" where
  "of_compaction m = chat_message (chat_role (msg_role m)) (msg_content m)"

definition halve_oldest :: "ChatMessage list \<Rightarrow> ChatMessage list" where
  "halve_oldest ms =
     (let sys = length (filter (\<lambda>m. cm_role m = Chat_System) ms);
          target = sys + (length ms - sys) div 2
      in take sys ms @ drop target ms)"

definition compact_if_needed :: "agent_libs \<Rightarrow> turn_env \<Rightarrow> AutonomousAgent \<Rightarrow> unit tool_run \<times> AutonomousAgent" where
  "compact_if_needed libs te a =
     (let cs = chat_session a
      in if session_chars cs \<le> max_context_chars cs * 80 div 100 then (Gives (), a)
         else with_run (compact (overflow_checks libs) (compactor_new (max_context_chars cs)) (map to_compaction (cs_messages cs)))
           (\<lambda>r a. case r of
              Inr (compacted, stats) \<Rightarrow>
                inject_ccos_working_set te (on_session (\<lambda>cs. cs\<lparr>cs_messages := map of_compaction compacted\<rparr>) a)
            | Inl e \<Rightarrow> (Gives (), on_session (\<lambda>cs. cs\<lparr>cs_messages := halve_oldest (cs_messages cs)\<rparr>) a)) a)"

section \<open>One tool call\<close>

text \<open>A refused call is reported to the listener and to the model.\<close>

definition block_call :: "ToolCall \<Rightarrow> string \<Rightarrow> AutonomousAgent \<Rightarrow> unit tool_run \<times> AutonomousAgent" where
  "block_call tc msg a =
     (Gives (), on_session (add_tool_result (tc_id tc) msg) (emit_event (Tool_Result_Event (tc_name tc) msg False) a))"

definition call_command :: "json \<Rightarrow> string option" where
  "call_command ps = arg_str ''command'' ps"

definition call_permission :: "string \<Rightarrow> json \<Rightarrow> PermissionLevel" where
  "call_permission name ps = required_permission_for name (call_command ps)"

definition call_scope :: "string \<Rightarrow> json \<Rightarrow> string" where
  "call_scope name ps =
     (if name = ''execute_shell'' then (case call_command ps of Some c \<Rightarrow> c | None \<Rightarrow> []) else name)"

definition dispatch_call :: "agent_libs \<Rightarrow> call_env \<Rightarrow> string \<Rightarrow> json \<Rightarrow> AutonomousAgent
    \<Rightarrow> (string \<times> bool) tool_run \<times> AutonomousAgent" where
  "dispatch_call libs ce name ps a = (case async_dispatch_tool (ce_os ce) name ps of
     (outcome, ops) \<Rightarrow>
       (let a = log_effect (Dispatched name ps ops outcome) a
        in case outcome of
             Panics \<Rightarrow> (Panics, a)
           | Blocks \<Rightarrow> (Blocks, a)
           | Gives (Inr output) \<Rightarrow>
               with_run (truncate_output output 2000)
                 (\<lambda>shown a. (Gives (output, True), emit_event (Tool_Result_Event name shown True) a))
                 (a\<lparr>consecutive_failures := 0\<rparr>)
           | Gives (Inl e) \<Rightarrow>
               (Gives (e, False), repair_and_warn (emit_event (Tool_Result_Event name e False)
                  (a\<lparr>consecutive_failures := consecutive_failures a + 1\<rparr>)))))"

text \<open>The audit line of a state-changing call, formatted only when the log level is enabled.\<close>

definition audit_write :: "agent_libs \<Rightarrow> ToolCall \<Rightarrow> json \<Rightarrow> AutonomousAgent \<Rightarrow> unit tool_run \<times> AutonomousAgent" where
  "audit_write libs tc ps a =
     (if call_permission (tc_name tc) ps = Write \<and> warn_enabled libs
      then with_run (truncate_output (print_json libs ps) 100) (\<lambda>_ a. (Gives (), a)) a
      else (Gives (), a))"

definition record_result :: "agent_libs \<Rightarrow> call_env \<Rightarrow> ToolCall \<Rightarrow> json \<Rightarrow> string \<Rightarrow> bool \<Rightarrow> AutonomousAgent
    \<Rightarrow> unit tool_run \<times> AutonomousAgent" where
  "record_result libs ce tc ps result tool_ok a =
     (case screen_tool_output libs (tc_name tc) result a of (safe_result, a) \<Rightarrow>
        and_then (record_tool_outcome libs ce (tc_name tc) ps safe_result tool_ok a) (\<lambda>_.
          with_run (truncate_output (sc_text safe_result) 3000)
            (\<lambda>shown a. (Gives (), on_session (add_tool_result (tc_id tc) shown) a))))"

definition perform_call :: "agent_libs \<Rightarrow> call_env \<Rightarrow> ToolCall \<Rightarrow> json \<Rightarrow> AutonomousAgent
    \<Rightarrow> unit tool_run \<times> AutonomousAgent" where
  "perform_call libs ce tc ps a =
     and_then (audit_write libs tc ps a) (\<lambda>_ a.
     and_then (dispatch_call libs ce (tc_name tc) ps a) (\<lambda>(result, tool_ok).
       record_result libs ce tc ps result tool_ok))"

definition handle_tool_call :: "agent_libs \<Rightarrow> call_env \<Rightarrow> ToolCall \<Rightarrow> AutonomousAgent
    \<Rightarrow> unit tool_run \<times> AutonomousAgent" where
  "handle_tool_call libs ce tc a =
     (let ps = (case parse_json libs (tc_arguments tc) of Some v \<Rightarrow> v | None \<Rightarrow> JObject []);
          a = emit_event (Tool_Call_Event (tc_name tc) ps) a;
          cfg = ag_config a;
          perm = call_permission (tc_name tc) ps
      in case check_latch (ce_files ce) a of
           (Some why, a) \<Rightarrow> block_call tc (''BLOCKED: emergency stop is active ('' @ why @ '')'') a
         | (None, a) \<Rightarrow>
             let a = a\<lparr>tool_call_count := tool_call_count a + 1\<rparr>
             in if tool_call_count a > max_tool_calls cfg
                then block_call tc (''BLOCKED: tool-call budget exceeded ('' @ show_nat (tool_call_count a)
                       @ ''/'' @ show_nat (max_tool_calls cfg) @ '')'') a
                else let a = (if perm \<noteq> Read then a\<lparr>write_operation_count := write_operation_count a + 1\<rparr> else a)
                     in if perm \<noteq> Read \<and> write_operation_count a > max_write_operations cfg
                        then block_call tc (''BLOCKED: write-operation budget exceeded (''
                               @ show_nat (write_operation_count a) @ ''/'' @ show_nat (max_write_operations cfg) @ '')'') a
                        else case evaluate (gate a) (tc_name tc) (call_scope (tc_name tc) ps) (permission_requirement perm) of
                               Allow \<Rightarrow> perform_call libs ce tc ps a
                             | Deny why \<Rightarrow> block_call tc (''BLOCKED by approval gate: '' @ why) a
                             | Pause why \<Rightarrow> block_call tc (''BLOCKED by approval gate: '' @ why) a)"

fun handle_tool_calls :: "agent_libs \<Rightarrow> (nat \<Rightarrow> call_env) \<Rightarrow> nat \<Rightarrow> ToolCall list \<Rightarrow> AutonomousAgent
    \<Rightarrow> unit tool_run \<times> AutonomousAgent" where
  "handle_tool_calls libs ce i [] a = (Gives (), a)"
| "handle_tool_calls libs ce i (tc # tcs) a =
     and_then (handle_tool_call libs (ce i) tc a) (\<lambda>_. handle_tool_calls libs ce (i + 1) tcs)"

section \<open>One turn\<close>

definition begin_run_accounting :: "AutonomousAgent \<Rightarrow> AutonomousAgent" where
  "begin_run_accounting a = a\<lparr>turn := 0, tool_call_count := 0, write_operation_count := 0,
     provider_attempts_spent := 0\<rparr>"

text \<open>The first statements of \<open>run_task\<close>, up to the selection of the strategy.\<close>

definition run_task_start :: "files \<Rightarrow> nat \<Rightarrow> AutonomousAgent \<Rightarrow> (string + unit) \<times> AutonomousAgent" where
  "run_task_start fs now a = (case check_latch fs a of
     (Some why, a) \<Rightarrow> (Inl (''refusing to start: emergency stop is active ('' @ why @ '')''), a)
   | (None, a) \<Rightarrow> (Inr (), on_session session_clear
        ((begin_run_accounting (a\<lparr>running := True\<rparr>))\<lparr>task_started_at := Some now\<rparr>)))"

definition react_start :: "string \<Rightarrow> AutonomousAgent \<Rightarrow> AutonomousAgent" where
  "react_start task a = on_session (add_user_message task)
     (a\<lparr>planner := (planner a)\<lparr>wmemory := set_key_info task (wmemory (planner a))\<rparr>\<rparr>)"

text \<open>The guards at the top of the loop; \<open>Some\<close> is the error the run ends with.\<close>

definition turn_guard :: "turn_env \<Rightarrow> AutonomousAgent \<Rightarrow> string option \<times> AutonomousAgent" where
  "turn_guard te a =
     (if \<not> running a \<or> te_aborted te then (Some ''Task aborted'', a)
      else case check_latch (te_files te) a of
        (Some why, a) \<Rightarrow> (Some (''Emergency stop is active: '' @ why), a)
      | (None, a) \<Rightarrow>
          if task_started_at a \<noteq> None \<and> te_elapsed te > max_wall_clock_secs (ag_config a)
          then (Some (''Wall-clock budget exceeded ('' @ show_nat (te_elapsed_shown te) @ ''s > ''
                  @ show_nat (max_wall_clock_secs (ag_config a)) @ ''s)''), a)
          else (None, a))"

definition show_recalled :: "recalled \<Rightarrow> string" where
  "show_recalled e =
     (if instruction_bearing e
      then ''['' @ rec_layer e @ ''] '' @ rec_text e @ '' (importance: '' @ rec_importance e @ '')''
      else ''['' @ rec_layer e @ ''] '' @ spotlight (rec_text e) @ '' (importance: '' @ rec_importance e
             @ '', trust: '' @ rec_trust e @ '')'')"

definition combined_context :: "turn_env \<Rightarrow> AutonomousAgent \<Rightarrow> string" where
  "combined_context te a =
     to_prompt_section (wmemory (planner a))
     @ (if key_info (wmemory (planner a)) \<noteq> [] \<and> te_recalled te \<noteq> []
        then [CHR 0x0A, CHR 0x0A] @ ''Relevant past experiences:'' @ [CHR 0x0A]
               @ join [CHR 0x0A] (map show_recalled (te_recalled te)) else [])
     @ (if te_kg_context te \<noteq> []
        then [CHR 0x0A, CHR 0x0A] @ ''Knowledge graph context:'' @ [CHR 0x0A] @ te_kg_context te else [])
     @ (if turn a mod 10 = 0 then [CHR 0x0A, CHR 0x0A] @ te_self_model te else [])"

definition turn_context :: "turn_env \<Rightarrow> AutonomousAgent \<Rightarrow> AutonomousAgent" where
  "turn_context te a =
     (let a = a\<lparr>turn := turn a + 1\<rparr>;
          warning = ''SAFETY: You have been running for '' @ show_nat (turn a)
            @ '' turns. If stuck, change strategy or ask for help.'';
          a = (if turn a \<in> set (safety_warning_turns (ag_config a))
               then on_session (add_user_message warning) (emit_event (SafetyWarning warning) a) else a);
          ctx = combined_context te a
      in if ctx \<noteq> [] \<and> turn a mod 5 = 1 then on_session (add_user_message ctx) a else a)"

definition charge :: "u32 \<Rightarrow> AutonomousAgent \<Rightarrow> AutonomousAgent" where
  "charge n a = a\<lparr>provider_attempts_spent := saturating_add (provider_attempts_spent a) n\<rparr>"

definition show_charged :: "AutonomousAgent \<Rightarrow> string" where
  "show_charged a = show_nat (unat (provider_attempts_spent a)) @ '' of ''
     @ show_nat (unat (max_provider_attempts (ag_config a)))"

fun provider_failed :: "ProviderOutcome \<Rightarrow> string \<Rightarrow> AutonomousAgent \<Rightarrow> string \<times> AutonomousAgent" where
  "provider_failed (Exhausted attempts) e a =
     (let a = charge (max attempts 1) a
      in (''LLM provider exhausted after '' @ show_nat (unat attempts) @ '' provider-level attempts (''
            @ show_charged a @ '' charged this run): '' @ e, a))"
| "provider_failed Permanent e a = (''LLM provider rejected the request permanently: '' @ e, charge 1 a)"
| "provider_failed _ e a = (''LLM error: '' @ e, repair_and_warn (charge 1 a))"

datatype turn_result = Again string | Ends "string + string"

definition says_done :: "string \<Rightarrow> bool" where
  "says_done last_response \<longleftrightarrow> (let lower = to_lowercase last_response
     in contains lower ''task completed'' \<or> contains lower ''done'' \<or> contains lower ''finished''
        \<or> contains lower ''completed successfully'')"

definition take_answer :: "agent_libs \<Rightarrow> turn_env \<Rightarrow> string \<Rightarrow> ChatResponse \<Rightarrow> AutonomousAgent
    \<Rightarrow> turn_result tool_run \<times> AutonomousAgent" where
  "take_answer libs te last_response resp a =
     (let content = (case resp_content resp of Some s \<Rightarrow> s | None \<Rightarrow> []);
          calls = (case resp_tool_calls resp of Some tcs \<Rightarrow> tcs | None \<Rightarrow> [])
      in if calls \<noteq> [] then
           and_then (handle_tool_calls libs (te_call te) 0 calls
               (on_session (add_assistant_with_tools (if content = [] then None else Some content) calls) a))
             (\<lambda>_ a. (Gives (Again last_response), a))
         else
           let (last_response, a) =
                 (if content \<noteq> []
                  then (content, emit_event (Response content)
                         (observe_untrusted libs (te_now te) ModelOutput content
                           (on_session (add_assistant_message content) a)))
                  else (last_response, a))
           in if says_done last_response then (Gives (Ends (Inr last_response)), a)
              else if content = [] \<and> resp_tool_calls resp = None then (Gives (Ends (Inr last_response)), a)
              else (Gives (Again last_response), a))"

definition ask_and_act :: "agent_libs \<Rightarrow> turn_env \<Rightarrow> string \<Rightarrow> AutonomousAgent \<Rightarrow> turn_result tool_run \<times> AutonomousAgent" where
  "ask_and_act libs te last_response a =
     (let a = emit_event (Thinking (''Turn '' @ show_nat (turn a) @ ''/'' @ show_nat (max_turns (ag_config a)))) a
      in case guarded_llm_chat_typed libs te a of
           (Inl (outcome, e), a) \<Rightarrow>
             (case provider_failed outcome e (a\<lparr>consecutive_failures := consecutive_failures a + 1\<rparr>) of
                (msg, a) \<Rightarrow> (Gives (Ends (Inl msg)), a))
         | (Inr resp, a) \<Rightarrow>
             let a = charge 1 a
             in if provider_attempts_spent a \<ge> max_provider_attempts (ag_config a)
                then (Gives (Ends (Inl (''provider attempt budget exhausted: '' @ show_charged a
                        @ '' spent across the provider and strategy layers (INV-PROVIDER-3)''))), a)
                else take_answer libs te last_response resp a)"

definition react_turn :: "agent_libs \<Rightarrow> turn_env \<Rightarrow> string \<Rightarrow> AutonomousAgent \<Rightarrow> turn_result tool_run \<times> AutonomousAgent" where
  "react_turn libs te last_response a = (case turn_guard te a of
     (Some err, a) \<Rightarrow> (Gives (Ends (Inl err)), a)
   | (None, a) \<Rightarrow> and_then (compact_if_needed libs te (turn_context te a))
       (\<lambda>_. ask_and_act libs te last_response))"

end
