(* ===== verification/Agent_Run.thy ===== *)
theory Agent_Run
  imports Agent
begin

text \<open>
  The ReAct loop of the agent and what holds of every run of it: which effects the operations have, that
  tools are dispatched only behind the latch, the budgets and the gate, where the text that
  reaches the memories comes from and that it is screened, and how many requests a run sends.
\<close>

section \<open>What the operations leave alone\<close>

text \<open>The part of the agent no operation of a turn changes, and the counters.\<close>

definition static :: "AutonomousAgent \<Rightarrow> AgentConfig \<times> RetryPolicy \<times> bool \<times> bool \<times> InjectionScanner \<times> ApprovalGate
    \<times> EmergencyStop \<times> nat option" where
  "static a = (ag_config a, llm_retry a, running a, event_tx a, scanner a, gate a, emergency_stop a, task_started_at a)"

definition counters :: "AutonomousAgent \<Rightarrow> nat \<times> nat \<times> nat \<times> u32" where
  "counters a = (turn a, tool_call_count a, write_operation_count a, provider_attempts_spent a)"

text \<open>Where a text of a trail of effects comes from: the output of a tool that succeeded, with the
  arguments of the call, or an answer of the language model.\<close>

datatype source = From_Tool json string | From_Model string

fun effect_sources :: "agent_effect \<Rightarrow> source set" where
  "effect_sources (Dispatched name ps ops (Gives (Inr output))) = {From_Tool ps output}"
| "effect_sources (Requests n (Some answer)) = {From_Model answer}"
| "effect_sources _ = {}"

definition sources :: "agent_effect list \<Rightarrow> source set" where
  "sources es = (\<Union>e \<in> set es. effect_sources e)"

lemma sources_simps [simp]:
  "sources [] = {}" "sources (e # es) = effect_sources e \<union> sources es"
  "sources (es @ fs) = sources es \<union> sources fs"
  by (auto simp: sources_def)

text \<open>What the screening makes of a text, when it may be kept at all.\<close>

definition screened :: "agent_libs \<Rightarrow> InjectionScanner \<Rightarrow> string \<Rightarrow> string \<Rightarrow> bool" where
  "screened libs sc raw s \<longleftrightarrow> s = sc_text (screen (rule_order libs) sc raw)
     \<and> is_persistable (sc_trust (screen (rule_order libs) sc raw))"

text \<open>What is distilled from an answer: its facts are episodic memories, its skills semantic notes.\<close>

definition distilled :: "agent_libs \<Rightarrow> string \<Rightarrow> string \<Rightarrow> string \<Rightarrow> bool" where
  "distilled libs answer layer s \<longleftrightarrow> (case parse_json libs answer of
     None \<Rightarrow> False
   | Some v \<Rightarrow> layer = ''Episodic'' \<and> s \<in> set (json_strings ''facts'' v)
       \<or> layer = ''Semantic'' \<and> s \<in> (@) ''[SKILL] '' ` set (json_strings ''skills'' v))"

text \<open>Effects that touch neither tools nor the latch nor the provider, whose screened texts come from the
  sources \<open>S\<close>.\<close>

fun calm :: "agent_libs \<Rightarrow> InjectionScanner \<Rightarrow> source set \<Rightarrow> agent_effect \<Rightarrow> bool" where
  "calm libs sc S (Ingested uri s) = (\<exists>ps output p. From_Tool ps output \<in> S \<and> path_arg ps = Some p
     \<and> uri = ''file:'' @ p \<and> screened libs sc output s)"
| "calm libs sc S (Remembered t) = (\<exists>answer s. From_Model answer \<in> S \<and> screened libs sc answer s \<and> t = trim s)"
| "calm libs sc S (Emitted e) = True"
| "calm libs sc S (Failure_Signal uri n) = True"
| "calm libs sc S (Stored layer s) = (\<exists>answer. From_Model answer \<in> S \<and> distilled libs answer layer s)"
| "calm libs sc S (Skill_Written p s) = True"
| "calm libs sc S _ = False"

lemma calm_mono: "calm libs sc S e \<Longrightarrow> S \<subseteq> T \<Longrightarrow> calm libs sc T e"
  by (cases e) (simp_all, blast+)

definition quiet :: "agent_libs \<Rightarrow> source set \<Rightarrow> AutonomousAgent \<Rightarrow> AutonomousAgent \<Rightarrow> bool" where
  "quiet libs S a a' \<longleftrightarrow> static a' = static a \<and> counters a' = counters a
     \<and> (\<exists>es. effects a' = effects a @ es \<and> list_all (calm libs (scanner a) S) es)"

named_theorems quiet_intros

lemma quiet_refl [quiet_intros]: "quiet libs S a a"
  by (simp add: quiet_def)

lemma quiet_trans:
  assumes "quiet libs S a b" "quiet libs S b c"
  shows "quiet libs S a c"
proof -
  have "scanner b = scanner a" using assms(1) by (simp add: quiet_def static_def)
  then show ?thesis using assms by (fastforce simp: quiet_def)
qed

lemma quiet_log: "calm libs (scanner a) S e \<Longrightarrow> quiet libs S a (log_effect e a)"
  by (simp add: quiet_def log_effect_def static_def counters_def)

lemma quiet_emit [quiet_intros]: "quiet libs S a (emit_event e a)"
  by (simp add: emit_event_def quiet_refl quiet_log)

lemma quiet_unlogged:
  assumes "static a' = static a" "counters a' = counters a" "effects a' = effects a"
  shows "quiet libs S a a'"
  using assms by (simp add: quiet_def)

lemma quiet_session [quiet_intros]: "quiet libs S a (on_session f a)"
  by (rule quiet_unlogged) (simp_all add: on_session_def static_def counters_def)

lemma quiet_provenance [quiet_intros]: "quiet libs S a (record_provenance libs now src st uri content b a)"
  by (rule quiet_unlogged) (simp_all add: record_provenance_def static_def counters_def)

lemma quiet_then_emit: "quiet libs S a b \<Longrightarrow> quiet libs S a (emit_event e b)"
  by (rule quiet_trans [OF _ quiet_emit])

lemma quiet_then_provenance:
  "quiet libs S a b \<Longrightarrow> quiet libs S a (record_provenance libs now src st uri content p b)"
  by (rule quiet_trans [OF _ quiet_provenance])

lemma quiet_failures: "quiet libs S a (a\<lparr>consecutive_failures := n\<rparr>)"
  by (rule quiet_unlogged) (simp_all add: static_def counters_def)

lemma quiet_scanner: "quiet libs S a a' \<Longrightarrow> scanner a' = scanner a"
  by (simp add: quiet_def static_def)

lemma quiet_observe_tool [quiet_intros]:
  assumes "content = screen (rule_order libs) (scanner a) raw" "ok \<Longrightarrow> From_Tool ps raw \<in> S"
  shows "quiet libs S a (ccos_observe_tool libs ce name ps content ok a)"
proof (cases "path_arg ps")
  case None
  then show ?thesis
    by (auto simp: ccos_observe_tool_def intro: quiet_refl quiet_log split: option.split)
next
  case (Some p)
  have "calm libs (scanner a) S (Ingested (''file:'' @ p) (sc_text content))"
    if "is_persistable (sc_trust content)" ok
    using assms that Some unfolding calm.simps screened_def by blast
  then have "quiet libs S a (if is_persistable (sc_trust content) then log_effect (Ingested (''file:'' @ p) (sc_text content)) a
      else emit_event e a)" if ok for e
    using that by (simp add: quiet_log quiet_emit del: calm.simps)
  then show ?thesis
    using Some by (auto simp: ccos_observe_tool_def Let_def simp del: append.simps
        intro!: quiet_then_provenance intro: quiet_refl quiet_log)
qed

lemma quiet_remember:
  assumes "content = screen (rule_order libs) (scanner a) raw" "From_Model raw \<in> S"
  shows "quiet libs S a (remember_observation libs now src content a)"
proof -
  have "is_persistable (sc_trust content) \<Longrightarrow> calm libs (scanner a) S (Remembered (trim (sc_text content)))"
    using assms unfolding calm.simps screened_def by blast
  then have "quiet libs S a (if is_persistable (sc_trust content) then log_effect (Remembered (trim (sc_text content))) a
      else a)"
    by (simp add: quiet_log quiet_refl del: calm.simps)
  then show ?thesis
    by (auto simp: remember_observation_def Let_def intro: quiet_then_provenance quiet_refl)
qed

lemma quiet_observe_untrusted:
  "From_Model s \<in> S \<Longrightarrow> quiet libs S a (observe_untrusted libs now src s a)"
  by (simp add: observe_untrusted_def quiet_remember)

lemma quiet_screen_tool [quiet_intros]: "quiet libs S a (snd (screen_tool_output libs tool output a))"
  by (simp add: screen_tool_output_def Let_def quiet_emit quiet_refl split: TrustLevel.split)

lemma quiet_fold_emit: "quiet libs S a (fold (\<lambda>r. emit_event (SafetyWarning r)) rs a)"
  by (induction rs arbitrary: a) (auto intro: quiet_refl quiet_trans quiet_emit)

lemma quiet_auto_repair: "quiet libs S a (snd (auto_repair a))"
  by (rule quiet_unlogged)
     (simp_all add: auto_repair_def Let_def static_def counters_def)

lemma quiet_repair [quiet_intros]: "quiet libs S a (repair_and_warn a)"
  using quiet_trans [OF quiet_auto_repair quiet_fold_emit]
  by (simp add: repair_and_warn_def split: prod.split) (metis snd_conv)

lemma quiet_with_run:
  assumes "\<And>x. r = Returned x \<Longrightarrow> quiet libs S a (snd (f x a))"
  shows "quiet libs S a (snd (with_run r f a))"
  using assms by (cases r) (auto simp: with_run_def quiet_refl)

lemma quiet_and_then:
  assumes "quiet libs S a (snd r)" "\<And>x b. r = (Gives x, b) \<Longrightarrow> quiet libs S b (snd (f x b))"
  shows "quiet libs S a (snd (and_then r f))"
  using assms by (cases r; cases "fst r") (auto simp: and_then_def intro: quiet_trans)

lemma quiet_inject [quiet_intros]: "quiet libs S a (snd (inject_ccos_working_set te a))"
  unfolding inject_ccos_working_set_def Let_def
  by (auto intro!: quiet_with_run quiet_refl intro: quiet_trans [OF quiet_session quiet_emit])

lemma quiet_compact [quiet_intros]: "quiet libs S a (snd (compact_if_needed libs te a))"
  unfolding compact_if_needed_def Let_def
  by (auto intro!: quiet_with_run quiet_refl quiet_session split: sum.split
      intro: quiet_trans [OF quiet_session quiet_inject])

lemma quiet_record_outcome:
  assumes "content = screen (rule_order libs) (scanner a) raw" "ok \<Longrightarrow> From_Tool ps raw \<in> S"
  shows "quiet libs S a (snd (record_tool_outcome libs ce name ps content ok a))"
proof -
  have "quiet libs S b (b\<lparr>planner := p\<rparr>)" for b p
    by (rule quiet_unlogged) (simp_all add: static_def counters_def)
  then have "quiet libs S b (snd (with_run (truncate_output (print_json libs ps) 100) (\<lambda>shown.
     with_run (truncate_output (sc_text content) 200) (\<lambda>result a.
       let cmd = name @ ''('' @ shown @ '')'';
           a = a\<lparr>planner := (planner a)\<lparr>ahistory := ah_record (nat (ce_now ce)) cmd result ok (ahistory (planner a))\<rparr>\<rparr>
       in (Gives (), record_provenance libs (ce_now ce) (ToolOutput name) PlannerHistory cmd content True a))) b))" for b
    by (intro quiet_with_run) (auto simp: Let_def intro: quiet_then_provenance)
  then show ?thesis
    unfolding record_tool_outcome_def using quiet_trans [OF quiet_observe_tool [OF assms]] by blast
qed

section \<open>The trail of a run\<close>

definition call_allowed :: "ApprovalGate \<Rightarrow> string \<Rightarrow> json \<Rightarrow> bool" where
  "call_allowed g name ps \<longleftrightarrow>
     evaluate g name (call_scope name ps) (permission_requirement (call_permission name ps)) = Allow"

text \<open>Whether the latch was read since the last dispatched call and the latest read found no latch file,
  starting from \<open>b\<close>.\<close>

fun latch_clear :: "bool \<Rightarrow> agent_effect list \<Rightarrow> bool" where
  "latch_clear b [] = b"
| "latch_clear b (Latch_Read r # es) = latch_clear (r = None) es"
| "latch_clear b (Dispatched name ps ops res # es) = latch_clear False es"
| "latch_clear b (_ # es) = latch_clear b es"

text \<open>Every dispatched call has been allowed by the gate, and the latch was read for it, after every earlier
  call, and found clear: one read serves one call.\<close>

fun guarded :: "ApprovalGate \<Rightarrow> bool \<Rightarrow> agent_effect list \<Rightarrow> bool" where
  "guarded g b [] = True"
| "guarded g b (Latch_Read r # es) = guarded g (r = None) es"
| "guarded g b (Dispatched name ps ops res # es) = (b \<and> call_allowed g name ps \<and> guarded g False es)"
| "guarded g b (_ # es) = guarded g b es"

fun is_dispatch :: "agent_effect \<Rightarrow> bool" where
  "is_dispatch (Dispatched name ps ops res) = True"
| "is_dispatch _ = False"

fun is_write :: "agent_effect \<Rightarrow> bool" where
  "is_write (Dispatched name ps ops res) = (call_permission name ps \<noteq> Read)"
| "is_write _ = False"

fun requests_of :: "agent_effect \<Rightarrow> nat" where
  "requests_of (Requests n answer) = n"
| "requests_of _ = 0"

fun is_request :: "agent_effect \<Rightarrow> bool" where
  "is_request (Requests n answer) = True"
| "is_request _ = False"

definition tally :: "('a \<Rightarrow> bool) \<Rightarrow> 'a list \<Rightarrow> nat" where
  "tally P xs = length (filter P xs)"

lemma tally_simps [simp]:
  "tally P [] = 0" "tally P (x # xs) = (if P x then Suc (tally P xs) else tally P xs)"
  "tally P (xs @ ys) = tally P xs + tally P ys"
  by (simp_all add: tally_def)

fun effect_ok :: "agent_libs \<Rightarrow> InjectionScanner \<Rightarrow> nat \<Rightarrow> source set \<Rightarrow> agent_effect \<Rightarrow> bool" where
  "effect_ok libs sc m S (Dispatched name ps ops res) = True"
| "effect_ok libs sc m S (Latch_Read r) = True"
| "effect_ok libs sc m S (Requests n answer) = (n \<le> m)"
| "effect_ok libs sc m S e = calm libs sc S e"

lemma effect_ok_mono: "effect_ok libs sc m S e \<Longrightarrow> S \<subseteq> T \<Longrightarrow> effect_ok libs sc m T e"
  using calm_mono [of libs sc S e T]
  by (cases e) (simp_all del: calm.simps)

lemma effects_ok_mono:
  "list_all (effect_ok libs sc m S) es \<Longrightarrow> S \<subseteq> T \<Longrightarrow> list_all (effect_ok libs sc m T) es"
  by (auto simp: list_all_iff intro: effect_ok_mono)

lemma guarded_append: "guarded g b (es @ fs) \<longleftrightarrow> guarded g b es \<and> guarded g (latch_clear b es) fs"
  by (induction g b es rule: guarded.induct) auto

lemma latch_clear_append: "latch_clear b (es @ fs) = latch_clear (latch_clear b es) fs"
  by (induction b es rule: latch_clear.induct) auto

lemma calm_effects:
  assumes "list_all (calm libs sc S) es"
  shows "guarded g b es" "latch_clear b es = b" "tally is_dispatch es = 0" "tally is_write es = 0"
    "tally is_request es = 0" "list_all (effect_ok libs sc m S) es"
proof -
  have one: "guarded g b (e # es) = guarded g b es \<and> latch_clear b (e # es) = latch_clear b es
      \<and> \<not> is_dispatch e \<and> \<not> is_write e \<and> \<not> is_request e \<and> effect_ok libs sc m S e"
    if "calm libs sc S e" for e es
    using that by (cases e) auto
  show "guarded g b es" "latch_clear b es = b" "tally is_dispatch es = 0" "tally is_write es = 0"
    "tally is_request es = 0" "list_all (effect_ok libs sc m S) es"
    using assms by (induction es) (simp_all add: one)
qed

text \<open>The invariant of a run that began in the state \<open>a0\<close>: \<open>n\<close> bounds the calls of the language model.\<close>

definition request_limit :: "AutonomousAgent \<Rightarrow> nat" where
  "request_limit a = max 1 (unat (max_attempts (llm_retry a)))"

definition run_inv :: "agent_libs \<Rightarrow> AutonomousAgent \<Rightarrow> nat \<Rightarrow> AutonomousAgent \<Rightarrow> bool" where
  "run_inv libs a0 n a \<longleftrightarrow> static a = static a0 \<and> (\<exists>es. effects a = effects a0 @ es
     \<and> list_all (effect_ok libs (scanner a0) (request_limit a0) (sources es)) es \<and> guarded (gate a0) False es
     \<and> tally is_dispatch es \<le> tool_call_count a \<and> tally is_dispatch es \<le> max_tool_calls (ag_config a0)
     \<and> tally is_write es \<le> write_operation_count a \<and> tally is_write es \<le> max_write_operations (ag_config a0)
     \<and> tally is_request es \<le> n)"

definition armed :: "AutonomousAgent \<Rightarrow> AutonomousAgent \<Rightarrow> bool" where
  "armed a0 a \<longleftrightarrow> latch_clear False (drop (length (effects a0)) (effects a))"

text \<open>The sources of a run so far.\<close>

definition trail :: "AutonomousAgent \<Rightarrow> AutonomousAgent \<Rightarrow> source set" where
  "trail a0 a = sources (drop (length (effects a0)) (effects a))"

lemma static_parts:
  assumes "static a = static b"
  shows "ag_config a = ag_config b" "llm_retry a = llm_retry b" "scanner a = scanner b" "gate a = gate b"
    "emergency_stop a = emergency_stop b" "running a = running b" "request_limit a = request_limit b"
  using assms by (auto simp: static_def request_limit_def)

lemma run_inv_config: "run_inv libs a0 n a \<Longrightarrow> ag_config a = ag_config a0"
  by (auto simp: run_inv_def dest: static_parts(1))

lemma run_inv_start: "run_inv libs a n a"
  by (simp add: run_inv_def)

lemma run_inv_mono: "run_inv libs a0 n a \<Longrightarrow> n \<le> m \<Longrightarrow> run_inv libs a0 m a"
  by (auto simp: run_inv_def)

lemma run_inv_append:
  assumes "static b = static a0" "effects a = effects a0 @ es" "effects b = effects a @ fs"
    "list_all (effect_ok libs (scanner a0) (request_limit a0) (sources es)) es"
    "list_all (effect_ok libs (scanner a0) (request_limit a0) (sources (es @ fs))) fs"
    "guarded (gate a0) False es" "guarded (gate a0) (latch_clear False es) fs"
    "tally is_dispatch (es @ fs) \<le> tool_call_count b" "tally is_dispatch (es @ fs) \<le> max_tool_calls (ag_config a0)"
    "tally is_write (es @ fs) \<le> write_operation_count b" "tally is_write (es @ fs) \<le> max_write_operations (ag_config a0)"
    "tally is_request (es @ fs) \<le> n"
  shows "run_inv libs a0 n b"
  unfolding run_inv_def using assms effects_ok_mono [OF assms(4), of "sources (es @ fs)"]
  by (intro conjI exI [of _ "es @ fs"]) (simp_all add: guarded_append)

lemma run_inv_quiet:
  assumes "run_inv libs a0 n a" "quiet libs (trail a0 a) a a'"
  shows "run_inv libs a0 n a' \<and> (armed a0 a \<longrightarrow> armed a0 a')"
proof -
  obtain es where es: "effects a = effects a0 @ es" and rest: "static a = static a0"
      "list_all (effect_ok libs (scanner a0) (request_limit a0) (sources es)) es" "guarded (gate a0) False es"
      "tally is_dispatch es \<le> tool_call_count a" "tally is_dispatch es \<le> max_tool_calls (ag_config a0)"
      "tally is_write es \<le> write_operation_count a" "tally is_write es \<le> max_write_operations (ag_config a0)"
      "tally is_request es \<le> n"
    using assms(1) by (auto simp: run_inv_def)
  obtain fs where fs: "effects a' = effects a @ fs" "list_all (calm libs (scanner a0) (sources es)) fs"
      and same: "static a' = static a0" "tool_call_count a' = tool_call_count a"
        "write_operation_count a' = write_operation_count a"
    using assms(2) es rest(1) static_parts(3) [OF rest(1)] by (auto simp: quiet_def counters_def trail_def)
  note c = calm_effects [OF fs(2)]
  have "run_inv libs a0 n a'"
    using rest same c effects_ok_mono [OF c(6), of "sources (es @ fs)"]
    by (intro run_inv_append [OF _ es fs(1)]) simp_all
  then show ?thesis using es fs(1) c(2) by (simp add: armed_def latch_clear_append)
qed

lemma run_inv_latch:
  assumes "run_inv libs a0 n a" "check_latch fs a = (why, a')"
  shows "run_inv libs a0 n a' \<and> counters a' = counters a \<and> (armed a0 a' \<longleftrightarrow> why = None)"
proof -
  obtain es where es: "effects a = effects a0 @ es"
    using assms(1) by (auto simp: run_inv_def)
  then have "effects a' = effects a0 @ es @ [Latch_Read why]" "static a' = static a" "counters a' = counters a"
      "tool_call_count a' = tool_call_count a" "write_operation_count a' = write_operation_count a"
    using assms(2) by (auto simp: check_latch_def Let_def log_effect_def static_def counters_def split: if_splits)
  then show ?thesis
    using assms(1) es
    by (auto simp: run_inv_def armed_def guarded_append latch_clear_append intro!: exI [of _ "es @ [Latch_Read why]"])
qed

definition counted :: "bool \<Rightarrow> AutonomousAgent \<Rightarrow> AutonomousAgent" where
  "counted w a = a\<lparr>tool_call_count := tool_call_count a + 1,
     write_operation_count := write_operation_count a + (if w then 1 else 0)\<rparr>"

lemma run_inv_counted:
  assumes "run_inv libs a0 n a"
  shows "run_inv libs a0 n (counted w a)" "armed a0 (counted w a) \<longleftrightarrow> armed a0 a"
proof -
  have "static (counted w a) = static a" "effects (counted w a) = effects a"
      "tool_call_count (counted w a) = Suc (tool_call_count a)"
      "write_operation_count a \<le> write_operation_count (counted w a)"
    by (auto simp: counted_def static_def)
  with assms show "run_inv libs a0 n (counted w a)" "armed a0 (counted w a) \<longleftrightarrow> armed a0 a"
    by (fastforce simp: run_inv_def armed_def)+
qed

lemma run_inv_dispatch:
  assumes "run_inv libs a0 n a" "armed a0 a" "call_allowed (gate a) name ps"
    "tool_call_count a + 1 \<le> max_tool_calls (ag_config a)"
    "call_permission name ps \<noteq> Read \<Longrightarrow> write_operation_count a + 1 \<le> max_write_operations (ag_config a)"
  shows "run_inv libs a0 n (log_effect (Dispatched name ps ops res) (counted (call_permission name ps \<noteq> Read) a))"
proof -
  obtain es where es: "effects a = effects a0 @ es" and rest: "static a = static a0"
      "list_all (effect_ok libs (scanner a0) (request_limit a0) (sources es)) es" "guarded (gate a0) False es"
      "tally is_dispatch es \<le> tool_call_count a" "tally is_write es \<le> write_operation_count a"
      "tally is_write es \<le> max_write_operations (ag_config a0)" "tally is_request es \<le> n"
    using assms(1) by (auto simp: run_inv_def)
  have "latch_clear False es" using assms(2) es by (simp add: armed_def)
  moreover have "static (log_effect e (counted w a)) = static a0"
      "effects (log_effect e (counted w a)) = effects a @ [e]" for e w
    using rest(1) by (simp_all add: log_effect_def counted_def static_def)
  ultimately show ?thesis
    using rest assms(3-5) static_parts [OF rest(1)]
    by (intro run_inv_append [OF _ es]) (auto simp: log_effect_def counted_def)
qed

lemma run_inv_requests:
  assumes "run_inv libs a0 n a" "sent \<le> request_limit a"
  shows "run_inv libs a0 (Suc n) (log_effect (Requests sent answer) a)"
proof -
  obtain es where es: "effects a = effects a0 @ es" and rest: "static a = static a0"
      "list_all (effect_ok libs (scanner a0) (request_limit a0) (sources es)) es" "guarded (gate a0) False es"
      "tally is_dispatch es \<le> tool_call_count a" "tally is_dispatch es \<le> max_tool_calls (ag_config a0)"
      "tally is_write es \<le> write_operation_count a" "tally is_write es \<le> max_write_operations (ag_config a0)"
      "tally is_request es \<le> n"
    using assms(1) by (auto simp: run_inv_def)
  have "static (log_effect e a) = static a0" "effects (log_effect e a) = effects a @ [e]" for e
    using rest(1) by (simp_all add: log_effect_def static_def)
  then show ?thesis
    using rest assms(2) static_parts(7) [OF rest(1)]
    by (intro run_inv_append [OF _ es]) (auto simp: log_effect_def)
qed

section \<open>One tool call\<close>

text \<open>The effect of a dispatched call.\<close>

definition dispatch_effect :: "call_env \<Rightarrow> string \<Rightarrow> json \<Rightarrow> agent_effect" where
  "dispatch_effect ce name ps =
     (case async_dispatch_tool (ce_os ce) name ps of (outcome, ops) \<Rightarrow> Dispatched name ps ops outcome)"

lemma dispatch_call_shape:
  shows "quiet libs S (log_effect (dispatch_effect ce name ps) a) (snd (dispatch_call libs ce name ps a))"
    and "dispatch_call libs ce name ps a = (Gives (x, True), b)
      \<Longrightarrow> From_Tool ps x \<in> effect_sources (dispatch_effect ce name ps)"
proof -
  obtain r ops where call: "async_dispatch_tool (ce_os ce) name ps = (r, ops)"
    by fastforce
  let ?b = "log_effect (Dispatched name ps ops r) a"
  show "From_Tool ps x \<in> effect_sources (dispatch_effect ce name ps)"
    if "dispatch_call libs ce name ps a = (Gives (x, True), b)"
    using that call
    by (auto simp: dispatch_call_def dispatch_effect_def with_run_def Let_def
        split: tool_run.splits sum.splits run.splits)
  have "quiet libs S ?b (snd (dispatch_call libs ce name ps a))"
  proof (cases r)
    case (Gives x)
    have "quiet libs S ?b (snd (with_run t (\<lambda>shown a. (Gives (s, True), emit_event (Tool_Result_Event name shown True) a))
        (?b\<lparr>consecutive_failures := 0\<rparr>)))" for t s
      by (rule quiet_trans [OF quiet_failures quiet_with_run]) (simp add: quiet_emit)
    moreover have "quiet libs S ?b (repair_and_warn (emit_event e (?b\<lparr>consecutive_failures := m\<rparr>)))" for e m
      by (intro quiet_trans [OF quiet_trans [OF quiet_failures quiet_emit] quiet_repair])
    ultimately show ?thesis
      using Gives call by (cases x) (simp_all add: dispatch_call_def Let_def)
  qed (simp_all add: dispatch_call_def call Let_def quiet_refl)
  then show "quiet libs S (log_effect (dispatch_effect ce name ps) a) (snd (dispatch_call libs ce name ps a))"
    by (simp add: dispatch_effect_def call)
qed

lemma quiet_record_result:
  assumes "ok \<Longrightarrow> From_Tool ps result \<in> S"
  shows "quiet libs S a (snd (record_result libs ce tc ps result ok a))"
proof -
  obtain c b where scr: "screen_tool_output libs (tc_name tc) result a = (c, b)"
    by fastforce
  have q: "quiet libs S a b" using quiet_screen_tool [of libs S a "tc_name tc" result] scr by simp
  have c: "c = screen (rule_order libs) (scanner b) result"
    using scr quiet_scanner [OF q] by (auto simp: screen_tool_output_def Let_def)
  have "quiet libs S b (snd (and_then (record_tool_outcome libs ce (tc_name tc) ps c ok b) (\<lambda>_.
         with_run (truncate_output (sc_text c) 3000)
           (\<lambda>shown a. (Gives (), on_session (add_tool_result (tc_id tc) shown) a)))))"
    by (rule quiet_and_then [OF quiet_record_outcome [OF c assms] quiet_with_run]) (simp_all add: quiet_session)
  then show ?thesis using quiet_trans [OF q] by (simp add: record_result_def scr)
qed

lemma audit_write_cases: "audit_write libs tc ps a = (Gives (), a) \<or> audit_write libs tc ps a = (Panics, a)"
  by (auto simp: audit_write_def with_run_def split: run.split)

lemma perform_call_dispatched:
  assumes "audit_write libs tc ps a = (Gives (), a)"
    "effect_sources (dispatch_effect ce (tc_name tc) ps) \<subseteq> S"
  shows "quiet libs S (log_effect (dispatch_effect ce (tc_name tc) ps) a) (snd (perform_call libs ce tc ps a))"
proof -
  have "perform_call libs ce tc ps a = and_then (dispatch_call libs ce (tc_name tc) ps a) (\<lambda>(result, tool_ok).
       record_result libs ce tc ps result tool_ok)"
    by (simp add: perform_call_def assms(1)) (simp add: and_then_def)
  then show ?thesis
    using assms(2) dispatch_call_shape(2) [of libs ce "tc_name tc" ps a]
    by (auto intro!: quiet_and_then [OF dispatch_call_shape(1)] quiet_record_result)
qed

lemma perform_call_shape:
  assumes "effect_sources (dispatch_effect ce (tc_name tc) ps) \<subseteq> S"
  shows "quiet libs S a (snd (perform_call libs ce tc ps a))
   \<or> quiet libs S (log_effect (dispatch_effect ce (tc_name tc) ps) a) (snd (perform_call libs ce tc ps a))"
  using audit_write_cases [of libs tc ps a] perform_call_dispatched [OF _ assms]
  by (auto simp: perform_call_def and_then_def quiet_refl)

lemma quiet_block [quiet_intros]: "quiet libs S a (snd (block_call tc msg a))"
  by (simp add: block_call_def quiet_trans [OF quiet_emit quiet_session])

lemma counters_perform:
  "turn (snd (perform_call libs ce tc ps a)) = turn a
   \<and> provider_attempts_spent (snd (perform_call libs ce tc ps a)) = provider_attempts_spent a"
  using perform_call_shape [OF subset_UNIV, of libs a ce tc ps] by (auto simp: quiet_def counters_def log_effect_def)

lemma counted_False: "counted False a = a\<lparr>tool_call_count := Suc (tool_call_count a)\<rparr>"
  by (cases a) (simp add: counted_def)

definition call_args :: "agent_libs \<Rightarrow> ToolCall \<Rightarrow> json" where
  "call_args libs tc = (case parse_json libs (tc_arguments tc) of Some v \<Rightarrow> v | None \<Rightarrow> JObject [])"

definition changes_state :: "agent_libs \<Rightarrow> ToolCall \<Rightarrow> bool" where
  "changes_state libs tc \<longleftrightarrow> call_permission (tc_name tc) (call_args libs tc) \<noteq> Read"

lemma handle_tool_call_unblocked:
  assumes "check_latch (ce_files ce) (emit_event (Tool_Call_Event (tc_name tc) (call_args libs tc)) a) = (None, b)"
  shows "(if tool_call_count b < max_tool_calls (ag_config b)
      \<and> (changes_state libs tc \<longrightarrow> write_operation_count b < max_write_operations (ag_config b))
      \<and> call_allowed (gate b) (tc_name tc) (call_args libs tc)
    then handle_tool_call libs ce tc a = perform_call libs ce tc (call_args libs tc) (counted (changes_state libs tc) b)
    else \<exists>v msg. handle_tool_call libs ce tc a = block_call tc msg (counted v b))"
proof -
  let ?ps = "call_args libs tc" and ?w = "changes_state libs tc"
  have cfg: "ag_config (emit_event (Tool_Call_Event (tc_name tc) ?ps) a) = ag_config b"
    using assms by (auto simp: check_latch_def Let_def log_effect_def)
  have sel: "tool_call_count (counted v b) = Suc (tool_call_count b)"
      "write_operation_count (counted True b) = Suc (write_operation_count b)" for v
    by (simp_all add: counted_def)
  have cw: "counted ?w b =
      (if call_permission (tc_name tc) ?ps \<noteq> Read
       then b\<lparr>tool_call_count := Suc (tool_call_count b), write_operation_count := Suc (write_operation_count b)\<rparr>
       else b\<lparr>tool_call_count := Suc (tool_call_count b)\<rparr>)"
    by (cases b) (simp add: changes_state_def counted_def)
  have "handle_tool_call libs ce tc a =
     (if tool_call_count (counted ?w b) > max_tool_calls (ag_config b)
      then block_call tc (''BLOCKED: tool-call budget exceeded ('' @ show_nat (tool_call_count (counted ?w b))
             @ ''/'' @ show_nat (max_tool_calls (ag_config b)) @ '')'') (counted False b)
      else if ?w \<and> write_operation_count (counted ?w b) > max_write_operations (ag_config b)
      then block_call tc (''BLOCKED: write-operation budget exceeded (''
             @ show_nat (write_operation_count (counted ?w b)) @ ''/'' @ show_nat (max_write_operations (ag_config b))
             @ '')'') (counted ?w b)
      else case evaluate (gate b) (tc_name tc) (call_scope (tc_name tc) ?ps)
               (permission_requirement (call_permission (tc_name tc) ?ps)) of
             Allow \<Rightarrow> perform_call libs ce tc ?ps (counted ?w b)
           | Deny why \<Rightarrow> block_call tc (''BLOCKED by approval gate: '' @ why) (counted ?w b)
           | Pause why \<Rightarrow> block_call tc (''BLOCKED by approval gate: '' @ why) (counted ?w b))"
    unfolding handle_tool_call_def call_args_def [symmetric] cw
    using assms cfg by (simp add: Let_def changes_state_def counted_False)
  then show ?thesis
    unfolding call_allowed_def
    by (cases "evaluate (gate b) (tc_name tc) (call_scope (tc_name tc) ?ps)
          (permission_requirement (call_permission (tc_name tc) ?ps))"; cases ?w)
       (auto simp: sel)
qed

lemma handle_tool_call_blocked:
  assumes "check_latch (ce_files ce) (emit_event (Tool_Call_Event (tc_name tc) (call_args libs tc)) a) = (Some why, b)"
  shows "handle_tool_call libs ce tc a = block_call tc (''BLOCKED: emergency stop is active ('' @ why @ '')'') b"
  unfolding handle_tool_call_def call_args_def [symmetric] using assms by (simp add: Let_def)

lemma trail_log: "effects a = effects a0 @ es \<Longrightarrow> trail a0 (log_effect e a) = trail a0 a \<union> effect_sources e"
  by (auto simp: trail_def log_effect_def)

text \<open>A call that passed the guards and was counted.\<close>

lemma perform_call_run:
  assumes "run_inv libs a0 n b" "armed a0 b" "call_allowed (gate b) (tc_name tc) ps"
    "tool_call_count b + 1 \<le> max_tool_calls (ag_config b)"
    "call_permission (tc_name tc) ps \<noteq> Read \<longrightarrow> write_operation_count b + 1 \<le> max_write_operations (ag_config b)"
    "w = (call_permission (tc_name tc) ps \<noteq> Read)"
  shows "run_inv libs a0 n (snd (perform_call libs ce tc ps (counted w b)))"
proof -
  obtain r ops where "async_dispatch_tool (ce_os ce) (tc_name tc) ps = (r, ops)" by fastforce
  then have d: "dispatch_effect ce (tc_name tc) ps = Dispatched (tc_name tc) ps ops r"
    by (simp add: dispatch_effect_def)
  let ?d = "dispatch_effect ce (tc_name tc) ps"
  have inv: "run_inv libs a0 n (counted w b)" "run_inv libs a0 n (log_effect ?d (counted w b))"
    using run_inv_counted [OF assms(1)] run_inv_dispatch [OF assms(1-4)] assms(5,6) by (auto simp: d)
  then obtain es where "effects (counted w b) = effects a0 @ es" by (auto simp: run_inv_def)
  then have trail: "effect_sources ?d \<subseteq> trail a0 (log_effect ?d (counted w b))" by (simp add: trail_log)
  show ?thesis
  proof (cases "audit_write libs tc ps (counted w b) = (Gives (), counted w b)")
    case True
    then show ?thesis using run_inv_quiet [OF inv(2) perform_call_dispatched [OF _ trail]] by blast
  next
    case False
    then have "snd (perform_call libs ce tc ps (counted w b)) = counted w b"
      using audit_write_cases [of libs tc ps "counted w b"] by (auto simp: perform_call_def and_then_def)
    then show ?thesis using inv(1) by simp
  qed
qed

lemma handle_tool_call_run:
  assumes "run_inv libs a0 n a"
  shows "run_inv libs a0 n (snd (handle_tool_call libs ce tc a))
    \<and> turn (snd (handle_tool_call libs ce tc a)) = turn a
    \<and> provider_attempts_spent (snd (handle_tool_call libs ce tc a)) = provider_attempts_spent a"
proof -
  let ?ps = "call_args libs tc" and ?w = "changes_state libs tc"
  define a1 where "a1 = emit_event (Tool_Call_Event (tc_name tc) ?ps) a"
  obtain why b where latch: "check_latch (ce_files ce) a1 = (why, b)" by fastforce
  have q1: "quiet libs (trail a0 a) a a1" by (simp add: a1_def quiet_emit)
  have inv: "run_inv libs a0 n b" "counters b = counters a1" "armed a0 b \<longleftrightarrow> why = None"
    using run_inv_latch [OF conjunct1 [OF run_inv_quiet [OF assms q1]] latch] by auto
  have base: "turn b = turn a" "provider_attempts_spent b = provider_attempts_spent a"
    using inv(2) q1 by (auto simp: quiet_def counters_def)
  have blocked: "run_inv libs a0 n (snd (block_call tc msg c)) \<and> turn (snd (block_call tc msg c)) = turn a
      \<and> provider_attempts_spent (snd (block_call tc msg c)) = provider_attempts_spent a"
    if "run_inv libs a0 n c" "turn c = turn a" "provider_attempts_spent c = provider_attempts_spent a" for msg c
    using that run_inv_quiet [OF that(1) quiet_block] quiet_block [of libs "{}" c tc msg]
    by (auto simp: quiet_def counters_def)
  have counts: "run_inv libs a0 n (counted v b) \<and> turn (counted v b) = turn a
      \<and> provider_attempts_spent (counted v b) = provider_attempts_spent a" for v
    using run_inv_counted [OF inv(1)] base by (auto simp: counted_def)
  show ?thesis
  proof (cases why)
    case (Some r)
    then show ?thesis
      using handle_tool_call_blocked latch blocked inv(1) base unfolding a1_def by metis
  next
    case None
    have allowed: "run_inv libs a0 n (snd (perform_call libs ce tc ?ps (counted ?w b)))"
      if "call_allowed (gate b) (tc_name tc) ?ps" "tool_call_count b + 1 \<le> max_tool_calls (ag_config b)"
        "?w \<longrightarrow> write_operation_count b + 1 \<le> max_write_operations (ag_config b)"
      by (rule perform_call_run) (use counts [of ?w] inv None that in \<open>auto simp: changes_state_def\<close>)
    show ?thesis
      using handle_tool_call_unblocked [OF latch [unfolded None a1_def]] allowed counts blocked
        counters_perform [of libs ce tc ?ps "counted ?w b"]
      by (auto simp: Suc_le_eq split: if_splits)
  qed
qed

lemma handle_tool_calls_run:
  assumes "run_inv libs a0 n a"
  shows "run_inv libs a0 n (snd (handle_tool_calls libs ce i tcs a))
    \<and> turn (snd (handle_tool_calls libs ce i tcs a)) = turn a
    \<and> provider_attempts_spent (snd (handle_tool_calls libs ce i tcs a)) = provider_attempts_spent a"
  using assms
proof (induction tcs arbitrary: i a)
  case (Cons tc tcs)
  note one = handle_tool_call_run [OF Cons.prems, of "ce i" tc]
  obtain r b where step: "handle_tool_call libs (ce i) tc a = (r, b)" by fastforce
  show ?case
    using Cons.IH [of b "Suc i"] one step by (cases r) (auto simp: and_then_def)
qed simp

section \<open>One turn\<close>

lemma turn_guard_run:
  assumes "run_inv libs a0 n a" "turn_guard te a = (err, b)"
  shows "run_inv libs a0 n b" "counters b = counters a"
  using assms run_inv_latch [OF assms(1), of "te_files te"]
  by (auto simp: turn_guard_def split: if_splits option.splits prod.splits)

lemma quiet_turn_context: "quiet libs S (a\<lparr>turn := turn a + 1\<rparr>) (turn_context te a)"
  by (auto simp: turn_context_def Let_def intro!: quiet_session quiet_refl
      intro: quiet_trans [OF quiet_trans [OF quiet_emit quiet_session] quiet_session]
        quiet_trans [OF quiet_emit quiet_session])

lemma turn_context_run:
  assumes "run_inv libs a0 n a"
  shows "run_inv libs a0 n (turn_context te a) \<and> turn (turn_context te a) = Suc (turn a)
    \<and> provider_attempts_spent (turn_context te a) = provider_attempts_spent a"
proof -
  have "run_inv libs a0 n (a\<lparr>turn := turn a + 1\<rparr>)"
    using assms by (auto simp: run_inv_def static_def)
  then show ?thesis
    using run_inv_quiet quiet_turn_context [of libs "trail a0 (a\<lparr>turn := turn a + 1\<rparr>)" a te] by (fastforce simp: quiet_def counters_def)
qed

lemma client_chat_sent: "snd (client_chat te pol) \<le> max 1 (unat (max_attempts pol))"
  using with_retry_from_sent [of 1 "te_retry te" pol "te_answers te"]
  by (auto simp: client_chat_def with_retry_def split: sum.split prod.split)

lemma guarded_chat_run:
  assumes "run_inv libs a0 n a" "guarded_llm_chat_typed libs te a = (r, b)"
  shows "run_inv libs a0 (Suc n) b \<and> counters b = counters a"
    and "r = Inr resp \<Longrightarrow> resp_content resp = Some s \<Longrightarrow> From_Model s \<in> trail a0 b"
proof -
  have breaker: "run_inv libs a0 n (a\<lparr>llm_breaker := c\<rparr>)" "counters (a\<lparr>llm_breaker := c\<rparr>) = counters a"
      "request_limit (a\<lparr>llm_breaker := c\<rparr>) = request_limit a" for c
    using assms(1) by (auto simp: run_inv_def static_def counters_def request_limit_def)
  have logged: "run_inv libs a0 (Suc n) (log_effect (Requests m answer) (a\<lparr>llm_breaker := c\<rparr>))"
    if "m \<le> request_limit a" for m c answer
    using run_inv_requests [OF breaker(1)] that breaker(3) by simp
  obtain answer all_sent where chat: "client_chat te (llm_retry a) = (answer, all_sent)" by fastforce
  then have "all_sent \<le> request_limit a"
    using client_chat_sent [of te "llm_retry a"] by (simp add: request_limit_def)
  then have sent: "(case te_timeout te of None \<Rightarrow> all_sent | Some m \<Rightarrow> min m all_sent) \<le> request_limit a"
    by (auto split: option.split)
  show "run_inv libs a0 (Suc n) b \<and> counters b = counters a"
    using assms(2) logged [OF sent] breaker run_inv_mono [OF breaker(1), of "Suc n"]
    by (auto simp: guarded_llm_chat_typed_def chat Let_def log_effect_def counters_def
        split: prod.splits sum.splits CircuitBreakerError.splits)
  obtain es where es: "effects a = effects a0 @ es" using assms(1) by (auto simp: run_inv_def)
  show "From_Model s \<in> trail a0 b" if answered: "r = Inr resp" "resp_content resp = Some s"
  proof -
    obtain m c where "b = log_effect (Requests m (Some s)) (a\<lparr>llm_breaker := c\<rparr>)"
      using assms(2) answered
      by (auto simp: guarded_llm_chat_typed_def chat Let_def
          split: prod.splits sum.splits CircuitBreakerError.splits)
    then show ?thesis using es by (simp add: trail_log)
  qed
qed

lemma saturating_add_ge:
  assumes "unat x < 2 ^ 32 - 1" "1 \<le> c"
  shows "unat x < unat (saturating_add x c)"
proof (cases "unat x + unat c \<ge> 2 ^ 32")
  case True
  then show ?thesis using assms(1) by (simp add: saturating_add_def unsigned_minus_1_eq_mask mask_eq_exp_minus_1)
next
  case False
  then have "unat (x + c) = unat x + unat c" by (subst unat_add_lem [symmetric]) simp
  moreover have "0 < unat c" using assms(2) by (cases "c = 0") (auto simp: unat_gt_0)
  ultimately show ?thesis using False by (simp add: saturating_add_def)
qed

lemma charge_run:
  "run_inv libs a0 n (charge c a) \<longleftrightarrow> run_inv libs a0 n a" "turn (charge c a) = turn a"
  by (simp_all add: charge_def run_inv_def static_def)

lemma provider_failed_run:
  assumes "run_inv libs a0 n a" "provider_failed outcome e a = (msg, b)"
  shows "run_inv libs a0 n b \<and> turn b = turn a"
proof -
  have charged: "run_inv libs a0 n (charge c a)" "turn (charge c a) = turn a" for c
    using assms(1) charge_run by auto
  then have "run_inv libs a0 n (repair_and_warn (charge c a)) \<and> turn (repair_and_warn (charge c a)) = turn a" for c
    using run_inv_quiet [OF charged(1) quiet_repair] quiet_repair [of libs "{}" "charge c a"]
    by (simp add: quiet_def counters_def)
  then show ?thesis
    using assms(2) charged by (cases outcome) (auto simp: Let_def)
qed

lemma take_answer_run:
  assumes "run_inv libs a0 n a" "\<And>s. resp_content resp = Some s \<Longrightarrow> From_Model s \<in> trail a0 a"
  shows "run_inv libs a0 n (snd (take_answer libs te l resp a)) \<and> turn (snd (take_answer libs te l resp a)) = turn a
    \<and> provider_attempts_spent (snd (take_answer libs te l resp a)) = provider_attempts_spent a"
proof -
  define calls where "calls = (case resp_tool_calls resp of Some tcs \<Rightarrow> tcs | None \<Rightarrow> [])"
  define content where "content = (case resp_content resp of Some s \<Rightarrow> s | None \<Rightarrow> [])"
  have kept: "run_inv libs a0 n b \<and> turn b = turn a \<and> provider_attempts_spent b = provider_attempts_spent a"
    if "quiet libs (trail a0 a) a b" for b
    using run_inv_quiet [OF assms(1) that] that by (simp add: quiet_def counters_def)
  have "From_Model content \<in> trail a0 a" if "content \<noteq> []"
    using assms(2) that by (auto simp: content_def split: option.splits)
  then have spoken: "quiet libs (trail a0 a) a (emit_event e (observe_untrusted libs now src content (on_session f a)))"
    if "content \<noteq> []" for e now src f
    using that by (intro quiet_trans [OF quiet_trans [OF quiet_session quiet_observe_untrusted] quiet_emit])
  show ?thesis
  proof (cases "calls = []")
    case True
    then show ?thesis
      using kept [OF spoken] assms(1)
      by (simp add: take_answer_def calls_def [symmetric] content_def [symmetric] Let_def)
  next
    case False
    let ?b = "on_session (add_assistant_with_tools (if content = [] then None else Some content) calls) a"
    have tools: "snd (take_answer libs te l resp a) = snd (handle_tool_calls libs (te_call te) 0 calls ?b)"
      using False by (auto simp: take_answer_def calls_def [symmetric] content_def [symmetric] Let_def and_then_def
          split: prod.split tool_run.split)
    note b = kept [OF quiet_session, of "add_assistant_with_tools (if content = [] then None else Some content) calls"]
    show ?thesis
      unfolding tools using handle_tool_calls_run [OF conjunct1 [OF b], of "te_call te" 0 calls] b by simp
  qed
qed

lemma ask_and_act_run:
  assumes "run_inv libs a0 n a" "ask_and_act libs te l a = (r, b)"
  shows "run_inv libs a0 (Suc n) b" "turn b = turn a"
    "r = Gives (Again l') \<Longrightarrow> provider_attempts_spent b < max_provider_attempts (ag_config a0)
       \<and> provider_attempts_spent b = saturating_add (provider_attempts_spent a) 1"
proof -
  define a1 where "a1 = emit_event (Thinking (''Turn '' @ show_nat (turn a) @ ''/'' @ show_nat (max_turns (ag_config a)))) a"
  have q: "quiet libs (trail a0 a) a a1" by (simp add: a1_def quiet_emit)
  obtain ans a2 where chat: "guarded_llm_chat_typed libs te a1 = (ans, a2)" by fastforce
  have inv: "run_inv libs a0 (Suc n) a2" "turn a2 = turn a" "provider_attempts_spent a2 = provider_attempts_spent a"
    using guarded_chat_run(1) [OF conjunct1 [OF run_inv_quiet [OF assms(1) q]] chat] q
    by (auto simp: quiet_def counters_def)
  have failures: "run_inv libs a0 (Suc n) (a2\<lparr>consecutive_failures := m\<rparr>)" for m
    using run_inv_quiet [OF inv(1) quiet_failures] by blast
  have charged: "run_inv libs a0 (Suc n) (charge 1 a2)" "turn (charge 1 a2) = turn a"
      "provider_attempts_spent (charge 1 a2) = saturating_add (provider_attempts_spent a) 1"
      "ag_config (charge 1 a2) = ag_config a0"
    using inv charge_run static_parts(1) [of a2 a0]
    by (simp_all add: charge_run, simp_all add: charge_def run_inv_def)
  have "trail a0 (charge 1 a2) = trail a0 a2" by (simp add: trail_def charge_def)
  then have taken: "run_inv libs a0 (Suc n) (snd (take_answer libs te l resp (charge 1 a2)))
      \<and> turn (snd (take_answer libs te l resp (charge 1 a2))) = turn (charge 1 a2)
      \<and> provider_attempts_spent (snd (take_answer libs te l resp (charge 1 a2))) = provider_attempts_spent (charge 1 a2)"
    if "ans = Inr resp" for resp
    using take_answer_run [OF charged(1)]
      guarded_chat_run(2) [OF conjunct1 [OF run_inv_quiet [OF assms(1) q]] chat that] by simp
  note eq = assms(2) [unfolded ask_and_act_def Let_def, folded a1_def, unfolded chat]
  have "run_inv libs a0 (Suc n) b \<and> turn b = turn a \<and> (r = Gives (Again l')
      \<longrightarrow> provider_attempts_spent b < max_provider_attempts (ag_config a0)
        \<and> provider_attempts_spent b = saturating_add (provider_attempts_spent a) 1)"
  proof (cases ans)
    case (Inl oe)
    obtain msg c where failed: "provider_failed (fst oe) (snd oe) (a2\<lparr>consecutive_failures := consecutive_failures a2 + 1\<rparr>) = (msg, c)"
      by fastforce
    then have "r = Gives (Ends (Inl msg))" "b = c"
      using eq by (simp_all add: Inl split: prod.splits)
    then show ?thesis using provider_failed_run [OF failures failed] inv(2) by simp
  next
    case (Inr resp)
    show ?thesis
    proof (cases "provider_attempts_spent (charge 1 a2) \<ge> max_provider_attempts (ag_config (charge 1 a2))")
      case True
      then show ?thesis using eq charged by (auto simp: Inr)
    next
      case False
      then have "take_answer libs te l resp (charge 1 a2) = (r, b)"
        using eq by (simp add: Inr)
      then show ?thesis using taken [OF Inr] charged False by (simp add: not_le)
    qed
  qed
  then show "run_inv libs a0 (Suc n) b" "turn b = turn a"
    "r = Gives (Again l') \<Longrightarrow> provider_attempts_spent b < max_provider_attempts (ag_config a0)
       \<and> provider_attempts_spent b = saturating_add (provider_attempts_spent a) 1"
    by auto
qed

lemma react_turn_run:
  assumes "run_inv libs a0 n a" "react_turn libs te l a = (r, b)"
  shows "run_inv libs a0 (Suc n) b" "turn b \<le> Suc (turn a)"
    "r = Gives (Again l') \<Longrightarrow> turn b = Suc (turn a)
       \<and> provider_attempts_spent b < max_provider_attempts (ag_config a0)
       \<and> provider_attempts_spent b = saturating_add (provider_attempts_spent a) 1"
proof -
  obtain err a1 where guard: "turn_guard te a = (err, a1)" by fastforce
  note g = turn_guard_run [OF assms(1) guard]
  note c = turn_context_run [OF g(1), of te]
  obtain cr a2 where comp: "compact_if_needed libs te (turn_context te a1) = (cr, a2)" by fastforce
  have q: "quiet libs (trail a0 (turn_context te a1)) (turn_context te a1) a2"
    using quiet_compact [of libs _ "turn_context te a1" te] comp by simp
  have inv2: "run_inv libs a0 n a2" "turn a2 = Suc (turn a)" "provider_attempts_spent a2 = provider_attempts_spent a"
    using run_inv_quiet [OF conjunct1 [OF c] q] c q g(2) by (auto simp: quiet_def counters_def)
  have "run_inv libs a0 (Suc n) b \<and> turn b \<le> Suc (turn a) \<and> (r = Gives (Again l') \<longrightarrow> turn b = Suc (turn a)
       \<and> provider_attempts_spent b < max_provider_attempts (ag_config a0)
       \<and> provider_attempts_spent b = saturating_add (provider_attempts_spent a) 1)"
  proof (cases err)
    case (Some e)
    then show ?thesis
      using assms(2) guard g run_inv_mono [OF g(1), of "Suc n"] by (auto simp: react_turn_def counters_def)
  next
    case None
    then have eq: "and_then (cr, a2) (\<lambda>_. ask_and_act libs te l) = (r, b)"
      using assms(2) guard comp by (simp add: react_turn_def)
    show ?thesis
    proof (cases cr)
      case (Gives u)
      then have asked: "ask_and_act libs te l a2 = (r, b)" using eq by (simp add: and_then_def)
      show ?thesis
        using ask_and_act_run [OF inv2(1) asked] inv2(2,3) by (metis order_refl)
    qed (use eq inv2 run_inv_mono [OF inv2(1), of "Suc n"] in \<open>auto simp: and_then_def\<close>)
  qed
  then show "run_inv libs a0 (Suc n) b" "turn b \<le> Suc (turn a)"
    "r = Gives (Again l') \<Longrightarrow> turn b = Suc (turn a)
       \<and> provider_attempts_spent b < max_provider_attempts (ag_config a0)
       \<and> provider_attempts_spent b = saturating_add (provider_attempts_spent a) 1"
    by auto
qed

section \<open>The loop\<close>

function react_loop :: "agent_libs \<Rightarrow> (nat \<Rightarrow> turn_env) \<Rightarrow> string \<Rightarrow> AutonomousAgent
    \<Rightarrow> (string + string) tool_run \<times> AutonomousAgent" where
  "react_loop libs env last_response a =
     (if turn a < max_turns (ag_config a)
      then case react_turn libs (env (turn a)) last_response a of
             (Gives (Again response), a') \<Rightarrow> react_loop libs env response a'
           | (Gives (Ends r), a') \<Rightarrow> (Gives r, a')
           | (Panics, a') \<Rightarrow> (Panics, a')
           | (Blocks, a') \<Rightarrow> (Blocks, a')
      else (Gives (Inr last_response), a))"
  by pat_completeness auto

termination
proof (relation "measure (\<lambda>(libs, env, l, a). max_turns (ag_config a) - turn a)", simp)
  fix libs env l a r b t response
  assume less: "turn a < max_turns (ag_config a)"
    and step: "(r, b) = react_turn libs (env (turn a)) l a" "r = Gives t" "t = Again response"
  have eq: "react_turn libs (env (turn a)) l a = (Gives (Again response), b)"
    using step by simp
  have "run_inv libs a (Suc 0) b" "turn b = Suc (turn a)"
    using react_turn_run [OF run_inv_start [of libs a 0] eq] by auto
  then have "ag_config b = ag_config a" "turn b = Suc (turn a)"
    using run_inv_config by auto
  then show "((libs, env, response, b), libs, env, l, a)
      \<in> measure (\<lambda>(libs, env, l, a). max_turns (ag_config a) - turn a)"
    using less by simp
qed

declare react_loop.simps [simp del]

definition run_react :: "agent_libs \<Rightarrow> (nat \<Rightarrow> turn_env) \<Rightarrow> string \<Rightarrow> AutonomousAgent
    \<Rightarrow> (string + string) tool_run \<times> AutonomousAgent" where
  "run_react libs env task a = react_loop libs env [] (react_start task a)"

lemma react_loop_run:
  assumes "run_inv libs a0 n a" "n \<le> turn a" "n \<le> unat (provider_attempts_spent a)"
    "turn a \<le> max_turns (ag_config a0)"
    "provider_attempts_spent a < max_provider_attempts (ag_config a0) \<or> n = 0 \<and> provider_attempts_spent a = 0"
    "react_loop libs env l a = (r, b)"
  shows "\<exists>m. run_inv libs a0 m b \<and> m \<le> max_turns (ag_config a0)
    \<and> m \<le> max 1 (unat (max_provider_attempts (ag_config a0))) \<and> turn b \<le> max_turns (ag_config a0)"
  using assms
proof (induction libs env l a arbitrary: n rule: react_loop.induct)
  case (1 libs env l a)
  have cfg: "ag_config a = ag_config a0"
    using "1.prems"(1) by (rule run_inv_config)
  have small: "n \<le> max 1 (unat (max_provider_attempts (ag_config a0)))"
      "Suc n \<le> max 1 (unat (max_provider_attempts (ag_config a0)))"
    using "1.prems"(3,5) by (auto simp: word_less_nat_alt)
  show ?case
  proof (cases "turn a < max_turns (ag_config a)")
    case False
    then show ?thesis
      using "1.prems" small by (auto simp: react_loop.simps [of libs env l a])
  next
    case True
    obtain tr c where turn: "react_turn libs (env (turn a)) l a = (tr, c)" by fastforce
    note t = react_turn_run [OF "1.prems"(1) turn]
    show ?thesis
    proof (cases "\<exists>l'. tr = Gives (Again l')")
      case False
      then have "b = c"
        using "1.prems"(6) True turn
        by (auto simp: react_loop.simps [of libs env l a] split: tool_run.splits turn_result.splits)
      then show ?thesis using t(1,2) small(2) "1.prems"(2) True cfg by auto
    next
      case again: True
      then obtain l' where l': "tr = Gives (Again l')" by blast
      have next_turn: "turn c = Suc (turn a)" "provider_attempts_spent c < max_provider_attempts (ag_config a0)"
          "provider_attempts_spent c = saturating_add (provider_attempts_spent a) 1"
        using t(3) [OF l'] by auto
      have "unat (provider_attempts_spent a) < 2 ^ 32 - 1"
        using "1.prems"(5) unsigned_less [of "max_provider_attempts (ag_config a0)", where 'a = nat]
        by (auto simp: word_less_nat_alt)
      then have "Suc n \<le> unat (provider_attempts_spent c)"
        using saturating_add_ge [of "provider_attempts_spent a" 1] next_turn(3) "1.prems"(3) by simp
      moreover have "react_loop libs env l' c = (r, b)"
        using "1.prems"(6) True turn l' by (simp add: react_loop.simps [of libs env l a])
      ultimately show ?thesis
        using "1.IH" [OF True turn [symmetric] l' refl t(1)] next_turn "1.prems"(2,4) True cfg by auto
    qed
  qed
qed

end
