(* ===== verification/Strategy.thy ===== *)
theory Strategy
  imports Compaction Complex_Main
begin

text \<open>
  The strategy selector of the agent (\<open>soul-agent-core/src/strategy.rs\<close>): the analysis of a task, the choice
  of a reasoning strategy with its escalation, and the record of outcomes. Single precision is the real
  operation followed by the rounding \<open>rnd\<close>.
\<close>

section \<open>Data\<close>

datatype StrategyType = ReAct | TreeOfThoughts | PlanThenExecute

datatype TaskDomain = System_Domain | Code_Domain | Research_Domain | Creative_Domain | General_Domain

fun show_strategy :: "StrategyType \<Rightarrow> string" where
  "show_strategy ReAct = ''ReAct''"
| "show_strategy TreeOfThoughts = ''TreeOfThoughts''"
| "show_strategy PlanThenExecute = ''PlanThenExecute''"

fun show_domain :: "TaskDomain \<Rightarrow> string" where
  "show_domain System_Domain = ''system''"
| "show_domain Code_Domain = ''code''"
| "show_domain Research_Domain = ''research''"
| "show_domain Creative_Domain = ''creative''"
| "show_domain General_Domain = ''general''"

record TaskComplexity =
  char_count :: nat
  estimated_steps :: nat
  domain :: TaskDomain
  complexity_score :: real
  requires_exploration :: bool
  is_multi_step :: bool

record StrategyConfig =
  react_max_chars :: nat
  plan_max_chars :: nat
  plan_min_steps :: nat
  tot_min_steps :: nat
  tot_min_complexity :: real
  escalation_after_failures :: nat
  tot_max_depth :: nat
  tot_max_branches :: nat
  tot_top_k :: nat

definition default_strategy_config :: "(real \<Rightarrow> real) \<Rightarrow> StrategyConfig" where
  "default_strategy_config rnd = \<lparr>react_max_chars = 150, plan_max_chars = 500, plan_min_steps = 2,
     tot_min_steps = 4, tot_min_complexity = rnd (6 / 10), escalation_after_failures = 5, tot_max_depth = 4,
     tot_max_branches = 3, tot_top_k = 3\<rparr>"

record StrategyOutcome =
  so_strategy :: StrategyType
  so_preview :: string
  so_char_count :: nat
  so_domain :: TaskDomain
  so_steps :: nat
  so_success :: bool
  so_turns :: nat

record StrategySelector =
  sel_config :: StrategyConfig
  sel_history :: "StrategyOutcome list"
  react_success :: nat
  react_total :: nat
  plan_success :: nat
  plan_total :: nat
  tot_success :: nat
  tot_total :: nat

definition selector_new :: "StrategyConfig \<Rightarrow> StrategySelector" where
  "selector_new cfg = \<lparr>sel_config = cfg, sel_history = [], react_success = 0, react_total = 0,
     plan_success = 0, plan_total = 0, tot_success = 0, tot_total = 0\<rparr>"

section \<open>Analysis of a task\<close>

text \<open>\<open>str::matches\<close> finds occurrences that do not overlap, from the left.\<close>

fun count_marker_from :: "nat \<Rightarrow> string \<Rightarrow> string \<Rightarrow> nat" where
  "count_marker_from skip [] p = 0"
| "count_marker_from (Suc skip) (c # s) p = count_marker_from skip s p"
| "count_marker_from 0 (c # s) p =
     (if starts_with (c # s) p then Suc (count_marker_from (length p - 1) s p) else count_marker_from 0 s p)"

definition step_markers :: "string list" where
  "step_markers =
    [''first'', ''then'', ''after'', ''next'', ''finally'', ''step 1'', ''step 2'', ''step 3'', ''1.'',
     ''2.'', ''3.'', ''4.'', ''5.'', ''1)'', ''2)'', ''3)'', ''4)'', ''5)'', ''first,'', ''second,'',
     ''third,'']"

definition exploration_keywords :: "string list" where
  "exploration_keywords =
    [''design'', ''architect'', ''brainstorm'', ''ideate'', ''explore'', ''investigate'', ''debug'',
     ''trace'', ''diagnose'', ''optimize'', ''improve'', ''refactor'', ''restructure'', ''research'',
     ''analyze alternatives'', ''compare approaches'', ''evaluate tradeoffs'', ''novel'', ''innovative'']"

definition code_keywords :: "string list" where
  "code_keywords =
    [''code'', ''function'', ''class'', ''module'', ''crate'', ''cargo'', ''rustc'', ''compile'',
     ''borrow checker'', ''trait'', ''impl'', ''struct'', ''enum'', ''api'', ''endpoint'', ''http'',
     ''rest'', ''database'', ''sql'', ''query'', ''migrate'', ''test'', ''bug'', ''fix'', ''patch'',
     ''refactor'', ''npm'', ''pip'', ''docker'', ''kubernetes'']"

definition system_keywords :: "string list" where
  "system_keywords =
    [''shell'', ''bash'', ''command'', ''directory'', ''file'', ''disk'', ''memory'', ''cpu'', ''process'',
     ''service'', ''daemon'', ''log'', ''permission'', ''chmod'', ''chown'', ''mount'', ''network'',
     ''port'', ''firewall'', ''cron'']"

definition research_keywords :: "string list" where
  "research_keywords =
    [''research'', ''analyze'', ''summarize'', ''explain'', ''compare'', ''review'', ''audit'',
     ''evaluate'', ''assess'', ''study'']"

definition creative_keywords :: "string list" where
  "creative_keywords =
    [''write'', ''story'', ''poem'', ''creative'', ''brainstorm'', ''design'', ''draw'', ''visual'',
     ''layout'']"

definition ascii_digit :: "char \<Rightarrow> bool" where
  "ascii_digit c \<longleftrightarrow> dec_digit c \<noteq> None"

definition starts_numbered :: "string \<Rightarrow> bool" where
  "starts_numbered trimmed = (case trimmed of [] \<Rightarrow> False | c # _ \<Rightarrow> ascii_digit c)"

definition numbered_item :: "string \<Rightarrow> bool" where
  "numbered_item l \<longleftrightarrow> (let trimmed = trim l
     in starts_numbered trimmed \<and> (CHR ''.'' \<in> set trimmed \<or> CHR '')'' \<in> set trimmed))"

definition estimate_steps :: "string \<Rightarrow> nat \<Rightarrow> nat" where
  "estimate_steps task_lower n =
     (let marker_count = sum_list (map (count_marker_from 0 task_lower) step_markers);
          numbered_item_count = length (filter numbered_item (str_lines task_lower))
      in if marker_count > 0 then max (marker_count + numbered_item_count) 1
         else if n < 100 then 1 else if n < 300 then 2 else if n < 800 then 3 else if n < 2000 then 5 else 7)"

definition hits :: "string \<Rightarrow> string list \<Rightarrow> nat" where
  "hits task kws = length (filter (contains task) kws)"

text \<open>\<open>max_by_key\<close> returns the last of several maxima.\<close>

fun max_by_count :: "(nat \<times> TaskDomain) \<Rightarrow> (nat \<times> TaskDomain) list \<Rightarrow> nat \<times> TaskDomain" where
  "max_by_count best [] = best"
| "max_by_count best (x # xs) = max_by_count (if fst best \<le> fst x then x else best) xs"

definition detect_domain :: "string \<Rightarrow> TaskDomain" where
  "detect_domain task =
     (let (max_count, max_domain) = max_by_count (hits task code_keywords, Code_Domain)
            [(hits task system_keywords, System_Domain), (hits task research_keywords, Research_Domain),
             (hits task creative_keywords, Creative_Domain)]
      in if max_count > 0 then max_domain else General_Domain)"

definition calculate_complexity :: "(real \<Rightarrow> real) \<Rightarrow> nat \<Rightarrow> nat \<Rightarrow> bool \<Rightarrow> real" where
  "calculate_complexity rnd n steps explore =
     (let length_score = min (rnd (rnd (real n) / 2000)) 1;
          step_score = min (rnd (rnd (real steps) / 10)) 1;
          bonus = (if explore then rnd (3 / 10) else 0)
      in min (rnd (rnd (rnd (length_score * rnd (3 / 10)) + rnd (step_score * rnd (5 / 10))) + bonus)) 1)"

definition analyze :: "(real \<Rightarrow> real) \<Rightarrow> string \<Rightarrow> TaskComplexity" where
  "analyze rnd task =
     (let task_lower = to_lowercase task;
          n = length task;
          steps = estimate_steps task_lower n;
          explore = list_ex (contains task_lower) exploration_keywords
      in \<lparr>char_count = n, estimated_steps = steps, domain = detect_domain task_lower,
          complexity_score = calculate_complexity rnd n steps explore,
          requires_exploration = explore,
          is_multi_step = (steps \<ge> 2 \<or> contains task_lower ''steps:'' \<or> contains task_lower ''plan:''
            \<or> contains task_lower ''instructions:'')\<rparr>)"

section \<open>Selection\<close>

definition select :: "(real \<Rightarrow> real) \<Rightarrow> StrategySelector \<Rightarrow> string \<Rightarrow> StrategyType" where
  "select rnd s task =
     (let c = analyze rnd task; cfg = sel_config s
      in if complexity_score c \<ge> tot_min_complexity cfg \<or> estimated_steps c \<ge> tot_min_steps cfg \<or> requires_exploration c
         then TreeOfThoughts
         else if estimated_steps c \<ge> plan_min_steps cfg \<and> is_multi_step c then PlanThenExecute
         else ReAct)"

definition select_with_failures :: "(real \<Rightarrow> real) \<Rightarrow> StrategySelector \<Rightarrow> string \<Rightarrow> nat \<Rightarrow> StrategyType" where
  "select_with_failures rnd s task failures =
     (let limit = escalation_after_failures (sel_config s)
      in if failures \<ge> limit * 2 then TreeOfThoughts
         else if failures \<ge> limit
         then (let base = select rnd s task in if base = ReAct then PlanThenExecute else base)
         else select rnd s task)"

section \<open>Outcomes\<close>

definition count_outcome :: "StrategyOutcome \<Rightarrow> StrategySelector \<Rightarrow> StrategySelector" where
  "count_outcome o' s = (let won = (if so_success o' then 1 else 0) in case so_strategy o' of
     ReAct \<Rightarrow> s\<lparr>react_total := react_total s + 1, react_success := react_success s + won\<rparr>
   | PlanThenExecute \<Rightarrow> s\<lparr>plan_total := plan_total s + 1, plan_success := plan_success s + won\<rparr>
   | TreeOfThoughts \<Rightarrow> s\<lparr>tot_total := tot_total s + 1, tot_success := tot_success s + won\<rparr>)"

definition record_outcome :: "StrategyOutcome \<Rightarrow> StrategySelector \<Rightarrow> StrategySelector" where
  "record_outcome o' s =
     (let s = count_outcome o' s; h = sel_history s @ [o']
      in s\<lparr>sel_history := (if length h > 200 then tl h else h)\<rparr>)"

definition rate :: "(real \<Rightarrow> real) \<Rightarrow> nat \<Rightarrow> nat \<Rightarrow> real" where
  "rate rnd won tried = (if tried = 0 then 0 else rnd (rnd (real won) / rnd (real tried)))"

fun strategy_success_rate :: "(real \<Rightarrow> real) \<Rightarrow> StrategySelector \<Rightarrow> StrategyType \<Rightarrow> real" where
  "strategy_success_rate rnd s ReAct = rate rnd (react_success s) (react_total s)"
| "strategy_success_rate rnd s PlanThenExecute = rate rnd (plan_success s) (plan_total s)"
| "strategy_success_rate rnd s TreeOfThoughts = rate rnd (tot_success s) (tot_total s)"

section \<open>Properties\<close>

lemma count_outcome_frame [simp]:
  "sel_history (count_outcome o' s) = sel_history s" "sel_config (count_outcome o' s) = sel_config s"
  by (simp_all add: count_outcome_def Let_def split: StrategyType.split)

lemma record_outcome_config [simp]: "sel_config (record_outcome o' s) = sel_config s"
  by (simp add: record_outcome_def Let_def)

text \<open>The history keeps the latest 200 outcomes, the counters all of them.\<close>

definition last_n :: "nat \<Rightarrow> 'a list \<Rightarrow> 'a list" where
  "last_n k xs = drop (length xs - k) xs"

definition of_strategy :: "StrategyType \<Rightarrow> StrategyOutcome list \<Rightarrow> StrategyOutcome list" where
  "of_strategy t os = filter (\<lambda>o'. so_strategy o' = t) os"

lemma record_history:
  assumes "sel_history s = last_n 200 os"
  shows "sel_history (record_outcome o' s) = last_n 200 (os @ [o'])"
proof (cases "length os < 200")
  case True
  then show ?thesis using assms by (simp add: record_outcome_def Let_def last_n_def)
next
  case False
  then have "length (sel_history s) = 200" using assms by (simp add: last_n_def)
  moreover have "tl (drop (length os - 200) os @ [o']) = drop (Suc (length os - 200)) os @ [o']"
    using calculation assms by (cases "drop (length os - 200) os") (auto simp: last_n_def drop_Suc drop_tl)
  moreover have "Suc (length os) - 200 = Suc (length os - 200)" using False by simp
  ultimately show ?thesis using False assms by (simp add: record_outcome_def Let_def last_n_def)
qed

lemma record_outcome_counts:
  "react_total (record_outcome o' s) = react_total s + (if so_strategy o' = ReAct then 1 else 0)"
  "plan_total (record_outcome o' s) = plan_total s + (if so_strategy o' = PlanThenExecute then 1 else 0)"
  "tot_total (record_outcome o' s) = tot_total s + (if so_strategy o' = TreeOfThoughts then 1 else 0)"
  "react_success (record_outcome o' s) = react_success s + (if so_strategy o' = ReAct \<and> so_success o' then 1 else 0)"
  "plan_success (record_outcome o' s) = plan_success s + (if so_strategy o' = PlanThenExecute \<and> so_success o' then 1 else 0)"
  "tot_success (record_outcome o' s) = tot_success s + (if so_strategy o' = TreeOfThoughts \<and> so_success o' then 1 else 0)"
  by (cases "so_strategy o'"; simp add: record_outcome_def count_outcome_def Let_def)+

lemma selector_after:
  fixes cfg os
  defines "s \<equiv> fold record_outcome os (selector_new cfg)"
  shows "sel_history s = last_n 200 os" "sel_config s = cfg"
    "strategy_success_rate rnd s t = rate rnd (length (filter so_success (of_strategy t os))) (length (of_strategy t os))"
proof -
  have "sel_history s = last_n 200 os \<and> sel_config s = cfg
    \<and> (react_total s, plan_total s, tot_total s) = (length (of_strategy ReAct os), length (of_strategy PlanThenExecute os),
        length (of_strategy TreeOfThoughts os))
    \<and> (react_success s, plan_success s, tot_success s) = (length (filter so_success (of_strategy ReAct os)),
        length (filter so_success (of_strategy PlanThenExecute os)), length (filter so_success (of_strategy TreeOfThoughts os)))"
    unfolding s_def
  proof (induction os rule: rev_induct)
    case Nil
    then show ?case by (simp add: selector_new_def last_n_def of_strategy_def)
  next
    case (snoc o' os)
    then show ?case
      using record_history [of "fold record_outcome os (selector_new cfg)" os o']
      by (simp add: record_outcome_counts of_strategy_def)
  qed
  then show "sel_history s = last_n 200 os" "sel_config s = cfg"
    "strategy_success_rate rnd s t = rate rnd (length (filter so_success (of_strategy t os))) (length (of_strategy t os))"
    by (simp, simp, cases t) simp_all
qed

lemma exploration_selects_tree:
  assumes "kw \<in> set exploration_keywords" "contains (to_lowercase task) kw"
  shows "select_with_failures rnd s task failures = TreeOfThoughts"
proof -
  have "requires_exploration (analyze rnd task)"
    using assms by (auto simp: analyze_def Let_def list_ex_iff)
  then show ?thesis by (simp add: select_with_failures_def select_def Let_def)
qed

end
