(* ===== verification/Thoughts.thy ===== *)
theory Thoughts
  imports Prelude "HOL-Library.AList" Complex_Main
begin

text \<open>
  The tree of thoughts (\<open>soullink-reasoning/src/node.rs\<close>, \<open>tree.rs\<close>) and the semantic loss it scores nodes
  with (\<open>soullink-eval/src/loss.rs\<close>).

  The table of nodes is an association list; where its iteration order matters it is a parameter. Single
  precision is the real operation followed by \<open>rnd\<close>; the vectorised cosine is the parameter \<open>cosine\<close>, with
  \<open>None\<close> for not-a-number. Walking from a node to its root is a loop over parent links; \<open>None\<close> is the value of
  a walk that does not end.
\<close>

section \<open>Semantic loss\<close>

record LossResult =
  lr_loss :: "real option"
  similarity :: "real option"
  lr_rate :: real
  adjustment :: "real option"

text \<open>\<open>clamp\<close> leaves not-a-number as it is.\<close>

definition clamp :: "real \<Rightarrow> real \<Rightarrow> real option \<Rightarrow> real option" where
  "clamp lo hi v = map_option (\<lambda>x. max lo (min hi x)) v"

definition loss_compute :: "(real \<Rightarrow> real) \<Rightarrow> (real list \<Rightarrow> real list \<Rightarrow> real option) \<Rightarrow> real
    \<Rightarrow> real list \<Rightarrow> real list \<Rightarrow> LossResult" where
  "loss_compute rnd cosine learning_rate query response =
     (let sim = clamp (- 1) 1 (cosine query response);
          l = map_option (\<lambda>x. rnd (1 - x)) sim
      in \<lparr>lr_loss = l, similarity = sim, lr_rate = learning_rate,
          adjustment = map_option (\<lambda>x. rnd (x * learning_rate)) l\<rparr>)"

section \<open>Nodes\<close>

datatype NodeStatus = Pending | Accepted | Pruned | Exploring | Unscored

record ThoughtNode =
  tn_id :: nat
  tn_content :: string
  parent_id :: "nat option"
  children :: "nat list"
  tn_depth :: nat
  score :: real
  tn_loss :: "real option"
  tn_status :: NodeStatus

definition node_new :: "nat \<Rightarrow> string \<Rightarrow> nat option \<Rightarrow> nat \<Rightarrow> ThoughtNode" where
  "node_new i s p d = \<lparr>tn_id = i, tn_content = s, parent_id = p, children = [], tn_depth = d, score = 0,
     tn_loss = Some 1, tn_status = Pending\<rparr>"

definition node_root :: "nat \<Rightarrow> string \<Rightarrow> ThoughtNode" where
  "node_root i s = node_new i s None 0"

definition node_prune :: "ThoughtNode \<Rightarrow> ThoughtNode" where
  "node_prune n = n\<lparr>tn_status := Pruned\<rparr>"

definition is_leaf :: "ThoughtNode \<Rightarrow> bool" where
  "is_leaf n \<longleftrightarrow> children n = []"

section \<open>The tree\<close>

record TreeConfig =
  max_depth :: nat
  max_branches :: nat
  accept_threshold :: real
  learning_rate :: real
  top_k :: nat

record ThoughtTree =
  nodes :: "(nat \<times> ThoughtNode) list"
  next_id :: nat
  tree_config :: TreeConfig

definition tree_new :: "TreeConfig \<Rightarrow> ThoughtTree" where
  "tree_new cfg = \<lparr>nodes = [], next_id = 0, tree_config = cfg\<rparr>"

definition get_node :: "ThoughtTree \<Rightarrow> nat \<Rightarrow> ThoughtNode option" where
  "get_node t i = map_of (nodes t) i"

definition modify :: "nat \<Rightarrow> (ThoughtNode \<Rightarrow> ThoughtNode) \<Rightarrow> ThoughtTree \<Rightarrow> ThoughtTree" where
  "modify i f t = t\<lparr>nodes := map (\<lambda>(j, n). (j, if j = i then f n else n)) (nodes t)\<rparr>"

definition insert_node :: "ThoughtNode \<Rightarrow> ThoughtTree \<Rightarrow> ThoughtTree" where
  "insert_node n t = t\<lparr>nodes := AList.update (tn_id n) n (nodes t), next_id := next_id t + 1\<rparr>"

definition add_root :: "string \<Rightarrow> ThoughtTree \<Rightarrow> nat \<times> ThoughtTree" where
  "add_root s t = (next_id t, insert_node (node_root (next_id t) s) t)"

definition add_child :: "nat \<Rightarrow> string \<Rightarrow> ThoughtTree \<Rightarrow> nat option \<times> ThoughtTree" where
  "add_child p s t = (case get_node t p of
     None \<Rightarrow> (None, t)
   | Some parent \<Rightarrow>
       if tn_depth parent \<ge> max_depth (tree_config t) then (None, t)
       else let i = next_id t; t = insert_node (node_new i s (Some p) (tn_depth parent + 1)) t
            in (Some i, modify p (\<lambda>n. n\<lparr>children := children n @ [i]\<rparr>) t))"

definition F32_EPSILON :: real where "F32_EPSILON = 1 / 2 ^ 23"

fun embedding_is_informative :: "(real \<Rightarrow> real) \<Rightarrow> real list \<Rightarrow> bool" where
  "embedding_is_informative rnd [] = False"
| "embedding_is_informative rnd (x # xs) = list_ex (\<lambda>v. \<bar>rnd (v - x)\<bar> > F32_EPSILON) (x # xs)"

definition unscored :: "ThoughtNode \<Rightarrow> ThoughtNode" where
  "unscored n = n\<lparr>tn_status := Unscored, score := 0, tn_loss := None\<rparr>"

definition evaluate_node :: "(real \<Rightarrow> real) \<Rightarrow> (real list \<Rightarrow> real list \<Rightarrow> real option) \<Rightarrow> nat \<Rightarrow> real list
    \<Rightarrow> real list \<Rightarrow> ThoughtTree \<Rightarrow> real option \<times> ThoughtTree" where
  "evaluate_node rnd cosine i query_emb thought_emb t = (case get_node t i of
     None \<Rightarrow> (None, t)
   | Some node \<Rightarrow>
       if \<not> (embedding_is_informative rnd query_emb \<and> embedding_is_informative rnd thought_emb)
       then (None, modify i unscored t)
       else let r = loss_compute rnd cosine (learning_rate (tree_config t)) query_emb thought_emb;
                sc = (case similarity r of Some x \<Rightarrow> max x 0 | None \<Rightarrow> 0);
                verdict = (if sc \<ge> accept_threshold (tree_config t) then Accepted else Pruned)
            in (Some sc, modify i (\<lambda>n. n\<lparr>score := sc, tn_loss := lr_loss r, tn_status := verdict\<rparr>) t))"

definition mark_unscored :: "nat \<Rightarrow> ThoughtTree \<Rightarrow> bool \<times> ThoughtTree" where
  "mark_unscored i t = (case get_node t i of None \<Rightarrow> (False, t) | Some _ \<Rightarrow> (True, modify i unscored t))"

definition to_prune :: "ThoughtTree \<Rightarrow> ThoughtNode \<Rightarrow> bool" where
  "to_prune t n \<longleftrightarrow> tn_status n = Pending
     \<or> tn_status n = Accepted \<and> score n < accept_threshold (tree_config t)"

definition tree_prune :: "ThoughtTree \<Rightarrow> nat \<times> ThoughtTree" where
  "tree_prune t = (length (filter (\<lambda>(i, n). to_prune t n) (nodes t)),
     t\<lparr>nodes := map (\<lambda>(i, n). (i, if to_prune t n then node_prune n else n)) (nodes t)\<rparr>)"

definition tree_len :: "ThoughtTree \<Rightarrow> nat" where
  "tree_len t = length (nodes t)"

definition status_count :: "NodeStatus \<Rightarrow> ThoughtTree \<Rightarrow> nat" where
  "status_count st t = length (filter (\<lambda>(i, n). tn_status n = st) (nodes t))"

definition accepted_count :: "ThoughtTree \<Rightarrow> nat" where
  "accepted_count t = status_count Accepted t"

definition pruned_count :: "ThoughtTree \<Rightarrow> nat" where
  "pruned_count t = status_count Pruned t"

section \<open>Paths\<close>

text \<open>The nodes met by following parent links from a node, the node first.\<close>

partial_function (option) ancestors_up :: "ThoughtTree \<Rightarrow> nat option \<Rightarrow> ThoughtNode list option" where
  "ancestors_up t current = (case current of
     None \<Rightarrow> Some []
   | Some i \<Rightarrow> (case get_node t i of
       None \<Rightarrow> Some []
     | Some n \<Rightarrow> Option.bind (ancestors_up t (parent_id n)) (\<lambda>up. Some (n # up))))"

definition path_to_root :: "ThoughtTree \<Rightarrow> nat \<Rightarrow> ThoughtNode list option" where
  "path_to_root t i = map_option rev (ancestors_up t (Some i))"

definition path_score :: "(real \<Rightarrow> real) \<Rightarrow> ThoughtNode list \<Rightarrow> real" where
  "path_score rnd p = rnd (fold (\<lambda>n s. rnd (s + score n)) p 0 / rnd (real (max (length p) 1)))"

text \<open>The loop of \<open>best_path\<close>; the best score is \<open>None\<close> while it is negative infinity.\<close>

fun best_from :: "(real \<Rightarrow> real) \<Rightarrow> ThoughtTree \<Rightarrow> (nat \<times> ThoughtNode) list \<Rightarrow> real option \<Rightarrow> ThoughtNode list
    \<Rightarrow> ThoughtNode list option" where
  "best_from rnd t [] best path = Some path"
| "best_from rnd t ((i, n) # rest) best path =
     (if is_leaf n \<and> tn_status n = Accepted
      then case path_to_root t i of
             None \<Rightarrow> None
           | Some p \<Rightarrow>
               if (case best of None \<Rightarrow> True | Some b \<Rightarrow> path_score rnd p > b)
               then best_from rnd t rest (Some (path_score rnd p)) p
               else best_from rnd t rest best path
      else best_from rnd t rest best path)"

definition best_path :: "(real \<Rightarrow> real) \<Rightarrow> ((nat \<times> ThoughtNode) list \<Rightarrow> (nat \<times> ThoughtNode) list) \<Rightarrow> ThoughtTree
    \<Rightarrow> ThoughtNode list option" where
  "best_path rnd order t = best_from rnd t (order (nodes t)) None []"

section \<open>The shape of a tree\<close>

text \<open>Keys are the numbers below \<open>next_id\<close> and name their nodes; a parent is older than its children, one
  level above them and lists them.\<close>

definition node_ok :: "ThoughtTree \<Rightarrow> nat \<Rightarrow> ThoughtNode \<Rightarrow> bool" where
  "node_ok t i n \<longleftrightarrow> tn_id n = i \<and> i < next_id t \<and> distinct (children n)
     \<and> (\<forall>c \<in> set (children n). \<exists>m. get_node t c = Some m \<and> parent_id m = Some i)
     \<and> (case parent_id n of
          None \<Rightarrow> tn_depth n = 0
        | Some p \<Rightarrow> p < i \<and> tn_depth n \<le> max_depth (tree_config t)
            \<and> (\<exists>m. get_node t p = Some m \<and> i \<in> set (children m) \<and> tn_depth n = tn_depth m + 1))"

definition tree_ok :: "ThoughtTree \<Rightarrow> bool" where
  "tree_ok t \<longleftrightarrow> distinct (map fst (nodes t)) \<and> (\<forall>i. get_node t i \<noteq> None \<longleftrightarrow> i < next_id t)
     \<and> (\<forall>i n. get_node t i = Some n \<longrightarrow> node_ok t i n)"

lemma get_modify [simp]:
  "get_node (modify i f t) j = (if j = i then map_option f (get_node t j) else get_node t j)"
proof -
  have "map_of (map (\<lambda>(j, n). (j, if j = i then f n else n)) m) j
      = (if j = i then map_option f (map_of m j) else map_of m j)" for m :: "(nat \<times> ThoughtNode) list"
    by (induction m) auto
  then show ?thesis by (simp add: get_node_def modify_def)
qed

lemma get_insert [simp]: "get_node (insert_node n t) j = (if j = tn_id n then Some n else get_node t j)"
  by (simp add: get_node_def insert_node_def update_conv')

lemma get_prune [simp]:
  "get_node (snd (tree_prune t)) j = map_option (\<lambda>n. if to_prune t n then node_prune n else n) (get_node t j)"
proof -
  have "map_of (map (\<lambda>(i, n). (i, f n)) m) j = map_option f (map_of m j)" for m :: "(nat \<times> ThoughtNode) list" and f
    by (induction m) auto
  then show ?thesis by (simp add: get_node_def tree_prune_def)
qed

lemma tree_frame [simp]:
  "next_id (modify i f t) = next_id t" "tree_config (modify i f t) = tree_config t"
  "next_id (insert_node n t) = next_id t + 1" "tree_config (insert_node n t) = tree_config t"
  "next_id (snd (tree_prune t)) = next_id t" "tree_config (snd (tree_prune t)) = tree_config t"
  by (simp_all add: modify_def insert_node_def tree_prune_def)

lemma keys_frame [simp]:
  "map fst (nodes (modify i f t)) = map fst (nodes t)" "map fst (nodes (snd (tree_prune t))) = map fst (nodes t)"
  by (auto simp: modify_def tree_prune_def)

text \<open>What only changes the judgement of nodes keeps the shape.\<close>

definition same_place :: "ThoughtNode \<Rightarrow> ThoughtNode \<Rightarrow> bool" where
  "same_place n m \<longleftrightarrow> tn_id n = tn_id m \<and> parent_id n = parent_id m \<and> children n = children m \<and> tn_depth n = tn_depth m
     \<and> tn_content n = tn_content m"

lemma relabel_ok:
  assumes "tree_ok t" "map fst (nodes t') = map fst (nodes t)" "next_id t' = next_id t" "tree_config t' = tree_config t"
    "\<And>j. get_node t' j = map_option (g j) (get_node t j)" "\<And>j n. same_place (g j n) n"
  shows "tree_ok t'"
proof -
  have "node_ok t' i (g i n)" if "node_ok t i n" for i n
    using that assms(3-6) unfolding node_ok_def same_place_def
    by (auto simp: map_option_case split: option.splits)
  then show ?thesis using assms unfolding tree_ok_def by auto
qed

lemma modify_ok: "tree_ok t \<Longrightarrow> (\<And>n. same_place (f n) n) \<Longrightarrow> tree_ok (modify i f t)"
  by (rule relabel_ok [where g = "\<lambda>j n. if j = i then f n else n"])
     (auto simp: same_place_def option.map_ident)

lemma tree_prune_ok: "tree_ok t \<Longrightarrow> tree_ok (snd (tree_prune t))"
  by (rule relabel_ok [where g = "\<lambda>j n. if to_prune t n then node_prune n else n"])
     (simp_all add: same_place_def node_prune_def)

lemma mark_unscored_ok: "tree_ok t \<Longrightarrow> tree_ok (snd (mark_unscored i t))"
  by (auto simp: mark_unscored_def unscored_def same_place_def intro!: modify_ok split: option.split)

lemma evaluate_node_ok: "tree_ok t \<Longrightarrow> tree_ok (snd (evaluate_node rnd cosine i q v t))"
  by (auto simp: evaluate_node_def unscored_def same_place_def Let_def intro!: modify_ok split: option.split)

lemma fresh_id: "tree_ok t \<Longrightarrow> get_node t (next_id t) = None"
  by (metis tree_ok_def less_irrefl)

lemma distinct_insert: "distinct (map fst (nodes t)) \<Longrightarrow> distinct (map fst (nodes (insert_node n t)))"
  by (simp add: insert_node_def distinct_update)

lemma add_root_ok:
  assumes "tree_ok t"
  shows "tree_ok (snd (add_root s t))"
proof -
  let ?n = "node_root (next_id t) s"
  let ?t = "insert_node ?n t"
  have id: "tn_id ?n = next_id t" by (simp add: node_root_def node_new_def)
  have old: "node_ok ?t i n" if "node_ok t i n" for i n
    using that fresh_id [OF assms] id unfolding node_ok_def
    by (auto split: option.splits)
  have "node_ok ?t (next_id t) ?n"
    by (simp add: node_ok_def node_root_def node_new_def)
  then show ?thesis
    using assms old id distinct_insert unfolding tree_ok_def add_root_def
    by (auto simp: less_Suc_eq)
qed

lemma add_child_ok:
  assumes "tree_ok t"
  shows "tree_ok (snd (add_child p s t))"
proof (cases "\<exists>parent. get_node t p = Some parent \<and> tn_depth parent < max_depth (tree_config t)")
  case False
  then show ?thesis using assms by (auto simp: add_child_def not_less split: option.split)
next
  case True
  then obtain parent where parent: "get_node t p = Some parent" "tn_depth parent < max_depth (tree_config t)"
    by blast
  let ?i = "next_id t"
  let ?n = "node_new ?i s (Some p) (tn_depth parent + 1)"
  let ?t = "modify p (\<lambda>n. n\<lparr>children := children n @ [?i]\<rparr>) (insert_node ?n t)"
  have eq: "snd (add_child p s t) = ?t" using parent by (simp add: add_child_def Let_def)
  have id: "tn_id ?n = ?i" "parent_id ?n = Some p" "children ?n = []" "tn_depth ?n = tn_depth parent + 1"
    by (simp_all add: node_new_def)
  have less: "p < ?i" using assms parent(1) unfolding tree_ok_def by (metis option.distinct(1))
  have get: "get_node ?t j = (if j = ?i then Some ?n
      else if j = p then Some (parent\<lparr>children := children parent @ [?i]\<rparr>) else get_node t j)" for j
    using parent(1) id(1) less by simp
  have below: "c \<noteq> ?i" if "node_ok t i n" "c \<in> set (children n)" for c i n
    using that fresh_id [OF assms] by (auto simp: node_ok_def)
  have old: "node_ok ?t i (if i = p then n\<lparr>children := children n @ [?i]\<rparr> else n)"
    if n: "node_ok t i n" "get_node t i = Some n" for i n
  proof -
    have "i < ?i" using n(1) by (simp add: node_ok_def)
    then show ?thesis
      using n below [OF n(1)] parent(1) id less fresh_id [OF assms] unfolding node_ok_def get
      by (auto split: option.splits)
  qed
  have new: "node_ok ?t ?i ?n"
    using less parent(2) id unfolding node_ok_def get by auto
  have keys: "distinct (map fst (nodes ?t))"
    using assms distinct_insert by (simp add: tree_ok_def)
  have dom: "get_node ?t j \<noteq> None \<longleftrightarrow> j < next_id ?t" for j
    using assms less unfolding get tree_ok_def by (auto simp: less_Suc_eq)
  have "node_ok ?t j m" if "get_node ?t j = Some m" for j m
    using that old [of j] new assms parent(1) unfolding get tree_ok_def by (auto split: if_splits)
  then show ?thesis
    unfolding eq using keys dom by (simp add: tree_ok_def)
qed

text \<open>Every parent link leads to an older node, so the walk to the root ends.\<close>

lemma walk_up_ok:
  assumes "tree_ok t" "get_node t i = Some n"
  shows "\<exists>up. ancestors_up t (Some i) = Some (n # up) \<and> length up = tn_depth n
    \<and> parent_id (last (n # up)) = None \<and> successively (\<lambda>a b. parent_id a = Some (tn_id b)) (n # up)"
  using assms(2)
proof (induction i arbitrary: n rule: less_induct)
  case (less i)
  have ok: "node_ok t i n" using assms(1) less.prems by (simp add: tree_ok_def)
  show ?case
  proof (cases "parent_id n")
    case None
    then have "ancestors_up t (Some i) = Some [n]"
      using less.prems by (simp add: ancestors_up.simps [of t "Some i"] ancestors_up.simps [of t None])
    then show ?thesis using ok None by (simp add: node_ok_def)
  next
    case (Some p)
    then obtain m where m: "p < i" "get_node t p = Some m" "tn_depth n = tn_depth m + 1"
      using ok by (auto simp: node_ok_def)
    obtain up where up: "ancestors_up t (Some p) = Some (m # up)" "length up = tn_depth m"
        "parent_id (last (m # up)) = None" "successively (\<lambda>a b. parent_id a = Some (tn_id b)) (m # up)"
      using less.IH [OF m(1,2)] by blast
    have "tn_id m = p" using assms(1) m(2) by (simp add: tree_ok_def node_ok_def)
    moreover have "ancestors_up t (Some i) = Some (n # m # up)"
      using less.prems Some up(1) by (simp add: ancestors_up.simps [of t "Some i"])
    ultimately show ?thesis using up m(3) Some by simp
  qed
qed

section \<open>Trees built by the operations\<close>

datatype tree_op =
    Root_Op string
  | Child_Op nat string
  | Evaluate_Op nat "real list" "real list"
  | Mark_Op nat
  | Prune_Op

fun tree_step :: "(real \<Rightarrow> real) \<Rightarrow> (real list \<Rightarrow> real list \<Rightarrow> real option) \<Rightarrow> tree_op \<Rightarrow> ThoughtTree \<Rightarrow> ThoughtTree" where
  "tree_step rnd cosine (Root_Op s) t = snd (add_root s t)"
| "tree_step rnd cosine (Child_Op p s) t = snd (add_child p s t)"
| "tree_step rnd cosine (Evaluate_Op i q v) t = snd (evaluate_node rnd cosine i q v t)"
| "tree_step rnd cosine (Mark_Op i) t = snd (mark_unscored i t)"
| "tree_step rnd cosine Prune_Op t = snd (tree_prune t)"

lemma tree_step_config: "tree_config (tree_step rnd cosine op t) = tree_config t"
  by (cases op) (auto simp: add_root_def add_child_def evaluate_node_def mark_unscored_def Let_def split: option.split)

lemma tree_step_ok: "tree_ok t \<Longrightarrow> tree_ok (tree_step rnd cosine op t)"
  by (cases op) (auto intro: add_root_ok add_child_ok evaluate_node_ok mark_unscored_ok tree_prune_ok)

lemma tree_new_ok: "tree_ok (tree_new cfg)"
  by (simp add: tree_ok_def tree_new_def get_node_def)

lemma built_tree_ok:
  "tree_ok t \<Longrightarrow> tree_ok (fold (tree_step rnd cosine) ops t)
    \<and> tree_config (fold (tree_step rnd cosine) ops t) = tree_config t"
  by (induction ops arbitrary: t) (simp_all add: tree_step_ok tree_step_config)

text \<open>C37: Whatever operations build a tree of thoughts, from every node the walk along the parent links
  ends, and the path it returns leads from a root without parent down to the node, each step from a
  parent to one of its children, with one node per level; no node lies deeper than \<open>max_depth\<close>.\<close>

theorem thought_paths:
  assumes "t = fold (tree_step rnd cosine) ops (tree_new cfg)" "get_node t i = Some n"
  shows "\<exists>p. path_to_root t i = Some p \<and> p \<noteq> [] \<and> parent_id (hd p) = None \<and> last p = n
    \<and> length p = tn_depth n + 1 \<and> tn_depth n \<le> max_depth cfg
    \<and> successively (\<lambda>a b. parent_id b = Some (tn_id a)) p"
proof -
  have ok: "tree_ok t" "tree_config t = cfg"
    using built_tree_ok [OF tree_new_ok, of rnd cosine ops cfg] assms(1) by (simp_all add: tree_new_def)
  obtain up where up: "ancestors_up t (Some i) = Some (n # up)" "length up = tn_depth n"
      "parent_id (last (n # up)) = None" "successively (\<lambda>a b. parent_id a = Some (tn_id b)) (n # up)"
    using walk_up_ok [OF ok(1) assms(2)] by blast
  have "node_ok t i n" using ok(1) assms(2) by (simp add: tree_ok_def)
  then have "tn_depth n \<le> max_depth cfg"
    using ok(2) by (auto simp: node_ok_def split: option.splits)
  moreover have "successively (\<lambda>a b. parent_id b = Some (tn_id a)) (rev (n # up))"
    using up(4) by (simp only: successively_rev)
  moreover have "hd (rev (n # up)) = last (n # up)" by (rule hd_rev)
  ultimately show ?thesis
    using up(1-3) unfolding path_to_root_def
    by (intro exI [of _ "rev (n # up)"]) (simp del: rev.simps add: last_rev)
qed

theorem thought_paths_witness:
  "let t = fold (tree_step (\<lambda>x. x) (\<lambda>q v. Some 1))
     [Root_Op ''plan'', Child_Op 0 ''look'', Child_Op 1 ''act'', Mark_Op 1, Prune_Op]
     (tree_new \<lparr>max_depth = 4, max_branches = 3, accept_threshold = 1, learning_rate = 0, top_k = 3\<rparr>)
   in \<exists>p. path_to_root t 2 = Some p \<and> length p = 3 \<and> tn_content (last p) = ''act'' \<and> parent_id (hd p) = None"
proof -
  let ?cfg = "\<lparr>max_depth = 4, max_branches = 3, accept_threshold = 1, learning_rate = 0, top_k = 3\<rparr>"
  let ?ops = "[Root_Op ''plan'', Child_Op 0 ''look'', Child_Op 1 ''act'', Mark_Op 1, Prune_Op]"
  define t where "t = fold (tree_step (\<lambda>x. x) (\<lambda>q v. Some 1)) ?ops (tree_new ?cfg)"
  have "\<exists>n. get_node t 2 = Some n \<and> tn_depth n = 2 \<and> tn_content n = ''act''"
    by (simp add: t_def add_root_def add_child_def mark_unscored_def tree_new_def node_root_def node_new_def
        node_prune_def unscored_def Let_def numeral_2_eq_2)
  then show ?thesis
    unfolding t_def [symmetric] Let_def using thought_paths [OF t_def] by fastforce
qed

section \<open>Trees without a judgement\<close>

text \<open>Nothing but an evaluation accepts a node; without one no path is best.\<close>

definition none_accepted :: "ThoughtTree \<Rightarrow> bool" where
  "none_accepted t \<longleftrightarrow> (\<forall>(i, n) \<in> set (nodes t). tn_status n \<noteq> Accepted)"

lemma best_path_none:
  assumes "none_accepted t" "set (order (nodes t)) \<subseteq> set (nodes t)"
  shows "best_path rnd order t = Some []"
proof -
  have "best_from rnd t ns b [] = Some []" if "set ns \<subseteq> set (nodes t)" for ns b
    using that
  proof (induction ns)
    case (Cons e ns)
    obtain i n where e: "e = (i, n)" by fastforce
    then have "tn_status n \<noteq> Accepted" using assms(1) Cons.prems unfolding none_accepted_def by auto
    then show ?case using e Cons by auto
  qed simp
  then show ?thesis using assms(2) by (simp add: best_path_def)
qed

end
