(* ===== verification/Sandbox_Theorems.thy ===== *)
theory Sandbox_Theorems
  imports Sandbox_Exec
begin

text \<open>
  What the command sandbox guarantees, stated on its public operations, with the inputs on which
  a guarantee is exercised. The last section states two behaviours of the code its authors do
  not intend.
\<close>

section \<open>A host on which every call succeeds\<close>

definition hello_child :: Child where
  "hello_child = \<lparr>child_pid = 42, child_polls = [Running 1000, Exited (Some 0)],
     child_stdout = Some [Read_Bytes ''hi''], child_stderr = Some []\<rparr>"

definition calm_os :: exec_os where
  "calm_os =
    \<lparr>getrlimit_err = (\<lambda>_. None), setrlimit_err = (\<lambda>_ _. None),
     write_procs_err = (\<lambda>_. None), unshare_ok = (\<lambda>_. True), fork_answer = Fork_Child,
     pdeathsig_err = None, parent_is_init = False, mount_ok = (\<lambda>_. True), waitpid_answers = [],
     listener_err = None, send_fd_err = None, no_new_privs_err = None, target = X86_64,
     sys_numbers = of_nat \<circ> length, prctl_seccomp = (\<lambda>_ _. Inr ()),
     cgroup_answers = \<lparr>cgroup_dir = None, read_controllers = (\<lambda>_. Inr []),
       create_dir_err = (\<lambda>_. None), write_err = (\<lambda>_ _. None)\<rparr>,
     cgroup_context = None, own_pid = 7, leaf_counter = 0, socketpair = Inr (5, 6),
     recv_fd = Inr 8, egress_events = [], inherited_limits = (\<lambda>_. (100, 200)),
     exec_answer = (\<lambda>_. Inr hello_child), exit_only = hello_child,
     now_start = 10, now_end = 11, elapsed_ms = 1\<rparr>"

lemmas policy_eval = default_policy_def default_limits_def default_hidden_paths_def path_join_def
  is_unlimited_def wants_cgroup_def

lemmas check_eval = check_def Let_def first_token_def ws_len_def ascii_ws_def multi_ws_def trim_def
  find_pattern_def FORBIDDEN_PATTERNS_def SHELL_BYPASS_TOKENS_def SENSITIVE_PATHS_def
  BANNED_BINARIES_def default_policy_def

lemmas normalize_eval = normalize_def neutralize_shell_metachars_def neutralize_ifs_def
  ansi_escape_at_def ansi_open_def ascii_def push_byte_as_char_def

lemmas hook_eval = apply_sandbox_pre_exec_def cgroup_step_def enter_namespaces_def ns_flags_def
  fork_into_namespace_def namespace_child_def egress_step_def limits_step_def seccomp_step_def
  call_def apply_resource_limits_def set_opt_rlimit_def set_one_rlimit_def install_filter_def
  load_bpf_def c_strings_def cover_path_def hook_bind.simps(1)

lemma plain_echo: "plain ''echo hi''"
  by (simp add: plain_def plain_char_def ascii_def)

lemma check_echo: "check (default_policy None) ''echo hi'' = Inr ''echo''"
proof -
  have t: "trim ''echo hi'' = ''echo hi''"
    by (simp add: trim_def ws_len_def ascii_ws_def multi_ws_def)
  show ?thesis
    unfolding check_def t Let_def normalize_plain [OF plain_echo]
    by (simp add: first_token_def ws_len_def ascii_ws_def multi_ws_def
      find_pattern_def FORBIDDEN_PATTERNS_def SHELL_BYPASS_TOKENS_def SENSITIVE_PATHS_def
      BANNED_BINARIES_def default_policy_def)
qed

lemma split_echo: "split_whitespace ''echo hi'' = [''echo'', ''hi'']"
  by (simp add: ws_len_def ascii_ws_def multi_ws_def)

lemma calm_hook:
  "\<exists>lims calls. apply_sandbox_pre_exec calm_os (default_policy None) sock None (inherited_limits calm_os)
     = (Continue lims, calls)"
  by (simp add: hook_eval calm_os_def policy_eval Let_def)

definition hello_verdict :: SandboxVerdict where
  "hello_verdict =
    \<lparr>command = ''echo hi'', command_normalized = ''echo hi'', binary = ''echo'', allowed = True,
     reason = ''ok'', stdout = ''hi'', stderr = [], exit_code = Some 0, duration_ms = 1,
     started_at = 10, finished_at = 11, threats = [], timed_out = False\<rparr>"

lemma calm_spawn:
  "spawn_with_sandbox calm_os ''echo hi'' Null (sandbox_new (default_policy None)) =
     (Finished (Inr hello_child), sandbox_new (default_policy None))"
proof -
  obtain lims calls where h: "apply_sandbox_pre_exec calm_os (default_policy None) (- 1) None
      (inherited_limits calm_os) = (Continue lims, calls)"
    using calm_hook by blast
  have b: "build_command (default_policy None) ''echo hi'' Null =
      Returned (\<lparr>cmd_argv = [''echo'', ''hi''], cmd_stdin = Null, cmd_stdout = Piped,
        cmd_stderr = Piped, cmd_cwd = working_dir (default_policy None), cmd_hook = None\<rparr>,
        ''echo'', [''echo'', ''hi''])"
    unfolding build_command_def split_echo by simp
  have leaf: "make_leaf calm_os (resource_limits (default_policy None)) = Inr None"
    by (simp add: make_leaf_def calm_os_def)
  have e: "egress_policy (default_policy None) = None" by (simp add: default_policy_def)
  have x: "exec_answer calm_os [''echo'', ''hi''] = Inr hello_child" by (simp add: calm_os_def)
  show ?thesis
    by (simp add: spawn_with_sandbox_def b leaf e sandbox_new_def
        command_spawn_def apply_hook_def h x start_supervisor_def)
qed

lemma calm_threats: "cmd_threats (default_policy None) ''echo hi'' = []"
proof -
  have "trim ''echo hi'' = ''echo hi''"
    by (simp add: trim_def ws_len_def ascii_ws_def multi_ws_def)
  moreover have "block_sensitive_paths (default_policy None)" by (simp add: default_policy_def)
  ultimately show ?thesis using check_echo unfolding check_Inr_iff cmd_threats_def by simp
qed

lemma calm_execute:
  "execute calm_os ''echo hi'' (sandbox_new (default_policy None)) =
     (Finished (Inr hello_verdict), record_verdict hello_verdict (sandbox_new (default_policy None)))"
proof -
  have out: "from_utf8_lossy ''hi'' = ''hi''" "from_utf8_lossy [] = []"
    by (simp_all add: from_utf8_lossy_ascii ascii_def)
  have p: "policy (sandbox_new (default_policy None)) = default_policy None"
    by (simp add: sandbox_new_def)
  have w: "wait_with_timeout (default_policy None) (child_polls hello_child)
      (child_stdout hello_child) (child_stderr hello_child) = Some (Some 0, ''hi'', [], False)"
    by (simp add: hello_child_def default_policy_def read_capped_def out)
  have v: "make_verdict calm_os ''echo hi'' ''echo hi'' ''echo'' [] (Some 0, ''hi'', [], False)
      = hello_verdict"
    by (simp add: make_verdict_def hello_verdict_def calm_os_def)
  have l: "log_all (default_policy None)" by (simp add: default_policy_def)
  show ?thesis
    unfolding execute_def p check_echo sanitize_plain [OF plain_echo]
      normalize_plain [OF plain_echo] Let_def
    by (simp add: calm_spawn w v p l log_verdict_def calm_threats)
qed

section \<open>Executions\<close>

text \<open>C1: an execution that returns a verdict ran a process only after the policy's checks and the
  whole isolation hook. The binary the verdict names is the first token of the normalised command; it
  is not banned, it is on the whitelist when there is one, and the normalised command
  contains no forbidden pattern and (as the policy says) no bypass token and no sensitive path.
  The exit code, the output and the timeout flag of the verdict are those of the process that executed
  exactly the argument vector of the sanitised command after the hook had continued, with the control
  group and the egress socket made for it, or of a process that left inside the hook and executed
  nothing; an aborted hook yields no verdict. The
  captured standard output is at most three bytes per permitted byte; and exactly this verdict was
  appended to the history, whose oldest entries make room.\<close>

theorem execute_guarantees:
  assumes "execute os cmd sb = (Finished (Inr v), sb')"
  shows "command v = cmd \<and> allowed v \<and> binary v = head_binary (trim cmd) \<and>
    binary v \<notin> set BANNED_BINARIES \<and> whitelisted (policy sb) (binary v) \<and>
    scan (policy sb) (trim cmd) = [] \<and>
    (block_sensitive_paths (policy sb) \<longrightarrow> scan_paths (trim cmd) = []) \<and>
    reports_run os sb (split_whitespace (sanitize_for_execution cmd)) v \<and>
    length (stdout v) \<le> 3 * max_output_bytes (policy sb) \<and>
    history sb' = (if log_all (policy sb)
                   then drop (Suc (length (history sb)) - history_max sb) (history sb @ [v])
                   else history sb)"
proof -
  from assms obtain child sb1 p where e:
    "check (policy sb) cmd = Inr (binary v)"
    "spawn_with_sandbox os (sanitize_for_execution cmd) Null sb = (Finished (Inr child), sb1)"
    "v = make_verdict os cmd (normalize (sanitize_for_execution cmd)) (binary v)
           (cmd_threats (policy sb) cmd)
           (wait_outcome (policy sb) (child_stdout child) (child_stderr child) p)"
    "sb' = log_verdict v sb1"
    by (rule execute_Finished)
  have "command v = cmd" "allowed v"
    by (subst e(3), simp add: make_verdict_def split: prod.splits)+
  moreover have "length (stdout v) \<le> 3 * max_output_bytes (policy sb)"
    by (subst e(3), cases p) (simp_all add: make_verdict_def captured_length)
  moreover have "history sb' = (if log_all (policy sb)
                   then drop (Suc (length (history sb)) - history_max sb) (history sb @ [v])
                   else history sb)"
    using spawn_keeps [OF e(2)] by (simp add: e(4) log_verdict_history)
  ultimately show ?thesis
    using e(1) execute_reports_run [OF assms] unfolding check_Inr_iff by blast
qed

theorem execute_guarantees_witness:
  "command hello_verdict = ''echo hi'' \<and> binary hello_verdict \<notin> set BANNED_BINARIES \<and>
   reports_run calm_os (sandbox_new (default_policy None))
     (split_whitespace (sanitize_for_execution ''echo hi'')) hello_verdict"
  using execute_guarantees [OF calm_execute] by blast

text \<open>C19: for a command without shell metacharacters (ASCII, none of \<open>$`|&;<>\<close>) what is checked is
  what is run: the command's tokens are the binary that was checked and its arguments, and the verdict's
  exit code, outputs and timeout flag are those of the process that executed exactly these tokens after
  the isolation hook had continued, or of one that left inside the hook and executed nothing.\<close>

theorem execute_runs_what_was_checked:
  assumes "plain cmd" "execute os cmd sb = (Finished (Inr v), sb')"
  shows "\<exists>args. split_whitespace cmd = binary v # args \<and> reports_run os sb (binary v # args) v"
proof -
  from assms(2) have "check (policy sb) cmd = Inr (binary v)"
    by (rule execute_Finished)
  then have "split_whitespace cmd = binary v # tl (split_whitespace cmd)"
    using check_plain_runs_checked_binary(2,3) [OF assms(1)] by (metis list.collapse)
  with execute_reports_run [OF assms(2)] show ?thesis
    unfolding sanitize_plain [OF assms(1)] by metis
qed

theorem execute_runs_what_was_checked_witness:
  "\<exists>args. split_whitespace ''echo hi'' = ''echo'' # args \<and>
     reports_run calm_os (sandbox_new (default_policy None)) (''echo'' # args) hello_verdict"
  using execute_runs_what_was_checked [OF plain_echo calm_execute]
  by (simp add: hello_verdict_def)

text \<open>the only way an execution can panic is a command that passes the checks and has no token
  left once its shell operators are blanked.\<close>

theorem execute_panics_iff:
  "fst (execute os cmd sb) = Crashed \<longleftrightarrow>
     (\<exists>bin. check (policy sb) cmd = Inr bin) \<and> split_whitespace (sanitize_for_execution cmd) = []"
  by (rule execute_crashed_iff)

text \<open>A sandbox used for a sequence of commands, each with the answers the host gives then.\<close>

fun run_session :: "(exec_os \<times> string) list \<Rightarrow> Sandbox \<Rightarrow> Sandbox" where
  "run_session [] sb = sb"
| "run_session ((os, cmd) # rest) sb = run_session rest (snd (execute os cmd sb))"

text \<open>The verdicts such a session logs.\<close>

fun session_verdicts :: "(exec_os \<times> string) list \<Rightarrow> Sandbox \<Rightarrow> SandboxVerdict list" where
  "session_verdicts [] sb = []"
| "session_verdicts ((os, cmd) # rest) sb =
     (case execute os cmd sb of
        (Finished (Inr v), sb') \<Rightarrow> v # session_verdicts rest sb'
      | (_, sb') \<Rightarrow> session_verdicts rest sb')"

lemma execute_history_cases:
  obtains v sb1 where "execute os cmd sb = (Finished (Inr v), log_verdict v sb1)"
      "history sb1 = history sb" "policy sb1 = policy sb" "history_max sb1 = history_max sb"
  | r sb1 where "execute os cmd sb = (r, sb1)" "\<nexists>v. r = Finished (Inr v)"
      "history sb1 = history sb" "policy sb1 = policy sb" "history_max sb1 = history_max sb"
proof -
  obtain r sb1 where s: "spawn_with_sandbox os (sanitize_for_execution cmd) Null sb = (r, sb1)"
    by (cases "spawn_with_sandbox os (sanitize_for_execution cmd) Null sb")
  note k = spawn_keeps [OF s]
  show ?thesis
  proof (cases "\<exists>v sb'. execute os cmd sb = (Finished (Inr v), sb')")
    case True
    then obtain v sb' where e: "execute os cmd sb = (Finished (Inr v), sb')" by blast
    then obtain child sb2 where
      "spawn_with_sandbox os (sanitize_for_execution cmd) Null sb = (Finished (Inr child), sb2)"
      "sb' = log_verdict v sb2"
      by (rule execute_Finished)
    with e s k that(1) show ?thesis by auto
  next
    case False
    moreover obtain r' sb' where e: "execute os cmd sb = (r', sb')" by (cases "execute os cmd sb")
    moreover have "\<nexists>v. r' = Finished (Inr v)" using False e by auto
    moreover from e this have "sb' = sb \<or> sb' = sb1"
      unfolding execute_def s Let_def
      by (auto split: sum.splits exec_result.splits option.splits)
    ultimately show ?thesis using k that(2) by blast
  qed
qed

lemma log_verdict_keeps:
  "policy (log_verdict v sb) = policy sb" "history_max (log_verdict v sb) = history_max sb"
  by (simp_all add: log_verdict_def record_verdict_def)

lemma session_history:
  assumes "log_all (policy sb)" "length (history sb) \<le> history_max sb"
  shows "history (run_session cmds sb) =
           history (fold record_verdict (session_verdicts cmds sb) sb)"
proof -
  have "history sb0 = history sb \<Longrightarrow> history_max sb0 = history_max sb \<Longrightarrow>
        length (history sb) \<le> history_max sb \<Longrightarrow> log_all (policy sb) \<Longrightarrow>
        history (run_session cmds sb) = history (fold record_verdict (session_verdicts cmds sb) sb0)"
    for sb0
  proof (induction cmds arbitrary: sb sb0)
    case (Cons c cmds)
    obtain os cmd where c: "c = (os, cmd)" by (cases c)
    show ?case
    proof (rule execute_history_cases [of os cmd sb])
      fix v sb1
      assume e: "execute os cmd sb = (Finished (Inr v), log_verdict v sb1)"
        "history sb1 = history sb" "policy sb1 = policy sb" "history_max sb1 = history_max sb"
      let ?sb = "log_verdict v sb1"
      have l: "?sb = record_verdict v sb1" using e Cons.prems by (simp add: log_verdict_def)
      have "history (record_verdict v sb0) = history ?sb" "history_max (record_verdict v sb0) = history_max ?sb"
        using e Cons.prems by (simp_all add: l record_verdict_def)
      moreover have "length (history ?sb) \<le> history_max ?sb"
        using record_verdict_bounded [of v sb1] by (simp add: l sh.push_limit)
      moreover have "log_all (policy ?sb)" using e Cons.prems by (simp add: log_verdict_keeps)
      ultimately show ?thesis using Cons.IH [of "record_verdict v sb0" ?sb] e c by simp
    next
      fix r sb1
      assume e: "execute os cmd sb = (r, sb1)" "\<nexists>v. r = Finished (Inr v)"
        "history sb1 = history sb" "policy sb1 = policy sb" "history_max sb1 = history_max sb"
      then have "session_verdicts (c # cmds) sb = session_verdicts cmds sb1"
        using c by (auto split: exec_result.splits sum.splits)
      then show ?thesis using Cons.IH [of sb0 sb1] Cons.prems e c by simp
    qed
  qed simp
  from this [OF refl refl] assms show ?thesis by blast
qed

text \<open>over any sequence of commands, whatever each of them does, the history of a logging
  sandbox is the most recent \<open>history_max\<close> verdicts, in the order in which they were
  returned, after what was there before; it never exceeds its bound.\<close>

theorem session_history_recent:
  assumes "log_all (policy sb)" "length (history sb) \<le> history_max sb"
  shows "history (run_session cmds sb) =
           drop (length (history sb) + length (session_verdicts cmds sb) - history_max sb)
             (history sb @ session_verdicts cmds sb)
         \<and> length (history (run_session cmds sb)) \<le> history_max sb"
  using session_history [OF assms, of cmds] sh.fold_push(1) [OF assms(2)]
    sh.fold_push_within [OF assms(2)] by metis

theorem session_history_recent_witness:
  "length (history (run_session [(calm_os, ''echo hi'')] (sandbox_new (default_policy None)))) \<le> 200"
  using session_history_recent [of "sandbox_new (default_policy None)" "[(calm_os, ''echo hi'')]"]
  by (simp add: sandbox_new_def default_policy_def)

text \<open>the wait loop always returns. The loop sleeps 20 ms between polls, so the i-th poll of a
  running process sees at least \<open>20 * i\<close> ms elapsed; with as many polls as fit into the
  deadline, and two more, the loop has returned, by an exit, an error or the deadline.\<close>

theorem wait_with_timeout_returns:
  assumes "\<And>i e. i < length polls \<Longrightarrow> polls ! i = Running e \<Longrightarrow> i * 20000000 \<le> e"
    and "timeout pol div 20000000 + 1 < length polls"
  shows "\<exists>w. wait_with_timeout pol polls out err = Some w"
  using assms by (rule wait_returns)

theorem wait_with_timeout_returns_witness:
  "\<exists>w. wait_with_timeout ((default_policy None)\<lparr>timeout := 5\<rparr>) [Running 0, Running 20000000] None None = Some w"
proof (rule wait_with_timeout_returns)
  fix i e
  assume "i < length [Running 0, Running 20000000]" "[Running 0, Running 20000000] ! i = Running e"
  then show "i * 20000000 \<le> e" by (cases i) auto
qed simp

text \<open>reading in chunks and discarding what exceeds the cap keeps exactly the bytes that reading
  up to the cap keeps, as long as no read is interrupted by a signal.\<close>

theorem read_capped_draining_equiv:
  assumes "Read_Interrupted \<notin> set reader"
  shows "read_capped_draining reader max_bytes = read_capped reader max_bytes"
  using assms by (rule read_capped_draining_eq)

theorem read_capped_draining_equiv_witness:
  "read_capped_draining [Read_Bytes ''ab'', Read_Bytes ''cd'', Read_Error] 3 =
   read_capped [Read_Bytes ''ab'', Read_Bytes ''cd'', Read_Error] 3"
  by (rule read_capped_draining_equiv) simp

section \<open>Isolation\<close>

text \<open>C5: a process reaches \<open>exec\<close> exactly when every mandatory call of the hook succeeded: joining
  the control group (when it has one), the egress listener and handing over its descriptor (when there is
  an egress socket), reading and setting every configured resource limit, \<open>no_new_privs\<close> and the seccomp
  profile (when there is one), and, when the PID namespace could be created, being its inner process, bound
  to the death of a parent that is still alive. The last calls before \<open>exec\<close> are then, in this order, the
  egress listener, the resource limits and the seccomp profile; no limit is
  above the inherited hard limit and every configured limit is in force on both levels.\<close>

theorem pre_exec_fail_closed:
  assumes "apply_sandbox_pre_exec os pol sock procs lims = (r, calls)"
  shows "((\<exists>lims'. r = Continue lims') \<longleftrightarrow>
      (\<forall>f. procs = Some f \<longrightarrow> write_procs_err os f = None) \<and>
      (pid_isolated pol \<and> unshare_ok os ({CLONE_NEWUSER} \<union> ns_flags pol) \<longrightarrow>
         fork_answer os = Fork_Child \<and> pdeathsig_err os = None \<and> \<not> parent_is_init os) \<and>
      (sock \<ge> 0 \<longrightarrow> listener_err os = None \<and> send_fd_err os = None) \<and>
      (\<forall>x v. configured (resource_limits pol) x = Some v \<longrightarrow> getrlimit_err os x = None \<and>
         setrlimit_err os x (min v (snd (lims x)), min v (snd (lims x))) = None) \<and>
      (\<forall>p. seccomp_profile pol = Some p \<longrightarrow> no_new_privs_err os = None \<and>
         install_filter (target os) (sys_numbers os) (prctl_seccomp os) p = Inr ())) \<and>
    (\<forall>lims'. r = Continue lims' \<longrightarrow>
      (\<forall>x. case configured (resource_limits pol) x of
             None \<Rightarrow> lims' x = lims x
           | Some v \<Rightarrow> lims' x = (min v (snd (lims x)), min v (snd (lims x)))) \<and>
      (\<exists>before.
         calls = before
           @ (if sock \<ge> 0 then [Install_Listener, Send_Listener sock] else [])
           @ [Set_Rlimits]
           @ (case seccomp_profile pol of None \<Rightarrow> [] | Some p \<Rightarrow> [Set_No_New_Privs, Install_Filter p]) \<and>
         (\<forall>f. procs = Some f \<longrightarrow> Write_Procs f \<in> set before) \<and>
         (pid_isolated pol \<and> unshare_ok os ({CLONE_NEWUSER} \<union> ns_flags pol) \<longrightarrow>
            Set_Pdeathsig \<in> set before)))"
    (is "(?continues \<longleftrightarrow> ?ok) \<and> (\<forall>lims'. r = Continue lims' \<longrightarrow> ?limits lims' \<and> ?calls)")
proof -
  have "?continues \<longleftrightarrow> isolation_succeeds os pol sock procs lims"
    using pre_exec_Continue_iff [of os pol sock procs lims] assms by simp
  also have "\<dots> \<longleftrightarrow> ?ok"
    by (simp add: isolation_succeeds_def rlimit_calls_ok_def clamped_def pid_namespace_def
        imp_conjR all_conj_distrib not_None_eq conj_ac split: option.splits)
  finally have "?continues \<longleftrightarrow> ?ok" .
  moreover have "?limits lims' \<and> ?calls" if "r = Continue lims'" for lims'
    using pre_exec_Continue_calls [OF assms [unfolded that]]
    unfolding pid_namespace_def by (auto simp: clamped_def split: option.splits)
  ultimately show ?thesis by blast
qed

theorem pre_exec_fail_closed_witness:
  "\<exists>lims calls before.
     apply_sandbox_pre_exec calm_os (default_policy None) 4 None (inherited_limits calm_os) = (Continue lims, calls) \<and>
     calls = before @ [Install_Listener, Send_Listener 4, Set_Rlimits, Set_No_New_Privs, Install_Filter ''default'']"
proof -
  obtain lims calls where h: "apply_sandbox_pre_exec calm_os (default_policy None) 4 None
      (inherited_limits calm_os) = (Continue lims, calls)"
    using calm_hook by blast
  have "seccomp_profile (default_policy None) = Some ''default''" by (simp add: default_policy_def)
  with pre_exec_fail_closed [OF h] h show ?thesis by auto
qed

text \<open>C16: what the installed programs decide. Running the program of a profile on a system call kills
  a process of another architecture; the two allow-lists let exactly their numbers through and
  answer the others with \<open>EPERM\<close>; the default profile answers exactly the dangerous
  numbers with \<open>EPERM\<close> and lets the others through; and the length handed to the kernel as a
  16-bit number is the program's length.\<close>

theorem seccomp_profile_meaning:
  assumes "profile_program arch sys profile = Some prog"
  shows "filter_verdict prog nr ar =
      Some (if ar \<noteq> AUDIT_ARCH arch then SECCOMP_RET_KILL_PROCESS
            else if profile = ''default''
              then (if nr \<in> ucast ` set (dangerous_syscalls arch sys)
                    then SECCOMP_RET_ERRNO OR EPERM else SECCOMP_RET_ALLOW)
            else (if nr \<in> ucast ` set (if profile = ''strict'' then STRICT_SYSCALLS sys
                                      else DEFAULT_SYSCALLS sys)
                  then SECCOMP_RET_ALLOW else SECCOMP_RET_ERRNO OR EPERM))
    \<and> unat (of_nat (length prog) :: u16) = length prog"
proof -
  have "errno_action EPERM = SECCOMP_RET_ERRNO OR EPERM"
    by (simp add: errno_action_def seccomp_constants)
  then show ?thesis
    using assms profile_program_length [OF assms]
    by (auto simp: profile_program_def allowlist_filter_verdict denylist_filter_verdict
        split: if_splits)
qed

theorem seccomp_profile_meaning_witness:
  "filter_verdict (build_bpf_filter X86_64 (STRICT_SYSCALLS (of_nat \<circ> length)) EPERM) 9 0xC000003E
     = Some (SECCOMP_RET_ERRNO OR EPERM)"
proof -
  have "profile_program X86_64 (of_nat \<circ> length) ''strict'' =
      Some (build_bpf_filter X86_64 (STRICT_SYSCALLS (of_nat \<circ> length)) EPERM)"
    by (simp add: profile_program_def)
  from seccomp_profile_meaning [OF this, of 9 "0xC000003E"]
  show ?thesis by (simp add: STRICT_SYSCALLS_def)
qed

text \<open>C15: the egress supervisor answers exactly the live notifications, each once and in order, with
  the notification's own id: it lets the call continue if and only if the destination decodes to a
  permitted address, and fails it with \<open>EACCES\<close> otherwise. A destination it cannot decode
  is refused. When the log can be written, the log records these decisions.\<close>

theorem egress_supervisor_answers:
  "let fin = supervise pol evs \<lparr>sup_log = [], sup_sent = [], sup_closed = False\<rparr> in
   sup_sent fin =
     map (\<lambda>ev. if \<exists>addr \<in> allowed_set pol.
                    decode_request (target_memory ev) (the (received ev)) = Some addr
               then \<lparr>resp_id = notif_id (the (received ev)), resp_val = 0, resp_error = 0, resp_flags = 1\<rparr>
               else \<lparr>resp_id = notif_id (the (received ev)), resp_val = 0, resp_error = - 13, resp_flags = 0\<rparr>)
         (served evs)
   \<and> (list_all log_lockable evs \<longrightarrow>
        map decision_allowed (sup_log fin) = map (\<lambda>r. resp_flags r = 1) (sup_sent fin))"
proof -
  let ?st = "\<lparr>sup_log = [], sup_sent = [], sup_closed = False\<rparr>"
  have 1: "sup_sent (supervise pol evs ?st) =
      map (\<lambda>ev. notif_response (the (received ev)) (may_connect pol ev)) (served evs)"
    by (simp add: supervise_sent)
  have "map decision_allowed (sup_log (supervise pol evs ?st)) = map (may_connect pol) (served evs)"
    if "list_all log_lockable evs"
    using arg_cong [OF supervise_log [of evs pol ?st], of "map snd"] that
    by (simp add: list_all_iff comp_def)
  with 1 show ?thesis
    by (auto simp: Let_def notif_response_def may_connect_def EACCES_def)
qed

theorem egress_supervisor_answers_witness:
  "let ev = \<lparr>received = Some \<lparr>notif_id = 9, notif_pid = 1, notif_flags = 0,
               notif_data = \<lparr>sd_nr = 42, sd_arch = 0, sd_instruction_pointer = 0, sd_args = [3, 0, 16]\<rparr>\<rparr>,
             target_memory = (\<lambda>_ _ _. Some (encode_sockaddr (SocketAddrV4 1 443))),
             still_valid = True, log_lockable = True, send_ok = True\<rparr> in
   map resp_flags (sup_sent (supervise (allow_addr (SocketAddrV4 1 443) deny_all) [ev, ev]
     \<lparr>sup_log = [], sup_sent = [], sup_closed = False\<rparr>)) = [1, 1]"
  using egress_supervisor_answers [of "allow_addr (SocketAddrV4 1 443) deny_all"]
  by (simp add: Let_def allow_addr_def deny_all_def decode_request_def decode_encode
      del: encode_sockaddr.simps supervise.simps)

text \<open>a destination survives the trip through the target's memory: decoding the bytes of a
  \<open>sockaddr_in\<close> or \<open>sockaddr_in6\<close> gives back its address and port (flow information and scope
  are not compared).\<close>

theorem decode_sockaddr_roundtrip:
  "decode_sockaddr (encode_sockaddr addr) =
     Some (case addr of SocketAddrV4 a p \<Rightarrow> SocketAddrV4 a p
                      | SocketAddrV6 a p f sc \<Rightarrow> SocketAddrV6 a p 0 0)"
  by (rule decode_encode)

section \<open>Texts and argument vectors\<close>

text \<open>sanitising a command blanks every pipe, redirection and separator and every doubled
  ampersand, keeps the command's length, and does nothing to a text that is already clean; the
  normal form the checks look at has no backtick and no \<open>$(\<close>.\<close>

theorem sanitize_and_normalize_clean:
  "(\<forall>c \<in> set (sanitize_for_execution cmd). c \<notin> set ''|;<>'') \<and>
   \<not> contains (sanitize_for_execution cmd) ''&&'' \<and>
   length (sanitize_for_execution cmd) = length cmd \<and>
   sanitize_for_execution (sanitize_for_execution cmd) = sanitize_for_execution cmd \<and>
   CHR ''`'' \<notin> set (normalize cmd) \<and> \<not> contains (normalize cmd) ''$(''"
proof -
  have "\<forall>c \<in> set (sanitize_for_execution cmd). c \<notin> set ''|;<>''"
    using redirects_no_operator [of _ cmd]
    by (auto simp: sanitize_for_execution_def shell_operator_def)
  moreover have "\<not> contains (sanitize_for_execution cmd) ''&&''"
    "length (sanitize_for_execution cmd) = length cmd"
    unfolding sanitize_for_execution_def by (rule redirects_no_and redirects_length)+
  ultimately show ?thesis
    by (simp add: sanitize_idem normalize_no_backtick normalize_no_substitution)
qed

theorem sanitize_and_normalize_clean_witness:
  "\<not> contains (sanitize_for_execution ''a && b | c'') ''&&''"
  using sanitize_and_normalize_clean [of "''a && b | c''"] by blast

text \<open>a specification built from flags and values resolves exactly when its program is not blank
  and no caller-supplied value begins with a dash or contains a NUL byte; the argument vector is
  then the program followed by the arguments as given, one element each.\<close>

theorem spawn_spec_preview:
  assumes "\<forall>a \<in> set as. arg_text a \<noteq> VALUE_SENTINEL"
  shows "preview (spec_of prog as) = Inr argv \<longleftrightarrow>
           trim prog \<noteq> [] \<and> list_all arg_safe as \<and> argv = prog # map arg_text as"
  using assms by (rule preview_spec_of)

theorem spawn_spec_preview_witness:
  "preview (spec_of ''ls'' [Flag ''-l'', Value ''a b'']) = Inr [''ls'', ''-l'', ''a b'']"
  using spawn_spec_preview [of "[Flag ''-l'', Value ''a b'']" "''ls''" "[''ls'', ''-l'', ''a b'']"]
  by (simp add: VALUE_SENTINEL_def trim_def ws_len_def ascii_ws_def multi_ws_def)

text \<open>a supervised command exists only for a specification that resolves and whose argument
  vector passes the policy: the program is not banned and on the whitelist when there is one, the
  normalised command line has no forbidden pattern, and no argument mentions a sensitive path
  when the policy blocks them. Its isolation hook is registered.\<close>

theorem supervised_command_checked:
  assumes "supervised_command pol spec = Inr c"
  shows "preview spec = Inr (cmd_argv c) \<and> cmd_hook c \<noteq> None \<and>
    (\<exists>prog args. cmd_argv c = prog # args \<and> prog \<notin> set BANNED_BINARIES \<and> whitelisted pol prog \<and>
       scan pol (join '' '' (cmd_argv c)) = [] \<and>
       (block_sensitive_paths pol \<longrightarrow>
          (\<forall>arg \<in> set args. \<forall>path \<in> set SENSITIVE_PATHS. \<not> contains arg path)))"
  using supervised_command_Inr [OF assms] by (auto simp: check_argv_Inr_iff)

lemma ls_command:
  "supervised_command (default_policy None) (spec_of ''ls'' [Flag ''-l'']) =
     Inr \<lparr>cmd_argv = [''ls'', ''-l''], cmd_stdin = Null, cmd_stdout = Null, cmd_stderr = Null,
          cmd_cwd = None, cmd_hook = Some None\<rparr>"
proof -
  have p: "plain ''ls -l''" by (simp add: plain_def plain_char_def ascii_def)
  have a: "args (spec_of ''ls'' [Flag ''-l'']) = [''-l'']" "program (spec_of ''ls'' [Flag ''-l'']) = ''ls''"
    "piped (spec_of ''ls'' [Flag ''-l'']) = False"
    by (simp_all add: spec_of_def spec_new_def spec_flag_def)
  have "resolve (spec_of ''ls'' [Flag ''-l'']) = Inr (''ls'', [''-l''])"
    by (simp add: resolve_def a trim_def ws_len_def ascii_ws_def multi_ws_def VALUE_SENTINEL_def)
  moreover have "check_argv (default_policy None) [''ls'', ''-l''] = Inr ''ls''"
    using p by (simp add: check_argv_def Let_def normalize_plain trim_def ws_len_def ascii_ws_def
        multi_ws_def whitelisted_def find_pattern_def FORBIDDEN_PATTERNS_def SHELL_BYPASS_TOKENS_def
        SENSITIVE_PATHS_def BANNED_BINARIES_def default_policy_def)
  moreover have "working_dir (default_policy None) = None" by (simp add: default_policy_def)
  ultimately show ?thesis by (simp add: supervised_command_def a apply_hook_def)
qed

theorem supervised_command_checked_witness:
  "preview (spec_of ''ls'' [Flag ''-l'']) = Inr [''ls'', ''-l'']"
  using supervised_command_checked [OF ls_command] by simp

section \<open>Behaviours the authors do not intend\<close>

text \<open>what is run is not always what was checked. With the default policy the command
  \<open>;bash run\<close> passes the check, which looks at the token \<open>;bash\<close>, and the process started is the
  banned binary \<open>bash\<close>; and the command \<open>;\<close> passes the check and then makes the execution
  panic, whatever the host.\<close>

theorem execute_separator_bypass:
  "check (default_policy None) '';bash run'' = Inr '';bash'' \<and>
   build_command (default_policy None) (sanitize_for_execution '';bash run'') Null =
     Returned (\<lparr>cmd_argv = [''bash'', ''run''], cmd_stdin = Null, cmd_stdout = Piped,
       cmd_stderr = Piped, cmd_cwd = None, cmd_hook = None\<rparr>, ''bash'', [''bash'', ''run'']) \<and>
   ''bash'' \<in> set BANNED_BINARIES \<and>
   fst (execute os '';'' (sandbox_new (default_policy None))) = Crashed"
proof -
  have 1: "check (default_policy None) '';bash run'' = Inr '';bash''"
    by (simp add: check_eval normalize_eval)
  have 2: "sanitize_for_execution '';bash run'' = '' bash run''" "sanitize_for_execution '';'' = '' ''"
    by (simp_all add: sanitize_for_execution_def neutralize_redirects_and_pipes.simps)
  have 3: "split_whitespace '' bash run'' = [''bash'', ''run'']" "split_whitespace '' '' = []"
    by (simp_all add: ws_len_def ascii_ws_def multi_ws_def)
  have 4: "\<exists>bin. check (default_policy None) '';'' = Inr bin"
    by (simp add: check_eval normalize_eval)
  have "fst (execute os '';'' (sandbox_new (default_policy None))) = Crashed"
    unfolding execute_crashed_iff 2 using 4 3(2) by (simp add: sandbox_new_def)
  moreover have "build_command (default_policy None) (sanitize_for_execution '';bash run'') Null =
     Returned (\<lparr>cmd_argv = [''bash'', ''run''], cmd_stdin = Null, cmd_stdout = Piped,
       cmd_stderr = Piped, cmd_cwd = None, cmd_hook = None\<rparr>, ''bash'', [''bash'', ''run''])"
    unfolding 2 build_command_def 3(1) by (simp add: default_policy_def)
  ultimately show ?thesis using 1 by (simp add: BANNED_BINARIES_def)
qed

lemma hook_ignores_egress_policy:
  "apply_sandbox_pre_exec os (pol\<lparr>egress_policy := p\<rparr>) sock procs lims =
   apply_sandbox_pre_exec os pol sock procs lims"
proof -
  have "ns_flags (pol\<lparr>egress_policy := p\<rparr>) = ns_flags pol" by (simp add: ns_flags_def)
  then have "enter_namespaces os (pol\<lparr>egress_policy := p\<rparr>) = enter_namespaces os pol"
    by (simp add: enter_namespaces_def)
  moreover have "namespace_child os (pol\<lparr>egress_policy := p\<rparr>) = namespace_child os pol"
    by (simp add: fun_eq_iff namespace_child_def)
  then have "fork_into_namespace os (pol\<lparr>egress_policy := p\<rparr>) = fork_into_namespace os pol"
    unfolding fork_into_namespace_def by presburger
  ultimately show ?thesis by (simp add: apply_sandbox_pre_exec_def)
qed

lemma policy_egress_irrelevant:
  "check (pol\<lparr>egress_policy := p\<rparr>) = check pol"
  "build_command (pol\<lparr>egress_policy := p\<rparr>) = build_command pol"
  "cmd_threats (pol\<lparr>egress_policy := p\<rparr>) = cmd_threats pol"
  "command_spawn os (pol\<lparr>egress_policy := p\<rparr>) = command_spawn os pol"
  by (simp_all add: fun_eq_iff check_def build_command_def cmd_threats_def scan_def Let_def
      command_spawn_def hook_ignores_egress_policy split: option.splits list.splits)

lemma wait_egress_irrelevant:
  "wait_with_timeout (pol\<lparr>egress_policy := p\<rparr>) polls out err = wait_with_timeout pol polls out err"
proof (induction polls)
  case (Cons q polls)
  then show ?case by (cases q) simp_all
qed simp

text \<open>the egress policy has no effect on a command that is given standard input: the result is the
  same with any policy and with none, so such a command keeps the network the policy was meant to
  restrict.\<close>

theorem execute_with_stdin_ignores_egress:
  "fst (execute_with_stdin os cmd (set_policy (pol\<lparr>egress_policy := p\<rparr>) sb)) =
   fst (execute_with_stdin os cmd (set_policy (pol\<lparr>egress_policy := None\<rparr>) sb))"
  by (simp add: execute_with_stdin_def set_policy_def policy_egress_irrelevant Let_def
      wait_egress_irrelevant split: sum.splits run.splits option.splits)

end
