(* ===== verification/Tools_Confine.thy ===== *)
theory Tools_Confine
  imports Tools Sandbox_Theorems
begin

text \<open>
  What the confinement of \<open>soul_tools\<close> guarantees: every file operation of a dispatched call is on a
  path below the workspace root, free of \<open>..\<close> and \<open>.git\<close>, and a file changes only by the rename of a
  complete temporary file. The one thing used of the operating system is what \<open>canonicalize\<close>
  documents: its answer is absolute and has no \<open>..\<close> component.
\<close>

section \<open>Components\<close>

lemma split_char_append_sep:
  "split_char sep (b @ sep # t) = split_char sep b @ split_char sep t"
  by (induction b) (auto split: list.splits)

lemma split_char_pieces: "p \<in> set (split_char sep s) \<Longrightarrow> sep \<notin> set p"
  by (induction s arbitrary: p) (auto split: list.splits if_splits)

text \<open>A name that can be a component: what \<open>file_name\<close> returns.\<close>

definition proper_name :: "string \<Rightarrow> bool" where
  "proper_name x \<longleftrightarrow> x \<noteq> [] \<and> x \<noteq> ''.'' \<and> x \<noteq> ''..'' \<and> CHR ''/'' \<notin> set x"

lemma absolute_split: "is_absolute s \<Longrightarrow> split_body s = (''/'', tl s)"
  by (simp add: is_absolute_def split_body_def)

lemma absolute_Cons: "is_absolute s \<longleftrightarrow> (\<exists>b. s = CHR ''/'' # b)"
  by (cases s) (auto simp: is_absolute_def)

lemma components_absolute:
  "is_absolute s \<Longrightarrow> components s = ''/'' # filter (\<lambda>p. \<not> blank p) (split_char CHR ''/'' (tl s))"
  by (simp add: components_def absolute_split)

lemma path_push_absolute: "is_absolute p \<Longrightarrow> is_absolute (path_push p x)"
  by (auto simp: path_push_def absolute_Cons)

lemma components_path_push:
  assumes "is_absolute p" "x \<noteq> []" "x \<noteq> ''.''" "CHR ''/'' \<notin> set x"
  shows "components (path_push p x) = components p @ [x]"
proof -
  obtain b where p: "p = CHR ''/'' # b" using assms(1) absolute_Cons by blast
  have x: "\<not> is_absolute x" "\<not> blank x" "split_char CHR ''/'' x = [x]"
    using assms(2-4) by (auto simp: absolute_Cons blank_def split_char_single)
  show ?thesis
  proof (cases "b = [] \<or> last b \<noteq> CHR ''/''")
    case True
    then show ?thesis
      using x p components_absolute [of p] components_absolute [of "path_push p x"]
      by (auto simp: path_push_def absolute_Cons split_char_append_sep blank_def)
  next
    case False
    then obtain b' where "b = b' @ [CHR ''/'']" by (metis append_butlast_last_id)
    then show ?thesis
      using x p components_absolute [of p] components_absolute [of "path_push p x"]
      by (auto simp: path_push_def absolute_Cons split_char_append_sep [of _ b' "[]"]
          split_char_append_sep blank_def)
  qed
qed

lemma file_name_proper: "file_name s = Some x \<Longrightarrow> proper_name x"
proof -
  assume fn: "file_name s = Some x"
  obtain pre body where sb: "split_body s = (pre, body)" by (cases "split_body s")
  define ps where "ps = drop_blank (split_char CHR ''/'' body)"
  have ps: "ps \<noteq> []" "x = last ps" "x \<noteq> ''..''"
    using fn sb by (auto simp: file_name_def ps_def Let_def split: if_splits)
  then have "x \<in> set (split_char CHR ''/'' body)"
    by (metis drop_blank_take in_set_takeD last_in_set ps_def)
  then show ?thesis
    using split_char_pieces drop_blank_last [of "split_char CHR ''/'' body"] ps
    by (auto simp: proper_name_def blank_def ps_def)
qed

lemma filter_drop_blank: "filter (\<lambda>p. \<not> blank p) (drop_blank ps) = filter (\<lambda>p. \<not> blank p) ps"
proof (induction ps rule: rev_induct)
  case (snoc p ps)
  then show ?case by (cases "blank p") (simp_all add: drop_blank_def)
qed (simp add: drop_blank_def)

lemma filter_join_split:
  assumes "\<And>p. p \<in> set ps \<Longrightarrow> CHR ''/'' \<notin> set p"
  shows "filter (\<lambda>p. \<not> blank p) (split_char CHR ''/'' (join ''/'' ps)) = filter (\<lambda>p. \<not> blank p) ps"
  using assms by (cases "ps = []") (simp_all add: split_char_join, simp add: blank_def)

lemma components_parent:
  assumes "is_absolute p" "path_parent p = Some d"
  shows "is_absolute d \<and> components d = butlast (components p)"
proof -
  define qs where "qs = split_char CHR ''/'' (tl p)"
  define ps where "ps = drop_blank qs"
  have ps: "ps \<noteq> []" and d: "d = ''/'' @ join ''/'' (drop_blank (butlast ps))"
    using assms by (auto simp: path_parent_def absolute_split ps_def qs_def Let_def split: if_splits)
  have "set (drop_blank (butlast ps)) \<subseteq> set qs"
    by (metis drop_blank_take in_set_butlastD in_set_takeD ps_def subsetI)
  then have "filter (\<lambda>p. \<not> blank p) (split_char CHR ''/'' (tl d)) = filter (\<lambda>p. \<not> blank p) (butlast ps)"
    using filter_join_split [of "drop_blank (butlast ps)"] split_char_pieces
    by (auto simp: d qs_def filter_drop_blank subset_iff)
  moreover have "filter (\<lambda>p. \<not> blank p) qs = filter (\<lambda>p. \<not> blank p) (butlast ps) @ [last ps]"
  proof -
    have "filter (\<lambda>p. \<not> blank p) qs = filter (\<lambda>p. \<not> blank p) (butlast ps @ [last ps])"
      using ps by (simp add: ps_def filter_drop_blank del: filter_append)
    then show ?thesis using drop_blank_last [of qs] ps by (simp add: ps_def)
  qed
  moreover have "is_absolute d" by (simp add: d is_absolute_def)
  ultimately show ?thesis
    using assms(1) by (simp add: components_absolute qs_def)
qed

section \<open>Resolution\<close>

definition canonical_os :: "tool_os \<Rightarrow> bool" where
  "canonical_os os \<longleftrightarrow>
     (\<forall>p q. canonicalize os p = Inr q \<longrightarrow> is_absolute q \<and> ''..'' \<notin> set (components q))"

definition inside :: "string \<Rightarrow> string \<Rightarrow> bool" where
  "inside rt p \<longleftrightarrow> is_absolute p \<and> path_starts_with p rt
     \<and> ''..'' \<notin> set (components p) \<and> ''.git'' \<notin> set (components p)"

lemma walk_up_names:
  "walk_up os e m = Some (existing, m') \<Longrightarrow>
   exists os existing \<and> (\<exists>names. m' = m @ names \<and> list_all proper_name names)"
proof (induction os e m rule: walk_up.induct)
  case (1 os e m)
  show ?case
  proof (cases "exists os e")
    case True
    with 1(2) show ?thesis by (simp add: walk_up.simps)
  next
    case False
    then obtain p where p: "path_parent e = Some p"
      "walk_up os p (m @ (case file_name e of Some n \<Rightarrow> [n] | None \<Rightarrow> [])) = Some (existing, m')"
      using 1(2) by (auto simp: walk_up.simps [of os e m] split: option.splits)
    from 1(1) [OF False p] show ?thesis
      using file_name_proper [of e] by (fastforce split: option.splits)
  qed
qed

lemma push_all_proper:
  "list_all proper_name names \<Longrightarrow> is_absolute p \<Longrightarrow>
   \<exists>r. push_all requested p names = Inr r \<and> is_absolute r \<and> components r = components p @ names"
proof (induction names arbitrary: p)
  case (Cons x names)
  then show ?case
    using Cons.IH [OF _ path_push_absolute, of p x] components_path_push [of p x]
    by (auto simp: proper_name_def)
qed simp

text \<open>An admitted path: the canonical form of an existing path inside the root, and the names of the
  components that do not exist yet.\<close>

lemma resolve_path_inside:
  assumes "canonical_os os" "resolve_path os pol requested must_exist = Inr p"
  obtains existing canon names where "exists os existing" "canonicalize os existing = Inr canon"
    "path_starts_with canon (root pol)" "components p = components canon @ names"
    "list_all proper_name names" "must_exist \<longrightarrow> names = []" "inside (root pol) p"
proof -
  from assms(2) obtain existing missing canon where
    w: "walk_up os (if is_absolute requested then requested else path_push (root pol) requested) []
          = Some (existing, missing)"
    and m: "must_exist \<longrightarrow> missing = []" and c: "canonicalize os existing = Inr canon"
    and sw: "path_starts_with canon (root pol)"
    and r: "push_all requested canon (rev missing) = Inr p" "''.git'' \<notin> set (components p)"
      "path_starts_with p (root pol)"
    by (auto simp: resolve_path_def Let_def bind_res_Inr_iff split: if_splits option.splits sum.splits)
  have names: "exists os existing" "list_all proper_name (rev missing)"
    using walk_up_names [OF w] by (auto simp: list_all_iff)
  have abs: "is_absolute canon" "''..'' \<notin> set (components canon)"
    using assms(1) c by (auto simp: canonical_os_def)
  have p: "is_absolute p" "components p = components canon @ rev missing"
    using push_all_proper [OF names(2) abs(1), of requested] r(1) by auto
  have "inside (root pol) p"
    using p r(2,3) abs(2) names(2) by (auto simp: inside_def list_all_iff proper_name_def)
  with names(1) c sw p(2) names(2) m show thesis by (intro that [of existing canon "rev missing"]) auto
qed

lemma set_from_utf8_lossy: "set (from_utf8_lossy s) \<subseteq> set s \<union> set replacement"
proof (induction s rule: from_utf8_lossy.induct)
  case (1 s)
  show ?case
  proof (cases "s = []")
    case False
    obtain v n where c: "utf8_chunk s = (v, n)" by (cases "utf8_chunk s")
    have "set (from_utf8_lossy (drop n s)) \<subseteq> set s \<union> set replacement"
      using 1 [OF False c [symmetric]] set_drop_subset [of n s] by blast
    then show ?thesis
      using c set_take_subset [of n s] by (subst from_utf8_lossy.simps) auto
  qed (simp add: from_utf8_lossy.simps [of "[]"])
qed

lemma dec_chars_plain: "set (show_nat n) \<subseteq> set ''0123456789''"
proof (induction n rule: show_nat.induct)
  case (1 n)
  have d: "dec_char m \<in> set ''0123456789''" if "m < 10" for m
    unfolding dec_char_def using that by (intro nth_mem) simp
  show ?case
  proof (cases "n < 10")
    case False
    with 1 d [of "n mod 10"] show ?thesis by (subst show_nat.simps) auto
  qed (subst show_nat.simps, use d in auto)
qed

lemma temp_name_plain:
  assumes "proper_name fname"
  shows "CHR ''/'' \<notin> set (temp_name os fname)" "temp_name os fname \<noteq> []" "temp_name os fname \<noteq> ''.''"
    "temp_name os fname \<noteq> ''..''" "temp_name os fname \<noteq> ''.git''"
proof -
  show "CHR ''/'' \<notin> set (temp_name os fname)"
    using assms set_from_utf8_lossy [of fname] dec_chars_plain
    by (auto simp: temp_name_def proper_name_def replacement_def)
  have "length (temp_name os fname) > 10" by (simp add: temp_name_def)
  then show "temp_name os fname \<noteq> []" "temp_name os fname \<noteq> ''.''" "temp_name os fname \<noteq> ''..''"
    "temp_name os fname \<noteq> ''.git''" by auto
qed

lemma from_utf8_lossy_longer: "length s \<le> length (from_utf8_lossy s)"
proof (induction s rule: from_utf8_lossy.induct)
  case (1 s)
  show ?case
  proof (cases "s = []")
    case False
    obtain v n where c: "utf8_chunk s = (v, n)" by (cases "utf8_chunk s")
    have "length s - n \<le> length (from_utf8_lossy (drop n s))"
      using 1 [OF False c [symmetric]] by simp
    moreover have "n \<le> 3" if "\<not> v"
      using c that by (auto simp: utf8_chunk_def Let_def split: if_splits)
    ultimately show ?thesis
      using c by (subst from_utf8_lossy.simps) (auto simp: replacement_def)
  qed simp
qed

lemma temp_name_fresh: "temp_name os fname \<noteq> fname"
proof
  assume "temp_name os fname = fname"
  then have "length (temp_name os fname) = length fname" by simp
  then show False using from_utf8_lossy_longer [of fname] by (simp add: temp_name_def)
qed

lemma file_name_component:
  assumes "is_absolute p" "file_name p = Some fname"
  shows "components p = butlast (components p) @ [fname]"
proof -
  define ps where "ps = drop_blank (split_char CHR ''/'' (tl p))"
  have ps: "ps \<noteq> []" "fname = last ps"
    using assms by (auto simp: file_name_def absolute_split ps_def Let_def split: if_splits)
  have "components p = ''/'' # filter (\<lambda>p. \<not> blank p) ps"
    using components_absolute [OF assms(1)] by (simp add: ps_def filter_drop_blank)
  moreover have "\<not> blank (last ps)" using drop_blank_last ps(1) by (simp add: ps_def)
  ultimately show ?thesis
    using ps by (cases ps rule: rev_cases) simp_all
qed

section \<open>Dispatch\<close>

text \<open>A temporary file beside its target: in the same directory, under a hidden \<open>.soultmp-\<close> name that
  is not the name of the target. It is inside the root when the target is not the root itself.\<close>

definition temp_beside :: "string \<Rightarrow> string \<Rightarrow> string \<Rightarrow> bool" where
  "temp_beside rt t p \<longleftrightarrow> is_absolute t \<and> components t \<noteq> components p
     \<and> (\<exists>stem suffix. components t = butlast (components p) @ [''.'' @ stem @ ''.soultmp-'' @ suffix])
     \<and> (components p = components rt \<or> inside rt t)"

text \<open>The contents a call may give a file: those of the call, or the patched contents of the file.\<close>

definition new_contents :: "tool_os \<Rightarrow> string \<Rightarrow> json \<Rightarrow> string \<Rightarrow> string \<Rightarrow> bool" where
  "new_contents os name ps p c \<longleftrightarrow>
     name = ''write_file'' \<and> c = arg_or_empty ''content'' ps
   \<or> name = ''patch_file'' \<and> (\<exists>b. file_bytes os p = Inr b
       \<and> c = replace_first b (arg_or_empty ''old_text'' ps) (arg_or_empty ''new_text'' ps))"

text \<open>The file operations of a call: reads below the root, then at most one replacement of a file by
  permitted contents, through a temporary file.\<close>

definition file_ops :: "tool_os \<Rightarrow> string \<Rightarrow> (string \<Rightarrow> string \<Rightarrow> bool) \<Rightarrow> tool_op list \<Rightarrow> bool" where
  "file_ops os rt ok ops \<longleftrightarrow>
     (\<exists>reads. (\<forall>op \<in> set reads. \<exists>p. op = Read_Op p \<and> inside rt p)
       \<and> (ops = reads
          \<or> (\<exists>t c p. inside rt p \<and> ok p c \<and> temp_beside rt t p
               \<and> (ops = reads @ [Write_Temp t c, Remove_Temp t] \<and> write_temp os t c \<noteq> Inr ()
                  \<or> ops = reads @ [Write_Temp t c, Rename_Op t p] \<and> write_temp os t c = Inr ()))))"

lemma file_ops_read: "inside rt p \<Longrightarrow> file_ops os rt ok [Read_Op p]"
  unfolding file_ops_def by (rule exI [of _ "[Read_Op p]"]) simp

lemma file_ops_none: "file_ops os rt ok []"
  unfolding file_ops_def by (rule exI [of _ "[]"]) simp

lemma starts_with_butlast:
  assumes "starts_with xs ys" "xs \<noteq> ys"
  shows "starts_with (butlast xs @ zs) ys"
proof -
  obtain r where r: "xs = ys @ r" using assms(1) starts_with_iff by blast
  with assms(2) have "butlast xs @ zs = ys @ (butlast r @ zs)" by (simp add: butlast_append)
  then show ?thesis unfolding starts_with_iff by blast
qed

lemma atomic_write_ops:
  assumes "inside rt p"
  shows "snd (atomic_write os p c) = []
    \<or> (\<exists>t. temp_beside rt t p
          \<and> (snd (atomic_write os p c) = [Write_Temp t c, Remove_Temp t] \<and> write_temp os t c \<noteq> Inr ()
             \<or> snd (atomic_write os p c) = [Write_Temp t c, Rename_Op t p] \<and> write_temp os t c = Inr ()))"
proof (cases "\<exists>d fname. path_parent p = Some d \<and> d \<noteq> [] \<and> file_name p = Some fname")
  case False
  then show ?thesis by (auto simp: atomic_write_def split: option.splits)
next
  case True
  then obtain d fname where d: "path_parent p = Some d" "d \<noteq> []" "file_name p = Some fname" by blast
  define t where "t = path_push d (temp_name os fname)"
  note tn = temp_name_plain [OF file_name_proper [OF d(3)], of os]
  have p: "is_absolute p" "path_starts_with p rt" using assms by (auto simp: inside_def)
  have par: "is_absolute d" "components d = butlast (components p)"
    using components_parent [OF p(1) d(1)] by auto
  have ct: "components t = butlast (components p) @ [temp_name os fname]" "is_absolute t"
    using components_path_push [OF par(1) tn(2,3,1)] path_push_absolute [OF par(1)] par(2)
    by (simp_all add: t_def)
  have "components t \<noteq> components p"
    using ct(1) file_name_component [OF p(1) d(3)] temp_name_fresh by (metis last_snoc)
  moreover have "\<exists>stem suffix. temp_name os fname = ''.'' @ stem @ ''.soultmp-'' @ suffix"
    unfolding temp_name_def by blast
  moreover have "inside rt t" if "components p \<noteq> components rt"
    using assms starts_with_butlast [OF p(2) [unfolded path_starts_with_def] that] tn(4,5)
    by (auto simp: inside_def path_starts_with_def ct dest: in_set_butlastD)
  ultimately have "temp_beside rt t p" unfolding temp_beside_def ct(1) using ct(2) by metis
  then show ?thesis
    using d by (auto simp: atomic_write_def Let_def t_def [symmetric] split: sum.splits)
qed

lemma file_ops_write:
  assumes "inside rt p" "\<forall>op \<in> set reads. \<exists>p. op = Read_Op p \<and> inside rt p" "ok p c"
  shows "file_ops os rt ok (reads @ snd (atomic_write os p c))"
  using atomic_write_ops [OF assms(1), of os c] assms unfolding file_ops_def by (metis append_Nil2)

lemma read_file_capped_whole:
  "read_file_capped os p m = (Inr b, ops) \<Longrightarrow> file_bytes os p = Inr b"
  by (auto simp: read_file_capped_def Let_def split: sum.splits if_splits)

lemma patch_file_ops:
  assumes "inside rt p" "\<And>b. file_bytes os p = Inr b \<Longrightarrow> ok p (replace_first b old new)"
  shows "file_ops os rt ok (snd (patch_file os p old new))"
proof -
  have ops: "file_ops os rt ok (Read_Op p # ops)" if "atomic_write os p c = (r, ops)" "ok p c" for c r ops
    using file_ops_write [of rt p "[Read_Op p]" ok c os] assms(1) that by simp
  obtain r where r: "read_file_capped os p MAX_TOOL_FILE_READ_BYTES = (r, [Read_Op p])"
    by (simp add: read_file_capped_def)
  show ?thesis
  proof (cases r)
    case (Inr b)
    then show ?thesis
      using r file_ops_read [OF assms(1)] ops assms(2) [OF read_file_capped_whole [OF r [unfolded Inr]]]
      by (auto simp: patch_file_def Let_def split: sum.splits prod.splits)
  qed (simp add: patch_file_def r file_ops_read [OF assms(1)])
qed

lemma with_path_ops:
  assumes "canonical_os os"
    and "\<And>p rt. canonicalize os wroot = Inr rt \<Longrightarrow> inside rt p \<Longrightarrow> file_ops os rt ok (snd (f p))"
  shows "snd (with_path (bind_res (fs_policy_new os wroot) (\<lambda>pol. resolve_path os pol requested b)) f) = []
    \<or> (\<exists>rt. canonicalize os wroot = Inr rt
         \<and> file_ops os rt ok (snd (with_path (bind_res (fs_policy_new os wroot) (\<lambda>pol. resolve_path os pol requested b)) f)))"
proof (cases "canonicalize os wroot")
  case (Inr rt)
  show ?thesis
  proof (cases "resolve_path os \<lparr>root = rt\<rparr> requested b")
    case (Inr p)
    then have "inside rt p" using resolve_path_inside [OF assms(1)] by force
    with assms(2) [OF \<open>canonicalize os wroot = Inr rt\<close>, of p] Inr \<open>canonicalize os wroot = Inr rt\<close>
    show ?thesis by (cases "f p") (simp add: with_path_def fs_policy_new_def)
  qed (simp add: with_path_def fs_policy_new_def Inr)
qed (simp add: with_path_def fs_policy_new_def)

text \<open>C4: A dispatched tool call stays in the workspace. A name outside the registry performs no
  operation at all. The shell tool hands its command to the sandbox, and only that tool does. A file tool
  only touches paths that lie below the canonical workspace root and have no \<open>..\<close> and no \<open>.git\<close>
  component: reading is all the read tool does, and the write and patch tools never open such a file for
  writing, but write the complete new contents (those of the call, or the file with the first occurrence
  replaced) to a temporary file of the same directory, of another, hidden name, and rename that file over
  the target when the write succeeded, or remove it when the write failed. The temporary file is inside
  the root too unless the target is the root itself.\<close>

theorem dispatch_confined:
  assumes "canonical_os os"
  shows "snd (dispatch_tool_in os name ps wroot) = []
    \<or> name = ''execute_shell''
      \<and> snd (dispatch_tool_in os name ps wroot) = [Shell_Op (arg_or_empty ''command'' ps)]
    \<or> name \<in> {''read_file'', ''write_file'', ''patch_file''}
      \<and> (\<exists>rt. canonicalize os wroot = Inr rt
           \<and> file_ops os rt (new_contents os name ps) (snd (dispatch_tool_in os name ps wroot)))"
proof (cases "from_name name")
  case (Inr t)
  have n: "name = tool_as_str t"
    using Inr by (auto simp: from_name_def split: if_splits)
  have rd: "file_ops os rt ok (snd (read_file_capped os p m))" if "inside rt p" for rt p m ok
    using file_ops_read [OF that] by (simp add: read_file_capped_def)
  have wr: "file_ops os rt (new_contents os ''write_file'' ps)
      (snd (case atomic_write os p (arg_or_empty ''content'' ps) of (Inl e, ops) \<Rightarrow> (Inl e, ops)
      | (Inr x, ops) \<Rightarrow> (Inr (m :: string), ops)))" if "inside rt p" for rt p m
    using file_ops_write [OF that, of "[]" "new_contents os ''write_file'' ps" _ os]
    by (auto simp: new_contents_def split: prod.splits sum.splits)
  have pt: "file_ops os rt (new_contents os ''patch_file'' ps)
      (snd (patch_file os p (arg_or_empty ''old_text'' ps) (arg_or_empty ''new_text'' ps)))"
    if "inside rt p" for rt p
    by (rule patch_file_ops [OF that]) (auto simp: new_contents_def)
  show ?thesis
    using Inr n with_path_ops [OF assms rd] with_path_ops [OF assms wr] with_path_ops [OF assms pt]
    by (cases t) (auto simp: dispatch_tool_in_def execute_shell_def resolve_read_def resolve_write_def Let_def)
qed (simp add: dispatch_tool_in_def)

text \<open>Reading and patching a file of moderate size.\<close>

lemma read_file_whole:
  "file_bytes os p = Inr b \<Longrightarrow> length b \<le> m \<Longrightarrow> utf8_valid b \<Longrightarrow>
   read_file_capped os p m = (Inr b, [Read_Op p])"
  by (simp add: read_file_capped_def Let_def)

lemma patch_file_done:
  assumes "file_bytes os p = Inr b" "length b \<le> MAX_TOOL_FILE_READ_BYTES" "utf8_valid b" "contains b old"
    "length (replace_first b old new) \<le> MAX_TOOL_FILE_WRITE_BYTES"
    "atomic_write os p (replace_first b old new) = (Inr (), ops)"
  shows "patch_file os p old new = (Inr (''patched '' @ from_utf8_lossy p), Read_Op p # ops)"
  using assms(4-6) read_file_whole [OF assms(1,2,3)] by (simp add: patch_file_def Let_def)

text \<open>A workspace \<open>/work/ws\<close> with one file in it.\<close>

definition ws_os :: tool_os where
  "ws_os = \<lparr>canonicalize = (\<lambda>p. if p \<in> {''/work/ws'', ''/work/ws/.''} then Inr ''/work/ws''
        else if p = ''/work/ws/a.txt'' then Inr p else Inl ''No such file or directory (os error 2)''),
     exists = (\<lambda>p. p \<in> {''/work/ws'', ''/work/ws/.'', ''/work/ws/a.txt''}),
     symlink_metadata = (\<lambda>p. if p \<in> {''/'', ''/work'', ''/work/ws'', ''/work/ws/a.txt''} then Not_Symlink
        else Lstat_Not_Found),
     metadata = (\<lambda>p. Stat_Ok),
     file_bytes = (\<lambda>p. if p = ''/work/ws/a.txt'' then Inr ''hello'' else Inl ''not found''),
     write_temp = (\<lambda>t c. Inr ()),
     rename_file = (\<lambda>t p. if p = ''/work/ws'' then Inl ''Is a directory (os error 21)'' else Inr ()),
     write_counter = 0, process_id = 7, current_dir = Some ''/work/ws'', home_dir = None,
     shell_os = calm_os, browse = (\<lambda>e u. Inl ''unreachable''), mcp_request = (\<lambda>s t a. Inl ''unreachable''),
     join_error = ''task panicked''\<rparr>"

lemma ws_os_canonical: "canonical_os ws_os"
proof -
  have "is_absolute q \<and> ''..'' \<notin> set (components q)" if "q \<in> {''/work/ws'', ''/work/ws/a.txt''}" for q
    using that by (auto, code_simp+)
  then show ?thesis by (auto simp: canonical_os_def ws_os_def split: if_splits)
qed

definition patch_args :: json where
  "patch_args = JObject [(''path'', JString ''a.txt''), (''old_text'', JString ''l''), (''new_text'', JString ''L'')]"

lemma ws_patch_ops:
  "snd (dispatch_tool_in ws_os ''patch_file'' patch_args ''/work/ws'')
     = [Read_Op ''/work/ws/a.txt'', Write_Temp ''/work/ws/.a.txt.soultmp-7-0'' ''heLlo'',
        Rename_Op ''/work/ws/.a.txt.soultmp-7-0'' ''/work/ws/a.txt'']"
proof -
  have "from_name ''patch_file'' = Inr PatchFile" by code_simp
  moreover have "bind_res (fs_policy_new ws_os ''/work/ws'') (\<lambda>pol. resolve_read ws_os pol ''a.txt'')
      = Inr ''/work/ws/a.txt''" by code_simp
  moreover have "arg_or_empty ''path'' patch_args = ''a.txt''"
    "arg_or_empty ''old_text'' patch_args = ''l''"
    "arg_or_empty ''new_text'' patch_args = ''L''" by code_simp+
  moreover have "patch_file ws_os ''/work/ws/a.txt'' ''l'' ''L''
      = (Inr (''patched '' @ from_utf8_lossy ''/work/ws/a.txt''),
         Read_Op ''/work/ws/a.txt'' # [Write_Temp ''/work/ws/.a.txt.soultmp-7-0'' ''heLlo'',
           Rename_Op ''/work/ws/.a.txt.soultmp-7-0'' ''/work/ws/a.txt''])"
  proof (rule patch_file_done)
    have r: "replace_first ''hello'' ''l'' ''L'' = ''heLlo''" by code_simp
    show "atomic_write ws_os ''/work/ws/a.txt'' (replace_first ''hello'' ''l'' ''L'')
        = (Inr (), [Write_Temp ''/work/ws/.a.txt.soultmp-7-0'' ''heLlo'',
           Rename_Op ''/work/ws/.a.txt.soultmp-7-0'' ''/work/ws/a.txt''])" by code_simp
    show "length (replace_first ''hello'' ''l'' ''L'') \<le> MAX_TOOL_FILE_WRITE_BYTES"
      by (simp add: r MAX_TOOL_FILE_WRITE_BYTES_def)
    show "utf8_valid ''hello''" by code_simp
  qed (simp_all add: ws_os_def MAX_TOOL_FILE_READ_BYTES_def)
  ultimately show ?thesis by (simp add: dispatch_tool_in_def with_path_def)
qed

theorem dispatch_confined_witness:
  "snd (dispatch_tool_in ws_os ''patch_file'' patch_args ''/work/ws'')
     = [Read_Op ''/work/ws/a.txt'', Write_Temp ''/work/ws/.a.txt.soultmp-7-0'' ''heLlo'',
        Rename_Op ''/work/ws/.a.txt.soultmp-7-0'' ''/work/ws/a.txt'']
   \<and> (\<exists>rt. canonicalize ws_os ''/work/ws'' = Inr rt
         \<and> file_ops ws_os rt (new_contents ws_os ''patch_file'' patch_args)
             (snd (dispatch_tool_in ws_os ''patch_file'' patch_args ''/work/ws'')))"
  using ws_patch_ops dispatch_confined [OF ws_os_canonical, of "''patch_file''" patch_args "''/work/ws''"] by simp

section \<open>What the confinement misses\<close>

lemma named_root:
  assumes "is_absolute rt" "components rt \<noteq> [''/'']" "''..'' \<notin> set (components rt)"
  obtains d fname where "path_parent rt = Some d" "d \<noteq> []" "file_name rt = Some fname"
    "components rt = butlast (components rt) @ [fname]"
proof -
  define ps where "ps = drop_blank (split_char CHR ''/'' (tl rt))"
  have c: "components rt = ''/'' # filter (\<lambda>p. \<not> blank p) ps"
    using components_absolute [OF assms(1)] by (simp add: ps_def filter_drop_blank)
  with assms(2) have ps: "ps \<noteq> []" by auto
  then have "\<not> blank (last ps)" using drop_blank_last by (simp add: ps_def)
  then have last: "components rt = butlast (components rt) @ [last ps]"
    using ps c by (cases ps rule: rev_cases) simp_all
  then have "last ps \<noteq> ''..''" using assms(3) by (metis in_set_conv_decomp)
  with ps assms(1) last show thesis
    by (intro that [of "''/'' @ join ''/'' (drop_blank (butlast ps))" "last ps"])
       (simp_all add: path_parent_def file_name_def absolute_split ps_def Let_def)
qed

lemma not_starts_with_sibling:
  assumes "xs = butlast xs @ [x]" "y \<noteq> x"
  shows "\<not> starts_with (butlast xs @ [y]) xs"
proof
  assume "starts_with (butlast xs @ [y]) xs"
  then obtain r where r: "butlast xs @ [y] = xs @ r" using starts_with_iff by blast
  have "xs \<noteq> []" using assms(1) by auto
  then have "length (butlast xs @ [y]) = length xs" by simp
  then have "r = []" using r by simp
  with r have "butlast xs @ [y] = butlast xs @ [x]" using assms(1) by simp
  with assms(2) show False by simp
qed

text \<open>The write tool leaves the workspace when it is asked to write the workspace directory itself.
  For the path \<open>.\<close> the resolution returns the root, so the temporary file, with contents the caller
  chose, is created in the parent of the root; the rename over the directory fails, the call reports the
  error, and the temporary file is neither removed nor inside the root.\<close>

theorem write_dot_leaves_root:
  assumes "canonical_os os" "canonicalize os wroot = Inr rt" "components rt \<noteq> [''/'']"
    "''.git'' \<notin> set (components rt)" "length content \<le> MAX_TOOL_FILE_WRITE_BYTES"
    "reject_broken_symlink os (path_push rt ''.'') ''.'' = Inr ()" "exists os (path_push rt ''.'')"
    "canonicalize os (path_push rt ''.'') = Inr rt" "\<And>t. write_temp os t content = Inr ()"
    "\<And>t. rename_file os t rt = Inl e"
  shows "\<exists>t. dispatch_tool_in os ''write_file''
        (JObject [(''path'', JString ''.''), (''content'', JString content)]) wroot
      = (Gives (Inl e), [Write_Temp t content, Rename_Op t rt])
    \<and> \<not> path_starts_with t rt \<and> butlast (components t) = butlast (components rt)"
proof -
  have rt: "is_absolute rt" "''..'' \<notin> set (components rt)"
    using assms(1,2) by (auto simp: canonical_os_def)
  obtain d fname where d: "path_parent rt = Some d" "d \<noteq> []" "file_name rt = Some fname"
    "components rt = butlast (components rt) @ [fname]"
    using named_root [OF rt(1) assms(3) rt(2)] .
  define t where "t = path_push d (temp_name os fname)"
  have aw: "atomic_write os rt content = (Inl e, [Write_Temp t content, Rename_Op t rt])"
    using d assms(9,10) by (simp add: atomic_write_def Let_def t_def)
  have "resolve_path os \<lparr>root = rt\<rparr> ''.'' False = Inr rt"
    using assms(4,6-8) starts_with_append [of "components rt" "[]"]
    by (simp add: resolve_path_def is_absolute_def walk_up.simps path_starts_with_def)
  then have run: "dispatch_tool_in os ''write_file''
        (JObject [(''path'', JString ''.''), (''content'', JString content)]) wroot
      = (Gives (Inl e), [Write_Temp t content, Rename_Op t rt])"
    using assms(2,5) aw
    by (simp add: dispatch_tool_in_def from_name_def arg_or_empty_def arg_str_def with_path_def fs_policy_new_def
        resolve_write_def)
  have par: "is_absolute d" "components d = butlast (components rt)"
    using components_parent [OF rt(1) d(1)] by auto
  note tn = temp_name_plain [OF file_name_proper [OF d(3)], of os]
  have ct: "components t = butlast (components rt) @ [temp_name os fname]"
    using components_path_push [OF par(1) tn(2,3,1)] par(2) by (simp add: t_def)
  have "length fname < length (temp_name os fname)"
    using from_utf8_lossy_longer [of fname] by (simp add: temp_name_def)
  then have "temp_name os fname \<noteq> fname" by auto
  then have "\<not> path_starts_with t rt"
    using ct not_starts_with_sibling [OF d(4), of "temp_name os fname"] by (auto simp: path_starts_with_def)
  with run ct show ?thesis by auto
qed

theorem write_dot_leaves_root_witness:
  "\<exists>t. dispatch_tool_in ws_os ''write_file''
        (JObject [(''path'', JString ''.''), (''content'', JString ''ssh-rsa AAAA'')]) ''/work/ws''
      = (Gives (Inl ''Is a directory (os error 21)''), [Write_Temp t ''ssh-rsa AAAA'', Rename_Op t ''/work/ws''])
    \<and> \<not> path_starts_with t ''/work/ws'' \<and> butlast (components t) = butlast (components ''/work/ws'')"
proof (rule write_dot_leaves_root [OF ws_os_canonical])
  show "components ''/work/ws'' \<noteq> [''/'']" "''.git'' \<notin> set (components ''/work/ws'')" by code_simp+
  show "reject_broken_symlink ws_os (path_push ''/work/ws'' ''.'') ''.'' = Inr ()"
    "exists ws_os (path_push ''/work/ws'' ''.'')" by code_simp+
  show "canonicalize ws_os (path_push ''/work/ws'' ''.'') = Inr ''/work/ws''" by code_simp
qed (simp_all add: ws_os_def MAX_TOOL_FILE_WRITE_BYTES_def)

text \<open>A \<open>..\<close> behind a directory that does not exist is dropped, not refused: the test for it in the loop
  over the missing names never fires, because such a component has no file name.\<close>

lemma missing_parent_is_dropped:
  "resolve_write ws_os \<lparr>root = ''/work/ws''\<rparr> ''new/..'' = Inr ''/work/ws/new''"
  by code_simp

text \<open>The upper-case pattern of the classification never matches a lower-cased command.\<close>

lemma iptables_flush_is_read: "from_command ''iptables -F'' = Read"
  by code_simp

lemma required_permission_registered:
  "required_permission_for name cmd = Destructive \<or> is_registered name"
  by (auto simp: required_permission_for_def is_registered_def split: sum.splits)

lemma from_name_as_str: "from_name (tool_as_str t) = Inr t"
  by (cases t) (simp_all add: from_name_def)

lemma from_name_Inr_iff: "from_name name = Inr t \<longleftrightarrow> name = tool_as_str t"
proof
  assume "from_name name = Inr t"
  then show "name = tool_as_str t" by (auto simp: from_name_def split: if_splits)
qed (simp add: from_name_as_str)

end
