(* ===== verification/Skills.thy ===== *)
theory Skills
  imports Tools_Confine Compaction "HOL-Library.AList" Complex_Main
begin

text \<open>
  The skill library (\<open>soul-skills/src/lib.rs\<close>, \<open>validation.rs\<close>, \<open>induction.rs\<close>): skills, the loader with its
  Markdown format, the structural validator, the inducer, and the library that retains only what
  validates.

  \<open>unicode\<close> holds the two functions of the standard library that need the Unicode tables: lower-casing,
  and whether a character, given by its bytes, is alphanumeric. Writing a file is the parameter \<open>wr\<close>, which
  answers with an error message or with success; the writes an operation makes are part of its result.
\<close>

record unicode =
  lower :: "string \<Rightarrow> string"
  alnum :: "string \<Rightarrow> bool"

section \<open>Skills\<close>

datatype SkillError = Skill_Io string | Skill_Parse string | Skill_NotFound string | InvalidName string

text \<open>A name with a single component, which is a name and not the root, \<open>.\<close> or \<open>..\<close>.\<close>

definition is_safe_skill_name :: "string \<Rightarrow> bool" where
  "is_safe_skill_name name \<longleftrightarrow> name \<noteq> [] \<and> CHR 0x00 \<notin> set name \<and> CHR 0x5C \<notin> set name
     \<and> (case components name of [c] \<Rightarrow> c \<noteq> ''/'' \<and> c \<noteq> ''.'' \<and> c \<noteq> ''..'' | _ \<Rightarrow> False)"

record Skill =
  sk_name :: string
  sk_description :: string
  triggers :: "string list"
  tools_required :: "string list"
  model_hint :: "string option"
  sk_system_prompt :: "string option"
  sk_steps :: "string list"
  examples :: "string list"
  tags :: "string list"
  sk_priority :: u8
  enabled :: bool

definition skill_new :: "string \<Rightarrow> string \<Rightarrow> Skill" where
  "skill_new n d = \<lparr>sk_name = n, sk_description = d, triggers = [], tools_required = [], model_hint = None,
     sk_system_prompt = None, sk_steps = [], examples = [], tags = [], sk_priority = 5, enabled = True\<rparr>"

definition matches_trigger :: "unicode \<Rightarrow> Skill \<Rightarrow> string \<Rightarrow> bool" where
  "matches_trigger u s input = list_ex (\<lambda>t. contains (lower u input) (lower u t)) (triggers s)"

abbreviation newline :: string where "newline \<equiv> [CHR 0x0A]"

fun numbered :: "nat \<Rightarrow> string list \<Rightarrow> string list" where
  "numbered i [] = []"
| "numbered i (s # ss) = (show_nat i @ ''. '' @ s) # numbered (i + 1) ss"

definition to_prompt :: "Skill \<Rightarrow> string" where
  "to_prompt s = join (newline @ newline)
     ([''# Skill: '' @ sk_name s @ newline @ sk_description s]
      @ (if sk_steps s = [] then [] else (''## Steps'' @ newline) # numbered 1 (sk_steps s))
      @ (if examples s = [] then [] else (''## Examples'' @ newline) # map (\<lambda>e. ''- '' @ e) (examples s))
      @ (case sk_system_prompt s of Some p \<Rightarrow> [''## System Prompt'' @ newline @ p] | None \<Rightarrow> []))"

section \<open>The Markdown format\<close>

text \<open>\<open>trim_start_matches\<close> with a string pattern, and \<open>trim_matches\<close> with a quotation mark.\<close>

function trim_start_matches :: "string \<Rightarrow> string \<Rightarrow> string" where
  "trim_start_matches p s =
     (if p \<noteq> [] \<and> starts_with s p then trim_start_matches p (drop (length p) s) else s)"
  by pat_completeness auto

termination
proof (relation "measure (\<lambda>(p, s). length s)", simp)
  fix p s :: string
  assume "p \<noteq> [] \<and> starts_with s p"
  then show "((p, drop (length p) s), p, s) \<in> measure (\<lambda>(p, s). length s)"
    by (auto simp: starts_with_iff)
qed

declare trim_start_matches.simps [simp del]

definition unquote :: "string \<Rightarrow> string" where
  "unquote s = rev (dropWhile (\<lambda>c. c = CHR 0x22) (rev (dropWhile (\<lambda>c. c = CHR 0x22) s)))"

definition parse_items :: "string \<Rightarrow> string list" where
  "parse_items s = filter (\<lambda>t. t \<noteq> []) (map (\<lambda>t. unquote (trim t)) (split_char (CHR '','') (trim s)))"

definition parse_priority :: "string \<Rightarrow> u8" where
  "parse_priority s = (case parse_unsigned dec_digit 10 256 (trim s) of Some n \<Rightarrow> of_nat n | None \<Rightarrow> 5)"

record md_state =
  md_skill :: Skill
  in_steps :: bool
  in_examples :: bool

text \<open>The metadata in a level-two heading, which has been lower-cased.\<close>

definition heading_meta :: "string \<Rightarrow> Skill \<Rightarrow> Skill" where
  "heading_meta section sk =
     (if starts_with section ''description:'' then sk\<lparr>sk_description := trim (trim_start_matches ''description:'' section)\<rparr>
      else if starts_with section ''triggers:'' then sk\<lparr>triggers := parse_items (trim_start_matches ''triggers:'' section)\<rparr>
      else if starts_with section ''tools:'' then sk\<lparr>tools_required := parse_items (trim_start_matches ''tools:'' section)\<rparr>
      else if starts_with section ''tags:'' then sk\<lparr>tags := parse_items (trim_start_matches ''tags:'' section)\<rparr>
      else if starts_with section ''priority:'' then sk\<lparr>sk_priority := parse_priority (trim_start_matches ''priority:'' section)\<rparr>
      else sk)"

definition after_colon :: "string \<Rightarrow> string" where
  "after_colon s = (case split_once (CHR '':'') s of Some (_, v) \<Rightarrow> v | None \<Rightarrow> [])"

definition line_meta :: "string \<Rightarrow> Skill \<Rightarrow> Skill" where
  "line_meta t sk =
     (if starts_with t ''Description:'' \<or> starts_with t ''description:'' then sk\<lparr>sk_description := trim (after_colon t)\<rparr>
      else if starts_with t ''Triggers:'' \<or> starts_with t ''triggers:'' then sk\<lparr>triggers := parse_items (after_colon t)\<rparr>
      else if starts_with t ''Tools:'' \<or> starts_with t ''tools:'' then sk\<lparr>tools_required := parse_items (after_colon t)\<rparr>
      else if starts_with t ''Tags:'' \<or> starts_with t ''tags:'' then sk\<lparr>tags := parse_items (after_colon t)\<rparr>
      else if starts_with t ''Priority:'' \<or> starts_with t ''priority:'' then sk\<lparr>sk_priority := parse_priority (after_colon t)\<rparr>
      else if starts_with t ''System Prompt:'' \<or> starts_with t ''system_prompt:''
      then sk\<lparr>sk_system_prompt := Some (trim (after_colon t))\<rparr>
      else sk)"

definition parse_line :: "unicode \<Rightarrow> string \<Rightarrow> md_state \<Rightarrow> md_state" where
  "parse_line u line st =
     (let t = trim line; sk = md_skill st
      in case strip_prefix ''# '' t of
           Some h \<Rightarrow> \<lparr>md_skill = sk\<lparr>sk_name := trim h\<rparr>, in_steps = False, in_examples = False\<rparr>
         | None \<Rightarrow> (case strip_prefix ''## '' t of
             Some h \<Rightarrow>
               (let section = lower u (trim h);
                    steps = (section = ''steps'' \<or> section = ''workflow''); ex = (section = ''examples'')
                in \<lparr>md_skill = (if \<not> steps \<and> \<not> ex then heading_meta section sk else sk),
                    in_steps = steps, in_examples = ex\<rparr>)
           | None \<Rightarrow>
               if in_steps st \<and> t \<noteq> [] \<and> \<not> starts_with t ''#''
               then st\<lparr>md_skill := sk\<lparr>sk_steps := sk_steps sk @ [t]\<rparr>\<rparr>
               else if in_examples st \<and> t \<noteq> [] \<and> \<not> starts_with t ''#''
               then st\<lparr>md_skill := sk\<lparr>examples := examples sk
                      @ [trim_start_matches ''* '' (trim_start_matches ''- '' t)]\<rparr>\<rparr>
               else st\<lparr>md_skill := line_meta t sk\<rparr>))"

definition parse_markdown_skill :: "unicode \<Rightarrow> string \<Rightarrow> string \<Rightarrow> Skill" where
  "parse_markdown_skill u content stem =
     (let start = \<lparr>md_skill = skill_new stem [], in_steps = False, in_examples = False\<rparr>;
          sk = md_skill (fold (parse_line u) (str_lines content) start)
      in if sk_description sk = [] then sk\<lparr>sk_description := ''Skill: '' @ sk_name sk\<rparr> else sk)"

definition skill_to_markdown :: "Skill \<Rightarrow> string" where
  "skill_to_markdown s =
     ''# '' @ sk_name s @ newline @ newline
     @ (if sk_description s = [] then [] else ''Description: '' @ sk_description s @ newline @ newline)
     @ (if triggers s = [] then [] else ''Triggers: '' @ join '', '' (triggers s) @ newline @ newline)
     @ (if tools_required s = [] then [] else ''Tools: '' @ join '', '' (tools_required s) @ newline @ newline)
     @ (if tags s = [] then [] else ''Tags: '' @ join '', '' (tags s) @ newline @ newline)
     @ ''Priority: '' @ show_nat (unat (sk_priority s)) @ newline @ newline
     @ (if sk_steps s = [] then []
        else ''## Steps'' @ newline @ newline @ concat (map (\<lambda>l. l @ newline) (numbered 1 (sk_steps s))) @ newline)
     @ (if examples s = [] then []
        else ''## Examples'' @ newline @ newline @ concat (map (\<lambda>e. ''- '' @ e @ newline) (examples s)) @ newline)"

section \<open>The loader\<close>

text \<open>The table of skills is an association list; the order in which it is iterated is the parameter
  \<open>order\<close>.\<close>

record SkillLoader =
  base_path :: string
  loaded :: "(string \<times> Skill) list"

definition loader_new :: "string \<Rightarrow> SkillLoader" where
  "loader_new p = \<lparr>base_path = p, loaded = []\<rparr>"

text \<open>One directory entry: its path, whether its extension is \<open>md\<close>, its stem, and the answer of reading
  it.\<close>

type_synonym dir_entry = "bool \<times> string \<times> (string + string)"

fun load_entries :: "unicode \<Rightarrow> dir_entry list \<Rightarrow> SkillLoader \<Rightarrow> Skill list \<times> SkillLoader" where
  "load_entries u [] l = ([], l)"
| "load_entries u ((md, stem, content) # es) l =
     (case (md, content) of
        (True, Inr c) \<Rightarrow>
          (let sk = parse_markdown_skill u c stem;
               (sks, l) = load_entries u es (l\<lparr>loaded := AList.update (sk_name sk) sk (loaded l)\<rparr>)
           in (sk # sks, l))
      | _ \<Rightarrow> load_entries u es l)"

text \<open>\<open>dir\<close> is \<open>None\<close> when the base path does not exist, and then \<open>made\<close> answers its creation.\<close>

definition load_all :: "unicode \<Rightarrow> (string + dir_entry list) option \<Rightarrow> string + unit \<Rightarrow> SkillLoader
    \<Rightarrow> (SkillError + Skill list) \<times> SkillLoader" where
  "load_all u dir made l = (case dir of
     None \<Rightarrow> (case made of Inl e \<Rightarrow> (Inl (Skill_Io e), l) | Inr _ \<Rightarrow> (Inr [], l))
   | Some (Inl e) \<Rightarrow> (Inl (Skill_Io e), l)
   | Some (Inr es) \<Rightarrow> (case load_entries u es l of (sks, l) \<Rightarrow> (Inr sks, l)))"

definition get_skill :: "string \<Rightarrow> SkillLoader \<Rightarrow> Skill option" where
  "get_skill n l = map_of (loaded l) n"

definition all_skills :: "((string \<times> Skill) list \<Rightarrow> (string \<times> Skill) list) \<Rightarrow> SkillLoader \<Rightarrow> Skill list" where
  "all_skills order l = map snd (order (loaded l))"

text \<open>A stable sort by descending priority.\<close>

definition find_matching :: "unicode \<Rightarrow> ((string \<times> Skill) list \<Rightarrow> (string \<times> Skill) list) \<Rightarrow> string \<Rightarrow> SkillLoader
    \<Rightarrow> Skill list" where
  "find_matching u order input l =
     sort_key (\<lambda>s. 255 - unat (sk_priority s)) (filter (\<lambda>s. enabled s \<and> matches_trigger u s input) (all_skills order l))"

definition skill_path :: "SkillLoader \<Rightarrow> Skill \<Rightarrow> string" where
  "skill_path l s = path_push (base_path l) (sk_name s @ ''.md'')"

definition save_skill :: "(string \<Rightarrow> string \<Rightarrow> string + unit) \<Rightarrow> SkillLoader \<Rightarrow> Skill
    \<Rightarrow> (SkillError + unit) \<times> (string \<times> string) list" where
  "save_skill wr l s =
     (if \<not> is_safe_skill_name (sk_name s) then (Inl (InvalidName (sk_name s)), [])
      else let p = skill_path l s; content = skill_to_markdown s
           in (case wr p content of Inl e \<Rightarrow> Inl (Skill_Io e) | Inr _ \<Rightarrow> Inr (), [(p, content)]))"

section \<open>Built-in skills\<close>

definition builtin_skills :: "Skill list" where
  "builtin_skills =
     [(skill_new ''code-review'' ''Review code for bugs, security, and quality'')
        \<lparr>triggers := [''review'', ''code review'', ''check code'', ''audit code''],
         tools_required := [''read_file'', ''grep''],
         sk_steps := [''Read the file(s) to review'', ''Check for bugs and logic errors'', ''Check for security issues'',
           ''Check for code quality and style'', ''Provide structured feedback''],
         tags := [''code'', ''review'', ''quality''], sk_priority := 8\<rparr>,
      (skill_new ''deploy'' ''Deploy code to production'')
        \<lparr>triggers := [''deploy'', ''ship'', ''push to prod''], tools_required := [''shell'', ''read_file''],
         sk_steps := [''Run tests'', ''Check for uncommitted changes'', ''Build release'', ''Push to remote'',
           ''Verify deployment''],
         tags := [''deploy'', ''production''], sk_priority := 9\<rparr>,
      (skill_new ''debug'' ''Debug an issue systematically'')
        \<lparr>triggers := [''debug'', ''fix bug'', ''investigate''], tools_required := [''read_file'', ''shell'', ''grep''],
         sk_steps := [''Reproduce the issue'', ''Read relevant source code'', ''Check logs and traces'', ''Form hypothesis'',
           ''Test hypothesis'', ''Implement fix''],
         tags := [''debug'', ''fix''], sk_priority := 7\<rparr>]"

section \<open>Validation\<close>

record SkillFitness =
  fit_valid :: bool
  fit_score :: real
  issues :: "string list"

definition is_better_than :: "SkillFitness \<Rightarrow> SkillFitness \<Rightarrow> bool" where
  "is_better_than f g =
     (if fit_valid f \<and> \<not> fit_valid g then True
      else if \<not> fit_valid f \<and> fit_valid g then False
      else fit_score f > fit_score g)"

record StructuralValidator =
  min_steps :: nat
  min_triggers :: nat
  max_name_len :: nat
  allowed_tools :: "string list option"

definition default_validator :: StructuralValidator where
  "default_validator = \<lparr>min_steps = 2, min_triggers = 1, max_name_len = 64, allowed_tools = None\<rparr>"

abbreviation quote_char :: string where "quote_char \<equiv> [CHR 0x27]"

text \<open>The hard checks in their order; \<open>dbg\<close> prints a string for debugging.\<close>

definition skill_issues :: "(string \<Rightarrow> string) \<Rightarrow> StructuralValidator \<Rightarrow> Skill \<Rightarrow> Skill list \<Rightarrow> string list" where
  "skill_issues dbg v c library =
     (if trim (sk_name c) = [] then [''name is empty''] else [])
     @ (if \<not> is_safe_skill_name (sk_name c)
        then [''name '' @ dbg (sk_name c) @ '' is not a safe filename (must be a single path segment: no ''
              @ quote_char @ ''.'' @ quote_char @ '', '' @ quote_char @ ''..'' @ quote_char @ '', '' @ quote_char @ ''/''
              @ quote_char @ '', '' @ quote_char @ [CHR 0x5C] @ quote_char @ '', or NUL)''] else [])
     @ (if length (sk_name c) > max_name_len v
        then [''name exceeds '' @ show_nat (max_name_len v) @ '' chars ('' @ show_nat (length (sk_name c)) @ '')''] else [])
     @ (if trim (sk_description c) = [] then [''description is empty''] else [])
     @ (if length (sk_steps c) < min_steps v
        then [''needs >= '' @ show_nat (min_steps v) @ '' steps, has '' @ show_nat (length (sk_steps c))] else [])
     @ (if length (triggers c) < min_triggers v
        then [''needs >= '' @ show_nat (min_triggers v) @ '' triggers, has '' @ show_nat (length (triggers c))] else [])
     @ (if list_ex (\<lambda>t. trim t = []) (triggers c) then [''has an empty trigger''] else [])
     @ (case allowed_tools v of
          None \<Rightarrow> []
        | Some known \<Rightarrow> map (\<lambda>t. ''unknown tool '' @ quote_char @ t @ quote_char)
            (filter (\<lambda>t. t \<notin> set known) (tools_required c)))
     @ (if list_ex (\<lambda>s. sk_name s = sk_name c \<and> s \<noteq> c) library
        then [''name '' @ quote_char @ sk_name c @ quote_char @ '' collides with a different existing skill''] else [])"

definition skill_score :: "(real \<Rightarrow> real) \<Rightarrow> Skill \<Rightarrow> real" where
  "skill_score rnd c =
     (let step_score = rnd (min (real (length (sk_steps c))) 8 / 8);
          trigger_score = rnd (min (real (length (triggers c))) 6 / 6);
          example_bonus = (if examples c = [] then 0 else rnd (15 / 100));
          tool_bonus = (if tools_required c = [] then 0 else rnd (1 / 10))
      in min (rnd (rnd (rnd (rnd (step_score / 2) + rnd (trigger_score / 4)) + example_bonus) + tool_bonus)) 1)"

definition validate :: "(real \<Rightarrow> real) \<Rightarrow> (string \<Rightarrow> string) \<Rightarrow> StructuralValidator \<Rightarrow> Skill \<Rightarrow> Skill list \<Rightarrow> SkillFitness" where
  "validate rnd dbg v c library =
     (let is = skill_issues dbg v c library
      in \<lparr>fit_valid = (is = []), fit_score = skill_score rnd c, issues = is\<rparr>)"

section \<open>Induction from an episode\<close>

record EpisodeAction =
  ea_tool :: string
  ea_description :: string

record Episode =
  ep_goal :: string
  actions :: "EpisodeAction list"
  ep_success :: bool
  result_summary :: "string option"

datatype Induction = New_Skill Skill | Reinforced_Skill Skill | Skipped_Episode string

record InducerConfig =
  min_actions :: nat
  default_priority :: u8
  max_name_words :: nat
  max_triggers :: nat

definition default_inducer :: InducerConfig where
  "default_inducer = \<lparr>min_actions = 2, default_priority = 4, max_name_words = 4, max_triggers = 6\<rparr>"

definition STOPWORDS :: "string list" where
  "STOPWORDS =
    [''the'', ''a'', ''an'', ''and'', ''or'', ''but'', ''to'', ''of'', ''in'', ''on'', ''for'', ''with'',
     ''at'', ''by'', ''from'', ''up'', ''as'', ''is'', ''are'', ''was'', ''were'', ''be'', ''been'',
     ''it'', ''this'', ''that'', ''these'', ''those'', ''i'', ''we'', ''you'', ''my'', ''our'', ''your'',
     ''please'', ''can'', ''could'', ''would'', ''should'', ''do'', ''does'', ''did'', ''me'', ''him'',
     ''her'', ''them'', ''then'', ''so'', ''if'', ''into'', ''out'', ''all'', ''some'', ''any'', ''no'',
     ''not'', ''make'', ''get'', ''want'', ''need'', ''help'']"

text \<open>The characters of a text, each as its bytes.\<close>

fun chars_from :: "string \<Rightarrow> string \<Rightarrow> string list" where
  "chars_from acc [] = (if acc = [] then [] else [rev acc])"
| "chars_from acc (c # s) =
     (if continuation (byte c) then chars_from (c # acc) s
      else (if acc = [] then [] else [rev acc]) @ chars_from [c] s)"

text \<open>The pieces between the characters that are not alphanumeric.\<close>

fun words_from :: "unicode \<Rightarrow> string \<Rightarrow> string list \<Rightarrow> string list" where
  "words_from u acc [] = [acc]"
| "words_from u acc (ch # chs) = (if alnum u ch then words_from u (acc @ ch) chs else acc # words_from u [] chs)"

definition split_words :: "unicode \<Rightarrow> string \<Rightarrow> string list" where
  "split_words u s = words_from u [] (chars_from [] s)"

definition add_new :: "'a \<Rightarrow> 'a list \<Rightarrow> 'a list" where
  "add_new x xs = (if x \<in> set xs then xs else xs @ [x])"

definition goal_keywords :: "unicode \<Rightarrow> string \<Rightarrow> string list" where
  "goal_keywords u goal = fold (\<lambda>raw seen. let w = lower u raw in
     if length w < 3 \<or> w \<in> set STOPWORDS then seen else add_new w seen) (split_words u goal) []"

definition slugify :: "unicode \<Rightarrow> string \<Rightarrow> string" where
  "slugify u s = join ''-'' (map (lower u) (filter (\<lambda>w. w \<noteq> []) (split_words u s)))"

definition derive_name :: "unicode \<Rightarrow> InducerConfig \<Rightarrow> string list \<Rightarrow> string \<Rightarrow> string" where
  "derive_name u cfg kws goal =
     (let from_keywords = take (max_name_words cfg) kws;
          slug = (if from_keywords = [] then slugify u goal else join ''-'' from_keywords)
      in if slug = [] then ''induced-skill'' else slug)"

definition induce :: "unicode \<Rightarrow> InducerConfig \<Rightarrow> Episode \<Rightarrow> Skill option" where
  "induce u cfg ep =
     (if \<not> ep_success ep \<or> length (actions ep) < min_actions cfg then None
      else let kws = goal_keywords u (ep_goal ep)
           in Some \<lparr>sk_name = derive_name u cfg kws (ep_goal ep), sk_description = trim (ep_goal ep),
                triggers = take (max_triggers cfg) kws,
                tools_required = fold (\<lambda>a ts. if ea_tool a = [] then ts else add_new (ea_tool a) ts) (actions ep) [],
                model_hint = None, sk_system_prompt = None,
                sk_steps = filter (\<lambda>d. d \<noteq> []) (map ea_description (actions ep)),
                examples = (case result_summary ep of Some r \<Rightarrow> [r] | None \<Rightarrow> []),
                tags = [''induced''], sk_priority = default_priority cfg, enabled = True\<rparr>)"

definition bump_priority :: "u8 \<Rightarrow> u8" where
  "bump_priority p = min (if p = 255 then 255 else p + 1) 10"

definition reinforce :: "Skill \<Rightarrow> Episode \<Rightarrow> Skill \<Rightarrow> Skill" where
  "reinforce candidate ep m =
     (let example = trim (ep_goal ep)
      in m\<lparr>tools_required := fold add_new (tools_required candidate) (tools_required m),
           examples := (if example \<noteq> [] then add_new example (examples m) else examples m),
           sk_priority := bump_priority (sk_priority m)\<rparr>)"

definition induce_or_merge :: "unicode \<Rightarrow> InducerConfig \<Rightarrow> Episode \<Rightarrow> Skill list \<Rightarrow> Induction" where
  "induce_or_merge u cfg ep existing = (case induce u cfg ep of
     None \<Rightarrow> Skipped_Episode (if \<not> ep_success ep then ''episode did not succeed''
       else ''too few actions to be worth a skill'')
   | Some candidate \<Rightarrow>
       (case find (\<lambda>s. enabled s \<and> (sk_name s = sk_name candidate \<or> matches_trigger u s (ep_goal ep))) existing of
          Some m \<Rightarrow> Reinforced_Skill (reinforce candidate ep m)
        | None \<Rightarrow> New_Skill candidate))"

section \<open>The validated library\<close>

datatype Retention = Added Skill | Reinforced Skill | Rejected string SkillFitness | Skipped string

record ValidatedSkillLibrary =
  inducer :: InducerConfig
  validator :: StructuralValidator
  lib_skills :: "Skill list"

definition library_new :: "Skill list \<Rightarrow> ValidatedSkillLibrary" where
  "library_new initial = \<lparr>inducer = default_inducer, validator = default_validator, lib_skills = initial\<rparr>"

fun replace_named :: "Skill \<Rightarrow> Skill list \<Rightarrow> Skill list" where
  "replace_named s [] = [s]"
| "replace_named s (x # xs) = (if sk_name x = sk_name s then s # xs else x # replace_named s xs)"

definition offer :: "(real \<Rightarrow> real) \<Rightarrow> (string \<Rightarrow> string) \<Rightarrow> unicode \<Rightarrow> Episode \<Rightarrow> ValidatedSkillLibrary
    \<Rightarrow> Retention \<times> ValidatedSkillLibrary" where
  "offer rnd dbg u ep lib = (case induce_or_merge u (inducer lib) ep (lib_skills lib) of
     New_Skill c \<Rightarrow>
       (let f = validate rnd dbg (validator lib) c (lib_skills lib)
        in if fit_valid f then (Added c, lib\<lparr>lib_skills := lib_skills lib @ [c]\<rparr>) else (Rejected (sk_name c) f, lib))
   | Reinforced_Skill c \<Rightarrow>
       (let others = filter (\<lambda>s. sk_name s \<noteq> sk_name c) (lib_skills lib);
            f = validate rnd dbg (validator lib) c others
        in if fit_valid f then (Reinforced c, lib\<lparr>lib_skills := replace_named c (lib_skills lib)\<rparr>)
           else (Rejected (sk_name c) f, lib))
   | Skipped_Episode why \<Rightarrow> (Skipped why, lib))"

definition offer_and_persist :: "(real \<Rightarrow> real) \<Rightarrow> (string \<Rightarrow> string) \<Rightarrow> unicode \<Rightarrow> (string \<Rightarrow> string \<Rightarrow> string + unit)
    \<Rightarrow> Episode \<Rightarrow> SkillLoader \<Rightarrow> ValidatedSkillLibrary
    \<Rightarrow> (SkillError + Retention) \<times> ValidatedSkillLibrary \<times> (string \<times> string) list" where
  "offer_and_persist rnd dbg u wr ep loader lib = (case offer rnd dbg u ep lib of (outcome, lib) \<Rightarrow>
     (case (case outcome of Added s \<Rightarrow> Some s | Reinforced s \<Rightarrow> Some s | _ \<Rightarrow> None) of
        None \<Rightarrow> (Inr outcome, lib, [])
      | Some s \<Rightarrow> (case save_skill wr loader s of
          (Inl e, ws) \<Rightarrow> (Inl e, lib, ws)
        | (Inr _, ws) \<Rightarrow> (Inr outcome, lib, ws))))"

end
