(* ===== verification/Agent_Task.thy ===== *)
theory Agent_Task
  imports Agent_Run Strategy Thoughts Skills
begin

text \<open>
  A whole task of the agent (\<open>soul-agent-core/src/lib.rs\<close>): the selection of a strategy, the two strategies
  beside the ReAct loop, and what follows a task: the record of the outcome, the distillation of facts
  and of skills. \<open>AutonomousLoop\<close>, which works through a list of goals, is at the end.

  \<open>agent_state\<close> adds to the agent of the ReAct loop the fields only these operations use. The learning
  metrics \<open>run_task\<close> also updates (global error, reward, policy, trajectories, fine-tuning pairs,
  metacognition, knowledge graph) are not part of the state: they influence neither the result nor the
  other effects. The answers of the outside are again arguments: a \<open>gen_env\<close> for every call of \<open>generate\<close>, a
  \<open>turn_env\<close> for every turn. The quality score of the self-critique is an argument too.
\<close>

section \<open>State\<close>

record agent_state =
  core :: AutonomousAgent
  llm_budget :: LlmBudget
  llm_max_tokens :: nat
  strategy_selector :: StrategySelector
  last_strategy :: StrategyType
  reasoning :: ThoughtTree
  skill_loader :: "SkillLoader option"

record task_libs =
  ag_libs :: agent_libs
  rnd32 :: "real \<Rightarrow> real"
  rnd64 :: "real \<Rightarrow> real"
  node_order :: "(nat \<times> ThoughtNode) list \<Rightarrow> (nat \<times> ThoughtNode) list"
  uni :: unicode
  dbg_str :: "string \<Rightarrow> string"
  skill_order :: "(string \<times> Skill) list \<Rightarrow> (string \<times> Skill) list"
  write_skill :: "string \<Rightarrow> string \<Rightarrow> string + unit"
  info_enabled :: bool

definition on_core :: "(AutonomousAgent \<Rightarrow> AutonomousAgent) \<Rightarrow> agent_state \<Rightarrow> agent_state" where
  "on_core f s = s\<lparr>core := f (core s)\<rparr>"

definition emit :: "AgentEvent \<Rightarrow> agent_state \<Rightarrow> agent_state" where
  "emit e = on_core (emit_event e)"

section \<open>Text generation\<close>

text \<open>\<open>OllamaClient::generate\<close>, which is \<open>LlmClient::generate_with_goal\<close> for the goal \<open>default\<close>: the token budget,
  the concurrency permit, the retry loop, the record of the usage. It is not behind the circuit breaker
  and not charged to the attempts of the run.\<close>

record gen_env =
  ge_now :: nat
  ge_minute :: string
  ge_minute_after :: string
  ge_permit :: "LlmError + unit"
  ge_retry :: retry_env
  ge_answers :: "nat \<Rightarrow> LlmError + string \<times> TokenUsage"

definition generate_with_goal :: "gen_env \<Rightarrow> RetryPolicy \<Rightarrow> nat \<Rightarrow> string \<Rightarrow> string \<Rightarrow> LlmBudget
    \<Rightarrow> (LlmError + string) \<times> nat \<times> LlmBudget" where
  "generate_with_goal ge pol max_tokens prompt goal b =
     (case check_budget (ge_now ge) (ge_minute ge) goal (estimate_tokens prompt max_tokens) b of
        (Inl e, b) \<Rightarrow> (Inl (Provider e), 0, b)
      | (Inr _, b) \<Rightarrow> (case ge_permit ge of
          Inl e \<Rightarrow> (Inl e, 0, b)
        | Inr _ \<Rightarrow> (case with_retry (ge_retry ge) pol (ge_answers ge) of
            (Inl e, sent, waits) \<Rightarrow> (Inl e, sent, b)
          | (Inr (answer, usage), sent, waits) \<Rightarrow>
              (Inr answer, sent, record_usage (ge_minute_after ge) goal usage b))))"

definition generate :: "gen_env \<Rightarrow> string \<Rightarrow> agent_state \<Rightarrow> (string + string) \<times> agent_state" where
  "generate ge prompt s =
     (case generate_with_goal ge (llm_retry (core s)) (llm_max_tokens s) prompt ''default'' (llm_budget s) of
        (r, sent, b) \<Rightarrow>
          (case r of Inl e \<Rightarrow> Inl (show_llm_error e) | Inr answer \<Rightarrow> Inr answer,
           on_core (log_effect (Requests sent (case r of Inl e \<Rightarrow> None | Inr answer \<Rightarrow> Some answer))) (s\<lparr>llm_budget := b\<rparr>)))"

section \<open>Plan, then execute\<close>

definition plan_prompt :: "string \<Rightarrow> string" where
  "plan_prompt task =
     ''You are a task planner. Break down the following task into clear, numbered steps.'' @ newline
     @ ''Each step should be a single, actionable instruction.'' @ newline @ newline
     @ ''TASK: '' @ task @ newline @ newline
     @ ''Return ONLY a numbered list of steps, one per line:'' @ newline
     @ ''1. First step'' @ newline @ ''2. Second step'' @ newline @ ''...'' @ newline @ ''N. Final step''"

text \<open>The text behind the first full stop, parenthesis or colon.\<close>

definition strip_number :: "string \<Rightarrow> string" where
  "strip_number trimmed =
     (let rest = dropWhile (\<lambda>c. c \<notin> {CHR ''.'', CHR '')'', CHR '':''}) trimmed
      in trim (if rest = [] then trimmed else tl rest))"

definition plan_steps_of :: "string \<Rightarrow> string list" where
  "plan_steps_of plan_text = map (\<lambda>l. strip_number (trim l)) (filter (\<lambda>l. starts_numbered (trim l)) (str_lines plan_text))"

record step_env =
  se_aborted :: bool
  se_turn :: "nat \<Rightarrow> turn_env"

definition step_task :: "string \<Rightarrow> nat \<Rightarrow> nat \<Rightarrow> string \<Rightarrow> string \<Rightarrow> string" where
  "step_task task i n step prev =
     ''Context: You are executing a plan for the task: '' @ task @ newline @ newline
     @ ''Current step ('' @ show_nat (i + 1) @ ''/'' @ show_nat n @ ''): '' @ step @ newline @ newline
     @ ''Previous results: '' @ prev @ newline @ newline @ ''Execute this step now.''"

definition run_step :: "task_libs \<Rightarrow> step_env \<Rightarrow> string \<Rightarrow> nat \<Rightarrow> nat \<Rightarrow> string \<Rightarrow> string list \<Rightarrow> agent_state
    \<Rightarrow> string list tool_run \<times> agent_state" where
  "run_step libs se task i n step results s =
     with_run (if results = [] then Returned ''none'' else truncate_output (last results) 200) (\<lambda>prev.
     with_run (truncate_output step 60) (\<lambda>shown s.
       let s = emit (Thinking (''Step '' @ show_nat (i + 1) @ ''/'' @ show_nat n @ '': '' @ shown)) s;
           s = on_core (\<lambda>a. (on_session session_clear a)\<lparr>turn := 0\<rparr>) s
       in case run_react (ag_libs libs) (se_turn se) (step_task task i n step prev) (core s) of
            (Panics, a) \<Rightarrow> (Panics, s\<lparr>core := a\<rparr>)
          | (Blocks, a) \<Rightarrow> (Blocks, s\<lparr>core := a\<rparr>)
          | (Gives (Inr result), a) \<Rightarrow>
              (Gives (results @ [''Step '' @ show_nat (i + 1) @ '' result: '' @ result]),
               s\<lparr>core := a\<lparr>planner := (planner a)\<lparr>wmemory := set_key_info result (wmemory (planner a))\<rparr>\<rparr>\<rparr>)
          | (Gives (Inl e), a) \<Rightarrow>
              (Gives (results @ [''Step '' @ show_nat (i + 1) @ '' FAILED: '' @ e]), s\<lparr>core := a\<rparr>))) s"

fun run_steps :: "task_libs \<Rightarrow> (nat \<Rightarrow> step_env) \<Rightarrow> string \<Rightarrow> nat \<Rightarrow> nat \<Rightarrow> string list \<Rightarrow> string list \<Rightarrow> agent_state
    \<Rightarrow> (string + string list) tool_run \<times> agent_state" where
  "run_steps libs se task n i [] results s = (Gives (Inr results), s)"
| "run_steps libs se task n i (step # steps) results s =
     (if \<not> running (core s) \<or> se_aborted (se i) then (Gives (Inl ''Task aborted''), s)
      else and_then (run_step libs (se i) task i n step results s) (\<lambda>results.
        run_steps libs se task n (i + 1) steps results))"

record plan_env =
  pe_plan :: gen_env
  pe_step :: "nat \<Rightarrow> step_env"
  pe_final :: gen_env

definition synthesis_prompt :: "string \<Rightarrow> string list \<Rightarrow> string" where
  "synthesis_prompt task results = ''Task: '' @ task @ newline @ newline @ ''Step results:'' @ newline
     @ join newline results @ newline @ newline @ ''Summarize the overall outcome in 2-3 sentences.''"

definition run_plan_then_execute :: "task_libs \<Rightarrow> plan_env \<Rightarrow> string \<Rightarrow> agent_state
    \<Rightarrow> (string + string) tool_run \<times> agent_state" where
  "run_plan_then_execute libs pe task s = (case generate (pe_plan pe) (plan_prompt task) s of
     (Inl e, s) \<Rightarrow> (Gives (Inl (''Plan generation failed: '' @ e)), s)
   | (Inr plan_text, s) \<Rightarrow>
       (let steps = plan_steps_of plan_text;
            s = emit (Thinking (''Plan created: '' @ show_nat (length steps) @ '' steps'')) s
        in and_then (run_steps libs (pe_step pe) task (length steps) 0 steps [] s) (\<lambda>r s. case r of
             Inl e \<Rightarrow> (Gives (Inl e), s)
           | Inr results \<Rightarrow> (case generate (pe_final pe) (synthesis_prompt task results) s of
               (Inl e, s) \<Rightarrow> (Gives (Inl (''Synthesis failed: '' @ e)), s)
             | (Inr summary, s) \<Rightarrow> (Gives (Inr summary), s)))))"

section \<open>Tree of thoughts\<close>

text \<open>A line of the answer as a thought, without the dash of a list.\<close>

definition thought_of :: "string \<Rightarrow> string" where
  "thought_of line = (case strip_prefix ''- '' (trim line) of Some r \<Rightarrow> r | None \<Rightarrow> trim line)"

definition on_tree :: "(ThoughtTree \<Rightarrow> ThoughtTree) \<Rightarrow> agent_state \<Rightarrow> agent_state" where
  "on_tree f s = s\<lparr>reasoning := f (reasoning s)\<rparr>"

definition add_thoughts :: "nat \<Rightarrow> string list \<Rightarrow> ThoughtTree \<Rightarrow> ThoughtTree" where
  "add_thoughts p thoughts t = fold (\<lambda>c t. snd (add_child p c t)) thoughts t"

definition thoughts_in :: "string \<Rightarrow> string list" where
  "thoughts_in answer = filter (\<lambda>t. t \<noteq> []) (map thought_of (str_lines answer))"

definition branch_prompt :: "nat \<Rightarrow> string \<Rightarrow> string" where
  "branch_prompt n task = ''For the task below, generate '' @ show_nat n
     @ '' different possible approaches or reasoning paths. Each approach should be a distinct angle.'' @ newline @ newline
     @ ''TASK: '' @ task @ newline @ newline @ ''Return exactly '' @ show_nat n
     @ '' approaches, each on a new line starting with '' @ quote_char @ ''- '' @ quote_char"

definition expand_prompt :: "nat \<Rightarrow> string \<Rightarrow> string" where
  "expand_prompt n leaf = ''Given the approach: '' @ [CHR 0x22] @ leaf @ [CHR 0x22] @ newline @ newline @ ''Generate ''
     @ show_nat n @ '' more specific subtasks or deeper reasoning paths.'' @ newline
     @ ''Return each on a new line starting with '' @ quote_char @ ''- '' @ quote_char @ ''.''"

definition leaf_ids :: "ThoughtTree \<Rightarrow> nat list" where
  "leaf_ids t = filter (\<lambda>i. case get_node t i of Some n \<Rightarrow> is_leaf n \<and> tn_status n \<noteq> Pruned | None \<Rightarrow> False)
     [0..<tree_len t + 10]"

definition expand_leaf :: "gen_env \<Rightarrow> nat \<Rightarrow> nat \<Rightarrow> agent_state \<Rightarrow> agent_state" where
  "expand_leaf ge depth i s =
     (let cfg = sel_config (strategy_selector s);
          leaf = (case get_node (reasoning s) i of Some n \<Rightarrow> tn_content n | None \<Rightarrow> []);
          (r, s) = generate ge (expand_prompt (tot_max_branches cfg) leaf) s;
          s = (case r of
                 Inr answer \<Rightarrow> on_tree (add_thoughts i (take (tot_max_branches cfg) (thoughts_in answer))) s
               | Inl e \<Rightarrow> s);
          s = on_tree (\<lambda>t. snd (mark_unscored i t)) s;
          s = on_core (\<lambda>a. a\<lparr>turn := turn a + 1\<rparr>) s
      in emit (Thinking (''ToT depth '' @ show_nat (depth + 1) @ ''/'' @ show_nat (tot_max_depth cfg) @ '' : ''
           @ show_nat (tree_len (reasoning s)) @ '' nodes explored'')) s)"

record tot_env =
  to_branch :: gen_env
  to_aborted :: "nat \<Rightarrow> bool"
  to_leaf_aborted :: "nat \<Rightarrow> nat \<Rightarrow> bool"
  to_expand :: "nat \<Rightarrow> nat \<Rightarrow> gen_env"
  to_final :: gen_env

fun expand_leaves :: "tot_env \<Rightarrow> nat \<Rightarrow> nat list \<Rightarrow> agent_state \<Rightarrow> bool \<times> agent_state" where
  "expand_leaves te depth [] s = (True, s)"
| "expand_leaves te depth (i # is) s =
     (if \<not> running (core s) \<or> to_leaf_aborted te depth i then (False, s)
      else expand_leaves te depth is (expand_leaf (to_expand te depth i) depth i s))"

text \<open>The loop over the depths, with the number of rounds that are left; \<open>False\<close> when it was aborted.\<close>

fun explore :: "tot_env \<Rightarrow> nat \<Rightarrow> nat \<Rightarrow> agent_state \<Rightarrow> bool \<times> agent_state" where
  "explore te 0 depth s = (True, s)"
| "explore te (Suc left) depth s =
     (if \<not> running (core s) \<or> to_aborted te depth then (False, s)
      else if leaf_ids (reasoning s) = [] then (True, s)
      else case expand_leaves te depth (leaf_ids (reasoning s)) s of
             (False, s) \<Rightarrow> (False, s)
           | (True, s) \<Rightarrow> explore te left (depth + 1) (on_tree (\<lambda>t. snd (tree_prune t)) s))"

definition chain_prompt :: "string \<Rightarrow> string list \<Rightarrow> string" where
  "chain_prompt task chain = ''Task: '' @ task @ newline @ newline @ ''Reasoning chain:'' @ newline
     @ join (newline @ '' '' @ [CHR 0xE2, CHR 0x86, CHR 0x92] @ '' '') chain @ newline @ newline
     @ ''Based on this analysis, provide a clear final answer in 3-5 sentences.''"

definition tot_config :: "task_libs \<Rightarrow> StrategyConfig \<Rightarrow> TreeConfig" where
  "tot_config libs cfg = \<lparr>max_depth = tot_max_depth cfg, max_branches = tot_max_branches cfg,
     accept_threshold = rnd32 libs (4 / 10), learning_rate = rnd32 libs (5 / 100), top_k = tot_top_k cfg\<rparr>"

definition plant :: "task_libs \<Rightarrow> tot_env \<Rightarrow> string \<Rightarrow> agent_state \<Rightarrow> agent_state" where
  "plant libs te task s =
     (let cfg = sel_config (strategy_selector s);
          (root_id, t) = add_root task (tree_new (tot_config libs cfg));
          (r, s) = generate (to_branch te) (branch_prompt (tot_max_branches cfg) task) (s\<lparr>reasoning := t\<rparr>)
      in on_tree (add_thoughts root_id (case r of
           Inr answer \<Rightarrow> thoughts_in answer
         | Inl e \<Rightarrow> [''Analyze: '' @ task, ''Decompose: '' @ task, ''Research: '' @ task])) s)"

text \<open>\<open>Blocks\<close> is the value when the walk to the root of a path does not end.\<close>

definition run_tree_of_thoughts :: "task_libs \<Rightarrow> tot_env \<Rightarrow> string \<Rightarrow> agent_state
    \<Rightarrow> (string + string) tool_run \<times> agent_state" where
  "run_tree_of_thoughts libs te task s =
     (let s = plant libs te task s
      in case explore te (tot_max_depth (sel_config (strategy_selector s))) 0 s of
           (False, s) \<Rightarrow> (Gives (Inl ''Task aborted''), s)
         | (True, s) \<Rightarrow>
             (case best_path (rnd32 libs) (node_order libs) (reasoning s) of
                None \<Rightarrow> (Blocks, s)
              | Some path \<Rightarrow>
                  let chain = map tn_content path
                  in if chain = [] then (Gives (Inl ''TreeOfThoughts: no valid reasoning path found''), s)
                     else case generate (to_final te) (chain_prompt task chain) s of
                            (Inr answer, s) \<Rightarrow> (Gives (Inr answer), s)
                          | (Inl e, s) \<Rightarrow>
                              (Gives (Inr (''ToT analysis ('' @ show_nat (accepted_count (reasoning s)) @ '' accepted, ''
                                 @ show_nat (pruned_count (reasoning s)) @ '' pruned):'' @ newline @ join newline chain)), s)))"

section \<open>After a task\<close>

definition distill_prompt :: "string \<Rightarrow> string \<Rightarrow> string" where
  "distill_prompt task result = ''Distill key learnings from this task execution:'' @ newline @ newline
     @ ''TASK: '' @ task @ newline @ ''RESULT: '' @ result @ newline @ newline
     @ ''Return a JSON object with:'' @ newline
     @ ''- '' @ [CHR 0x22] @ ''facts'' @ [CHR 0x22] @ '': array of verified facts learned'' @ newline
     @ ''- '' @ [CHR 0x22] @ ''skills'' @ [CHR 0x22] @ '': array of new skills/capabilities discovered'' @ newline
     @ ''- '' @ [CHR 0x22] @ ''key_info'' @ [CHR 0x22] @ '': one-line summary for working memory'' @ newline @ newline
     @ ''Only return the JSON, no explanation.''"

definition on_wmemory :: "(WorkingMemory \<Rightarrow> WorkingMemory) \<Rightarrow> AutonomousAgent \<Rightarrow> AutonomousAgent" where
  "on_wmemory f a = a\<lparr>planner := (planner a)\<lparr>wmemory := f (wmemory (planner a))\<rparr>\<rparr>"

definition store_fact :: "string \<Rightarrow> AutonomousAgent \<Rightarrow> AutonomousAgent" where
  "store_fact f a = log_effect (Stored ''Episodic'' f) (on_wmemory (observe f) a)"

definition store_skill_note :: "string \<Rightarrow> AutonomousAgent \<Rightarrow> AutonomousAgent" where
  "store_skill_note sk a = log_effect (Stored ''Semantic'' (''[SKILL] '' @ sk)) a"

definition learn :: "json \<Rightarrow> AutonomousAgent \<Rightarrow> AutonomousAgent" where
  "learn v a =
     (let a = (case Option.bind (json_get ''key_info'' v) json_as_str of
                 Some info \<Rightarrow> on_wmemory (set_key_info info) a | None \<Rightarrow> a);
          a = fold store_fact (json_strings ''facts'' v) a
      in fold store_skill_note (json_strings ''skills'' v) a)"

definition distill_memory :: "task_libs \<Rightarrow> gen_env \<Rightarrow> string \<Rightarrow> string \<Rightarrow> agent_state \<Rightarrow> unit tool_run \<times> agent_state" where
  "distill_memory libs ge task result s =
     with_run (truncate_output result 500) (\<lambda>shown s.
       case generate ge (distill_prompt task shown) s of
         (Inl e, s) \<Rightarrow> (Gives (), s)
       | (Inr answer, s) \<Rightarrow> (Gives (), case parse_json (ag_libs libs) answer of
           Some v \<Rightarrow> on_core (learn v) s | None \<Rightarrow> s)) s"

definition crystallize_prompt :: "string \<Rightarrow> string \<Rightarrow> string" where
  "crystallize_prompt task result =
     (let q = (\<lambda>w. ''- '' @ [CHR 0x22] @ w @ [CHR 0x22])
      in ''Crystallize reusable skills from this task execution:'' @ newline @ newline
         @ ''TASK: '' @ task @ newline @ ''RESULT: '' @ result @ newline @ newline
         @ ''Return a JSON array of skill objects. Each skill has:'' @ newline
         @ q ''name'' @ '': short skill name'' @ newline @ q ''description'' @ '': one-line description'' @ newline
         @ q ''triggers'' @ '': array of trigger phrases that would invoke this skill'' @ newline
         @ q ''steps'' @ '': array of step-by-step instructions'' @ newline @ q ''tags'' @ '': array of category tags''
         @ newline @ newline @ ''Only return the JSON array, no explanation.'')"

definition json_str_or :: "string \<Rightarrow> string \<Rightarrow> json \<Rightarrow> string" where
  "json_str_or key d v = (case Option.bind (json_get key v) json_as_str of Some s \<Rightarrow> s | None \<Rightarrow> d)"

text \<open>A candidate is dropped when it has no trigger or no step.\<close>

definition skill_of_json :: "json \<Rightarrow> Skill option" where
  "skill_of_json v =
     (let trs = json_strings ''triggers'' v; sts = json_strings ''steps'' v
      in if trs = [] \<or> sts = [] then None
         else Some ((skill_new (json_str_or ''name'' ''unnamed'' v) (json_str_or ''description'' [] v))
           \<lparr>triggers := trs, sk_steps := sts, tags := json_strings ''tags'' v\<rparr>))"

definition validate_and_save_skill :: "task_libs \<Rightarrow> SkillLoader \<Rightarrow> Skill \<Rightarrow> agent_state \<Rightarrow> agent_state" where
  "validate_and_save_skill libs l sk s =
     (if \<not> fit_valid (validate (rnd64 libs) (dbg_str libs) default_validator sk (all_skills (skill_order libs) l)) then s
      else fold (\<lambda>(p, c). on_core (log_effect (Skill_Written p c))) (snd (save_skill (write_skill libs) l sk)) s)"

definition crystallize_skills :: "task_libs \<Rightarrow> gen_env \<Rightarrow> string \<Rightarrow> string \<Rightarrow> agent_state \<Rightarrow> unit tool_run \<times> agent_state" where
  "crystallize_skills libs ge task result s = (case skill_loader s of
     None \<Rightarrow> (Gives (), s)
   | Some l \<Rightarrow>
       with_run (truncate_output result 500) (\<lambda>shown s.
         case generate ge (crystallize_prompt task shown) s of
           (Inl e, s) \<Rightarrow> (Gives (), s)
         | (Inr answer, s) \<Rightarrow>
             (Gives (), case Option.bind (parse_json (ag_libs libs) answer) json_as_array of
                Some vs \<Rightarrow> fold (validate_and_save_skill libs l) (List.map_filter skill_of_json vs) s
              | None \<Rightarrow> s)) s)"

section \<open>A task\<close>

record task_env =
  ta_files :: files
  ta_now :: nat
  ta_turn :: "nat \<Rightarrow> turn_env"
  ta_plan :: plan_env
  ta_tot :: tot_env
  ta_distill :: gen_env
  ta_crystallize :: gen_env
  ta_quality :: "string option"

definition run_strategy :: "task_libs \<Rightarrow> task_env \<Rightarrow> StrategyType \<Rightarrow> string \<Rightarrow> agent_state
    \<Rightarrow> (string + string) tool_run \<times> agent_state" where
  "run_strategy libs te strategy task s = (case strategy of
     ReAct \<Rightarrow> (case run_react (ag_libs libs) (ta_turn te) task (core s) of (r, a) \<Rightarrow> (r, s\<lparr>core := a\<rparr>))
   | PlanThenExecute \<Rightarrow> run_plan_then_execute libs (ta_plan te) task s
   | TreeOfThoughts \<Rightarrow> run_tree_of_thoughts libs (ta_tot te) task s)"

definition note_outcome :: "task_libs \<Rightarrow> StrategyType \<Rightarrow> string \<Rightarrow> bool \<Rightarrow> agent_state \<Rightarrow> unit tool_run \<times> agent_state" where
  "note_outcome libs strategy task ok s =
     with_run (truncate_output task 200) (\<lambda>preview s.
       let c = analyze (rnd32 libs) task
       in (Gives (), s\<lparr>strategy_selector := record_outcome
            \<lparr>so_strategy = strategy, so_preview = preview, so_char_count = length task, so_domain = domain c,
             so_steps = estimated_steps c, so_success = ok, so_turns = turn (core s)\<rparr> (strategy_selector s)\<rparr>)) s"

definition after_success :: "task_libs \<Rightarrow> task_env \<Rightarrow> string \<Rightarrow> string \<Rightarrow> agent_state \<Rightarrow> string tool_run \<times> agent_state" where
  "after_success libs te task response s =
     with_run (truncate_output response 500) (\<lambda>shown s.
       and_then (if auto_distill (ag_config (core s)) \<and> response \<noteq> []
                 then and_then (distill_memory libs (ta_distill te) task response s)
                   (\<lambda>_. crystallize_skills libs (ta_crystallize te) task response)
                 else (Gives (), s))
         (\<lambda>_ s.
           let s = (case ta_quality te of
                      Some q \<Rightarrow> if response \<noteq> []
                        then emit (SafetyWarning (''Quality: '' @ q @ ''/10 '' @ em_dash @ '' review recommended'')) s else s
                    | None \<Rightarrow> s)
           in (Gives response, emit (Done_Event (''Task completed in '' @ show_nat (turn (core s))
                 @ '' turns. Result: '' @ shown)) s))) s"

definition run_task :: "task_libs \<Rightarrow> task_env \<Rightarrow> string \<Rightarrow> agent_state \<Rightarrow> (string + string) tool_run \<times> agent_state" where
  "run_task libs te task s = (case run_task_start (ta_files te) (ta_now te) (core s) of
     (Inl e, a) \<Rightarrow> (Gives (Inl e), s\<lparr>core := a\<rparr>)
   | (Inr _, a) \<Rightarrow>
       (let s = s\<lparr>core := a\<rparr>;
            strategy = select_with_failures (rnd32 libs) (strategy_selector s) task (consecutive_failures a);
            s = s\<lparr>last_strategy := strategy\<rparr>
        in with_run (if info_enabled libs then truncate_output task 80 else Returned []) (\<lambda>_ s.
             let s = emit (Thinking (''Strategy: '' @ show_strategy strategy @ '' ('' @ show_nat (consecutive_failures (core s))
                       @ '' consecutive failures)'')) s
             in and_then (run_strategy libs te strategy task s) (\<lambda>r s.
                  let s = on_core (\<lambda>a. a\<lparr>running := False\<rparr>) s
                  in and_then (note_outcome libs strategy task (\<not> isl r) s) (\<lambda>_ s.
                       case r of
                         Inl e \<Rightarrow> (Gives (Inl e), s)
                       | Inr response \<Rightarrow> and_then (after_success libs te task response s)
                           (\<lambda>response s. (Gives (Inr response), s))))) s))"

section \<open>Asking, stopping\<close>

definition ask :: "agent_libs \<Rightarrow> turn_env \<Rightarrow> string \<Rightarrow> AutonomousAgent \<Rightarrow> (string + string) tool_run \<times> AutonomousAgent" where
  "ask libs te question a =
     and_then (compact_if_needed libs te (on_session (add_user_message question) a)) (\<lambda>_ a.
       case guarded_llm_chat_typed libs te a of
         (Inl (outcome, e), a) \<Rightarrow> (Gives (Inl (case outcome of
             Exhausted attempts \<Rightarrow> ''LLM provider exhausted after '' @ show_nat (unat attempts) @ '' provider-level attempts: '' @ e
           | Permanent \<Rightarrow> ''LLM provider rejected the request permanently: '' @ e
           | _ \<Rightarrow> ''LLM error: '' @ e)), a)
       | (Inr resp, a) \<Rightarrow>
           (let content = (case resp_content resp of Some c \<Rightarrow> c | None \<Rightarrow> [])
            in (Gives (Inr content), on_session (add_assistant_message content) a)))"

definition abort_run :: "AutonomousAgent \<Rightarrow> AutonomousAgent" where
  "abort_run a = a\<lparr>running := False\<rparr>"

end
