(* ===== verification/Agent_Theorems.thy ===== *)
theory Agent_Theorems
  imports Agent_Run Tools_Confine
begin

text \<open>
  The properties of a run of the agent: a run starts with \<open>run_task_start\<close>, which refuses to start behind
  a tripped latch and resets the budgets, and goes on with \<open>run_react\<close>.
\<close>

lemma run_task_start_ok:
  assumes "run_task_start fs now a = (Inr (), a0)"
  shows "turn a0 = 0" "tool_call_count a0 = 0" "write_operation_count a0 = 0" "provider_attempts_spent a0 = 0"
    "gate a0 = gate a" "ag_config a0 = ag_config a" "scanner a0 = scanner a" "llm_retry a0 = llm_retry a"
    "\<not> is_tripped (emergency_stop a) fs" "effects a0 = effects a @ [Latch_Read None]"
  using assms
  by (auto simp: run_task_start_def check_latch_def Let_def on_session_def begin_run_accounting_def log_effect_def
      split: if_splits)

lemma run_react_inv:
  assumes "run_task_start fs now a = (Inr (), a0)" "run_react libs env task a0 = (r, b)"
  shows "\<exists>m. run_inv libs a0 m b \<and> m \<le> max_turns (ag_config a)
    \<and> m \<le> max 1 (unat (max_provider_attempts (ag_config a))) \<and> turn b \<le> max_turns (ag_config a)"
proof -
  note s = run_task_start_ok [OF assms(1)]
  have q: "quiet libs (trail a0 a0) a0 (react_start task a0)"
    unfolding react_start_def
    by (rule quiet_trans [OF _ quiet_session]) (rule quiet_unlogged, simp_all add: static_def counters_def)
  have inv: "run_inv libs a0 0 (react_start task a0)"
    using run_inv_quiet [OF run_inv_start q] by blast
  have "turn (react_start task a0) = 0" "provider_attempts_spent (react_start task a0) = 0"
    using q s(1,4) by (auto simp: quiet_def counters_def)
  then show ?thesis
    using react_loop_run [OF inv _ _ _ _ assms(2) [unfolded run_react_def]] s(6) by simp
qed

text \<open>Under the gate of a fresh agent only registered tools and nothing destructive is allowed.\<close>

lemma fresh_gate_allows:
  assumes "call_allowed (gate_new Autonomous) name ps"
  shows "is_registered name \<and> call_permission name ps \<noteq> Destructive"
proof -
  have "call_permission name ps \<noteq> Destructive"
    using assms
    by (auto simp: call_allowed_def evaluate_def gate_new_def store_empty_def is_allowed_def is_denied_def
        permission_requirement_def req_critical_def less_RiskLevel_def)
  moreover from this have "is_registered name"
    by (auto simp: call_permission_def required_permission_for_def is_registered_def split: sum.splits)
  ultimately show ?thesis by blast
qed

lemma guarded_dispatch:
  "guarded g b es \<Longrightarrow> Dispatched name ps ops res \<in> set es \<Longrightarrow> call_allowed g name ps"
  by (induction g b es rule: guarded.induct) auto

lemma screened_cases:
  "screened libs sc raw s \<longleftrightarrow>
     scan_verdict (scanner_scan (rule_order libs) sc raw) = Clean \<and> s = raw
   \<or> scan_verdict (scanner_scan (rule_order libs) sc raw) = Suspicious \<and> s = spotlight raw"
  using screen_cases [of "rule_order libs" sc raw] by (auto simp: screened_def is_persistable_def)

section \<open>When a call is dispatched\<close>

definition passes_guards :: "agent_libs \<Rightarrow> call_env \<Rightarrow> ToolCall \<Rightarrow> AutonomousAgent \<Rightarrow> bool" where
  "passes_guards libs ce tc a \<longleftrightarrow>
     \<not> is_tripped (emergency_stop a) (ce_files ce)
     \<and> tool_call_count a < max_tool_calls (ag_config a)
     \<and> (changes_state libs tc \<longrightarrow> write_operation_count a < max_write_operations (ag_config a))
     \<and> call_allowed (gate a) (tc_name tc) (call_args libs tc)"

definition dispatches :: "AutonomousAgent \<Rightarrow> AutonomousAgent \<Rightarrow> agent_effect list" where
  "dispatches a b = filter is_dispatch (drop (length (effects a)) (effects b))"

lemma quiet_dispatches:
  assumes "quiet libs S b c" "effects b = effects a @ es"
  shows "dispatches a c = filter is_dispatch es"
proof -
  obtain fs where fs: "effects c = effects b @ fs" "list_all (calm libs (scanner b) S) fs"
    using assms(1) by (auto simp: quiet_def)
  then have "filter is_dispatch fs = []"
    using calm_effects(3) [OF fs(2)] by (simp add: tally_def)
  then show ?thesis using fs(1) assms(2) by (simp add: dispatches_def)
qed

text \<open>C25: A tool call asked for by the language model is dispatched exactly when the latch is not tripped,
  both budgets have room, and the gate allows it; then it is dispatched exactly once, with the name and
  the arguments that were checked, and its recorded outcome is the answer of the tool. The one exception is a call whose audit line panics: it is not
  dispatched either.\<close>

theorem call_dispatched_exactly:
  "if passes_guards libs ce tc a \<and> audit_write libs tc (call_args libs tc) a = (Gives (), a)
   then dispatches a (snd (handle_tool_call libs ce tc a)) =
     [Dispatched (tc_name tc) (call_args libs tc) (snd (async_dispatch_tool (ce_os ce) (tc_name tc) (call_args libs tc)))
        (fst (async_dispatch_tool (ce_os ce) (tc_name tc) (call_args libs tc)))]
   else dispatches a (snd (handle_tool_call libs ce tc a)) = []"
proof -
  let ?ps = "call_args libs tc" and ?w = "changes_state libs tc"
  define a1 where "a1 = emit_event (Tool_Call_Event (tc_name tc) ?ps) a"
  obtain why b where latch: "check_latch (ce_files ce) a1 = (why, b)" by fastforce
  have q: "quiet libs {} a a1" by (simp add: a1_def quiet_emit)
  then obtain es where es: "effects a1 = effects a @ es" "list_all (calm libs (scanner a) {}) es"
    by (auto simp: quiet_def)
  have none: "filter is_dispatch es = []" using calm_effects(3) [OF es(2)] by (simp add: tally_def)
  have st: "static a1 = static a" "counters a1 = counters a" using q by (simp_all add: quiet_def)
  have b: "effects b = effects a @ es @ [Latch_Read why]" "gate b = gate a" "ag_config b = ag_config a"
      "tool_call_count b = tool_call_count a" "write_operation_count b = write_operation_count a"
      "why = None \<longleftrightarrow> \<not> is_tripped (emergency_stop a) (ce_files ce)"
    using latch st es(1)
    by (auto simp: check_latch_def Let_def log_effect_def static_def counters_def split: if_splits)
  have cb: "effects (counted v b) = effects a @ es @ [Latch_Read why]" for v
    using b(1) by (simp add: counted_def)
  have blocked: "dispatches a (snd (block_call tc msg c)) = []"
    if "effects c = effects a @ es @ [Latch_Read why]" for msg c
    using quiet_dispatches [OF quiet_block that] none by simp
  have audit: "audit_write libs tc ?ps (counted ?w b) = (Gives (), counted ?w b)
      \<longleftrightarrow> audit_write libs tc ?ps a = (Gives (), a)"
    by (auto simp: audit_write_def with_run_def split: run.splits)
  have d: "dispatch_effect ce (tc_name tc) ?ps = Dispatched (tc_name tc) ?ps
      (snd (async_dispatch_tool (ce_os ce) (tc_name tc) ?ps)) (fst (async_dispatch_tool (ce_os ce) (tc_name tc) ?ps))"
    by (simp add: dispatch_effect_def split: prod.split)
  have performed: "dispatches a (snd (perform_call libs ce tc ?ps (counted ?w b)))
      = [dispatch_effect ce (tc_name tc) ?ps]"
    if audited: "audit_write libs tc ?ps a = (Gives (), a)"
  proof -
    have "quiet libs UNIV (log_effect (dispatch_effect ce (tc_name tc) ?ps) (counted ?w b))
        (snd (perform_call libs ce tc ?ps (counted ?w b)))"
      using perform_call_dispatched [OF _ subset_UNIV] audit audited by blast
    from quiet_dispatches [OF this, of a "es @ [Latch_Read why, dispatch_effect ce (tc_name tc) ?ps]"]
    show ?thesis using cb none by (simp add: log_effect_def d)
  qed
  have unperformed: "dispatches a (snd (perform_call libs ce tc ?ps (counted ?w b))) = []"
    if "audit_write libs tc ?ps a \<noteq> (Gives (), a)"
    using audit that audit_write_cases [of libs tc ?ps "counted ?w b"] cb none
    by (auto simp: perform_call_def and_then_def dispatches_def)
  show ?thesis
  proof (cases why)
    case (Some r)
    then show ?thesis
      using handle_tool_call_blocked [OF latch [unfolded Some a1_def]] blocked [OF b(1)] b(6)
      by (simp add: passes_guards_def)
  next
    case None
    then show ?thesis
      using handle_tool_call_unblocked [OF latch [unfolded None a1_def]] b(2-6) blocked [OF cb] performed [unfolded d] unperformed
      unfolding passes_guards_def by (cases "audit_write libs tc ?ps a = (Gives (), a)") (auto split: if_splits)
  qed
qed

section \<open>A concrete agent\<close>

definition demo_libs :: agent_libs where
  "demo_libs = \<lparr>parse_json = (\<lambda>s. Some (JObject [(''url'', JString s)])), print_json = (\<lambda>j. ''{}''),
     digest = (\<lambda>s. 0), rule_order = (\<lambda>rs. rs), table_order = (\<lambda>ks. ks), duration_dbg = (\<lambda>n. ''30s''),
     warn_enabled = False, overflow_checks = True\<rparr>"

definition demo_agent :: AutonomousAgent where
  "demo_agent = \<lparr>ag_config = default_agent_config, llm_retry = small_policy,
     chat_session = with_max_context ''You are SoulSystem'' 40000, planner = cognitive_new, ag_history = [],
     turn = 9, consecutive_failures = 0, provider_attempts_spent = 11, repair_count = 0, running = False,
     event_tx = False, llm_breaker = circuit_new ''llm'' (llm_provider ''SoulSystem''), scanner = scanner_new,
     gate = gate_new Autonomous, memory_provenance = with_capacity 512, emergency_stop = estop_at ''/estop'',
     tool_call_count = 400, write_operation_count = 50, task_started_at = None, effects = []\<rparr>"

text \<open>A provider that fails twice and then asks for a web page, on every turn.\<close>

definition demo_turn :: "tool_os \<Rightarrow> turn_env" where
  "demo_turn os = \<lparr>te_aborted = False, te_files = (\<lambda>p. None), te_elapsed = 5, te_elapsed_shown = 5, te_recalled = [],
     te_kg_context = [], te_self_model = [], te_ccos_files = 0, te_ccos_window = [], te_admitted_at = 0,
     te_settled_at = 0, te_permit = Inr (), te_retry = flaky_env,
     te_answers = (\<lambda>i. if i < 3 then Inl (ServiceUnavailable 503 None)
        else Inr \<lparr>resp_content = None, resp_tool_calls =
          Some [\<lparr>tc_id = ''c1'', tc_name = ''browser_read'', tc_arguments = ''http://x''\<rparr>]\<rparr>),
     te_timeout = None, te_now = 0,
     te_call = (\<lambda>i. \<lparr>ce_files = (\<lambda>p. None), ce_os = os, ce_now = 0, ce_hottest = None\<rparr>)\<rparr>"

lemma demo_agent_sel [simp]:
  "gate demo_agent = gate_new Autonomous" "max_tool_calls (ag_config demo_agent) = 500"
  "max_write_operations (ag_config demo_agent) = 100" "max_turns (ag_config demo_agent) = 50"
  "unat (max_provider_attempts (ag_config demo_agent)) = 12" "unat (max_attempts (llm_retry demo_agent)) = 3"
  "scanner demo_agent = scanner_new"
  by (simp_all add: demo_agent_def default_agent_config_def small_policy_def)

lemma demo_run:
  "\<exists>a0 r b. run_task_start (\<lambda>p. None) 0 demo_agent = (Inr (), a0)
     \<and> run_react demo_libs (\<lambda>i. demo_turn os) ''read'' a0 = (r, b)"
proof -
  have "\<exists>a0. run_task_start (\<lambda>p. None) 0 demo_agent = (Inr (), a0)"
    by (simp add: run_task_start_def check_latch_def is_tripped_def)
  then show ?thesis by (metis surj_pair)
qed

text \<open>One call of the model by this agent: three requests are sent and one attempt is charged.\<close>

lemma guarded_chat_answered:
  assumes "te_timeout te = None" "client_chat te (llm_retry a) = (Inr resp, sent)"
    "call_admit (te_admitted_at te) (llm_breaker a) = (Inr (), c)"
  shows "\<exists>d. guarded_llm_chat_typed libs te a = (Inr resp, log_effect (Requests sent (resp_content resp)) (a\<lparr>llm_breaker := d\<rparr>))"
  using assms by (simp add: guarded_llm_chat_typed_def breaker_call_def Let_def split: unit.split) blast

lemma demo_chat_requests:
  "\<exists>resp b. guarded_llm_chat_typed libs (demo_turn os) demo_agent = (Inr resp, b)
     \<and> effects (charge 1 b) = [Requests 3 (resp_content resp)]
     \<and> provider_attempts_spent (charge 1 b) = provider_attempts_spent demo_agent + 1"
proof -
  have "te_timeout (demo_turn os) = None" "\<exists>resp. client_chat (demo_turn os) (llm_retry demo_agent) = (Inr resp, 3)"
    by (simp_all add: demo_turn_def client_chat_def demo_agent_def with_retry_def with_retry_from.simps
        retry_decide_def small_policy_def flaky_env_def base_backoff_def apply_jitter_def Let_def)
  moreover have "\<exists>c. call_admit (te_admitted_at (demo_turn os)) (llm_breaker demo_agent) = (Inr (), c)"
    by (simp add: demo_agent_def call_admit_def circuit_new_def breaker_new_def effective_state_def Let_def)
  ultimately obtain resp d where "guarded_llm_chat_typed libs (demo_turn os) demo_agent
      = (Inr resp, log_effect (Requests 3 (resp_content resp)) (demo_agent\<lparr>llm_breaker := d\<rparr>))"
    using guarded_chat_answered by meson
  then show ?thesis
    by (simp add: log_effect_def charge_def saturating_add_def demo_agent_def)
qed

section \<open>Properties of a run\<close>

text \<open>Every tool the agent dispatches in a run is behind its guards: the
  emergency-stop latch was read for it, after every earlier call, and found clear, the approval gate allowed the call at the
  permission level the tool registry derives from its name and command, and the calls and the
  state-changing calls of the run stay within \<open>max_tool_calls\<close> and \<open>max_write_operations\<close>. With the gate of
  a fresh agent no unregistered name and no destructive command is ever dispatched, whatever the
  language model asks for.\<close>

theorem agent_dispatch_guarded:
  assumes "run_task_start fs now a = (Inr (), a0)" "run_react libs env task a0 = (r, b)"
  shows "\<exists>es. effects b = effects a0 @ es \<and> guarded (gate a) False es
    \<and> tally is_dispatch es \<le> max_tool_calls (ag_config a)
    \<and> tally is_write es \<le> max_write_operations (ag_config a)
    \<and> (gate a = gate_new Autonomous \<longrightarrow> (\<forall>name ps ops res. Dispatched name ps ops res \<in> set es \<longrightarrow>
         is_registered name \<and> call_permission name ps \<noteq> Destructive))"
proof -
  obtain m es where "effects b = effects a0 @ es" "guarded (gate a0) False es"
      "tally is_dispatch es \<le> max_tool_calls (ag_config a0)"
      "tally is_write es \<le> max_write_operations (ag_config a0)"
    using run_react_inv [OF assms] by (auto simp: run_inv_def)
  then show ?thesis
    using run_task_start_ok [OF assms(1)] guarded_dispatch fresh_gate_allows by metis
qed

theorem agent_dispatch_guarded_witness:
  "\<exists>a0 r b es. run_task_start (\<lambda>p. None) 0 demo_agent = (Inr (), a0)
     \<and> run_react demo_libs (\<lambda>i. demo_turn ws_os) ''read'' a0 = (r, b)
     \<and> effects b = effects a0 @ es \<and> guarded (gate_new Autonomous) False es
     \<and> tally is_dispatch es \<le> 500 \<and> tally is_write es \<le> 100"
  using demo_run [of ws_os] agent_dispatch_guarded [of "\<lambda>p. None" 0 demo_agent] by fastforce

text \<open>What the memories of a trail hold. Ingested into the causal graph, under the file a call names, is
  only the output of that call when the tool succeeded and the injection scan did not call its output
  malicious: unchanged when the scan was clean, inside the data fence when it was suspicious. An
  observation is such a form of an answer of the language model, without the white space around it.
  Everything else that is stored is an episodic fact or a note that begins with \<open>[SKILL] \<close>.\<close>

definition memory_screened :: "agent_libs \<Rightarrow> InjectionScanner \<Rightarrow> agent_effect list \<Rightarrow> bool" where
  "memory_screened libs sc es \<longleftrightarrow>
     (\<forall>uri t. Ingested uri t \<in> set es \<longrightarrow>
        (\<exists>name ps ops output p. Dispatched name ps ops (Gives (Inr output)) \<in> set es
           \<and> path_arg ps = Some p \<and> uri = ''file:'' @ p
           \<and> (scan_verdict (scanner_scan (rule_order libs) sc output) = Clean \<and> t = output
              \<or> scan_verdict (scanner_scan (rule_order libs) sc output) = Suspicious \<and> t = spotlight output)))
   \<and> (\<forall>t. Remembered t \<in> set es \<longrightarrow>
        (\<exists>n answer. Requests n (Some answer) \<in> set es
           \<and> (scan_verdict (scanner_scan (rule_order libs) sc answer) = Clean \<and> t = trim answer
              \<or> scan_verdict (scanner_scan (rule_order libs) sc answer) = Suspicious
                 \<and> t = trim (spotlight answer))))
   \<and> (\<forall>layer t. Stored layer t \<in> set es \<longrightarrow>
        (\<exists>n answer. Requests n (Some answer) \<in> set es \<and> distilled libs answer layer t))"

lemma in_sources:
  "From_Tool ps output \<in> sources es \<longleftrightarrow> (\<exists>name ops. Dispatched name ps ops (Gives (Inr output)) \<in> set es)"
  "From_Model answer \<in> sources es \<longleftrightarrow> (\<exists>n. Requests n (Some answer) \<in> set es)"
proof -
  have "From_Tool ps output \<in> effect_sources e \<longleftrightarrow> (\<exists>name ops. e = Dispatched name ps ops (Gives (Inr output)))"
    "From_Model answer \<in> effect_sources e \<longleftrightarrow> (\<exists>n. e = Requests n (Some answer))" for e
    by (cases e rule: effect_sources.cases; auto)+
  then show "From_Tool ps output \<in> sources es \<longleftrightarrow> (\<exists>name ops. Dispatched name ps ops (Gives (Inr output)) \<in> set es)"
    "From_Model answer \<in> sources es \<longleftrightarrow> (\<exists>n. Requests n (Some answer) \<in> set es)"
    unfolding sources_def by auto
qed

lemma effects_memory_screened:
  assumes "list_all (effect_ok libs sc m (sources es)) es"
  shows "memory_screened libs sc es"
  unfolding memory_screened_def
proof (intro conjI allI impI)
  fix uri t assume "Ingested uri t \<in> set es"
  then have "effect_ok libs sc m (sources es) (Ingested uri t)" using assms by (auto simp: list_all_iff)
  then show "\<exists>name ps ops output p. Dispatched name ps ops (Gives (Inr output)) \<in> set es
           \<and> path_arg ps = Some p \<and> uri = ''file:'' @ p
           \<and> (scan_verdict (scanner_scan (rule_order libs) sc output) = Clean \<and> t = output
              \<or> scan_verdict (scanner_scan (rule_order libs) sc output) = Suspicious \<and> t = spotlight output)"
    unfolding effect_ok.simps calm.simps in_sources screened_cases by metis
next
  fix t assume "Remembered t \<in> set es"
  then have "effect_ok libs sc m (sources es) (Remembered t)" using assms by (auto simp: list_all_iff)
  then show "\<exists>n answer. Requests n (Some answer) \<in> set es
           \<and> (scan_verdict (scanner_scan (rule_order libs) sc answer) = Clean \<and> t = trim answer
              \<or> scan_verdict (scanner_scan (rule_order libs) sc answer) = Suspicious \<and> t = trim (spotlight answer))"
    unfolding effect_ok.simps calm.simps in_sources screened_cases by metis
next
  fix layer t assume "Stored layer t \<in> set es"
  then have "effect_ok libs sc m (sources es) (Stored layer t)" using assms by (auto simp: list_all_iff)
  then show "\<exists>n answer. Requests n (Some answer) \<in> set es \<and> distilled libs answer layer t"
    unfolding effect_ok.simps calm.simps in_sources by blast
qed

text \<open>The memories of a run.\<close>

theorem agent_memory_screened:
  assumes "run_task_start fs now a = (Inr (), a0)" "run_react libs env task a0 = (r, b)"
  shows "\<exists>es. effects b = effects a0 @ es \<and> memory_screened libs (scanner a) es"
proof -
  obtain m es where "effects b = effects a0 @ es"
      "list_all (effect_ok libs (scanner a0) (request_limit a0) (sources es)) es"
    using run_react_inv [OF assms] by (auto simp: run_inv_def)
  then show ?thesis
    using effects_memory_screened run_task_start_ok(7) [OF assms(1)] by metis
qed

theorem agent_memory_screened_witness:
  "\<exists>a0 r b es. run_task_start (\<lambda>p. None) 0 demo_agent = (Inr (), a0)
     \<and> run_react demo_libs (\<lambda>i. demo_turn ws_os) ''read'' a0 = (r, b)
     \<and> effects b = effects a0 @ es \<and> memory_screened demo_libs scanner_new es"
  using demo_run [of ws_os] agent_memory_screened [of "\<lambda>p. None" 0 demo_agent] by fastforce

text \<open>C24: A run of the ReAct loop ends within \<open>max_turns\<close> turns, and it calls the language model at most
  \<open>max_turns\<close> times and at most \<open>max_provider_attempts\<close> times (once when that is 0): every call that is
  answered is charged to the attempt budget of the run, and the run ends when the budget is reached or a
  call fails. Each of these calls sends at most as many requests as the retry policy of the provider layer
  has attempts (one when that is 0).\<close>

theorem agent_requests_bounded:
  assumes "run_task_start fs now a = (Inr (), a0)" "run_react libs env task a0 = (r, b)"
  shows "turn b \<le> max_turns (ag_config a) \<and> (\<exists>es. effects b = effects a0 @ es
    \<and> length (filter is_request es) \<le> max_turns (ag_config a)
    \<and> length (filter is_request es) \<le> max 1 (unat (max_provider_attempts (ag_config a)))
    \<and> (\<forall>n answer. Requests n answer \<in> set es \<longrightarrow> n \<le> max 1 (unat (max_attempts (llm_retry a)))))"
proof -
  obtain m es where m: "m \<le> max_turns (ag_config a)" "m \<le> max 1 (unat (max_provider_attempts (ag_config a)))"
      "turn b \<le> max_turns (ag_config a)"
    and es: "effects b = effects a0 @ es"
      "list_all (effect_ok libs (scanner a0) (request_limit a0) (sources es)) es"
      "tally is_request es \<le> m"
    using run_react_inv [OF assms] by (auto simp: run_inv_def)
  have "request_limit a0 = max 1 (unat (max_attempts (llm_retry a)))"
    using run_task_start_ok [OF assms(1)] by (simp add: request_limit_def)
  then have "\<forall>n answer. Requests n answer \<in> set es \<longrightarrow> n \<le> max 1 (unat (max_attempts (llm_retry a)))"
    using es(2) by (fastforce simp: list_all_iff)
  then show ?thesis using m es(1,3) by (auto simp: tally_def)
qed

theorem agent_requests_bounded_witness:
  "\<exists>a0 r b es. run_task_start (\<lambda>p. None) 0 demo_agent = (Inr (), a0)
     \<and> run_react demo_libs (\<lambda>i. demo_turn ws_os) ''read'' a0 = (r, b)
     \<and> turn b \<le> 50 \<and> effects b = effects a0 @ es
     \<and> length (filter is_request es) \<le> 12 \<and> (\<forall>n answer. Requests n answer \<in> set es \<longrightarrow> n \<le> 3)"
  using demo_run [of ws_os] agent_requests_bounded [of "\<lambda>p. None" 0 demo_agent] by fastforce

section \<open>Error paths\<close>

text \<open>A run does not start behind a tripped latch, and starting is the only effect.\<close>

lemma tripped_latch_refuses:
  assumes "is_tripped (emergency_stop a) fs"
  shows "\<exists>why. run_task_start fs now a = (Inl (''refusing to start: emergency stop is active ('' @ why @ '')''),
      log_effect (Latch_Read (Some why)) a)"
  using assms by (simp add: run_task_start_def check_latch_def Let_def)

lemma truncate_panics_iff:
  "truncate_output s n = Panicked \<longleftrightarrow> n < length s \<and> n \<noteq> 0 \<and> continuation (byte (s ! n))"
  by (auto simp: truncate_output_def slice_to_def char_boundary_def)

text \<open>A tool that succeeded with an output whose byte 2000 is inside a character: the agent panics after
  the tool has run.\<close>

lemma long_output_panics:
  assumes "async_dispatch_tool (ce_os ce) name ps = (Gives (Inr output), ops)"
    "2000 < length output" "continuation (byte (output ! 2000))"
  shows "\<exists>b. dispatch_call libs ce name ps a = (Panics, b) \<and> effects b = effects a @ [Dispatched name ps ops (Gives (Inr output))]"
proof -
  have "truncate_output output 2000 = Panicked"
    using assms(2,3) by (simp add: truncate_panics_iff)
  then show ?thesis
    using assms(1) by (simp add: dispatch_call_def Let_def with_run_def log_effect_def)
qed

text \<open>A call that the breaker's timeout cut off after requests had been sent is reported as refused
  before the provider was asked.\<close>

lemma timeout_reported_as_breaker_open:
  assumes "te_timeout te = Some n" "fst (call_admit (te_admitted_at te) (llm_breaker a)) = Inr ()"
  shows "\<exists>e b. guarded_llm_chat_typed libs te a = (Inl (BreakerOpen, e), b)
    \<and> effects b = effects a @ [Requests (min n (snd (client_chat te (llm_retry a)))) None]"
proof -
  obtain b1 where "call_admit (te_admitted_at te) (llm_breaker a) = (Inr (), b1)"
    using assms(2) by (cases "call_admit (te_admitted_at te) (llm_breaker a)") auto
  moreover obtain answer sent where "client_chat te (llm_retry a) = (answer, sent)" by fastforce
  ultimately show ?thesis
    using assms(1) by (simp add: guarded_llm_chat_typed_def breaker_call_def log_effect_def Let_def split: unit.split)
qed

end
