(* ===== verification/Skill_Theorems.thy ===== *)
theory Skill_Theorems
  imports Skills
begin

text \<open>
  Properties of the skill library: where a skill is written, what the library retains, and what is read
  back from a written file.
\<close>

section \<open>Where a skill is written\<close>

lemma components_join:
  assumes "is_absolute p" "\<not> is_absolute q"
  shows "components (path_push p q) = components p @ filter (\<lambda>x. \<not> blank x) (split_char CHR ''/'' q)"
proof -
  obtain b where p: "p = CHR ''/'' # b" using assms(1) absolute_Cons by blast
  show ?thesis
  proof (cases "b = [] \<or> last b \<noteq> CHR ''/''")
    case True
    then show ?thesis
      using p assms(2) components_absolute [of p] components_absolute [of "path_push p q"]
      by (auto simp: path_push_def absolute_Cons split_char_append_sep blank_def)
  next
    case False
    then obtain b' where "b = b' @ [CHR ''/'']" by (metis append_butlast_last_id)
    then show ?thesis
      using p assms(2) components_absolute [of p] components_absolute [of "path_push p q"]
      by (auto simp: path_push_def absolute_Cons split_char_append_sep [of _ b' "[]"]
          split_char_append_sep blank_def)
  qed
qed

lemma split_char_suffix:
  "sep \<notin> set t \<Longrightarrow> split_char sep (s @ t) = butlast (split_char sep s) @ [last (split_char sep s) @ t]"
proof (induction s)
  case (Cons c s)
  then show ?case by (cases "split_char sep s") auto
qed (simp add: split_char_single)

text \<open>A safe name is one proper component, possibly followed by blank pieces.\<close>

lemma safe_name_shape:
  assumes "is_safe_skill_name n"
  shows "\<exists>c rest. split_char CHR ''/'' n = c # rest \<and> proper_name c \<and> (\<forall>p \<in> set rest. blank p) \<and> \<not> is_absolute n"
proof -
  obtain c where c: "components n = [c]" "c \<noteq> ''/''" "c \<noteq> ''.''" "c \<noteq> ''..''"
    using assms by (auto simp: is_safe_skill_name_def split: list.splits)
  have abs: "\<not> is_absolute n" using c(1,2) components_absolute [of n] by auto
  have dot: "n \<noteq> ''.'' \<and> \<not> starts_with n ''./''"
  proof (rule ccontr)
    assume "\<not> ?thesis"
    then have "split_body n = (''.'', tl n)" by (cases n) (auto simp: split_body_def)
    then show False using c(1,3) by (simp add: components_def)
  qed
  then have only: "filter (\<lambda>p. \<not> blank p) (split_char CHR ''/'' n) = [c]"
    using c(1) abs by (auto simp: components_def split_body_def is_absolute_def)
  obtain x rest where x: "split_char CHR ''/'' n = x # rest"
    by (cases "split_char CHR ''/'' n") auto
  have "n \<noteq> []" using assms by (simp add: is_safe_skill_name_def)
  have hd: "x = takeWhile (\<lambda>d. d \<noteq> CHR ''/'') n" using split_char_hd [of "CHR ''/''" n] x by simp
  have "\<not> blank x"
  proof
    assume "blank x"
    then consider "x = []" | "x = ''.''" by (auto simp: blank_def)
    then show False
    proof cases
      case 1
      then show ?thesis using hd abs \<open>n \<noteq> []\<close> by (cases n) (auto simp: absolute_Cons split: if_splits)
    next
      case 2
      then have "n = ''.'' @ dropWhile (\<lambda>d. d \<noteq> CHR ''/'') n" using hd takeWhile_dropWhile_id by metis
      moreover have "dropWhile (\<lambda>d. d \<noteq> CHR ''/'') n = [] \<or> hd (dropWhile (\<lambda>d. d \<noteq> CHR ''/'') n) = CHR ''/''"
        using hd_dropWhile by blast
      ultimately show ?thesis using dot
        by (cases "dropWhile (\<lambda>d. d \<noteq> CHR ''/'') n") (auto simp: starts_with_iff)
    qed
  qed
  then have "x = c" "\<forall>p \<in> set rest. blank p"
    using only x by (auto simp: filter_empty_conv split: if_splits)
  moreover have "CHR ''/'' \<notin> set x" using hd set_takeWhileD by fastforce
  ultimately show ?thesis
    using x abs c(3,4) \<open>\<not> blank x\<close> by (auto simp: proper_name_def blank_def)
qed

lemma skill_path_components:
  assumes "is_absolute (base_path l)" "is_safe_skill_name (sk_name s)"
  shows "\<exists>rest. components (skill_path l s) = components (base_path l) @ rest \<and> rest \<noteq> [] \<and> length rest \<le> 2
    \<and> (\<forall>x \<in> set rest. proper_name x) \<and> (CHR ''/'' \<notin> set (sk_name s) \<longrightarrow> rest = [sk_name s @ ''.md''])"
proof -
  let ?n = "sk_name s"
  obtain c bs where n: "split_char CHR ''/'' ?n = c # bs" "proper_name c" "\<forall>p \<in> set bs. blank p" "\<not> is_absolute ?n"
    using safe_name_shape [OF assms(2)] by blast
  have "?n \<noteq> []" using assms(2) by (simp add: is_safe_skill_name_def)
  then have rel: "\<not> is_absolute (?n @ ''.md'')" using n(4) by (cases ?n) (auto simp: absolute_Cons)
  let ?rest = "filter (\<lambda>x. \<not> blank x) (split_char CHR ''/'' (?n @ ''.md''))"
  have split: "split_char CHR ''/'' (?n @ ''.md'') = butlast (c # bs) @ [last (c # bs) @ ''.md'']"
    using split_char_suffix [of "CHR ''/''" "''.md''" ?n] n(1) by simp
  have single: "bs = []" "c = ?n" if "CHR ''/'' \<notin> set ?n"
    using split_char_single [OF that] n(1) by auto
  have "length ?rest \<le> 2 \<and> ?rest \<noteq> [] \<and> (\<forall>x \<in> set ?rest. proper_name x) \<and> (bs = [] \<longrightarrow> ?rest = [c @ ''.md''])"
  proof (cases bs rule: rev_cases)
    case Nil
    then show ?thesis using n(2) by (auto simp: split blank_def proper_name_def)
  next
    case (snoc cs b)
    then have "filter (\<lambda>x. \<not> blank x) cs = []" "blank b" using n(3) by (auto simp: filter_empty_conv)
    then show ?thesis using n(2) snoc by (auto simp: split blank_def proper_name_def)
  qed
  then show ?thesis
    using components_join [OF assms(1) rel] single unfolding skill_path_def by (intro exI [of _ ?rest]) auto
qed

text \<open>C13: Saving a skill writes at most one file, with the Markdown text of the skill, and only under the
  base directory: its path is the base directory followed by one or two names, none of them \<open>..\<close>, whatever
  name the language model chose. A name without a separator gives the file of that name.\<close>

theorem skill_write_confined:
  assumes "is_absolute (base_path l)"
  shows "snd (save_skill wr l s) = []
    \<or> (\<exists>p rest. snd (save_skill wr l s) = [(p, skill_to_markdown s)]
        \<and> components p = components (base_path l) @ rest \<and> path_starts_with p (base_path l)
        \<and> rest \<noteq> [] \<and> length rest \<le> 2 \<and> ''..'' \<notin> set rest
        \<and> (CHR ''/'' \<notin> set (sk_name s) \<longrightarrow> rest = [sk_name s @ ''.md'']))"
proof (cases "is_safe_skill_name (sk_name s)")
  case True
  then obtain rest where rest: "components (skill_path l s) = components (base_path l) @ rest" "rest \<noteq> []"
      "length rest \<le> 2" "\<forall>x \<in> set rest. proper_name x" "CHR ''/'' \<notin> set (sk_name s) \<longrightarrow> rest = [sk_name s @ ''.md'']"
    using skill_path_components [OF assms] by blast
  moreover have "''..'' \<notin> set rest" using rest(4) by (auto simp: proper_name_def)
  ultimately show ?thesis using True by (simp add: save_skill_def Let_def path_starts_with_def)
qed (simp add: save_skill_def)

theorem skill_write_confined_witness:
  "let l = loader_new ''/srv/skills''; s = skill_new ''deploy'' ''Deploy''; p = skill_path l s
   in is_absolute (base_path l) \<and> snd (save_skill (\<lambda>p c. Inr ()) l s) = [(p, skill_to_markdown s)]
      \<and> components p = [''/'', ''srv'', ''skills'', ''deploy.md'']"
proof -
  have "is_absolute (base_path (loader_new ''/srv/skills''))"
    by (simp add: loader_new_def is_absolute_def)
  from skill_write_confined [OF this, of "\<lambda>p c. Inr ()" "skill_new ''deploy'' ''Deploy''"] show ?thesis
    by (auto simp: loader_new_def skill_new_def is_absolute_def save_skill_def is_safe_skill_name_def components_def
        split_body_def blank_def skill_path_def path_push_def Let_def)
qed

text \<open>A name with a separator at its end passes the check that is to forbid separators, and names a file
  in a subdirectory.\<close>

lemma separator_accepted:
  "is_safe_skill_name ''a/''"
  "components (skill_path (loader_new ''/srv/skills'') (skill_new ''a/'' ''x'')) = [''/'', ''srv'', ''skills'', ''a'', ''.md'']"
  by (simp_all add: is_safe_skill_name_def components_def split_body_def blank_def skill_path_def loader_new_def
      skill_new_def path_push_def is_absolute_def)

section \<open>What the library retains\<close>

definition library_ok :: "(string \<Rightarrow> string) \<Rightarrow> ValidatedSkillLibrary \<Rightarrow> bool" where
  "library_ok dbg lib \<longleftrightarrow> distinct (map sk_name (lib_skills lib))
     \<and> (\<forall>s \<in> set (lib_skills lib). skill_issues dbg (validator lib) s [] = [])"

lemma no_issue: "(if P then [x] else []) = [] \<longleftrightarrow> \<not> P"
  by simp

lemma issues_without_library:
  "skill_issues dbg v c library = [] \<longleftrightarrow>
     skill_issues dbg v c [] = [] \<and> \<not> (\<exists>s \<in> set library. sk_name s = sk_name c \<and> s \<noteq> c)"
  unfolding skill_issues_def append_is_Nil_conv no_issue by (simp add: list_ex_iff)

lemma replace_named_set: "set (replace_named s xs) \<subseteq> insert s (set xs)"
  by (induction xs) auto

lemma replace_named_names:
  "sk_name s \<in> set (map sk_name xs) \<Longrightarrow> map sk_name (replace_named s xs) = map sk_name xs"
  by (induction xs) auto

lemma induce_enabled: "induce u cfg ep = Some c \<Longrightarrow> enabled c"
  by (auto simp: induce_def Let_def split: if_splits)

lemma offer_ok:
  assumes "library_ok dbg lib"
  shows "library_ok dbg (snd (offer rnd dbg u ep lib)) \<and> validator (snd (offer rnd dbg u ep lib)) = validator lib"
proof (cases "induce_or_merge u (inducer lib) ep (lib_skills lib)")
  case (New_Skill c)
  then have c: "induce u (inducer lib) ep = Some c"
      "\<forall>s \<in> set (lib_skills lib). enabled s \<longrightarrow> sk_name s \<noteq> sk_name c"
    by (auto simp: induce_or_merge_def find_None_iff split: option.splits)
  have fresh: "sk_name c \<notin> sk_name ` set (lib_skills lib)" if "skill_issues dbg (validator lib) c (lib_skills lib) = []"
  proof -
    have "\<forall>s \<in> set (lib_skills lib). sk_name s = sk_name c \<longrightarrow> s = c"
      using that issues_without_library by blast
    then show ?thesis using c(2) induce_enabled [OF c(1)] by auto
  qed
  show ?thesis
  proof (cases "skill_issues dbg (validator lib) c (lib_skills lib) = []")
    case True
    then show ?thesis
      using assms New_Skill fresh [OF True] issues_without_library [of dbg "validator lib" c "lib_skills lib"]
      by (simp add: offer_def validate_def Let_def library_ok_def)
  qed (use assms New_Skill in \<open>simp add: offer_def validate_def Let_def\<close>)
next
  case (Reinforced_Skill c)
  then obtain m candidate where m: "m \<in> set (lib_skills lib)" "c = reinforce candidate ep m"
    by (auto simp: induce_or_merge_def dest!: find_SomeD split: option.splits)
  then have "sk_name c \<in> set (map sk_name (lib_skills lib))"
    by (simp add: reinforce_def Let_def)
  note names = replace_named_names [OF this]
  let ?others = "filter (\<lambda>s. sk_name s \<noteq> sk_name c) (lib_skills lib)"
  show ?thesis
  proof (cases "skill_issues dbg (validator lib) c ?others = []")
    case True
    then have "skill_issues dbg (validator lib) c [] = []" using issues_without_library by blast
    then have "\<forall>s \<in> set (replace_named c (lib_skills lib)). skill_issues dbg (validator lib) s [] = []"
      using assms replace_named_set [of c "lib_skills lib"] unfolding library_ok_def by blast
    then show ?thesis
      using assms Reinforced_Skill True names by (simp add: offer_def validate_def Let_def library_ok_def)
  qed (use assms Reinforced_Skill in \<open>simp add: offer_def validate_def Let_def\<close>)
next
  case (Skipped_Episode w)
  then show ?thesis using assms by (simp add: offer_def)
qed

text \<open>C38: The validated library keeps its invariant over any sequence of completed tasks: its skills have
  different names and each of them passes every hard check of the validator, so every name it can ever
  hand to the loader is a safe file name. A rejected or skipped episode leaves it as it was.\<close>

theorem library_retains_valid:
  assumes "library_ok dbg lib"
  shows "library_ok dbg (fold (\<lambda>ep l. snd (offer rnd dbg u ep l)) eps lib)
    \<and> (\<forall>s \<in> set (lib_skills (fold (\<lambda>ep l. snd (offer rnd dbg u ep l)) eps lib)). is_safe_skill_name (sk_name s))
    \<and> (\<forall>ep n f w. fst (offer rnd dbg u ep lib) = Rejected n f \<or> fst (offer rnd dbg u ep lib) = Skipped w
        \<longrightarrow> snd (offer rnd dbg u ep lib) = lib)"
proof -
  have "library_ok dbg (fold (\<lambda>ep l. snd (offer rnd dbg u ep l)) eps lib)"
    using assms by (induction eps arbitrary: lib) (simp_all add: offer_ok)
  moreover have "is_safe_skill_name (sk_name s)" if "skill_issues dbg v s [] = []" for v s
    using that unfolding skill_issues_def append_is_Nil_conv no_issue by blast
  moreover have "snd (offer rnd dbg u ep lib) = lib"
    if "fst (offer rnd dbg u ep lib) = Rejected n f \<or> fst (offer rnd dbg u ep lib) = Skipped w" for ep n f w
    using that by (auto simp: offer_def Let_def split: Induction.splits if_splits)
  ultimately show ?thesis unfolding library_ok_def by blast
qed

definition demo_skill :: Skill where
  "demo_skill = (skill_new ''deploy'' ''Deploy'')\<lparr>triggers := [''ship''], sk_steps := [''build'', ''push'']\<rparr>"

lemma builtin_library_ok: "library_ok (\<lambda>s. s) (library_new builtin_skills)"
proof -
  have plain: "trim s \<noteq> []" if "s \<noteq> []" "list_all ascii s" "\<not> ascii_ws (hd s)" for s
  proof -
    have "dropWhile ascii_ws s = s" using that by (cases s) auto
    then show ?thesis using that by (simp add: trim_ascii dropWhile_eq_Nil_conv) (metis hd_in_set)
  qed
  have "skill_issues (\<lambda>s. s) default_validator s [] = []" if "s \<in> set builtin_skills" for s
  proof -
    have "trim (sk_name s) \<noteq> []" "trim (sk_description s) \<noteq> []" "\<not> list_ex (\<lambda>t. trim t = []) (triggers s)"
      using that plain by (auto simp: builtin_skills_def skill_new_def ascii_def ascii_ws_def)
    moreover have "is_safe_skill_name (sk_name s)"
      using that by (auto simp: builtin_skills_def skill_new_def is_safe_skill_name_def components_def split_body_def blank_def)
    ultimately show ?thesis
      using that unfolding skill_issues_def append_is_Nil_conv no_issue
      by (auto simp: builtin_skills_def skill_new_def default_validator_def)
  qed
  moreover have "distinct (map sk_name builtin_skills)" by (simp add: builtin_skills_def skill_new_def)
  ultimately show ?thesis by (simp add: library_ok_def library_new_def)
qed

theorem library_retains_valid_witness:
  "library_ok (\<lambda>s. s) (library_new builtin_skills)
   \<and> library_ok (\<lambda>s. s) (fold (\<lambda>ep l. snd (offer (\<lambda>x. x) (\<lambda>s. s) \<lparr>lower = \<lambda>s. s, alnum = \<lambda>c. c \<noteq> '' ''\<rparr> ep l))
       [\<lparr>ep_goal = ''ship it'', actions = [], ep_success = True, result_summary = None\<rparr>] (library_new builtin_skills))"
  using builtin_library_ok library_retains_valid [OF builtin_library_ok] by blast

section \<open>What is read back\<close>

text \<open>ASCII text on one line, without white space at its ends; an item of a list also without comma and
  without quotation marks at its ends.\<close>

definition field_ok :: "string \<Rightarrow> bool" where
  "field_ok s \<longleftrightarrow> s \<noteq> [] \<and> list_all ascii s \<and> CHR 0x0A \<notin> set s \<and> \<not> ascii_ws (hd s) \<and> \<not> ascii_ws (last s)"

definition entry_ok :: "string \<Rightarrow> bool" where
  "entry_ok s \<longleftrightarrow> field_ok s \<and> CHR '','' \<notin> set s \<and> hd s \<noteq> CHR 0x22 \<and> last s \<noteq> CHR 0x22"

definition example_ok :: "string \<Rightarrow> bool" where
  "example_ok s \<longleftrightarrow> field_ok s \<and> \<not> starts_with s ''- '' \<and> \<not> starts_with s ''* ''"

definition skill_ok :: "Skill \<Rightarrow> bool" where
  "skill_ok s \<longleftrightarrow> field_ok (sk_name s) \<and> field_ok (sk_description s)
     \<and> list_all entry_ok (triggers s) \<and> list_all entry_ok (tools_required s) \<and> list_all entry_ok (tags s)
     \<and> list_all field_ok (sk_steps s) \<and> list_all example_ok (examples s)"

lemma trim_field: "field_ok s \<Longrightarrow> trim s = s"
proof -
  assume s: "field_ok s"
  have "dropWhile ascii_ws t = t" if "t \<noteq> []" "\<not> ascii_ws (hd t)" for t
    using that by (cases t) auto
  then show ?thesis using s by (simp add: field_ok_def trim_ascii hd_rev)
qed

lemma trim_space_field:
  assumes "field_ok s"
  shows "trim (CHR '' '' # s) = s"
proof -
  have "list_all ascii s" "list_all ascii (CHR '' '' # s)" using assms by (simp_all add: field_ok_def ascii_def)
  then have "trim (CHR '' '' # s) = trim s" by (simp add: trim_ascii ascii_ws_def)
  then show ?thesis using trim_field [OF assms] by simp
qed

lemma field_prefixed:
  assumes "field_ok s" "field_ok p"
  shows "field_ok (p @ s)" "field_ok (p @ CHR '' '' # s)"
  using assms by (auto simp: field_ok_def ascii_def)

lemma digit_plain: "c \<in> set ''0123456789'' \<Longrightarrow> ascii c \<and> \<not> ascii_ws c \<and> c \<noteq> CHR 0x0A \<and> c \<noteq> CHR ''#''"
  by (auto simp: ascii_def ascii_ws_def)

lemma field_show_nat: "field_ok (show_nat n)"
proof -
  have "ascii c \<and> \<not> ascii_ws c \<and> c \<noteq> CHR 0x0A" if "c \<in> set (show_nat n)" for c
    using digit_plain show_nat_plain [OF that] by blast
  then show ?thesis by (auto simp: field_ok_def list_all_iff)
qed

definition unlines :: "string list \<Rightarrow> string" where
  "unlines ls = concat (map (\<lambda>l. l @ newline) ls)"

lemma lines_unlines:
  assumes "list_all (\<lambda>l. l = [] \<or> field_ok l) ls"
  shows "str_lines (unlines ls) = ls"
proof -
  have step: "lines_from acc (l @ CHR 0x0A # rest) = strip_cr (rev acc @ l) # lines_from [] rest"
    if "CHR 0x0A \<notin> set l" for acc l rest
    using that by (induction l arbitrary: acc) auto
  have "strip_cr l = l" if "field_ok l" for l
    using that by (auto simp: field_ok_def strip_cr_def ascii_ws_def)
  then show ?thesis
    using assms
    by (induction ls) (auto simp: unlines_def step field_ok_def strip_cr_def)
qed

section \<open>One line\<close>

lemma parse_blank [simp]: "parse_line u [] st = st"
  by (simp add: parse_line_def strip_prefix_def line_meta_def Let_def trim_ascii)

lemma parse_header:
  assumes "field_ok n"
  shows "parse_line u (''# '' @ n) st = \<lparr>md_skill = (md_skill st)\<lparr>sk_name := n\<rparr>, in_steps = False, in_examples = False\<rparr>"
proof -
  have "field_ok ''#''" by (simp add: field_ok_def ascii_def ascii_ws_def)
  then have "trim (''# '' @ n) = ''# '' @ n" using field_prefixed(2) [OF assms, of "''#''"] by (simp add: trim_field)
  then show ?thesis using assms strip_prefix_append [of "''# ''" n] by (simp add: parse_line_def trim_field Let_def)
qed

lemma field_label: "field_ok ''Description:''" "field_ok ''Triggers:''" "field_ok ''Tools:''" "field_ok ''Tags:''"
  "field_ok ''Priority:''" "field_ok ''##''" "field_ok ''-''"
  by (simp_all add: field_ok_def ascii_def ascii_ws_def)

lemma parse_label:
  assumes "field_ok v" "\<not> in_steps st" "\<not> in_examples st" "field_ok lab" "hd lab \<noteq> CHR ''#''"
  shows "parse_line u (lab @ CHR '' '' # v) st = st\<lparr>md_skill := line_meta (lab @ CHR '' '' # v) (md_skill st)\<rparr>"
proof -
  have "lab \<noteq> []" using assms(4) by (simp add: field_ok_def)
  then have "strip_prefix ''# '' (lab @ CHR '' '' # v) = None" "strip_prefix ''## '' (lab @ CHR '' '' # v) = None"
    using assms(5) by (cases lab; simp add: strip_prefix_def)+
  then show ?thesis
    using assms trim_field [OF field_prefixed(2) [OF assms(1,4)]] by (simp add: parse_line_def Let_def)
qed

lemma unquote_entry: "entry_ok t \<Longrightarrow> unquote t = t"
proof -
  assume t: "entry_ok t"
  have "dropWhile (\<lambda>c. c = CHR 0x22) x = x" if "x \<noteq> []" "hd x \<noteq> CHR 0x22" for x
    using that by (cases x) auto
  then show ?thesis using t by (simp add: unquote_def entry_ok_def field_ok_def hd_rev)
qed

lemma split_items:
  "ts \<noteq> [] \<Longrightarrow> list_all entry_ok ts \<Longrightarrow>
    map (\<lambda>t. unquote (trim t)) (split_char (CHR '','') (CHR '' '' # join '', '' ts)) = ts"
proof (induction ts)
  case (Cons t ts)
  have t: "trim (CHR '' '' # t) = t" "unquote t = t" "CHR '','' \<notin> set (CHR '' '' # t)"
    using Cons.prems by (auto simp: trim_space_field unquote_entry entry_ok_def)
  show ?case
  proof (cases ts)
    case Nil
    then show ?thesis using t split_char_single [OF t(3)] by simp
  next
    case (Cons r rs)
    then have "CHR '' '' # join '', '' (t # ts) = (CHR '' '' # t) @ CHR '','' # CHR '' '' # join '', '' ts" by simp
    then show ?thesis using split_char_append [OF t(3)] Cons Cons.IH Cons.prems t by simp
  qed
qed simp

lemma join_field:
  assumes "ts \<noteq> []" "list_all entry_ok ts"
  shows "field_ok (join '', '' ts)"
  using assms
proof (induction ts)
  case (Cons t ts)
  show ?case
  proof (cases ts)
    case (Cons r rs)
    have "field_ok (t @ '','')"
      using Cons.prems by (auto simp: entry_ok_def field_ok_def ascii_def ascii_ws_def)
    then show ?thesis using Cons Cons.IH Cons.prems field_prefixed(2) [of "join '', '' ts" "t @ '',''"] by simp
  qed (use Cons.prems in \<open>simp add: entry_ok_def\<close>)
qed simp

lemma parse_items_join:
  assumes "ts \<noteq> []" "list_all entry_ok ts"
  shows "parse_items (CHR '' '' # join '', '' ts) = ts"
proof -
  let ?j = "join '', '' ts"
  obtain p ps where ps: "split_char (CHR '','') ?j = p # ps" by (cases "split_char (CHR '','') ?j") auto
  have sp: "split_char (CHR '','') (CHR '' '' # ?j) = (CHR '' '' # p) # ps" using ps by simp
  have "p = hd (split_char (CHR '','') ?j)" using ps by simp
  obtain t rs where t: "ts = t # rs" using assms(1) by (cases ts) auto
  then have field: "field_ok t" "CHR '','' \<notin> set t" using assms(2) by (auto simp: entry_ok_def)
  have "p = t"
  proof (cases rs)
    case Nil
    then show ?thesis using ps t split_char_single [OF field(2)] by simp
  next
    case (Cons r rs')
    then show ?thesis using ps t split_char_append [OF field(2)] by simp
  qed
  then have "map (\<lambda>t. unquote (trim t)) (split_char (CHR '','') ?j) = ts"
    using split_items [OF assms(1,2)] ps sp trim_space_field [OF field(1)] trim_field [OF field(1)] by simp
  moreover have "trim (CHR '' '' # ?j) = ?j" using trim_space_field [OF join_field [OF assms]] .
  moreover have "filter (\<lambda>t. t \<noteq> []) ts = ts"
    using assms(2) by (auto simp: filter_id_conv list_all_iff entry_ok_def field_ok_def)
  ultimately show ?thesis by (simp add: parse_items_def)
qed

lemma parse_priority_show: "parse_priority (CHR '' '' # show_nat (unat p)) = p"
proof -
  have "unat p < 256" using unat_u8_less by simp
  then show ?thesis
    using trim_space_field [OF field_show_nat] by (simp add: parse_priority_def parse_show_nat)
qed

lemma parse_meta:
  assumes "\<not> in_steps st" "\<not> in_examples st"
  shows "field_ok d \<Longrightarrow> parse_line u (''Description: '' @ d) st = st\<lparr>md_skill := (md_skill st)\<lparr>sk_description := d\<rparr>\<rparr>"
    "ts \<noteq> [] \<Longrightarrow> list_all entry_ok ts \<Longrightarrow> parse_line u (''Triggers: '' @ join '', '' ts) st = st\<lparr>md_skill := (md_skill st)\<lparr>triggers := ts\<rparr>\<rparr>"
    "ts \<noteq> [] \<Longrightarrow> list_all entry_ok ts \<Longrightarrow> parse_line u (''Tools: '' @ join '', '' ts) st = st\<lparr>md_skill := (md_skill st)\<lparr>tools_required := ts\<rparr>\<rparr>"
    "ts \<noteq> [] \<Longrightarrow> list_all entry_ok ts \<Longrightarrow> parse_line u (''Tags: '' @ join '', '' ts) st = st\<lparr>md_skill := (md_skill st)\<lparr>tags := ts\<rparr>\<rparr>"
    "parse_line u (''Priority: '' @ show_nat (unat p)) st = st\<lparr>md_skill := (md_skill st)\<lparr>sk_priority := p\<rparr>\<rparr>"
proof -
  note lab = parse_label [OF _ assms]
  show "parse_line u (''Description: '' @ d) st = st\<lparr>md_skill := (md_skill st)\<lparr>sk_description := d\<rparr>\<rparr>" if "field_ok d"
    using lab [OF that field_label(1)] trim_space_field [OF that] by (simp add: line_meta_def after_colon_def)
  show "parse_line u (''Triggers: '' @ join '', '' ts) st = st\<lparr>md_skill := (md_skill st)\<lparr>triggers := ts\<rparr>\<rparr>"
    if "ts \<noteq> []" "list_all entry_ok ts"
    using lab [OF join_field [OF that] field_label(2)] parse_items_join [OF that] by (simp add: line_meta_def after_colon_def)
  show "parse_line u (''Tools: '' @ join '', '' ts) st = st\<lparr>md_skill := (md_skill st)\<lparr>tools_required := ts\<rparr>\<rparr>"
    if "ts \<noteq> []" "list_all entry_ok ts"
    using lab [OF join_field [OF that] field_label(3)] parse_items_join [OF that] by (simp add: line_meta_def after_colon_def)
  show "parse_line u (''Tags: '' @ join '', '' ts) st = st\<lparr>md_skill := (md_skill st)\<lparr>tags := ts\<rparr>\<rparr>"
    if "ts \<noteq> []" "list_all entry_ok ts"
    using lab [OF join_field [OF that] field_label(4)] parse_items_join [OF that] by (simp add: line_meta_def after_colon_def)
  show "parse_line u (''Priority: '' @ show_nat (unat p)) st = st\<lparr>md_skill := (md_skill st)\<lparr>sk_priority := p\<rparr>\<rparr>"
    using lab [OF field_show_nat field_label(5)] parse_priority_show by (simp add: line_meta_def after_colon_def)
qed

definition lowers_ascii :: "unicode \<Rightarrow> bool" where
  "lowers_ascii u \<longleftrightarrow> (\<forall>s. list_all ascii s \<longrightarrow> lower u s = to_ascii_lowercase s)"

lemma parse_section:
  assumes "lowers_ascii u"
  shows "parse_line u ''## Steps'' st = \<lparr>md_skill = md_skill st, in_steps = True, in_examples = False\<rparr>"
    "parse_line u ''## Examples'' st = \<lparr>md_skill = md_skill st, in_steps = False, in_examples = True\<rparr>"
proof -
  have fields: "field_ok ''## Steps''" "field_ok ''## Examples''" "field_ok ''Steps''" "field_ok ''Examples''"
    by (simp_all add: field_ok_def ascii_def ascii_ws_def)
  have "lower u ''Steps'' = ''steps''" "lower u ''Examples'' = ''examples''"
    using assms by (simp_all add: lowers_ascii_def ascii_def to_ascii_lowercase_def lower_pairs_def)
  then show "parse_line u ''## Steps'' st = \<lparr>md_skill = md_skill st, in_steps = True, in_examples = False\<rparr>"
    "parse_line u ''## Examples'' st = \<lparr>md_skill = md_skill st, in_steps = False, in_examples = True\<rparr>"
    using fields by (simp_all add: parse_line_def strip_prefix_def trim_field Let_def)
qed

lemma numbered_field:
  "list_all field_ok ss \<Longrightarrow> list_all (\<lambda>l. field_ok l \<and> hd l \<in> set ''0123456789'') (numbered i ss)"
proof (induction i ss rule: numbered.induct)
  case (2 i s ss)
  have "field_ok (show_nat i @ ''.'')"
    using field_show_nat [of i] by (auto simp: field_ok_def ascii_def ascii_ws_def)
  moreover have "hd (show_nat i) \<in> set ''0123456789''" by (rule show_nat_plain [of _ i]) simp
  ultimately show ?case using 2 field_prefixed(2) [of s "show_nat i @ ''.''"] by (simp del: set_simps)
qed simp

lemma parse_step_lines:
  assumes "in_steps st" "list_all (\<lambda>l. field_ok l \<and> hd l \<in> set ''0123456789'') ls"
  shows "fold (parse_line u) ls st = st\<lparr>md_skill := (md_skill st)\<lparr>sk_steps := sk_steps (md_skill st) @ ls\<rparr>\<rparr>"
  using assms
proof (induction ls arbitrary: st)
  case (Cons l ls)
  have l: "trim l = l" "l \<noteq> []" "hd l \<noteq> CHR ''#''"
    using Cons.prems(2) trim_field digit_plain by (auto simp: field_ok_def simp del: set_simps)
  then have "parse_line u l st = st\<lparr>md_skill := (md_skill st)\<lparr>sk_steps := sk_steps (md_skill st) @ [l]\<rparr>\<rparr>"
    using Cons.prems(1) by (cases l) (auto simp: parse_line_def strip_prefix_def Let_def)
  then show ?case using Cons by simp
qed simp

lemma trim_start_bullet: "\<not> starts_with e p \<Longrightarrow> trim_start_matches p e = e"
  "p \<noteq> [] \<Longrightarrow> trim_start_matches p (p @ e) = trim_start_matches p e"
  by (simp_all add: trim_start_matches.simps [of p e] trim_start_matches.simps [of p "p @ e"])

lemma parse_example_lines:
  assumes "in_examples st" "\<not> in_steps st" "list_all example_ok es"
  shows "fold (parse_line u) (map (\<lambda>e. ''- '' @ e) es) st
    = st\<lparr>md_skill := (md_skill st)\<lparr>examples := examples (md_skill st) @ es\<rparr>\<rparr>"
  using assms
proof (induction es arbitrary: st)
  case (Cons e es)
  have e: "field_ok e" "\<not> starts_with e ''- ''" "\<not> starts_with e ''* ''" using Cons.prems(3) by (simp_all add: example_ok_def)
  have "trim (''- '' @ e) = ''- '' @ e"
    using trim_field [OF field_prefixed(2) [OF e(1) field_label(7)]] by simp
  moreover have "trim_start_matches ''* '' (trim_start_matches ''- '' (''- '' @ e)) = e"
    using e trim_start_bullet(1) trim_start_bullet(2) [of "''- ''" e] by simp
  ultimately have "parse_line u (''- '' @ e) st
      = st\<lparr>md_skill := (md_skill st)\<lparr>examples := examples (md_skill st) @ [e]\<rparr>\<rparr>"
    using Cons.prems(1,2) by (simp add: parse_line_def strip_prefix_def Let_def)
  then show ?case using Cons by simp
qed simp

text \<open>The lines of a written skill.\<close>

definition md_lines :: "Skill \<Rightarrow> string list" where
  "md_lines s =
     [''# '' @ sk_name s, []]
     @ (if sk_description s = [] then [] else [''Description: '' @ sk_description s, []])
     @ (if triggers s = [] then [] else [''Triggers: '' @ join '', '' (triggers s), []])
     @ (if tools_required s = [] then [] else [''Tools: '' @ join '', '' (tools_required s), []])
     @ (if tags s = [] then [] else [''Tags: '' @ join '', '' (tags s), []])
     @ [''Priority: '' @ show_nat (unat (sk_priority s)), []]
     @ (if sk_steps s = [] then [] else [''## Steps'', []] @ numbered 1 (sk_steps s) @ [[]])
     @ (if examples s = [] then [] else [''## Examples'', []] @ map (\<lambda>e. ''- '' @ e) (examples s) @ [[]])"

lemma markdown_lines: "skill_to_markdown s = unlines (md_lines s)"
  unfolding skill_to_markdown_def md_lines_def unlines_def
  by (simp add: comp_def)

lemma md_lines_fields:
  assumes "skill_ok s"
  shows "list_all (\<lambda>l. l = [] \<or> field_ok l) (md_lines s)"
proof -
  have lab: "field_ok (''Description: '' @ x)" "field_ok (''Triggers: '' @ x)" "field_ok (''Tools: '' @ x)"
      "field_ok (''Tags: '' @ x)" "field_ok (''Priority: '' @ x)" "field_ok (''- '' @ x)" "field_ok (''# '' @ x)" if "field_ok x" for x
    using field_label [THEN field_prefixed(2) [OF that]] field_prefixed(2) [OF that, of "''#''"]
    by (simp_all add: field_ok_def ascii_def ascii_ws_def)
  have joined: "field_ok (join '', '' ts)" if "ts \<noteq> []" "list_all entry_ok ts" for ts
    using join_field that by blast
  have "list_all (\<lambda>l. l = [] \<or> field_ok l) (numbered 1 (sk_steps s))"
    using numbered_field [of "sk_steps s" 1] assms by (auto simp: skill_ok_def list_all_iff)
  moreover have "list_all (\<lambda>l. l = [] \<or> field_ok l) (map (\<lambda>e. ''- '' @ e) (examples s))"
    using assms lab(6) by (auto simp: skill_ok_def list_all_iff example_ok_def)
  moreover have "field_ok ''## Steps''" "field_ok ''## Examples''"
    by (simp_all add: field_ok_def ascii_def ascii_ws_def)
  ultimately show ?thesis
    using assms lab(1-5,7) joined field_show_nat unfolding md_lines_def skill_ok_def
    by (simp del: append.simps append_Cons)
qed

text \<open>The blocks of the document are read one after the other.\<close>

lemma read_block:
  assumes "\<not> in_steps st" "\<not> in_examples st"
  shows "field_ok d \<Longrightarrow> fold (parse_line u) (if d = [] then [] else [''Description: '' @ d, []]) st
      = st\<lparr>md_skill := (md_skill st)\<lparr>sk_description := d\<rparr>\<rparr>"
    "list_all entry_ok ts \<Longrightarrow> triggers (md_skill st) = [] \<Longrightarrow>
      fold (parse_line u) (if ts = [] then [] else [''Triggers: '' @ join '', '' ts, []]) st
      = st\<lparr>md_skill := (md_skill st)\<lparr>triggers := ts\<rparr>\<rparr>"
    "list_all entry_ok ts \<Longrightarrow> tools_required (md_skill st) = [] \<Longrightarrow>
      fold (parse_line u) (if ts = [] then [] else [''Tools: '' @ join '', '' ts, []]) st
      = st\<lparr>md_skill := (md_skill st)\<lparr>tools_required := ts\<rparr>\<rparr>"
    "list_all entry_ok ts \<Longrightarrow> tags (md_skill st) = [] \<Longrightarrow>
      fold (parse_line u) (if ts = [] then [] else [''Tags: '' @ join '', '' ts, []]) st
      = st\<lparr>md_skill := (md_skill st)\<lparr>tags := ts\<rparr>\<rparr>"
    "fold (parse_line u) [''Priority: '' @ show_nat (unat p), []] st = st\<lparr>md_skill := (md_skill st)\<lparr>sk_priority := p\<rparr>\<rparr>"
proof -
  note m = parse_meta [OF assms]
  show "field_ok d \<Longrightarrow> fold (parse_line u) (if d = [] then [] else [''Description: '' @ d, []]) st
      = st\<lparr>md_skill := (md_skill st)\<lparr>sk_description := d\<rparr>\<rparr>"
    using m(1) [of d] by (simp add: field_ok_def del: append.simps append_Cons)
  show "fold (parse_line u) (if ts = [] then [] else [''Triggers: '' @ join '', '' ts, []]) st
      = st\<lparr>md_skill := (md_skill st)\<lparr>triggers := ts\<rparr>\<rparr>" if "list_all entry_ok ts" "triggers (md_skill st) = []"
    using m(2) [of ts] that by (cases "ts = []") (simp_all del: append.simps append_Cons)
  show "fold (parse_line u) (if ts = [] then [] else [''Tools: '' @ join '', '' ts, []]) st
      = st\<lparr>md_skill := (md_skill st)\<lparr>tools_required := ts\<rparr>\<rparr>" if "list_all entry_ok ts" "tools_required (md_skill st) = []"
    using m(3) [of ts] that by (cases "ts = []") (simp_all del: append.simps append_Cons)
  show "fold (parse_line u) (if ts = [] then [] else [''Tags: '' @ join '', '' ts, []]) st
      = st\<lparr>md_skill := (md_skill st)\<lparr>tags := ts\<rparr>\<rparr>" if "list_all entry_ok ts" "tags (md_skill st) = []"
    using m(4) [of ts] that by (cases "ts = []") (simp_all del: append.simps append_Cons)
  show "fold (parse_line u) [''Priority: '' @ show_nat (unat p), []] st = st\<lparr>md_skill := (md_skill st)\<lparr>sk_priority := p\<rparr>\<rparr>"
    using m(5) by (simp del: append.simps append_Cons)
qed

lemma read_steps:
  assumes "lowers_ascii u" "list_all field_ok ss" "sk_steps (md_skill st) = []"
  shows "md_skill (fold (parse_line u) (if ss = [] then [] else [''## Steps'', []] @ numbered 1 ss @ [[]]) st)
    = (md_skill st)\<lparr>sk_steps := numbered 1 ss\<rparr>"
  using assms(3) parse_section(1) [OF assms(1)] parse_step_lines [OF _ numbered_field [OF assms(2), of 1]]
  by (simp del: append.simps append_Cons)

lemma read_examples:
  assumes "lowers_ascii u" "list_all example_ok es" "examples (md_skill st) = []"
  shows "md_skill (fold (parse_line u) (if es = [] then [] else [''## Examples'', []] @ map (\<lambda>e. ''- '' @ e) es @ [[]]) st)
    = (md_skill st)\<lparr>examples := es\<rparr>"
  using assms(3) parse_section(2) [OF assms(1)] parse_example_lines [OF _ _ assms(2)]
  by (simp del: append.simps append_Cons)

text \<open>C39: A skill that is written and read again comes back with its name, description, triggers, tools, tags,
  priority and examples, for ASCII texts that fit on a line. What does not survive is shown too: the
  model hint and the system prompt are lost, a disabled skill comes back enabled, and the steps come
  back with the numbers they were written with as part of their text.\<close>

theorem skill_roundtrip:
  assumes "skill_ok s" "lowers_ascii u"
  shows "parse_markdown_skill u (skill_to_markdown s) stem
    = s\<lparr>model_hint := None, sk_system_prompt := None, sk_steps := numbered 1 (sk_steps s), enabled := True\<rparr>"
proof -
  define st where "st = \<lparr>md_skill = (skill_new stem [])\<lparr>sk_name := sk_name s, sk_description := sk_description s,
     triggers := triggers s, tools_required := tools_required s, tags := tags s, sk_priority := sk_priority s\<rparr>,
     in_steps = False, in_examples = False\<rparr>"
  let ?start = "\<lparr>md_skill = skill_new stem [], in_steps = False, in_examples = False\<rparr>"
  note ok = assms(1) [unfolded skill_ok_def]
  have head: "fold (parse_line u) ([''# '' @ sk_name s, []]
     @ (if sk_description s = [] then [] else [''Description: '' @ sk_description s, []])
     @ (if triggers s = [] then [] else [''Triggers: '' @ join '', '' (triggers s), []])
     @ (if tools_required s = [] then [] else [''Tools: '' @ join '', '' (tools_required s), []])
     @ (if tags s = [] then [] else [''Tags: '' @ join '', '' (tags s), []])
     @ [''Priority: '' @ show_nat (unat (sk_priority s)), []]) ?start = st"
    unfolding fold_append comp_def using ok
    by (simp add: parse_header read_block parse_meta(5) skill_new_def st_def del: append.simps append_Cons)
  let ?S = "if sk_steps s = [] then [] else [''## Steps'', []] @ numbered 1 (sk_steps s) @ [[]]"
  let ?E = "if examples s = [] then [] else [''## Examples'', []] @ map (\<lambda>e. ''- '' @ e) (examples s) @ [[]]"
  have steps: "md_skill (fold (parse_line u) ?S st) = (md_skill st)\<lparr>sk_steps := numbered 1 (sk_steps s)\<rparr>"
    by (rule read_steps [OF assms(2)]) (use ok in \<open>simp_all add: st_def skill_new_def\<close>)
  have "md_skill (fold (parse_line u) ?E (fold (parse_line u) ?S st))
      = (md_skill (fold (parse_line u) ?S st))\<lparr>examples := examples s\<rparr>"
    by (rule read_examples [OF assms(2)]) (use ok steps in \<open>simp_all add: st_def skill_new_def\<close>)
  moreover have "fold (parse_line u) (md_lines s) ?start = fold (parse_line u) ?E (fold (parse_line u) ?S st)"
    unfolding head [symmetric] fold_append [THEN fun_cong, unfolded comp_apply, symmetric] md_lines_def by simp
  ultimately have "md_skill (fold (parse_line u) (md_lines s) ?start)
      = (md_skill st)\<lparr>sk_steps := numbered 1 (sk_steps s), examples := examples s\<rparr>"
    using steps by simp
  then show ?thesis
    using ok unfolding parse_markdown_skill_def markdown_lines lines_unlines [OF md_lines_fields [OF assms(1)]]
    by (simp add: st_def skill_new_def field_ok_def Let_def)
qed

theorem skill_roundtrip_witness:
  "parse_markdown_skill \<lparr>lower = to_ascii_lowercase, alnum = \<lambda>c. True\<rparr> (skill_to_markdown demo_skill) ''x''
   = demo_skill\<lparr>sk_steps := [''1. build'', ''2. push'']\<rparr>"
proof -
  have "skill_ok demo_skill"
    by (simp add: skill_ok_def demo_skill_def skill_new_def field_ok_def entry_ok_def ascii_def ascii_ws_def)
  moreover have "lowers_ascii \<lparr>lower = to_ascii_lowercase, alnum = \<lambda>c. True\<rparr>" by (simp add: lowers_ascii_def)
  moreover have "numbered 1 [''build'', ''push''] = [''1. build'', ''2. push'']"
    by (simp add: show_nat.simps dec_char_def numeral_2_eq_2)
  ultimately show ?thesis
    using skill_roundtrip [of demo_skill "\<lparr>lower = to_ascii_lowercase, alnum = \<lambda>c. True\<rparr>" "''x''"]
    by (simp add: demo_skill_def skill_new_def)
qed

end
