(* ===== verification/Task_Theorems.thy ===== *)
theory Task_Theorems
  imports Agent_Task Agent_Theorems Skill_Theorems
begin

text \<open>
  Properties of a whole task and of the goal loop: the guards of the tools and the screening of the
  memories hold under every strategy; a task that is given to the tree of thoughts never succeeds; the
  goal loop settles every goal in the order of their arrival.
\<close>

section \<open>Operations that dispatch nothing\<close>

text \<open>What the operations around the ReAct loop do: no tool, no read of the latch, counters of calls kept.\<close>

definition mild_effect :: "agent_libs \<Rightarrow> InjectionScanner \<Rightarrow> nat \<Rightarrow> source set \<Rightarrow> agent_effect \<Rightarrow> bool" where
  "mild_effect libs sc m S e \<longleftrightarrow> calm libs sc S e \<or> is_request e \<and> requests_of e \<le> m"

lemma mild_effects_mono:
  "list_all (mild_effect libs sc m S) es \<Longrightarrow> S \<subseteq> T \<Longrightarrow> list_all (mild_effect libs sc m T) es"
  by (auto simp: list_all_iff mild_effect_def intro: calm_mono)

definition mild :: "agent_libs \<Rightarrow> AutonomousAgent \<Rightarrow> AutonomousAgent \<Rightarrow> bool" where
  "mild libs a b \<longleftrightarrow> static b = static a \<and> tool_call_count b = tool_call_count a
     \<and> write_operation_count b = write_operation_count a
     \<and> (\<exists>es. effects b = effects a @ es
          \<and> list_all (mild_effect libs (scanner a) (request_limit a) (sources es)) es)"

lemma mild_refl: "mild libs a a"
  by (simp add: mild_def)

lemma mild_append:
  assumes "mild libs a b" "effects b = effects a @ es" "effects c = effects b @ fs"
    "static c = static b" "tool_call_count c = tool_call_count b" "write_operation_count c = write_operation_count b"
    "list_all (mild_effect libs (scanner b) (request_limit b) (sources es \<union> sources fs)) fs"
  shows "mild libs a c"
proof -
  have st: "static b = static a" using assms(1) by (simp add: mild_def)
  have "list_all (mild_effect libs (scanner a) (request_limit a) (sources es)) es"
    using assms(1,2) by (auto simp: mild_def)
  from mild_effects_mono [OF this, of "sources (es @ fs)"] show ?thesis
    using assms static_parts [OF st] st unfolding mild_def by (intro conjI exI [of _ "es @ fs"]) auto
qed

lemma mild_trans:
  assumes "mild libs a b" "mild libs b c"
  shows "mild libs a c"
proof -
  obtain es where "effects b = effects a @ es" using assms(1) by (auto simp: mild_def)
  moreover obtain fs where "effects c = effects b @ fs"
      "list_all (mild_effect libs (scanner b) (request_limit b) (sources fs)) fs"
    using assms(2) by (auto simp: mild_def)
  ultimately show ?thesis
    using assms(2) mild_effects_mono [of libs "scanner b" "request_limit b" "sources fs" fs]
    by (intro mild_append [OF assms(1)]) (auto simp: mild_def)
qed

lemma mild_then_quiet:
  assumes "mild libs a b" "effects b = effects a @ es" "quiet libs (sources es) b c"
  shows "mild libs a c"
proof -
  obtain fs where "effects c = effects b @ fs" "list_all (calm libs (scanner b) (sources es)) fs"
    using assms(3) by (auto simp: quiet_def)
  then show ?thesis
    using assms(3) calm_mono [of libs "scanner b" "sources es" _ "sources es \<union> sources fs"]
    by (intro mild_append [OF assms(1,2)]) (auto simp: quiet_def counters_def mild_effect_def list_all_iff)
qed

lemma quiet_mild: "quiet libs {} a b \<Longrightarrow> mild libs a b"
  by (rule mild_then_quiet [OF mild_refl, of _ "[]"]) simp_all

lemma mild_unlogged:
  assumes "static b = static a" "tool_call_count b = tool_call_count a"
    "write_operation_count b = write_operation_count a" "effects b = effects a"
  shows "mild libs a b"
  using assms by (simp add: mild_def)

lemma mild_effects:
  assumes "list_all (mild_effect libs sc m S) es"
  shows "guarded g b es" "latch_clear b es = b" "tally is_dispatch es = 0" "tally is_write es = 0"
    "list_all (effect_ok libs sc m S) es"
proof -
  have one: "guarded g b (e # es) = guarded g b es \<and> latch_clear b (e # es) = latch_clear b es
      \<and> \<not> is_dispatch e \<and> \<not> is_write e \<and> effect_ok libs sc m S e"
    if "mild_effect libs sc m S e" for e es
    using that unfolding mild_effect_def by (cases e) auto
  show "guarded g b es" "latch_clear b es = b" "tally is_dispatch es = 0" "tally is_write es = 0"
    "list_all (effect_ok libs sc m S) es"
    using assms by (induction es) (simp_all add: one)
qed

text \<open>The invariant of a run, whatever the number of its calls of the model.\<close>

definition task_inv :: "agent_libs \<Rightarrow> AutonomousAgent \<Rightarrow> AutonomousAgent \<Rightarrow> bool" where
  "task_inv libs a0 a \<longleftrightarrow> (\<exists>n. run_inv libs a0 n a)"

lemma task_inv_refl: "task_inv libs a a"
  using run_inv_start by (auto simp: task_inv_def)

lemma task_inv_mild:
  assumes "task_inv libs a0 a" "mild libs a b"
  shows "task_inv libs a0 b"
proof -
  obtain n es where es: "effects a = effects a0 @ es" and rest: "static a = static a0"
      "list_all (effect_ok libs (scanner a0) (request_limit a0) (sources es)) es" "guarded (gate a0) False es"
      "tally is_dispatch es \<le> tool_call_count a" "tally is_dispatch es \<le> max_tool_calls (ag_config a0)"
      "tally is_write es \<le> write_operation_count a" "tally is_write es \<le> max_write_operations (ag_config a0)"
      "tally is_request es \<le> n"
    using assms(1) by (auto simp: task_inv_def run_inv_def)
  note st = static_parts [OF rest(1)]
  obtain fs where fs: "effects b = effects a @ fs"
      "list_all (mild_effect libs (scanner a0) (request_limit a0) (sources fs)) fs"
      "static b = static a0" "tool_call_count b = tool_call_count a" "write_operation_count b = write_operation_count a"
    using assms(2) rest(1) st(3,7) by (auto simp: mild_def)
  have "run_inv libs a0 (n + tally is_request fs) b"
    using rest fs(3-5) mild_effects [OF mild_effects_mono [OF fs(2), of "sources (es @ fs)"]]
    by (intro run_inv_append [OF _ es fs(1)]) simp_all
  then show ?thesis by (auto simp: task_inv_def)
qed

lemma task_inv_turn: "task_inv libs a0 a \<Longrightarrow> task_inv libs a0 (a\<lparr>turn := n\<rparr>)"
  by (erule task_inv_mild) (simp add: mild_def static_def)

lemma react_loop_inv:
  assumes "task_inv libs a0 a" "react_loop libs env l a = (r, b)"
  shows "task_inv libs a0 b"
  using assms
proof (induction libs env l a rule: react_loop.induct)
  case (1 libs env l a)
  show ?case
  proof (cases "turn a < max_turns (ag_config a)")
    case False
    then show ?thesis using "1.prems" by (simp add: react_loop.simps [of libs env l a])
  next
    case True
    obtain tr c where turn: "react_turn libs (env (turn a)) l a = (tr, c)" by fastforce
    have inv: "task_inv libs a0 c"
      using react_turn_run(1) [OF _ turn] "1.prems"(1) by (auto simp: task_inv_def)
    show ?thesis
    proof (cases "\<exists>l'. tr = Gives (Again l')")
      case False
      then have "b = c"
        using "1.prems"(2) True turn
        by (auto simp: react_loop.simps [of libs env l a] split: tool_run.splits turn_result.splits)
      then show ?thesis using inv by simp
    next
      case again: True
      then obtain l' where l': "tr = Gives (Again l')" by blast
      then have "react_loop libs env l' c = (r, b)"
        using "1.prems"(2) True turn by (simp add: react_loop.simps [of libs env l a])
      then show ?thesis using "1.IH" [OF True turn [symmetric] l' refl inv] by simp
    qed
  qed
qed

lemma quiet_react_start: "quiet libs S a (react_start task a)"
  unfolding react_start_def
  by (rule quiet_trans [OF _ quiet_session]) (rule quiet_unlogged, simp_all add: static_def counters_def)

lemma run_react_task:
  assumes "task_inv libs a0 a" "run_react libs env task a = (r, b)"
  shows "task_inv libs a0 b"
  using react_loop_inv [OF task_inv_mild [OF assms(1) quiet_mild [OF quiet_react_start]]] assms(2)
  by (simp add: run_react_def)

section \<open>The strategies keep the invariant\<close>

lemma on_core_simps [simp]:
  "core (on_core f s) = f (core s)" "strategy_selector (on_core f s) = strategy_selector s"
  "reasoning (on_core f s) = reasoning s" "skill_loader (on_core f s) = skill_loader s"
  "core (emit e s) = emit_event e (core s)" "strategy_selector (emit e s) = strategy_selector s"
  "reasoning (emit e s) = reasoning s" "skill_loader (emit e s) = skill_loader s"
  "core (on_tree g s) = core s" "reasoning (on_tree g s) = g (reasoning s)"
  "strategy_selector (on_tree g s) = strategy_selector s"
  by (simp_all add: on_core_def emit_def on_tree_def)

lemma generate_frame:
  assumes "generate ge p s = (r, s')"
  shows "mild libs (core s) (core s')" "strategy_selector s' = strategy_selector s" "reasoning s' = reasoning s"
    "skill_loader s' = skill_loader s"
proof -
  obtain x sent b where g: "generate_with_goal ge (llm_retry (core s)) (llm_max_tokens s) p ''default'' (llm_budget s)
      = (x, sent, b)" by (metis prod_cases3)
  have "sent \<le> request_limit (core s)"
    using g with_retry_from_sent [of 1 "ge_retry ge" "llm_retry (core s)" "ge_answers ge"]
    by (auto simp: generate_with_goal_def with_retry_def request_limit_def split: prod.splits sum.splits)
  then have "mild libs (core s) (log_effect (Requests sent answer) (core s))" for answer
    by (simp add: mild_def mild_effect_def log_effect_def static_def)
  moreover obtain answer where s': "s' = on_core (log_effect (Requests sent answer)) (s\<lparr>llm_budget := b\<rparr>)"
    using assms g by (auto simp: generate_def)
  ultimately show "mild libs (core s) (core s')" by simp
  show "strategy_selector s' = strategy_selector s" "reasoning s' = reasoning s" "skill_loader s' = skill_loader s"
    using s' by simp_all
qed

lemma generate_logs:
  assumes "generate ge p s = (Inr answer, s')"
  shows "\<exists>sent. effects (core s') = effects (core s) @ [Requests sent (Some answer)]"
  using assms by (auto simp: generate_def on_core_def log_effect_def split: prod.splits sum.splits)

lemma task_inv_generate:
  "task_inv libs a0 (core s) \<Longrightarrow> generate ge p s = (r, s') \<Longrightarrow> task_inv libs a0 (core s')"
  using task_inv_mild generate_frame(1) by blast

lemma task_inv_emit: "task_inv libs a0 a \<Longrightarrow> task_inv libs a0 (emit_event e a)"
  using task_inv_mild quiet_mild quiet_emit by blast

lemma run_step_inv:
  assumes "task_inv (ag_libs libs) a0 (core s)"
  shows "task_inv (ag_libs libs) a0 (core (snd (run_step libs se task i n step results s)))"
proof -
  have planned: "task_inv (ag_libs libs) a0 (a\<lparr>planner := p\<rparr>)" if "task_inv (ag_libs libs) a0 a" for a p
    by (rule task_inv_mild [OF that mild_unlogged]) (simp_all add: static_def)
  show ?thesis
  proof (cases "if results = [] then Returned ''none'' else truncate_output (last results) 200")
    case prev: (Returned prev)
    show ?thesis
    proof (cases "truncate_output step 60")
      case (Returned shown)
      let ?e = "Thinking (''Step '' @ show_nat (i + 1) @ ''/'' @ show_nat n @ '': '' @ shown)"
      let ?s = "on_core (\<lambda>a. (on_session session_clear a)\<lparr>turn := 0\<rparr>) (emit ?e s)"
      obtain r b where react: "run_react (ag_libs libs) (se_turn se) (step_task task i n step prev) (core ?s) = (r, b)"
        by fastforce
      have "task_inv (ag_libs libs) a0 (core ?s)"
        unfolding on_core_simps
        by (intro task_inv_turn task_inv_mild [OF task_inv_emit [OF assms] quiet_mild [OF quiet_session]])
      note inv = run_react_task [OF this react]
      have eq: "run_step libs se task i n step results s = (case (r, b) of
            (Panics, a) \<Rightarrow> (Panics, ?s\<lparr>core := a\<rparr>)
          | (Blocks, a) \<Rightarrow> (Blocks, ?s\<lparr>core := a\<rparr>)
          | (Gives (Inr result), a) \<Rightarrow>
              (Gives (results @ [''Step '' @ show_nat (i + 1) @ '' result: '' @ result]),
               ?s\<lparr>core := a\<lparr>planner := (planner a)\<lparr>wmemory := set_key_info result (wmemory (planner a))\<rparr>\<rparr>\<rparr>)
          | (Gives (Inl e), a) \<Rightarrow>
              (Gives (results @ [''Step '' @ show_nat (i + 1) @ '' FAILED: '' @ e]), ?s\<lparr>core := a\<rparr>))"
        unfolding run_step_def prev Returned with_run_def Let_def run.case react ..
      show ?thesis unfolding eq using inv planned [OF inv] by (simp split: tool_run.split sum.split)
    qed (use assms prev in \<open>simp add: run_step_def with_run_def\<close>)
  qed (use assms in \<open>simp add: run_step_def with_run_def\<close>)
qed

lemma run_steps_inv:
  assumes "task_inv (ag_libs libs) a0 (core s)"
  shows "task_inv (ag_libs libs) a0 (core (snd (run_steps libs se task n i steps results s)))"
  using assms
proof (induction libs se task n i steps results s rule: run_steps.induct)
  case (2 libs se task n i step steps results s)
  obtain r s' where one: "run_step libs (se i) task i n step results s = (r, s')" by fastforce
  have "task_inv (ag_libs libs) a0 (core s')" using run_step_inv [OF "2.prems"] one by (metis snd_conv)
  then show ?case using 2 one by (auto simp: and_then_def split: tool_run.split)
qed simp

lemma run_plan_inv:
  assumes "task_inv (ag_libs libs) a0 (core s)"
  shows "task_inv (ag_libs libs) a0 (core (snd (run_plan_then_execute libs pe task s)))"
proof -
  obtain r s1 where gen: "generate (pe_plan pe) (plan_prompt task) s = (r, s1)" by fastforce
  have s1: "task_inv (ag_libs libs) a0 (core s1)" using task_inv_generate [OF assms gen] .
  show ?thesis
  proof (cases r)
    case (Inr plan_text)
    let ?s = "emit (Thinking (''Plan created: '' @ show_nat (length (plan_steps_of plan_text)) @ '' steps'')) s1"
    obtain x s2 where steps: "run_steps libs (pe_step pe) task (length (plan_steps_of plan_text)) 0
        (plan_steps_of plan_text) [] ?s = (x, s2)" by fastforce
    have "task_inv (ag_libs libs) a0 (core ?s)" using task_inv_emit [OF s1] by simp
    from run_steps_inv [OF this] have "task_inv (ag_libs libs) a0 (core s2)" using steps by (metis snd_conv)
    then show ?thesis
      using gen Inr steps unfolding run_plan_then_execute_def Let_def
      by (auto simp: and_then_def split: tool_run.split sum.split prod.split dest: task_inv_generate)
  qed (use gen s1 in \<open>simp add: run_plan_then_execute_def\<close>)
qed

text \<open>What holds at every point of the tree of thoughts: the invariant, the selector and the judgement.\<close>

definition tot_inv :: "agent_libs \<Rightarrow> AutonomousAgent \<Rightarrow> StrategySelector \<Rightarrow> agent_state \<Rightarrow> bool" where
  "tot_inv libs a0 sel s \<longleftrightarrow> task_inv libs a0 (core s) \<and> strategy_selector s = sel \<and> none_accepted (reasoning s)"

lemma set_update_subset: "set (AList.update key v m) \<subseteq> insert (key, v) (set m)"
  by (induction m) auto

lemma none_accepted_steps:
  assumes "none_accepted t"
  shows "tn_status n \<noteq> Accepted \<Longrightarrow> none_accepted (insert_node n t)"
    "(\<And>n. tn_status n \<noteq> Accepted \<Longrightarrow> tn_status (f n) \<noteq> Accepted) \<Longrightarrow> none_accepted (modify i f t)"
    "none_accepted (snd (tree_prune t))"
proof -
  show "none_accepted (insert_node n t)" if "tn_status n \<noteq> Accepted"
    using assms that set_update_subset [of "tn_id n" n "nodes t"] by (auto simp: none_accepted_def insert_node_def)
  show "none_accepted (modify i f t)" if "\<And>n. tn_status n \<noteq> Accepted \<Longrightarrow> tn_status (f n) \<noteq> Accepted"
    using assms that unfolding none_accepted_def modify_def
    by (auto split: if_splits)
  show "none_accepted (snd (tree_prune t))"
    using assms unfolding none_accepted_def tree_prune_def node_prune_def by (auto split: if_splits)
qed

lemma none_accepted_child: "none_accepted t \<Longrightarrow> none_accepted (snd (add_child p c t))"
  by (auto simp: add_child_def node_new_def Let_def intro!: none_accepted_steps split: option.split)

lemma none_accepted_mark: "none_accepted t \<Longrightarrow> none_accepted (snd (mark_unscored i t))"
  by (auto simp: mark_unscored_def unscored_def intro!: none_accepted_steps split: option.split)

lemma none_accepted_thoughts: "none_accepted t \<Longrightarrow> none_accepted (add_thoughts p cs t)"
  unfolding add_thoughts_def by (induction cs arbitrary: t) (simp_all add: none_accepted_child)

lemma tot_inv_generate:
  "tot_inv libs a0 sel s \<Longrightarrow> generate ge p s = (r, s') \<Longrightarrow> tot_inv libs a0 sel s'"
  using task_inv_generate generate_frame(2,3) by (auto simp: tot_inv_def)

lemma expand_leaf_inv:
  assumes "tot_inv libs a0 sel s"
  shows "tot_inv libs a0 sel (expand_leaf ge depth i s)"
proof -
  let ?p = "expand_prompt (tot_max_branches (sel_config (strategy_selector s)))
    (case get_node (reasoning s) i of Some n \<Rightarrow> tn_content n | None \<Rightarrow> [])"
  obtain r s1 where gen: "generate ge ?p s = (r, s1)" by fastforce
  have s1: "tot_inv libs a0 sel s1" using tot_inv_generate [OF assms gen] .
  then have "task_inv libs a0 ((core s1)\<lparr>turn := turn (core s1) + 1\<rparr>)" by (simp add: tot_inv_def task_inv_turn)
  then show ?thesis
    using s1 unfolding expand_leaf_def Let_def gen prod.case
    by (cases r) (simp_all add: tot_inv_def task_inv_emit none_accepted_mark none_accepted_thoughts)
qed

lemma expand_leaves_inv:
  "tot_inv libs a0 sel s \<Longrightarrow> tot_inv libs a0 sel (snd (expand_leaves te depth is s))"
  by (induction te depth "is" s rule: expand_leaves.induct) (simp_all add: expand_leaf_inv)

lemma explore_inv: "tot_inv libs a0 sel s \<Longrightarrow> tot_inv libs a0 sel (snd (explore te left depth s))"
proof (induction te left depth s rule: explore.induct)
  case (2 te left depth s)
  obtain ok s1 where lv: "expand_leaves te depth (leaf_ids (reasoning s)) s = (ok, s1)" by fastforce
  have "tot_inv libs a0 sel s1" using expand_leaves_inv [OF "2.prems"] lv by (metis snd_conv)
  then have "tot_inv libs a0 sel (on_tree (\<lambda>t. snd (tree_prune t)) s1)"
    by (simp add: tot_inv_def none_accepted_steps(3))
  then show ?case
    using 2 lv \<open>tot_inv libs a0 sel s1\<close> by (cases ok) auto
qed simp

lemma plant_inv:
  assumes "task_inv (ag_libs libs) a0 (core s)"
  shows "tot_inv (ag_libs libs) a0 (strategy_selector s) (plant libs te task s)"
proof -
  let ?cfg = "sel_config (strategy_selector s)"
  let ?t = "insert_node (node_root 0 task) (tree_new (tot_config libs ?cfg))"
  obtain r s1 where gen: "generate (to_branch te) (branch_prompt (tot_max_branches ?cfg) task) (s\<lparr>reasoning := ?t\<rparr>) = (r, s1)"
    by fastforce
  have "none_accepted ?t"
    by (intro none_accepted_steps(1)) (simp_all add: none_accepted_def tree_new_def node_root_def node_new_def)
  then have "tot_inv (ag_libs libs) a0 (strategy_selector s) (s\<lparr>reasoning := ?t\<rparr>)"
    using assms by (simp add: tot_inv_def)
  from tot_inv_generate [OF this gen] have s1: "tot_inv (ag_libs libs) a0 (strategy_selector s) s1" .
  have root: "add_root task (tree_new (tot_config libs ?cfg)) = (0, ?t)" by (simp add: add_root_def tree_new_def)
  show ?thesis
    using s1 unfolding plant_def Let_def root prod.case gen
    by (simp add: tot_inv_def none_accepted_thoughts)
qed

text \<open>The tree of thoughts returns, and never with an answer: no thought is ever evaluated, so none is
  accepted and no path can be best.\<close>

lemma tree_of_thoughts_fails:
  assumes "task_inv (ag_libs libs) a0 (core s)" "\<And>m. set (node_order libs m) \<subseteq> set m"
  shows "\<exists>e s'. run_tree_of_thoughts libs te task s = (Gives (Inl e), s')
    \<and> task_inv (ag_libs libs) a0 (core s') \<and> strategy_selector s' = strategy_selector s
    \<and> (e = ''Task aborted'' \<or> e = ''TreeOfThoughts: no valid reasoning path found'')"
proof -
  let ?s = "plant libs te task s"
  let ?n = "tot_max_depth (sel_config (strategy_selector ?s))"
  obtain ok s1 where ex: "explore te ?n 0 ?s = (ok, s1)" by fastforce
  have s1: "tot_inv (ag_libs libs) a0 (strategy_selector s) s1"
    using explore_inv [OF plant_inv [OF assms(1), of te task], of te ?n 0] ex by simp
  have "best_path (rnd32 libs) (node_order libs) (reasoning s1) = Some []"
    using best_path_none s1 assms(2) by (simp add: tot_inv_def)
  then show ?thesis
    using ex s1 unfolding run_tree_of_thoughts_def Let_def by (cases ok) (simp_all add: tot_inv_def)
qed

section \<open>After the strategy\<close>

lemma mild_log: "calm libs (scanner a) {} e \<Longrightarrow> mild libs a (log_effect e a)"
  by (rule quiet_mild [OF quiet_log])

lemma quiet_wmemory: "quiet libs S a (on_wmemory f a)"
  by (rule quiet_unlogged) (simp_all add: on_wmemory_def static_def counters_def)

lemma quiet_fold:
  assumes "\<And>x a. x \<in> set xs \<Longrightarrow> quiet libs S a (f x a)"
  shows "quiet libs S a (fold f xs a)"
  using assms
proof (induction xs arbitrary: a)
  case (Cons x xs)
  then show ?case by (auto intro: quiet_trans [of libs S a "f x a"])
qed (simp add: quiet_refl)

lemma distilled_iff:
  "distilled libs answer layer s \<longleftrightarrow> (\<exists>v. parse_json libs answer = Some v
     \<and> (layer = ''Episodic'' \<and> s \<in> set (json_strings ''facts'' v)
        \<or> layer = ''Semantic'' \<and> (\<exists>sk \<in> set (json_strings ''skills'' v). s = ''[SKILL] '' @ sk)))"
  by (auto simp: distilled_def split: option.split)

lemma quiet_learn:
  assumes "From_Model answer \<in> S" "parse_json libs answer = Some v"
  shows "quiet libs S a (learn v a)"
proof -
  have "calm libs sc S (Stored ''Episodic'' f)" if "f \<in> set (json_strings ''facts'' v)" for f sc
    using assms that unfolding calm.simps distilled_iff by blast
  then have facts: "quiet libs S a (store_fact f a)" if "f \<in> set (json_strings ''facts'' v)" for f a
    unfolding store_fact_def by (intro quiet_trans [OF quiet_wmemory quiet_log]) (use that in blast)
  have "calm libs sc S (Stored ''Semantic'' (''[SKILL] '' @ k))" if "k \<in> set (json_strings ''skills'' v)" for k sc
    using assms that unfolding calm.simps distilled_iff by blast
  then have skills: "quiet libs S a (store_skill_note k a)" if "k \<in> set (json_strings ''skills'' v)" for k a
    unfolding store_skill_note_def by (intro quiet_log) (use that in blast)
  have "quiet libs S a (case x of Some i \<Rightarrow> on_wmemory (set_key_info i) a | None \<Rightarrow> a)" for x
    by (simp add: quiet_wmemory quiet_refl split: option.split)
  then show ?thesis
    unfolding learn_def Let_def by (rule quiet_trans [OF quiet_trans [OF _ quiet_fold [OF facts]] quiet_fold [OF skills]])
qed

lemma mild_distill: "mild (ag_libs libs) (core s) (core (snd (distill_memory libs ge task result s)))"
proof (cases "truncate_output result 500")
  case (Returned shown)
  obtain r s1 where gen: "generate ge (distill_prompt task shown) s = (r, s1)" by fastforce
  have asked: "mild (ag_libs libs) (core s) (core s1)" using generate_frame(1) [OF gen] .
  have "mild (ag_libs libs) (core s) (learn v (core s1))"
    if given: "r = Inr answer" "parse_json (ag_libs libs) answer = Some v" for answer v
  proof -
    obtain sent where "effects (core s1) = effects (core s) @ [Requests sent (Some answer)]"
      using generate_logs gen unfolding given(1) by blast
    then show ?thesis by (rule mild_then_quiet [OF asked]) (rule quiet_learn [OF _ given(2)], simp)
  qed
  then show ?thesis
    using Returned gen asked
    by (cases r) (auto simp: distill_memory_def with_run_def split: option.split)
qed (simp add: distill_memory_def with_run_def mild_refl)

lemma mild_save_skill: "mild (ag_libs libs) (core s) (core (validate_and_save_skill libs l sk s))"
proof -
  have "mild (ag_libs libs) (core s) (core (fold (\<lambda>(p, c). on_core (log_effect (Skill_Written p c))) ws s))" for ws
  proof (induction ws arbitrary: s)
    case (Cons w ws)
    obtain p c where "w = (p, c)" by fastforce
    then show ?case
      using mild_trans [OF mild_log [of "ag_libs libs" "core s" "Skill_Written p c"]] Cons.IH [of "on_core (log_effect (Skill_Written p c)) s"]
      by simp
  qed (simp add: mild_refl)
  then show ?thesis by (simp add: validate_and_save_skill_def mild_refl)
qed

lemma mild_crystallize: "mild (ag_libs libs) (core s) (core (snd (crystallize_skills libs ge task result s)))"
proof (cases "skill_loader s")
  case (Some l)
  have saved: "mild (ag_libs libs) (core s) (core (fold (validate_and_save_skill libs l) sks s))" for sks s
    by (induction sks arbitrary: s) (auto intro: mild_refl mild_trans [OF mild_save_skill])
  show ?thesis
  proof (cases "truncate_output result 500")
    case (Returned shown)
    obtain r s1 where gen: "generate ge (crystallize_prompt task shown) s = (r, s1)" by fastforce
    have "mild (ag_libs libs) (core s) (core s1)" using generate_frame(1) [OF gen] .
    then show ?thesis
      using Returned Some gen mild_trans [OF _ saved]
      by (cases r) (auto simp: crystallize_skills_def with_run_def split: option.split)
  qed (simp add: crystallize_skills_def Some with_run_def mild_refl)
qed (simp add: crystallize_skills_def mild_refl)

lemma mild_emit: "mild libs a b \<Longrightarrow> mild libs a (emit_event e b)"
  by (rule mild_trans [OF _ quiet_mild [OF quiet_emit]])

lemma mild_after_success: "mild (ag_libs libs) (core s) (core (snd (after_success libs te task response s)))"
proof (cases "truncate_output response 500")
  case (Returned shown)
  define d where "d = (if auto_distill (ag_config (core s)) \<and> response \<noteq> []
     then and_then (distill_memory libs (ta_distill te) task response s)
       (\<lambda>_. crystallize_skills libs (ta_crystallize te) task response)
     else (Gives (), s))"
  obtain r s1 where distilled: "distill_memory libs (ta_distill te) task response s = (r, s1)" by fastforce
  have "mild (ag_libs libs) (core s) (core s1)" using mild_distill [of libs s] distilled by (metis snd_conv)
  then have "mild (ag_libs libs) (core s) (core (snd d))"
    using mild_trans [OF _ mild_crystallize] distilled mild_refl
    by (auto simp: d_def and_then_def split: tool_run.split)
  then show ?thesis
    using Returned unfolding after_success_def with_run_def run.case Returned d_def [symmetric]
    by (cases d; cases "fst d") (auto simp: and_then_def Let_def mild_emit split: option.split)
qed (simp add: after_success_def with_run_def mild_refl)

section \<open>A whole task\<close>

definition orders :: "task_libs \<Rightarrow> bool" where
  "orders libs \<longleftrightarrow> (\<forall>m. set (node_order libs m) = set m)"

lemma run_strategy_inv:
  assumes "task_inv (ag_libs libs) a0 (core s)" "orders libs"
  shows "task_inv (ag_libs libs) a0 (core (snd (run_strategy libs te strategy task s)))"
proof (cases strategy)
  case ReAct
  then show ?thesis
    using run_react_task [OF assms(1)] by (auto simp: run_strategy_def split: prod.split)
next
  case PlanThenExecute
  then show ?thesis using run_plan_inv [OF assms(1)] by (simp add: run_strategy_def)
next
  case TreeOfThoughts
  then show ?thesis
    using tree_of_thoughts_fails [OF assms(1), of "ta_tot te" task] assms(2)
    by (auto simp: run_strategy_def orders_def)
qed

lemma note_outcome_core: "core (snd (note_outcome libs strategy task ok s)) = core s"
  by (simp add: note_outcome_def with_run_def Let_def split: run.split)

text \<open>A task that starts ends in the invariant of its run, or after it in operations that dispatch
  nothing.\<close>

lemma run_task_shape:
  assumes "orders libs" "run_task_start (ta_files te) (ta_now te) (core s) = (Inr (), a0)"
    "run_task libs te task s = (r, s')"
  shows "\<exists>c. task_inv (ag_libs libs) a0 c
    \<and> (core s' = c \<or> mild (ag_libs libs) (c\<lparr>running := False\<rparr>) (core s'))"
proof -
  define strategy where "strategy = select_with_failures (rnd32 libs) (strategy_selector s) task (consecutive_failures a0)"
  let ?s = "s\<lparr>core := a0, last_strategy := strategy\<rparr>"
  let ?e = "Thinking (''Strategy: '' @ show_strategy strategy @ '' ('' @ show_nat (consecutive_failures a0)
    @ '' consecutive failures)'')"
  show ?thesis
  proof (cases "if info_enabled libs then truncate_output task 80 else Returned []")
    case Panicked
    then have "core s' = a0"
      using assms(2,3) by (auto simp: run_task_def with_run_def Let_def)
    then show ?thesis using task_inv_refl by blast
  next
    case (Returned shown)
    obtain x s2 where run: "run_strategy libs te strategy task (emit ?e ?s) = (x, s2)" by fastforce
    have inv: "task_inv (ag_libs libs) a0 (core s2)"
      using run_strategy_inv [OF _ assms(1), of a0 "emit ?e ?s" te strategy task] run task_inv_emit [OF task_inv_refl]
      by simp
    have eq: "and_then (x, s2) (\<lambda>r s.
        let s = on_core (\<lambda>a. a\<lparr>running := False\<rparr>) s
        in and_then (note_outcome libs strategy task (\<not> isl r) s) (\<lambda>_ s.
             case r of Inl e \<Rightarrow> (Gives (Inl e), s)
             | Inr response \<Rightarrow> and_then (after_success libs te task response s)
                 (\<lambda>response s. (Gives (Inr response), s)))) = (r, s')"
      using assms(2,3) Returned run
      by (simp add: run_task_def strategy_def [symmetric] with_run_def Let_def)
    show ?thesis
    proof (cases x)
      case (Gives y)
      let ?t = "on_core (\<lambda>a. a\<lparr>running := False\<rparr>) s2"
      obtain u s3 where noted: "note_outcome libs strategy task (\<not> isl y) ?t = (u, s3)" by fastforce
      have c3: "core s3 = (core s2)\<lparr>running := False\<rparr>"
        using note_outcome_core [of libs strategy task "\<not> isl y" ?t] noted by simp
      have "mild (ag_libs libs) (core s3) (core s')"
        using eq Gives noted mild_after_success [of libs s3 te task] mild_refl
        by (auto simp: and_then_def split: tool_run.splits sum.splits prod.splits)
          (metis snd_conv)+
      then show ?thesis using inv c3 by auto
    qed (use eq inv in \<open>auto simp: and_then_def\<close>)
  qed
qed

lemma guarded_weaken: "guarded g False es \<Longrightarrow> guarded g b es"
  by (induction g False es rule: guarded.induct) auto

lemma run_task_effects:
  assumes "orders libs" "run_task libs te task s = (r, s')"
  shows "\<exists>es. effects (core s') = effects (core s) @ es \<and> guarded (gate (core s)) False es
    \<and> tally is_dispatch es \<le> max_tool_calls (ag_config (core s))
    \<and> tally is_write es \<le> max_write_operations (ag_config (core s))
    \<and> list_all (effect_ok (ag_libs libs) (scanner (core s)) (request_limit (core s)) (sources es)) es"
proof (cases "run_task_start (ta_files te) (ta_now te) (core s)")
  case (Pair x a0)
  show ?thesis
  proof (cases x)
    case (Inl e)
    then obtain why where "core s' = log_effect (Latch_Read (Some why)) (core s)"
      using assms(2) Pair
      by (auto simp: run_task_def run_task_start_def check_latch_def Let_def split: if_splits)
    then show ?thesis by (simp add: log_effect_def)
  next
    case (Inr u)
    then have start: "run_task_start (ta_files te) (ta_now te) (core s) = (Inr (), a0)" using Pair by simp
    note ok = run_task_start_ok [OF start]
    obtain c where c: "task_inv (ag_libs libs) a0 c"
        "core s' = c \<or> mild (ag_libs libs) (c\<lparr>running := False\<rparr>) (core s')"
      using run_task_shape [OF assms(1) start assms(2)] by blast
    have same: "scanner a0 = scanner (core s)" "gate a0 = gate (core s)" "ag_config a0 = ag_config (core s)"
        "request_limit a0 = request_limit (core s)"
      using ok by (simp_all add: request_limit_def)
    obtain es where es: "effects c = effects a0 @ es" "static c = static a0"
        "list_all (effect_ok (ag_libs libs) (scanner (core s)) (request_limit (core s)) (sources es)) es"
        "guarded (gate (core s)) False es" "tally is_dispatch es \<le> max_tool_calls (ag_config (core s))"
        "tally is_write es \<le> max_write_operations (ag_config (core s))"
      using c(1) same by (auto simp: task_inv_def run_inv_def)
    have st: "scanner (c\<lparr>running := False\<rparr>) = scanner (core s)" "request_limit (c\<lparr>running := False\<rparr>) = request_limit (core s)"
      using static_parts [OF es(2)] same by (simp_all add: request_limit_def)
    obtain fs where fs: "effects (core s') = effects c @ fs"
        "list_all (mild_effect (ag_libs libs) (scanner (core s)) (request_limit (core s)) (sources fs)) fs"
      using c(2) st by (auto simp: mild_def)
    have "effects (core s') = effects (core s) @ Latch_Read None # es @ fs"
      using fs(1) es(1) ok(10) by simp
    then show ?thesis
      using es(4-6) mild_effects [OF mild_effects_mono [OF fs(2), of "sources (Latch_Read None # es @ fs)"]] guarded_weaken [OF es(4), of True]
        effects_ok_mono [OF es(3), of "sources (Latch_Read None # es @ fs)"]
      by (intro exI [of _ "Latch_Read None # es @ fs"]) (simp add: guarded_append)
  qed
qed

text \<open>C3: Under every strategy, what a task does with tools is behind its guards: for each
  dispatched call the emergency-stop latch was read, after every earlier call, and found clear, the approval
  gate allowed the call at the permission level derived from its name and command, and the calls and the state-changing calls
  of the whole task stay within \<open>max_tool_calls\<close> and \<open>max_write_operations\<close>, also when a plan runs the
  ReAct loop once per step. With the gate of a fresh agent no unregistered name and no destructive
  command is ever dispatched, whatever the language model asks for.\<close>

theorem task_dispatch_guarded:
  assumes "orders libs" "run_task libs te task s = (r, s')"
  shows "\<exists>es. effects (core s') = effects (core s) @ es \<and> guarded (gate (core s)) False es
    \<and> tally is_dispatch es \<le> max_tool_calls (ag_config (core s))
    \<and> tally is_write es \<le> max_write_operations (ag_config (core s))
    \<and> (gate (core s) = gate_new Autonomous \<longrightarrow> (\<forall>name ps ops res. Dispatched name ps ops res \<in> set es \<longrightarrow>
         is_registered name \<and> call_permission name ps \<noteq> Destructive))"
proof -
  obtain es where "effects (core s') = effects (core s) @ es" "guarded (gate (core s)) False es"
      "tally is_dispatch es \<le> max_tool_calls (ag_config (core s))"
      "tally is_write es \<le> max_write_operations (ag_config (core s))"
    using run_task_effects [OF assms] by blast
  then show ?thesis using guarded_dispatch fresh_gate_allows by metis
qed

text \<open>An agent for the examples, with the provider answering \<open>demo_turn\<close> in the ReAct loop and nothing
  outside it.\<close>

definition demo_gen :: gen_env where
  "demo_gen = \<lparr>ge_now = 0, ge_minute = ''m'', ge_minute_after = ''m'', ge_permit = Inr (), ge_retry = flaky_env,
     ge_answers = (\<lambda>i. Inl (Auth ''no key''))\<rparr>"

definition demo_task_libs :: task_libs where
  "demo_task_libs = \<lparr>ag_libs = demo_libs, rnd32 = (\<lambda>x. x), rnd64 = (\<lambda>x. x), node_order = (\<lambda>m. m),
     uni = \<lparr>lower = to_ascii_lowercase, alnum = \<lambda>c. True\<rparr>, dbg_str = (\<lambda>s. s), skill_order = (\<lambda>m. m),
     write_skill = (\<lambda>p c. Inr ()), info_enabled = False\<rparr>"

definition demo_state :: agent_state where
  "demo_state = \<lparr>core = demo_agent, llm_budget = budget_new 0 0 0, llm_max_tokens = 100,
     strategy_selector = selector_new (default_strategy_config (\<lambda>x. x)), last_strategy = ReAct,
     reasoning = tree_new \<lparr>max_depth = 4, max_branches = 3, accept_threshold = 1, learning_rate = 0, top_k = 3\<rparr>,
     skill_loader = None\<rparr>"

definition demo_task_env :: "files \<Rightarrow> tool_os \<Rightarrow> task_env" where
  "demo_task_env fs os = \<lparr>ta_files = fs, ta_now = 0, ta_turn = (\<lambda>i. demo_turn os),
     ta_plan = \<lparr>pe_plan = demo_gen, pe_step = (\<lambda>i. \<lparr>se_aborted = False, se_turn = \<lambda>j. demo_turn os\<rparr>), pe_final = demo_gen\<rparr>,
     ta_tot = \<lparr>to_branch = demo_gen, to_aborted = (\<lambda>d. False), to_leaf_aborted = (\<lambda>d i. False),
       to_expand = (\<lambda>d i. demo_gen), to_final = demo_gen\<rparr>,
     ta_distill = demo_gen, ta_crystallize = demo_gen, ta_quality = None\<rparr>"

lemma demo_sel [simp]:
  "orders demo_task_libs" "core demo_state = demo_agent" "rule_order (ag_libs demo_task_libs) = (\<lambda>rs. rs)"
  by (simp_all add: orders_def demo_task_libs_def demo_state_def demo_libs_def)

theorem task_dispatch_guarded_witness:
  "\<exists>r s' es. run_task demo_task_libs (demo_task_env (\<lambda>p. None) ws_os) ''read the page'' demo_state = (r, s')
     \<and> effects (core s') = effects demo_agent @ es \<and> guarded (gate_new Autonomous) False es
     \<and> tally is_dispatch es \<le> 500 \<and> tally is_write es \<le> 100"
proof -
  obtain r s' where run: "run_task demo_task_libs (demo_task_env (\<lambda>p. None) ws_os) ''read the page'' demo_state = (r, s')"
    by fastforce
  show ?thesis using run task_dispatch_guarded [OF demo_sel(1) run] by fastforce
qed

text \<open>C10: Under every strategy, what a task ingests into the causal graph is the output of a tool call
  of that task that succeeded, under the file the call names: unchanged when the injection scan of
  the output was clean, inside the data fence when it was suspicious; output the scan calls malicious is
  never ingested. What it remembers as an observation is, in the same way, an answer the language model
  gave in that task, without the white space around it. The only other entries of its memory
  layers are distilled from an answer the model gave in that task, and these the code does not screen: the facts the
  answer lists become episodic memories, and the skills it lists become semantic notes marked \<open>[SKILL]\<close>.\<close>

theorem task_memory_screened:
  assumes "orders libs" "run_task libs te task s = (r, s')"
  shows "\<exists>es. effects (core s') = effects (core s) @ es
    \<and> (\<forall>uri t. Ingested uri t \<in> set es \<longrightarrow>
         (\<exists>name ps ops output p. Dispatched name ps ops (Gives (Inr output)) \<in> set es
           \<and> path_arg ps = Some p \<and> uri = ''file:'' @ p
           \<and> (scan_verdict (scanner_scan (rule_order (ag_libs libs)) (scanner (core s)) output) = Clean \<and> t = output
              \<or> scan_verdict (scanner_scan (rule_order (ag_libs libs)) (scanner (core s)) output) = Suspicious
                 \<and> t = spotlight output)))
    \<and> (\<forall>t. Remembered t \<in> set es \<longrightarrow>
         (\<exists>n answer. Requests n (Some answer) \<in> set es
           \<and> (scan_verdict (scanner_scan (rule_order (ag_libs libs)) (scanner (core s)) answer) = Clean
                 \<and> t = trim answer
              \<or> scan_verdict (scanner_scan (rule_order (ag_libs libs)) (scanner (core s)) answer) = Suspicious
                 \<and> t = trim (spotlight answer))))
    \<and> (\<forall>layer t. Stored layer t \<in> set es \<longrightarrow>
         (\<exists>n answer v. Requests n (Some answer) \<in> set es \<and> parse_json (ag_libs libs) answer = Some v
           \<and> (layer = ''Episodic'' \<and> t \<in> set (json_strings ''facts'' v)
              \<or> layer = ''Semantic'' \<and> (\<exists>sk \<in> set (json_strings ''skills'' v). t = ''[SKILL] '' @ sk))))"
proof -
  obtain es where es: "effects (core s') = effects (core s) @ es"
      "list_all (effect_ok (ag_libs libs) (scanner (core s)) (request_limit (core s)) (sources es)) es"
    using run_task_effects [OF assms] by blast
  show ?thesis
    using es(1) effects_memory_screened [OF es(2)] unfolding memory_screened_def distilled_iff by blast
qed

theorem task_memory_screened_witness:
  "\<exists>r s' es. run_task demo_task_libs (demo_task_env (\<lambda>p. None) ws_os) ''read the page'' demo_state = (r, s')
     \<and> effects (core s') = effects demo_agent @ es
     \<and> {t. \<exists>uri. Ingested uri t \<in> set es}
         \<subseteq> {t. scan_verdict (scanner_scan (\<lambda>rs. rs) scanner_new t) = Clean} \<union> range spotlight"
proof -
  obtain r s' where run: "run_task demo_task_libs (demo_task_env (\<lambda>p. None) ws_os) ''read the page'' demo_state = (r, s')"
    by fastforce
  show ?thesis using run task_memory_screened [OF demo_sel(1) run] by fastforce
qed

text \<open>C12: A task that is given to the tree of thoughts never succeeds. That is every task whose text
  contains one of the exploration keywords (debug, improve, optimize, research and so on), and every
  task after ten consecutive failures with the default configuration: it returns an error, or panics
  while a preview of the task is cut, but never an answer, whatever the language model says. The thoughts
  are never evaluated, so none is accepted, and the search for the best path accepts nothing else.\<close>

theorem exploration_never_succeeds:
  assumes "orders libs"
    "list_ex (contains (to_lowercase task)) exploration_keywords
     \<or> consecutive_failures (core s) \<ge> escalation_after_failures (sel_config (strategy_selector s)) * 2"
  shows "fst (run_task libs te task s) = Panics \<or> (\<exists>e. fst (run_task libs te task s) = Gives (Inl e))"
proof (cases "run_task_start (ta_files te) (ta_now te) (core s)")
  case (Pair x a0)
  show ?thesis
  proof (cases x)
    case (Inl e)
    then show ?thesis using Pair by (simp add: run_task_def)
  next
    case (Inr u)
    have fails: "consecutive_failures a0 = consecutive_failures (core s)"
      using Pair Inr by (auto simp: run_task_start_def check_latch_def Let_def log_effect_def on_session_def
          begin_run_accounting_def split: if_splits)
    have sel: "select_with_failures (rnd32 libs) (strategy_selector s) task (consecutive_failures a0) = TreeOfThoughts"
      using assms(2)
    proof
      assume "list_ex (contains (to_lowercase task)) exploration_keywords"
      then show ?thesis using exploration_selects_tree by (auto simp: list_ex_iff)
    qed (simp add: fails select_with_failures_def Let_def)
    let ?e = "Thinking (''Strategy: TreeOfThoughts ('' @ show_nat (consecutive_failures a0) @ '' consecutive failures)'')"
    let ?s = "emit ?e (s\<lparr>core := a0, last_strategy := TreeOfThoughts\<rparr>)"
    obtain e s1 where tot: "run_tree_of_thoughts libs (ta_tot te) task ?s = (Gives (Inl e), s1)"
      using tree_of_thoughts_fails [OF task_inv_refl, of libs "ta_tot te" task ?s] assms(1) unfolding orders_def by blast
    show ?thesis
      using Pair Inr sel tot
      by (auto simp: run_task_def run_strategy_def with_run_def note_outcome_def and_then_def Let_def split: run.split)
  qed
qed

theorem exploration_never_succeeds_witness:
  "\<not> (\<exists>answer. fst (run_task demo_task_libs (demo_task_env (\<lambda>p. None) ws_os) ''Debug it'' demo_state) = Gives (Inr answer))"
proof -
  have "contains (to_lowercase ''Debug it'') ''debug''"
    by (simp add: to_lowercase_def to_ascii_lowercase_def lower_pairs_def)
  then have "list_ex (contains (to_lowercase ''Debug it'')) exploration_keywords"
    unfolding exploration_keywords_def by simp
  from exploration_never_succeeds [OF demo_sel(1) disjI1 [OF this], of "demo_task_env (\<lambda>p. None) ws_os" demo_state]
  show ?thesis by auto
qed

end
