(* ===== verification/Goal_Loop.thy ===== *)
theory Goal_Loop
  imports Task_Theorems
begin

text \<open>
  The background loop of the agent (\<open>AutonomousLoop\<close> in \<open>soul-agent-core/src/lib.rs\<close>): goals are added to a list,
  and a spawned task works through them one at a time. The events of its life are a list: goals added,
  iterations of the loop with the answers of the outside for the task they run, and the request to
  stop. A goal added while a task runs is an event before or after that iteration: additions go to the
  end of the list and the loop finds its goal again by identifier.

  \<open>loop_alive\<close> tells whether the spawned task is still there: it leaves its loop when \<open>running\<close> is false, dies
  with a panic of the task it runs, and is stuck when that never returns.
\<close>

record AutonomousLoop =
  loop_agent :: agent_state
  goals :: "Goal list"
  loop_running :: bool
  loop_alive :: bool

definition loop_new :: "agent_state \<Rightarrow> AutonomousLoop" where
  "loop_new s = \<lparr>loop_agent = s, goals = [], loop_running = False, loop_alive = False\<rparr>"

definition add_goal :: "string \<Rightarrow> string \<Rightarrow> u8 \<Rightarrow> nat \<Rightarrow> AutonomousLoop \<Rightarrow> AutonomousLoop" where
  "add_goal uuid description prio now L = L\<lparr>goals := goals L @ [\<lparr>goal_id = uuid, goal_description = description,
     goal_priority = prio, goal_created_at = now, goal_status = Goal_Active\<rparr>]\<rparr>"

fun set_status :: "string \<Rightarrow> GoalStatus \<Rightarrow> Goal list \<Rightarrow> Goal list" where
  "set_status i st [] = []"
| "set_status i st (g # gs) = (if goal_id g = i then g\<lparr>goal_status := st\<rparr> # gs else g # set_status i st gs)"

definition next_goal :: "AutonomousLoop \<Rightarrow> Goal option" where
  "next_goal L = find (\<lambda>g. goal_status g = Goal_Active) (goals L)"

definition loop_iteration :: "task_libs \<Rightarrow> task_env \<Rightarrow> AutonomousLoop \<Rightarrow> AutonomousLoop" where
  "loop_iteration libs te L =
     (if \<not> loop_alive L then L
      else if \<not> loop_running L then L\<lparr>loop_alive := False\<rparr>
      else case next_goal L of
             None \<Rightarrow> L
           | Some g \<Rightarrow> (case run_task libs te (goal_description g) (loop_agent L) of
               (Gives (Inr result), s) \<Rightarrow>
                 L\<lparr>loop_agent := s, goals := set_status (goal_id g) Goal_Completed (goals L)\<rparr>
             | (Gives (Inl e), s) \<Rightarrow> L\<lparr>loop_agent := s, goals := set_status (goal_id g) Goal_Failed (goals L)\<rparr>
             | (_, s) \<Rightarrow> L\<lparr>loop_agent := s, loop_alive := False\<rparr>))"

definition start_loop :: "AutonomousLoop \<Rightarrow> AutonomousLoop" where
  "start_loop L = L\<lparr>loop_running := True, loop_alive := True\<rparr>"

definition stop_loop :: "AutonomousLoop \<Rightarrow> AutonomousLoop" where
  "stop_loop L = L\<lparr>loop_running := False, loop_agent := on_core abort_run (loop_agent L)\<rparr>"

datatype loop_event = Add_Goal string string u8 nat | Iterate task_env | Stop_Loop

fun loop_step :: "task_libs \<Rightarrow> loop_event \<Rightarrow> AutonomousLoop \<Rightarrow> AutonomousLoop" where
  "loop_step libs (Add_Goal uuid d p now) L = add_goal uuid d p now L"
| "loop_step libs (Iterate te) L = loop_iteration libs te L"
| "loop_step libs Stop_Loop L = stop_loop L"

fun is_iterate :: "loop_event \<Rightarrow> bool" where
  "is_iterate (Iterate te) = True"
| "is_iterate _ = False"

section \<open>Progress\<close>

definition active :: "Goal \<Rightarrow> bool" where
  "active g \<longleftrightarrow> goal_status g = Goal_Active"

definition waiting :: "nat \<Rightarrow> AutonomousLoop \<Rightarrow> nat" where
  "waiting n L = length (filter active (take n (goals L)))"

lemma set_status_ids: "map goal_id (set_status i st gs) = map goal_id gs"
  by (induction gs) auto

lemma set_status_first:
  assumes "find active gs = Some g" "distinct (map goal_id gs)" "st \<noteq> Goal_Active"
  shows "length (filter active (take n (set_status (goal_id g) st gs))) = length (filter active (take n gs)) - 1"
  using assms(1,2)
proof (induction gs arbitrary: n)
  case (Cons x gs)
  show ?case
  proof (cases "active x")
    case True
    then show ?thesis using Cons.prems assms(3) by (cases n) (auto simp: active_def)
  next
    case False
    then have f: "find active gs = Some g" using Cons.prems(1) by simp
    have "g \<in> set gs" using find_SomeD [OF f] by simp
    then have "goal_id x \<noteq> goal_id g" using Cons.prems(2) by auto
    then show ?thesis using False Cons.IH [OF f] Cons.prems(2) by (cases n) auto
  qed
qed simp

lemma loop_step_ids:
  "take (length (goals L)) (map goal_id (goals (loop_step libs ev L))) = map goal_id (goals L)"
  by (cases ev) (auto simp: add_goal_def loop_iteration_def stop_loop_def set_status_ids
      split: option.split prod.split tool_run.split sum.split)

lemma loop_step_alive: "loop_alive (loop_step libs ev L) \<Longrightarrow> loop_alive L"
  by (cases ev) (auto simp: add_goal_def loop_iteration_def stop_loop_def split: if_splits)

lemma loop_fold_alive: "loop_alive (fold (loop_step libs) evs L) \<Longrightarrow> loop_alive L"
  by (induction evs arbitrary: L) (auto dest: loop_step_alive)

lemma waiting_step:
  assumes "loop_alive (loop_step libs ev L)" "loop_running L" "ev \<noteq> Stop_Loop" "n \<le> length (goals L)"
    "distinct (map goal_id (goals L))"
  shows "loop_running (loop_step libs ev L)" "length (goals L) \<le> length (goals (loop_step libs ev L))"
    "waiting n (loop_step libs ev L) \<le> (if is_iterate ev then waiting n L - 1 else waiting n L)"
proof -
  have "loop_running (loop_step libs ev L) \<and> length (goals L) \<le> length (goals (loop_step libs ev L))
    \<and> waiting n (loop_step libs ev L) \<le> (if is_iterate ev then waiting n L - 1 else waiting n L)"
  proof (cases ev)
    case (Add_Goal u d p t)
    then show ?thesis using assms(2,4) by (simp add: add_goal_def waiting_def)
  next
    case (Iterate te)
    have alive: "loop_alive L" using loop_step_alive assms(1) by blast
    show ?thesis
    proof (cases "next_goal L")
      case None
      then have "filter active (take n (goals L)) = []"
        by (auto simp: next_goal_def find_None_iff active_def filter_empty_conv dest: in_set_takeD)
      then show ?thesis using Iterate None alive assms(2) by (simp add: loop_iteration_def waiting_def)
    next
      case (Some g)
      then have f: "find active (goals L) = Some g" by (simp add: next_goal_def active_def [abs_def])
      obtain r s where run: "run_task libs te (goal_description g) (loop_agent L) = (r, s)" by fastforce
      have settled: "waiting n (L\<lparr>loop_agent := s, goals := set_status (goal_id g) st (goals L)\<rparr>) = waiting n L - 1"
        "length (set_status (goal_id g) st (goals L)) = length (goals L)" if "st \<noteq> Goal_Active" for st
        using set_status_first [OF f assms(5) that] set_status_ids [of "goal_id g" st "goals L", THEN arg_cong, of length]
        by (simp_all add: waiting_def)
      show ?thesis
        using Iterate Some alive assms(1,2) run settled
        by (cases r) (auto simp: loop_iteration_def split: sum.splits)
    qed
  qed (use assms(3) in simp)
  then show "loop_running (loop_step libs ev L)" "length (goals L) \<le> length (goals (loop_step libs ev L))"
    "waiting n (loop_step libs ev L) \<le> (if is_iterate ev then waiting n L - 1 else waiting n L)" by auto
qed

lemma loop_progress:
  assumes "loop_alive (fold (loop_step libs) evs L)" "loop_running L" "Stop_Loop \<notin> set evs" "n \<le> length (goals L)"
    "distinct (map goal_id (goals (fold (loop_step libs) evs L)))"
  shows "waiting n (fold (loop_step libs) evs L) \<le> waiting n L - length (filter is_iterate evs)
    \<and> take (length (goals L)) (map goal_id (goals (fold (loop_step libs) evs L))) = map goal_id (goals L)"
  using assms
proof (induction evs arbitrary: L)
  case (Cons ev evs)
  let ?L = "loop_step libs ev L"
  have alive: "loop_alive ?L" using Cons.prems(1) loop_fold_alive by simp
  have ids: "take (length (goals L)) (map goal_id (goals ?L)) = map goal_id (goals L)" by (rule loop_step_ids)
  have more: "length (goals L) \<le> length (goals ?L)"
    using arg_cong [OF ids, of length] by simp
  have run: "loop_running ?L"
    using Cons.prems(2,3) by (cases ev) (auto simp: add_goal_def loop_iteration_def split: option.split prod.split tool_run.split sum.split)
  have ih: "waiting n (fold (loop_step libs) evs ?L) \<le> waiting n ?L - length (filter is_iterate evs)"
      "take (length (goals ?L)) (map goal_id (goals (fold (loop_step libs) evs ?L))) = map goal_id (goals ?L)"
    using Cons.IH [of ?L] Cons.prems(1,3-5) run more by auto
  have "distinct (map goal_id (goals ?L))"
    using ih(2) Cons.prems(5) by (metis distinct_take fold_simps(2))
  then have "distinct (map goal_id (goals L))" using ids distinct_take by metis
  from waiting_step(3) [OF alive Cons.prems(2) _ Cons.prems(4) this] have "waiting n ?L \<le> waiting n L - (if is_iterate ev then 1 else 0)"
    using Cons.prems(3) by auto
  moreover have "take (length (goals L)) (map goal_id (goals (fold (loop_step libs) evs ?L))) = map goal_id (goals L)"
    using arg_cong [OF ih(2), of "take (length (goals L))"] ids more by (simp add: min_absorb1)
  ultimately show ?case using ih(1) by auto
qed simp

text \<open>C34: The loop starves no goal. As long as the loop is not stopped and no task panics or hangs, a goal at
  position \<open>i\<close> of the list is settled, completed or failed, after at most \<open>i + 1\<close> iterations, whatever goals are
  added meanwhile; each iteration takes the oldest active goal, and its priority plays no part.\<close>

theorem goal_loop_settles:
  assumes "loop_running L" "Stop_Loop \<notin> set evs" "loop_alive (fold (loop_step libs) evs L)"
    "distinct (map goal_id (goals (fold (loop_step libs) evs L)))"
    "i < length (goals L)" "i < length (filter is_iterate evs)"
  shows "\<exists>g \<in> set (goals (fold (loop_step libs) evs L)). goal_id g = goal_id (goals L ! i)
    \<and> goal_status g \<noteq> Goal_Active"
proof -
  let ?L = "fold (loop_step libs) evs L"
  have p: "waiting (Suc i) ?L \<le> waiting (Suc i) L - length (filter is_iterate evs)"
      "take (length (goals L)) (map goal_id (goals ?L)) = map goal_id (goals L)"
    using loop_progress [OF assms(3,1,2) _ assms(4), of "Suc i"] assms(5) by auto
  have "waiting (Suc i) L \<le> Suc i"
    unfolding waiting_def by (rule order_trans [OF length_filter_le]) simp
  then have "filter active (take (Suc i) (goals ?L)) = []" using p(1) assms(6) by (simp add: waiting_def)
  moreover have len: "i < length (goals ?L)" using arg_cong [OF p(2), of length] assms(5) by simp
  moreover have "goals ?L ! i \<in> set (take (Suc i) (goals ?L))"
    using len by (auto simp: in_set_conv_nth intro!: exI [of _ i])
  ultimately have settled: "\<not> active (goals ?L ! i)" by (auto simp: filter_empty_conv)
  have "goal_id (goals ?L ! i) = goal_id (goals L ! i)"
    using p(2) assms(5) len by (metis length_map nth_map nth_take)
  then show ?thesis using settled len by (auto simp: active_def intro!: bexI [of _ "goals ?L ! i"])
qed

text \<open>With the latch tripped every task is refused, and its goal failed.\<close>

lemma refused_iteration:
  assumes "loop_alive L" "loop_running L" "next_goal L = Some g"
    "is_tripped (emergency_stop (core (loop_agent L))) (ta_files te)"
  shows "\<exists>s. loop_iteration libs te L = L\<lparr>loop_agent := s, goals := set_status (goal_id g) Goal_Failed (goals L)\<rparr>"
proof -
  obtain e s where "run_task libs te (goal_description g) (loop_agent L) = (Gives (Inl e), s)"
    using assms(4) by (simp add: run_task_def run_task_start_def check_latch_def Let_def)
  then show ?thesis using assms(1-3) by (auto simp: loop_iteration_def)
qed

theorem goal_loop_settles_witness:
  "let L = start_loop (add_goal ''g1'' ''look'' 1 0 (loop_new demo_state));
       L' = fold (loop_step demo_task_libs)
              [Add_Goal ''g2'' ''urgent'' 9 1, Iterate (demo_task_env (\<lambda>p. Some ''halt'') ws_os)] L
   in \<exists>g. g \<in> set (goals L') \<and> goal_id g = ''g1'' \<and> goal_status g \<noteq> Goal_Active"
proof -
  let ?te = "demo_task_env (\<lambda>p. Some ''halt'') ws_os"
  define L where "L = start_loop (add_goal ''g1'' ''look'' 1 0 (loop_new demo_state))"
  define M where "M = add_goal ''g2'' ''urgent'' 9 1 L"
  have M: "loop_alive M" "loop_running M" "map goal_id (goals M) = [''g1'', ''g2'']" "loop_agent M = demo_state"
      "\<exists>g. next_goal M = Some g"
    by (simp_all add: M_def L_def start_loop_def add_goal_def loop_new_def next_goal_def)
  have trip: "is_tripped (emergency_stop (core (loop_agent M))) (ta_files ?te)"
    using M(4) by (simp add: demo_task_env_def demo_agent_def is_tripped_def)
  obtain g where g: "next_goal M = Some g" using M(5) by blast
  obtain s where it: "loop_iteration demo_task_libs ?te M
      = M\<lparr>loop_agent := s, goals := set_status (goal_id g) Goal_Failed (goals M)\<rparr>"
    using refused_iteration [OF M(1,2) g trip] by blast
  have fold_eq: "fold (loop_step demo_task_libs) [Add_Goal ''g2'' ''urgent'' 9 1, Iterate ?te] L
      = loop_iteration demo_task_libs ?te M"
    by (simp add: M_def)
  have "loop_running L" "0 < length (goals L)" "goal_id (goals L ! 0) = ''g1''"
    by (simp_all add: L_def start_loop_def add_goal_def loop_new_def)
  moreover have "loop_alive (loop_iteration demo_task_libs ?te M)"
      "distinct (map goal_id (goals (loop_iteration demo_task_libs ?te M)))"
    using M by (simp_all add: it set_status_ids)
  ultimately show ?thesis
    using goal_loop_settles [of L "[Add_Goal ''g2'' ''urgent'' 9 1, Iterate ?te]" demo_task_libs 0]
    unfolding L_def [symmetric] Let_def fold_eq by auto
qed

text \<open>The priority of a goal plays no part in the choice.\<close>

lemma priority_ignored:
  "map_option goal_id (next_goal (L\<lparr>goals := map (\<lambda>g. g\<lparr>goal_priority := f g\<rparr>) (goals L)\<rparr>))
    = map_option goal_id (next_goal L)"
proof -
  have "map_option goal_id (find (\<lambda>g. goal_status g = Goal_Active) (map (\<lambda>g. g\<lparr>goal_priority := f g\<rparr>) gs))
      = map_option goal_id (find (\<lambda>g. goal_status g = Goal_Active) gs)" for gs :: "Goal list"
    by (induction gs) auto
  then show ?thesis by (simp add: next_goal_def)
qed

end
