(* ===== verification/Journal.thy ===== *)
theory Journal
  imports Prelude
begin

text \<open>
  The memory-mapped journal of \<open>soul_journal/src/lib.rs\<close>: a segment of bytes, a write offset, and
  records \<open>tag, size, payload\<close> padded to four bytes.

  Two models share the data: the operations run alone (\<open>append_log\<close>, \<open>read_committed\<close>), and the
  publication protocol of concurrent writers as a step relation, in which every atomic action
  (load of the offset, compare-exchange, the two copies, the store of the size) is one step and
  readers may run between any two. The interleaving is sequentially consistent; the
  release store of the size and the acquire load of the readers are what lets the code rely on
  that order. The file behind the mapping is a parameter: its previous content.

  Offsets are natural numbers: a mapping is shorter than \<open>2^63\<close> bytes and a payload shorter than
  \<open>2^32\<close>, so the \<open>usize\<close> sums of the code cannot wrap.
\<close>

unbundle bit_operations_syntax

section \<open>Bytes in memory\<close>

type_synonym memory = "nat \<Rightarrow> u8"

definition read_bytes :: "memory \<Rightarrow> nat \<Rightarrow> nat \<Rightarrow> u8 list" where
  "read_bytes m off n = map m [off..<off + n]"

definition write_bytes :: "memory \<Rightarrow> nat \<Rightarrow> u8 list \<Rightarrow> memory" where
  "write_bytes m off bs = (\<lambda>i. if off \<le> i \<and> i < off + length bs then bs ! (i - off) else m i)"

lemma read_bytes_length [simp]: "length (read_bytes m off n) = n"
  by (simp add: read_bytes_def)

lemma read_write_same: "length bs = n \<Longrightarrow> read_bytes (write_bytes m off bs) off n = bs"
  by (rule nth_equalityI) (auto simp: read_bytes_def write_bytes_def)

lemma read_write_other:
  "off + n \<le> off' \<or> off' + length bs \<le> off \<Longrightarrow>
   read_bytes (write_bytes m off' bs) off n = read_bytes m off n"
  by (auto simp: read_bytes_def write_bytes_def)

lemma read_bytes_cong:
  "(\<And>i. off \<le> i \<Longrightarrow> i < off + n \<Longrightarrow> m i = m' i) \<Longrightarrow> read_bytes m off n = read_bytes m' off n"
  by (simp add: read_bytes_def)

section \<open>The journal\<close>

definition JOURNAL_SIZE :: nat where
  "JOURNAL_SIZE = 1024 * 1024 * 64"

definition padded_len :: "nat \<Rightarrow> nat" where
  "padded_len payload_size = (8 + payload_size + 3) div 4 * 4"

text \<open>The source masks with \<open>!3\<close>; on \<open>usize\<close> the two agree.\<close>

lemma padded_len_word:
  fixes payload_size :: usize
  assumes "unat payload_size < 2 ^ 32"
  shows "unat ((8 + payload_size + 3) AND NOT 3) = padded_len (unat payload_size)"
proof -
  let ?x = "8 + payload_size + 3"
  have "x AND NOT (mask 2) = push_bit 2 (drop_bit 2 x)" for x :: usize
    by (rule bit_word_eqI) (auto simp: bit_simps not_less dest!: le_Suc_ex)
  from this [of ?x] have "?x AND NOT 3 = push_bit 2 (drop_bit 2 ?x)"
    by (simp add: mask_eq_exp_minus_1)
  moreover have "unat ?x div 4 * 4 < 2 ^ 64"
    using unsigned_less [of ?x, where 'a = nat] by simp
  then have "unat (push_bit 2 (drop_bit 2 ?x)) = unat ?x div 4 * 4"
    by (simp add: push_bit_eq_mult drop_bit_eq_div unat_word_ariths unat_div_distrib)
  moreover have "unat ?x = 8 + unat payload_size + 3"
    using assms by (simp add: unat_word_ariths)
  ultimately show ?thesis by (simp add: padded_len_def)
qed

record MmapJournal =
  mmap :: memory
  write_offset :: nat
  jsize :: nat

text \<open>Opening: the previous bytes of the file, zero beyond its old length, or an error.\<close>

datatype open_answer = Open_Fails string | Opened memory

definition journal_new_with_size :: "open_answer \<Rightarrow> nat \<Rightarrow> string + MmapJournal" where
  "journal_new_with_size file sz =
     (case file of
        Open_Fails e \<Rightarrow> Inl e
      | Opened m \<Rightarrow> Inr \<lparr>mmap = m, write_offset = 0, jsize = max sz 8\<rparr>)"

definition journal_new :: "open_answer \<Rightarrow> string + MmapJournal" where
  "journal_new file = journal_new_with_size file JOURNAL_SIZE"

definition valid_payload :: "u8 list \<Rightarrow> bool" where
  "valid_payload data \<longleftrightarrow> \<not> (length data = 0 \<or> length data > 4294967295)"

text \<open>The three writes of a record, in the order of the source.\<close>

definition write_tag :: "nat \<Rightarrow> u32 \<Rightarrow> memory \<Rightarrow> memory" where
  "write_tag base tag m = write_bytes m base (le_bytes 4 (unat tag))"

definition write_payload :: "nat \<Rightarrow> u8 list \<Rightarrow> memory \<Rightarrow> memory" where
  "write_payload base data m = write_bytes m (base + 8) data"

definition publish_size :: "nat \<Rightarrow> u8 list \<Rightarrow> memory \<Rightarrow> memory" where
  "publish_size base data m = write_bytes m (base + 4) (le_bytes 4 (length data))"

definition append_log :: "u32 \<Rightarrow> u8 list \<Rightarrow> MmapJournal \<Rightarrow> bool \<times> MmapJournal" where
  "append_log tag data j =
     (if \<not> valid_payload data then (False, j)
      else let need = padded_len (length data); current_offset = write_offset j in
      if current_offset + need \<ge> jsize j then (False, j)
      else (True,
        j\<lparr>write_offset := current_offset + need,
          mmap := publish_size current_offset data
                    (write_payload current_offset data (write_tag current_offset tag (mmap j)))\<rparr>))"

function read_from :: "memory \<Rightarrow> nat \<Rightarrow> nat \<Rightarrow> (u32 \<times> u8 list) list" where
  "read_from m n off =
     (if off + 8 > n then []
      else let sz = le_nat (read_bytes m (off + 4) 4) in
        if sz = 0 then []
        else if off + 8 + sz > n then []
        else (of_nat (le_nat (read_bytes m off 4)), read_bytes m (off + 8) sz)
             # read_from m n (off + padded_len sz))"
  by pat_completeness auto
termination
  by (relation "measure (\<lambda>(m, n, off). n - off)") (auto simp: padded_len_def)

declare read_from.simps [simp del]

definition read_committed :: "MmapJournal \<Rightarrow> (u32 \<times> u8 list) list" where
  "read_committed j = read_from (mmap j) (jsize j) 0"

definition written_len :: "MmapJournal \<Rightarrow> nat" where
  "written_len j = write_offset j"

text \<open>\<open>sync\<close>: nothing to do on an empty journal, otherwise the answer of flushing the prefix.\<close>

definition journal_sync :: "(nat \<Rightarrow> nat \<Rightarrow> bool) \<Rightarrow> MmapJournal \<Rightarrow> bool" where
  "journal_sync flush_range j = (write_offset j = 0 \<or> flush_range 0 (write_offset j))"

section \<open>The publication protocol\<close>

text \<open>Where a writer of \<open>append_log\<close> is: before the load of the offset, between the load and the
  compare-exchange, then owning a slot whose tag, payload and size it writes one after the
  other, and finally returned.\<close>

datatype phase = Claimed | Tagged | Filled | Published

datatype writer =
    Idle
  | Loading u32 "u8 list"
  | Loaded u32 "u8 list" nat
  | Writing phase u32 "u8 list" nat
  | Done bool

text \<open>A slot is what a successful compare-exchange reserves. The list of slots, in the order of their
  offsets, is a history variable: no step reads it.\<close>

record slot =
  sl_off :: nat
  sl_tag :: u32
  sl_data :: "u8 list"
  sl_phase :: phase

record jsys =
  jmem :: memory
  joff :: nat
  slots :: "slot list"
  writers :: "nat \<Rightarrow> writer"

definition set_phase :: "nat \<Rightarrow> phase \<Rightarrow> slot list \<Rightarrow> slot list" where
  "set_phase off ph = map (\<lambda>s. if sl_off s = off then s\<lparr>sl_phase := ph\<rparr> else s)"

text \<open>The mapping's size \<open>n\<close> never changes.\<close>

inductive jstep :: "nat \<Rightarrow> jsys \<Rightarrow> jsys \<Rightarrow> bool" for n where
  call: "writers s t = Idle \<or> writers s t = Done b \<Longrightarrow>
     jstep n s (s\<lparr>writers := (writers s)(t := if valid_payload data then Loading tag data else Done False)\<rparr>)"
| load: "writers s t = Loading tag data \<Longrightarrow>
     jstep n s (s\<lparr>writers := (writers s)(t :=
       if joff s + padded_len (length data) \<ge> n then Done False else Loaded tag data (joff s))\<rparr>)"
| cas_ok: "writers s t = Loaded tag data off \<Longrightarrow> joff s = off \<Longrightarrow>
     jstep n s (s\<lparr>joff := off + padded_len (length data),
       slots := slots s @ [\<lparr>sl_off = off, sl_tag = tag, sl_data = data, sl_phase = Claimed\<rparr>],
       writers := (writers s)(t := Writing Claimed tag data off)\<rparr>)"
| cas_fail: "writers s t = Loaded tag data off \<Longrightarrow>
     jstep n s (s\<lparr>writers := (writers s)(t := Loading tag data)\<rparr>)"
| put_tag: "writers s t = Writing Claimed tag data off \<Longrightarrow>
     jstep n s (s\<lparr>jmem := write_tag off tag (jmem s), slots := set_phase off Tagged (slots s),
       writers := (writers s)(t := Writing Tagged tag data off)\<rparr>)"
| put_payload: "writers s t = Writing Tagged tag data off \<Longrightarrow>
     jstep n s (s\<lparr>jmem := write_payload off data (jmem s), slots := set_phase off Filled (slots s),
       writers := (writers s)(t := Writing Filled tag data off)\<rparr>)"
| put_size: "writers s t = Writing Filled tag data off \<Longrightarrow>
     jstep n s (s\<lparr>jmem := publish_size off data (jmem s), slots := set_phase off Published (slots s),
       writers := (writers s)(t := Done True)\<rparr>)"

text \<open>The states reached from an opened journal \<open>j\<close> (of whatever contents), and the journal a reader
  sees in one of them.\<close>

definition jsys_open :: "MmapJournal \<Rightarrow> jsys" where
  "jsys_open j = \<lparr>jmem = mmap j, joff = write_offset j, slots = [], writers = (\<lambda>_. Idle)\<rparr>"

inductive jreach :: "MmapJournal \<Rightarrow> jsys \<Rightarrow> bool" for j where
  start: "jreach j (jsys_open j)"
| step: "jreach j s \<Longrightarrow> jstep (jsize j) s s' \<Longrightarrow> jreach j s'"

definition journal_at :: "MmapJournal \<Rightarrow> jsys \<Rightarrow> MmapJournal" where
  "journal_at j s = \<lparr>mmap = jmem s, write_offset = joff s, jsize = jsize j\<rparr>"

text \<open>A new segment: the file did not exist, or held nothing but zero bytes.\<close>

definition new_segment :: "MmapJournal \<Rightarrow> bool" where
  "new_segment j \<longleftrightarrow> (\<exists>sz. journal_new_with_size (Opened (\<lambda>_. 0)) sz = Inr j)"

section \<open>The invariant of the slots\<close>

definition slot_end :: "slot \<Rightarrow> nat" where
  "slot_end s = sl_off s + padded_len (length (sl_data s))"

text \<open>The slots lie one behind the other from \<open>off\<close> to \<open>fin\<close>.\<close>

fun contiguous :: "nat \<Rightarrow> slot list \<Rightarrow> nat \<Rightarrow> bool" where
  "contiguous off [] fin \<longleftrightarrow> off = fin"
| "contiguous off (s # ss) fin \<longleftrightarrow> sl_off s = off \<and> contiguous (slot_end s) ss fin"

text \<open>What is in the memory of a slot, depending on how far its writer is.\<close>

definition slot_ok :: "memory \<Rightarrow> slot \<Rightarrow> bool" where
  "slot_ok m s \<longleftrightarrow>
     valid_payload (sl_data s) \<and>
     (sl_phase s \<noteq> Claimed \<longrightarrow> read_bytes m (sl_off s) 4 = le_bytes 4 (unat (sl_tag s))) \<and>
     (sl_phase s = Filled \<or> sl_phase s = Published \<longrightarrow>
        read_bytes m (sl_off s + 8) (length (sl_data s)) = sl_data s) \<and>
     read_bytes m (sl_off s + 4) 4 =
        (if sl_phase s = Published then le_bytes 4 (length (sl_data s)) else replicate 4 0)"

definition slots_inv :: "memory \<Rightarrow> nat \<Rightarrow> nat \<Rightarrow> slot list \<Rightarrow> bool" where
  "slots_inv m fin n ss \<longleftrightarrow>
     contiguous 0 ss fin \<and> (\<forall>s \<in> set ss. slot_ok m s) \<and> (\<forall>i \<ge> fin. m i = 0) \<and> (fin = 0 \<or> fin < n)"

lemma padded_len_bounds: "8 + k \<le> padded_len k" "padded_len k \<le> 11 + k"
  by (simp_all add: padded_len_def)

lemma contiguous_snoc:
  "contiguous off (ss @ [s]) fin \<longleftrightarrow> (\<exists>mid. contiguous off ss mid \<and> sl_off s = mid \<and> slot_end s = fin)"
  by (induction ss arbitrary: off) auto

lemma slot_end_gt: "sl_off s < slot_end s"
  by (simp add: slot_end_def padded_len_def)

lemma contiguous_le: "contiguous off ss fin \<Longrightarrow> off \<le> fin"
proof (induction ss arbitrary: off)
  case (Cons a ss)
  then have "slot_end a \<le> fin" by simp
  with Cons.prems slot_end_gt [of a] show ?case by simp
qed simp

lemma contiguous_bounds:
  "contiguous off ss fin \<Longrightarrow> s \<in> set ss \<Longrightarrow> off \<le> sl_off s \<and> slot_end s \<le> fin"
proof (induction ss arbitrary: off)
  case (Cons a ss)
  show ?case
  proof (cases "s = a")
    case True
    with Cons.prems contiguous_le show ?thesis by auto
  next
    case False
    with Cons have "slot_end a \<le> sl_off s \<and> slot_end s \<le> fin" by auto
    with Cons.prems slot_end_gt [of a] show ?thesis by auto
  qed
qed simp

lemma contiguous_disjoint:
  "contiguous off ss fin \<Longrightarrow> x \<in> set ss \<Longrightarrow> y \<in> set ss \<Longrightarrow> x \<noteq> y \<Longrightarrow>
   slot_end x \<le> sl_off y \<or> slot_end y \<le> sl_off x"
proof (induction ss arbitrary: off)
  case (Cons a ss)
  then show ?case using contiguous_bounds [of "slot_end a" ss fin] by auto
qed simp

lemma contiguous_inj:
  "contiguous off ss fin \<Longrightarrow> x \<in> set ss \<Longrightarrow> y \<in> set ss \<Longrightarrow> sl_off x = sl_off y \<Longrightarrow> x = y"
  using contiguous_disjoint [of off ss fin x y] slot_end_gt [of x] slot_end_gt [of y] by fastforce

lemma contiguous_set_phase: "contiguous off (set_phase o' ph ss) fin = contiguous off ss fin"
  by (induction ss arbitrary: off) (auto simp: set_phase_def slot_end_def)

lemma set_phase_iff:
  assumes "contiguous 0 ss fin" "x \<in> set ss" "sl_off x = off"
  shows "y \<in> set (set_phase off ph ss) \<longleftrightarrow> y = x\<lparr>sl_phase := ph\<rparr> \<or> (y \<in> set ss \<and> y \<noteq> x)"
proof -
  have "(\<lambda>s. if sl_off s = off then s\<lparr>sl_phase := ph\<rparr> else s) z =
      (if z = x then x\<lparr>sl_phase := ph\<rparr> else z)" if "z \<in> set ss" for z
  proof (cases "z = x")
    case False
    then have "sl_off z \<noteq> off" using contiguous_inj [OF assms(1) that assms(2)] assms(3) by metis
    with False show ?thesis by simp
  qed (use assms(3) in simp)
  then have "set (set_phase off ph ss) = (\<lambda>z. if z = x then x\<lparr>sl_phase := ph\<rparr> else z) ` set ss"
    unfolding set_phase_def set_map by (rule image_cong [OF refl])
  then show ?thesis using assms(2) by auto
qed

lemma slot_ok_cong:
  assumes "\<And>i. sl_off s \<le> i \<Longrightarrow> i < slot_end s \<Longrightarrow> m i = m' i"
  shows "slot_ok m s = slot_ok m' s"
proof -
  have *: "read_bytes m o' k = read_bytes m' o' k" if "sl_off s \<le> o'" "o' + k \<le> slot_end s" for o' k
    using that assms by (intro read_bytes_cong) auto
  have "read_bytes m (sl_off s) 4 = read_bytes m' (sl_off s) 4"
    "read_bytes m (sl_off s + 4) 4 = read_bytes m' (sl_off s + 4) 4"
    "read_bytes m (sl_off s + 8) (length (sl_data s)) = read_bytes m' (sl_off s + 8) (length (sl_data s))"
    using padded_len_bounds [of "length (sl_data s)"] by (intro *; simp add: slot_end_def)+
  then show ?thesis by (simp add: slot_ok_def)
qed

text \<open>A write inside one slot, with the slot's new phase, keeps the whole layout.\<close>

lemma slots_inv_phase:
  assumes inv: "slots_inv m fin n ss" and x: "x \<in> set ss"
    and outside: "\<And>i. i < sl_off x \<or> slot_end x \<le> i \<Longrightarrow> m' i = m i"
    and ok: "slot_ok m' (x\<lparr>sl_phase := ph\<rparr>)"
  shows "slots_inv m' fin n (set_phase (sl_off x) ph ss)"
proof -
  have c: "contiguous 0 ss fin" using inv by (simp add: slots_inv_def)
  have "slot_ok m' y" if "y \<in> set (set_phase (sl_off x) ph ss)" for y
  proof (cases "y = x\<lparr>sl_phase := ph\<rparr>")
    case False
    with that have y: "y \<in> set ss" "y \<noteq> x" using set_phase_iff [OF c x refl] by auto
    then have "slot_ok m y" using inv by (auto simp: slots_inv_def)
    moreover have "slot_ok m y = slot_ok m' y"
      using contiguous_disjoint [OF c x y(1)] y(2) outside by (intro slot_ok_cong) force
    ultimately show ?thesis by simp
  qed (use ok in simp)
  moreover have "m' i = 0" if "fin \<le> i" for i
    using that outside [of i] contiguous_bounds [OF c x] inv by (auto simp: slots_inv_def)
  ultimately show ?thesis using inv by (simp add: slots_inv_def contiguous_set_phase)
qed

lemma slots_inv_claim:
  assumes inv: "slots_inv m fin n ss" and "valid_payload data"
    and "fin + padded_len (length data) < n"
  shows "slots_inv m (fin + padded_len (length data)) n
           (ss @ [\<lparr>sl_off = fin, sl_tag = tag, sl_data = data, sl_phase = Claimed\<rparr>])"
proof -
  have "read_bytes m (fin + 4) 4 = replicate 4 0"
    using inv by (auto simp: slots_inv_def read_bytes_def list_eq_iff_nth_eq)
  with assms show ?thesis
    by (auto simp: slots_inv_def contiguous_snoc slot_end_def slot_ok_def)
qed

section \<open>What a reader sees\<close>

definition slot_record :: "slot \<Rightarrow> u32 \<times> u8 list" where
  "slot_record s = (sl_tag s, sl_data s)"

definition is_published :: "slot \<Rightarrow> bool" where
  "is_published s \<longleftrightarrow> sl_phase s = Published"

lemma le_nat_zeros: "le_nat (replicate k 0) = 0"
  by (induction k) auto

lemma read_from_slots:
  assumes "contiguous off ss fin" "\<forall>s \<in> set ss. slot_ok m s" "\<forall>i \<ge> fin. m i = 0" "fin = 0 \<or> fin < n"
  shows "read_from m n off = map slot_record (takeWhile is_published ss)"
  using assms(1,2)
proof (induction ss arbitrary: off)
  case Nil
  then have "read_bytes m (off + 4) 4 = replicate 4 0"
    using assms(3) by (auto simp: read_bytes_def list_eq_iff_nth_eq)
  then have "le_nat (read_bytes m (off + 4) 4) = 0" using le_nat_zeros by presburger
  then show ?case by (simp add: read_from.simps)
next
  case (Cons s ss)
  let ?k = "length (sl_data s)"
  have ok: "slot_ok m s" and off: "sl_off s = off" and rest: "contiguous (slot_end s) ss fin"
    using Cons.prems by auto
  have k: "0 < ?k" "?k < 256 ^ 4" using ok by (auto simp: slot_ok_def valid_payload_def)
  have "slot_end s \<le> fin" using rest by (rule contiguous_le)
  then have fit: "off + padded_len ?k \<le> fin" using off by (simp add: slot_end_def)
  have "fin \<noteq> 0" using fit k by (auto simp: padded_len_def)
  then have lim: "off + padded_len ?k < n" using assms(4) fit by auto
  show ?case
  proof (cases "is_published s")
    case True
    then have sz: "le_nat (read_bytes m (off + 4) 4) = ?k"
      and tg: "read_bytes m off 4 = le_bytes 4 (unat (sl_tag s))"
      and dt: "read_bytes m (off + 8) ?k = sl_data s"
      using ok off le_nat_bytes_id [OF k(2)] by (auto simp: slot_ok_def is_published_def simp del: le_bytes.simps)
    have "unat (sl_tag s) < 256 ^ 4" using unsigned_less [of "sl_tag s", where 'a = nat] by simp
    then have tg': "of_nat (le_nat (read_bytes m off 4)) = sl_tag s"
      unfolding tg by (simp del: le_bytes.simps)
    have "read_from m n off = (sl_tag s, sl_data s) # read_from m n (off + padded_len ?k)"
      using sz tg' dt k lim padded_len_bounds [of ?k] by (subst read_from.simps) (simp add: Let_def)
    moreover have "read_from m n (off + padded_len ?k) = map slot_record (takeWhile is_published ss)"
      using Cons.IH [of "slot_end s"] rest Cons.prems(2) off by (simp add: slot_end_def)
    ultimately show ?thesis using True by (simp add: slot_record_def)
  next
    case False
    then have "le_nat (read_bytes m (off + 4) 4) = 0"
      using ok off le_nat_zeros [of 4] by (auto simp: slot_ok_def is_published_def)
    then show ?thesis using False by (simp add: read_from.simps)
  qed
qed

lemma read_slots_inv:
  "slots_inv m fin n ss \<Longrightarrow> read_from m n 0 = map slot_record (takeWhile is_published ss)"
  unfolding slots_inv_def using read_from_slots [of 0 ss fin m n] by simp

section \<open>The invariant of the writers\<close>

definition own_slot :: "phase \<Rightarrow> u32 \<Rightarrow> u8 list \<Rightarrow> nat \<Rightarrow> slot" where
  "own_slot ph tag data off = \<lparr>sl_off = off, sl_tag = tag, sl_data = data, sl_phase = ph\<rparr>"

lemma own_slot_sel [simp]:
  "sl_off (own_slot ph tag data off) = off" "sl_tag (own_slot ph tag data off) = tag"
  "sl_data (own_slot ph tag data off) = data" "sl_phase (own_slot ph tag data off) = ph"
  "(own_slot ph tag data off)\<lparr>sl_phase := ph'\<rparr> = own_slot ph' tag data off"
  by (simp_all add: own_slot_def)

lemma own_slot_inject [simp]:
  "own_slot ph tag data off = own_slot ph' tag' data' off' \<longleftrightarrow>
     ph = ph' \<and> tag = tag' \<and> data = data' \<and> off = off'"
  by (auto simp: own_slot_def)

text \<open>A writer that owns a slot is exactly as far as the slot says, no two own the same one, and
  every slot that is not published has its writer.\<close>

fun writer_ok :: "nat \<Rightarrow> slot list \<Rightarrow> writer \<Rightarrow> bool" where
  "writer_ok n ss (Loading tag data) \<longleftrightarrow> valid_payload data"
| "writer_ok n ss (Loaded tag data off) \<longleftrightarrow> valid_payload data \<and> off + padded_len (length data) < n"
| "writer_ok n ss (Writing ph tag data off) \<longleftrightarrow> ph \<noteq> Published \<and> own_slot ph tag data off \<in> set ss"
| "writer_ok n ss w \<longleftrightarrow> True"

definition owner_of :: "slot \<Rightarrow> writer" where
  "owner_of s = Writing (sl_phase s) (sl_tag s) (sl_data s) (sl_off s)"

definition writers_inv :: "nat \<Rightarrow> slot list \<Rightarrow> (nat \<Rightarrow> writer) \<Rightarrow> bool" where
  "writers_inv n ss w \<longleftrightarrow>
     (\<forall>t. writer_ok n ss (w t)) \<and>
     (\<forall>t u ph tag data ph' tag' data' off.
        w t = Writing ph tag data off \<and> w u = Writing ph' tag' data' off \<longrightarrow> t = u) \<and>
     (\<forall>s \<in> set ss. \<not> is_published s \<longrightarrow> (\<exists>t. w t = owner_of s))"

definition jinv :: "nat \<Rightarrow> jsys \<Rightarrow> bool" where
  "jinv n s \<longleftrightarrow> slots_inv (jmem s) (joff s) n (slots s) \<and> writers_inv n (slots s) (writers s)"

text \<open>A writer that owns no slot may change to another that owns none.\<close>

fun owns :: "writer \<Rightarrow> bool" where
  "owns (Writing ph tag data off) \<longleftrightarrow> True"
| "owns w \<longleftrightarrow> False"

lemma writers_inv_free:
  assumes "writers_inv n ss w" "\<not> owns (w t)" "\<not> owns v" "writer_ok n ss v"
  shows "writers_inv n ss (w(t := v))"
proof -
  have "(w(t := v)) u = Writing ph tag data off \<longleftrightarrow> w u = Writing ph tag data off" for u ph tag data off
    using assms(2,3) by auto
  with assms(1,4) show ?thesis by (auto simp: writers_inv_def owner_of_def)
qed

lemma writers_inv_claim:
  assumes inv: "writers_inv n ss w" and c: "contiguous 0 ss off" and t: "w t = Loaded tag data off"
  shows "writers_inv n (ss @ [own_slot Claimed tag data off]) (w(t := Writing Claimed tag data off))"
proof -
  have no: "w u \<noteq> Writing ph tag' data' off" for u ph tag' data'
  proof
    assume "w u = Writing ph tag' data' off"
    then have "own_slot ph tag' data' off \<in> set ss" using inv unfolding writers_inv_def by (metis writer_ok.simps(3))
    from contiguous_bounds [OF c this] slot_end_gt [of "own_slot ph tag' data' off"] show False by simp
  qed
  have ok: "writer_ok n (ss @ [own_slot Claimed tag data off]) ((w(t := Writing Claimed tag data off)) u)" for u
  proof -
    have "writer_ok n ss (w u)" using inv by (simp add: writers_inv_def)
    then show ?thesis by (cases "w u") auto
  qed
  have "\<exists>u. (w(t := Writing Claimed tag data off)) u = owner_of s"
    if s: "s \<in> set (ss @ [own_slot Claimed tag data off])" "\<not> is_published s" for s
  proof (cases "s = own_slot Claimed tag data off")
    case True
    then show ?thesis by (auto simp: owner_of_def)
  next
    case False
    with s inv obtain u where "w u = owner_of s" by (auto simp: writers_inv_def)
    moreover from this t have "u \<noteq> t" by (auto simp: owner_of_def)
    ultimately show ?thesis by auto
  qed
  with ok show ?thesis using inv no t unfolding writers_inv_def by auto
qed

lemma writers_inv_advance:
  assumes inv: "writers_inv n ss w" and c: "contiguous 0 ss fin"
    and t: "w t = Writing ph tag data off"
    and v: "v = Writing ph' tag data off \<and> ph' \<noteq> Published \<or> v = Done True \<and> ph' = Published"
  shows "writers_inv n (set_phase off ph' ss) (w(t := v))"
proof -
  let ?x = "own_slot ph tag data off" and ?w = "w(t := v)"
  have x: "?x \<in> set ss" using inv t unfolding writers_inv_def by (metis writer_ok.simps(3))
  note iff = set_phase_iff [OF c x own_slot_sel(1), where ph = ph']
  have uniq: "u = t" if "w u = Writing ph1 tag1 data1 off" for u ph1 tag1 data1
    using inv t that unfolding writers_inv_def by blast
  have ok: "writer_ok n (set_phase off ph' ss) (?w u)" for u
  proof (cases "u = t")
    case True
    with v iff show ?thesis by auto
  next
    case False
    have "writer_ok n ss (w u)" using inv by (simp add: writers_inv_def)
    then show ?thesis using False uniq iff by (cases "w u") auto
  qed
  have "\<exists>u. ?w u = owner_of s" if s: "s \<in> set (set_phase off ph' ss)" "\<not> is_published s" for s
  proof (cases "s = own_slot ph' tag data off")
    case True
    with s(2) v show ?thesis by (auto simp: owner_of_def is_published_def)
  next
    case False
    with s(1) iff have "s \<in> set ss" "s \<noteq> ?x" by auto
    with s(2) inv obtain u where u: "w u = owner_of s" by (auto simp: writers_inv_def)
    have "u \<noteq> t"
    proof
      assume "u = t"
      with u t have "sl_off s = off" by (simp add: owner_of_def)
      then show False using contiguous_inj [OF c \<open>s \<in> set ss\<close> x] \<open>s \<noteq> ?x\<close> by simp
    qed
    with u show ?thesis by auto
  qed
  moreover have "a = b" if "?w a = Writing p1 t1 d1 o1" "?w b = Writing p2 t2 d2 o1" for a b p1 t1 d1 p2 t2 d2 o1
    using that v uniq inv unfolding writers_inv_def by (auto split: if_splits)
  ultimately show ?thesis using ok unfolding writers_inv_def by blast
qed

lemma write_bytes_outside: "i < off \<or> off + length bs \<le> i \<Longrightarrow> write_bytes m off bs i = m i"
  by (auto simp: write_bytes_def)

lemma jinv_advance:
  assumes inv: "jinv n s" and t: "writers s t = Writing ph tag data off"
    and v: "v = Writing ph' tag data off \<and> ph' \<noteq> Published \<or> v = Done True \<and> ph' = Published"
    and outside: "\<And>i. i < off \<or> off + padded_len (length data) \<le> i \<Longrightarrow> m' i = jmem s i"
    and ok: "slot_ok (jmem s) (own_slot ph tag data off) \<Longrightarrow> slot_ok m' (own_slot ph' tag data off)"
  shows "jinv n (s\<lparr>jmem := m', slots := set_phase off ph' (slots s), writers := (writers s)(t := v)\<rparr>)"
proof -
  let ?x = "own_slot ph tag data off"
  have si: "slots_inv (jmem s) (joff s) n (slots s)" and wi: "writers_inv n (slots s) (writers s)"
    using inv by (simp_all add: jinv_def)
  have x: "?x \<in> set (slots s)" using wi t unfolding writers_inv_def by (metis writer_ok.simps(3))
  have c: "contiguous 0 (slots s) (joff s)" and okx: "slot_ok (jmem s) ?x"
    using si x by (auto simp: slots_inv_def)
  have "slots_inv m' (joff s) n (set_phase (sl_off ?x) ph' (slots s))"
    using outside ok [OF okx] by (intro slots_inv_phase [OF si x]) (auto simp: slot_end_def)
  then show ?thesis using writers_inv_advance [OF wi c t v] by (simp add: jinv_def)
qed

lemma jinv_open: "new_segment j \<Longrightarrow> jinv (jsize j) (jsys_open j)"
  by (auto simp: new_segment_def journal_new_with_size_def jinv_def jsys_open_def slots_inv_def
      writers_inv_def)

text \<open>The three writes keep what the slot promises.\<close>

lemma slot_ok_tag:
  "slot_ok m (own_slot Claimed tag data off) \<Longrightarrow>
   slot_ok (write_tag off tag m) (own_slot Tagged tag data off)"
  by (simp add: slot_ok_def write_tag_def read_write_same read_write_other del: le_bytes.simps)

lemma slot_ok_payload:
  "slot_ok m (own_slot Tagged tag data off) \<Longrightarrow>
   slot_ok (write_payload off data m) (own_slot Filled tag data off)"
  by (simp add: slot_ok_def write_payload_def read_write_same read_write_other del: le_bytes.simps)

lemma slot_ok_size:
  "slot_ok m (own_slot Filled tag data off) \<Longrightarrow>
   slot_ok (publish_size off data m) (own_slot Published tag data off)"
  by (simp add: slot_ok_def publish_size_def read_write_same read_write_other del: le_bytes.simps)

lemma writes_outside:
  assumes "i < off \<or> off + padded_len (length data) \<le> i"
  shows "write_tag off tag m i = m i" "write_payload off data m i = m i" "publish_size off data m i = m i"
  using assms padded_len_bounds [of "length data"]
  by (auto simp: write_tag_def write_payload_def publish_size_def write_bytes_outside
      simp del: le_bytes.simps)

lemma jinv_step: "jstep n s s' \<Longrightarrow> jinv n s \<Longrightarrow> jinv n s'"
proof (induction rule: jstep.induct)
  case (call s t b data tag)
  then have "\<not> owns (writers s t)" by auto
  with call show ?case by (auto simp: jinv_def intro!: writers_inv_free)
next
  case (load s t tag data)
  then have "valid_payload data" unfolding jinv_def writers_inv_def by (metis writer_ok.simps(1))
  with load show ?case by (auto simp: jinv_def intro!: writers_inv_free)
next
  case (cas_ok s t tag data off)
  then have *: "slots_inv (jmem s) off n (slots s)" "writers_inv n (slots s) (writers s)"
    by (auto simp: jinv_def)
  then have "valid_payload data" "off + padded_len (length data) < n"
    using cas_ok(1) unfolding writers_inv_def by (metis writer_ok.simps(2))+
  then have "slots_inv (jmem s) (off + padded_len (length data)) n
      (slots s @ [own_slot Claimed tag data off])"
    using slots_inv_claim [OF *(1)] by (simp add: own_slot_def)
  moreover have "contiguous 0 (slots s) off" using *(1) by (simp add: slots_inv_def)
  ultimately show ?case
    using writers_inv_claim [OF *(2) _ cas_ok(1)] cas_ok by (simp add: jinv_def own_slot_def)
next
  case (cas_fail s t tag data off)
  then have "valid_payload data" unfolding jinv_def writers_inv_def by (metis writer_ok.simps(2))
  with cas_fail show ?case by (auto simp: jinv_def intro!: writers_inv_free)
next
  case (put_tag s t tag data off)
  then show ?case by (auto intro!: jinv_advance slot_ok_tag simp: writes_outside)
next
  case (put_payload s t tag data off)
  then show ?case by (auto intro!: jinv_advance slot_ok_payload simp: writes_outside)
next
  case (put_size s t tag data off)
  then show ?case by (auto intro!: jinv_advance slot_ok_size simp: writes_outside)
qed

lemma jinv_reach: "jreach j s \<Longrightarrow> new_segment j \<Longrightarrow> jinv (jsize j) s"
  by (induction rule: jreach.induct) (auto intro: jinv_open jinv_step)

lemma takeWhile_map_prefix:
  assumes "list_all2 (\<lambda>x y. (P x \<longrightarrow> P y) \<and> f x = f y) xs ys"
  shows "prefix (map f (takeWhile P xs)) (map f (takeWhile P (ys @ zs)))"
  using assms by (induction rule: list_all2_induct) auto

text \<open>Steps only append slots and move phases forward.\<close>

lemma jstep_slots:
  assumes "jstep n s s'" "jinv n s"
  shows "\<exists>ss zs. slots s' = ss @ zs \<and>
           list_all2 (\<lambda>x y. (is_published x \<longrightarrow> is_published y) \<and> slot_record x = slot_record y) (slots s) ss"
proof -
  let ?R = "\<lambda>x y. (is_published x \<longrightarrow> is_published y) \<and> slot_record x = slot_record y"
  have refl: "list_all2 ?R xs xs" for xs by (simp add: list_all2_same)
  have same: ?thesis if "slots s' = slots s"
    using refl [of "slots s"] that by (intro exI [of _ "slots s"] exI [of _ "[]"]) simp
  have adv: "list_all2 ?R (slots s) (set_phase off ph' (slots s))"
    if t: "writers s t = Writing ph tag data off" for t ph tag data off ph'
  proof -
    have c: "contiguous 0 (slots s) (joff s)" and wi: "writers_inv n (slots s) (writers s)"
      using assms(2) by (auto simp: jinv_def slots_inv_def)
    have x: "own_slot ph tag data off \<in> set (slots s)" "ph \<noteq> Published"
      using wi t unfolding writers_inv_def by (metis writer_ok.simps(3))+
    have "\<not> is_published y" if "y \<in> set (slots s)" "sl_off y = off" for y
      using contiguous_inj [OF c that(1) x(1)] that(2) x(2) by (simp add: is_published_def)
    then show ?thesis
      by (auto simp: set_phase_def list_all2_map2 list_all2_same slot_record_def)
  qed
  from assms(1) show ?thesis
  proof cases
    case (cas_ok t tag data off)
    then show ?thesis using refl by auto
  next
    case (put_tag t tag data off)
    then show ?thesis using adv [OF put_tag(2)] by (intro exI [of _ "set_phase off Tagged (slots s)"] exI [of _ "[]"]) auto
  next
    case (put_payload t tag data off)
    then show ?thesis using adv [OF put_payload(2)] by (intro exI [of _ "set_phase off Filled (slots s)"] exI [of _ "[]"]) auto
  next
    case (put_size t tag data off)
    then show ?thesis using adv [OF put_size(2)] by (intro exI [of _ "set_phase off Published (slots s)"] exI [of _ "[]"]) auto
  qed (use same in simp_all)
qed

section \<open>Interface of an append-only record log\<close>

text \<open>What a client of a log relies on: an accepted record is appended to the contents, a refused one
  changes nothing, and both keep the log usable. Provided by one segment here and by the
  rotating journal in its own theory.\<close>

locale record_log =
  fixes append_rec :: "'r \<Rightarrow> 'l \<Rightarrow> bool \<times> 'l"
    and contents :: "'l \<Rightarrow> 'r list"
    and log_ok :: "'l \<Rightarrow> bool"
  assumes append_ok: "log_ok l \<Longrightarrow> log_ok (snd (append_rec r l))"
    and append_accepted: "log_ok l \<Longrightarrow> fst (append_rec r l) \<Longrightarrow> contents (snd (append_rec r l)) = contents l @ [r]"
    and append_refused: "log_ok l \<Longrightarrow> \<not> fst (append_rec r l) \<Longrightarrow> contents (snd (append_rec r l)) = contents l"
begin

fun append_all :: "'r list \<Rightarrow> 'l \<Rightarrow> 'l" where
  "append_all [] l = l"
| "append_all (r # rs) l = append_all rs (snd (append_rec r l))"

fun accepted :: "'r list \<Rightarrow> 'l \<Rightarrow> 'r list" where
  "accepted [] l = []"
| "accepted (r # rs) l =
     (if fst (append_rec r l) then [r] else []) @ accepted rs (snd (append_rec r l))"

lemma append_all_contents:
  "log_ok l \<Longrightarrow> contents (append_all rs l) = contents l @ accepted rs l \<and> log_ok (append_all rs l)"
  by (induction rs arbitrary: l) (auto simp: append_ok append_accepted append_refused)

end

definition journal_append :: "u32 \<times> u8 list \<Rightarrow> MmapJournal \<Rightarrow> bool \<times> MmapJournal" where
  "journal_append r j = append_log (fst r) (snd r) j"

definition journal_ok :: "MmapJournal \<Rightarrow> bool" where
  "journal_ok j \<longleftrightarrow> (\<exists>ss. slots_inv (mmap j) (write_offset j) (jsize j) ss \<and> list_all is_published ss)"

lemma journal_ok_new: "journal_new_with_size (Opened (\<lambda>_. 0)) sz = Inr j \<Longrightarrow> journal_ok j \<and> read_committed j = []"
proof -
  assume "journal_new_with_size (Opened (\<lambda>_. 0)) sz = Inr j"
  then have i: "slots_inv (mmap j) (write_offset j) (jsize j) []"
    by (auto simp: journal_new_with_size_def slots_inv_def)
  then show ?thesis using read_slots_inv [OF i] by (auto simp: journal_ok_def read_committed_def)
qed

lemma append_log_accepted:
  assumes "journal_ok j" "append_log tag data j = (True, j')"
  shows "journal_ok j' \<and> read_committed j' = read_committed j @ [(tag, data)]"
proof -
  from assms(1) obtain ss where ss: "slots_inv (mmap j) (write_offset j) (jsize j) ss" "list_all is_published ss"
    by (auto simp: journal_ok_def)
  let ?o = "write_offset j" and ?e = "write_offset j + padded_len (length data)"
  have v: "valid_payload data" "?e < jsize j" and j':
    "j' = j\<lparr>write_offset := ?e, mmap := publish_size ?o data (write_payload ?o data (write_tag ?o tag (mmap j)))\<rparr>"
    using assms(2) by (auto simp: append_log_def Let_def split: if_splits)
  let ?c = "own_slot Claimed tag data ?o" and ?p = "own_slot Published tag data ?o"
  have claim: "slots_inv (mmap j) ?e (jsize j) (ss @ [?c])"
    using slots_inv_claim [OF ss(1) v] by (simp add: own_slot_def)
  then have ok: "slot_ok (mmap j') ?p"
    unfolding j' by (auto simp: slots_inv_def intro!: slot_ok_size slot_ok_payload slot_ok_tag)
  have "slots_inv (mmap j') ?e (jsize j) (set_phase (sl_off ?c) Published (ss @ [?c]))"
    using ok by (intro slots_inv_phase [OF claim]) (auto simp: j' slot_end_def writes_outside)
  moreover have "set_phase ?o Published (ss @ [?c]) = ss @ [?p]"
  proof -
    have "s\<lparr>sl_phase := Published\<rparr> = s" if "s \<in> set ss" for s
      using ss(2) that by (simp add: list_all_iff is_published_def)
    then show ?thesis by (auto simp: set_phase_def intro: map_idI)
  qed
  ultimately have inv': "slots_inv (mmap j') ?e (jsize j) (ss @ [?p])" by simp
  have all: "list_all is_published (ss @ [?p])" using ss(2) by (simp add: is_published_def)
  have tw: "list_all is_published xs \<Longrightarrow> takeWhile is_published xs = xs" for xs
    by (simp add: list_all_iff)
  have "read_committed j' = map slot_record (ss @ [?p])" "read_committed j = map slot_record ss"
    using read_slots_inv [OF inv'] read_slots_inv [OF ss(1)] tw [OF all] tw [OF ss(2)]
    by (simp_all add: read_committed_def j')
  moreover have "write_offset j' = ?e" "jsize j' = jsize j" by (simp_all add: j')
  ultimately show ?thesis using inv' all unfolding journal_ok_def by (auto simp: slot_record_def)
qed

lemma append_log_refused: "append_log tag data j = (False, j') \<Longrightarrow> j' = j"
  by (auto simp: append_log_def Let_def split: if_splits)

interpretation jl: record_log journal_append read_committed journal_ok
proof
  fix l :: MmapJournal and r
  assume ok: "journal_ok l"
  obtain b l' where a: "append_log (fst r) (snd r) l = (b, l')" by (cases "append_log (fst r) (snd r) l")
  show "journal_ok (snd (journal_append r l))"
    using ok a append_log_accepted [OF ok]
    by (cases b) (auto simp: journal_append_def dest: append_log_refused)
  show "read_committed (snd (journal_append r l)) = read_committed l @ [r]" if "fst (journal_append r l)"
    using that a append_log_accepted [OF ok] by (auto simp: journal_append_def)
  show "read_committed (snd (journal_append r l)) = read_committed l" if "\<not> fst (journal_append r l)"
    using that a by (auto simp: journal_append_def dest: append_log_refused)
qed

section \<open>A writer that runs alone\<close>

lemma solo_append:
  assumes r: "jreach j s" and t: "writers s t = Idle"
    and a: "append_log tag data (journal_at j s) = (True, j')"
  shows "\<exists>s'. jreach j s' \<and> jmem s' = mmap j' \<and> joff s' = write_offset j' \<and>
           writers s' = (writers s)(t := Done True) \<and>
           map slot_record (slots s') = map slot_record (slots s) @ [(tag, data)]"
proof -
  let ?n = "jsize j" and ?o = "joff s" and ?w = "\<lambda>v. (writers s)(t := v)"
  have v: "valid_payload data" "?o + padded_len (length data) < ?n" and j':
    "j' = \<lparr>mmap = publish_size ?o data (write_payload ?o data (write_tag ?o tag (jmem s))),
           write_offset = ?o + padded_len (length data), jsize = ?n\<rparr>"
    using a by (auto simp: journal_at_def append_log_def Let_def split: if_splits)
  define s1 where "s1 = s\<lparr>writers := ?w (Loading tag data)\<rparr>"
  define s2 where "s2 = s\<lparr>writers := ?w (Loaded tag data ?o)\<rparr>"
  define s3 where "s3 = s\<lparr>joff := ?o + padded_len (length data),
    slots := slots s @ [own_slot Claimed tag data ?o], writers := ?w (Writing Claimed tag data ?o)\<rparr>"
  define s4 where "s4 = s3\<lparr>jmem := write_tag ?o tag (jmem s3), slots := set_phase ?o Tagged (slots s3),
    writers := ?w (Writing Tagged tag data ?o)\<rparr>"
  define s5 where "s5 = s4\<lparr>jmem := write_payload ?o data (jmem s4), slots := set_phase ?o Filled (slots s4),
    writers := ?w (Writing Filled tag data ?o)\<rparr>"
  define s6 where "s6 = s5\<lparr>jmem := publish_size ?o data (jmem s5), slots := set_phase ?o Published (slots s5),
    writers := ?w (Done True)\<rparr>"
  have "jstep ?n s s1" using jstep.call [of s t True ?n data tag] t v by (simp add: s1_def)
  moreover have "jstep ?n s1 s2" using jstep.load [of s1 t tag data ?n] v by (simp add: s1_def s2_def)
  moreover have "jstep ?n s2 s3"
    using jstep.cas_ok [of s2 t tag data ?o ?n] by (simp add: s2_def s3_def own_slot_def)
  moreover have "jstep ?n s3 s4" using jstep.put_tag [of s3 t tag data ?o ?n] by (simp add: s3_def s4_def)
  moreover have "jstep ?n s4 s5" using jstep.put_payload [of s4 t tag data ?o ?n] by (simp add: s4_def s5_def)
  moreover have "jstep ?n s5 s6" using jstep.put_size [of s5 t tag data ?o ?n] by (simp add: s5_def s6_def)
  ultimately have "jreach j s6" using r by (meson jreach.step)
  moreover have "map slot_record (set_phase ?o ph ss) = map slot_record ss" for ph ss
    by (auto simp: set_phase_def slot_record_def)
  then have "map slot_record (slots s6) = map slot_record (slots s) @ [(tag, data)]"
    by (simp add: s6_def s5_def s4_def s3_def slot_record_def)
  ultimately show ?thesis
    by (intro exI [of _ s6]) (auto simp: s6_def s5_def s4_def s3_def j')
qed

section \<open>Guarantees\<close>

text \<open>C6: on a new segment (a file that did not exist, or held only zero bytes), with any number of
  concurrent writers, at any moment between two of their atomic actions,
  reading the journal returns exactly the records of the slots up to the first that is not published
  yet, in the order in which the slots were reserved. Every record returned is complete: its tag
  and payload are the ones its writer passed. A file with earlier contents is outside this statement:
  the journal writes over it from offset 0 without clearing it.\<close>

theorem journal_no_torn_reads:
  assumes "journal_new_with_size (Opened (\<lambda>_. 0)) sz = Inr j" "jreach j s"
  shows "read_committed (journal_at j s) = map slot_record (takeWhile is_published (slots s))"
proof -
  have "new_segment j" using assms(1) unfolding new_segment_def by blast
  then show ?thesis
    using jinv_reach [OF assms(2)]
    by (auto simp: jinv_def read_committed_def journal_at_def intro: read_slots_inv)
qed

theorem journal_no_torn_reads_witness:
  "\<exists>s. jreach \<lparr>mmap = (\<lambda>_. 0), write_offset = 0, jsize = 64\<rparr> s \<and> map slot_record (slots s) = [(7, [1, 2])] \<and>
       read_committed (journal_at \<lparr>mmap = (\<lambda>_. 0), write_offset = 0, jsize = 64\<rparr> s)
         = map slot_record (takeWhile is_published (slots s))"
proof -
  let ?j = "\<lparr>mmap = (\<lambda>_. 0), write_offset = 0, jsize = 64\<rparr>"
  have o: "journal_new_with_size (Opened (\<lambda>_. 0)) 64 = Inr ?j"
    by (simp add: journal_new_with_size_def)
  obtain j' where "append_log 7 [1, 2] (journal_at ?j (jsys_open ?j)) = (True, j')"
    by (simp add: append_log_def valid_payload_def padded_len_def jsys_open_def journal_at_def)
  from solo_append [OF jreach.start _ this, of 0]
  obtain s where "jreach ?j s" "map slot_record (slots s) = [(7, [1, 2])]"
    by (auto simp: jsys_open_def)
  with journal_no_torn_reads [OF o this(1)] show ?thesis by (intro exI [of _ s]) simp
qed

text \<open>readers never lose a record they have seen: each atomic action of a writer extends what a
  reader would return, or leaves it as it is; and when no writer is between its reservation and
  its publication, every record ever accepted is readable.\<close>

theorem journal_reads_grow:
  assumes "new_segment j" "jreach j s" "jstep (jsize j) s s'"
  shows "prefix (read_committed (journal_at j s)) (read_committed (journal_at j s')) \<and>
         ((\<forall>t. \<not> owns (writers s t)) \<longrightarrow> read_committed (journal_at j s) = map slot_record (slots s))"
proof -
  have i: "jinv (jsize j) s" and i': "jinv (jsize j) s'"
    using assms jinv_reach jreach.step by blast+
  have rd: "read_committed (journal_at j s) = map slot_record (takeWhile is_published (slots s))"
    "read_committed (journal_at j s') = map slot_record (takeWhile is_published (slots s'))"
    using i i' by (auto simp: jinv_def read_committed_def journal_at_def intro: read_slots_inv)
  have "map slot_record (takeWhile is_published (slots s)) = map slot_record (slots s)"
    if "\<forall>t. \<not> owns (writers s t)"
  proof -
    have "is_published x" if "x \<in> set (slots s)" for x
      using i that \<open>\<forall>t. \<not> owns (writers s t)\<close>
      unfolding jinv_def writers_inv_def owner_of_def by (metis owns.simps(1))
    then have "takeWhile is_published (slots s) = slots s" by simp
    then show ?thesis by (rule arg_cong)
  qed
  moreover have "prefix (map slot_record (takeWhile is_published (slots s)))
      (map slot_record (takeWhile is_published (slots s')))"
    using jstep_slots [OF assms(3) i] takeWhile_map_prefix [of is_published slot_record "slots s"] by force
  ultimately show ?thesis unfolding rd by blast
qed

theorem journal_reads_grow_witness:
  "read_committed \<lparr>mmap = (\<lambda>_. 0), write_offset = 0, jsize = 64\<rparr> = []"
proof -
  let ?j = "\<lparr>mmap = (\<lambda>_. 0), write_offset = 0, jsize = 64\<rparr>"
  let ?s = "jsys_open ?j"
  have n: "new_segment ?j"
    unfolding new_segment_def by (intro exI [of _ 64]) (simp add: journal_new_with_size_def)
  have st: "jstep (jsize ?j) ?s (?s\<lparr>writers := (writers ?s)(0 := Loading 1 [1])\<rparr>)"
    using jstep.call [of ?s 0 True 64 "[1]" 1] by (simp add: jsys_open_def valid_payload_def)
  show ?thesis
    using journal_reads_grow [OF n jreach.start st] by (simp add: jsys_open_def journal_at_def)
qed

text \<open>C27: append and read are inverse to each other on a new segment: after any sequence of appends,
  reading returns exactly the accepted records, in order; and a record is accepted if and only
  if its payload is neither empty nor longer than \<open>u32::MAX\<close> and its padded slot ends strictly
  inside the segment.\<close>

theorem journal_roundtrip:
  assumes "journal_new_with_size (Opened (\<lambda>_. 0)) sz = Inr j"
  shows "read_committed (jl.append_all rs j) = jl.accepted rs j \<and>
         (fst (append_log tag data j') \<longleftrightarrow>
            valid_payload data \<and> write_offset j' + padded_len (length data) < jsize j')"
proof -
  have "journal_ok j" "read_committed j = []" using journal_ok_new [OF assms] by auto
  then show ?thesis
    using jl.append_all_contents by (auto simp: append_log_def Let_def)
qed

theorem journal_roundtrip_witness:
  "read_committed (jl.append_all [(1, [9]), (2, []), (3, [8, 7])]
     \<lparr>mmap = (\<lambda>_. 0), write_offset = 0, jsize = 64\<rparr>) = [(1, [9]), (3, [8, 7])]"
proof -
  have "journal_new_with_size (Opened (\<lambda>_. 0)) 64 = Inr \<lparr>mmap = (\<lambda>_. 0), write_offset = 0, jsize = 64\<rparr>"
    by (simp add: journal_new_with_size_def)
  from journal_roundtrip [OF this, of "[(1, [9]), (2, []), (3, [8, 7])]"]
  show ?thesis
    by (simp add: journal_append_def append_log_def valid_payload_def padded_len_def Let_def)
qed

text \<open>opening an existing journal file starts writing at offset 0 again, so the first record
  appended after a reopen overwrites the ones the file held: a record written and read before is
  gone.\<close>

theorem journal_reopen_overwrites:
  "let j = snd (append_log 1 [9] \<lparr>mmap = (\<lambda>_. 0), write_offset = 0, jsize = 64\<rparr>) in
   read_committed j = [(1, [9])] \<and>
   (\<exists>j'. journal_new_with_size (Opened (mmap j)) 64 = Inr j' \<and> read_committed j' = [(1, [9])] \<and>
         read_committed (snd (append_log 2 [5] j')) = [(2, [5])])"
proof -
  let ?j0 = "\<lparr>mmap = (\<lambda>_. 0), write_offset = 0, jsize = 64\<rparr>"
  have ok: "journal_ok ?j0" "read_committed ?j0 = []"
    using journal_ok_new [of 64 ?j0] by (simp_all add: journal_new_with_size_def)
  obtain j where j: "append_log 1 [9] ?j0 = (True, j)" "jsize j = 64"
    by (simp add: append_log_def valid_payload_def padded_len_def)
  have rj: "read_committed j = [(1, [9])]" using append_log_accepted [OF ok(1) j(1)] ok(2) by simp
  let ?j' = "\<lparr>mmap = mmap j, write_offset = 0, jsize = 64\<rparr>"
  have n: "journal_new_with_size (Opened (mmap j)) 64 = Inr ?j'" by (simp add: journal_new_with_size_def)
  have "read_committed ?j' = [(1, [9])]" using rj j(2) by (simp add: read_committed_def)
  moreover have "read_committed (snd (append_log 2 [5] ?j')) = [(2, [5])]"
  proof -
    have "mmap j = publish_size 0 [9] (write_payload 0 [9] (write_tag 0 1 (\<lambda>_. 0)))"
      using j by (auto simp: append_log_def valid_payload_def padded_len_def)
    then have "mmap (snd (append_log 2 [5] ?j')) = mmap (snd (append_log 2 [5] ?j0))"
      by (simp add: append_log_def valid_payload_def padded_len_def fun_eq_iff publish_size_def
          write_payload_def write_tag_def write_bytes_def)
    moreover have "read_committed (snd (append_log 2 [5] ?j0)) = [(2, [5])]"
    proof -
      obtain j2 where "append_log 2 [5] ?j0 = (True, j2)"
        by (simp add: append_log_def valid_payload_def padded_len_def)
      then show ?thesis using append_log_accepted [OF ok(1)] ok(2) by fastforce
    qed
    ultimately show ?thesis
      by (simp add: read_committed_def append_log_def valid_payload_def padded_len_def)
  qed
  ultimately show ?thesis using j rj n by (simp add: Let_def)
qed

end
