(* ===== verification/Rotation.thy ===== *)
theory Rotation
  imports Journal
begin

text \<open>
  The rotating journal of \<open>soul_journal/src/rotation.rs\<close>: a chain of segments of fixed size. The
  model runs each call alone, with locks that are not poisoned; what concurrent appends do to one
  segment is the subject of the theory of the segment. The directory is a function from paths to
  the answer of opening them. The segment index is a natural number: its \<open>u32\<close> would overflow
  after \<open>2^32\<close> rotations.
\<close>

definition DEFAULT_SEGMENT_SIZE :: nat where
  "DEFAULT_SEGMENT_SIZE = 1024 * 1024 * 64"

record RotatingJournal =
  base_path :: string
  segment_size :: nat
  current :: MmapJournal
  sealed :: "MmapJournal list"
  seg_index :: nat

text \<open>\<open>format!("{}.{:04}", base, idx)\<close>.\<close>

definition seg_path :: "string \<Rightarrow> nat \<Rightarrow> string" where
  "seg_path base idx = base @ ''.'' @ replicate (4 - length (show_nat idx)) (CHR ''0'') @ show_nat idx"

type_synonym directory = "string \<Rightarrow> open_answer"

definition rotating_new_with_size :: "directory \<Rightarrow> string \<Rightarrow> nat \<Rightarrow> string + RotatingJournal" where
  "rotating_new_with_size dir base sz =
     map_sum id (\<lambda>seg0. \<lparr>base_path = base, segment_size = sz, current = seg0, sealed = [], seg_index = 0\<rparr>)
       (journal_new_with_size (dir (seg_path base 0)) sz)"

definition rotating_new :: "directory \<Rightarrow> string \<Rightarrow> string + RotatingJournal" where
  "rotating_new dir base = rotating_new_with_size dir base DEFAULT_SEGMENT_SIZE"

definition rotating_append_log ::
    "directory \<Rightarrow> u32 \<Rightarrow> u8 list \<Rightarrow> RotatingJournal \<Rightarrow> bool \<times> RotatingJournal" where
  "rotating_append_log dir tag data j =
     (if data = [] \<or> length data + 8 \<ge> segment_size j then (False, j)
      else case append_log tag data (current j) of
        (True, c) \<Rightarrow> (True, j\<lparr>current := c\<rparr>)
      | (False, c) \<Rightarrow>
        (case append_log tag data c of
           (True, c) \<Rightarrow> (True, j\<lparr>current := c\<rparr>)
         | (False, c) \<Rightarrow>
           (case journal_new_with_size (dir (seg_path (base_path j) (seg_index j + 1))) (segment_size j) of
              Inl _ \<Rightarrow> (False, j)
            | Inr seg \<Rightarrow>
              (case append_log tag data seg of
                 (ok, seg) \<Rightarrow>
                   (ok, j\<lparr>current := seg, sealed := sealed j @ [c], seg_index := seg_index j + 1\<rparr>)))))"

definition read_all_committed :: "RotatingJournal \<Rightarrow> (u32 \<times> u8 list) list" where
  "read_all_committed j = concat (map read_committed (sealed j)) @ read_committed (current j)"

definition segment_count :: "RotatingJournal \<Rightarrow> nat" where
  "segment_count j = length (sealed j) + 1"

definition sync_all :: "(nat \<Rightarrow> nat \<Rightarrow> bool) \<Rightarrow> RotatingJournal \<Rightarrow> bool" where
  "sync_all flush j = (list_all (journal_sync flush) (sealed j) \<and> journal_sync flush (current j))"

section \<open>The rotating journal is a record log\<close>

text \<open>The segments to come are new files: opening them fails or gives zero bytes.\<close>

definition future_segments_new :: "directory \<Rightarrow> RotatingJournal \<Rightarrow> bool" where
  "future_segments_new dir j \<longleftrightarrow>
     (\<forall>idx > seg_index j. dir (seg_path (base_path j) idx) = Opened (\<lambda>_. 0) \<or>
        (\<exists>e. dir (seg_path (base_path j) idx) = Open_Fails e))"

definition rotating_ok :: "directory \<times> RotatingJournal \<Rightarrow> bool" where
  "rotating_ok dj \<longleftrightarrow> journal_ok (current (snd dj)) \<and> future_segments_new (fst dj) (snd dj)"

definition rotating_append :: "u32 \<times> u8 list \<Rightarrow> directory \<times> RotatingJournal \<Rightarrow> bool \<times> directory \<times> RotatingJournal" where
  "rotating_append r dj =
     (case rotating_append_log (fst dj) (fst r) (snd r) (snd dj) of (b, j) \<Rightarrow> (b, fst dj, j))"

lemma append_log_cases:
  assumes "journal_ok j"
  obtains (accepted) j' where "append_log tag data j = (True, j')" "journal_ok j'"
      "read_committed j' = read_committed j @ [(tag, data)]"
  | (refused) "append_log tag data j = (False, j)"
proof (cases "append_log tag data j")
  case (Pair b j')
  then show ?thesis
    using append_log_accepted [OF assms, of tag data j'] append_log_refused [of tag data j j']
      accepted refused by (cases b) auto
qed

lemma rotating_append_log_spec:
  assumes ok: "rotating_ok (dir, j)" and a: "rotating_append_log dir tag data j = (b, j')"
  shows "rotating_ok (dir, j') \<and>
         read_all_committed j' = read_all_committed j @ (if b then [(tag, data)] else [])"
proof (cases "data = [] \<or> length data + 8 \<ge> segment_size j")
  case True
  with a ok show ?thesis by (auto simp: rotating_append_log_def)
next
  case False
  have cur: "journal_ok (current j)" using ok by (simp add: rotating_ok_def)
  show ?thesis
  proof (cases rule: append_log_cases [OF cur, where tag = tag and data = data, case_names accepted refused])
    case (accepted c)
    with a ok False have "b" "j' = j\<lparr>current := c\<rparr>" by (auto simp: rotating_append_log_def)
    with accepted ok show ?thesis
      by (simp add: rotating_ok_def future_segments_new_def read_all_committed_def)
  next
    case refused
    show ?thesis
    proof (cases "journal_new_with_size (dir (seg_path (base_path j) (seg_index j + 1))) (segment_size j)")
      case (Inl e)
      with a ok refused False show ?thesis by (simp add: rotating_append_log_def)
    next
      case (Inr seg)
      have "dir (seg_path (base_path j) (seg_index j + 1)) = Opened (\<lambda>_. 0)"
        using ok Inr by (auto simp: rotating_ok_def future_segments_new_def journal_new_with_size_def)
      with Inr have new: "journal_ok seg" "read_committed seg = []" using journal_ok_new by auto
      obtain seg' where s: "append_log tag data seg = (b, seg')" and j': "j' =
          j\<lparr>current := seg', sealed := sealed j @ [current j], seg_index := seg_index j + 1\<rparr>"
        using a False refused Inr by (auto simp: rotating_append_log_def split: prod.splits)
      have "journal_ok seg' \<and> read_committed seg' = (if b then [(tag, data)] else [])"
        using append_log_accepted [OF new(1)] append_log_refused [of tag data seg seg'] s new
        by (cases b) auto
      with ok show ?thesis
        by (simp add: j' rotating_ok_def future_segments_new_def read_all_committed_def)
    qed
  qed
qed

interpretation rl: record_log rotating_append "read_all_committed \<circ> snd" rotating_ok
proof
  fix l :: "directory \<times> RotatingJournal" and r
  assume ok: "rotating_ok l"
  obtain dir j where l: "l = (dir, j)" by (cases l)
  obtain b j' where a: "rotating_append_log dir (fst r) (snd r) j = (b, j')"
    by (cases "rotating_append_log dir (fst r) (snd r) j")
  note spec = rotating_append_log_spec [OF ok [unfolded l] a]
  show "rotating_ok (snd (rotating_append r l))"
    using spec by (simp add: l rotating_append_def a)
  show "(read_all_committed \<circ> snd) (snd (rotating_append r l)) = (read_all_committed \<circ> snd) l @ [r]"
    if "fst (rotating_append r l)"
    using spec that by (simp add: l rotating_append_def a)
  show "(read_all_committed \<circ> snd) (snd (rotating_append r l)) = (read_all_committed \<circ> snd) l"
    if "\<not> fst (rotating_append r l)"
    using spec that by (simp add: l rotating_append_def a)
qed

section \<open>Guarantees\<close>

text \<open>a rotating journal on new files keeps every accepted record, in order and across segments:
  after any sequence of appends, reading all segments returns exactly the accepted records.\<close>

theorem rotating_roundtrip:
  assumes "rotating_new_with_size dir base sz = Inr j"
    and "\<And>idx. dir (seg_path base idx) = Opened (\<lambda>_. 0) \<or> (\<exists>e. dir (seg_path base idx) = Open_Fails e)"
  shows "read_all_committed (snd (rl.append_all rs (dir, j))) = rl.accepted rs (dir, j)"
proof -
  obtain seg where seg: "journal_new_with_size (dir (seg_path base 0)) sz = Inr seg"
    and j: "j = \<lparr>base_path = base, segment_size = sz, current = seg, sealed = [], seg_index = 0\<rparr>"
    using assms(1)
    by (cases "journal_new_with_size (dir (seg_path base 0)) sz") (auto simp: rotating_new_with_size_def)
  have "dir (seg_path base 0) = Opened (\<lambda>_. 0)"
    using assms(2) [of 0] seg by (auto simp: journal_new_with_size_def)
  with seg have "journal_ok seg" "read_committed seg = []" using journal_ok_new by auto
  then have "rotating_ok (dir, j)" "read_all_committed j = []"
    using assms(2) by (auto simp: rotating_ok_def future_segments_new_def j read_all_committed_def)
  then show ?thesis using rl.append_all_contents [of "(dir, j)" rs] by simp
qed

theorem rotating_roundtrip_witness:
  "read_all_committed (snd (rl.append_all [(1, [9, 9, 9]), (2, [8])]
     (\<lambda>_. Opened (\<lambda>_. 0), \<lparr>base_path = ''j'', segment_size = 16,
        current = \<lparr>mmap = (\<lambda>_. 0), write_offset = 0, jsize = 16\<rparr>, sealed = [], seg_index = 0\<rparr>)))
   = [(1, [9, 9, 9]), (2, [8])]"
proof -
  let ?j = "\<lparr>base_path = ''j'', segment_size = 16,
        current = \<lparr>mmap = (\<lambda>_. 0), write_offset = 0, jsize = 16\<rparr>, sealed = [], seg_index = 0\<rparr>"
  have "rotating_new_with_size (\<lambda>_. Opened (\<lambda>_. 0)) ''j'' 16 = Inr ?j"
    by (simp add: rotating_new_with_size_def journal_new_with_size_def)
  from rotating_roundtrip [OF this, of "[(1, [9, 9, 9]), (2, [8])]"] show ?thesis
    by (simp add: rotating_append_def rotating_append_log_def append_log_def valid_payload_def
        padded_len_def Let_def journal_new_with_size_def)
qed

text \<open>an append to the rotating journal fails only for a payload that is empty or whose padded record
  does not fit strictly inside an empty segment, or when the next segment cannot be opened.\<close>

theorem rotating_accepts:
  assumes "valid_payload data" "padded_len (length data) < segment_size j"
    and "dir (seg_path (base_path j) (seg_index j + 1)) = Opened m"
  shows "fst (rotating_append_log dir tag data j)"
proof -
  have "length data + 8 < segment_size j" using assms(2) padded_len_bounds [of "length data"] by simp
  moreover have "data \<noteq> []" using assms(1) by (auto simp: valid_payload_def)
  moreover have "fst (append_log tag data \<lparr>mmap = m, write_offset = 0, jsize = max (segment_size j) 8\<rparr>)"
    using assms by (auto simp: append_log_def Let_def)
  ultimately show ?thesis
    using assms(3) by (auto simp: rotating_append_log_def journal_new_with_size_def split: prod.splits bool.splits)
qed

theorem rotating_accepts_witness:
  "fst (rotating_append_log (\<lambda>_. Opened (\<lambda>_. 0)) 1 [1, 2]
     \<lparr>base_path = ''j'', segment_size = 16, current = \<lparr>mmap = (\<lambda>_. 0), write_offset = 12, jsize = 16\<rparr>,
      sealed = [], seg_index = 0\<rparr>)"
  by (rule rotating_accepts [of _ _ _ "\<lambda>_. 0"]) (simp_all add: valid_payload_def padded_len_def)

text \<open>the size guard of the rotating journal is weaker than the one of a segment: a record
  whose padding makes it as long as a segment passes the guard, is refused by the new segment, and
  every attempt to append it leaves one more empty segment behind.\<close>

theorem rotating_guard_leaks_segments:
  assumes "length data + 8 < segment_size j" "segment_size j \<le> padded_len (length data)"
    and "8 \<le> segment_size j" "jsize (current j) = segment_size j" "data \<noteq> []"
    and "dir (seg_path (base_path j) (seg_index j + 1)) = Opened m"
  shows "\<not> fst (rotating_append_log dir tag data j) \<and>
         segment_count (snd (rotating_append_log dir tag data j)) = segment_count j + 1"
  using assms
  by (auto simp: rotating_append_log_def append_log_def Let_def journal_new_with_size_def
      segment_count_def split: prod.splits)

theorem rotating_guard_leaks_segments_witness:
  "segment_count (snd (rotating_append_log (\<lambda>_. Opened (\<lambda>_. 0)) 1 [1, 2, 3, 4, 5]
     \<lparr>base_path = ''j'', segment_size = 16, current = \<lparr>mmap = (\<lambda>_. 0), write_offset = 0, jsize = 16\<rparr>,
      sealed = [], seg_index = 0\<rparr>)) = 2"
  using rotating_guard_leaks_segments [of "[1, 2, 3, 4, 5]"
      "\<lparr>base_path = ''j'', segment_size = 16, current = \<lparr>mmap = (\<lambda>_. 0), write_offset = 0, jsize = 16\<rparr>,
      sealed = [], seg_index = 0\<rparr>" "\<lambda>_. Opened (\<lambda>_. 0)" "\<lambda>_. 0" 1]
  by (simp add: padded_len_def segment_count_def)

end
