(* ===== verification/Ipc_Bus.thy ===== *)
theory Ipc_Bus
  imports Prelude
begin

text \<open>
  The bounded multi-producer multi-consumer bus of \<open>soul_ipc/src/bus.rs\<close> (Vyukov's algorithm: one
  sequence number per cell).

  First the operations run alone, on 64-bit positions that wrap around, and their contract as a
  bounded FIFO queue. The retry loops are partial functions: a loop that never leaves yields
  \<open>None\<close>, and the theorems say when it does not. The difference of two positions is the
  wrapping one of a release build, read as a signed number.

  Then the algorithm under concurrency: every atomic action of every producer and consumer is one
  step, and the steps of different threads interleave in any order. There the positions are
  natural numbers, since no run makes \<open>2^63\<close> of them.
\<close>

unbundle bit_operations_syntax

section \<open>The bus\<close>

definition IPC_QUEUE_SIZE :: usize where "IPC_QUEUE_SIZE = 8192"
definition IPC_MASK :: usize where "IPC_MASK = IPC_QUEUE_SIZE - 1"

record AgentMessage =
  source_agent_id :: u32
  target_agent_id :: u32
  signal_code :: u32
  payload_ptr :: u64
  payload_size :: usize

definition empty_message :: AgentMessage where
  "empty_message = \<lparr>source_agent_id = 0, target_agent_id = 0, signal_code = 0, payload_ptr = 0, payload_size = 0\<rparr>"

record Cell =
  cell_sequence :: usize
  cell_message :: AgentMessage

record InterAgentBus =
  cells :: "nat \<Rightarrow> Cell"
  enqueue_pos :: usize
  dequeue_pos :: usize

definition bus_new :: InterAgentBus where
  "bus_new = \<lparr>cells = (\<lambda>i. \<lparr>cell_sequence = of_nat i, cell_message = empty_message\<rparr>),
     enqueue_pos = 0, dequeue_pos = 0\<rparr>"

definition cell_index :: "usize \<Rightarrow> nat" where
  "cell_index pos = unat (pos AND IPC_MASK)"

definition seq_diff :: "usize \<Rightarrow> usize \<Rightarrow> int" where
  "seq_diff sq pos = sint (sq - pos)"

definition set_cell :: "usize \<Rightarrow> Cell \<Rightarrow> InterAgentBus \<Rightarrow> InterAgentBus" where
  "set_cell pos c b = b\<lparr>cells := (cells b)(cell_index pos := c)\<rparr>"

partial_function (option) publish_loop :: "AgentMessage \<Rightarrow> usize \<Rightarrow> InterAgentBus \<Rightarrow> (bool \<times> InterAgentBus) option" where
  "publish_loop message pos b =
     (let cell = cells b (cell_index pos); diff = seq_diff (cell_sequence cell) pos in
      if diff = 0 then
        (if enqueue_pos b = pos
         then Some (True, set_cell pos \<lparr>cell_sequence = pos + 1, cell_message = message\<rparr>
                            (b\<lparr>enqueue_pos := pos + 1\<rparr>))
         else publish_loop message (enqueue_pos b) b)
      else if diff < 0 then Some (False, b)
      else publish_loop message (enqueue_pos b) b)"

definition publish :: "AgentMessage \<Rightarrow> InterAgentBus \<Rightarrow> (bool \<times> InterAgentBus) option" where
  "publish message b = publish_loop message (enqueue_pos b) b"

partial_function (option) dequeue_loop :: "usize \<Rightarrow> InterAgentBus \<Rightarrow> (AgentMessage option \<times> InterAgentBus) option" where
  "dequeue_loop pos b =
     (let cell = cells b (cell_index pos); diff = seq_diff (cell_sequence cell) (pos + 1) in
      if diff = 0 then
        (if dequeue_pos b = pos
         then Some (Some (cell_message cell),
                    set_cell pos (cell\<lparr>cell_sequence := pos + IPC_QUEUE_SIZE\<rparr>) (b\<lparr>dequeue_pos := pos + 1\<rparr>))
         else dequeue_loop (dequeue_pos b) b)
      else if diff < 0 then Some (None, b)
      else dequeue_loop (dequeue_pos b) b)"

definition dequeue :: "InterAgentBus \<Rightarrow> (AgentMessage option \<times> InterAgentBus) option" where
  "dequeue b = dequeue_loop (dequeue_pos b) b"

text \<open>The loop \<open>while !self.publish(msg)\<close> of \<open>try_recv\<close>.\<close>

partial_function (option) republish :: "AgentMessage \<Rightarrow> InterAgentBus \<Rightarrow> InterAgentBus option" where
  "republish msg b =
     (case publish msg b of
        None \<Rightarrow> None
      | Some (ok, b') \<Rightarrow> if ok then Some b' else republish msg b')"

definition try_recv :: "u32 \<Rightarrow> InterAgentBus \<Rightarrow> (AgentMessage option \<times> InterAgentBus) option" where
  "try_recv agent_id b =
     (case dequeue b of
        None \<Rightarrow> None
      | Some (None, b) \<Rightarrow> Some (None, b)
      | Some (Some msg, b) \<Rightarrow>
        if target_agent_id msg = agent_id \<or> target_agent_id msg = 0xFFFFFFFF then Some (Some msg, b)
        else map_option (Pair None) (republish msg b))"

definition pending_count :: "InterAgentBus \<Rightarrow> usize" where
  "pending_count b = enqueue_pos b - dequeue_pos b"

section \<open>Interface of a bounded FIFO queue\<close>

locale bounded_fifo =
  fixes enq :: "'m \<Rightarrow> 'q \<Rightarrow> (bool \<times> 'q) option"
    and deq :: "'q \<Rightarrow> ('m option \<times> 'q) option"
    and repr :: "'q \<Rightarrow> 'm list \<Rightarrow> bool"
    and cap :: nat
  assumes enq_room: "repr q xs \<Longrightarrow> length xs < cap \<Longrightarrow> \<exists>q'. enq m q = Some (True, q') \<and> repr q' (xs @ [m])"
    and enq_full: "repr q xs \<Longrightarrow> length xs = cap \<Longrightarrow> enq m q = Some (False, q)"
    and deq_Nil: "repr q [] \<Longrightarrow> deq q = Some (None, q)"
    and deq_Cons: "repr q (m # xs) \<Longrightarrow> \<exists>q'. deq q = Some (Some m, q') \<and> repr q' xs"
    and repr_cap: "repr q xs \<Longrightarrow> length xs \<le> cap"
begin

fun enq_all :: "'m list \<Rightarrow> 'q \<Rightarrow> 'q option" where
  "enq_all [] q = Some q"
| "enq_all (m # ms) q = (case enq m q of Some (True, q') \<Rightarrow> enq_all ms q' | _ \<Rightarrow> None)"

fun deq_n :: "nat \<Rightarrow> 'q \<Rightarrow> ('m list \<times> 'q) option" where
  "deq_n 0 q = Some ([], q)"
| "deq_n (Suc n) q =
     (case deq q of
        Some (Some m, q') \<Rightarrow> map_option (\<lambda>(ms, q''). (m # ms, q'')) (deq_n n q')
      | _ \<Rightarrow> None)"

lemma enq_all_repr:
  "repr q xs \<Longrightarrow> length xs + length ms \<le> cap \<Longrightarrow> \<exists>q'. enq_all ms q = Some q' \<and> repr q' (xs @ ms)"
proof (induction ms arbitrary: q xs)
  case (Cons m ms)
  then obtain q' where "enq m q = Some (True, q')" "repr q' (xs @ [m])" using enq_room [of q xs m] by auto
  with Cons.IH [of q' "xs @ [m]"] Cons.prems show ?case by simp
qed auto

lemma deq_n_repr:
  "repr q (xs @ ys) \<Longrightarrow> \<exists>q'. deq_n (length xs) q = Some (xs, q') \<and> repr q' ys"
proof (induction xs arbitrary: q)
  case (Cons x xs)
  then obtain q' where "deq q = Some (Some x, q')" "repr q' (xs @ ys)" using deq_Cons [of q x "xs @ ys"] by auto
  with Cons.IH [of q'] show ?case by auto
qed auto

lemma fifo_order:
  assumes "repr q []" "length ms \<le> cap"
  obtains q' q'' where "enq_all ms q = Some q'" "deq_n (length ms) q' = Some (ms, q'')" "repr q'' []"
proof -
  obtain q' where q': "enq_all ms q = Some q'" "repr q' ms"
    using enq_all_repr [OF assms(1), of ms] assms(2) by auto
  moreover obtain q'' where "deq_n (length ms) q' = Some (ms, q'')" "repr q'' []"
    using deq_n_repr [of q' ms "[]"] q'(2) by auto
  ultimately show ?thesis using that by blast
qed

end

section \<open>The bus alone is a bounded FIFO queue\<close>

lemma cell_index_mod: "cell_index pos = unat pos mod 8192"
proof -
  have "IPC_MASK = mask 13" by (simp add: IPC_MASK_def IPC_QUEUE_SIZE_def mask_eq_exp_minus_1)
  then have "cell_index pos = unat (take_bit 13 pos)"
    by (simp add: cell_index_def take_bit_eq_mask)
  then show ?thesis by (simp add: take_bit_eq_mod unat_mod_distrib)
qed

lemma cell_index_add: "cell_index (pos + of_nat i) = (cell_index pos + i) mod 8192"
proof -
  have "unat (pos + of_nat i) = (unat pos + i) mod 2 ^ 64"
    by (simp add: unat_word_ariths unat_of_nat mod_add_right_eq)
  then have "unat (pos + of_nat i) mod 8192 = (unat pos + i) mod 8192"
    by (simp add: mod_mod_cancel)
  then show ?thesis by (simp add: cell_index_mod mod_add_left_eq)
qed

lemma add_mod_inj:
  fixes a :: nat
  assumes "i < n" "k < n" "(a + i) mod n = (a + k) mod n"
  shows "i = k"
proof -
  have "(a mod n + i) mod n = (a mod n + k) mod n" "a mod n < n"
    using assms by (simp_all add: mod_add_left_eq)
  moreover have "x mod n = (if x < n then x else x - n)" if "x < n + n" for x
    using that by (simp add: le_mod_geq)
  ultimately show ?thesis using assms(1,2) by (simp split: if_splits)
qed

text \<open>\<open>i < 8192\<close> positions from \<open>pos\<close> on lie in different cells.\<close>

lemma cell_index_inj:
  assumes "i < 8192" "k < 8192" "cell_index (pos + of_nat i) = cell_index (pos + of_nat k)"
  shows "i = k"
proof -
  have "(cell_index pos + i) mod 8192 = (cell_index pos + k) mod 8192"
    using assms(3) by (simp only: cell_index_add)
  with assms(1,2) show ?thesis by (rule add_mod_inj)
qed

text \<open>The queue \<open>xs\<close> starts at the dequeue position; the cells behind it are free.\<close>

definition bus_repr :: "InterAgentBus \<Rightarrow> AgentMessage list \<Rightarrow> bool" where
  "bus_repr b xs \<longleftrightarrow>
     length xs \<le> 8192 \<and> enqueue_pos b = dequeue_pos b + of_nat (length xs) \<and>
     (\<forall>i < length xs.
        cells b (cell_index (dequeue_pos b + of_nat i)) =
          \<lparr>cell_sequence = dequeue_pos b + of_nat i + 1, cell_message = xs ! i\<rparr>) \<and>
     (\<forall>i < 8192. length xs \<le> i \<longrightarrow>
        cell_sequence (cells b (cell_index (dequeue_pos b + of_nat i))) = dequeue_pos b + of_nat i)"

lemma bus_repr_new: "bus_repr bus_new []"
  by (simp add: bus_repr_def bus_new_def cell_index_mod unat_of_nat)

lemma seq_diff_zero [simp]: "seq_diff p p = 0"
  by (simp add: seq_diff_def)

lemma seq_diff_minus_one [simp]: "seq_diff p (p + 1) = - 1"
  by (simp add: seq_diff_def)

lemma cell_index_wrap: "cell_index (pos + 8192) = cell_index pos"
  using cell_index_add [of pos 8192] by (simp add: cell_index_mod)

lemma cell_index_wrap': "cell_index (8192 + pos) = cell_index pos"
  using cell_index_wrap [of pos] by (simp add: add.commute)

lemma publish_room:
  assumes r: "bus_repr b xs" and room: "length xs < 8192"
  shows "\<exists>b'. publish m b = Some (True, b') \<and> bus_repr b' (xs @ [m])"
proof -
  let ?e = "enqueue_pos b" and ?d = "dequeue_pos b"
  have e: "?e = ?d + of_nat (length xs)" using r by (simp add: bus_repr_def)
  have "cell_sequence (cells b (cell_index ?e)) = ?e" using r room unfolding e bus_repr_def by simp
  then have pub: "publish m b = Some (True, set_cell ?e \<lparr>cell_sequence = ?e + 1, cell_message = m\<rparr>
      (b\<lparr>enqueue_pos := ?e + 1\<rparr>))" (is "_ = Some (True, ?b)")
    by (simp add: publish_def publish_loop.simps Let_def)
  have other: "cell_index (?d + of_nat i) \<noteq> cell_index ?e" if "i < 8192" "i \<noteq> length xs" for i
    using cell_index_inj [OF that(1) room] that(2) e by metis
  have "bus_repr ?b (xs @ [m])"
    using r room other
    by (auto simp: bus_repr_def set_cell_def nth_append e less_Suc_eq add_ac)
  with pub show ?thesis by blast
qed

lemma publish_full:
  assumes r: "bus_repr b xs" and full: "length xs = 8192"
  shows "publish m b = Some (False, b)"
proof -
  let ?e = "enqueue_pos b" and ?d = "dequeue_pos b"
  have e: "?e = ?d + 8192" using r full by (simp add: bus_repr_def)
  have "cells b (cell_index ?d) = \<lparr>cell_sequence = ?d + 1, cell_message = xs ! 0\<rparr>"
    using r full by (auto simp: bus_repr_def dest: spec [where x = 0])
  then have "cell_sequence (cells b (cell_index ?e)) = ?d + 1" by (simp add: e cell_index_wrap)
  moreover have "seq_diff (?d + 1) (?d + 8192) = - 8191" by (simp add: seq_diff_def)
  ultimately show ?thesis by (simp add: publish_def publish_loop.simps Let_def e)
qed

lemma dequeue_Nil:
  assumes r: "bus_repr b []"
  shows "dequeue b = Some (None, b)"
proof -
  have "cell_sequence (cells b (cell_index (dequeue_pos b))) = dequeue_pos b"
    using r by (auto simp: bus_repr_def dest: spec [where x = 0])
  then show ?thesis by (simp add: dequeue_def dequeue_loop.simps Let_def)
qed

lemma dequeue_Cons:
  assumes r: "bus_repr b (m # xs)"
  shows "\<exists>b'. dequeue b = Some (Some m, b') \<and> bus_repr b' xs"
proof -
  let ?d = "dequeue_pos b"
  have c: "cells b (cell_index ?d) = \<lparr>cell_sequence = ?d + 1, cell_message = m\<rparr>"
    using r by (auto simp: bus_repr_def dest: spec [where x = 0])
  then have deq: "dequeue b = Some (Some m, set_cell ?d \<lparr>cell_sequence = ?d + 8192, cell_message = m\<rparr>
      (b\<lparr>dequeue_pos := ?d + 1\<rparr>))" (is "_ = Some (_, ?b)")
    by (simp add: dequeue_def dequeue_loop.simps Let_def IPC_QUEUE_SIZE_def)
  have shift: "?d + 1 + of_nat i = ?d + of_nat (Suc i)" for i by simp
  have same: "cell_index (?d + of_nat (Suc i)) \<noteq> cell_index ?d" if "Suc i < 8192" for i
    using cell_index_inj [OF that, of 0 ?d] by auto
  have "bus_repr ?b xs"
    unfolding bus_repr_def
  proof (intro conjI allI impI)
    fix i assume "i < length xs"
    then show "cells ?b (cell_index (dequeue_pos ?b + of_nat i)) =
        \<lparr>cell_sequence = dequeue_pos ?b + of_nat i + 1, cell_message = xs ! i\<rparr>"
      using r same [of i] by (auto simp: bus_repr_def set_cell_def shift simp del: of_nat_Suc)
  next
    fix i :: nat assume i: "i < 8192" "length xs \<le> i"
    show "cell_sequence (cells ?b (cell_index (dequeue_pos ?b + of_nat i))) = dequeue_pos ?b + of_nat i"
    proof (cases "Suc i = 8192")
      case True
      then show ?thesis using True by (simp add: set_cell_def cell_index_wrap cell_index_wrap')
    next
      case False
      with i have "Suc i < 8192" "length (m # xs) \<le> Suc i" by auto
      then show ?thesis using r same [of i]
        by (auto simp: bus_repr_def set_cell_def shift simp del: of_nat_Suc)
    qed
  qed (use r in \<open>auto simp: bus_repr_def set_cell_def\<close>)
  with deq show ?thesis by blast
qed

interpretation bq: bounded_fifo publish dequeue bus_repr 8192
proof
  show "length xs \<le> 8192" if "bus_repr q xs" for q xs using that by (simp add: bus_repr_def)
qed (fact publish_room publish_full dequeue_Nil dequeue_Cons)+

lemma republish_room: "bus_repr b xs \<Longrightarrow> length xs < 8192 \<Longrightarrow> \<exists>b'. republish m b = Some b' \<and> bus_repr b' (xs @ [m])"
  using publish_room [of b xs m] by (subst republish.simps) auto

section \<open>The algorithm under concurrency\<close>

record 'm vcell =
  vseq :: nat
  vmsg :: 'm

text \<open>Where a thread is. A producer with message \<open>m\<close>: about to load the enqueue position; holding a
  position and about to load the cell's sequence; having seen it equal to the position and about
  to compare-exchange; owning the cell and about to write the message; having written it and
  about to publish the sequence; returned. A consumer goes through the same stages.\<close>

datatype 'm pc =
    Idle
  | P_Load 'm | P_Check 'm nat | P_Cas 'm nat | P_Write 'm nat | P_Release 'm nat | P_Done bool
  | C_Load | C_Check nat | C_Cas nat | C_Read nat | C_Release nat 'm | C_Done "'m option"

text \<open>\<open>tickets\<close> (the message of every position claimed so far) and \<open>got\<close> (the messages read, with
  their positions, in the order of reading) are history variables: no step reads them.\<close>

record 'm vsys =
  vcells :: "nat \<Rightarrow> 'm vcell"
  venq :: nat
  vdeq :: nat
  vpc :: "nat \<Rightarrow> 'm pc"
  tickets :: "'m list"
  got :: "(nat \<times> 'm) list"

definition at_cell :: "nat \<Rightarrow> 'm vsys \<Rightarrow> nat \<Rightarrow> 'm vcell" where
  "at_cell n s pos = vcells s (pos mod n)"

definition put_cell :: "nat \<Rightarrow> nat \<Rightarrow> 'm vcell \<Rightarrow> 'm vsys \<Rightarrow> 'm vsys" where
  "put_cell n pos c s = s\<lparr>vcells := (vcells s)(pos mod n := c)\<rparr>"

definition goto :: "nat \<Rightarrow> 'm pc \<Rightarrow> 'm vsys \<Rightarrow> 'm vsys" where
  "goto t p s = s\<lparr>vpc := (vpc s)(t := p)\<rparr>"

definition at_rest :: "'m pc \<Rightarrow> bool" where
  "at_rest p \<longleftrightarrow> p = Idle \<or> (\<exists>b. p = P_Done b) \<or> (\<exists>r. p = C_Done r)"

inductive vstep :: "nat \<Rightarrow> 'm vsys \<Rightarrow> 'm vsys \<Rightarrow> bool" for n where
  p_call: "at_rest (vpc s t) \<Longrightarrow> vstep n s (goto t (P_Load m) s)"
| p_load: "vpc s t = P_Load m \<Longrightarrow> vstep n s (goto t (P_Check m (venq s)) s)"
| p_check: "vpc s t = P_Check m pos \<Longrightarrow>
     vstep n s (goto t (if vseq (at_cell n s pos) = pos then P_Cas m pos
                        else if vseq (at_cell n s pos) < pos then P_Done False else P_Load m) s)"
| p_cas_ok: "vpc s t = P_Cas m pos \<Longrightarrow> venq s = pos \<Longrightarrow>
     vstep n s (goto t (P_Write m pos) (s\<lparr>venq := pos + 1, tickets := tickets s @ [m]\<rparr>))"
| p_cas_fail: "vpc s t = P_Cas m pos \<Longrightarrow> vstep n s (goto t (P_Check m (venq s)) s)"
| p_write: "vpc s t = P_Write m pos \<Longrightarrow>
     vstep n s (goto t (P_Release m pos) (put_cell n pos ((at_cell n s pos)\<lparr>vmsg := m\<rparr>) s))"
| p_release: "vpc s t = P_Release m pos \<Longrightarrow>
     vstep n s (goto t (P_Done True) (put_cell n pos ((at_cell n s pos)\<lparr>vseq := pos + 1\<rparr>) s))"
| c_call: "at_rest (vpc s t) \<Longrightarrow> vstep n s (goto t C_Load s)"
| c_load: "vpc s t = C_Load \<Longrightarrow> vstep n s (goto t (C_Check (vdeq s)) s)"
| c_check: "vpc s t = C_Check pos \<Longrightarrow>
     vstep n s (goto t (if vseq (at_cell n s pos) = pos + 1 then C_Cas pos
                        else if vseq (at_cell n s pos) < pos + 1 then C_Done None else C_Load) s)"
| c_cas_ok: "vpc s t = C_Cas pos \<Longrightarrow> vdeq s = pos \<Longrightarrow>
     vstep n s (goto t (C_Read pos) (s\<lparr>vdeq := pos + 1\<rparr>))"
| c_cas_fail: "vpc s t = C_Cas pos \<Longrightarrow> vstep n s (goto t (C_Check (vdeq s)) s)"
| c_read: "vpc s t = C_Read pos \<Longrightarrow>
     vstep n s (goto t (C_Release pos (vmsg (at_cell n s pos)))
                 (s\<lparr>got := got s @ [(pos, vmsg (at_cell n s pos))]\<rparr>))"
| c_release: "vpc s t = C_Release pos m \<Longrightarrow>
     vstep n s (goto t (C_Done (Some m)) (put_cell n pos ((at_cell n s pos)\<lparr>vseq := pos + n\<rparr>) s))"

definition fresh_bus :: "'m \<Rightarrow> 'm vsys" where
  "fresh_bus e = \<lparr>vcells = (\<lambda>i. \<lparr>vseq = i, vmsg = e\<rparr>), venq = 0, vdeq = 0, vpc = (\<lambda>_. Idle),
     tickets = [], got = []\<rparr>"

inductive vreach :: "nat \<Rightarrow> 'm \<Rightarrow> 'm vsys \<Rightarrow> bool" for n e where
  start: "vreach n e (fresh_bus e)"
| step: "vreach n e s \<Longrightarrow> vstep n s s' \<Longrightarrow> vreach n e s'"

section \<open>The invariant of the algorithm\<close>

fun p_owns :: "'m pc \<Rightarrow> nat \<Rightarrow> bool" where
  "p_owns (P_Write m pos) q \<longleftrightarrow> pos = q"
| "p_owns (P_Release m pos) q \<longleftrightarrow> pos = q"
| "p_owns p q \<longleftrightarrow> False"

fun c_owns :: "'m pc \<Rightarrow> nat \<Rightarrow> bool" where
  "c_owns (C_Read pos) q \<longleftrightarrow> pos = q"
| "c_owns (C_Release pos m) q \<longleftrightarrow> pos = q"
| "c_owns p q \<longleftrightarrow> False"

text \<open>What a thread may rely on at its place.\<close>

fun thread_ok :: "nat \<Rightarrow> 'm vsys \<Rightarrow> 'm pc \<Rightarrow> bool" where
  "thread_ok n s (P_Check m pos) \<longleftrightarrow> pos \<le> venq s"
| "thread_ok n s (P_Cas m pos) \<longleftrightarrow> pos < venq s \<or> pos = venq s \<and> vseq (at_cell n s pos) = pos"
| "thread_ok n s (P_Write m pos) \<longleftrightarrow>
     vdeq s \<le> pos \<and> pos < venq s \<and> venq s \<le> pos + n \<and> tickets s ! pos = m \<and> vseq (at_cell n s pos) = pos"
| "thread_ok n s (P_Release m pos) \<longleftrightarrow>
     vdeq s \<le> pos \<and> pos < venq s \<and> venq s \<le> pos + n \<and> tickets s ! pos = m \<and>
     at_cell n s pos = \<lparr>vseq = pos, vmsg = m\<rparr>"
| "thread_ok n s (C_Check pos) \<longleftrightarrow> pos \<le> vdeq s"
| "thread_ok n s (C_Cas pos) \<longleftrightarrow>
     pos < vdeq s \<or> pos = vdeq s \<and> vdeq s < venq s \<and> vseq (at_cell n s pos) = pos + 1"
| "thread_ok n s (C_Read pos) \<longleftrightarrow>
     pos < vdeq s \<and> venq s \<le> pos + n \<and> at_cell n s pos = \<lparr>vseq = pos + 1, vmsg = tickets s ! pos\<rparr> \<and>
     pos \<notin> fst ` set (got s)"
| "thread_ok n s (C_Release pos m) \<longleftrightarrow>
     pos < vdeq s \<and> venq s \<le> pos + n \<and> at_cell n s pos = \<lparr>vseq = pos + 1, vmsg = tickets s ! pos\<rparr>"
| "thread_ok n s p \<longleftrightarrow> True"

text \<open>The next position a cell will serve, \<open>p\<close>, is at most \<open>n\<close> ahead of the enqueue position. Either
  the cell is free for it, or its previous position is still being written, or it is filled and
  not yet released.\<close>

definition p_busy :: "'m vsys \<Rightarrow> nat \<Rightarrow> bool" where
  "p_busy s q \<longleftrightarrow> (\<exists>t. p_owns (vpc s t) q)"

definition c_busy :: "'m vsys \<Rightarrow> nat \<Rightarrow> bool" where
  "c_busy s q \<longleftrightarrow> (\<exists>t. c_owns (vpc s t) q)"

definition cell_ok :: "nat \<Rightarrow> 'm vsys \<Rightarrow> nat \<Rightarrow> bool" where
  "cell_ok n s p \<longleftrightarrow>
     vseq (at_cell n s p) = p \<and> p < vdeq s + n
     \<or> n \<le> p \<and> vseq (at_cell n s p) = p - n \<and> p_busy s (p - n)
     \<or> n \<le> p \<and> at_cell n s p = \<lparr>vseq = p - n + 1, vmsg = tickets s ! (p - n)\<rparr> \<and>
       (vdeq s \<le> p - n \<or> c_busy s (p - n))"

text \<open>No position has two owners.\<close>

definition p_unique :: "(nat \<Rightarrow> 'm pc) \<Rightarrow> bool" where
  "p_unique w \<longleftrightarrow> (\<forall>t u q. p_owns (w t) q \<and> p_owns (w u) q \<longrightarrow> t = u)"

definition c_unique :: "(nat \<Rightarrow> 'm pc) \<Rightarrow> bool" where
  "c_unique w \<longleftrightarrow> (\<forall>t u q. c_owns (w t) q \<and> c_owns (w u) q \<longrightarrow> t = u)"

text \<open>A position taken by a consumer has been read, once, or its consumer is about to read it.\<close>

definition reading :: "'m vsys \<Rightarrow> nat \<Rightarrow> bool" where
  "reading s q \<longleftrightarrow> (\<exists>t. vpc s t = C_Read q)"

definition got_ok :: "'m vsys \<Rightarrow> bool" where
  "got_ok s \<longleftrightarrow>
     distinct (map fst (got s)) \<and>
     (\<forall>(p, m) \<in> set (got s). p < vdeq s \<and> m = tickets s ! p) \<and>
     (\<forall>p < vdeq s. p \<in> fst ` set (got s) \<or> reading s p)"

definition vinv :: "nat \<Rightarrow> 'm vsys \<Rightarrow> bool" where
  "vinv n s \<longleftrightarrow>
     length (tickets s) = venq s \<and> vdeq s \<le> venq s \<and> venq s \<le> vdeq s + n \<and>
     (\<forall>p. venq s \<le> p \<and> p < venq s + n \<longrightarrow> cell_ok n s p) \<and>
     (\<forall>t. thread_ok n s (vpc s t)) \<and> p_unique (vpc s) \<and> c_unique (vpc s) \<and> got_ok s"

lemma vinv_fresh: "vinv n (fresh_bus e)"
  by (simp add: vinv_def fresh_bus_def cell_ok_def at_cell_def p_unique_def c_unique_def got_ok_def)

lemma goto_simps [simp]:
  "venq (goto t p s) = venq s" "vdeq (goto t p s) = vdeq s" "tickets (goto t p s) = tickets s"
  "got (goto t p s) = got s" "vpc (goto t p s) = (vpc s)(t := p)" "at_cell n (goto t p s) q = at_cell n s q"
  by (simp_all add: goto_def at_cell_def)

lemma put_cell_simps [simp]:
  "venq (put_cell n pos c s) = venq s" "vdeq (put_cell n pos c s) = vdeq s"
  "tickets (put_cell n pos c s) = tickets s" "got (put_cell n pos c s) = got s"
  "vpc (put_cell n pos c s) = vpc s"
  "at_cell n (put_cell n pos c s) q = (if q mod n = pos mod n then c else at_cell n s q)"
  by (simp_all add: put_cell_def at_cell_def)

lemma at_cell_cong: "p mod n = q mod n \<Longrightarrow> at_cell n s p = at_cell n s q"
  by (simp add: at_cell_def)

lemma at_cell_update [simp]:
  "at_cell n (s\<lparr>venq := a, tickets := b\<rparr>) q = at_cell n s q"
  "at_cell n (s\<lparr>vdeq := d\<rparr>) q = at_cell n s q"
  "at_cell n (s\<lparr>got := g\<rparr>) q = at_cell n s q"
  by (simp_all add: at_cell_def)

lemma thread_ok_goto [simp]: "thread_ok n (goto t p s) q = thread_ok n s q"
  by (cases q) simp_all

text \<open>Two positions within one round of the ring that share a cell are equal.\<close>

lemma mod_window:
  fixes a b e n :: nat
  assumes "a < e" "e \<le> a + n" "b < e" "e \<le> b + n" "a mod n = b mod n"
  shows "a = b"
proof (cases "a \<le> b")
  case True
  have "(b - a) mod n = 0" using assms(5) True by (simp add: mod_eq_dvd_iff_nat [symmetric])
  moreover have "b - a < n" using assms by simp
  ultimately show ?thesis using True by simp
next
  case False
  have "(a - b) mod n = 0" using assms(5) False by (simp add: mod_eq_dvd_iff_nat [symmetric])
  moreover have "a - b < n" using assms by simp
  ultimately show ?thesis using False by simp
qed

lemma mod_next_window:
  fixes p a e n :: nat
  assumes "e \<le> p" "p < e + n" "a < e" "e \<le> a + n" "p mod n = a mod n"
  shows "p = a + n"
  using mod_window [of p "e + n" n "a + n"] assms by simp

lemma mod_Suc_neq: "2 \<le> n \<Longrightarrow> Suc a mod n \<noteq> a mod n"
  by (metis One_nat_def Suc_1 Suc_le_lessD mod_Suc n_not_Suc_n nat_neq_iff not_one_less_zero mod_self
      Suc_n_not_le_n)

abbreviation owns :: "'m pc \<Rightarrow> nat \<Rightarrow> bool" where
  "owns p q \<equiv> p_owns p q \<or> c_owns p q"

lemma owns_window:
  assumes "thread_ok n s p" "owns p q" "vdeq s \<le> venq s"
  shows "q < venq s \<and> venq s \<le> q + n"
  using assms by (cases p) auto

lemma owns_seq:
  assumes "thread_ok n s p"
  shows "p_owns p q \<Longrightarrow> vseq (at_cell n s q) = q" "c_owns p q \<Longrightarrow> vseq (at_cell n s q) = q + 1"
  using assms by (cases p; auto)+

text \<open>The owner of a cell is unique.\<close>

lemma owner_unique:
  assumes inv: "vinv n s" and t: "owns (vpc s t) q" and u: "owns (vpc s u) r" and c: "q mod n = r mod n"
  shows "t = u \<and> q = r"
proof -
  have ok: "thread_ok n s (vpc s t)" "thread_ok n s (vpc s u)" and d: "vdeq s \<le> venq s"
    using inv by (auto simp: vinv_def)
  have q: "q = r" using owns_window [OF ok(1) t d] owns_window [OF ok(2) u d] c mod_window by blast
  have "p_owns (vpc s t) q \<and> p_owns (vpc s u) q \<or> c_owns (vpc s t) q \<and> c_owns (vpc s u) q"
    using owns_seq [OF ok(1)] owns_seq [OF ok(2)] t u q by fastforce
  then show ?thesis using inv q unfolding vinv_def p_unique_def c_unique_def by blast
qed

text \<open>Moving a thread between places at which it owns nothing.\<close>

lemma vinv_goto:
  assumes inv: "vinv n s" and "\<And>q. \<not> owns (vpc s t) q" "\<And>q. \<not> owns p q" "thread_ok n s p"
  shows "vinv n (goto t p s)"
proof -
  have own: "p_owns (((vpc s)(t := p)) u) q \<longleftrightarrow> p_owns (vpc s u) q"
    "c_owns (((vpc s)(t := p)) u) q \<longleftrightarrow> c_owns (vpc s u) q" for u q
    using assms(2,3) by auto
  have "vpc s t \<noteq> C_Read q" "p \<noteq> C_Read q" for q
    using assms(2) [of q] assms(3) [of q] by auto
  then have rd: "((vpc s)(t := p)) u = C_Read q \<longleftrightarrow> vpc s u = C_Read q" for u q by auto
  show ?thesis
    using inv assms(4)
    unfolding vinv_def cell_ok_def p_busy_def c_busy_def p_unique_def c_unique_def got_ok_def
      reading_def goto_simps own rd thread_ok_goto by auto
qed

lemma vinvD:
  assumes "vinv n s"
  shows "length (tickets s) = venq s" "vdeq s \<le> venq s" "venq s \<le> vdeq s + n"
    "\<And>p. venq s \<le> p \<Longrightarrow> p < venq s + n \<Longrightarrow> cell_ok n s p"
    "\<And>t. thread_ok n s (vpc s t)" "p_unique (vpc s)" "c_unique (vpc s)" "got_ok s"
  using assms unfolding vinv_def by auto

lemma vinvI:
  assumes "length (tickets s) = venq s" "vdeq s \<le> venq s" "venq s \<le> vdeq s + n"
    and "\<And>p. venq s \<le> p \<Longrightarrow> p < venq s + n \<Longrightarrow> cell_ok n s p"
    and "\<And>t. thread_ok n s (vpc s t)" and "p_unique (vpc s)" "c_unique (vpc s)" "got_ok s"
  shows "vinv n s"
  using assms unfolding vinv_def by blast

lemma unique_upd:
  "p_unique w \<Longrightarrow> (\<And>q. p_owns x q \<Longrightarrow> p_owns (w t) q \<or> (\<forall>u. \<not> p_owns (w u) q)) \<Longrightarrow> p_unique (w(t := x))"
  "c_unique w \<Longrightarrow> (\<And>q. c_owns x q \<Longrightarrow> c_owns (w t) q \<or> (\<forall>u. \<not> c_owns (w u) q)) \<Longrightarrow> c_unique (w(t := x))"
  unfolding p_unique_def c_unique_def by (metis fun_upd_apply)+

lemma got_ok_keep:
  assumes "got_ok s" "\<And>q. vpc s t \<noteq> C_Read q" "vpc s' = (vpc s)(t := x)" "got s' = got s"
    "vdeq s' = vdeq s" "\<And>p. p < vdeq s \<Longrightarrow> tickets s' ! p = tickets s ! p"
  shows "got_ok s'"
proof -
  have "reading s q \<Longrightarrow> reading s' q" for q
    using assms(2,3) unfolding reading_def by (metis fun_upd_apply)
  then show ?thesis using assms unfolding got_ok_def by fastforce
qed

lemma busy_keep:
  "p_busy s q \<Longrightarrow> \<not> p_owns (vpc s t) q \<Longrightarrow> vpc s' = (vpc s)(t := x) \<Longrightarrow> p_busy s' q"
  "c_busy s q \<Longrightarrow> \<not> c_owns (vpc s t) q \<Longrightarrow> vpc s' = (vpc s)(t := x) \<Longrightarrow> c_busy s' q"
  unfolding p_busy_def c_busy_def by (metis fun_upd_apply)+

lemma busy_self:
  "vpc s' = (vpc s)(t := x) \<Longrightarrow> p_owns x q \<Longrightarrow> p_busy s' q"
  "vpc s' = (vpc s)(t := x) \<Longrightarrow> c_owns x q \<Longrightarrow> c_busy s' q"
  unfolding p_busy_def c_busy_def by (metis fun_upd_same)+

lemma vinv_p_cas:
  assumes inv: "vinv n s" and n: "2 \<le> n" and t: "vpc s t = P_Cas m (venq s)"
  shows "vinv n (goto t (P_Write m (venq s)) (s\<lparr>venq := venq s + 1, tickets := tickets s @ [m]\<rparr>))"
    (is "vinv n ?s'")
proof -
  let ?e = "venq s"
  note D = vinvD [OF inv]
  have sq: "vseq (at_cell n s ?e) = ?e" using D(5) [of t] t by simp
  have free: "?e < vdeq s + n" using D(4) [of ?e] n sq by (auto simp: cell_ok_def)
  have far: "?e \<noteq> q + n" if "owns (vpc s u) q" for u q
  proof
    assume q: "?e = q + n"
    then have "at_cell n s ?e = at_cell n s q" by (simp add: at_cell_def)
    with sq owns_seq [OF D(5) [of u], of q] that q n show False by auto
  qed
  show ?thesis
  proof (rule vinvI)
    fix p assume p: "venq ?s' \<le> p" "p < venq ?s' + n"
    show "cell_ok n ?s' p"
    proof (cases "p = ?e + n")
      case True
      have "at_cell n s (?e + n) = at_cell n s ?e" by (simp add: at_cell_def)
      moreover have "p_busy ?s' ?e" by (rule busy_self [of _ s t "P_Write m ?e"]) simp_all
      ultimately show ?thesis using True sq by (simp add: cell_ok_def)
    next
      case False
      with p D(4) [of p] have "cell_ok n s p" "n \<le> p \<longrightarrow> p - n < ?e" by auto
      moreover have "p_busy s (p - n) \<Longrightarrow> p_busy ?s' (p - n)" "c_busy s (p - n) \<Longrightarrow> c_busy ?s' (p - n)"
        using busy_keep [of s "p - n" t ?s' "P_Write m ?e"] t by simp_all
      ultimately show ?thesis using D(1) by (auto simp: cell_ok_def nth_append)
    qed
  next
    fix u show "thread_ok n ?s' (vpc ?s' u)"
    proof (cases "u = t")
      case True
      then show ?thesis using D(1-3) sq n by (auto simp: nth_append)
    next
      case False
      have "owns (vpc s u) q \<Longrightarrow> ?e < q + n" for q
        using far [of u q] owns_window [OF D(5) [of u] _ D(2), of q] by fastforce
      then show ?thesis using D(5) [of u] D(1-3) False by (cases "vpc s u") (auto simp: nth_append)
    qed
  next
    have "\<not> p_owns (vpc s u) ?e" for u
      using owns_window [OF D(5) [of u] _ D(2), of ?e] by auto
    then show "p_unique (vpc ?s')" by (auto intro!: unique_upd(1) [OF D(6)])
    show "c_unique (vpc ?s')" by (auto intro!: unique_upd(2) [OF D(7)])
    show "got_ok ?s'"
      by (rule got_ok_keep [OF D(8), where t = t]) (use t D in \<open>auto simp: nth_append\<close>)
  qed (use D free in auto)
qed

lemma vinv_p_write:
  assumes inv: "vinv n s" and t: "vpc s t = P_Write m pos"
  shows "vinv n (goto t (P_Release m pos) (put_cell n pos ((at_cell n s pos)\<lparr>vmsg := m\<rparr>) s))"
    (is "vinv n ?s'")
proof -
  note D = vinvD [OF inv]
  have me: "thread_ok n s (P_Write m pos)" using D(5) [of t] t by simp
  have own: "p_owns (vpc s t) pos" using t by simp
  have other: "at_cell n (put_cell n pos c s) q = at_cell n s q" if "q mod n \<noteq> pos mod n" for q c
    using that by simp
  show ?thesis
  proof (rule vinvI)
    fix p assume p: "venq ?s' \<le> p" "p < venq ?s' + n"
    have "p_busy s (p - n) \<Longrightarrow> p_busy ?s' (p - n)" "c_busy s (p - n) \<Longrightarrow> c_busy ?s' (p - n)"
      using busy_keep [of s "p - n" t ?s' "P_Release m pos"] busy_self(1) [of ?s' s t "P_Release m pos" "p - n"] t
      by (auto split: if_splits)
    moreover have "p = pos + n" if "p mod n = pos mod n"
      using mod_next_window [of "venq s" p n pos] p me that by simp
    moreover have "cell_ok n s p" using D(4) [of p] p by simp
    ultimately show "cell_ok n ?s' p"
      using me at_cell_cong [of p n pos s]
      by (cases "p mod n = pos mod n") (auto simp: cell_ok_def)
  next
    fix u show "thread_ok n ?s' (vpc ?s' u)"
    proof (cases "u = t")
      case True
      then show ?thesis using me by simp
    next
      case False
      have "owns (vpc s u) q \<Longrightarrow> q mod n \<noteq> pos mod n" for q
        using owner_unique [OF inv, of t pos u q] own False by auto
      moreover have "vseq (at_cell n ?s' q) = vseq (at_cell n s q)" for q
        by (simp add: at_cell_def goto_def put_cell_def)
      ultimately show ?thesis
        using D(5) [of u] False by (cases "vpc s u") (auto simp del: put_cell_simps(6) simp: other)
    qed
  next
    show "p_unique (vpc ?s')" using t by (auto intro!: unique_upd(1) [OF D(6)])
    show "c_unique (vpc ?s')" by (auto intro!: unique_upd(2) [OF D(7)])
    show "got_ok ?s'" by (rule got_ok_keep [OF D(8), where t = t]) (use t in auto)
  qed (use D in auto)
qed

lemma vinv_p_release:
  assumes inv: "vinv n s" and n: "2 \<le> n" and t: "vpc s t = P_Release m pos"
  shows "vinv n (goto t (P_Done True) (put_cell n pos ((at_cell n s pos)\<lparr>vseq := pos + 1\<rparr>) s))"
    (is "vinv n ?s'")
proof -
  note D = vinvD [OF inv]
  have me: "thread_ok n s (P_Release m pos)" using D(5) [of t] t by simp
  have own: "p_owns (vpc s t) pos" using t by simp
  show ?thesis
  proof (rule vinvI)
    fix p assume p: "venq ?s' \<le> p" "p < venq ?s' + n"
    show "cell_ok n ?s' p"
    proof (cases "p mod n = pos mod n")
      case True
      then have "p = pos + n" using mod_next_window [of "venq s" p n pos] p me by simp
      then show ?thesis using me by (simp add: cell_ok_def)
    next
      case False
      then have "p_busy s (p - n) \<Longrightarrow> n \<le> p \<Longrightarrow> p_busy ?s' (p - n)" "c_busy s (p - n) \<Longrightarrow> c_busy ?s' (p - n)"
        using busy_keep [of s "p - n" t ?s' "P_Done True"] t by (auto simp: mod_if)
      with False D(4) [of p] p show ?thesis by (auto simp: cell_ok_def)
    qed
  next
    fix u show "thread_ok n ?s' (vpc ?s' u)"
    proof (cases "u = t")
      case False
      have o: "owns (vpc s u) q \<Longrightarrow> q mod n \<noteq> pos mod n" for q
        using owner_unique [OF inv, of t pos u q] own False by auto
      have e: "venq s mod n \<noteq> pos mod n" if "vseq (at_cell n s (venq s)) = venq s"
        using that me at_cell_cong [of "venq s" n pos s] by auto
      have d: "vdeq s mod n \<noteq> pos mod n" if "vseq (at_cell n s (vdeq s)) = vdeq s + 1"
        using that me at_cell_cong [of "vdeq s" n pos s] mod_Suc_neq [OF n, of "vdeq s"] by auto
      show ?thesis using D(5) [of u] False o d e by (cases "vpc s u") auto
    qed simp
  next
    show "p_unique (vpc ?s')" by (auto intro!: unique_upd(1) [OF D(6)])
    show "c_unique (vpc ?s')" by (auto intro!: unique_upd(2) [OF D(7)])
    show "got_ok ?s'" by (rule got_ok_keep [OF D(8), where t = t]) (use t in auto)
  qed (use D in auto)
qed

lemma vinv_c_release:
  assumes inv: "vinv n s" and n: "2 \<le> n" and t: "vpc s t = C_Release pos m"
  shows "vinv n (goto t (C_Done (Some m)) (put_cell n pos ((at_cell n s pos)\<lparr>vseq := pos + n\<rparr>) s))"
    (is "vinv n ?s'")
proof -
  note D = vinvD [OF inv]
  have me: "thread_ok n s (C_Release pos m)" using D(5) [of t] t by simp
  have own: "c_owns (vpc s t) pos" using t by simp
  show ?thesis
  proof (rule vinvI)
    fix p assume p: "venq ?s' \<le> p" "p < venq ?s' + n"
    show "cell_ok n ?s' p"
    proof (cases "p mod n = pos mod n")
      case True
      then have "p = pos + n" using mod_next_window [of "venq s" p n pos] p me D(2) by simp
      then show ?thesis using me by (simp add: cell_ok_def)
    next
      case False
      then have "p_busy s (p - n) \<Longrightarrow> p_busy ?s' (p - n)" "c_busy s (p - n) \<Longrightarrow> n \<le> p \<Longrightarrow> c_busy ?s' (p - n)"
        using busy_keep [of s "p - n" t ?s' "C_Done (Some m)"] t by (auto simp: mod_if)
      with False D(4) [of p] p show ?thesis by (auto simp: cell_ok_def)
    qed
  next
    fix u show "thread_ok n ?s' (vpc ?s' u)"
    proof (cases "u = t")
      case False
      have o: "owns (vpc s u) q \<Longrightarrow> q mod n \<noteq> pos mod n" for q
        using owner_unique [OF inv, of t pos u q] own False by auto
      have e: "venq s mod n \<noteq> pos mod n" if "vseq (at_cell n s (venq s)) = venq s"
        using that me at_cell_cong [of "venq s" n pos s] mod_Suc_neq [OF n, of pos] by auto
      have d: "vdeq s mod n \<noteq> pos mod n" if "vseq (at_cell n s (vdeq s)) = vdeq s + 1"
        using that me at_cell_cong [of "vdeq s" n pos s] by auto
      show ?thesis using D(5) [of u] False o d e by (cases "vpc s u") auto
    qed simp
  next
    show "p_unique (vpc ?s')" by (auto intro!: unique_upd(1) [OF D(6)])
    show "c_unique (vpc ?s')" by (auto intro!: unique_upd(2) [OF D(7)])
    show "got_ok ?s'" by (rule got_ok_keep [OF D(8), where t = t]) (use t in auto)
  qed (use D in auto)
qed

lemma vinv_c_cas:
  assumes inv: "vinv n s" and n: "2 \<le> n" and t: "vpc s t = C_Cas (vdeq s)"
  shows "vinv n (goto t (C_Read (vdeq s)) (s\<lparr>vdeq := vdeq s + 1\<rparr>))" (is "vinv n ?s'")
proof -
  let ?d = "vdeq s"
  note D = vinvD [OF inv]
  have lt: "?d < venq s" and sq: "vseq (at_cell n s ?d) = ?d + 1" using D(5) [of t] t by auto
  have "at_cell n s (?d + n) = at_cell n s ?d" by (simp add: at_cell_def)
  then have cell: "at_cell n s ?d = \<lparr>vseq = ?d + 1, vmsg = tickets s ! ?d\<rparr>"
    using D(4) [of "?d + n"] D(3) lt sq n by (auto simp: cell_ok_def)
  show ?thesis
  proof (rule vinvI)
    fix p assume p: "venq ?s' \<le> p" "p < venq ?s' + n"
    have "c_busy ?s' ?d" by (rule busy_self [of _ s t "C_Read ?d"]) simp_all
    then have "c_busy ?s' (p - n)" if "?d \<le> p - n" "\<not> Suc ?d \<le> p - n"
      using that by (simp add: le_antisym not_less_eq_eq)
    moreover have "p_busy s (p - n) \<Longrightarrow> p_busy ?s' (p - n)" "c_busy s (p - n) \<Longrightarrow> c_busy ?s' (p - n)"
      using busy_keep [of s "p - n" t ?s' "C_Read ?d"] t by simp_all
    ultimately show "cell_ok n ?s' p" using D(4) [of p] p by (auto simp: cell_ok_def)
  next
    fix u show "thread_ok n ?s' (vpc ?s' u)"
    proof (cases "u = t")
      case True
      have "?d \<notin> fst ` set (got s)" using D(8) by (force simp: got_ok_def)
      then show ?thesis using True cell D(3) by simp
    next
      case False
      have "?d \<noteq> q" if "p_owns (vpc s u) q" for q
        using owns_seq(1) [OF D(5) [of u] that] sq by auto
      then show ?thesis using D(5) [of u] False by (cases "vpc s u") (auto simp: nat_less_le Suc_le_eq)
    qed
  next
    have "\<not> c_owns (vpc s u) ?d" for u
      using D(5) [of u] by (cases "vpc s u") auto
    then show "c_unique (vpc ?s')" by (auto intro!: unique_upd(2) [OF D(7)])
    show "p_unique (vpc ?s')" by (auto intro!: unique_upd(1) [OF D(6)])
    have "reading ?s' ?d" by (auto simp: reading_def)
    moreover have "reading ?s' q" if r: "reading s q" for q
    proof -
      from r obtain u where "vpc s u = C_Read q" by (auto simp: reading_def)
      with t have "vpc ?s' u = C_Read q" by auto
      then show ?thesis unfolding reading_def by blast
    qed
    ultimately
    show "got_ok ?s'" using D(8) by (fastforce simp: got_ok_def less_Suc_eq)
  qed (use D lt in auto)
qed

lemma vinv_c_read:
  assumes inv: "vinv n s" and t: "vpc s t = C_Read pos"
  shows "vinv n (goto t (C_Release pos (vmsg (at_cell n s pos)))
                  (s\<lparr>got := got s @ [(pos, vmsg (at_cell n s pos))]\<rparr>))" (is "vinv n ?s'")
proof -
  note D = vinvD [OF inv]
  have me: "thread_ok n s (C_Read pos)" using D(5) [of t] t by simp
  have own: "c_owns (vpc s t) pos" using t by simp
  show ?thesis
  proof (rule vinvI)
    fix p assume p: "venq ?s' \<le> p" "p < venq ?s' + n"
    have "p_busy s (p - n) \<Longrightarrow> p_busy ?s' (p - n)" "c_busy s (p - n) \<Longrightarrow> c_busy ?s' (p - n)"
      using busy_keep [of s "p - n" t ?s' "C_Release pos (vmsg (at_cell n s pos))"]
        busy_self(2) [of ?s' s t "C_Release pos (vmsg (at_cell n s pos))" "p - n"] t
      by (auto split: if_splits)
    then show "cell_ok n ?s' p" using D(4) [of p] p by (auto simp: cell_ok_def)
  next
    fix u show "thread_ok n ?s' (vpc ?s' u)"
    proof (cases "u = t")
      case True
      then show ?thesis using me by simp
    next
      case False
      have "q \<noteq> pos" if "c_owns (vpc s u) q" for q
        using owner_unique [OF inv, of t pos u q] own False that by auto
      then show ?thesis using D(5) [of u] False by (cases "vpc s u") auto
    qed
  next
    show "c_unique (vpc ?s')" using t by (auto intro!: unique_upd(2) [OF D(7)])
    show "p_unique (vpc ?s')" by (auto intro!: unique_upd(1) [OF D(6)])
    have "reading ?s' q \<or> q = pos" if "reading s q" for q
    proof -
      from that obtain u where u: "vpc s u = C_Read q" by (auto simp: reading_def)
      show ?thesis
      proof (cases "u = t")
        case False
        with u have "vpc ?s' u = C_Read q" by simp
        then show ?thesis unfolding reading_def by blast
      qed (use u t in simp)
    qed
    moreover have "distinct (map fst (got s))" "\<forall>(p, m) \<in> set (got s). p < vdeq s \<and> m = tickets s ! p"
      "\<forall>p < vdeq s. p \<in> fst ` set (got s) \<or> reading s p"
      using D(8) by (simp_all add: got_ok_def)
    moreover have "pos \<notin> fst ` set (got s)" "pos < vdeq s" "vmsg (at_cell n s pos) = tickets s ! pos"
      using me by auto
    ultimately show "got_ok ?s'" unfolding got_ok_def by auto
  qed (use D in auto)
qed

lemma vinv_step:
  assumes "2 \<le> n"
  shows "vstep n s s' \<Longrightarrow> vinv n s \<Longrightarrow> vinv n s'"
proof (induction rule: vstep.induct)
  case (p_check s t m pos)
  then have "pos \<le> venq s" using vinvD(5) [of n s t] by simp
  with p_check show ?case by (auto intro!: vinv_goto)
next
  case (c_check s t pos)
  note D = vinvD [OF c_check(2)]
  have le: "pos \<le> vdeq s" using D(5) [of t] c_check by simp
  have "vdeq s < venq s" if "pos = vdeq s" "vseq (at_cell n s pos) = pos + 1"
  proof (rule ccontr)
    assume "\<not> vdeq s < venq s"
    with D(2) that have "vseq (at_cell n s (venq s)) = venq s + 1" by simp
    with D(4) [of "venq s"] assms show False by (auto simp: cell_ok_def)
  qed
  with c_check le show ?case by (auto intro!: vinv_goto)
next
  case (p_cas_ok s t m pos)
  then show ?case using vinv_p_cas [of n s t m] assms by simp
next
  case (c_cas_ok s t pos)
  then show ?case using vinv_c_cas [of n s t] assms by simp
next
  case (p_write s t m pos)
  from vinv_p_write [OF this(2,1)] show ?case .
next
  case (p_release s t m pos)
  from vinv_p_release [OF this(2) assms this(1)] show ?case .
next
  case (c_read s t pos)
  from vinv_c_read [OF this(2,1)] show ?case .
next
  case (c_release s t pos m)
  from vinv_c_release [OF this(2) assms this(1)] show ?case .
qed (auto simp: at_rest_def intro!: vinv_goto)

lemma vinv_reach: "vreach n e s \<Longrightarrow> 2 \<le> n \<Longrightarrow> vinv n s"
  by (induction rule: vreach.induct) (auto intro: vinv_fresh vinv_step)

section \<open>Guarantees\<close>

text \<open>C7: with any number of producers and consumers whose atomic actions interleave in any way, every
  accepted message is delivered exactly once and in the order of acceptance: no position is read
  twice, the message read at a position is the one the producer of that position passed, the
  positions taken by consumers that are not in the middle of reading have all been read, and at
  most 8192 messages are in flight.\<close>

theorem bus_exactly_once:
  assumes "vreach 8192 e s"
  shows "distinct (map fst (got s)) \<and>
         (\<forall>(p, m) \<in> set (got s). p < length (tickets s) \<and> m = tickets s ! p) \<and>
         venq s = length (tickets s) \<and> vdeq s \<le> venq s \<and> venq s \<le> vdeq s + 8192 \<and>
         ((\<forall>t q. vpc s t \<noteq> C_Read q) \<longrightarrow> fst ` set (got s) = {..<vdeq s})"
proof -
  have "vinv 8192 s" using vinv_reach [OF assms] by simp
  then show ?thesis unfolding vinv_def got_ok_def reading_def by fastforce
qed

lemma bus_transfer:
  "\<exists>s. vreach 8192 e s \<and> tickets s = [m] \<and> got s = [(0, m)] \<and> (\<forall>t q. vpc s t \<noteq> C_Read q)"
proof -
  define s1 where "s1 = goto 0 (P_Load m) (fresh_bus e)"
  define s2 where "s2 = goto 0 (P_Check m 0) s1"
  define s3 where "s3 = goto 0 (P_Cas m 0) s2"
  define s4 where "s4 = goto 0 (P_Write m 0) (s3\<lparr>venq := 1, tickets := [m]\<rparr>)"
  define s5 where "s5 = goto 0 (P_Release m 0) (put_cell 8192 0 \<lparr>vseq = 0, vmsg = m\<rparr> s4)"
  define s6 where "s6 = goto 0 (P_Done True) (put_cell 8192 0 \<lparr>vseq = 1, vmsg = m\<rparr> s5)"
  define s7 where "s7 = goto 0 C_Load s6"
  define s8 where "s8 = goto 0 (C_Check 0) s7"
  define s9 where "s9 = goto 0 (C_Cas 0) s8"
  define s10 where "s10 = goto 0 (C_Read 0) (s9\<lparr>vdeq := 1\<rparr>)"
  define s11 where "s11 = goto 0 (C_Release 0 m) (s10\<lparr>got := [(0, m)]\<rparr>)"
  note defs = s1_def s2_def s3_def s4_def s5_def s6_def s7_def s8_def s9_def s10_def s11_def
  note ev = at_cell_def put_cell_def goto_def fresh_bus_def at_rest_def
  have "vstep 8192 (fresh_bus e) s1" "vstep 8192 s1 s2"
    using vstep.p_call [of "fresh_bus e" 0 8192 m] vstep.p_load [of s1 0 m 8192]
    by (simp_all add: defs ev)
  moreover have "vstep 8192 s2 s3" "vstep 8192 s3 s4"
    using vstep.p_check [of s2 0 m 0 8192] vstep.p_cas_ok [of s3 0 m 0 8192] by (simp_all add: defs ev)
  moreover have "vstep 8192 s4 s5" "vstep 8192 s5 s6"
    using vstep.p_write [of s4 0 m 0 8192] vstep.p_release [of s5 0 m 0 8192] by (simp_all add: defs ev)
  moreover have "vstep 8192 s6 s7" "vstep 8192 s7 s8"
    using vstep.c_call [of s6 0 8192] vstep.c_load [of s7 0 8192] by (auto simp: defs ev)
  moreover have "vstep 8192 s8 s9" "vstep 8192 s9 s10"
    using vstep.c_check [of s8 0 0 8192] vstep.c_cas_ok [of s9 0 0 8192] by (simp_all add: defs ev)
  moreover have "vstep 8192 s10 s11"
    using vstep.c_read [of s10 0 0 8192] by (simp add: defs ev)
  ultimately have "vreach 8192 e s11" by (meson vreach.intros)
  moreover have "tickets s11 = [m]" "got s11 = [(0, m)]" "\<forall>t q. vpc s11 t \<noteq> C_Read q"
    by (simp_all add: defs ev)
  ultimately show ?thesis by blast
qed

theorem bus_exactly_once_witness:
  "\<exists>s. vreach 8192 (0 :: nat) s \<and> got s = [(0, 5)] \<and> fst ` set (got s) = {..<vdeq s}"
proof -
  obtain s :: "nat vsys" where s: "vreach 8192 0 s" "got s = [(0, 5)]" "\<forall>t q. vpc s t \<noteq> C_Read q"
    using bus_transfer [of "0 :: nat" 5] by blast
  from bus_exactly_once [OF s(1)] s(3) have "fst ` set (got s) = {..<vdeq s}" by blast
  with s(1,2) show ?thesis by (intro exI [of _ s] conjI)
qed

text \<open>run alone, at any positions including the ones where the 64-bit counters wrap around, the
  bus is a FIFO queue of capacity 8192: published messages come out in order, publishing to a
  full bus and receiving from an empty one are refused without a change, and neither loop runs
  forever.\<close>

theorem bus_fifo:
  assumes "bus_repr b xs"
  shows "(length xs + length ms \<le> 8192 \<longrightarrow>
            (\<exists>b' b''. bq.enq_all ms b = Some b' \<and> bus_repr b' (xs @ ms) \<and>
               bq.deq_n (length xs + length ms) b' = Some (xs @ ms, b'') \<and> bus_repr b'' []))
       \<and> (length xs = 8192 \<longrightarrow> publish m b = Some (False, b))
       \<and> (xs = [] \<longrightarrow> dequeue b = Some (None, b))
       \<and> pending_count b = of_nat (length xs)"
proof -
  have "\<exists>b' b''. bq.enq_all ms b = Some b' \<and> bus_repr b' (xs @ ms) \<and>
      bq.deq_n (length xs + length ms) b' = Some (xs @ ms, b'') \<and> bus_repr b'' []"
    if "length xs + length ms \<le> 8192"
  proof -
    from bq.enq_all_repr [OF assms that]
    obtain b' where b': "bq.enq_all ms b = Some b'" "bus_repr b' (xs @ ms)" by blast
    moreover obtain b'' where "bq.deq_n (length (xs @ ms)) b' = Some (xs @ ms, b'')" "bus_repr b'' []"
      using bq.deq_n_repr [of b' "xs @ ms" "[]"] b'(2) by auto
    ultimately show ?thesis by auto
  qed
  then show ?thesis
    using assms publish_full [OF assms] dequeue_Nil [of b] by (auto simp: pending_count_def bus_repr_def)
qed

theorem bus_fifo_witness: "dequeue bus_new = Some (None, bus_new) \<and> pending_count bus_new = 0"
  using bus_fifo [OF bus_repr_new] by simp

text \<open>a targeted receive, run alone, always returns; it delivers the oldest message when it is
  addressed to the agent or to all agents, and otherwise moves it to the back of the queue without
  losing it.\<close>

theorem try_recv_moves:
  assumes "bus_repr b xs"
  shows "\<exists>b'. case xs of
      [] \<Rightarrow> try_recv agent b = Some (None, b)
    | m # rest \<Rightarrow>
        if target_agent_id m = agent \<or> target_agent_id m = 0xFFFFFFFF
        then try_recv agent b = Some (Some m, b') \<and> bus_repr b' rest
        else try_recv agent b = Some (None, b') \<and> bus_repr b' (rest @ [m])"
proof (cases xs)
  case Nil
  with assms dequeue_Nil show ?thesis by (simp add: try_recv_def)
next
  case (Cons m rest)
  with assms dequeue_Cons obtain b1 where b1: "dequeue b = Some (Some m, b1)" "bus_repr b1 rest" by blast
  have "length rest < 8192" using assms Cons by (simp add: bus_repr_def)
  with b1(2) republish_room obtain b2 where "republish m b1 = Some b2" "bus_repr b2 (rest @ [m])" by blast
  with b1 Cons show ?thesis by (cases "target_agent_id m = agent \<or> target_agent_id m = 0xFFFFFFFF")
      (auto simp: try_recv_def)
qed

theorem try_recv_moves_witness: "try_recv 3 bus_new = Some (None, bus_new)"
  using try_recv_moves [OF bus_repr_new] by simp

end
