(* ===== verification/Deque.thy ===== *)
theory Deque
  imports Prelude "HOL-Library.Multiset"
begin

text \<open>
  The work-stealing deque of \<open>soul_scheduler/src/queue.rs\<close> and the submission path of
  \<open>scheduler.rs\<close> and \<open>api.rs\<close>.

  First the operations run alone, on 64-bit indices that wrap, against the list they represent: the
  owner works at the end, thieves at the front. Then one owner and any number of thieves under
  interleaving of their atomic actions, with every pushed task given a number of its own, to state
  that no task is handed out twice and that one can be lost.
\<close>

unbundle bit_operations_syntax

section \<open>The deque\<close>

text \<open>A task is a function address and a context address.\<close>

record Task =
  task_execute :: u64
  task_context :: u64

definition DEQUE_CAPACITY :: usize where "DEQUE_CAPACITY = 4096"
definition DEQUE_MASK :: usize where "DEQUE_MASK = DEQUE_CAPACITY - 1"

record LockFreeTaskDeque =
  head :: usize
  tail :: usize
  buffer :: "nat \<Rightarrow> Task option"

definition deque_new :: LockFreeTaskDeque where
  "deque_new = \<lparr>head = 0, tail = 0, buffer = (\<lambda>_. None)\<rparr>"

definition ring_index :: "usize \<Rightarrow> nat" where
  "ring_index i = unat (i AND DEQUE_MASK)"

definition push :: "Task \<Rightarrow> LockFreeTaskDeque \<Rightarrow> bool \<times> LockFreeTaskDeque" where
  "push task d =
     (let t = tail d; h = head d in
      if t - h \<ge> DEQUE_CAPACITY then (False, d)
      else (True, d\<lparr>buffer := (buffer d)(ring_index t := Some task), tail := t + 1\<rparr>))"

text \<open>Alone, the compare-exchange of \<open>pop\<close> and \<open>steal\<close> succeeds.\<close>

definition pop :: "LockFreeTaskDeque \<Rightarrow> Task option \<times> LockFreeTaskDeque" where
  "pop d =
     (let t = tail d - 1; d = d\<lparr>tail := t\<rparr>; h = head d in
      if h \<le> t then
        let task = buffer d (ring_index t); d = d\<lparr>buffer := (buffer d)(ring_index t := None)\<rparr> in
        if h = t then (task, d\<lparr>head := h + 1, tail := t + 1\<rparr>) else (task, d)
      else (None, d\<lparr>tail := t + 1\<rparr>))"

definition steal :: "LockFreeTaskDeque \<Rightarrow> Task option \<times> LockFreeTaskDeque" where
  "steal d =
     (let h = head d; t = tail d in
      if h \<ge> t then (None, d)
      else (buffer d (ring_index h),
            d\<lparr>head := h + 1, buffer := (buffer d)(ring_index h := None)\<rparr>))"

definition deque_len :: "LockFreeTaskDeque \<Rightarrow> usize" where
  "deque_len d = tail d - head d"

definition deque_is_empty :: "LockFreeTaskDeque \<Rightarrow> bool" where
  "deque_is_empty d \<longleftrightarrow> deque_len d = 0"

section \<open>Submission\<close>

text \<open>\<open>AgentScheduler::submit_to\<close> on the workers' deques, with the counter of submitted tasks, and
  the C interface on a pointer that may be null.\<close>

record AgentScheduler =
  workers :: "LockFreeTaskDeque list"
  running :: bool
  tasks_submitted :: nat

definition submit_to :: "nat \<Rightarrow> Task \<Rightarrow> AgentScheduler \<Rightarrow> bool \<times> AgentScheduler" where
  "submit_to core_id task s =
     (if core_id \<ge> length (workers s) then (False, s)
      else let s = s\<lparr>tasks_submitted := tasks_submitted s + 1\<rparr>;
               (ok, d) = push task (workers s ! core_id)
           in (ok, s\<lparr>workers := (workers s)[core_id := d]\<rparr>))"

definition shutdown :: "AgentScheduler \<Rightarrow> AgentScheduler" where
  "shutdown s = s\<lparr>running := False\<rparr>"

definition worker_count :: "AgentScheduler \<Rightarrow> nat" where
  "worker_count s = length (workers s)"

definition soul_scheduler_submit_task ::
    "AgentScheduler option \<Rightarrow> u32 \<Rightarrow> u64 \<Rightarrow> u64 \<Rightarrow> int \<times> AgentScheduler option" where
  "soul_scheduler_submit_task ptr core_id execute_fn context_ptr =
     (case ptr of
        None \<Rightarrow> (- 1, None)
      | Some s \<Rightarrow>
        (case submit_to (unat core_id) \<lparr>task_execute = execute_fn, task_context = context_ptr\<rparr> s of
           (True, s) \<Rightarrow> (0, Some s)
         | (False, s) \<Rightarrow> (- 2, Some s)))"

text \<open>One pass of a worker: its own deque first, then the peers of its socket in order, then, on a
  NUMA machine, the others. The task it runs is the first one found.\<close>

fun steal_from :: "nat list \<Rightarrow> LockFreeTaskDeque list \<Rightarrow> (nat \<times> Task) option \<times> LockFreeTaskDeque list" where
  "steal_from [] ws = (None, ws)"
| "steal_from (peer # peers) ws =
     (case steal (ws ! peer) of
        (Some task, d) \<Rightarrow> (Some (peer, task), ws[peer := d])
      | (None, d) \<Rightarrow> steal_from peers (ws[peer := d]))"

definition worker_pass :: "nat \<Rightarrow> nat list \<Rightarrow> bool \<Rightarrow> nat list \<Rightarrow> LockFreeTaskDeque list
    \<Rightarrow> Task option \<times> LockFreeTaskDeque list" where
  "worker_pass me intra_socket_peers is_numa inter_socket_peers ws =
     (case pop (ws ! me) of
        (Some task, d) \<Rightarrow> (Some task, ws[me := d])
      | (None, d) \<Rightarrow>
        (case steal_from intra_socket_peers (ws[me := d]) of
           (Some (_, task), ws) \<Rightarrow> (Some task, ws)
         | (None, ws) \<Rightarrow>
           if is_numa then map_prod (map_option snd) id (steal_from inter_socket_peers ws)
           else (None, ws)))"

section \<open>The represented list\<close>

definition deque_repr :: "LockFreeTaskDeque \<Rightarrow> Task list \<Rightarrow> bool" where
  "deque_repr d xs \<longleftrightarrow>
     unat (tail d) = unat (head d) + length xs \<and> length xs \<le> 4096 \<and>
     (\<forall>i < length xs. buffer d ((unat (head d) + i) mod 4096) = Some (xs ! i))"

lemma ring_index_mod: "ring_index i = unat i mod 4096"
proof -
  have "DEQUE_MASK = mask 12" by (simp add: DEQUE_MASK_def DEQUE_CAPACITY_def mask_eq_exp_minus_1)
  then have "ring_index i = unat (take_bit 12 i)"
    by (simp add: ring_index_def take_bit_eq_mask)
  then show ?thesis by (simp add: take_bit_eq_mod unat_mod_distrib)
qed

lemma ring_distinct:
  fixes a :: nat
  assumes "i < 4096" "k < 4096" "(a + i) mod 4096 = (a + k) mod 4096"
  shows "i = k"
proof -
  have "(a mod 4096 + i) mod 4096 = (a mod 4096 + k) mod 4096" "a mod 4096 < 4096"
    using assms by (simp_all add: mod_add_left_eq)
  moreover have "x mod 4096 = (if x < 4096 then x else x - 4096)" if "x < 4096 + 4096" for x :: nat
    using that by (simp add: le_mod_geq)
  ultimately show ?thesis using assms(1,2) by (simp split: if_splits)
qed

lemma deque_repr_new: "deque_repr deque_new []"
  by (simp add: deque_repr_def deque_new_def)

lemma deque_repr_sub: "deque_repr d xs \<Longrightarrow> unat (tail d - head d) = length xs"
  by (subst unat_sub) (auto simp: deque_repr_def word_le_nat_alt)

lemma unat_plus_one: "unat (x :: usize) + 1 < 2 ^ 64 \<Longrightarrow> unat (x + 1) = unat x + 1"
  by (simp add: unat_word_ariths)

lemma push_full: "deque_repr d xs \<Longrightarrow> length xs = 4096 \<Longrightarrow> push x d = (False, d)"
  using deque_repr_sub [of d xs] by (simp add: push_def DEQUE_CAPACITY_def word_le_nat_alt)

lemma push_room:
  assumes r: "deque_repr d xs" and "length xs < 4096" "unat (tail d) + 1 < 2 ^ 64"
  shows "\<exists>d'. push x d = (True, d') \<and> deque_repr d' (xs @ [x])"
proof -
  let ?d = "d\<lparr>buffer := (buffer d)(ring_index (tail d) := Some x), tail := tail d + 1\<rparr>"
  have p: "push x d = (True, ?d)"
    using deque_repr_sub [OF r] assms(2)
    by (simp add: push_def Let_def DEQUE_CAPACITY_def word_le_nat_alt)
  have t: "ring_index (tail d) = (unat (head d) + length xs) mod 4096"
    using r by (simp add: ring_index_mod deque_repr_def)
  have "(unat (head d) + i) mod 4096 \<noteq> (unat (head d) + length xs) mod 4096" if "i < length xs" for i
    using ring_distinct [of i "length xs" "unat (head d)"] that assms(2) by auto
  then have "deque_repr ?d (xs @ [x])"
    using r assms unat_plus_one [OF assms(3)]
    by (auto simp: deque_repr_def t nth_append less_Suc_eq)
  with p show ?thesis by blast
qed

lemma steal_Nil: "deque_repr d [] \<Longrightarrow> steal d = (None, d)"
  by (simp add: steal_def deque_repr_def word_le_nat_alt)

lemma steal_Cons:
  assumes r: "deque_repr d (x # xs)"
  shows "\<exists>d'. steal d = (Some x, d') \<and> deque_repr d' xs"
proof -
  let ?d = "d\<lparr>head := head d + 1, buffer := (buffer d)(ring_index (head d) := None)\<rparr>"
  have lt: "unat (head d) < unat (tail d)" using r by (simp add: deque_repr_def)
  have x: "buffer d (ring_index (head d)) = Some x"
    using r by (auto simp: deque_repr_def ring_index_mod dest: spec [where x = 0])
  then have s: "steal d = (Some x, ?d)" using lt by (simp add: steal_def Let_def word_le_nat_alt)
  have "unat (tail d) < 2 ^ 64" using unsigned_less [of "tail d", where 'a = nat] by simp
  then have h: "unat (head d + 1) = unat (head d) + 1" using lt by (intro unat_plus_one) simp
  have "(unat (head d) + Suc i) mod 4096 \<noteq> unat (head d) mod 4096" if "i < length xs" for i
    using ring_distinct [of "Suc i" 0 "unat (head d)"] that r by (auto simp: deque_repr_def)
  moreover have "buffer d ((unat (head d) + Suc i) mod 4096) = Some (xs ! i)" if "i < length xs" for i
    using r that by (auto simp: deque_repr_def dest: spec [where x = "Suc i"])
  ultimately have "deque_repr ?d xs"
    using r h by (auto simp: deque_repr_def ring_index_mod)
  with s show ?thesis by blast
qed

lemma pop_snoc:
  assumes r: "deque_repr d (xs @ [x])"
  shows "\<exists>d'. pop d = (Some x, d') \<and> deque_repr d' xs"
proof -
  let ?t = "tail d - 1"
  have lt: "unat (head d) + length xs + 1 = unat (tail d)" using r by (simp add: deque_repr_def)
  then have ut: "unat ?t = unat (head d) + length xs"
    by (subst unat_sub) (auto simp: word_le_nat_alt)
  have le: "head d \<le> ?t" using ut by (simp add: word_le_nat_alt)
  have ri: "ring_index ?t = (unat (head d) + length xs) mod 4096" by (simp add: ring_index_mod ut)
  have bx: "buffer d (ring_index ?t) = Some x"
    using r by (auto simp: deque_repr_def ri dest: spec [where x = "length xs"])
  have other: "(unat (head d) + i) mod 4096 \<noteq> ring_index ?t" if "i < length xs" for i
    using ring_distinct [of i "length xs" "unat (head d)"] that r by (auto simp: ri deque_repr_def)
  have old: "buffer d ((unat (head d) + i) mod 4096) = Some (xs ! i)" if "i < length xs" for i
    using r that by (auto simp: deque_repr_def nth_append dest: spec [where x = i])
  show ?thesis
  proof (cases "head d = ?t")
    case True
    then have "xs = []" using ut by simp
    moreover have "pop d = (Some x, d\<lparr>head := ?t + 1, tail := ?t + 1, buffer := (buffer d)(ring_index ?t := None)\<rparr>)"
      using True bx by (simp add: pop_def Let_def)
    ultimately show ?thesis by (simp add: deque_repr_def)
  next
    case False
    then have "pop d = (Some x, d\<lparr>tail := ?t, buffer := (buffer d)(ring_index ?t := None)\<rparr>)"
      using le bx by (simp add: pop_def Let_def)
    moreover have "deque_repr (d\<lparr>tail := ?t, buffer := (buffer d)(ring_index ?t := None)\<rparr>) xs"
      using r ut other old by (auto simp: deque_repr_def)
    ultimately show ?thesis by blast
  qed
qed

lemma pop_Nil:
  assumes "deque_repr d []" "tail d \<noteq> 0"
  shows "pop d = (None, d)"
proof -
  have "unat (tail d - 1) = unat (head d) - 1" "0 < unat (head d)"
    using assms by (auto simp: deque_repr_def unat_minus_one word_unat_eq_iff)
  then have "\<not> head d \<le> tail d - 1" by (simp add: word_le_nat_alt)
  then show ?thesis by (simp add: pop_def Let_def)
qed

section \<open>Owner and thieves\<close>

text \<open>A task with the number of its push.\<close>

type_synonym ticket = "nat \<times> Task"

text \<open>The owner: between operations; having passed the capacity check of \<open>push\<close> with tail \<open>t\<close>; having
  written the slot; in \<open>pop\<close>, after the store of the decremented tail; after the load of the
  head \<open>h\<close>; after taking the slot; about to restore the tail and return a result.\<close>

datatype owner =
    O_Idle
  | O_Write Task usize
  | O_Publish usize
  | O_Load_Head usize
  | O_Take usize usize
  | O_Taken usize usize "ticket option"
  | O_Restore usize "ticket option"

datatype thief =
    T_Idle
  | T_Head usize
  | T_Cas usize
  | T_Take usize

record dsys =
  dhead :: usize
  dtail :: usize
  dbuf :: "nat \<Rightarrow> ticket option"
  downer :: owner
  dthief :: "nat \<Rightarrow> thief"
  next_ticket :: nat
  handed_out :: "ticket list"

definition hand :: "ticket option \<Rightarrow> dsys \<Rightarrow> dsys" where
  "hand r s = (case r of None \<Rightarrow> s | Some x \<Rightarrow> s\<lparr>handed_out := handed_out s @ [x]\<rparr>)"

inductive dstep :: "dsys \<Rightarrow> dsys \<Rightarrow> bool" where
  push_check: "downer s = O_Idle \<Longrightarrow> \<not> dtail s - dhead s \<ge> DEQUE_CAPACITY \<Longrightarrow>
     dstep s (s\<lparr>downer := O_Write task (dtail s)\<rparr>)"
| push_write: "downer s = O_Write task t \<Longrightarrow>
     dstep s (s\<lparr>dbuf := (dbuf s)(ring_index t := Some (next_ticket s, task)),
                next_ticket := next_ticket s + 1, downer := O_Publish t\<rparr>)"
| push_publish: "downer s = O_Publish t \<Longrightarrow> dstep s (s\<lparr>dtail := t + 1, downer := O_Idle\<rparr>)"
| pop_start: "downer s = O_Idle \<Longrightarrow>
     dstep s (s\<lparr>dtail := dtail s - 1, downer := O_Load_Head (dtail s - 1)\<rparr>)"
| pop_head: "downer s = O_Load_Head t \<Longrightarrow>
     dstep s (s\<lparr>downer := if dhead s \<le> t then O_Take t (dhead s) else O_Restore t None\<rparr>)"
| pop_take: "downer s = O_Take t h \<Longrightarrow>
     dstep s (s\<lparr>dbuf := (dbuf s)(ring_index t := None), downer := O_Taken t h (dbuf s (ring_index t))\<rparr>)"
| pop_many: "downer s = O_Taken t h r \<Longrightarrow> h \<noteq> t \<Longrightarrow> dstep s (hand r (s\<lparr>downer := O_Idle\<rparr>))"
| pop_last_won: "downer s = O_Taken t h r \<Longrightarrow> h = t \<Longrightarrow> dhead s = h \<Longrightarrow>
     dstep s (s\<lparr>dhead := h + 1, downer := O_Restore t r\<rparr>)"
| pop_last_lost: "downer s = O_Taken t h r \<Longrightarrow> h = t \<Longrightarrow> dhead s \<noteq> h \<Longrightarrow>
     dstep s (s\<lparr>downer := O_Restore t None\<rparr>)"
| pop_restore: "downer s = O_Restore t r \<Longrightarrow>
     dstep s (hand r (s\<lparr>dtail := t + 1, downer := O_Idle\<rparr>))"
| steal_head: "dthief s i = T_Idle \<Longrightarrow> dstep s (s\<lparr>dthief := (dthief s)(i := T_Head (dhead s))\<rparr>)"
| steal_tail: "dthief s i = T_Head h \<Longrightarrow>
     dstep s (s\<lparr>dthief := (dthief s)(i := if h \<ge> dtail s then T_Idle else T_Cas h)\<rparr>)"
| steal_won: "dthief s i = T_Cas h \<Longrightarrow> dhead s = h \<Longrightarrow>
     dstep s (s\<lparr>dhead := h + 1, dthief := (dthief s)(i := T_Take h)\<rparr>)"
| steal_lost: "dthief s i = T_Cas h \<Longrightarrow> dhead s \<noteq> h \<Longrightarrow>
     dstep s (s\<lparr>dthief := (dthief s)(i := T_Idle)\<rparr>)"
| steal_take: "dthief s i = T_Take h \<Longrightarrow>
     dstep s (hand (dbuf s (ring_index h))
       (s\<lparr>dbuf := (dbuf s)(ring_index h := None), dthief := (dthief s)(i := T_Idle)\<rparr>))"

definition dfresh :: dsys where
  "dfresh = \<lparr>dhead = 0, dtail = 0, dbuf = (\<lambda>_. None), downer = O_Idle, dthief = (\<lambda>_. T_Idle),
     next_ticket = 0, handed_out = []\<rparr>"

inductive dreach :: "dsys \<Rightarrow> bool" where
  start: "dreach dfresh"
| step: "dreach s \<Longrightarrow> dstep s s' \<Longrightarrow> dreach s'"

text \<open>The ticket the owner holds while it pops.\<close>

fun in_hand :: "owner \<Rightarrow> ticket option" where
  "in_hand (O_Taken t h r) = r"
| "in_hand (O_Restore t r) = r"
| "in_hand w = None"

text \<open>A ticket number is in at most one place: a slot, the owner's hand, or the list of those
  handed out, once.\<close>

definition ticket_inv :: "(nat \<Rightarrow> nat option) \<Rightarrow> nat option \<Rightarrow> nat list \<Rightarrow> nat \<Rightarrow> bool" where
  "ticket_inv sl h outs k \<longleftrightarrow>
     distinct outs \<and> (\<forall>i j n. sl i = Some n \<longrightarrow> sl j = Some n \<longrightarrow> i = j) \<and>
     (\<forall>i n. sl i = Some n \<longrightarrow> h \<noteq> Some n \<and> n \<notin> set outs \<and> n < k) \<and>
     (\<forall>n. h = Some n \<longrightarrow> n \<notin> set outs \<and> n < k) \<and> (\<forall>n \<in> set outs. n < k)"

lemma ticket_inv_give: "ticket_inv sl (Some n) outs k \<Longrightarrow> ticket_inv sl None (outs @ [n]) k"
  unfolding ticket_inv_def by auto

lemma ticket_inv_take: "ticket_inv sl None outs k \<Longrightarrow> ticket_inv (sl(i := None)) (sl i) outs k"
  unfolding ticket_inv_def by auto

lemma ticket_inv_drop: "ticket_inv sl h outs k \<Longrightarrow> ticket_inv sl None outs k"
  unfolding ticket_inv_def by auto

lemma ticket_inv_out: "ticket_inv sl h outs k \<Longrightarrow> sl i = Some n \<Longrightarrow> ticket_inv (sl(i := None)) h (outs @ [n]) k"
  unfolding ticket_inv_def by auto

lemma ticket_inv_put: "ticket_inv sl h outs k \<Longrightarrow> ticket_inv (sl(i := Some k)) h outs (Suc k)"
  unfolding ticket_inv_def by (auto simp: less_Suc_eq)

definition dinv :: "dsys \<Rightarrow> bool" where
  "dinv s \<longleftrightarrow> ticket_inv (\<lambda>i. map_option fst (dbuf s i)) (map_option fst (in_hand (downer s)))
     (map fst (handed_out s)) (next_ticket s)"

lemma dinv_fresh: "dinv dfresh"
  by (simp add: dinv_def ticket_inv_def dfresh_def)

lemma slots_upd: "(\<lambda>i. map_option f ((b(k := v)) i)) = (\<lambda>i. map_option f (b i))(k := map_option f v)"
  by auto

lemma dinv_step: "dstep s s' \<Longrightarrow> dinv s \<Longrightarrow> dinv s'"
proof (induction rule: dstep.induct)
  case (push_write s task t)
  then show ?case by (simp add: dinv_def slots_upd ticket_inv_put del: fun_upd_apply)
next
  case (pop_take s t h)
  then show ?case
    using ticket_inv_take [of "\<lambda>i. map_option fst (dbuf s i)" _ _ "ring_index t"]
    by (simp add: dinv_def slots_upd del: fun_upd_apply)
next
  case (pop_many s t h r)
  then show ?case by (cases r) (auto simp: dinv_def hand_def ticket_inv_give)
next
  case (pop_last_lost s t h r)
  then show ?case by (auto simp: dinv_def intro: ticket_inv_drop)
next
  case (pop_restore s t r)
  then show ?case by (cases r) (auto simp: dinv_def hand_def ticket_inv_give)
next
  case (steal_take s i h)
  show ?case
  proof (cases "dbuf s (ring_index h)")
    case None
    then have "(dbuf s)(ring_index h := None) = dbuf s" by auto
    with None steal_take show ?thesis by (simp add: dinv_def hand_def)
  next
    case (Some tk)
    with steal_take ticket_inv_out [of "\<lambda>i. map_option fst (dbuf s i)" _ _ _ "ring_index h" "fst tk"]
    show ?thesis by (simp add: dinv_def hand_def slots_upd del: fun_upd_apply)
  qed
qed (simp_all add: dinv_def)

lemma dinv_reach: "dreach s \<Longrightarrow> dinv s"
  by (induction rule: dreach.induct) (auto intro: dinv_fresh dinv_step)

section \<open>Sequences of operations\<close>

datatype deque_op = Push Task | Pop | Steal
datatype deque_result = Pushed bool | Got "Task option"

fun deque_run :: "deque_op list \<Rightarrow> LockFreeTaskDeque \<Rightarrow> deque_result list \<times> LockFreeTaskDeque" where
  "deque_run [] d = ([], d)"
| "deque_run (Push x # ops) d =
     (let (ok, d) = push x d; (rs, d) = deque_run ops d in (Pushed ok # rs, d))"
| "deque_run (Pop # ops) d = (let (r, d) = pop d; (rs, d) = deque_run ops d in (Got r # rs, d))"
| "deque_run (Steal # ops) d = (let (r, d) = steal d; (rs, d) = deque_run ops d in (Got r # rs, d))"

text \<open>The same on a list of at most 4096 tasks: push and pop at the end, steal at the front.\<close>

fun list_run :: "deque_op list \<Rightarrow> Task list \<Rightarrow> deque_result list \<times> Task list" where
  "list_run [] xs = ([], xs)"
| "list_run (Push x # ops) xs =
     (let (rs, ys) = list_run ops (if length xs < 4096 then xs @ [x] else xs)
      in (Pushed (length xs < 4096) # rs, ys))"
| "list_run (Pop # ops) xs =
     (let (rs, ys) = list_run ops (butlast xs)
      in (Got (if xs = [] then None else Some (last xs)) # rs, ys))"
| "list_run (Steal # ops) xs =
     (let (rs, ys) = list_run ops (tl xs)
      in (Got (if xs = [] then None else Some (hd xs)) # rs, ys))"

text \<open>One law per operation, on a deque whose head has moved off zero. The tail moves by at most one.\<close>

definition deque_live :: "nat \<Rightarrow> LockFreeTaskDeque \<Rightarrow> Task list \<Rightarrow> bool" where
  "deque_live k d xs \<longleftrightarrow> deque_repr d xs \<and> 0 < unat (head d) \<and> unat (tail d) + k < 2 ^ 64"

lemma push_head: "push x d = (ok, d') \<Longrightarrow> head d' = head d \<and> unat (tail d') \<le> unat (tail d) + 1"
  by (auto simp: push_def Let_def unat_word_ariths split: if_splits intro: order_trans [OF mod_less_eq_dividend])

lemma push_law:
  assumes "deque_live (Suc k) d xs"
  shows "\<exists>d'. push x d = (length xs < 4096, d') \<and>
    deque_live k d' (if length xs < 4096 then xs @ [x] else xs)"
proof (cases "length xs < 4096")
  case True
  then obtain d' where "push x d = (True, d')" "deque_repr d' (xs @ [x])"
    using push_room [of d xs x] assms by (auto simp: deque_live_def)
  then show ?thesis using True push_head [of x d True d'] assms by (auto simp: deque_live_def)
next
  case False
  then have "length xs = 4096" using assms by (simp add: deque_live_def deque_repr_def)
  then show ?thesis using push_full [of d xs x] assms by (simp add: deque_live_def)
qed

lemma steal_law:
  assumes "deque_live (Suc k) d xs"
  shows "\<exists>d'. steal d = (if xs = [] then None else Some (hd xs), d') \<and> deque_live k d' (tl xs)"
proof (cases xs)
  case Nil
  then show ?thesis using steal_Nil [of d] assms by (simp add: deque_live_def)
next
  case (Cons y ys)
  then obtain d' where d': "steal d = (Some y, d')" "deque_repr d' ys"
    using steal_Cons [of d y ys] assms by (auto simp: deque_live_def)
  then have "tail d' = tail d" by (auto simp: steal_def Let_def split: if_splits)
  moreover have "unat (head d) + 1 = unat (head d')"
    using d' \<open>tail d' = tail d\<close> Cons assms by (auto simp: deque_live_def deque_repr_def)
  ultimately show ?thesis using d' Cons assms by (auto simp: deque_live_def)
qed

lemma pop_law:
  assumes "deque_live (Suc k) d xs"
  shows "\<exists>d'. pop d = (if xs = [] then None else Some (last xs), d') \<and> deque_live k d' (butlast xs)"
proof (cases xs rule: rev_cases)
  case Nil
  then have "tail d \<noteq> 0" using assms by (auto simp: deque_live_def deque_repr_def)
  then show ?thesis using pop_Nil [of d] Nil assms by (simp add: deque_live_def)
next
  case (snoc ys y)
  then obtain d' where d': "pop d = (Some y, d')" "deque_repr d' ys"
    using pop_snoc [of d ys y] assms by (auto simp: deque_live_def)
  have t: "0 < unat (tail d)" "unat (tail d) = unat (head d) + length xs"
    using assms by (auto simp: deque_live_def deque_repr_def)
  then have "unat (tail d - 1) = unat (tail d) - 1" by (simp add: unat_minus_one word_unat_eq_iff)
  moreover have "head d' = head d \<or> head d' = tail d" "tail d' = tail d \<or> tail d' = tail d - 1"
    using d'(1) by (auto simp: pop_def Let_def split: if_splits)
  ultimately have "0 < unat (head d')" "unat (tail d') \<le> unat (tail d)"
    using t assms by (auto simp: deque_live_def)
  then show ?thesis using d' snoc assms by (auto simp: deque_live_def)
qed

lemma deque_run_live:
  "deque_live (length ops) d xs \<Longrightarrow>
     fst (deque_run ops d) = fst (list_run ops xs) \<and> deque_live 0 (snd (deque_run ops d)) (snd (list_run ops xs))"
proof (induction ops arbitrary: d xs)
  case (Cons op ops)
  show ?case
  proof (cases op)
    case (Push x)
    from push_law [of "length ops" d xs x] Cons.prems obtain d' where
      "push x d = (length xs < 4096, d')" "deque_live (length ops) d' (if length xs < 4096 then xs @ [x] else xs)"
      by auto
    with Push Cons.IH [of d'] show ?thesis by (fastforce simp: split_beta)
  next
    case Pop
    from pop_law [of "length ops" d xs] Cons.prems obtain d' where
      "pop d = (if xs = [] then None else Some (last xs), d')" "deque_live (length ops) d' (butlast xs)"
      by auto
    with Pop Cons.IH [of d'] show ?thesis by (fastforce simp: split_beta)
  next
    case Steal
    from steal_law [of "length ops" d xs] Cons.prems obtain d' where
      "steal d = (if xs = [] then None else Some (hd xs), d')" "deque_live (length ops) d' (tl xs)"
      by auto
    with Steal Cons.IH [of d'] show ?thesis by (fastforce simp: split_beta)
  qed
qed (simp add: deque_live_def)

text \<open>C28: Run alone, the deque is the list it represents: from any deque that holds the tasks \<open>xs\<close>,
  whose head index has left zero and whose indices do not reach the end of the 64-bit range, every
  sequence of pushes, pops and steals answers exactly what the list answers (push accepts up to 4096
  tasks and appends, pop takes the last task, steal the first, both answer nothing on the empty list)
  and ends in a deque that holds the resulting list.\<close>

theorem deque_refines_list:
  assumes "deque_repr d xs" "0 < unat (head d)" "unat (tail d) + length ops < 2 ^ 64"
  shows "fst (deque_run ops d) = fst (list_run ops xs) \<and>
    deque_repr (snd (deque_run ops d)) (snd (list_run ops xs))"
  using deque_run_live [of ops d xs] assms by (auto simp: deque_live_def)

text \<open>A deque after one push and one steal.\<close>

definition used_deque :: LockFreeTaskDeque where
  "used_deque = snd (steal (snd (push \<lparr>task_execute = 1, task_context = 1\<rparr> deque_new)))"

lemma used_deque_eq: "used_deque = \<lparr>head = 1, tail = 1, buffer = (\<lambda>_. None)\<rparr>"
  by (auto simp: used_deque_def deque_new_def push_def steal_def Let_def DEQUE_CAPACITY_def)

theorem deque_refines_list_witness:
  "fst (deque_run [Push \<lparr>task_execute = 2, task_context = 20\<rparr>, Push \<lparr>task_execute = 3, task_context = 30\<rparr>,
      Steal, Pop, Pop] used_deque) =
   [Pushed True, Pushed True, Got (Some \<lparr>task_execute = 2, task_context = 20\<rparr>),
    Got (Some \<lparr>task_execute = 3, task_context = 30\<rparr>), Got None]"
  using deque_refines_list [of used_deque "[]" "[Push \<lparr>task_execute = 2, task_context = 20\<rparr>,
      Push \<lparr>task_execute = 3, task_context = 30\<rparr>, Steal, Pop, Pop]"]
  by (simp add: used_deque_eq deque_repr_def)

section \<open>Handing out\<close>

text \<open>With one owner and any number of thieves, under every interleaving of their loads, stores,
  exchanges and slot accesses, no pushed task is handed out twice, and every task handed out was
  pushed: the numbers of the handed out tasks are distinct and were all issued by a push. The slot
  accesses are taken as indivisible.\<close>

theorem deque_at_most_once:
  assumes "dreach s"
  shows "distinct (map fst (handed_out s)) \<and> (\<forall>n. n \<in> set (map fst (handed_out s)) \<longrightarrow> n < next_ticket s)"
  using dinv_reach [OF assms] by (auto simp: dinv_def ticket_inv_def)

text \<open>The race for the only task: the thief reads both indices, the owner pops and takes the slot, the
  thief wins the exchange.\<close>

abbreviation dstate where
  "dstate h t b w v k outs \<equiv> \<lparr>dhead = h, dtail = t, dbuf = b, downer = w, dthief = v, next_ticket = k,
     handed_out = outs\<rparr>"

lemmas dreach_then = dreach.step [rotated]

lemma one_task_offered:
  "dreach (dstate 0 1 ((\<lambda>_. None)(0 := Some (0, x))) O_Idle (\<lambda>_. T_Idle) 1 [])"
proof -
  have "dreach (dstate 0 0 (\<lambda>_. None) (O_Write x 0) (\<lambda>_. T_Idle) 0 [])"
    using dreach_then [OF push_check [of dfresh x] dreach.start] by (simp add: dfresh_def DEQUE_CAPACITY_def)
  from dreach_then [OF push_write this]
  have "dreach (dstate 0 0 ((\<lambda>_. None)(0 := Some (0, x))) (O_Publish 0) (\<lambda>_. T_Idle) 1 [])"
    by (simp add: ring_index_def)
  from dreach_then [OF push_publish this] show ?thesis by simp
qed

theorem deque_at_most_once_witness:
  "\<exists>s. dreach s \<and> handed_out s = [(0, \<lparr>task_execute = 1, task_context = 1\<rparr>)] \<and> distinct (map fst (handed_out s)) \<and> 0 < next_ticket s"
proof -
  let ?x = "\<lparr>task_execute = 1, task_context = 1\<rparr> :: Task"
  have "dreach (dstate 0 1 ((\<lambda>_. None)(0 := Some (0, ?x))) O_Idle ((\<lambda>_. T_Idle)(1 := T_Head 0)) 1 [])"
    using dreach_then [OF steal_head [where i = 1] one_task_offered] by simp
  from dreach_then [OF steal_tail [where i = 1] this]
  have "dreach (dstate 0 1 ((\<lambda>_. None)(0 := Some (0, ?x))) O_Idle ((\<lambda>_. T_Idle)(1 := T_Cas 0)) 1 [])"
    by simp
  from dreach_then [OF steal_won [where i = 1] this]
  have "dreach (dstate 1 1 ((\<lambda>_. None)(0 := Some (0, ?x))) O_Idle ((\<lambda>_. T_Idle)(1 := T_Take 0)) 1 [])"
    by simp
  from dreach_then [OF steal_take [where i = 1] this]
  have "dreach (dstate 1 1 (\<lambda>_. None) O_Idle (\<lambda>_. T_Idle) 1 [(0, ?x)])"
    by (simp add: hand_def ring_index_def fun_upd_idem)
  from this deque_at_most_once [OF this] show ?thesis by (intro exI conjI) auto
qed

lemma race_for_one_task:
  "dreach (dstate 0 0 (\<lambda>_. None) (O_Taken 0 0 (Some (0, x))) ((\<lambda>_. T_Idle)(1 := T_Cas 0)) 1 [])"
proof -
  have "dreach (dstate 0 1 ((\<lambda>_. None)(0 := Some (0, x))) O_Idle ((\<lambda>_. T_Idle)(1 := T_Head 0)) 1 [])"
    using dreach_then [OF steal_head [where i = 1] one_task_offered] by simp
  from dreach_then [OF steal_tail [where i = 1] this]
  have "dreach (dstate 0 1 ((\<lambda>_. None)(0 := Some (0, x))) O_Idle ((\<lambda>_. T_Idle)(1 := T_Cas 0)) 1 [])"
    by simp
  from dreach_then [OF pop_start this]
  have "dreach (dstate 0 0 ((\<lambda>_. None)(0 := Some (0, x))) (O_Load_Head 0) ((\<lambda>_. T_Idle)(1 := T_Cas 0)) 1 [])"
    by simp
  from dreach_then [OF pop_head this]
  have "dreach (dstate 0 0 ((\<lambda>_. None)(0 := Some (0, x))) (O_Take 0 0) ((\<lambda>_. T_Idle)(1 := T_Cas 0)) 1 [])"
    by simp
  from dreach_then [OF pop_take this] show ?thesis by (simp add: ring_index_def)
qed

text \<open>A task can be lost. From a fresh deque there is an interleaving of one push, one pop and one
  steal after which both threads are between operations, the deque is empty, one task was pushed and
  none was handed out: the owner empties the slot before its exchange on the head, the thief wins the
  exchange and finds the slot empty, and the owner discards what it took.\<close>

theorem deque_can_lose_a_task:
  "\<exists>s. dreach s \<and> downer s = O_Idle \<and> (\<forall>i. dthief s i = T_Idle) \<and> dhead s = dtail s \<and>
     (\<forall>i. dbuf s i = None) \<and> next_ticket s = 1 \<and> handed_out s = []"
proof -
  fix x
  have "dreach (dstate 1 0 (\<lambda>_. None) (O_Taken 0 0 (Some (0, x))) ((\<lambda>_. T_Idle)(1 := T_Take 0)) 1 [])"
    using dreach_then [OF steal_won [where i = 1] race_for_one_task] by simp
  from dreach_then [OF steal_take [where i = 1] this]
  have "dreach (dstate 1 0 (\<lambda>_. None) (O_Taken 0 0 (Some (0, x))) (\<lambda>_. T_Idle) 1 [])"
    by (simp add: hand_def fun_upd_idem)
  from dreach_then [OF pop_last_lost this]
  have "dreach (dstate 1 0 (\<lambda>_. None) (O_Restore 0 None) (\<lambda>_. T_Idle) 1 [])" by simp
  from dreach_then [OF pop_restore this]
  have "dreach (dstate 1 1 (\<lambda>_. None) O_Idle (\<lambda>_. T_Idle) 1 [])" by (simp add: hand_def)
  then show ?thesis by (intro exI conjI) auto
qed

text \<open>A pop on a fresh deque breaks it: the tail, zero, wraps to the largest index, the bound check
  passes and the tail is not restored. The pop answers nothing and from then on every push is
  refused as if the deque were full. An idle worker does exactly this in its first pass.\<close>

theorem pop_on_fresh_deque_wraps:
  "\<exists>d. pop deque_new = (None, d) \<and> unat (tail d) = 2 ^ 64 - 1 \<and> deque_len d = - 1 \<and>
     (\<forall>task. push task d = (False, d))"
proof -
  have m: "unat (- 1 :: usize) = 2 ^ 64 - 1" by (simp add: unsigned_minus_1_eq_mask mask_eq_exp_minus_1)
  then have "\<not> (- 1 :: usize) < 4096" by (simp add: word_less_nat_alt)
  with m show ?thesis
    by (auto simp: pop_def deque_new_def Let_def push_def DEQUE_CAPACITY_def deque_len_def not_less fun_eq_iff)
qed

section \<open>Workers\<close>

text \<open>The deques of the workers hold the task lists \<open>xss\<close>.\<close>

definition workers_hold :: "LockFreeTaskDeque list \<Rightarrow> Task list list \<Rightarrow> bool" where
  "workers_hold ws xss \<longleftrightarrow> list_all2 deque_repr ws xss"

lemma workers_hold_nth: "workers_hold ws xss \<Longrightarrow> i < length ws \<Longrightarrow> deque_repr (ws ! i) (xss ! i)"
  by (simp add: workers_hold_def list_all2_nthD)

lemma workers_hold_length: "workers_hold ws xss \<Longrightarrow> length xss = length ws"
  by (simp add: workers_hold_def list_all2_lengthD)

lemma workers_hold_update: "workers_hold ws xss \<Longrightarrow> deque_repr d xs \<Longrightarrow> workers_hold (ws[i := d]) (xss[i := xs])"
  by (simp add: workers_hold_def list_all2_update_cong)

lemma mset_concat_update:
  "i < length xss \<Longrightarrow> mset (xss ! i) = add_mset x (mset ys) \<Longrightarrow>
     mset (concat xss) = add_mset x (mset (concat (xss[i := ys])))"
proof (induction xss arbitrary: i)
  case (Cons zs xss)
  then show ?case by (cases i) auto
qed simp

text \<open>What a search for a task may do: take one task from somewhere, or find nothing and change
  nothing, having seen that the deques \<open>ps\<close> are empty.\<close>

definition search_ok :: "nat set \<Rightarrow> LockFreeTaskDeque list \<Rightarrow> Task list list \<Rightarrow> Task option \<Rightarrow> LockFreeTaskDeque list \<Rightarrow> bool" where
  "search_ok ps ws xss r ws' \<longleftrightarrow>
     (case r of
        None \<Rightarrow> ws' = ws \<and> (\<forall>p \<in> ps. xss ! p = [])
      | Some task \<Rightarrow> \<exists>xss'. workers_hold ws' xss' \<and> mset (concat xss) = add_mset task (mset (concat xss')))"

lemma search_ok_take:
  assumes "workers_hold ws xss" "p < length ws" "deque_repr d ys" "mset (xss ! p) = add_mset x (mset ys)"
  shows "search_ok ps ws xss (Some x) (ws[p := d])"
  unfolding search_ok_def option.case
  by (intro exI [of _ "xss[p := ys]"] conjI workers_hold_update mset_concat_update assms)
    (simp add: assms workers_hold_length [OF assms(1)])

lemma steal_from_ok:
  assumes "workers_hold ws xss" "\<forall>p \<in> set peers. p < length ws"
  shows "search_ok (set peers) ws xss (map_option snd (fst (steal_from peers ws))) (snd (steal_from peers ws))"
  using assms
proof (induction peers)
  case (Cons p peers)
  then have r: "deque_repr (ws ! p) (xss ! p)" by (simp add: workers_hold_nth)
  show ?case
  proof (cases "xss ! p")
    case Nil
    then have "steal (ws ! p) = (None, ws ! p)" using steal_Nil r by simp
    then show ?thesis using Cons Nil by (auto simp: search_ok_def split: option.splits)
  next
    case (Cons y ys)
    then obtain d where "steal (ws ! p) = (Some y, d)" "deque_repr d ys" using steal_Cons r by metis
    then show ?thesis using Cons Cons.prems by (auto intro: search_ok_take)
  qed
qed (simp add: search_ok_def)

lemma worker_pass_search:
  assumes "workers_hold ws xss" "me < length ws" "tail (ws ! me) \<noteq> 0"
    "\<forall>p \<in> set near \<union> set others. p < length ws"
  shows "search_ok ({me} \<union> set near \<union> (if numa then set others else {})) ws xss
    (fst (worker_pass me near numa others ws)) (snd (worker_pass me near numa others ws))"
proof (cases "xss ! me" rule: rev_cases)
  case Nil
  then have p: "pop (ws ! me) = (None, ws ! me)" using assms workers_hold_nth pop_Nil by metis
  show ?thesis
    using steal_from_ok [of ws xss near] steal_from_ok [of ws xss others] assms Nil p
    by (auto simp: worker_pass_def search_ok_def map_prod_def split_beta split: option.splits)
next
  case (snoc ys y)
  then obtain d where "pop (ws ! me) = (Some y, d)" "deque_repr d ys"
    using pop_snoc workers_hold_nth assms by metis
  then show ?thesis using assms snoc by (auto simp: worker_pass_def intro!: search_ok_take)
qed

text \<open>A worker's pass conserves tasks and is not lazy. When the deques of the workers hold the
  lists \<open>xss\<close> and the worker's own tail index is not zero, a pass either hands the worker one task and
  leaves deques that hold exactly the other tasks, or hands out nothing, changes nothing, and the
  worker's own deque, those of the peers on its socket and, on a NUMA machine, those of the other
  sockets are all empty.\<close>

theorem worker_pass_conserves:
  assumes "workers_hold ws xss" "me < length ws" "tail (ws ! me) \<noteq> 0"
    "\<forall>p \<in> set near \<union> set others. p < length ws" "worker_pass me near numa others ws = (r, ws')"
  shows "(case r of
      Some task \<Rightarrow> \<exists>xss'. workers_hold ws' xss' \<and> mset (concat xss) = add_mset task (mset (concat xss'))
    | None \<Rightarrow> ws' = ws \<and> xss ! me = [] \<and> (\<forall>p \<in> set near. xss ! p = []) \<and>
        (numa \<longrightarrow> (\<forall>p \<in> set others. xss ! p = [])))"
  using worker_pass_search [OF assms(1-4), of numa] assms(5) by (auto simp: search_ok_def split: option.splits)

theorem worker_pass_conserves_witness:
  "\<exists>ws'. worker_pass 0 [1] False [] [used_deque, snd (push \<lparr>task_execute = 5, task_context = 6\<rparr> used_deque)] =
     (Some \<lparr>task_execute = 5, task_context = 6\<rparr>, ws') \<and>
   (\<exists>xss'. workers_hold ws' xss' \<and>
     mset (concat [[], [\<lparr>task_execute = 5, task_context = 6\<rparr>]]) =
       add_mset \<lparr>task_execute = 5, task_context = 6\<rparr> (mset (concat xss')))"
proof -
  let ?x = "\<lparr>task_execute = 5, task_context = 6\<rparr> :: Task"
  let ?d = "snd (push ?x used_deque)"
  have d: "?d = \<lparr>head = 1, tail = 2, buffer = (\<lambda>_. None)(1 := Some ?x)\<rparr>"
    by (simp add: used_deque_eq push_def DEQUE_CAPACITY_def DEQUE_MASK_def ring_index_def)
  have h: "workers_hold [used_deque, ?d] [[], [?x]]"
    by (simp add: workers_hold_def d) (simp add: used_deque_eq deque_repr_def)
  obtain r ws' where w: "worker_pass 0 [1] False [] [used_deque, ?d] = (r, ws')" by fastforce
  then have "r = Some ?x"
    unfolding d
    by (auto simp: worker_pass_def pop_def steal_def used_deque_eq Let_def ring_index_mod word_le_nat_alt)
  with w worker_pass_conserves [OF h _ _ _ w] show ?thesis by (simp add: used_deque_eq)
qed

text \<open>Submission through the C interface. It answers -1 exactly on a null pointer, and touches
  nothing; otherwise, with the workers' deques holding \<open>xss\<close> and index room left, it answers 0 exactly
  when the core exists and its deque has fewer than 4096 tasks, and then that deque holds its tasks
  followed by the new one and the others are untouched; in the remaining cases it answers -2 and no
  deque changes. The counter of submitted tasks grows for every existing core, refused tasks included.\<close>

theorem submit_task_answers:
  assumes "workers_hold (workers s) xss" "\<forall>w \<in> set (workers s). unat (tail w) + 1 < 2 ^ 64"
    "soul_scheduler_submit_task (Some s) core f ctx = (answer, after)"
  shows "soul_scheduler_submit_task None core f ctx = (- 1, None) \<and>
    (\<exists>s'. after = Some s' \<and>
      (if unat core < length (workers s) \<and> length (xss ! unat core) < 4096
       then answer = 0 \<and> workers_hold (workers s')
         (xss[unat core := xss ! unat core @ [\<lparr>task_execute = f, task_context = ctx\<rparr>]])
       else answer = - 2 \<and> workers s' = workers s) \<and>
      tasks_submitted s' = tasks_submitted s + (if unat core < length (workers s) then 1 else 0))"
proof (cases "unat core < length (workers s)")
  case False
  with assms(3) show ?thesis by (auto simp: soul_scheduler_submit_task_def submit_to_def)
next
  case True
  let ?x = "\<lparr>task_execute = f, task_context = ctx\<rparr> :: Task"
  have r: "deque_repr (workers s ! unat core) (xss ! unat core)" using workers_hold_nth [OF assms(1) True] .
  show ?thesis
  proof (cases "length (xss ! unat core) < 4096")
    case room: True
    then obtain d where "push ?x (workers s ! unat core) = (True, d)" "deque_repr d (xss ! unat core @ [?x])"
      using push_room [OF r, of ?x] assms(2) True by auto
    with room True assms(1,3) show ?thesis
      by (auto simp: soul_scheduler_submit_task_def submit_to_def intro: workers_hold_update)
  next
    case full: False
    then have "length (xss ! unat core) = 4096" using r by (simp add: deque_repr_def)
    then have "push ?x (workers s ! unat core) = (False, workers s ! unat core)" using push_full [OF r] by simp
    with full True assms(3) show ?thesis by (auto simp: soul_scheduler_submit_task_def submit_to_def)
  qed
qed

theorem submit_task_answers_witness:
  "\<exists>s'. soul_scheduler_submit_task (Some \<lparr>workers = [deque_new], running = True, tasks_submitted = 0\<rparr>) 0 7 8 =
     (0, Some s') \<and> workers_hold (workers s') [[\<lparr>task_execute = 7, task_context = 8\<rparr>]] \<and> tasks_submitted s' = 1"
proof -
  let ?s = "\<lparr>workers = [deque_new], running = True, tasks_submitted = 0\<rparr> :: AgentScheduler"
  obtain a t where e: "soul_scheduler_submit_task (Some ?s) 0 7 8 = (a, t)" by fastforce
  have "workers_hold (workers ?s) [[]]" "\<forall>w \<in> set (workers ?s). unat (tail w) + 1 < 2 ^ 64"
    by (simp_all add: workers_hold_def deque_repr_new) (simp add: deque_new_def)
  from submit_task_answers [OF this e] e show ?thesis by auto
qed

end
