(* ===== verification/Binary64.thy ===== *)
theory Binary64
  imports Complex_Main "HOL-Library.Word" "HOL-Library.Log_Nat"
begin

text \<open>
  Floating point as the sources use it. The value of an \<open>f64\<close> is a real number; an operation is the real
  operation followed by a rounding. What the lemmas of the components need of the rounding is stated as
  \<open>rounds\<close> and \<open>rounds_within\<close>; \<open>f64_round\<close> is the rounding of IEEE 754 binary64 (to nearest, ties to even,
  with gradual underflow and an unbounded exponent, since the values here are far from overflow), and has
  these properties. Also here: durations as seconds, and the bits of a value.
\<close>

section \<open>Rounding\<close>

definition rounds :: "(real \<Rightarrow> real) \<Rightarrow> bool" where
  "rounds rnd \<longleftrightarrow> mono rnd \<and> (\<forall>n \<le> 2 ^ 53. rnd (real n) = real n)"

definition rounds_within :: "real \<Rightarrow> real \<Rightarrow> (real \<Rightarrow> real) \<Rightarrow> bool" where
  "rounds_within bound err rnd \<longleftrightarrow> (\<forall>x. 0 \<le> x \<longrightarrow> x \<le> bound \<longrightarrow> rnd x \<le> x + err)"

lemma rounds_mono: "rounds rnd \<Longrightarrow> x \<le> y \<Longrightarrow> rnd x \<le> rnd y"
  by (simp add: rounds_def monoD)

lemma rounds_nat: "rounds rnd \<Longrightarrow> n \<le> 2 ^ 53 \<Longrightarrow> rnd (real n) = real n"
  by (simp add: rounds_def)

lemma rounds_0: "rounds rnd \<Longrightarrow> rnd 0 = 0"
  using rounds_nat [of rnd 0] by simp

lemma rounds_nonneg: "rounds rnd \<Longrightarrow> 0 \<le> x \<Longrightarrow> 0 \<le> rnd x"
  using rounds_mono [of rnd 0 x] rounds_0 [of rnd] by simp

lemma rounds_le_nat: "rounds rnd \<Longrightarrow> x \<le> real n \<Longrightarrow> n \<le> 2 ^ 53 \<Longrightarrow> rnd x \<le> real n"
  using rounds_mono [of rnd x "real n"] rounds_nat [of rnd n] by simp

lemma rounds_ge_nat: "rounds rnd \<Longrightarrow> real n \<le> x \<Longrightarrow> n \<le> 2 ^ 53 \<Longrightarrow> real n \<le> rnd x"
  using rounds_mono [of rnd "real n" x] rounds_nat [of rnd n] by simp

subsection \<open>Round to nearest, ties to even\<close>

definition round_even :: "real \<Rightarrow> int" where
  "round_even y = (let n = \<lfloor>y\<rfloor>; d = y - of_int n
     in if d < 1 / 2 \<or> d = 1 / 2 \<and> even n then n else n + 1)"

definition f64_exponent :: "real \<Rightarrow> int" where
  "f64_exponent x = max \<lfloor>log 2 x\<rfloor> (- 1022) - 52"

definition f64_round_pos :: "real \<Rightarrow> real" where
  "f64_round_pos x = of_int (round_even (x / 2 powr of_int (f64_exponent x))) * 2 powr of_int (f64_exponent x)"

definition f64_round :: "real \<Rightarrow> real" where
  "f64_round x = (if x = 0 then 0 else if x < 0 then - f64_round_pos (- x) else f64_round_pos x)"

lemma round_even_int [simp]: "round_even (of_int n) = n"
  by (simp add: round_even_def)

lemma round_even_floor: "round_even y = \<lfloor>y\<rfloor> \<or> round_even y = \<lfloor>y\<rfloor> + 1"
  by (simp add: round_even_def Let_def)

lemma round_even_error: "\<bar>of_int (round_even y) - y\<bar> \<le> 1 / 2"
proof -
  have "0 \<le> y - of_int \<lfloor>y\<rfloor>" "y - of_int \<lfloor>y\<rfloor> < 1" by linarith+
  then show ?thesis by (auto simp: round_even_def Let_def)
qed

lemma round_even_mono: "x \<le> y \<Longrightarrow> round_even x \<le> round_even y"
proof -
  assume le: "x \<le> y"
  show ?thesis
  proof (cases "\<lfloor>x\<rfloor> = \<lfloor>y\<rfloor>")
    case True
    with le show ?thesis by (auto simp: round_even_def Let_def)
  next
    case False
    then have "\<lfloor>x\<rfloor> + 1 \<le> \<lfloor>y\<rfloor>" using floor_mono [OF le] by linarith
    with round_even_floor [of x] round_even_floor [of y] show ?thesis by linarith
  qed
qed

lemma f64_exponent_mono: "0 < x \<Longrightarrow> x \<le> y \<Longrightarrow> f64_exponent x \<le> f64_exponent y"
  unfolding f64_exponent_def by (intro diff_mono max.mono floor_mono) auto

lemma f64_below:
  assumes "0 < x"
  shows "x < 2 ^ 53 * 2 powr of_int (f64_exponent x)"
proof -
  have "log 2 x < of_int (f64_exponent x + 53)" unfolding f64_exponent_def by linarith
  then have "x < 2 powr of_int (f64_exponent x + 53)" using assms by (simp add: log_less_iff)
  then show ?thesis by (simp add: powr_add mult.commute)
qed

lemma f64_above:
  assumes "0 < x" "f64_exponent y < f64_exponent x"
  shows "2 ^ 53 * 2 powr of_int (f64_exponent y) \<le> 2 ^ 52 * (2 powr of_int (f64_exponent x) :: real)"
    "2 ^ 52 * 2 powr of_int (f64_exponent x) \<le> x"
proof -
  have "2 powr of_int (f64_exponent y + 1) \<le> 2 powr (of_int (f64_exponent x) :: real)" using assms(2) by (intro powr_mono) auto
  then show "2 ^ 53 * 2 powr of_int (f64_exponent y) \<le> 2 ^ 52 * (2 powr of_int (f64_exponent x) :: real)"
    by (simp add: powr_add)
  have "- 1074 \<le> f64_exponent y" by (simp add: f64_exponent_def)
  with assms(2) have "f64_exponent x = \<lfloor>log 2 x\<rfloor> - 52" by (auto simp: f64_exponent_def max_def split: if_splits)
  then have "of_int (f64_exponent x + 52) \<le> log 2 x" by linarith
  then have "2 powr of_int (f64_exponent x + 52) \<le> x" using assms(1) by (simp add: le_log_iff)
  then show "2 ^ 52 * 2 powr of_int (f64_exponent x) \<le> x" by (simp add: powr_add mult.commute)
qed

lemma f64_round_pos_le:
  assumes "0 < x" "x \<le> of_int n * 2 powr of_int (f64_exponent x)"
  shows "f64_round_pos x \<le> of_int n * 2 powr of_int (f64_exponent x)"
proof -
  have "x / 2 powr of_int (f64_exponent x) \<le> of_int n" using assms(2) by (simp add: divide_le_eq)
  from round_even_mono [OF this] have "round_even (x / 2 powr of_int (f64_exponent x)) \<le> n" by simp
  then show ?thesis unfolding f64_round_pos_def by (intro mult_right_mono) auto
qed

lemma f64_round_pos_ge:
  assumes "0 < x" "of_int n * 2 powr of_int (f64_exponent x) \<le> x"
  shows "of_int n * 2 powr of_int (f64_exponent x) \<le> f64_round_pos x"
proof -
  have "of_int n \<le> x / 2 powr of_int (f64_exponent x)" using assms(2) by (simp add: le_divide_eq)
  from round_even_mono [OF this] have "n \<le> round_even (x / 2 powr of_int (f64_exponent x))" by simp
  then show ?thesis unfolding f64_round_pos_def by (intro mult_right_mono) auto
qed

lemma f64_round_pos_mono:
  assumes "0 < x" "x \<le> y"
  shows "f64_round_pos x \<le> f64_round_pos y"
proof (cases "f64_exponent x = f64_exponent y")
  case True
  have "x / 2 powr of_int (f64_exponent y) \<le> y / 2 powr of_int (f64_exponent y)" using assms(2) by (intro divide_right_mono) auto
  from round_even_mono [OF this] show ?thesis unfolding f64_round_pos_def True by (intro mult_right_mono) auto
next
  case False
  with f64_exponent_mono [OF assms] have lt: "f64_exponent x < f64_exponent y" by simp
  have "f64_round_pos x \<le> of_int (2 ^ 53) * 2 powr of_int (f64_exponent x)"
    using f64_below [OF assms(1)] by (intro f64_round_pos_le [OF assms(1)]) simp
  moreover have "of_int (2 ^ 52) * 2 powr of_int (f64_exponent y) \<le> f64_round_pos y"
    using f64_above(2) [OF _ lt] assms by (intro f64_round_pos_ge) auto
  moreover note f64_above(1) [OF _ lt]
  ultimately show ?thesis using assms by simp
qed

lemma f64_round_pos_nonneg: "0 < x \<Longrightarrow> 0 \<le> f64_round_pos x"
  using f64_round_pos_ge [of x 0] by simp

lemma f64_round_mono: "mono f64_round"
proof
  fix x y :: real
  assume "x \<le> y"
  then show "f64_round x \<le> f64_round y"
    using f64_round_pos_mono [of x y] f64_round_pos_mono [of "- y" "- x"]
      f64_round_pos_nonneg [of "- x"] f64_round_pos_nonneg [of y]
    by (auto simp: f64_round_def)
qed

lemma f64_round_exact:
  assumes "0 < x" "x = of_int n * 2 powr of_int (f64_exponent x)"
  shows "f64_round x = x"
  using f64_round_pos_le [OF assms(1), of n] f64_round_pos_ge [OF assms(1), of n] assms by (simp add: f64_round_def)

lemma f64_round_nat:
  assumes "n \<le> 2 ^ 53"
  shows "f64_round (real n) = real n"
proof (cases "n = 0 \<or> n = 2 ^ 53")
  case True
  then show ?thesis
  proof
    assume n: "n = 2 ^ 53"
    have "log 2 (2 ^ 53) = (53 :: real)" by (subst log_pow_cancel) simp_all
    then have "f64_exponent (2 ^ 53) = 1" by (simp only: f64_exponent_def) simp
    then have "f64_round (2 ^ 53) = 2 ^ 53" by (intro f64_round_exact [of _ "2 ^ 52"]) auto
    then show ?thesis unfolding n of_nat_power of_nat_numeral .
  qed (simp add: f64_round_def)
next
  case False
  then have "1 \<le> n" "n < 2 ^ 53" using assms by linarith+
  then have "real 1 \<le> real n" "real n < real (2 ^ 53)" unfolding of_nat_less_iff of_nat_le_iff .
  then have n: "1 \<le> real n" "real n < 2 ^ 53" by simp_all
  have l: "0 \<le> log 2 (real n)" "log 2 (real n) < 53" using n by (simp_all add: log_less_iff)
  then have "0 \<le> \<lfloor>log 2 (real n)\<rfloor>" "\<lfloor>log 2 (real n)\<rfloor> \<le> 52" by linarith+
  then have e: "f64_exponent (real n) = - int (nat (52 - \<lfloor>log 2 (real n)\<rfloor>))" by (simp add: f64_exponent_def)
  then obtain m where m: "f64_exponent (real n) = - int m" by blast
  have "real n = of_int (int (n * 2 ^ m)) * 2 powr of_int (f64_exponent (real n))"
    by (simp add: m powr_minus powr_realpow)
  from f64_round_exact [OF _ this] n(1) show ?thesis by simp
qed

lemma rounds_f64: "rounds f64_round"
  using f64_round_mono f64_round_nat by (simp add: rounds_def)

lemma f64_round_error:
  assumes "0 < x" "x < 2 ^ m"
  shows "\<bar>f64_round x - x\<bar> \<le> 2 ^ m / 2 ^ 54"
proof -
  let ?u = "2 powr of_int (f64_exponent x) :: real"
  have "log 2 x < real m" using assms by (simp add: log_less_iff powr_realpow)
  then have "\<lfloor>log 2 x\<rfloor> \<le> int m - 1" by linarith
  then have "f64_exponent x \<le> int m - 53" by (simp add: f64_exponent_def)
  then have "?u \<le> 2 powr of_int (int m - 53)" by (intro powr_mono) auto
  also have "\<dots> = 2 ^ m / 2 ^ 53" by (simp add: powr_diff powr_realpow)
  finally have u: "?u / 2 \<le> 2 ^ m / 2 ^ 54" by simp
  have "f64_round x - x = (of_int (round_even (x / ?u)) - x / ?u) * ?u"
    using assms by (simp add: f64_round_def f64_round_pos_def left_diff_distrib)
  then have "\<bar>f64_round x - x\<bar> = \<bar>of_int (round_even (x / ?u)) - x / ?u\<bar> * ?u" by (simp add: abs_mult)
  also have "\<dots> \<le> 1 / 2 * ?u" by (intro mult_right_mono round_even_error) simp
  finally show ?thesis using u by simp
qed

lemma rounds_within_f64: "m \<le> 53 \<Longrightarrow> rounds_within (2 ^ m) (2 ^ m / 2 ^ 54) f64_round"
  unfolding rounds_within_def
proof (intro allI impI)
  fix x :: real
  assume m: "m \<le> 53" and x: "0 \<le> x" "x \<le> 2 ^ m"
  have "f64_round (real (2 ^ m)) = real (2 ^ m)" using power_increasing [OF m, of "2 :: nat"] by (intro f64_round_nat) simp
  then show "f64_round x \<le> x + 2 ^ m / 2 ^ 54"
    using x f64_round_error [of x m] abs_le_D1 [of "f64_round x - x" "2 ^ m / 2 ^ 54"]
    by (cases "x = 0 \<or> x = 2 ^ m") (auto simp: f64_round_def [of 0] simp del: power_numeral)
qed

lemma rounds_within_mono: "rounds_within b e rnd \<Longrightarrow> b' \<le> b \<Longrightarrow> e \<le> e' \<Longrightarrow> rounds_within b' e' rnd"
  unfolding rounds_within_def by fastforce

section \<open>Durations\<close>

text \<open>\<open>Duration::as_secs_f64\<close>, of a number of nanoseconds.\<close>

definition as_secs_f64 :: "(real \<Rightarrow> real) \<Rightarrow> nat \<Rightarrow> real" where
  "as_secs_f64 rnd d = rnd (rnd (real (d div 10 ^ 9)) + rnd (real (d mod 10 ^ 9) / 10 ^ 9))"

definition secs :: "nat \<Rightarrow> real" where
  "secs d = real d / 10 ^ 9"

lemma secs_nonneg: "0 \<le> secs d"
  by (simp add: secs_def)

lemma as_secs_nonneg: "rounds rnd \<Longrightarrow> 0 \<le> as_secs_f64 rnd d"
  unfolding as_secs_f64_def by (intro rounds_nonneg [of rnd] add_nonneg_nonneg) auto

lemma secs_split: "real (d div 10 ^ 9) + real (d mod 10 ^ 9) / 10 ^ 9 = secs d"
proof -
  have "real d = real (10 ^ 9 * (d div 10 ^ 9) + d mod 10 ^ 9)" by simp
  then show ?thesis unfolding secs_def of_nat_add of_nat_mult by (simp add: field_simps)
qed

lemma as_secs_le:
  assumes "rounds rnd" "rounds_within bound err rnd" "0 \<le> err" "secs d + err \<le> bound" "1 \<le> bound" "secs d \<le> 2 ^ 53"
  shows "as_secs_f64 rnd d \<le> secs d + 2 * err"
proof -
  let ?s = "real (d div 10 ^ 9)" and ?f = "real (d mod 10 ^ 9) / 10 ^ 9"
  have f: "0 \<le> ?f" "?f \<le> 1" by (auto simp: field_simps)
  have "?s \<le> 2 ^ 53" using secs_split [of d] f assms(6) by linarith
  then have "d div 10 ^ 9 \<le> 2 ^ 53" by (metis of_nat_le_iff of_nat_numeral of_nat_power)
  then have s: "rnd ?s = ?s" using rounds_nat [OF assms(1)] by blast
  have rf: "0 \<le> rnd ?f" "rnd ?f \<le> ?f + err"
    using rounds_nonneg [OF assms(1) f(1)] assms(2,5) f by (auto simp: rounds_within_def)
  then have "0 \<le> ?s + rnd ?f" "?s + rnd ?f \<le> bound" using secs_split [of d] assms(4) by (simp, linarith)
  then have "rnd (?s + rnd ?f) \<le> ?s + rnd ?f + err" using assms(2) unfolding rounds_within_def by blast
  then show ?thesis unfolding as_secs_f64_def s using rf(2) secs_split [of d] by linarith
qed

lemma secs_mono: "a \<le> b \<Longrightarrow> secs a \<le> secs b"
  by (simp add: secs_def divide_right_mono)

lemma secs_add: "a \<le> b \<Longrightarrow> b \<le> c \<Longrightarrow> secs (b - a) + secs (c - b) = secs (c - a)"
  by (simp add: secs_def of_nat_diff field_simps)

section \<open>Bits\<close>

text \<open>\<open>f64::to_bits\<close> of a finite value: sign, biased exponent, fraction.\<close>

definition f64_magnitude :: "real \<Rightarrow> nat" where
  "f64_magnitude x =
     (if x < 1 / 2 ^ 1022 then nat \<lfloor>x * 2 ^ 1074\<rfloor>
      else let e = \<lfloor>log 2 x\<rfloor> in nat ((e + 1023) * 2 ^ 52 + \<lfloor>(x / 2 powr of_int e - 1) * 2 ^ 52\<rfloor>))"

definition to_bits :: "real \<Rightarrow> 64 word" where
  "to_bits x = (if x < 0 then word_of_nat (2 ^ 63 + f64_magnitude (- x)) else word_of_nat (f64_magnitude x))"

definition f64_fraction :: "real \<Rightarrow> real" where
  "f64_fraction x = (x / 2 powr of_int \<lfloor>log 2 x\<rfloor> - 1) * 2 ^ 52"

lemma f64_fraction_range:
  assumes "0 < x"
  shows "0 \<le> f64_fraction x" "f64_fraction x < 2 ^ 52"
proof -
  have "of_int \<lfloor>log 2 x\<rfloor> \<le> log 2 x" "log 2 x < of_int (\<lfloor>log 2 x\<rfloor> + 1)" by linarith+
  then have "2 powr of_int \<lfloor>log 2 x\<rfloor> \<le> x" "x < 2 powr of_int (\<lfloor>log 2 x\<rfloor> + 1)"
    using le_log_iff [of 2 x "of_int \<lfloor>log 2 x\<rfloor>"] log_less_iff [of 2 x "of_int (\<lfloor>log 2 x\<rfloor> + 1)"] assms by simp_all
  then show "0 \<le> f64_fraction x" "f64_fraction x < 2 ^ 52"
    by (simp_all add: f64_fraction_def powr_add field_simps)
qed

lemma magnitude_normal:
  assumes "1 \<le> x"
  shows "int (f64_magnitude x) = (\<lfloor>log 2 x\<rfloor> + 1023) * 2 ^ 52 + \<lfloor>f64_fraction x\<rfloor>"
proof -
  have "0 \<le> \<lfloor>log 2 x\<rfloor>" using assms by simp
  moreover have "0 \<le> \<lfloor>f64_fraction x\<rfloor>" using f64_fraction_range(1) [of x] assms by simp
  moreover have "\<not> x < 1 / 2 ^ 1022"
  proof -
    have "1 / 2 ^ 1022 \<le> (1 :: real)" by (intro divide_le_eq_1_pos [THEN iffD2]) (simp_all del: power_numeral)
    with assms show ?thesis by linarith
  qed
  ultimately show ?thesis unfolding f64_magnitude_def f64_fraction_def [symmetric] Let_def by simp
qed

text \<open>Bits are ordered as the values are; strictly below a value that is exactly represented.\<close>

lemma magnitude_less_exponent:
  assumes "1 \<le> x" "1 \<le> y" "\<lfloor>log 2 x\<rfloor> < \<lfloor>log 2 y\<rfloor>"
  shows "f64_magnitude x < f64_magnitude y"
proof -
  have "\<lfloor>f64_fraction x\<rfloor> < 2 ^ 52" using f64_fraction_range(2) [of x] assms(1) by (simp add: floor_less_iff)
  moreover have "0 \<le> \<lfloor>f64_fraction y\<rfloor>" using f64_fraction_range(1) [of y] assms(2) by simp
  moreover have "(\<lfloor>log 2 x\<rfloor> + 1023 + 1) * 2 ^ 52 \<le> (\<lfloor>log 2 y\<rfloor> + 1023) * 2 ^ 52" using assms(3) by (intro mult_right_mono) auto
  ultimately have "int (f64_magnitude x) < int (f64_magnitude y)"
    unfolding magnitude_normal [OF assms(1)] magnitude_normal [OF assms(2)] distrib_right [of _ 1] by linarith
  then show ?thesis by simp
qed

lemma fraction_less: "0 < x \<Longrightarrow> x < y \<Longrightarrow> \<lfloor>log 2 x\<rfloor> = \<lfloor>log 2 y\<rfloor> \<Longrightarrow> f64_fraction x < f64_fraction y"
  by (simp add: f64_fraction_def divide_strict_right_mono)

lemma magnitude_mono:
  assumes "1 \<le> x" "x \<le> y"
  shows "f64_magnitude x \<le> f64_magnitude y"
proof (cases "x = y \<or> \<lfloor>log 2 x\<rfloor> < \<lfloor>log 2 y\<rfloor>")
  case False
  moreover have "\<lfloor>log 2 x\<rfloor> \<le> \<lfloor>log 2 y\<rfloor>" using assms by (intro floor_mono) simp
  ultimately have e: "\<lfloor>log 2 x\<rfloor> = \<lfloor>log 2 y\<rfloor>" "x < y" using assms by auto
  then have "\<lfloor>f64_fraction x\<rfloor> \<le> \<lfloor>f64_fraction y\<rfloor>" using assms(1) by (intro floor_mono less_imp_le fraction_less) auto
  then have "int (f64_magnitude x) \<le> int (f64_magnitude y)" using assms e by (simp add: magnitude_normal)
  then show ?thesis by simp
qed (use assms magnitude_less_exponent [of x y] in auto)

lemma magnitude_less:
  assumes "1 \<le> x" "x < y" "f64_fraction y = of_int n"
  shows "f64_magnitude x < f64_magnitude y"
proof (cases "\<lfloor>log 2 x\<rfloor> < \<lfloor>log 2 y\<rfloor>")
  case False
  moreover have "\<lfloor>log 2 x\<rfloor> \<le> \<lfloor>log 2 y\<rfloor>" using assms by (intro floor_mono) simp
  ultimately have e: "\<lfloor>log 2 x\<rfloor> = \<lfloor>log 2 y\<rfloor>" by simp
  then have "\<lfloor>f64_fraction x\<rfloor> < n" using fraction_less [of x y] assms by (simp add: floor_less_iff)
  then have "int (f64_magnitude x) < int (f64_magnitude y)" using assms e by (simp add: magnitude_normal)
  then show ?thesis by simp
qed (use assms magnitude_less_exponent [of x y] in auto)

end
