(* ===== verification/Token_Bucket.thy ===== *)
theory Token_Bucket
  imports Binary64
begin

text \<open>
  What a token bucket promises, stated once for the buckets of the gateway and of the retry budget. A
  client asks at certain times; each request costs a token, and tokens flow in with time up to a cap.
  \<open>slack\<close> is what one request may gain by rounding.
\<close>

section \<open>Tokens in floating point\<close>

definition topped_up :: "(real \<Rightarrow> real) \<Rightarrow> nat \<Rightarrow> nat \<Rightarrow> nat \<Rightarrow> real \<Rightarrow> real" where
  "topped_up rnd rate cap d x = min (rnd (x + rnd (as_secs_f64 rnd d * real rate))) (real cap)"

definition spend :: "(real \<Rightarrow> real) \<Rightarrow> real \<Rightarrow> bool \<times> real" where
  "spend rnd x = (if x \<ge> 1 then (True, rnd (x - 1)) else (False, x))"

lemma topped_up_range:
  assumes "rounds rnd" "0 \<le> x"
  shows "0 \<le> topped_up rnd rate cap d x" "topped_up rnd rate cap d x \<le> real cap"
  using rounds_nonneg [OF assms(1) add_nonneg_nonneg [OF assms(2)
      rounds_nonneg [OF assms(1) mult_nonneg_nonneg [OF as_secs_nonneg [OF assms(1)] of_nat_0_le_iff]]]]
  by (auto simp: topped_up_def)

lemma topped_up_pays:
  assumes r: "rounds rnd" and w: "rounds_within bound err rnd" and "0 \<le> err"
    and "real cap \<le> bound" "1 \<le> cap" "1 \<le> rate" "secs d \<le> 2 ^ 53" "(secs d + 2 * err) * real rate \<le> bound"
    and "0 \<le> x" "x \<le> real cap"
  shows "topped_up rnd rate cap d x \<le> x + real rate * secs d + err * (2 * real rate + 2)"
proof -
  let ?el = "as_secs_f64 rnd d"
  have "(secs d + 2 * err) * 1 \<le> (secs d + 2 * err) * real rate"
    using secs_nonneg [of d] assms by (intro mult_left_mono) auto
  then have "secs d + err \<le> bound" "1 \<le> bound" using assms by auto
  then have el: "?el \<le> secs d + 2 * err" using as_secs_le [OF r w] assms by blast
  have el0: "0 \<le> ?el" using r by (rule as_secs_nonneg)
  have elr: "?el * real rate \<le> (secs d + 2 * err) * real rate" using el by (intro mult_right_mono) auto
  have rr: "rnd (?el * real rate) \<le> ?el * real rate + err" "0 \<le> rnd (?el * real rate)"
    using w elr assms(8) el0 rounds_nonneg [OF r, of "?el * real rate"] by (auto simp: rounds_within_def)
  let ?q = "x + rnd (?el * real rate)"
  have "topped_up rnd rate cap d x \<le> ?q + err"
  proof (cases "?q \<le> real cap")
    case True
    then have "rnd ?q \<le> ?q + err" using w rr assms by (auto simp: rounds_within_def)
    then show ?thesis by (simp add: topped_up_def)
  qed (use assms(3) in \<open>simp add: topped_up_def\<close>)
  then show ?thesis using rr(1) elr by (simp add: algebra_simps)
qed

lemma spend_range:
  assumes "rounds rnd" "cap \<le> 2 ^ 53" "0 \<le> x" "x \<le> real cap" "spend rnd x = (ok, y)"
  shows "0 \<le> y \<and> y \<le> real cap"
proof (cases ok)
  case True
  then have y: "y = rnd (x - 1)" "1 \<le> x" using assms(5) by (auto simp: spend_def split: if_splits)
  have "0 \<le> rnd (x - 1)" using y(2) by (intro rounds_nonneg [OF assms(1)]) simp
  moreover have "rnd (x - 1) \<le> real cap" using assms(4) by (intro rounds_le_nat [OF assms(1) _ assms(2)]) simp
  ultimately show ?thesis using y(1) by simp
qed (use assms in \<open>auto simp: spend_def split: if_splits\<close>)

lemma spend_pays:
  assumes "rounds_within bound err rnd" "0 \<le> err" "x \<le> bound" "spend rnd x = (ok, y)"
  shows "y + of_bool ok \<le> x + err"
proof (cases ok)
  case True
  then have "y = rnd (x - 1)" "1 \<le> x" using assms(4) by (auto simp: spend_def split: if_splits)
  moreover from this have "rnd (x - 1) \<le> x - 1 + err" using assms(1,3) by (simp add: rounds_within_def)
  ultimately show ?thesis using True by simp
qed (use assms in \<open>auto simp: spend_def split: if_splits\<close>)

lemma topped_up_spend_pays:
  assumes "rounds rnd" "rounds_within bound err rnd" "0 \<le> err" "real cap \<le> bound" "1 \<le> cap" "1 \<le> rate"
    "horizon \<le> 2 ^ 53" "(horizon + 2 * err) * real rate \<le> bound" "secs d \<le> horizon" "0 \<le> x" "x \<le> real cap"
    "spend rnd (topped_up rnd rate cap d x) = (ok, y)"
  shows "y + of_bool ok \<le> x + real rate * secs d + err * (2 * real rate + 3)"
proof -
  have "(secs d + 2 * err) * real rate \<le> bound"
    using assms(8,9) by (meson add_right_mono mult_right_mono of_nat_0_le_iff order_trans)
  then have "topped_up rnd rate cap d x \<le> x + real rate * secs d + err * (2 * real rate + 2)"
    using assms by (intro topped_up_pays) auto
  moreover have "y + of_bool ok \<le> topped_up rnd rate cap d x + err"
    using topped_up_range(2) [OF assms(1,10), of rate cap d] assms(4) by (intro spend_pays [OF assms(2,3) _ assms(12)]) simp
  ultimately show ?thesis by (simp add: algebra_simps)
qed

lemma slack_ge: "0 \<le> (err :: real) \<Longrightarrow> err \<le> err * (2 * real rate + 3)"
  using mult_left_mono [of 1 "2 * real rate + 3" err] by simp

section \<open>The contract\<close>

fun acquire_all :: "(nat \<Rightarrow> 'b \<Rightarrow> bool \<times> 'b) \<Rightarrow> nat list \<Rightarrow> 'b \<Rightarrow> nat \<times> 'b" where
  "acquire_all step [] b = (0, b)"
| "acquire_all step (t # ts) b =
     (let (ok, b) = step t b; (n, b) = acquire_all step ts b in (if ok then n + 1 else n, b))"

lemma acquire_Cons:
  "step t b = (ok, b') \<Longrightarrow> real (fst (acquire_all step (t # ts) b)) = of_bool ok + real (fst (acquire_all step ts b'))"
  by (simp add: split_beta)

lemma secs_within: "secs b \<le> h \<Longrightarrow> a \<le> b \<Longrightarrow> secs a \<le> h"
  using secs_mono order_trans by blast

locale token_bucket =
  fixes step :: "nat \<Rightarrow> 'b \<Rightarrow> bool \<times> 'b"
    and tokens :: "'b \<Rightarrow> real"
    and last_at :: "'b \<Rightarrow> nat"
    and cap rate slack horizon :: real
  assumes rate_nonneg: "0 \<le> rate"
    and slack_nonneg: "0 \<le> slack"
    and step_range: "0 \<le> tokens b \<Longrightarrow> tokens b \<le> cap \<Longrightarrow> step t b = (ok, b') \<Longrightarrow> 0 \<le> tokens b' \<and> tokens b' \<le> cap"
    and step_last: "last_at b \<le> t \<Longrightarrow> step t b = (ok, b') \<Longrightarrow> last_at b' = t"
    and step_pays: "0 \<le> tokens b \<Longrightarrow> tokens b \<le> cap \<Longrightarrow> secs (t - last_at b) \<le> horizon \<Longrightarrow> step t b = (ok, b') \<Longrightarrow>
      tokens b' + of_bool ok \<le> tokens b + rate * secs (t - last_at b) + slack"
    and step_capped: "0 \<le> tokens b \<Longrightarrow> tokens b \<le> cap \<Longrightarrow> step t b = (ok, b') \<Longrightarrow> tokens b' + of_bool ok \<le> cap + slack"
begin

lemma paid_step:
  assumes "0 \<le> tokens b" "tokens b \<le> cap" "last_at b \<le> t" "t \<le> tend" "secs (tend - last_at b) \<le> horizon"
    "step t b = (ok, b')"
  shows "tokens b' + of_bool ok + rate * secs (tend - t) \<le> tokens b + rate * secs (tend - last_at b) + slack"
proof -
  have "secs (t - last_at b) \<le> horizon"
    using assms(4) by (intro secs_within [OF assms(5)]) simp
  moreover have "rate * secs (tend - last_at b) = rate * secs (t - last_at b) + rate * secs (tend - t)"
    by (simp add: secs_add [OF assms(3,4), symmetric] distrib_left)
  ultimately show ?thesis using step_pays [OF assms(1,2) _ assms(6)] by simp
qed

lemma run_bound:
  "0 \<le> tokens b \<Longrightarrow> tokens b \<le> cap \<Longrightarrow> sorted (last_at b # ts) \<Longrightarrow> last_at b \<le> tend \<Longrightarrow> \<forall>t \<in> set ts. t \<le> tend \<Longrightarrow>
   secs (tend - last_at b) \<le> horizon \<Longrightarrow>
   real (fst (acquire_all step ts b)) \<le> tokens b + rate * secs (tend - last_at b) + real (length ts) * slack"
proof (induction ts arbitrary: b)
  case Nil
  then show ?case using rate_nonneg secs_nonneg by simp
next
  case (Cons t ts)
  obtain ok b' where s: "step t b = (ok, b')" by fastforce
  have t: "last_at b \<le> t" "t \<le> tend" using Cons.prems by auto
  note l = step_last [OF t(1) s] and r = step_range [OF Cons.prems(1,2) s]
  have "secs (tend - t) \<le> horizon"
    using t by (intro secs_within [OF Cons.prems(6)]) simp
  then have "real (fst (acquire_all step ts b')) \<le> tokens b' + rate * secs (tend - t) + real (length ts) * slack"
    using Cons.IH [of b'] Cons.prems l r t by simp
  with paid_step [OF Cons.prems(1,2) t Cons.prems(6) s] show ?case
    unfolding acquire_Cons [of step, OF s] by (simp add: distrib_right)
qed

lemma run_window:
  assumes "0 \<le> tokens b" "tokens b \<le> cap" "last_at b \<le> t" "sorted (t # ts)" "\<forall>x \<in> set (t # ts). x \<le> tend"
    "secs (tend - t) \<le> horizon"
  shows "real (fst (acquire_all step (t # ts) b)) \<le> cap + rate * secs (tend - t) + real (length (t # ts)) * slack"
proof -
  obtain ok b' where s: "step t b = (ok, b')" by fastforce
  note l = step_last [OF assms(3) s] and r = step_range [OF assms(1,2) s]
  have "real (fst (acquire_all step ts b')) \<le> tokens b' + rate * secs (tend - t) + real (length ts) * slack"
    using run_bound [of b' ts tend] l r assms(4-6) by simp
  with step_capped [OF assms(1,2) s] show ?thesis
    unfolding acquire_Cons [of step, OF s] by (simp add: distrib_right)
qed

end

text \<open>A bucket whose clock never goes back: a request with an older reading of the clock leaves the time of
  the last refill as it is. It needs no order of the requests.\<close>

locale steady_bucket = token_bucket +
  assumes step_back: "t < last_at b \<Longrightarrow> step t b = (ok, b') \<Longrightarrow> last_at b' = last_at b"
begin

lemma steady_bound:
  "0 \<le> tokens b \<Longrightarrow> tokens b \<le> cap \<Longrightarrow> last_at b \<le> tend \<Longrightarrow> \<forall>t \<in> set ts. t \<le> tend \<Longrightarrow>
   secs (tend - last_at b) \<le> horizon \<Longrightarrow>
   real (fst (acquire_all step ts b)) \<le> tokens b + rate * secs (tend - last_at b) + real (length ts) * slack"
proof (induction ts arbitrary: b)
  case Nil
  then show ?case using rate_nonneg secs_nonneg by simp
next
  case (Cons t ts)
  obtain ok b' where s: "step t b = (ok, b')" by fastforce
  note r = step_range [OF Cons.prems(1,2) s]
  have t: "t \<le> tend" using Cons.prems by simp
  have l: "last_at b' = max t (last_at b)"
    using step_last [OF _ s] step_back [OF _ s] by (cases "last_at b \<le> t") auto
  have paid: "tokens b' + of_bool ok + rate * secs (tend - last_at b') \<le> tokens b + rate * secs (tend - last_at b) + slack"
  proof (cases "last_at b \<le> t")
    case True
    then show ?thesis using paid_step [OF Cons.prems(1,2) True t Cons.prems(5) s] l by simp
  next
    case False
    have "0 \<le> secs (tend - last_at b)" by (rule secs_nonneg)
    then have "secs (t - last_at b) \<le> horizon" using False Cons.prems(5) by (simp add: secs_def)
    then show ?thesis using step_pays [OF Cons.prems(1,2) _ s] False l by (simp add: secs_def)
  qed
  have "secs (tend - last_at b') \<le> horizon"
    using l by (intro secs_within [OF Cons.prems(5)]) simp
  then have "real (fst (acquire_all step ts b')) \<le> tokens b' + rate * secs (tend - last_at b') + real (length ts) * slack"
    using Cons.IH [of b'] Cons.prems l r t by simp
  with paid show ?case unfolding acquire_Cons [of step, OF s] by (simp add: distrib_right)
qed

lemma steady_window:
  assumes "0 \<le> tokens b" "tokens b \<le> cap" "last_at b \<le> tend" "\<forall>t \<in> set ts. start \<le> t \<and> t \<le> tend"
    "secs (tend - start) \<le> horizon"
  shows "real (fst (acquire_all step ts b)) \<le> cap + rate * secs (tend - start) + real (length ts) * slack"
proof (cases ts)
  case Nil
  then show ?thesis using assms(1,2) rate_nonneg secs_nonneg [of "tend - start"] by simp
next
  case (Cons t us)
  obtain ok b' where s: "step t b = (ok, b')" by fastforce
  note r = step_range [OF assms(1,2) s]
  have l: "last_at b' = max t (last_at b)"
    using step_last [OF _ s] step_back [OF _ s] by (cases "last_at b \<le> t") auto
  have d: "secs (tend - last_at b') \<le> secs (tend - start)" using assms(4) l Cons by (intro secs_mono) auto
  then have "real (fst (acquire_all step us b')) \<le> tokens b' + rate * secs (tend - last_at b') + real (length us) * slack"
    using steady_bound [of b' tend us] r l assms(3-5) Cons by simp
  moreover have "rate * secs (tend - last_at b') \<le> rate * secs (tend - start)" using d rate_nonneg by (rule mult_left_mono)
  ultimately show ?thesis
    using step_capped [OF assms(1,2) s] unfolding Cons acquire_Cons [of step, OF s] by (simp add: distrib_right)
qed

end

end
