(* ===== verification/Gateway_Limits.thy ===== *)
theory Gateway_Limits
  imports Token_Bucket Prelude "HOL-Library.AList"
begin

text \<open>
  The request limits of \<open>soul_gateway/src/limits.rs\<close>: their configuration, the bound on open
  connections and the token bucket of each client.

  Time is a number of nanoseconds. The bucket counts in \<open>f64\<close>: every floating-point operation is
  the real operation followed by a rounding \<open>rnd\<close>, of which the lemmas use what IEEE binary64 rounding
  has (\<open>Binary64\<close>): it is monotone, exact on the integers up to \<open>2^53\<close>, and off by at most \<open>err\<close> on a
  bounded range. The bucket of a client is a token bucket in the sense of \<open>Token_Bucket\<close>.
\<close>

section \<open>Configuration\<close>

definition DEFAULT_MAX_BODY_BYTES :: nat where "DEFAULT_MAX_BODY_BYTES = 1024 * 1024"
definition DEFAULT_MAX_CONCURRENT_REQUESTS :: nat where "DEFAULT_MAX_CONCURRENT_REQUESTS = 64"
definition DEFAULT_MAX_WS_MESSAGE_BYTES :: nat where "DEFAULT_MAX_WS_MESSAGE_BYTES = 256 * 1024"
definition DEFAULT_MAX_CONNECTIONS :: nat where "DEFAULT_MAX_CONNECTIONS = 512"
definition DEFAULT_RATE_PER_SECOND :: nat where "DEFAULT_RATE_PER_SECOND = 20"
definition DEFAULT_RATE_BURST :: nat where "DEFAULT_RATE_BURST = 40"

record GatewayLimits =
  max_body_bytes :: nat
  max_concurrent_requests :: nat
  max_ws_message_bytes :: nat
  max_connections :: nat
  rate_per_second :: nat
  rate_burst :: nat

definition default_gateway_limits :: GatewayLimits where
  "default_gateway_limits =
     \<lparr>max_body_bytes = DEFAULT_MAX_BODY_BYTES,
      max_concurrent_requests = DEFAULT_MAX_CONCURRENT_REQUESTS,
      max_ws_message_bytes = DEFAULT_MAX_WS_MESSAGE_BYTES,
      max_connections = DEFAULT_MAX_CONNECTIONS,
      rate_per_second = DEFAULT_RATE_PER_SECOND,
      rate_burst = DEFAULT_RATE_BURST\<rparr>"

definition read_limit :: "(string \<Rightarrow> string option) \<Rightarrow> string \<Rightarrow> nat \<Rightarrow> nat" where
  "read_limit env var fallback =
     (case Option.bind (env var) (\<lambda>v. parse_usize (trim v)) of
        Some n \<Rightarrow> if n > 0 then n else fallback
      | None \<Rightarrow> fallback)"

text \<open>The two rates are truncated to 32 bits by \<open>as u32\<close>.\<close>

definition limits_from_env :: "(string \<Rightarrow> string option) \<Rightarrow> GatewayLimits" where
  "limits_from_env env =
     \<lparr>max_body_bytes = read_limit env ''SOULSYSTEM_GATEWAY_MAX_BODY_BYTES'' DEFAULT_MAX_BODY_BYTES,
      max_concurrent_requests =
        read_limit env ''SOULSYSTEM_GATEWAY_MAX_CONCURRENT_REQUESTS'' DEFAULT_MAX_CONCURRENT_REQUESTS,
      max_ws_message_bytes =
        read_limit env ''SOULSYSTEM_GATEWAY_MAX_WS_MESSAGE_BYTES'' DEFAULT_MAX_WS_MESSAGE_BYTES,
      max_connections = read_limit env ''SOULSYSTEM_GATEWAY_MAX_CONNECTIONS'' DEFAULT_MAX_CONNECTIONS,
      rate_per_second =
        read_limit env ''SOULSYSTEM_GATEWAY_RATE_PER_SECOND'' DEFAULT_RATE_PER_SECOND mod 2 ^ 32,
      rate_burst = read_limit env ''SOULSYSTEM_GATEWAY_RATE_BURST'' DEFAULT_RATE_BURST mod 2 ^ 32\<rparr>"

section \<open>Connections\<close>

text \<open>The semaphore is the number of its free permits; dropping a permit returns it.\<close>

record ConnectionLimiter =
  available_permits :: nat
  conn_capacity :: nat

definition connection_limiter_new :: "nat \<Rightarrow> ConnectionLimiter" where
  "connection_limiter_new cap = \<lparr>available_permits = max cap 1, conn_capacity = max cap 1\<rparr>"

definition try_acquire :: "ConnectionLimiter \<Rightarrow> bool \<times> ConnectionLimiter" where
  "try_acquire l =
     (if available_permits l > 0 then (True, l\<lparr>available_permits := available_permits l - 1\<rparr>) else (False, l))"

definition drop_permit :: "ConnectionLimiter \<Rightarrow> ConnectionLimiter" where
  "drop_permit l = l\<lparr>available_permits := available_permits l + 1\<rparr>"

definition in_flight :: "ConnectionLimiter \<Rightarrow> nat" where
  "in_flight l = conn_capacity l - available_permits l"

section \<open>The token bucket\<close>

record Bucket =
  bucket_tokens :: real
  bucket_last :: nat

record RateLimiter =
  buckets :: "(string \<times> Bucket) list"
  per_second :: nat
  burst :: nat

datatype RateDecision = Allowed | Throttled nat

definition rate_limiter_new :: "nat \<Rightarrow> nat \<Rightarrow> RateLimiter" where
  "rate_limiter_new rate cap = \<lparr>buckets = [], per_second = max rate 1, burst = max cap 1\<rparr>"

text \<open>The hash map is an association list with distinct keys.\<close>

definition refill :: "(real \<Rightarrow> real) \<Rightarrow> nat \<Rightarrow> nat \<Rightarrow> nat \<Rightarrow> Bucket \<Rightarrow> Bucket" where
  "refill rnd rate cap now b =
     (let elapsed = as_secs_f64 rnd (now - bucket_last b)
      in \<lparr>bucket_tokens = min (rnd (bucket_tokens b + rnd (elapsed * real rate))) (real cap),
          bucket_last = now\<rparr>)"

definition check_at :: "(real \<Rightarrow> real) \<Rightarrow> string \<Rightarrow> nat \<Rightarrow> RateLimiter \<Rightarrow> RateDecision \<times> RateLimiter" where
  "check_at rnd key now l =
     (let bucket = (case map_of (buckets l) key of
                      Some b \<Rightarrow> b
                    | None \<Rightarrow> \<lparr>bucket_tokens = real (burst l), bucket_last = now\<rparr>);
          bucket = refill rnd (per_second l) (burst l) now bucket
      in if bucket_tokens bucket \<ge> 1
         then (Allowed, l\<lparr>buckets := AList.update key (bucket\<lparr>bucket_tokens := rnd (bucket_tokens bucket - 1)\<rparr>) (buckets l)\<rparr>)
         else let deficit = rnd (1 - bucket_tokens bucket)
              in (Throttled (nat (max \<lceil>rnd (deficit / real (per_second l))\<rceil> 1)),
                  l\<lparr>buckets := AList.update key bucket (buckets l)\<rparr>))"

definition evict_idle_at :: "nat \<Rightarrow> nat \<Rightarrow> RateLimiter \<Rightarrow> nat \<times> RateLimiter" where
  "evict_idle_at idle now l =
     (let before = length (buckets l);
          kept = filter (\<lambda>(_, bucket). now - bucket_last bucket < idle) (buckets l)
      in (before - length kept, l\<lparr>buckets := kept\<rparr>))"

definition tracked_keys :: "RateLimiter \<Rightarrow> nat" where
  "tracked_keys l = length (buckets l)"

definition rate_key :: "string option \<Rightarrow> string option \<Rightarrow> string" where
  "rate_key who peer =
     (case (who, peer) of
        (Some name, _) \<Rightarrow> ''principal:'' @ name
      | (None, Some ip) \<Rightarrow> ''ip:'' @ ip
      | (None, None) \<Rightarrow> ''anonymous'')"

lemma rate_key_principal_inject: "rate_key (Some a) p = rate_key (Some b) q \<longleftrightarrow> a = b"
  by (simp add: rate_key_def)

section \<open>Bounds on what is allowed\<close>

text \<open>The decisions for one client, whatever the other clients do in between: its bucket as a value.\<close>

definition bucket_of :: "string \<Rightarrow> nat \<Rightarrow> RateLimiter \<Rightarrow> Bucket" where
  "bucket_of key now l =
     (case map_of (buckets l) key of
        Some b \<Rightarrow> b
      | None \<Rightarrow> \<lparr>bucket_tokens = real (burst l), bucket_last = now\<rparr>)"

fun check_all :: "(real \<Rightarrow> real) \<Rightarrow> (string \<times> nat) list \<Rightarrow> RateLimiter \<Rightarrow> (string \<times> RateDecision) list \<times> RateLimiter" where
  "check_all rnd [] l = ([], l)"
| "check_all rnd ((key, now) # cs) l =
     (let (d, l) = check_at rnd key now l; (ds, l) = check_all rnd cs l in ((key, d) # ds, l))"

definition allowed_for :: "string \<Rightarrow> (string \<times> RateDecision) list \<Rightarrow> nat" where
  "allowed_for key ds = length (filter (\<lambda>d. d = (key, Allowed)) ds)"

definition limiter_ok :: "RateLimiter \<Rightarrow> bool" where
  "limiter_ok l \<longleftrightarrow> 1 \<le> per_second l \<and> 1 \<le> burst l \<and> burst l \<le> 2 ^ 53 \<and> distinct (map fst (buckets l)) \<and>
     (\<forall>k b. map_of (buckets l) k = Some b \<longrightarrow> 0 \<le> bucket_tokens b \<and> bucket_tokens b \<le> real (burst l))"

lemma refill_tokens: "bucket_tokens (refill rnd rate cap now b) = topped_up rnd rate cap (now - bucket_last b) (bucket_tokens b)"
  by (simp add: refill_def topped_up_def Let_def)

lemma refill_range:
  assumes "rounds rnd" "0 \<le> bucket_tokens b"
  shows "0 \<le> bucket_tokens (refill rnd rate cap now b)" "bucket_tokens (refill rnd rate cap now b) \<le> real cap"
  using topped_up_range [OF assms] by (simp_all add: refill_tokens)

lemma check_at_cases:
  obtains
    (allowed) "check_at rnd key now l =
      (Allowed, l\<lparr>buckets := AList.update key
         ((refill rnd (per_second l) (burst l) now (bucket_of key now l))\<lparr>bucket_tokens :=
            rnd (bucket_tokens (refill rnd (per_second l) (burst l) now (bucket_of key now l)) - 1)\<rparr>) (buckets l)\<rparr>)"
      "1 \<le> bucket_tokens (refill rnd (per_second l) (burst l) now (bucket_of key now l))"
  | (throttled) n where "check_at rnd key now l =
      (Throttled n, l\<lparr>buckets := AList.update key
         (refill rnd (per_second l) (burst l) now (bucket_of key now l)) (buckets l)\<rparr>)"
      "bucket_tokens (refill rnd (per_second l) (burst l) now (bucket_of key now l)) < 1"
  by (cases "1 \<le> bucket_tokens (refill rnd (per_second l) (burst l) now (bucket_of key now l))")
    (simp_all add: check_at_def bucket_of_def [symmetric] Let_def not_le)

lemma limiter_ok_update:
  "limiter_ok l \<Longrightarrow> 0 \<le> bucket_tokens b \<Longrightarrow> bucket_tokens b \<le> real (burst l) \<Longrightarrow>
     limiter_ok (l\<lparr>buckets := AList.update key b (buckets l)\<rparr>)"
  by (auto simp: limiter_ok_def AList.distinct_update AList.update_conv simp del: map_of_eq_Some_iff)

lemma check_at_ok:
  assumes "rounds rnd" "limiter_ok l"
  shows "limiter_ok (snd (check_at rnd key now l))"
proof -
  let ?b = "refill rnd (per_second l) (burst l) now (bucket_of key now l)"
  have "0 \<le> bucket_tokens (bucket_of key now l)"
    using assms(2) by (auto simp: bucket_of_def limiter_ok_def split: option.splits)
  note r = refill_range [OF assms(1) this]
  show ?thesis
  proof (cases rule: check_at_cases [of rnd key now l])
    case allowed
    have "rnd (bucket_tokens ?b - 1) \<le> real (burst l)"
      using r(2) [of "per_second l" "burst l" now] assms by (intro rounds_le_nat [of rnd]) (auto simp: limiter_ok_def)
    moreover have "0 \<le> rnd (bucket_tokens ?b - 1)" using allowed(2) assms(1) by (intro rounds_nonneg [of rnd]) auto
    ultimately show ?thesis
      unfolding allowed(1) snd_conv using assms(2) by (intro limiter_ok_update) auto
  next
    case (throttled n)
    show ?thesis unfolding throttled(1) snd_conv using assms(2) r by (intro limiter_ok_update)
  qed
qed

lemma check_at_other: "k \<noteq> key \<Longrightarrow> map_of (buckets (snd (check_at rnd key now l))) k = map_of (buckets l) k"
  by (cases rule: check_at_cases [of rnd key now l]) (auto simp: AList.update_conv)

lemma check_at_params:
  "per_second (snd (check_at rnd key now l)) = per_second l" "burst (snd (check_at rnd key now l)) = burst l"
  by (cases rule: check_at_cases [of rnd key now l], simp_all)+

text \<open>One client's checks on its own bucket.\<close>

definition bucket_step :: "(real \<Rightarrow> real) \<Rightarrow> nat \<Rightarrow> nat \<Rightarrow> nat \<Rightarrow> Bucket \<Rightarrow> bool \<times> Bucket" where
  "bucket_step rnd rate cap now b =
     (let b = refill rnd rate cap now b in
      if bucket_tokens b \<ge> 1 then (True, b\<lparr>bucket_tokens := rnd (bucket_tokens b - 1)\<rparr>) else (False, b))"

lemma bucket_step_spend:
  assumes "bucket_step rnd rate cap t b = (ok, b')"
  shows "spend rnd (topped_up rnd rate cap (t - bucket_last b) (bucket_tokens b)) = (ok, bucket_tokens b')" "bucket_last b' = t"
  using assms refill_tokens [of rnd rate cap t b] by (auto simp: bucket_step_def spend_def refill_def Let_def split: if_splits)

lemma check_at_step:
  "check_at rnd key now l = (d, l') \<Longrightarrow>
     (case bucket_step rnd (per_second l) (burst l) now (bucket_of key now l) of
        (ok, b) \<Rightarrow> (d = Allowed) = ok \<and> map_of (buckets l') key = Some b)"
  by (cases rule: check_at_cases [of rnd key now l]) (auto simp: bucket_step_def Let_def AList.update_conv)

lemma allowed_for_acquire_all:
  "(map_of (buckets l) key = None \<Longrightarrow> ts \<noteq> [] \<Longrightarrow> t = hd ts) \<Longrightarrow> ts = map snd (filter (\<lambda>c. fst c = key) cs) \<Longrightarrow>
     allowed_for key (fst (check_all rnd cs l)) = fst (acquire_all (bucket_step rnd (per_second l) (burst l)) ts (bucket_of key t l))"
proof (induction cs arbitrary: l t ts)
  case (Cons c cs)
  obtain k now where c: "c = (k, now)" by fastforce
  obtain d l' where ch: "check_at rnd k now l = (d, l')" by fastforce
  then have params: "per_second l' = per_second l" "burst l' = burst l"
    using check_at_params [of rnd k now l] by auto
  show ?case
  proof (cases "k = key")
    case True
    obtain ok b where st: "bucket_step rnd (per_second l) (burst l) now (bucket_of key now l) = (ok, b)" by fastforce
    have b: "map_of (buckets l') key = Some b" "(d = Allowed) = ok"
      using check_at_step [OF ch] st True by auto
    have t: "bucket_of key t l = bucket_of key now l"
      using Cons.prems c True by (cases "map_of (buckets l) key") (auto simp: bucket_of_def)
    have "allowed_for key (fst (check_all rnd cs l')) =
        fst (acquire_all (bucket_step rnd (per_second l) (burst l)) (map snd (filter (\<lambda>c. fst c = key) cs)) b)"
      using Cons.IH [of l' _ now] b(1) params by (simp add: bucket_of_def)
    then show ?thesis
      using Cons.prems(2) True c ch b(2) st t by (auto simp: allowed_for_def split_beta)
  next
    case False
    then have "map_of (buckets l') key = map_of (buckets l) key"
      using check_at_other [of key k rnd now l] ch by simp
    moreover from this have "bucket_of key t l' = bucket_of key t l" by (auto simp: bucket_of_def params split: option.splits)
    ultimately have "allowed_for key (fst (check_all rnd cs l')) =
        fst (acquire_all (bucket_step rnd (per_second l) (burst l)) ts (bucket_of key t l))"
      using Cons.IH [of l' ts t] Cons.prems False c params by simp
    then show ?thesis using False c ch by (simp add: allowed_for_def split_beta)
  qed
qed (simp add: allowed_for_def)

lemma client_bucket:
  assumes r: "rounds rnd" and w: "rounds_within bound err rnd" and e: "0 \<le> err"
    and c: "real cap \<le> bound" "1 \<le> cap" "1 \<le> rate" "cap \<le> 2 ^ 53"
    and h: "horizon \<le> 2 ^ 53" "(horizon + 2 * err) * real rate \<le> bound"
  shows "token_bucket (bucket_step rnd rate cap) bucket_tokens bucket_last (real cap) (real rate) (err * (2 * real rate + 3)) horizon"
proof
  show "0 \<le> real rate" "0 \<le> err * (2 * real rate + 3)" using e by simp_all
  fix b t ok b'
  assume "bucket_step rnd rate cap t b = (ok, b')"
  note s = bucket_step_spend [OF this]
  show "bucket_last b' = t" if "bucket_last b \<le> t" using s(2) .
  assume b: "0 \<le> bucket_tokens b" "bucket_tokens b \<le> real cap"
  note up = topped_up_range [OF r b(1), of rate cap "t - bucket_last b"]
  show "0 \<le> bucket_tokens b' \<and> bucket_tokens b' \<le> real cap" using spend_range [OF r c(4) up s(1)] .
  have "bucket_tokens b' + of_bool ok \<le> topped_up rnd rate cap (t - bucket_last b) (bucket_tokens b) + err"
    using up(2) c(1) by (intro spend_pays [OF w e _ s(1)]) simp
  then show "bucket_tokens b' + of_bool ok \<le> real cap + err * (2 * real rate + 3)"
    using up(2) slack_ge [OF e, of rate] by simp
  assume d: "secs (t - bucket_last b) \<le> horizon"
  show "bucket_tokens b' + of_bool ok \<le> bucket_tokens b + real rate * secs (t - bucket_last b) + err * (2 * real rate + 3)"
    by (rule topped_up_spend_pays [OF r w e c(1-3) h d b s(1)])
qed

text \<open>The limits in force by default, in binary64, over windows of up to five minutes.\<close>

interpretation gateway_bucket: token_bucket
  "bucket_step f64_round DEFAULT_RATE_PER_SECOND DEFAULT_RATE_BURST" bucket_tokens bucket_last
  "real DEFAULT_RATE_BURST" "real DEFAULT_RATE_PER_SECOND"
  "1 / 2 ^ 41 * (2 * real DEFAULT_RATE_PER_SECOND + 3)" 300
  by (rule client_bucket [where bound = 8192])
    (use rounds_within_f64 [of 13] in \<open>simp_all add: rounds_f64 DEFAULT_RATE_PER_SECOND_def DEFAULT_RATE_BURST_def\<close>)

text \<open>A reading of the clock before the last refill counts as no time at all.\<close>

lemma bucket_step_min_last:
  "bucket_step rnd rate cap t (b\<lparr>bucket_last := min (bucket_last b) t\<rparr>) = bucket_step rnd rate cap t b"
proof -
  have "t - min (bucket_last b) t = t - bucket_last b" by simp
  then show ?thesis by (simp add: bucket_step_def refill_def)
qed

lemma acquire_min_last:
  "acquire_all (bucket_step rnd rate cap) (t # ts) (b\<lparr>bucket_last := min (bucket_last b) t\<rparr>)
     = acquire_all (bucket_step rnd rate cap) (t # ts) b"
  by (simp add: bucket_step_min_last)

text \<open>C26: The token bucket bounds what a client gets, in floating-point arithmetic. From any limiter
  whose counts are in range, over any sequence of checks of any clients at non-decreasing times within
  a window, the number of requests allowed to one client is at most the burst size plus the sustained
  rate times the length of the window, plus a rounding allowance per check of \<open>err * (2 * rate + 3)\<close>,
  where \<open>err\<close> bounds the rounding error of \<open>f64\<close> on the values that occur (about \<open>2^-40\<close> when burst and
  rate times window stay below \<open>8192\<close>).\<close>

theorem rate_limit_window:
  assumes "rounds rnd" "rounds_within bound err rnd" "0 \<le> err" "limiter_ok l"
    and "real (burst l) \<le> bound" "(secs (tend - t0) + 2 * err) * real (per_second l) \<le> bound"
    and "secs (tend - t0) \<le> 2 ^ 53"
    and "sorted (map snd checks)" "\<forall>t \<in> set (map snd checks). t0 \<le> t \<and> t \<le> tend"
  shows "real (allowed_for key (fst (check_all rnd checks l))) \<le>
    real (burst l) + real (per_second l) * secs (tend - t0) +
    real (length checks) * (err * (2 * real (per_second l) + 3))"
proof (cases "map snd (filter (\<lambda>c. fst c = key) checks)")
  case Nil
  then have "allowed_for key (fst (check_all rnd checks l)) = 0"
    using allowed_for_acquire_all [of l key "[]" 0 checks rnd] by simp
  then show ?thesis using assms(3) by (simp add: secs_def)
next
  case (Cons t ts)
  have srt: "sorted (t # ts)" unfolding Cons [symmetric] using assms(8) by (rule sorted_filter)
  have "set (t # ts) \<subseteq> set (map snd checks)" "length (t # ts) \<le> length checks"
    unfolding Cons [symmetric] by (auto intro: order_trans [OF length_filter_le])
  then have rng: "\<forall>x \<in> set (t # ts). x \<le> tend" "t0 \<le> t" using assms(9) by auto
  then have d: "secs (tend - t) \<le> secs (tend - t0)" by (intro secs_mono) simp
  have "(secs (tend - t) + 2 * err) * real (per_second l) \<le> bound"
    using assms(6) d by (meson add_right_mono mult_right_mono of_nat_0_le_iff order_trans)
  moreover have "0 \<le> bucket_tokens (bucket_of key t l)"
    using assms(4) by (auto simp: bucket_of_def limiter_ok_def split: option.splits)
  moreover have "bucket_tokens (bucket_of key t l) \<le> real (burst l)"
    using assms(4) by (auto simp: bucket_of_def limiter_ok_def split: option.splits)
  ultimately have "real (fst (acquire_all (bucket_step rnd (per_second l) (burst l)) (t # ts) (bucket_of key t l))) \<le>
      real (burst l) + real (per_second l) * secs (tend - t) +
      real (length (t # ts)) * (err * (2 * real (per_second l) + 3))"
    unfolding acquire_min_last [of rnd _ _ t ts "bucket_of key t l", symmetric] using assms(4,7) d
    by (intro token_bucket.run_window [where horizon = "secs (tend - t)", OF client_bucket [OF assms(1-3,5)] _ _ _ srt rng(1)])
      (auto simp: limiter_ok_def)
  moreover have "real (per_second l) * secs (tend - t) \<le> real (per_second l) * secs (tend - t0)"
    using d by (intro mult_left_mono) auto
  moreover have "real (length (t # ts)) * (err * (2 * real (per_second l) + 3)) \<le>
      real (length checks) * (err * (2 * real (per_second l) + 3))"
    using \<open>length (t # ts) \<le> length checks\<close> assms(3) by (intro mult_right_mono) auto
  moreover have "allowed_for key (fst (check_all rnd checks l)) =
      fst (acquire_all (bucket_step rnd (per_second l) (burst l)) (t # ts) (bucket_of key t l))"
    by (rule allowed_for_acquire_all [OF _ Cons [symmetric]]) simp
  ultimately show ?thesis by linarith
qed

lemma limiter_ok_new: "rate < 2 ^ 32 \<Longrightarrow> cap < 2 ^ 32 \<Longrightarrow> limiter_ok (rate_limiter_new rate cap)"
  by (simp add: limiter_ok_def rate_limiter_new_def)

theorem rate_limit_window_witness:
  "real (allowed_for ''principal:ci'' (fst (check_all f64_round
      [(''principal:ci'', 0), (''principal:ops'', 5), (''principal:ci'', 2000000000)] (rate_limiter_new 20 40)))) \<le>
   real (burst (rate_limiter_new 20 40)) + real (per_second (rate_limiter_new 20 40)) * secs (2000000000 - 0) +
     real (length [(''principal:ci'', 0 :: nat), (''principal:ops'', 5), (''principal:ci'', 2000000000)]) *
     ((1 / 2 ^ 41) * (2 * real (per_second (rate_limiter_new 20 40)) + 3))"
  by (rule rate_limit_window [where bound = 8192])
    (use rounds_within_f64 [of 13] in \<open>simp_all add: rounds_f64 limiter_ok_new, simp_all add: rate_limiter_new_def secs_def\<close>)

end
