(* ===== verification/Gateway_Scope.thy ===== *)
theory Gateway_Scope
  imports Prelude
begin

text \<open>
  Who may do what at the gateway: the scopes of \<open>soul_gateway/src/scope.rs\<close>, the cross-origin
  policy of \<open>crates/soul-cors\<close>, the token comparison of \<open>crates/soul-auth\<close>, and the credentials
  of \<open>soul_gateway/src/lib.rs\<close> (\<open>GatewayAuth\<close>). The environment is a map from variable names
  to values. Log lines are left out.
\<close>

unbundle bit_operations_syntax

section \<open>Scopes\<close>

datatype Scope = Read | Write | Exec | Admin

text \<open>The derived order is that of the declaration.\<close>

fun scope_rank :: "Scope \<Rightarrow> nat" where
  "scope_rank Read = 0"
| "scope_rank Write = 1"
| "scope_rank Exec = 2"
| "scope_rank Admin = 3"

lemma scope_rank_inject: "scope_rank a = scope_rank b \<Longrightarrow> a = b"
  by (cases a; cases b) auto

instantiation Scope :: linorder
begin

definition less_eq_Scope :: "Scope \<Rightarrow> Scope \<Rightarrow> bool" where
  "less_eq_Scope a b \<longleftrightarrow> scope_rank a \<le> scope_rank b"

definition less_Scope :: "Scope \<Rightarrow> Scope \<Rightarrow> bool" where
  "less_Scope a b \<longleftrightarrow> scope_rank a < scope_rank b"

instance
  by standard (auto simp: less_eq_Scope_def less_Scope_def dest: scope_rank_inject)

end

definition scope_parse :: "string \<Rightarrow> Scope option" where
  "scope_parse raw =
     (let s = to_ascii_lowercase (trim raw) in
      if s = ''read'' then Some Read
      else if s = ''write'' then Some Write
      else if s = ''exec'' then Some Exec
      else if s = ''admin'' then Some Admin
      else None)"

fun scope_as_str :: "Scope \<Rightarrow> string" where
  "scope_as_str Read = ''read''"
| "scope_as_str Write = ''write''"
| "scope_as_str Exec = ''exec''"
| "scope_as_str Admin = ''admin''"

record ScopeSet =
  scopes :: "Scope list"

definition all_scopes :: ScopeSet where
  "all_scopes = \<lparr>scopes = [Admin]\<rparr>"

definition no_scopes :: ScopeSet where
  "no_scopes = \<lparr>scopes = []\<rparr>"

text \<open>\<open>sort_unstable\<close> then \<open>dedup\<close>, which drops adjacent duplicates.\<close>

definition from_scopes :: "Scope list \<Rightarrow> ScopeSet" where
  "from_scopes ss = \<lparr>scopes = remdups_adj (sort ss)\<rparr>"

definition default_for_unscoped_credential :: ScopeSet where
  "default_for_unscoped_credential = from_scopes [Read]"

definition part_scope :: "string \<Rightarrow> (Scope option \<times> string) option" where
  "part_scope part = (let part = trim part in if part = [] then None else Some (scope_parse part, part))"

definition scope_set_parse :: "string \<Rightarrow> ScopeSet \<times> string list" where
  "scope_set_parse raw =
     (let parts = List.map_filter part_scope (split_char (CHR ''+'') raw)
      in (from_scopes (List.map_filter fst parts), map snd (filter (\<lambda>p. fst p = None) parts)))"

definition allows :: "ScopeSet \<Rightarrow> Scope \<Rightarrow> bool" where
  "allows ss required = list_ex (\<lambda>held. held = Admin \<or> held = required) (scopes ss)"

definition scopes_is_empty :: "ScopeSet \<Rightarrow> bool" where
  "scopes_is_empty ss = (scopes ss = [])"

definition is_all :: "ScopeSet \<Rightarrow> bool" where
  "is_all ss = (Admin \<in> set (scopes ss))"

definition scope_set_display :: "ScopeSet \<Rightarrow> string" where
  "scope_set_display ss =
     (if scopes ss = [] then ''(none)'' else join ''+'' (map scope_as_str (scopes ss)))"

definition split_principal_and_scopes :: "string \<Rightarrow> string \<times> ScopeSet \<times> string list" where
  "split_principal_and_scopes raw =
     (case split_once (CHR '':'') raw of
        Some (name, scope_list) \<Rightarrow>
          let (ss, unknown) = scope_set_parse scope_list in (trim name, ss, unknown)
      | None \<Rightarrow> (trim raw, default_for_unscoped_credential, []))"

lemma set_from_scopes [simp]: "set (scopes (from_scopes ss)) = set ss"
  by (simp add: from_scopes_def)

lemma allows_iff: "allows ss r \<longleftrightarrow> Admin \<in> set (scopes ss) \<or> r \<in> set (scopes ss)"
  by (auto simp: allows_def list_ex_iff)

lemma allows_default: "allows default_for_unscoped_credential r \<longleftrightarrow> r = Read"
  by (auto simp: allows_iff default_for_unscoped_credential_def)

lemma set_map_filter_iff: "y \<in> set (List.map_filter f xs) \<longleftrightarrow> (\<exists>x \<in> set xs. f x = Some y)"
  by (auto simp: List.map_filter_def image_iff)

text \<open>What a scope list grants: exactly the scopes its parts name.\<close>

lemma scope_set_parse_scopes:
  "s \<in> set (scopes (fst (scope_set_parse raw))) \<longleftrightarrow>
     (\<exists>part \<in> set (split_char (CHR ''+'') raw). trim part \<noteq> [] \<and> scope_parse (trim part) = Some s)"
proof -
  let ?parts = "List.map_filter part_scope (split_char (CHR ''+'') raw)"
  have "s \<in> set (scopes (fst (scope_set_parse raw))) \<longleftrightarrow> (\<exists>p \<in> set ?parts. fst p = Some s)"
    by (simp add: scope_set_parse_def Let_def set_map_filter_iff [of s fst])
  also have "\<dots> \<longleftrightarrow> (\<exists>part. (Some s, part) \<in> set ?parts)" by force
  also have "\<dots> \<longleftrightarrow> (\<exists>part \<in> set (split_char (CHR ''+'') raw). trim part \<noteq> [] \<and> scope_parse (trim part) = Some s)"
    by (auto simp: set_map_filter_iff part_scope_def Let_def split: if_splits)
  finally show ?thesis .
qed

lemma scope_parse_as_str [simp]: "scope_parse (scope_as_str s) = Some s"
  by (induction s) code_simp+

lemma trim_as_str: "trim (scope_as_str s) = scope_as_str s"
  by (induction s) code_simp+

lemma as_str_no_plus: "CHR ''+'' \<notin> set (scope_as_str s)" "scope_as_str s \<noteq> []"
  by (cases s; simp)+

lemma distinct_remdups_adj: "sorted xs \<Longrightarrow> distinct (remdups_adj xs)" for xs :: "'a :: linorder list"
  by (induction xs rule: remdups_adj.induct) (auto simp: order_le_less)

lemma remdups_adj_sort_id: "sorted xs \<Longrightarrow> distinct xs \<Longrightarrow> remdups_adj (sort xs) = (xs :: 'a :: linorder list)"
  by (simp add: sorted_sort_id remdups_adj_distinct)

lemma scope_set_parse_display:
  assumes "scopes ss \<noteq> []" "sorted (scopes ss)" "distinct (scopes ss)"
  shows "scope_set_parse (scope_set_display ss) = (ss, [])"
proof -
  have split: "split_char (CHR ''+'') (scope_set_display ss) = map scope_as_str (scopes ss)"
    using assms(1) by (auto simp: scope_set_display_def as_str_no_plus intro!: split_char_join)
  have "List.map_filter part_scope (map scope_as_str xs) = map (\<lambda>s. (Some s, scope_as_str s)) xs" for xs
    by (induction xs) (auto simp: List.map_filter_simps part_scope_def trim_as_str as_str_no_plus)
  moreover have "List.map_filter fst (map (\<lambda>s. (Some s, scope_as_str s)) xs) = xs" for xs
    by (induction xs) (auto simp: List.map_filter_simps)
  moreover have "filter (\<lambda>p. fst p = None) (map (\<lambda>s. (Some s, scope_as_str s)) xs) = []" for xs
    by (induction xs) auto
  ultimately show ?thesis
    using assms by (simp add: scope_set_parse_def split from_scopes_def remdups_adj_sort_id)
qed

section \<open>Cross-origin policy\<close>

datatype CorsPolicy = Disabled | Allowlist "string list"

definition cors_parse :: "string \<Rightarrow> CorsPolicy" where
  "cors_parse raw =
     (let origins = filter (\<lambda>s. s \<noteq> [] \<and> s \<noteq> ''*'') (map trim (split_char (CHR '','') raw))
      in if origins = [] then Disabled else Allowlist origins)"

definition cors_from_env :: "(string \<Rightarrow> string option) \<Rightarrow> string \<Rightarrow> CorsPolicy" where
  "cors_from_env env var = (case env var of Some raw \<Rightarrow> cors_parse raw | None \<Rightarrow> Disabled)"

fun cors_allows :: "CorsPolicy \<Rightarrow> string \<Rightarrow> bool" where
  "cors_allows Disabled origin = False"
| "cors_allows (Allowlist origins) origin = list_ex (\<lambda>x. x = origin) origins"

fun cors_origins :: "CorsPolicy \<Rightarrow> string list" where
  "cors_origins Disabled = []"
| "cors_origins (Allowlist origins) = origins"

lemma cors_parse_allows:
  "cors_allows (cors_parse raw) origin \<longleftrightarrow>
     origin \<noteq> [] \<and> origin \<noteq> ''*'' \<and> origin \<in> trim ` set (split_char (CHR '','') raw)"
  by (auto simp: cors_parse_def Let_def list_ex_iff filter_empty_conv)

section \<open>Credentials\<close>

definition as_bytes :: "string \<Rightarrow> u8 list" where
  "as_bytes s = map (\<lambda>c. of_nat (of_char c)) s"

lemma as_bytes_inject [simp]: "as_bytes a = as_bytes b \<longleftrightarrow> a = b"
proof -
  have u: "unat (of_nat (of_char c) :: u8) = of_char c" for c
    by (simp add: unsigned_of_nat take_bit_eq_mod)
  have "inj (\<lambda>c. of_nat (of_char c) :: u8)"
    by (rule injI) (metis u of_char_eq_iff)
  then show ?thesis by (auto simp: as_bytes_def inj_map_eq_map)
qed

lemma length_as_bytes [simp]: "length (as_bytes s) = length s"
  by (simp add: as_bytes_def)

text \<open>The comparison of \<open>soul-auth\<close>: the difference of the lengths and of all bytes, the shorter
  input padded with zeros.\<close>

definition byte_or_zero :: "u8 list \<Rightarrow> nat \<Rightarrow> u8" where
  "byte_or_zero bs i = (if i < length bs then bs ! i else 0)"

definition constant_time_eq :: "u8 list \<Rightarrow> u8 list \<Rightarrow> bool" where
  "constant_time_eq a b =
     (fold (\<lambda>i diff. diff OR ucast (byte_or_zero a i XOR byte_or_zero b i))
        [0..<max (length a) (length b)]
        (of_nat (length a) XOR of_nat (length b) :: u64) = 0)"

lemma fold_or_zero: "fold (\<lambda>i d. d OR f i) is d = 0 \<longleftrightarrow> d = (0 :: u64) \<and> (\<forall>i \<in> set is. f i = 0)"
  by (induction "is" arbitrary: d) (auto simp: or_eq_0_iff)

lemma fold_nothing: "fold (\<lambda>i d. d) is d = d"
  by (induction "is") auto

lemma xor_zero_iff: "a XOR b = 0 \<longleftrightarrow> a = (b :: 'a :: len word)"
  by (metis xor.assoc xor.left_neutral xor_self_eq)

lemma constant_time_eq_iff:
  assumes "length a < 2 ^ 64" "length b < 2 ^ 64"
  shows "constant_time_eq a b \<longleftrightarrow> a = b"
proof -
  have l: "(of_nat (length a) :: u64) = of_nat (length b) \<longleftrightarrow> length a = length b"
    using assms by (simp add: word_unat_eq_iff unsigned_of_nat take_bit_nat_eq_self)
  have u: "(ucast (x :: u8) :: u64) = 0 \<longleftrightarrow> x = 0" for x
  proof -
    have "unat (ucast x :: u64) = unat x"
      using unat_u8_less [of x] by (simp add: unsigned_ucast_eq take_bit_nat_eq_self)
    then show ?thesis by (metis unat_0 word_unat_eq_iff)
  qed
  show ?thesis
  proof
    assume "constant_time_eq a b"
    then have e: "length a = length b" "\<And>i. i < max (length a) (length b) \<Longrightarrow> byte_or_zero a i = byte_or_zero b i"
      by (auto simp: constant_time_eq_def fold_or_zero xor_zero_iff l u)
    then show "a = b" by (intro nth_equalityI) (auto simp: byte_or_zero_def split: if_splits)
  qed (simp add: constant_time_eq_def fold_nothing)
qed

record GatewayCredential =
  cred_principal :: string
  cred_token :: string
  cred_scopes :: ScopeSet

type_synonym GatewayAuth = "GatewayCredential list"
type_synonym environment = "string \<Rightarrow> string option"

record GatewayPrincipal =
  principal_name :: string
  principal_scopes :: ScopeSet

definition eq_ignore_ascii_case :: "string \<Rightarrow> string \<Rightarrow> bool" where
  "eq_ignore_ascii_case a b = (to_ascii_lowercase a = to_ascii_lowercase b)"

definition unscoped_default :: "environment \<Rightarrow> ScopeSet" where
  "unscoped_default env =
     (let legacy = (case env ''SOULSYSTEM_GATEWAY_UNSCOPED_GRANTS_ALL'' of
                      Some v \<Rightarrow> v = ''1'' \<or> eq_ignore_ascii_case v ''true''
                    | None \<Rightarrow> False)
      in if legacy then all_scopes else default_for_unscoped_credential)"

definition entry_credential :: "string \<Rightarrow> GatewayCredential option" where
  "entry_credential entry =
     (case split_once (CHR ''='') entry of
        None \<Rightarrow> None
      | Some (who, token) \<Rightarrow>
          let who = trim who; token = trim token in
          if who \<noteq> [] \<and> token \<noteq> []
          then let (name, ss, unknown) = split_principal_and_scopes who
               in Some \<lparr>cred_principal = name, cred_token = token, cred_scopes = ss\<rparr>
          else None)"

definition auth_from_env :: "environment \<Rightarrow> GatewayAuth" where
  "auth_from_env env =
     (case env ''SOULSYSTEM_GATEWAY_TOKENS'' of
        Some entries \<Rightarrow> List.map_filter entry_credential (split_char (CHR '','') entries)
      | None \<Rightarrow> []) @
     (case env ''SOULSYSTEM_GATEWAY_TOKEN'' of
        Some token \<Rightarrow>
          if token \<noteq> []
          then [\<lparr>cred_principal = ''legacy'', cred_token = token, cred_scopes = unscoped_default env\<rparr>]
          else []
      | None \<Rightarrow> [])"

definition auth_configured :: "string \<Rightarrow> GatewayAuth" where
  "auth_configured token = [\<lparr>cred_principal = ''operator'', cred_token = token, cred_scopes = all_scopes\<rparr>]"

definition auth_configured_scoped :: "string \<Rightarrow> string \<Rightarrow> ScopeSet \<Rightarrow> GatewayAuth" where
  "auth_configured_scoped who token ss = [\<lparr>cred_principal = who, cred_token = token, cred_scopes = ss\<rparr>]"

definition auth_configured_users :: "(string \<times> string) list \<Rightarrow> GatewayAuth" where
  "auth_configured_users =
     map (\<lambda>(who, token). \<lparr>cred_principal = who, cred_token = token, cred_scopes = all_scopes\<rparr>)"

definition auth_unconfigured :: GatewayAuth where
  "auth_unconfigured = []"

definition auth_is_configured :: "GatewayAuth \<Rightarrow> bool" where
  "auth_is_configured auth = (auth \<noteq> [])"

text \<open>Every credential is compared and the last match is kept.\<close>

definition authenticate :: "GatewayAuth \<Rightarrow> string option \<Rightarrow> GatewayPrincipal option" where
  "authenticate auth provided =
     (case provided of
        None \<Rightarrow> None
      | Some given \<Rightarrow>
          fold (\<lambda>credential matched.
              if constant_time_eq (as_bytes (cred_token credential)) (as_bytes given)
              then Some \<lparr>principal_name = cred_principal credential,
                         principal_scopes = cred_scopes credential\<rparr>
              else matched) auth None)"

definition auth_verify :: "GatewayAuth \<Rightarrow> string option \<Rightarrow> bool" where
  "auth_verify auth provided = (authenticate auth provided \<noteq> None)"

definition tokens_sized :: "GatewayAuth \<Rightarrow> bool" where
  "tokens_sized auth \<longleftrightarrow> (\<forall>c \<in> set auth. length (cred_token c) < 2 ^ 64)"

lemma fold_last_match:
  "fold (\<lambda>c m. if P c then Some (f c) else m) cs m =
     (case filter P cs of [] \<Rightarrow> m | _ \<Rightarrow> Some (f (last (filter P cs))))"
  by (induction cs arbitrary: m) (auto split: list.splits)

lemma constant_time_eq_bytes:
  "length a < 2 ^ 64 \<Longrightarrow> length b < 2 ^ 64 \<Longrightarrow> constant_time_eq (as_bytes a) (as_bytes b) \<longleftrightarrow> a = b"
  using constant_time_eq_iff [of "as_bytes a" "as_bytes b"] by simp

lemma authenticate_cases:
  assumes "tokens_sized auth" "length given < 2 ^ 64"
  shows "authenticate auth (Some given) =
    (case filter (\<lambda>c. cred_token c = given) auth of
       [] \<Rightarrow> None
     | cs \<Rightarrow> Some \<lparr>principal_name = cred_principal (last cs), principal_scopes = cred_scopes (last cs)\<rparr>)"
proof -
  have "filter (\<lambda>c. constant_time_eq (as_bytes (cred_token c)) (as_bytes given)) auth =
      filter (\<lambda>c. cred_token c = given) auth"
    using assms by (intro filter_cong) (auto simp: tokens_sized_def constant_time_eq_bytes)
  then show ?thesis by (simp add: authenticate_def fold_last_match split: list.splits)
qed

lemma authenticate_SomeD:
  assumes "tokens_sized auth" "length given < 2 ^ 64" "authenticate auth (Some given) = Some p"
  shows "\<exists>c \<in> set auth. cred_token c = given \<and> principal_name p = cred_principal c \<and> principal_scopes p = cred_scopes c"
proof -
  let ?cs = "filter (\<lambda>c. cred_token c = given) auth"
  have "?cs \<noteq> []" "p = \<lparr>principal_name = cred_principal (last ?cs), principal_scopes = cred_scopes (last ?cs)\<rparr>"
    using assms by (auto simp: authenticate_cases split: list.splits)
  moreover from this(1) have "last ?cs \<in> set ?cs" by (rule last_in_set)
  ultimately show ?thesis by auto
qed

lemma entry_credential_token: "entry_credential e = Some c \<Longrightarrow> cred_token c \<noteq> []"
  by (auto simp: entry_credential_def Let_def split: option.splits if_splits prod.splits)

section \<open>Grants\<close>

text \<open>An entry of the token list whose scope list names \<open>Admin\<close> or the scope itself.\<close>

definition entry_names_scope :: "string \<Rightarrow> Scope \<Rightarrow> string \<Rightarrow> bool" where
  "entry_names_scope token r entry \<longleftrightarrow>
     (\<exists>who tok name scope_list part.
        split_once (CHR ''='') entry = Some (who, tok) \<and> trim tok = token \<and> token \<noteq> [] \<and>
        split_once (CHR '':'') (trim who) = Some (name, scope_list) \<and>
        part \<in> set (split_char (CHR ''+'') scope_list) \<and>
        (scope_parse (trim part) = Some Admin \<or> scope_parse (trim part) = Some r))"

text \<open>The single legacy token while the migration variable is set.\<close>

definition legacy_grant :: "environment \<Rightarrow> string \<Rightarrow> bool" where
  "legacy_grant env token \<longleftrightarrow>
     env ''SOULSYSTEM_GATEWAY_TOKEN'' = Some token \<and> token \<noteq> [] \<and>
     (\<exists>v. env ''SOULSYSTEM_GATEWAY_UNSCOPED_GRANTS_ALL'' = Some v \<and> (v = ''1'' \<or> to_ascii_lowercase v = ''true''))"

lemma allows_parse:
  "allows (fst (scope_set_parse raw)) r \<longleftrightarrow>
     (\<exists>part \<in> set (split_char (CHR ''+'') raw). trim part \<noteq> [] \<and>
        (scope_parse (trim part) = Some Admin \<or> scope_parse (trim part) = Some r))"
  unfolding allows_iff scope_set_parse_scopes by blast

text \<open>The entry is for this token, and its principal part has a scope list.\<close>

definition entry_for :: "string \<Rightarrow> string \<Rightarrow> bool" where
  "entry_for token entry \<longleftrightarrow> (\<exists>who tok. split_once (CHR ''='') entry = Some (who, tok) \<and> trim tok = token)"

definition entry_scoped :: "string \<Rightarrow> bool" where
  "entry_scoped entry \<longleftrightarrow> (\<exists>who tok. split_once (CHR ''='') entry = Some (who, tok) \<and> CHR '':'' \<in> set (trim who))"

lemma entry_grant:
  assumes "entry_credential entry = Some c" "allows (cred_scopes c) r" "r \<noteq> Read \<or> entry_scoped entry"
  shows "entry_names_scope (cred_token c) r entry \<and> entry_for (cred_token c) entry"
proof -
  from assms(1) obtain who tok where
    e: "split_once (CHR ''='') entry = Some (who, tok)" "trim tok \<noteq> []" "cred_token c = trim tok"
       "cred_scopes c = fst (snd (split_principal_and_scopes (trim who)))"
    by (auto simp: entry_credential_def Let_def split: option.splits if_splits prod.splits)
  have "entry_names_scope (cred_token c) r entry"
  proof (cases "split_once (CHR '':'') (trim who)")
    case None
    then have "cred_scopes c = default_for_unscoped_credential" using e by (simp add: split_principal_and_scopes_def)
    moreover have "\<not> entry_scoped entry" using e None by (auto simp: entry_scoped_def split_once_None_iff)
    ultimately show ?thesis using assms(2,3) by (simp add: allows_default)
  next
    case (Some p)
    then have "cred_scopes c = fst (scope_set_parse (snd p))"
      using e by (auto simp: split_principal_and_scopes_def Let_def split: prod.splits)
    then show ?thesis
      using assms(2) e Some unfolding entry_names_scope_def allows_parse
      by (metis allows_parse prod.collapse)
  qed
  then show ?thesis using e unfolding entry_for_def by auto
qed

lemma entry_credential_for: "entry_credential entry = Some c \<Longrightarrow> entry_for (cred_token c) entry"
  by (auto simp: entry_credential_def entry_for_def Let_def split: option.splits if_splits prod.splits)

lemma auth_from_env_cases:
  assumes "c \<in> set (auth_from_env env)"
  obtains (tokens) entries entry where "env ''SOULSYSTEM_GATEWAY_TOKENS'' = Some entries"
        "entry \<in> set (split_char (CHR '','') entries)" "entry_credential entry = Some c"
    | (legacy) "env ''SOULSYSTEM_GATEWAY_TOKEN'' = Some (cred_token c)" "cred_token c \<noteq> []"
        "cred_scopes c = unscoped_default env"
  using assms
  by (cases "env ''SOULSYSTEM_GATEWAY_TOKENS''"; cases "env ''SOULSYSTEM_GATEWAY_TOKEN''")
     (auto simp: auth_from_env_def set_map_filter_iff split: if_splits)

text \<open>A token whose every entry has a scope list is granted what one of the lists names.\<close>

lemma scoped_grant:
  assumes "c \<in> set (auth_from_env env)" "allows (cred_scopes c) r"
    and "env ''SOULSYSTEM_GATEWAY_TOKEN'' \<noteq> Some (cred_token c)"
    and "\<And>entries entry. env ''SOULSYSTEM_GATEWAY_TOKENS'' = Some entries \<Longrightarrow>
      entry \<in> set (split_char (CHR '','') entries) \<Longrightarrow> entry_for (cred_token c) entry \<Longrightarrow> entry_scoped entry"
  shows "\<exists>entries. env ''SOULSYSTEM_GATEWAY_TOKENS'' = Some entries \<and>
      (\<exists>entry \<in> set (split_char (CHR '','') entries). entry_names_scope (cred_token c) r entry)"
  using assms(1)
proof (cases rule: auth_from_env_cases)
  case (tokens entries entry)
  then have "entry_scoped entry" using assms(4) entry_credential_for by blast
  then show ?thesis using tokens entry_grant assms(2) by blast
qed (use assms(3) in simp)

lemma legacy_scopes: "allows (unscoped_default env) r \<Longrightarrow> r \<noteq> Read \<Longrightarrow>
  \<exists>v. env ''SOULSYSTEM_GATEWAY_UNSCOPED_GRANTS_ALL'' = Some v \<and> (v = ''1'' \<or> to_ascii_lowercase v = ''true'')"
proof -
  have t: "to_ascii_lowercase ''true'' = ''true''" by code_simp
  show "allows (unscoped_default env) r \<Longrightarrow> r \<noteq> Read \<Longrightarrow> ?thesis"
    by (auto simp: unscoped_default_def allows_default eq_ignore_ascii_case_def t Let_def split: option.splits if_splits)
qed

lemma env_grant:
  assumes "c \<in> set (auth_from_env env)" "allows (cred_scopes c) r" "r \<noteq> Read"
  shows "(\<exists>entries. env ''SOULSYSTEM_GATEWAY_TOKENS'' = Some entries \<and>
      (\<exists>entry \<in> set (split_char (CHR '','') entries). entry_names_scope (cred_token c) r entry)) \<or>
    legacy_grant env (cred_token c)"
  using assms(1)
proof (cases rule: auth_from_env_cases)
  case tokens
  then show ?thesis using entry_grant assms(2,3) by blast
next
  case legacy
  then show ?thesis using legacy_scopes assms(2,3) by (auto simp: legacy_grant_def)
qed

text \<open>Scope sets print and parse back: a non-empty set built from any list of scopes is displayed
  as its names joined by \<open>+\<close>, and parsing that text gives the same set with no unknown name.\<close>

theorem scope_set_roundtrip:
  assumes "ss \<noteq> []"
  shows "scope_set_parse (scope_set_display (from_scopes ss)) = (from_scopes ss, [])"
proof (rule scope_set_parse_display)
  show "scopes (from_scopes ss) \<noteq> []" using assms set_from_scopes [of ss] by fastforce
  show "sorted (scopes (from_scopes ss))" "distinct (scopes (from_scopes ss))"
    by (simp_all add: from_scopes_def sorted_remdups_adj distinct_remdups_adj)
qed

theorem scope_set_roundtrip_witness:
  "scope_set_parse (scope_set_display (from_scopes [Exec, Read, Exec])) = (from_scopes [Exec, Read, Exec], [])"
  by (rule scope_set_roundtrip) simp

end
