(* ===== verification/Webhook_Auth.thy ===== *)
theory Webhook_Auth
  imports Gateway_Scope "HOL-Library.AList"
begin

text \<open>
  Verification of provider webhooks, \<open>soul_gateway/src/webhook_auth.rs\<close>: decoding of signatures,
  freshness of timestamps, the cache of accepted signatures, and the checks of the three providers.

  A \<open>SystemTime\<close> is a number of nanoseconds relative to the Unix epoch. The cryptographic libraries are
  parameters: \<open>hmac\<close> for HMAC-SHA256 of a key and a message, \<open>ct_eq\<close> for the constant-time comparison
  of \<open>subtle\<close>, \<open>key_ok\<close> and \<open>ed25519_verify\<close> for the two operations of \<open>ed25519_dalek\<close>. The HMAC
  constructor accepts keys of any length, so its error branch is not taken.
\<close>

definition MAX_SKEW :: int where
  "MAX_SKEW = 5 * 60"

text \<open>\<open>Duration\<close> in nanoseconds.\<close>

definition MAX_SKEW_ns :: int where
  "MAX_SKEW_ns = MAX_SKEW * 10 ^ 9"

datatype WebhookRejection = NotConfigured | MalformedHeader | BadSignature | StaleTimestamp | Replayed

fun rejection_as_str :: "WebhookRejection \<Rightarrow> string" where
  "rejection_as_str NotConfigured = ''not_configured''"
| "rejection_as_str MalformedHeader = ''malformed_header''"
| "rejection_as_str BadSignature = ''bad_signature''"
| "rejection_as_str StaleTimestamp = ''stale_timestamp''"
| "rejection_as_str Replayed = ''replayed''"

section \<open>Hexadecimal signatures\<close>

fun decode_pairs :: "string \<Rightarrow> u8 list option" where
  "decode_pairs (a # b # s) =
     (case hex_digit a of
        None \<Rightarrow> None
      | Some hi \<Rightarrow>
        (case hex_digit b of
           None \<Rightarrow> None
         | Some lo \<Rightarrow> map_option (Cons (push_bit 4 (of_nat hi) OR of_nat lo)) (decode_pairs s)))"
| "decode_pairs _ = Some []"

definition decode_hex :: "string \<Rightarrow> u8 list option" where
  "decode_hex s = (if odd (length s) then None else decode_pairs s)"

definition hex_byte :: "u8 \<Rightarrow> string" where
  "hex_byte b = [hex_char (unat b div 16), hex_char (unat b mod 16)]"

lemma hex_digit_char: "n < 16 \<Longrightarrow> hex_digit (hex_char n) = Some n"
proof -
  have "list_all (\<lambda>n. hex_digit (hex_char n) = Some n) [0..<16]" by code_simp
  then show "n < 16 \<Longrightarrow> hex_digit (hex_char n) = Some n" by (simp add: list_all_iff)
qed

lemma nibbles: "push_bit 4 (of_nat (unat b div 16)) OR of_nat (unat b mod 16) = (b :: u8)"
proof -
  have "push_bit 4 (drop_bit 4 b) OR take_bit 4 b = b"
    by (rule bit_word_eqI) (auto simp: bit_simps)
  moreover have "of_nat (unat b div 16) = drop_bit 4 b" "of_nat (unat b mod 16) = take_bit 4 b"
    using unat_u8_less [of b]
    by (simp_all add: word_unat_eq_iff unsigned_of_nat take_bit_eq_mod drop_bit_eq_div unat_div_distrib unat_mod_distrib)
  ultimately show ?thesis by simp
qed

lemma decode_hex_encode: "decode_hex (concat (map hex_byte bs)) = Some bs"
proof -
  have "even (length (concat (map hex_byte bs))) \<and> decode_pairs (concat (map hex_byte bs)) = Some bs"
  proof (induction bs)
    case (Cons b bs)
    have "unat b div 16 < 16" "unat b mod 16 < 16" using unat_u8_less [of b] by auto
    then show ?case using Cons nibbles [of b] by (simp add: hex_byte_def hex_digit_char)
  qed simp
  then show ?thesis by (simp add: decode_hex_def)
qed

section \<open>Freshness\<close>

text \<open>\<open>i64\<close> subtraction as it wraps.\<close>

definition i64_sub :: "int \<Rightarrow> int \<Rightarrow> int" where
  "i64_sub a b = sint (word_of_int (a - b) :: 64 word)"

definition timestamp_is_fresh :: "int \<Rightarrow> int \<Rightarrow> bool" where
  "timestamp_is_fresh signed_at now =
     (if now < 0 then False else let now_secs = now div 10 ^ 9 in \<bar>i64_sub now_secs signed_at\<bar> \<le> MAX_SKEW)"

lemma parse_i64_range: "parse_i64 s = Some v \<Longrightarrow> - (2 ^ 63) \<le> v \<and> v < 2 ^ 63"
  by (auto simp: parse_i64_def Let_def split: option.splits if_splits)

lemma sint_word_of_int_id: "- (2 ^ 63) \<le> x \<Longrightarrow> x < 2 ^ 63 \<Longrightarrow> sint (word_of_int x :: 64 word) = x"
  by (simp add: sint_sbintrunc' signed_take_bit_int_eq_self)

text \<open>Before the year 292 million the subtraction that matters does not wrap into the window.\<close>

lemma fresh_iff:
  assumes "0 \<le> now" "now div 10 ^ 9 < 2 ^ 62" "- (2 ^ 63) \<le> signed_at" "signed_at < 2 ^ 63"
  shows "timestamp_is_fresh signed_at now \<longleftrightarrow> \<bar>now div 10 ^ 9 - signed_at\<bar> \<le> 300"
proof (cases "now div 10 ^ 9 - signed_at < 2 ^ 63")
  case True
  then have "i64_sub (now div 10 ^ 9) signed_at = now div 10 ^ 9 - signed_at"
    unfolding i64_sub_def using assms pos_imp_zdiv_nonneg_iff [of "10 ^ 9" now] by (intro sint_word_of_int_id) auto
  then show ?thesis using assms(1) by (simp add: timestamp_is_fresh_def MAX_SKEW_def)
next
  case False
  let ?d = "now div 10 ^ 9 - signed_at"
  have "(word_of_int ?d :: 64 word) = word_of_int (?d - 2 ^ 64)"
    by (simp only: word_of_int_eq_iff) (simp add: take_bit_eq_mod)
  moreover have "sint (word_of_int (?d - 2 ^ 64) :: 64 word) = ?d - 2 ^ 64"
    using False assms by (intro sint_word_of_int_id) auto
  ultimately have "i64_sub (now div 10 ^ 9) signed_at = ?d - 2 ^ 64" by (simp only: i64_sub_def)
  moreover have "?d - 2 ^ 64 < - 300" "300 < ?d" using False assms by auto
  ultimately show ?thesis using assms(1) by (simp add: timestamp_is_fresh_def MAX_SKEW_def)
qed

section \<open>The replay cache\<close>

text \<open>A signature with the time of its acceptance. An entry whose time is in the future is kept.\<close>

type_synonym ReplayCache = "(u8 list \<times> int) list"

definition replay_cache_new :: ReplayCache where
  "replay_cache_new = []"

definition check_and_insert :: "u8 list \<Rightarrow> int \<Rightarrow> ReplayCache \<Rightarrow> bool \<times> ReplayCache" where
  "check_and_insert signature now seen =
     (let seen = filter (\<lambda>(_, inserted). if inserted \<le> now then now - inserted < MAX_SKEW_ns else True) seen
      in if map_of seen signature \<noteq> None then (False, seen)
         else (True, AList.update signature now seen))"

definition replay_cache_len :: "ReplayCache \<Rightarrow> nat" where
  "replay_cache_len seen = length seen"

text \<open>A sequence of keys presented at given times.\<close>

fun accept_all :: "('k \<Rightarrow> int \<Rightarrow> 's \<Rightarrow> bool \<times> 's) \<Rightarrow> ('k \<times> int) list \<Rightarrow> 's \<Rightarrow> bool list \<times> 's" where
  "accept_all accept [] s = ([], s)"
| "accept_all accept ((k, now) # rs) s =
     (let (ok, s) = accept k now s; (oks, s) = accept_all accept rs s in (ok # oks, s))"

text \<open>What a cache of accepted keys promises its client: an accepted key is stamped with the time,
  and a key whose stamp is less than the window old is refused and keeps its stamp.\<close>

locale replay_guard =
  fixes accept :: "'k \<Rightarrow> int \<Rightarrow> 's \<Rightarrow> bool \<times> 's"
    and stamp :: "'s \<Rightarrow> 'k \<Rightarrow> int option"
    and width :: int
  assumes accept_stamps: "accept k now s = (True, s') \<Longrightarrow> stamp s' k = Some now"
    and fresh_kept: "stamp s k = Some t \<Longrightarrow> now - t < width \<Longrightarrow> accept k' now s = (ok, s') \<Longrightarrow> stamp s' k = Some t"
    and fresh_refused: "stamp s k = Some t \<Longrightarrow> now - t < width \<Longrightarrow> accept k now s = (ok, s') \<Longrightarrow> \<not> ok"
begin

lemma refused_while_fresh:
  "stamp s k = Some t \<Longrightarrow> \<forall>r \<in> set (take (Suc j) rs). snd r - t < width \<Longrightarrow> j < length rs \<Longrightarrow> fst (rs ! j) = k \<Longrightarrow>
     \<not> fst (accept_all accept rs s) ! j"
proof (induction rs arbitrary: s j)
  case (Cons r rs)
  obtain k' now ok s' where r: "r = (k', now)" "accept k' now s = (ok, s')" by fastforce
  with Cons.prems have now: "now - t < width" by simp
  show ?case
  proof (cases j)
    case 0
    then show ?thesis using fresh_refused [OF Cons.prems(1) now] r Cons.prems(4) by (auto simp: split_beta)
  next
    case (Suc i)
    then show ?thesis
      using Cons.IH [of s' i] fresh_kept [OF Cons.prems(1) now r(2)] Cons.prems r by (auto simp: split_beta)
  qed
qed simp

lemma accepted_twice_far_apart:
  "i < j \<Longrightarrow> j < length rs \<Longrightarrow> fst (rs ! i) = k \<Longrightarrow> fst (rs ! j) = k \<Longrightarrow> sorted (map snd rs) \<Longrightarrow>
     fst (accept_all accept rs s) ! i \<Longrightarrow> fst (accept_all accept rs s) ! j \<Longrightarrow> snd (rs ! i) + width \<le> snd (rs ! j)"
proof (induction rs arbitrary: s i j)
  case (Cons r rs)
  obtain k' now ok s' where r: "r = (k', now)" "accept k' now s = (ok, s')" by fastforce
  obtain j' where j: "j = Suc j'" using Cons.prems(1) by (cases j) auto
  show ?case
  proof (cases i)
    case 0
    with Cons.prems r have st: "stamp s' k = Some now" by (auto simp: split_beta intro: accept_stamps)
    have acc: "fst (accept_all accept rs s') ! j'" "j' < length rs" "fst (rs ! j') = k" using Cons.prems r j by (auto simp: split_beta)
    have le: "snd x \<le> snd (rs ! j')" if x: "x \<in> set (take (Suc j') rs)" for x
    proof -
      obtain n where "n < length (take (Suc j') rs)" "take (Suc j') rs ! n = x"
        using x unfolding in_set_conv_nth by blast
      then have "n < Suc j'" "n < length rs" "x = rs ! n" by auto
      then show ?thesis using Cons.prems(5) acc(2) sorted_nth_mono [of "map snd rs" n j'] by auto
    qed
    have "\<not> snd (rs ! j') - now < width"
      using refused_while_fresh [OF st _ acc(2,3)] acc(1) le by fastforce
    then show ?thesis using 0 j r by simp
  next
    case (Suc i')
    then show ?thesis using Cons.IH [of i' j' s'] Cons.prems r j by (auto simp: split_beta)
  qed
qed simp

end

lemma filter_stamp: "map_of seen k = Some t \<Longrightarrow> P t \<Longrightarrow> map_of (filter (\<lambda>(_, x). P x) seen) k = Some t"
  by (induction seen) auto

interpretation rg: replay_guard check_and_insert map_of MAX_SKEW_ns
proof
  fix k now s s'
  assume "check_and_insert k now s = (True, s')"
  then show "map_of s' k = Some now" by (auto simp: check_and_insert_def Let_def AList.update_conv split: if_splits)
next
  fix s :: ReplayCache and k t now k' ok s'
  assume a: "map_of s k = Some t" "now - t < MAX_SKEW_ns" "check_and_insert k' now s = (ok, s')"
  let ?seen = "filter (\<lambda>(_, inserted). if inserted \<le> now then now - inserted < MAX_SKEW_ns else True) s"
  have m: "map_of ?seen k = Some t" using a(1,2) by (intro filter_stamp) auto
  with a(3) show "map_of s' k = Some t"
    by (auto simp: check_and_insert_def Let_def AList.update_conv simp del: map_of_eq_Some_iff map_of_eq_None_iff split: if_splits)
next
  fix s :: ReplayCache and k t now ok s'
  assume a: "map_of s k = Some t" "now - t < MAX_SKEW_ns" "check_and_insert k now s = (ok, s')"
  let ?seen = "filter (\<lambda>(_, inserted). if inserted \<le> now then now - inserted < MAX_SKEW_ns else True) s"
  have "map_of ?seen k = Some t" using a(1,2) by (intro filter_stamp) auto
  with a(3) show "\<not> ok" by (auto simp: check_and_insert_def Let_def simp del: map_of_eq_None_iff split: if_splits)
qed

section \<open>The providers\<close>

definition verify_slack ::
    "(u8 list \<Rightarrow> u8 list \<Rightarrow> u8 list) \<Rightarrow> (u8 list \<Rightarrow> u8 list \<Rightarrow> bool) \<Rightarrow> string \<Rightarrow> string \<Rightarrow> string \<Rightarrow> u8 list \<Rightarrow> int
      \<Rightarrow> WebhookRejection + u8 list" where
  "verify_slack hmac ct_eq signing_secret timestamp_header signature_header body now =
     (case strip_prefix ''v0='' signature_header of
        None \<Rightarrow> Inl MalformedHeader
      | Some hex \<Rightarrow>
     (case decode_hex hex of
        None \<Rightarrow> Inl MalformedHeader
      | Some provided \<Rightarrow>
     (case parse_i64 timestamp_header of
        None \<Rightarrow> Inl MalformedHeader
      | Some signed_at \<Rightarrow>
        let expected = hmac (as_bytes signing_secret)
                         (as_bytes ''v0:'' @ as_bytes timestamp_header @ as_bytes '':'' @ body)
        in if \<not> ct_eq expected provided then Inl BadSignature
           else if \<not> timestamp_is_fresh signed_at now then Inl StaleTimestamp
           else Inr provided)))"

definition verify_meta ::
    "(u8 list \<Rightarrow> u8 list \<Rightarrow> u8 list) \<Rightarrow> (u8 list \<Rightarrow> u8 list \<Rightarrow> bool) \<Rightarrow> string \<Rightarrow> string \<Rightarrow> u8 list
      \<Rightarrow> WebhookRejection + u8 list" where
  "verify_meta hmac ct_eq app_secret signature_header body =
     (case strip_prefix ''sha256='' signature_header of
        None \<Rightarrow> Inl MalformedHeader
      | Some hex \<Rightarrow>
     (case decode_hex hex of
        None \<Rightarrow> Inl MalformedHeader
      | Some provided \<Rightarrow>
        let expected = hmac (as_bytes app_secret) body
        in if \<not> ct_eq expected provided then Inl BadSignature else Inr provided))"

definition verify_discord ::
    "(u8 list \<Rightarrow> bool) \<Rightarrow> (u8 list \<Rightarrow> u8 list \<Rightarrow> u8 list \<Rightarrow> bool) \<Rightarrow> string \<Rightarrow> string \<Rightarrow> string \<Rightarrow> u8 list \<Rightarrow> int
      \<Rightarrow> WebhookRejection + u8 list" where
  "verify_discord key_ok ed25519_verify public_key_hex timestamp_header signature_header body now =
     (case decode_hex public_key_hex of
        None \<Rightarrow> Inl NotConfigured
      | Some key_bytes \<Rightarrow>
        if length key_bytes \<noteq> 32 then Inl NotConfigured
        else if \<not> key_ok key_bytes then Inl NotConfigured
        else
     (case decode_hex signature_header of
        None \<Rightarrow> Inl MalformedHeader
      | Some sig_bytes \<Rightarrow>
        if length sig_bytes \<noteq> 64 then Inl MalformedHeader
        else
     (case parse_i64 timestamp_header of
        None \<Rightarrow> Inl MalformedHeader
      | Some signed_at \<Rightarrow>
        let signed_bytes = as_bytes timestamp_header @ body
        in if \<not> ed25519_verify key_bytes signed_bytes sig_bytes then Inl BadSignature
           else if \<not> timestamp_is_fresh signed_at now then Inl StaleTimestamp
           else Inr sig_bytes)))"

lemma verify_slack_InrD:
  assumes "verify_slack hmac ct_eq secret ts sig body now = Inr provided"
  shows "\<exists>hex signed_at. sig = ''v0='' @ hex \<and> decode_hex hex = Some provided \<and> parse_i64 ts = Some signed_at \<and>
    ct_eq (hmac (as_bytes secret) (as_bytes ''v0:'' @ as_bytes ts @ as_bytes '':'' @ body)) provided \<and>
    timestamp_is_fresh signed_at now"
  using assms
  by (auto simp: verify_slack_def Let_def strip_prefix_Some_iff split: option.splits if_splits)

lemma verify_meta_InrD:
  assumes "verify_meta hmac ct_eq secret sig body = Inr provided"
  shows "\<exists>hex. sig = ''sha256='' @ hex \<and> decode_hex hex = Some provided \<and> ct_eq (hmac (as_bytes secret) body) provided"
  using assms
  by (auto simp: verify_meta_def Let_def strip_prefix_Some_iff split: option.splits if_splits)

lemma verify_discord_InrD:
  assumes "verify_discord key_ok ver key ts sig body now = Inr provided"
  shows "\<exists>key_bytes signed_at. decode_hex key = Some key_bytes \<and> length key_bytes = 32 \<and> key_ok key_bytes \<and>
    decode_hex sig = Some provided \<and> length provided = 64 \<and> parse_i64 ts = Some signed_at \<and>
    ver key_bytes (as_bytes ts @ body) provided \<and> timestamp_is_fresh signed_at now"
  using assms by (auto simp: verify_discord_def Let_def split: option.splits if_splits)

section \<open>Replay\<close>

text \<open>A signature is accepted at most once per window: over any sequence of signatures presented
  to the replay cache at non-decreasing times, from any contents of the cache, two acceptances of the
  same signature are at least 300 seconds apart.\<close>

theorem replay_window:
  assumes "i < j" "j < length rs" "fst (rs ! i) = fst (rs ! j)" "sorted (map snd rs)"
    and "fst (accept_all check_and_insert rs seen) ! i" "fst (accept_all check_and_insert rs seen) ! j"
  shows "snd (rs ! i) + 300 * 10 ^ 9 \<le> snd (rs ! j)"
  using rg.accepted_twice_far_apart [OF assms(1,2) assms(3) refl assms(4-6)] by (simp add: MAX_SKEW_ns_def MAX_SKEW_def)

theorem replay_window_witness:
  "snd ([([1 :: u8], 0 :: int), ([2], 5), ([1], 300 * 10 ^ 9)] ! 0) + 300 * 10 ^ 9 \<le> snd ([([1 :: u8], 0 :: int), ([2], 5), ([1], 300 * 10 ^ 9)] ! 2)"
  by (rule replay_window [where seen = replay_cache_new])
    (simp_all add: check_and_insert_def replay_cache_new_def MAX_SKEW_ns_def MAX_SKEW_def)

lemma parse_i64_show_nat: "n < 2 ^ 63 \<Longrightarrow> parse_i64 (show_nat n) = Some (int n)"
proof -
  assume n: "n < 2 ^ 63"
  obtain c s where c: "show_nat n = c # s" by (cases "show_nat n") auto
  then have "c \<noteq> CHR ''-''" "c \<noteq> CHR ''+''" using show_nat_hd [of n] dec_char_not_plus by auto
  then show ?thesis using n digits_val_show_nat [of n] unfolding parse_i64_def c by (simp add: Let_def)
qed

lemma fresh_whole_seconds:
  assumes "0 \<le> s" "s < 2 ^ 62" "0 \<le> t" "t < 2 ^ 62"
  shows "timestamp_is_fresh t (s * 10 ^ 9) \<longleftrightarrow> \<bar>s - t\<bar> \<le> 300"
  using fresh_iff [of "s * 10 ^ 9" t] assms by simp

text \<open>A captured request can be replayed while it is still fresh. A timestamp is fresh from 300
  seconds before to 300 seconds after the clock, ten minutes in all, but an accepted signature is
  remembered for five: a Slack request signed at \<open>T\<close> and delivered by a clock that shows \<open>T - 300\<close> is
  accepted then, and accepted again, unchanged, at \<open>T\<close>.\<close>

theorem slack_replayed_while_fresh:
  fixes hmac :: "u8 list \<Rightarrow> u8 list \<Rightarrow> u8 list"
  assumes "\<And>a b. ct_eq a b \<longleftrightarrow> a = b" "300 \<le> T" "T < 2 ^ 62"
    and "signature = hmac (as_bytes secret) (as_bytes ''v0:'' @ as_bytes (show_nat T) @ as_bytes '':'' @ body)"
    and "header = ''v0='' @ concat (map hex_byte signature)"
    and "first = (int T - 300) * 10 ^ 9" "second = int T * 10 ^ 9"
  shows "verify_slack hmac ct_eq secret (show_nat T) header body first = Inr signature \<and>
    verify_slack hmac ct_eq secret (show_nat T) header body second = Inr signature \<and>
    fst (accept_all check_and_insert [(signature, first), (signature, second)] replay_cache_new) = [True, True]"
proof -
  have p: "parse_i64 (show_nat T) = Some (int T)" using assms(3) by (intro parse_i64_show_nat) simp
  have f: "timestamp_is_fresh (int T) first" "timestamp_is_fresh (int T) second"
    using assms(2,3,6,7) fresh_whole_seconds [of "int T - 300" "int T"] fresh_whole_seconds [of "int T" "int T"] by auto
  have "verify_slack hmac ct_eq secret (show_nat T) header body now = Inr signature"
    if "timestamp_is_fresh (int T) now" for now
    using that p assms(1,4) decode_hex_encode [of signature] strip_prefix_append [of "''v0=''"]
    by (simp add: verify_slack_def assms(5) Let_def)
  then show ?thesis
    using f by (simp add: check_and_insert_def replay_cache_new_def MAX_SKEW_ns_def MAX_SKEW_def assms(6,7))
qed

theorem slack_replayed_while_fresh_witness:
  "verify_slack (\<lambda>_ _. [42]) (=) ''s'' (show_nat 1000) (''v0='' @ concat (map hex_byte [42])) [] ((int 1000 - 300) * 10 ^ 9) = Inr [42] \<and>
   verify_slack (\<lambda>_ _. [42]) (=) ''s'' (show_nat 1000) (''v0='' @ concat (map hex_byte [42])) [] (int 1000 * 10 ^ 9) = Inr [42] \<and>
   fst (accept_all check_and_insert [([42], (int 1000 - 300) * 10 ^ 9), ([42], int 1000 * 10 ^ 9)] replay_cache_new) = [True, True]"
  by (rule slack_replayed_while_fresh) simp_all

end
