(* ===== verification/Gateway.thy ===== *)
theory Gateway
  imports Gateway_Limits Webhook_Auth
begin

text \<open>
  The HTTP gateway, \<open>soul_gateway/src/lib.rs\<close>: the event hub, the shared state, the bodies
  the webhook providers send, and the operator handlers. Middlewares, webhooks and routes follow in
  \<open>Gateway_Routes\<close>.

  A handler takes the request and the gateway state and returns a response and the new state. The
  entity behind the gateway is a trait object: a record of functions on a state of its own. What axum
  and serde do is given as functions: \<open>extract_field\<close> reads one string field of a JSON body (or gives the
  status axum rejects the request with), the \<open>_json\<close> functions deserialise a provider's body. Request headers
  are given as a map that is defined where the header is present and readable as text. A path is given
  as its decoded segments. The readings of the clocks during one request are given in order.

  Left out: the body size bound, the concurrency bound and the cross-origin layer, which are library
  layers around the router; TLS and the accept loop; log lines.
\<close>

section \<open>Events\<close>

datatype EntityEvent =
    GoalCreated string string int
  | PlanCreated string string nat int
  | StepExecuted string bool bool u64 int
  | Observation string int
  | Decision string u32 int
  | CycleStarted string int
  | CycleFinished string bool int
  | Error string int
  | Heartbeat int

record EventHub =
  hub_events :: "EntityEvent list"
  hub_capacity :: nat

definition hub_new :: "nat \<Rightarrow> EventHub" where
  "hub_new cap = \<lparr>hub_events = [], hub_capacity = cap\<rparr>"

fun pop_while_over :: "nat \<Rightarrow> 'a list \<Rightarrow> 'a list" where
  "pop_while_over cap [] = []"
| "pop_while_over cap (x # q) = (if length (x # q) > cap then pop_while_over cap q else x # q)"

definition hub_publish :: "EntityEvent \<Rightarrow> EventHub \<Rightarrow> EventHub" where
  "hub_publish event hub = hub\<lparr>hub_events := pop_while_over (hub_capacity hub) (hub_events hub @ [event])\<rparr>"

definition hub_recent :: "nat \<Rightarrow> EventHub \<Rightarrow> EntityEvent list" where
  "hub_recent n hub = (let start = length (hub_events hub) - n in drop start (hub_events hub))"

definition hub_len :: "EventHub \<Rightarrow> nat" where
  "hub_len hub = length (hub_events hub)"

lemma pop_while_over_eq: "pop_while_over cap q = drop (length q - cap) q"
  by (induction q) (auto simp: Suc_diff_le not_less)

interpretation hub: bounded_history hub_publish hub_events hub_capacity
  by unfold_locales (simp_all add: hub_publish_def pop_while_over_eq)

lemma hub_recent_length: "length (hub_recent n hub) = min n (hub_len hub)"
  by (auto simp: hub_recent_def hub_len_def Let_def)

section \<open>Requests, responses and state\<close>

datatype Json = JNull | JBool bool | JNum int | JStr string | JArr "Json list" | JObj "(string \<times> Json) list"

datatype Method = GET | HEAD | POST | Other_Method string

record Request =
  req_method :: Method
  req_path :: "string list"
  req_header :: "string \<Rightarrow> string option"
  req_body :: "u8 list"
  req_principal :: "GatewayPrincipal option"

record Response =
  resp_status :: nat
  resp_retry_after :: "nat option"
  resp_body :: Json

definition respond :: "nat \<Rightarrow> Json \<Rightarrow> Response" where
  "respond st js = \<lparr>resp_status = st, resp_retry_after = None, resp_body = js\<rparr>"

definition error_response :: "string \<Rightarrow> Json" where
  "error_response message = JObj [(''error'', JStr message)]"

record 'e EntityHandle =
  eh_ask :: "string \<Rightarrow> 'e \<Rightarrow> (string + string) \<times> 'e"
  eh_status :: "'e \<Rightarrow> Json \<times> 'e"
  eh_create_goal :: "string \<Rightarrow> 'e \<Rightarrow> (string + string) \<times> 'e"
  eh_plan :: "string \<Rightarrow> 'e \<Rightarrow> (string + string list) \<times> 'e"
  eh_execute_plan :: "string \<Rightarrow> 'e \<Rightarrow> (string + string) \<times> 'e"
  eh_execute_shell :: "string \<Rightarrow> 'e \<Rightarrow> (string + string) \<times> 'e"
  eh_run_cycle :: "'e \<Rightarrow> (string + Json) \<times> 'e"
  eh_list_goals :: "'e \<Rightarrow> Json list \<times> 'e"
  eh_replay_events :: "nat \<Rightarrow> 'e \<Rightarrow> EntityEvent list \<times> 'e"
  eh_alert :: "string \<Rightarrow> string \<Rightarrow> 'e \<Rightarrow> (string + unit) \<times> 'e"
  eh_spawn_subagent :: "string \<Rightarrow> 'e \<Rightarrow> (string + string) \<times> 'e"
  eh_list_subagents :: "'e \<Rightarrow> Json list \<times> 'e"

record 'e GatewayState =
  gs_entity :: 'e
  gs_events :: EventHub
  gs_auth :: GatewayAuth
  gs_webhook_replay :: ReplayCache
  gs_limits :: GatewayLimits
  gs_rate_limiter :: RateLimiter

definition state_with_auth :: "'e \<Rightarrow> GatewayAuth \<Rightarrow> 'e GatewayState" where
  "state_with_auth e auth =
     \<lparr>gs_entity = e, gs_events = hub_new 500, gs_auth = auth, gs_webhook_replay = replay_cache_new,
      gs_limits = default_gateway_limits,
      gs_rate_limiter = rate_limiter_new DEFAULT_RATE_PER_SECOND DEFAULT_RATE_BURST\<rparr>"

definition state_new :: "'e \<Rightarrow> environment \<Rightarrow> 'e GatewayState" where
  "state_new e env =
     (let limits = limits_from_env env in
      \<lparr>gs_entity = e, gs_events = hub_new 500, gs_auth = auth_from_env env, gs_webhook_replay = replay_cache_new,
       gs_limits = limits, gs_rate_limiter = rate_limiter_new (rate_per_second limits) (rate_burst limits)\<rparr>)"

definition with_limits :: "GatewayLimits \<Rightarrow> 'e GatewayState \<Rightarrow> 'e GatewayState" where
  "with_limits limits st =
     st\<lparr>gs_rate_limiter := rate_limiter_new (rate_per_second limits) (rate_burst limits), gs_limits := limits\<rparr>"

section \<open>Provider bodies\<close>

record DiscordInteractionOption =
  opt_name :: string
  opt_value :: string

record DiscordInteractionData =
  data_name :: "string option"
  data_options :: "DiscordInteractionOption list option"

record DiscordWebhookBody =
  interaction_type :: "u8 option"
  discord_id :: "string option"
  discord_token :: "string option"
  discord_channel_id :: "string option"
  discord_member :: "(string \<times> string) option option"
  discord_data :: "DiscordInteractionData option"

definition interaction_text :: "DiscordWebhookBody \<Rightarrow> string" where
  "interaction_text body =
     (let parts = (case discord_data body of
            None \<Rightarrow> []
          | Some d \<Rightarrow>
              (case data_name d of Some name \<Rightarrow> [name] | None \<Rightarrow> []) @
              (case data_options d of
                 Some opts \<Rightarrow> map (\<lambda>opt. opt_name opt @ ''='' @ opt_value opt) opts
               | None \<Rightarrow> []))
      in join '' '' parts)"

record SlackEvent =
  slack_kind :: "string option"
  slack_channel :: "string option"
  slack_user :: "string option"
  slack_text :: "string option"
  slack_ts :: "string option"
  slack_bot_id :: "string option"
  slack_subtype :: "string option"

record SlackWebhookBody =
  slack_event_type :: "string option"
  slack_event :: "SlackEvent option"
  slack_challenge :: "string option"

definition event_text :: "SlackWebhookBody \<Rightarrow> (string \<times> string) option" where
  "event_text body =
     (case slack_event body of
        None \<Rightarrow> None
      | Some event \<Rightarrow>
        if slack_bot_id event \<noteq> None \<or> slack_subtype event = Some ''bot_message'' then None
        else case slack_channel event of
               None \<Rightarrow> None
             | Some channel \<Rightarrow>
               (case slack_text event of
                  None \<Rightarrow> None
                | Some txt \<Rightarrow> if txt = [] then None else Some (channel, txt)))"

record WhatsAppText =
  wa_body :: "string option"

record WhatsAppMessage =
  wa_from :: "string option"
  wa_id :: "string option"
  wa_msg_type :: "string option"
  wa_text :: "WhatsAppText option"

record WhatsAppValue =
  messaging_product :: "string option"
  wa_metadata :: "(string option \<times> string option) option"
  wa_contacts :: "string option list option"
  wa_messages :: "WhatsAppMessage list option"

record WhatsAppChange =
  wa_value :: "WhatsAppValue option"
  wa_field :: "string option"

record WhatsAppEntry =
  wa_entry_id :: "string option"
  wa_changes :: "WhatsAppChange list option"

record WhatsAppWebhookBody =
  wa_object :: "string option"
  wa_entry :: "WhatsAppEntry list option"

fun first_of :: "'a list option \<Rightarrow> 'a option" where
  "first_of (Some (x # xs)) = Some x"
| "first_of _ = None"

definition first_message_text :: "WhatsAppWebhookBody \<Rightarrow> (string \<times> string) option" where
  "first_message_text body =
     Option.bind (first_of (wa_entry body)) (\<lambda>entry.
     Option.bind (first_of (wa_changes entry)) (\<lambda>change.
     Option.bind (wa_value change) (\<lambda>val.
     Option.bind (first_of (wa_messages val)) (\<lambda>msg.
       if wa_msg_type msg \<noteq> Some ''text'' then None
       else Option.bind (wa_from msg) (\<lambda>sender.
            Option.bind (Option.bind (wa_text msg) wa_body) (\<lambda>txt.
              if txt = [] then None else Some (sender, txt)))))))"

section \<open>What a request depends on\<close>

text \<open>The entity's functions, the libraries, the environment and the readings of the clocks: the
  monotonic clock at the budget check, the system clock at the verification and at the replay check,
  the successive readings of the wall clock, and the identifier drawn.\<close>

record 'e request_context =
  entity_api :: "'e EntityHandle"
  extract_field :: "string \<Rightarrow> Request \<Rightarrow> nat + string"
  ws_upgrade :: "Request \<Rightarrow> nat + unit"
  discord_json :: "u8 list \<Rightarrow> DiscordWebhookBody option"
  slack_json :: "u8 list \<Rightarrow> SlackWebhookBody option"
  whatsapp_json :: "u8 list \<Rightarrow> WhatsAppWebhookBody option"
  hmac_sha256 :: "u8 list \<Rightarrow> u8 list \<Rightarrow> u8 list"
  subtle_ct_eq :: "u8 list \<Rightarrow> u8 list \<Rightarrow> bool"
  ed25519_key_ok :: "u8 list \<Rightarrow> bool"
  ed25519_verify :: "u8 list \<Rightarrow> u8 list \<Rightarrow> u8 list \<Rightarrow> bool"
  env_var :: environment
  f64_rnd :: "real \<Rightarrow> real"
  events_json :: "EntityEvent list \<Rightarrow> Json"
  instant_now :: nat
  verify_now :: int
  replay_now :: int
  utc_now :: "nat \<Rightarrow> int"
  new_uuid :: string

type_synonym 'e handler = "'e request_context \<Rightarrow> Request \<Rightarrow> 'e GatewayState \<Rightarrow> Response \<times> 'e GatewayState"

section \<open>Handlers\<close>

text \<open>Running an entity function and putting its new state back.\<close>

definition on_entity :: "('e \<Rightarrow> 'a \<times> 'e) \<Rightarrow> 'e GatewayState \<Rightarrow> 'a \<times> 'e GatewayState" where
  "on_entity f st = (let (r, e) = f (gs_entity st) in (r, st\<lparr>gs_entity := e\<rparr>))"

definition publish_event :: "EntityEvent \<Rightarrow> 'e GatewayState \<Rightarrow> 'e GatewayState" where
  "publish_event ev st = st\<lparr>gs_events := hub_publish ev (gs_events st)\<rparr>"

definition health :: "'e handler" where
  "health cx req st =
     (respond 200 (JObj [(''status'', JStr ''ok''), (''ts'', JNum (utc_now cx 0)), (''service'', JStr ''soul_gateway'')]), st)"

definition handle_ask :: "'e handler" where
  "handle_ask cx req st =
     (case extract_field cx ''prompt'' req of
        Inl code \<Rightarrow> (respond code JNull, st)
      | Inr prompt \<Rightarrow>
        if trim prompt = [] then (respond 400 (error_response ''prompt vide''), st)
        else case on_entity (eh_ask (entity_api cx) prompt) st of
               (Inr resp, st) \<Rightarrow> (respond 200 (JObj [(''response'', JStr resp)]), st)
             | (Inl e, st) \<Rightarrow> (respond 500 (error_response e), st))"

definition handle_create_goal :: "'e handler" where
  "handle_create_goal cx req st =
     (case extract_field cx ''description'' req of
        Inl code \<Rightarrow> (respond code JNull, st)
      | Inr desc \<Rightarrow>
        if trim desc = [] then (respond 400 (error_response ''description vide''), st)
        else case on_entity (eh_create_goal (entity_api cx) desc) st of
               (Inr gid, st) \<Rightarrow>
                 (respond 200 (JObj [(''id'', JStr gid), (''description'', JStr desc)]),
                  publish_event (GoalCreated gid desc (utc_now cx 0)) st)
             | (Inl e, st) \<Rightarrow> (respond 500 (error_response e), st))"

definition path_param :: "Request \<Rightarrow> string" where
  "path_param req = last (req_path req)"

definition handle_plan :: "'e handler" where
  "handle_plan cx req st =
     (let goal_id = path_param req in
      case on_entity (eh_plan (entity_api cx) goal_id) st of
        (Inr steps, st) \<Rightarrow>
          (respond 200 (JObj [(''goal_id'', JStr goal_id), (''steps'', JArr (map JStr steps))]),
           publish_event (PlanCreated (new_uuid cx) goal_id (length steps) (utc_now cx 0)) st)
      | (Inl e, st) \<Rightarrow> (respond 500 (error_response e), st))"

definition handle_execute_plan :: "'e handler" where
  "handle_execute_plan cx req st =
     (case on_entity (eh_execute_plan (entity_api cx) (path_param req)) st of
        (Inr result, st) \<Rightarrow> (respond 200 (JObj [(''result'', JStr result)]), st)
      | (Inl e, st) \<Rightarrow> (respond 500 (error_response e), st))"

definition handle_shell :: "'e handler" where
  "handle_shell cx req st =
     (case extract_field cx ''command'' req of
        Inl code \<Rightarrow> (respond code JNull, st)
      | Inr cmd \<Rightarrow>
        if trim cmd = [] then (respond 400 (error_response ''commande vide''), st)
        else case on_entity (eh_execute_shell (entity_api cx) cmd) st of
               (Inr result, st) \<Rightarrow> (respond 200 (JObj [(''result'', JStr result)]), st)
             | (Inl e, st) \<Rightarrow> (respond 500 (error_response e), st))"

definition handle_cycle :: "'e handler" where
  "handle_cycle cx req st =
     (let cycle_id = new_uuid cx;
          st = publish_event (CycleStarted cycle_id (utc_now cx 0)) st in
      case on_entity (eh_run_cycle (entity_api cx)) st of
        (Inr cyc, st) \<Rightarrow>
          (respond 200 (JObj [(''cycle'', cyc)]), publish_event (CycleFinished cycle_id True (utc_now cx 1)) st)
      | (Inl e, st) \<Rightarrow>
          let st = publish_event (Error e (utc_now cx 1)) st;
              st = publish_event (CycleFinished cycle_id False (utc_now cx 2)) st
          in (respond 500 (error_response e), st))"

definition handle_status :: "'e handler" where
  "handle_status cx req st = (let (s, st) = on_entity (eh_status (entity_api cx)) st in (respond 200 s, st))"

definition handle_list_goals :: "'e handler" where
  "handle_list_goals cx req st =
     (let (gs, st) = on_entity (eh_list_goals (entity_api cx)) st in (respond 200 (JArr gs), st))"

definition handle_spawn_subagent :: "'e handler" where
  "handle_spawn_subagent cx req st =
     (case extract_field cx ''description'' req of
        Inl code \<Rightarrow> (respond code JNull, st)
      | Inr desc \<Rightarrow>
        if trim desc = [] then (respond 400 (error_response ''description cannot be empty''), st)
        else case on_entity (eh_spawn_subagent (entity_api cx) desc) st of
               (Inr aid, st) \<Rightarrow> (respond 202 (JObj [(''id'', JStr aid), (''status'', JStr ''pending'')]), st)
             | (Inl e, st) \<Rightarrow> (respond 500 (error_response e), st))"

definition handle_list_subagents :: "'e handler" where
  "handle_list_subagents cx req st =
     (let (xs, st) = on_entity (eh_list_subagents (entity_api cx)) st in (respond 200 (JArr xs), st))"

definition handle_recent_events :: "'e handler" where
  "handle_recent_events cx req st =
     (respond 200 (events_json cx (hub_recent 50 (gs_events st))), st)"

definition handle_ws :: "'e handler" where
  "handle_ws cx req st =
     (case ws_upgrade cx req of Inl code \<Rightarrow> (respond code JNull, st) | Inr _ \<Rightarrow> (respond 101 JNull, st))"

end
