(* ===== verification/Gateway_Routes.thy ===== *)
theory Gateway_Routes
  imports Gateway
begin

text \<open>
  The middlewares of \<open>soul_gateway/src/lib.rs\<close> (authentication, request budget, scope), its webhook
  endpoints with the provider functions they call, the route table, and the event stream of a
  WebSocket client. The theorems say when a request reaches the entity.
\<close>

section \<open>Middlewares\<close>

type_synonym 'e next_handler = "Request \<Rightarrow> 'e GatewayState \<Rightarrow> Response \<times> 'e GatewayState"

definition require_auth :: "'e next_handler \<Rightarrow> 'e next_handler" where
  "require_auth next_h req st =
     (let provided = Option.bind (req_header req ''authorization'') (strip_prefix ''Bearer '') in
      case authenticate (gs_auth st) provided of
        Some who \<Rightarrow> next_h (req\<lparr>req_principal := Some who\<rparr>) st
      | None \<Rightarrow> (respond 401 (error_response ''unauthorized''), st))"

definition require_scope :: "Scope \<Rightarrow> 'e next_handler \<Rightarrow> 'e next_handler" where
  "require_scope required next_h req st =
     (case req_principal req of
        None \<Rightarrow> (respond 500 (error_response ''authorization misconfigured''), st)
      | Some who \<Rightarrow>
          if allows (principal_scopes who) required then next_h req st
          else (respond 403 (error_response (''this credential lacks the '' @ [CHR 0x27] @ scope_as_str required @ [CHR 0x27] @ '' scope'')), st))"

definition require_rate_budget :: "'e request_context \<Rightarrow> 'e next_handler \<Rightarrow> 'e next_handler" where
  "require_rate_budget cx next_h req st =
     (let key = rate_key (map_option principal_name (req_principal req)) None in
      case check_at (f64_rnd cx) key (instant_now cx) (gs_rate_limiter st) of
        (Allowed, limiter) \<Rightarrow> next_h req (st\<lparr>gs_rate_limiter := limiter\<rparr>)
      | (Throttled retry_after_secs, limiter) \<Rightarrow>
          ((respond 429 (error_response
              ''request budget exceeded; retry after the interval in the Retry-After header''))
              \<lparr>resp_retry_after := Some retry_after_secs\<rparr>,
           st\<lparr>gs_rate_limiter := limiter\<rparr>))"

section \<open>Webhooks\<close>

text \<open>\<open>emit_event\<close> on a bus that is always there.\<close>

definition webhook_ask :: "'e request_context \<Rightarrow> string \<Rightarrow> 'e GatewayState \<Rightarrow> string \<times> 'e GatewayState" where
  "webhook_ask cx txt st =
     (case on_entity (eh_ask (entity_api cx) txt) st of
        (Inr reply, st) \<Rightarrow> (reply, st)
      | (Inl e, st) \<Rightarrow> (''Error: '' @ e, st))"

definition discord_handle_webhook :: "'e request_context \<Rightarrow> DiscordWebhookBody \<Rightarrow> 'e GatewayState \<Rightarrow> Json \<times> 'e GatewayState" where
  "discord_handle_webhook cx body st =
     (let txt = interaction_text body;
          who = (case discord_id body of Some i \<Rightarrow> i | None \<Rightarrow> ''?'');
          st = publish_event (Observation (''discord:'' @ who @ '': '' @ txt) (utc_now cx 0)) st;
          (reply, st) = webhook_ask cx txt st
      in (JObj [(''type'', JNum 4), (''data'', JObj [(''content'', JStr reply), (''flags'', JNum 0)])], st))"

definition slack_handle_webhook :: "'e request_context \<Rightarrow> SlackWebhookBody \<Rightarrow> 'e GatewayState \<Rightarrow> Json \<times> 'e GatewayState" where
  "slack_handle_webhook cx body st =
     (case slack_challenge body of
        Some challenge \<Rightarrow> (JObj [(''challenge'', JStr challenge)], st)
      | None \<Rightarrow>
        (case event_text body of
           Some (channel, txt) \<Rightarrow>
             let st = publish_event (Observation (''slack:'' @ channel @ '': '' @ txt) (utc_now cx 0)) st;
                 (reply, st) = webhook_ask cx txt st
             in (JObj [(''ok'', JBool True), (''text'', JStr reply)], st)
         | None \<Rightarrow> (JObj [(''ok'', JBool True)], st)))"

definition whatsapp_handle_webhook :: "'e request_context \<Rightarrow> WhatsAppWebhookBody \<Rightarrow> 'e GatewayState \<Rightarrow> Json \<times> 'e GatewayState" where
  "whatsapp_handle_webhook cx body st =
     (case first_message_text body of
        Some (sender, txt) \<Rightarrow>
          let st = publish_event (Observation (''whatsapp:'' @ sender @ '': '' @ txt) (utc_now cx 0)) st;
              (reply, st) = webhook_ask cx txt st
          in (JObj [(''ok'', JBool True), (''text'', JStr reply)], st)
      | None \<Rightarrow> (JObj [(''ok'', JBool True)], st))"

definition header_str :: "Request \<Rightarrow> string \<Rightarrow> WebhookRejection + string" where
  "header_str req name = (case req_header req name of Some v \<Rightarrow> Inr v | None \<Rightarrow> Inl MalformedHeader)"

definition webhook_rejected :: "string \<Rightarrow> WebhookRejection \<Rightarrow> Response" where
  "webhook_rejected provider reason =
     respond 401 (error_response (provider @ '' webhook signature verification failed''))"

definition webhook_not_configured :: "string \<Rightarrow> Response" where
  "webhook_not_configured provider =
     respond 503 (error_response (provider @ '' webhook verification secret is not configured''))"

definition check_replay :: "'e request_context \<Rightarrow> string \<Rightarrow> u8 list \<Rightarrow> 'e GatewayState \<Rightarrow> (Response + unit) \<times> 'e GatewayState" where
  "check_replay cx provider signature st =
     (case check_and_insert signature (replay_now cx) (gs_webhook_replay st) of
        (True, seen) \<Rightarrow> (Inr (), st\<lparr>gs_webhook_replay := seen\<rparr>)
      | (False, seen) \<Rightarrow> (Inl (webhook_rejected provider Replayed), st\<lparr>gs_webhook_replay := seen\<rparr>))"

definition parse_verified_body :: "string \<Rightarrow> (u8 list \<Rightarrow> 'b option) \<Rightarrow> u8 list \<Rightarrow> Response + 'b" where
  "parse_verified_body provider from_slice body =
     (case from_slice body of
        Some b \<Rightarrow> Inr b
      | None \<Rightarrow> Inl (respond 400 (error_response (provider @ '' webhook body is not valid JSON''))))"

text \<open>The common course of the three endpoints: a secret from the environment, a verification, the
  replay check, the body, the provider's handler.\<close>

definition webhook_endpoint ::
    "string \<Rightarrow> string \<Rightarrow> (string \<Rightarrow> WebhookRejection + u8 list) \<Rightarrow> (u8 list \<Rightarrow> 'b option)
      \<Rightarrow> ('b \<Rightarrow> 'e GatewayState \<Rightarrow> Json \<times> 'e GatewayState) \<Rightarrow> 'e handler" where
  "webhook_endpoint provider var verify from_slice handle cx req st =
     (case env_var cx var of
        None \<Rightarrow> (webhook_not_configured provider, st)
      | Some secret \<Rightarrow>
        if secret = [] then (webhook_not_configured provider, st)
        else case verify secret of
          Inl reason \<Rightarrow> (webhook_rejected provider reason, st)
        | Inr signature \<Rightarrow>
          (case check_replay cx provider signature st of
             (Inl refusal, st) \<Rightarrow> (refusal, st)
           | (Inr _, st) \<Rightarrow>
             (case parse_verified_body provider from_slice (req_body req) of
                Inl refusal \<Rightarrow> (refusal, st)
              | Inr payload \<Rightarrow> let (response, st) = handle payload st in (respond 200 response, st))))"

definition discord_verification :: "'e request_context \<Rightarrow> Request \<Rightarrow> string \<Rightarrow> WebhookRejection + u8 list" where
  "discord_verification cx req public_key =
     bind_res (header_str req ''x-signature-timestamp'') (\<lambda>ts.
     bind_res (header_str req ''x-signature-ed25519'') (\<lambda>sig.
       verify_discord (ed25519_key_ok cx) (ed25519_verify cx) public_key ts sig (req_body req) (verify_now cx)))"

definition slack_verification :: "'e request_context \<Rightarrow> Request \<Rightarrow> string \<Rightarrow> WebhookRejection + u8 list" where
  "slack_verification cx req secret =
     bind_res (header_str req ''x-slack-request-timestamp'') (\<lambda>ts.
     bind_res (header_str req ''x-slack-signature'') (\<lambda>sig.
       verify_slack (hmac_sha256 cx) (subtle_ct_eq cx) secret ts sig (req_body req) (verify_now cx)))"

definition whatsapp_verification :: "'e request_context \<Rightarrow> Request \<Rightarrow> string \<Rightarrow> WebhookRejection + u8 list" where
  "whatsapp_verification cx req secret =
     bind_res (header_str req ''x-hub-signature-256'') (\<lambda>sig.
       verify_meta (hmac_sha256 cx) (subtle_ct_eq cx) secret sig (req_body req))"

definition handle_discord_webhook :: "'e handler" where
  "handle_discord_webhook cx req st =
     webhook_endpoint ''discord'' ''DISCORD_PUBLIC_KEY'' (discord_verification cx req)
       (discord_json cx) (discord_handle_webhook cx) cx req st"

definition handle_slack_webhook :: "'e handler" where
  "handle_slack_webhook cx req st =
     webhook_endpoint ''slack'' ''SLACK_SIGNING_SECRET'' (slack_verification cx req)
       (slack_json cx) (slack_handle_webhook cx) cx req st"

definition handle_whatsapp_webhook :: "'e handler" where
  "handle_whatsapp_webhook cx req st =
     webhook_endpoint ''whatsapp'' ''WHATSAPP_WEBHOOK_SECRET'' (whatsapp_verification cx req)
       (whatsapp_json cx) (whatsapp_handle_webhook cx) cx req st"

section \<open>Routes\<close>

text \<open>A route pattern is a list of segments; one that starts with a colon captures any segment. A
  \<open>get\<close> route also answers HEAD.\<close>

fun match_segments :: "string list \<Rightarrow> string list \<Rightarrow> bool" where
  "match_segments [] [] = True"
| "match_segments (p # ps) (s # ss) = ((if starts_with p '':'' then s \<noteq> [] else p = s) \<and> match_segments ps ss)"
| "match_segments _ _ = False"

fun method_matches :: "Method \<Rightarrow> Method \<Rightarrow> bool" where
  "method_matches GET m = (m = GET \<or> m = HEAD)"
| "method_matches r m = (r = m)"

definition read_routes :: "(Method \<times> string list \<times> 'e handler) list" where
  "read_routes =
     [(GET, [''v1'', ''status''], handle_status),
      (GET, [''v1'', ''goals''], handle_list_goals),
      (GET, [''v1'', ''events''], handle_recent_events),
      (GET, [''v1'', ''stream''], handle_ws),
      (GET, [''v1'', ''subagents''], handle_list_subagents)]"

definition write_routes :: "(Method \<times> string list \<times> 'e handler) list" where
  "write_routes =
     [(POST, [''v1'', ''goal''], handle_create_goal),
      (POST, [''v1'', ''plan'', '':goal_id''], handle_plan)]"

definition exec_routes :: "(Method \<times> string list \<times> 'e handler) list" where
  "exec_routes =
     [(POST, [''v1'', ''ask''], handle_ask),
      (POST, [''v1'', ''execute'', '':goal_id''], handle_execute_plan),
      (POST, [''v1'', ''run''], handle_shell),
      (POST, [''v1'', ''cycle''], handle_cycle),
      (POST, [''v1'', ''subagents''], handle_spawn_subagent)]"

definition webhook_routes :: "(Method \<times> string list \<times> 'e handler) list" where
  "webhook_routes =
     [(POST, [''providers'', ''discord'', ''webhook''], handle_discord_webhook),
      (POST, [''providers'', ''slack'', ''webhook''], handle_slack_webhook),
      (POST, [''providers'', ''whatsapp'', ''webhook''], handle_whatsapp_webhook)]"

definition scoped :: "Scope \<Rightarrow> (Method \<times> string list \<times> 'e handler) list \<Rightarrow> (Method \<times> string list \<times> Scope \<times> 'e handler) list" where
  "scoped sc = map (\<lambda>(m, p, h). (m, p, sc, h))"

definition operator_routes :: "(Method \<times> string list \<times> Scope \<times> 'e handler) list" where
  "operator_routes = scoped Read read_routes @ scoped Write write_routes @ scoped Exec exec_routes"

definition find_route :: "(Method \<times> string list \<times> 'r) list \<Rightarrow> Request \<Rightarrow> 'r option" where
  "find_route routes req =
     map_option (snd \<circ> snd) (find (\<lambda>(m, p, _). method_matches m (req_method req) \<and> match_segments p (req_path req)) routes)"

text \<open>The layers around an operator route, the last one added outermost: authentication, then the
  budget, then the scope.\<close>

definition operator_layers :: "'e request_context \<Rightarrow> Scope \<Rightarrow> 'e handler \<Rightarrow> 'e next_handler" where
  "operator_layers cx sc h = require_auth (require_rate_budget cx (require_scope sc (h cx)))"

text \<open>\<open>None\<close> where the router has no handler for the request and answers by itself.\<close>

definition router :: "'e request_context \<Rightarrow> Request \<Rightarrow> 'e GatewayState \<Rightarrow> (Response \<times> 'e GatewayState) option" where
  "router cx req st =
     (if method_matches GET (req_method req) \<and> match_segments [''health''] (req_path req) then Some (health cx req st)
      else case find_route operator_routes req of
        Some (sc, h) \<Rightarrow> Some (operator_layers cx sc h req st)
      | None \<Rightarrow> map_option (\<lambda>h. h cx req st) (find_route webhook_routes req))"

section \<open>The event stream\<close>

text \<open>\<open>ws_loop\<close>: each tick looks at the hub, the wall clock gives the time of a heartbeat, and the
  socket accepts a number of further messages before it fails.\<close>

fun send_all :: "EntityEvent list \<Rightarrow> nat \<Rightarrow> EntityEvent list \<times> nat option" where
  "send_all [] room = ([], Some room)"
| "send_all (ev # evs) 0 = ([], None)"
| "send_all (ev # evs) (Suc room) = (let (sent, r) = send_all evs room in (ev # sent, r))"

fun ws_loop :: "(EventHub \<times> int) list \<Rightarrow> nat \<Rightarrow> nat \<Rightarrow> EntityEvent list" where
  "ws_loop [] last_idx room = []"
| "ws_loop ((hub, now) # ticks) last_idx room =
     (let recent = hub_recent 100 hub;
          (batch, last_idx) = (if length recent > last_idx then (drop last_idx recent, length recent)
                               else ([Heartbeat now], last_idx))
      in case send_all batch room of
           (sent, None) \<Rightarrow> sent
         | (sent, Some room) \<Rightarrow> sent @ ws_loop ticks last_idx room)"

section \<open>Operator requests\<close>

lemma find_route_SomeD:
  assumes "find_route routes req = Some r"
  shows "\<exists>m p. (m, p, r) \<in> set routes \<and> method_matches m (req_method req) \<and> match_segments p (req_path req)"
  using assms by (auto simp: find_route_def dest!: find_SomeD)

text \<open>Every operator path starts with \<open>v1\<close>, so the three tables do not overlap.\<close>

lemma operator_route_path: "find_route operator_routes req = Some r \<Longrightarrow> \<exists>ss. req_path req = ''v1'' # ss"
proof -
  assume "find_route operator_routes req = Some r"
  then obtain m p where p: "(m, p, r) \<in> set operator_routes" "match_segments p (req_path req)"
    by (auto dest!: find_route_SomeD)
  then obtain ps where "p = ''v1'' # ps"
    by (auto simp: operator_routes_def scoped_def read_routes_def write_routes_def exec_routes_def)
  with p(2) show ?thesis by (cases "req_path req") auto
qed

lemma router_operator:
  assumes "find_route operator_routes req = Some (sc, h)"
  shows "router cx req st = Some (operator_layers cx sc h req st)"
  using operator_route_path [OF assms] assms by (auto simp: router_def)

lemma router_webhook:
  fixes cx :: "'e request_context"
  assumes "req_path req = ''providers'' # ss"
  shows "router cx req st = map_option (\<lambda>h. h cx req st) (find_route webhook_routes req)"
proof -
  have "find_route (operator_routes :: (Method \<times> string list \<times> Scope \<times> 'e handler) list) req = None"
    (is "?r = None")
  proof (cases ?r)
    case (Some r)
    from operator_route_path [OF this] show ?thesis using assms by auto
  qed
  then show ?thesis using assms by (auto simp: router_def)
qed

definition presented_token :: "Request \<Rightarrow> string option" where
  "presented_token req = Option.bind (req_header req ''authorization'') (strip_prefix ''Bearer '')"

lemma presented_token_Some: "presented_token req = Some t \<longleftrightarrow> req_header req ''authorization'' = Some (''Bearer '' @ t)"
  by (auto simp: presented_token_def strip_prefix_Some_iff bind_eq_Some_conv)

text \<open>The three layers as one decision.\<close>

lemma operator_layers_decision:
  "operator_layers cx sc h req st =
     (case authenticate (gs_auth st) (presented_token req) of
        None \<Rightarrow> (respond 401 (error_response ''unauthorized''), st)
      | Some who \<Rightarrow>
        (case check_at (f64_rnd cx) (''principal:'' @ principal_name who) (instant_now cx) (gs_rate_limiter st) of
           (Throttled n, l) \<Rightarrow>
             ((respond 429 (error_response
                ''request budget exceeded; retry after the interval in the Retry-After header''))
                \<lparr>resp_retry_after := Some n\<rparr>, st\<lparr>gs_rate_limiter := l\<rparr>)
         | (Allowed, l) \<Rightarrow>
             if allows (principal_scopes who) sc
             then h cx (req\<lparr>req_principal := Some who\<rparr>) (st\<lparr>gs_rate_limiter := l\<rparr>)
             else (respond 403 (error_response (''this credential lacks the '' @ [CHR 0x27] @ scope_as_str sc @
                     [CHR 0x27] @ '' scope'')), st\<lparr>gs_rate_limiter := l\<rparr>)))"
  by (auto simp: operator_layers_def require_auth_def presented_token_def require_rate_budget_def
      require_scope_def rate_key_def Let_def split: option.splits prod.splits RateDecision.splits)

text \<open>A request is refused: a status, and nothing but the request budget touched.\<close>

definition refused :: "'e GatewayState \<Rightarrow> Response \<Rightarrow> 'e GatewayState \<Rightarrow> bool" where
  "refused st resp st' \<longleftrightarrow> resp_status resp \<in> {401, 403, 429} \<and> st' = st\<lparr>gs_rate_limiter := gs_rate_limiter st'\<rparr>"

lemma refused_entity: "refused st resp st' \<Longrightarrow> gs_entity st' = gs_entity st \<and> gs_events st' = gs_events st"
  by (metis (no_types, lifting) GatewayState.select_convs(1,2) GatewayState.surjective GatewayState.update_convs(6) refused_def)

definition bearer_of :: "GatewayAuth \<Rightarrow> Request \<Rightarrow> GatewayCredential \<Rightarrow> bool" where
  "bearer_of auth req c \<longleftrightarrow> c \<in> set auth \<and> req_header req ''authorization'' = Some (''Bearer '' @ cred_token c)"

lemma operator_layers_cases:
  assumes "tokens_sized (gs_auth st)" "\<And>t. presented_token req = Some t \<Longrightarrow> length t < 2 ^ 64"
    and "operator_layers cx sc h req st = (resp, st')"
  shows "refused st resp st' \<or>
    (\<exists>c l. bearer_of (gs_auth st) req c \<and> allows (cred_scopes c) sc \<and>
       check_at (f64_rnd cx) (''principal:'' @ cred_principal c) (instant_now cx) (gs_rate_limiter st) = (Allowed, l) \<and>
       (resp, st') = h cx (req\<lparr>req_principal := Some \<lparr>principal_name = cred_principal c, principal_scopes = cred_scopes c\<rparr>\<rparr>)
         (st\<lparr>gs_rate_limiter := l\<rparr>))"
proof (cases "authenticate (gs_auth st) (presented_token req)")
  case None
  then show ?thesis using assms(3) by (auto simp: operator_layers_decision refused_def respond_def)
next
  case (Some who)
  then obtain t where t: "presented_token req = Some t" by (cases "presented_token req") (auto simp: authenticate_def)
  obtain c where c: "c \<in> set (gs_auth st)" "cred_token c = t"
      "who = \<lparr>principal_name = cred_principal c, principal_scopes = cred_scopes c\<rparr>"
    using authenticate_SomeD [OF assms(1) assms(2) [OF t], of who] Some t
    by (metis GatewayPrincipal.surjective unit.exhaust)
  then have b: "bearer_of (gs_auth st) req c" using t by (auto simp: bearer_of_def presented_token_Some)
  obtain d l where ch: "check_at (f64_rnd cx) (''principal:'' @ principal_name who) (instant_now cx) (gs_rate_limiter st) = (d, l)"
    by fastforce
  show ?thesis
  proof (cases "d = Allowed \<and> allows (principal_scopes who) sc")
    case True
    then show ?thesis using Some ch b c assms(3) by (auto simp: operator_layers_decision)
  next
    case False
    then have "refused st resp st'"
      using Some ch assms(3) by (cases d) (auto simp: operator_layers_decision refused_def respond_def split: if_splits)
    then show ?thesis ..
  qed
qed

text \<open>C2: An operator request acts only with authority. When the router has an operator handler for a
  request, then either the request is refused with 401, 403 or 429 and nothing but the request budget
  changes, or the bearer token presented is the token of a configured credential that holds the scope
  the route declares (or the admin scope), the budget of that credential's principal had a request
  left, and response and state are those of the route's handler.\<close>

theorem operator_request_authorised:
  assumes "find_route operator_routes req = Some (sc, h)" "router cx req st = Some (resp, st')"
    and "tokens_sized (gs_auth st)" "\<And>t. presented_token req = Some t \<Longrightarrow> length t < 2 ^ 64"
  shows "refused st resp st' \<or>
    (\<exists>c l. bearer_of (gs_auth st) req c \<and> allows (cred_scopes c) sc \<and>
       check_at (f64_rnd cx) (''principal:'' @ cred_principal c) (instant_now cx) (gs_rate_limiter st) = (Allowed, l) \<and>
       (resp, st') = h cx (req\<lparr>req_principal := Some \<lparr>principal_name = cred_principal c, principal_scopes = cred_scopes c\<rparr>\<rparr>)
         (st\<lparr>gs_rate_limiter := l\<rparr>))"
  using operator_layers_cases [OF assms(3,4)] assms(2) router_operator [OF assms(1)] by auto

text \<open>C17: A scope list is never exceeded. With the credentials read from the environment, let the token
  a request presents be configured only with scope lists (every entry of the token list for that token
  has the form \<open>principal:scope+scope=token\<close>, and it is not the single legacy token). Then a request to an
  operator route is refused, with nothing but the request budget changed, unless one of these lists names
  the scope the route declares or the admin scope: no scope implies another, and an empty or unknown
  name grants nothing. What a credential without a scope list is granted is left open.\<close>

theorem scope_list_not_exceeded:
  fixes cx :: "'e request_context" and h :: "'e handler"
  assumes "find_route operator_routes req = Some (sc, h)" "router cx req st = Some (resp, st')"
    and "gs_auth st = auth_from_env env" "tokens_sized (auth_from_env env)"
    and "\<And>t. presented_token req = Some t \<Longrightarrow> length t < 2 ^ 64"
    and "req_header req ''authorization'' = Some (''Bearer '' @ token)"
    and "env ''SOULSYSTEM_GATEWAY_TOKEN'' \<noteq> Some token"
    and "\<And>entries entry. env ''SOULSYSTEM_GATEWAY_TOKENS'' = Some entries \<Longrightarrow>
      entry \<in> set (split_char (CHR '','') entries) \<Longrightarrow> entry_for token entry \<Longrightarrow> entry_scoped entry"
    and "\<And>entries entry. env ''SOULSYSTEM_GATEWAY_TOKENS'' = Some entries \<Longrightarrow>
      entry \<in> set (split_char (CHR '','') entries) \<Longrightarrow> \<not> entry_names_scope token sc entry"
  shows "refused st resp st'"
proof (rule ccontr)
  assume "\<not> refused st resp st'"
  then obtain c where c: "bearer_of (gs_auth st) req c" "allows (cred_scopes c) sc"
    using operator_layers_cases [of st req cx sc h resp st'] assms(2-5) router_operator [OF assms(1), of cx st] by auto
  then have "cred_token c = token" "c \<in> set (auth_from_env env)" using assms(3,6) by (auto simp: bearer_of_def)
  then show False using scoped_grant [of c env sc] c(2) assms(7-9) by blast
qed

text \<open>What the code grants by default, contrary to the documentation of the scopes: nothing beyond reading.
  A request to an operator route that needs the write or the exec scope is refused unless the token
  presented is configured with a scope list that names that scope or admin, or is the single legacy
  token while the migration variable is set.\<close>

theorem acting_scope_is_explicit:
  fixes cx :: "'e request_context" and h :: "'e handler"
  assumes "find_route operator_routes req = Some (sc, h)" "sc \<noteq> Read" "router cx req st = Some (resp, st')"
    and "gs_auth st = auth_from_env env" "tokens_sized (auth_from_env env)"
    and "\<And>t. presented_token req = Some t \<Longrightarrow> length t < 2 ^ 64" "\<not> refused st resp st'"
  shows "\<exists>token. req_header req ''authorization'' = Some (''Bearer '' @ token) \<and>
    ((\<exists>entries. env ''SOULSYSTEM_GATEWAY_TOKENS'' = Some entries \<and>
        (\<exists>entry \<in> set (split_char (CHR '','') entries). entry_names_scope token sc entry)) \<or>
     legacy_grant env token)"
proof -
  obtain c where "bearer_of (gs_auth st) req c" "allows (cred_scopes c) sc"
    using operator_layers_cases [of st req cx sc h resp st'] assms router_operator [OF assms(1), of cx st] by auto
  then show ?thesis using env_grant [of c env sc] assms(2,4) by (auto simp: bearer_of_def)
qed

section \<open>Webhook requests\<close>

definition acted :: "'e GatewayState \<Rightarrow> 'e GatewayState \<Rightarrow> bool" where
  "acted st st' \<longleftrightarrow> gs_entity st' \<noteq> gs_entity st \<or> gs_events st' \<noteq> gs_events st"

text \<open>No unexpired entry of the cache has this signature.\<close>

definition not_recent :: "ReplayCache \<Rightarrow> int \<Rightarrow> u8 list \<Rightarrow> bool" where
  "not_recent seen now signature \<longleftrightarrow> (\<forall>t. map_of seen signature = Some t \<longrightarrow> MAX_SKEW_ns \<le> now - t)"

lemma webhook_endpoint_acted:
  assumes "webhook_endpoint provider var verify from_slice handle cx req st = (resp, st')" "acted st st'"
  shows "\<exists>secret signature. env_var cx var = Some secret \<and> secret \<noteq> [] \<and> verify secret = Inr signature \<and>
    not_recent (gs_webhook_replay st) (replay_now cx) signature"
proof -
  from assms obtain secret where s: "env_var cx var = Some secret" "secret \<noteq> []"
    by (auto simp: webhook_endpoint_def acted_def split: option.splits if_splits)
  with assms obtain signature where v: "verify secret = Inr signature"
    by (cases "verify secret") (auto simp: webhook_endpoint_def acted_def)
  obtain ok seen where ch: "check_and_insert signature (replay_now cx) (gs_webhook_replay st) = (ok, seen)" by fastforce
  then have ok using assms s v by (cases ok) (auto simp: webhook_endpoint_def check_replay_def acted_def)
  then have "not_recent (gs_webhook_replay st) (replay_now cx) signature"
    using rg.fresh_refused [OF _ _ ch] by (auto simp: not_recent_def not_le [symmetric])
  then show ?thesis using s v by blast
qed

lemma webhook_route:
  assumes "req_path req = [''providers'', provider, ''webhook'']" "router cx req st = Some (resp, st')"
  shows "(provider = ''discord'' \<and> (resp, st') = handle_discord_webhook cx req st) \<or>
    (provider = ''slack'' \<and> (resp, st') = handle_slack_webhook cx req st) \<or>
    (provider = ''whatsapp'' \<and> (resp, st') = handle_whatsapp_webhook cx req st)"
  using assms(2) unfolding router_webhook [OF assms(1)]
  by (auto simp: find_route_def webhook_routes_def assms(1) split: if_splits)

lemma header_str_Inr: "header_str req name = Inr v \<longleftrightarrow> req_header req name = Some v"
  by (auto simp: header_str_def split: option.splits)

definition slack_authentic :: "'e request_context \<Rightarrow> Request \<Rightarrow> u8 list \<Rightarrow> bool" where
  "slack_authentic cx req signature \<longleftrightarrow>
     (\<exists>secret ts hex signed_at.
        env_var cx ''SLACK_SIGNING_SECRET'' = Some secret \<and> secret \<noteq> [] \<and>
        req_header req ''x-slack-request-timestamp'' = Some ts \<and> parse_i64 ts = Some signed_at \<and>
        req_header req ''x-slack-signature'' = Some (''v0='' @ hex) \<and> decode_hex hex = Some signature \<and>
        signature = hmac_sha256 cx (as_bytes secret) (as_bytes ''v0:'' @ as_bytes ts @ as_bytes '':'' @ req_body req) \<and>
        \<bar>verify_now cx div 10 ^ 9 - signed_at\<bar> \<le> 300)"

definition discord_authentic :: "'e request_context \<Rightarrow> Request \<Rightarrow> u8 list \<Rightarrow> bool" where
  "discord_authentic cx req signature \<longleftrightarrow>
     (\<exists>public_key key_bytes ts sig signed_at.
        env_var cx ''DISCORD_PUBLIC_KEY'' = Some public_key \<and> decode_hex public_key = Some key_bytes \<and>
        length key_bytes = 32 \<and> ed25519_key_ok cx key_bytes \<and>
        req_header req ''x-signature-timestamp'' = Some ts \<and> parse_i64 ts = Some signed_at \<and>
        req_header req ''x-signature-ed25519'' = Some sig \<and> decode_hex sig = Some signature \<and> length signature = 64 \<and>
        ed25519_verify cx key_bytes (as_bytes ts @ req_body req) signature \<and>
        \<bar>verify_now cx div 10 ^ 9 - signed_at\<bar> \<le> 300)"

definition whatsapp_authentic :: "'e request_context \<Rightarrow> Request \<Rightarrow> u8 list \<Rightarrow> bool" where
  "whatsapp_authentic cx req signature \<longleftrightarrow>
     (\<exists>secret hex.
        env_var cx ''WHATSAPP_WEBHOOK_SECRET'' = Some secret \<and> secret \<noteq> [] \<and>
        req_header req ''x-hub-signature-256'' = Some (''sha256='' @ hex) \<and> decode_hex hex = Some signature \<and>
        signature = hmac_sha256 cx (as_bytes secret) (req_body req))"

text \<open>The clock is after the epoch and before the year \<open>2^62\<close> seconds; the comparison is equality.\<close>

definition sane_context :: "'e request_context \<Rightarrow> bool" where
  "sane_context cx \<longleftrightarrow> 0 \<le> verify_now cx \<and> verify_now cx div 10 ^ 9 < 2 ^ 62 \<and> (\<forall>a b. subtle_ct_eq cx a b = (a = b))"

lemma slack_acted:
  assumes "sane_context cx" "(resp, st') = handle_slack_webhook cx req st" "acted st st'"
  shows "\<exists>signature. slack_authentic cx req signature \<and> not_recent (gs_webhook_replay st) (replay_now cx) signature"
proof -
  obtain secret signature where e: "env_var cx ''SLACK_SIGNING_SECRET'' = Some secret" "secret \<noteq> []"
      "slack_verification cx req secret = Inr signature" "not_recent (gs_webhook_replay st) (replay_now cx) signature"
    using webhook_endpoint_acted [OF assms(2) [unfolded handle_slack_webhook_def, symmetric] assms(3)] by blast
  from e(3) obtain ts sig where h: "req_header req ''x-slack-request-timestamp'' = Some ts"
      "req_header req ''x-slack-signature'' = Some sig"
      "verify_slack (hmac_sha256 cx) (subtle_ct_eq cx) secret ts sig (req_body req) (verify_now cx) = Inr signature"
    by (auto simp: slack_verification_def bind_res_Inr_iff header_str_Inr)
  from verify_slack_InrD [OF h(3)] fresh_iff parse_i64_range [of ts] e h assms(1)
  show ?thesis unfolding slack_authentic_def sane_context_def by metis
qed

lemma discord_acted:
  assumes "sane_context cx" "(resp, st') = handle_discord_webhook cx req st" "acted st st'"
  shows "\<exists>signature. discord_authentic cx req signature \<and> not_recent (gs_webhook_replay st) (replay_now cx) signature"
proof -
  obtain key signature where e: "env_var cx ''DISCORD_PUBLIC_KEY'' = Some key"
      "discord_verification cx req key = Inr signature" "not_recent (gs_webhook_replay st) (replay_now cx) signature"
    using webhook_endpoint_acted [OF assms(2) [unfolded handle_discord_webhook_def, symmetric] assms(3)] by blast
  from e(2) obtain ts sig where h: "req_header req ''x-signature-timestamp'' = Some ts"
      "req_header req ''x-signature-ed25519'' = Some sig"
      "verify_discord (ed25519_key_ok cx) (ed25519_verify cx) key ts sig (req_body req) (verify_now cx) = Inr signature"
    by (auto simp: discord_verification_def bind_res_Inr_iff header_str_Inr)
  from verify_discord_InrD [OF h(3)] fresh_iff parse_i64_range [of ts] e h assms(1)
  show ?thesis unfolding discord_authentic_def sane_context_def by metis
qed

lemma whatsapp_acted:
  assumes "sane_context cx" "(resp, st') = handle_whatsapp_webhook cx req st" "acted st st'"
  shows "\<exists>signature. whatsapp_authentic cx req signature \<and> not_recent (gs_webhook_replay st) (replay_now cx) signature"
proof -
  obtain secret signature where e: "env_var cx ''WHATSAPP_WEBHOOK_SECRET'' = Some secret" "secret \<noteq> []"
      "whatsapp_verification cx req secret = Inr signature" "not_recent (gs_webhook_replay st) (replay_now cx) signature"
    using webhook_endpoint_acted [OF assms(2) [unfolded handle_whatsapp_webhook_def, symmetric] assms(3)] by blast
  from e(3) obtain sig where h: "req_header req ''x-hub-signature-256'' = Some sig"
      "verify_meta (hmac_sha256 cx) (subtle_ct_eq cx) secret sig (req_body req) = Inr signature"
    by (auto simp: whatsapp_verification_def bind_res_Inr_iff header_str_Inr)
  from verify_meta_InrD [OF h(2)] e h assms(1)
  show ?thesis unfolding whatsapp_authentic_def sane_context_def by metis
qed

text \<open>C9: A webhook acts only when it is authentic, fresh and new. When a request to a provider's
  webhook path changes the entity or publishes an event, then that provider's secret is configured,
  the signature header carries the HMAC of the raw body (Slack: of version, timestamp and body;
  WhatsApp: of the body) or an Ed25519 signature of timestamp and body (Discord) under it, the signed
  timestamp of Slack and Discord is within 300 seconds of the clock, and no signature equal to it was
  recorded less than five minutes ago.\<close>

theorem webhook_acts_only_when_verified:
  assumes "req_path req = [''providers'', provider, ''webhook'']" "router cx req st = Some (resp, st')"
    and "sane_context cx" "acted st st'"
  shows "\<exists>signature. not_recent (gs_webhook_replay st) (replay_now cx) signature \<and>
    (provider = ''slack'' \<and> slack_authentic cx req signature \<or>
     provider = ''discord'' \<and> discord_authentic cx req signature \<or>
     provider = ''whatsapp'' \<and> whatsapp_authentic cx req signature)"
proof -
  note route = webhook_route [OF assms(1,2)]
  note ok = slack_acted [OF assms(3) _ assms(4)] discord_acted [OF assms(3) _ assms(4)]
    whatsapp_acted [OF assms(3) _ assms(4)]
  from route show ?thesis
    by (elim disjE conjE) (drule ok(2), blast, drule ok(1), blast, drule ok(3), blast)
qed

section \<open>An example deployment\<close>

text \<open>An entity that counts how often it is asked or made to run something, and libraries with constant
  answers.\<close>

definition counting_entity :: "nat EntityHandle" where
  "counting_entity =
     \<lparr>eh_ask = (\<lambda>p n. (Inr p, n + 1)), eh_status = (\<lambda>n. (JNull, n)), eh_create_goal = (\<lambda>d n. (Inr d, n + 1)),
      eh_plan = (\<lambda>g n. (Inr [], n + 1)), eh_execute_plan = (\<lambda>g n. (Inr g, n + 1)),
      eh_execute_shell = (\<lambda>c n. (Inr c, n + 1)), eh_run_cycle = (\<lambda>n. (Inr JNull, n + 1)),
      eh_list_goals = (\<lambda>n. ([], n)),
      eh_replay_events = (\<lambda>k n. ([], n)), eh_alert = (\<lambda>l m n. (Inr (), n)),
      eh_spawn_subagent = (\<lambda>d n. (Inr d, n + 1)), eh_list_subagents = (\<lambda>n. ([], n))\<rparr>"

definition slack_message :: SlackWebhookBody where
  "slack_message =
     \<lparr>slack_event_type = None,
      slack_event = Some \<lparr>slack_kind = None, slack_channel = Some ''C1'', slack_user = None, slack_text = Some ''hi'',
        slack_ts = None, slack_bot_id = None, slack_subtype = None\<rparr>,
      slack_challenge = None\<rparr>"

definition example_env :: environment where
  "example_env = (\<lambda>v. if v = ''SOULSYSTEM_GATEWAY_TOKENS'' then Some ''ci:exec=t1''
     else if v = ''SLACK_SIGNING_SECRET'' then Some ''s'' else None)"

definition example_context :: "nat request_context" where
  "example_context =
     \<lparr>entity_api = counting_entity, extract_field = (\<lambda>_ _. Inr ''ls''), ws_upgrade = (\<lambda>_. Inr ()),
      discord_json = (\<lambda>_. None), slack_json = (\<lambda>_. Some slack_message), whatsapp_json = (\<lambda>_. None),
      hmac_sha256 = (\<lambda>_ _. [42]), subtle_ct_eq = (=), ed25519_key_ok = (\<lambda>_. True), ed25519_verify = (\<lambda>_ _ _. False),
      env_var = example_env, f64_rnd = (\<lambda>x. x), events_json = (\<lambda>_. JNull), instant_now = 0,
      verify_now = 1000 * 10 ^ 9, replay_now = 1000 * 10 ^ 9, utc_now = (\<lambda>_. 0), new_uuid = ''u''\<rparr>"

definition shell_request :: Request where
  "shell_request = \<lparr>req_method = POST, req_path = [''v1'', ''run''],
     req_header = [''authorization'' \<mapsto> ''Bearer t1''], req_body = [], req_principal = None\<rparr>"

definition slack_request :: Request where
  "slack_request = \<lparr>req_method = POST, req_path = [''providers'', ''slack'', ''webhook''],
     req_header = [''x-slack-request-timestamp'' \<mapsto> ''1000'', ''x-slack-signature'' \<mapsto> ''v0=2a''],
     req_body = [], req_principal = None\<rparr>"

definition example_state :: "nat GatewayState" where
  "example_state = state_with_auth 0 (auth_from_env example_env)"

lemma example_auth:
  "auth_from_env example_env = [\<lparr>cred_principal = ''ci'', cred_token = ''t1'', cred_scopes = \<lparr>scopes = [Exec]\<rparr>\<rparr>]"
  by code_simp

lemma example_sized: "tokens_sized (auth_from_env example_env)"
  unfolding example_auth by (simp add: tokens_sized_def)

lemma shell_route: "find_route operator_routes shell_request = Some (Exec, handle_shell)"
  by (simp add: find_route_def operator_routes_def scoped_def read_routes_def write_routes_def exec_routes_def shell_request_def)

lemma shell_token: "presented_token shell_request = Some ''t1''"
  by (simp add: presented_token_def shell_request_def strip_prefix_def)

lemma shell_check:
  "check_at (\<lambda>x. x) ''principal:ci'' 0 (rate_limiter_new DEFAULT_RATE_PER_SECOND DEFAULT_RATE_BURST) =
     (Allowed, \<lparr>buckets = [(''principal:ci'', \<lparr>bucket_tokens = 39, bucket_last = 0\<rparr>)], per_second = 20, burst = 40\<rparr>)"
  by (simp add: check_at_def rate_limiter_new_def refill_def as_secs_f64_def DEFAULT_RATE_PER_SECOND_def DEFAULT_RATE_BURST_def Let_def)

lemma shell_runs:
  "\<exists>resp st'. router example_context shell_request example_state = Some (resp, st') \<and>
     \<not> refused example_state resp st' \<and> gs_entity st' = 1"
proof -
  have a: "authenticate (auth_from_env example_env) (Some ''t1'') =
      Some \<lparr>principal_name = ''ci'', principal_scopes = \<lparr>scopes = [Exec]\<rparr>\<rparr>"
    by code_simp
  have t: "trim ''ls'' = ''ls''" by code_simp
  show ?thesis
    unfolding router_operator [OF shell_route] operator_layers_decision shell_token
    by (simp add: example_state_def state_with_auth_def a example_context_def shell_check allows_def handle_shell_def t
        on_entity_def counting_entity_def refused_def respond_def)
qed

theorem operator_request_authorised_witness:
  "\<exists>resp st' c l. router example_context shell_request example_state = Some (resp, st') \<and> gs_entity st' = 1 \<and>
     bearer_of (gs_auth example_state) shell_request c \<and> allows (cred_scopes c) Exec \<and>
     check_at (f64_rnd example_context) (''principal:'' @ cred_principal c) (instant_now example_context)
       (gs_rate_limiter example_state) = (Allowed, l)"
proof -
  have s: "tokens_sized (gs_auth example_state)" by (simp add: example_state_def state_with_auth_def example_sized)
  have t: "length t < 2 ^ 64" if "presented_token shell_request = Some t" for t using that by (auto simp: shell_token)
  from shell_runs show ?thesis
    using operator_request_authorised [OF shell_route _ s t, of example_context] by metis
qed

text \<open>The same request by a token that may only read and write.\<close>

definition scoped_env :: environment where
  "scoped_env = [''SOULSYSTEM_GATEWAY_TOKENS'' \<mapsto> ''ci:read+write=t1'']"

theorem scope_list_not_exceeded_witness:
  "\<exists>resp st'. router example_context shell_request (state_with_auth (0 :: nat) (auth_from_env scoped_env)) = Some (resp, st')
     \<and> refused (state_with_auth 0 (auth_from_env scoped_env)) resp st'"
proof -
  let ?st = "state_with_auth (0 :: nat) (auth_from_env scoped_env)"
  obtain resp st' where r: "router example_context shell_request ?st = Some (resp, st')"
    unfolding router_operator [OF shell_route] by fastforce
  have "auth_from_env scoped_env = [\<lparr>cred_principal = ''ci'', cred_token = ''t1'', cred_scopes = \<lparr>scopes = [Read, Write]\<rparr>\<rparr>]"
    by code_simp
  then have z: "tokens_sized (auth_from_env scoped_env)" by (simp add: tokens_sized_def)
  have x: "entry_scoped ''ci:read+write=t1''" "\<not> entry_names_scope ''t1'' Exec ''ci:read+write=t1''"
  proof -
    have e: "split_once (CHR ''='') ''ci:read+write=t1'' = Some (''ci:read+write'', ''t1'')"
      "trim ''ci:read+write'' = ''ci:read+write''"
      "split_once (CHR '':'') ''ci:read+write'' = Some (''ci'', ''read+write'')"
      "split_char (CHR ''+'') ''read+write'' = [''read'', ''write'']"
      "scope_parse (trim ''read'') = Some Read" "scope_parse (trim ''write'') = Some Write" by code_simp+
    then show "entry_scoped ''ci:read+write=t1''" "\<not> entry_names_scope ''t1'' Exec ''ci:read+write=t1''"
      by (auto simp: entry_scoped_def entry_names_scope_def)
  qed
  have env: "scoped_env ''SOULSYSTEM_GATEWAY_TOKENS'' = Some ''ci:read+write=t1''" "scoped_env ''SOULSYSTEM_GATEWAY_TOKEN'' = None"
    by (simp_all add: scoped_env_def)
  have s: "split_char (CHR '','') ''ci:read+write=t1'' = [''ci:read+write=t1'']" by code_simp
  have "refused ?st resp st'"
  proof (rule scope_list_not_exceeded [OF shell_route r _ z])
    show "req_header shell_request ''authorization'' = Some (''Bearer '' @ ''t1'')" by (simp add: shell_request_def)
  qed (use x in \<open>auto simp: state_with_auth_def shell_token env s\<close>)
  with r show ?thesis by blast
qed

theorem acting_scope_is_explicit_witness:
  "\<exists>token. req_header shell_request ''authorization'' = Some (''Bearer '' @ token) \<and>
    ((\<exists>entries. example_env ''SOULSYSTEM_GATEWAY_TOKENS'' = Some entries \<and>
        (\<exists>entry \<in> set (split_char (CHR '','') entries). entry_names_scope token Exec entry)) \<or>
     legacy_grant example_env token)"
proof -
  obtain resp st' where r: "router example_context shell_request example_state = Some (resp, st')"
      "\<not> refused example_state resp st'"
    using shell_runs by blast
  show ?thesis
    by (rule acting_scope_is_explicit [OF shell_route _ r(1) _ example_sized _ r(2)])
      (auto simp: example_state_def state_with_auth_def shell_token)
qed

lemma slack_request_acts:
  "\<exists>resp st'. router example_context slack_request example_state = Some (resp, st') \<and> acted example_state st'"
proof -
  have p: "parse_i64 ''1000'' = Some 1000" "decode_hex ''2a'' = Some [42]" by code_simp+
  have v: "slack_verification example_context slack_request ''s'' = Inr [42]"
    using p fresh_iff [of "1000 * 10 ^ 9" 1000]
    by (simp add: slack_verification_def header_str_def slack_request_def verify_slack_def strip_prefix_def example_context_def)
  have e: "event_text slack_message = Some (''C1'', ''hi'')" by (simp add: event_text_def slack_message_def)
  have c: "env_var example_context ''SLACK_SIGNING_SECRET'' = Some ''s''" "slack_json example_context b = Some slack_message"
      "entity_api example_context = counting_entity" "slack_challenge slack_message = None"
      "gs_webhook_replay example_state = []" "gs_entity example_state = 0" for b
    by (simp_all add: example_context_def example_env_def slack_message_def example_state_def state_with_auth_def
        replay_cache_new_def)
  have "router example_context slack_request example_state = Some (handle_slack_webhook example_context slack_request example_state)"
    using router_webhook [of slack_request "[''slack'', ''webhook'']" example_context example_state]
    by (simp add: slack_request_def find_route_def webhook_routes_def)
  moreover have "gs_entity (snd (handle_slack_webhook example_context slack_request example_state)) = 1"
    unfolding handle_slack_webhook_def webhook_endpoint_def
    by (simp add: v c check_replay_def check_and_insert_def parse_verified_body_def slack_handle_webhook_def e
        webhook_ask_def on_entity_def counting_entity_def publish_event_def Let_def split_beta)
  ultimately show ?thesis by (auto simp: acted_def prod_eq_iff c)
qed

theorem webhook_acts_only_when_verified_witness:
  "\<exists>signature. not_recent (gs_webhook_replay example_state) (replay_now example_context) signature \<and>
    (''slack'' = ''slack'' \<and> slack_authentic example_context slack_request signature \<or>
     ''slack'' = ''discord'' \<and> discord_authentic example_context slack_request signature \<or>
     ''slack'' = ''whatsapp'' \<and> whatsapp_authentic example_context slack_request signature)"
proof -
  obtain resp st' where r: "router example_context slack_request example_state = Some (resp, st')" "acted example_state st'"
    using slack_request_acts by blast
  have "req_path slack_request = [''providers'', ''slack'', ''webhook'']" "sane_context example_context"
    by (simp_all add: slack_request_def sane_context_def example_context_def)
  from webhook_acts_only_when_verified [OF this(1) r(1) this(2) r(2)] show ?thesis .
qed

section \<open>The stream stalls\<close>

lemma send_all_room: "length evs \<le> room \<Longrightarrow> send_all evs room = (evs, Some (room - length evs))"
proof (induction evs arbitrary: room)
  case (Cons ev evs)
  then show ?case by (cases room) auto
qed simp

lemma stalled_stream: "100 \<le> last_idx \<Longrightarrow> length ticks \<le> room \<Longrightarrow> ws_loop ticks last_idx room = map (Heartbeat \<circ> snd) ticks"
proof (induction ticks arbitrary: room)
  case (Cons tick ticks)
  obtain hub now where t: "tick = (hub, now)" by fastforce
  have "\<not> last_idx < length (hub_recent 100 hub)" using hub_recent_length [of 100 hub] Cons.prems(1) by simp
  then show ?case using Cons t by (cases room) (auto simp: send_all_room)
qed simp

text \<open>The event stream of a client goes silent. It sends the part of the 100 most recent events
  beyond the count already seen, and the count never goes down; so from the first tick at which the hub
  holds 100 events or more, what the client gets is the rest of that batch and after it only heartbeats,
  whatever is published later (on a socket that accepts every message).\<close>

theorem event_stream_stalls:
  assumes "100 \<le> hub_len hub" "last_idx \<le> 100" "100 + length ticks < room"
  shows "\<exists>batch. ws_loop ((hub, now) # ticks) last_idx room = batch @ map (Heartbeat \<circ> snd) ticks \<and>
    (batch = [Heartbeat now] \<or> batch = drop last_idx (hub_recent 100 hub))"
proof -
  have l: "length (hub_recent 100 hub) = 100" using assms(1) hub_recent_length [of 100 hub] by simp
  show ?thesis
  proof (cases "last_idx < 100")
    case True
    then show ?thesis using assms l by (simp add: send_all_room stalled_stream)
  next
    case False
    then show ?thesis using assms l by (cases room) (auto simp: stalled_stream)
  qed
qed

theorem event_stream_stalls_witness:
  "\<exists>batch. ws_loop ((\<lparr>hub_events = replicate 100 (Heartbeat 1), hub_capacity = 500\<rparr>, 5) #
       [(\<lparr>hub_events = replicate 100 (Heartbeat 1) @ [Error ''late'' 2], hub_capacity = 500\<rparr>, 6)]) 0 200 =
     batch @ map (Heartbeat \<circ> snd) [(\<lparr>hub_events = replicate 100 (Heartbeat 1) @ [Error ''late'' 2], hub_capacity = 500\<rparr>, 6)] \<and>
   (batch = [Heartbeat 5] \<or> batch = drop 0 (hub_recent 100 \<lparr>hub_events = replicate 100 (Heartbeat 1), hub_capacity = 500\<rparr>))"
  by (rule event_stream_stalls) (simp_all add: hub_len_def)

end
