(* ===== verification/Cron.thy ===== *)
theory Cron
  imports Prelude "HOL-Library.AList"
begin

text \<open>
  The cron scheduler of the entity (\<open>soul_entity/src/cron.rs\<close>): parsing of five-field expressions, matching
  them against a time, and the scheduler that triggers the due tasks once per minute.

  A time is the record of what \<open>chrono\<close> answers about it: the calendar fields, the day of the week counted
  from Sunday, and its instant in seconds. \<open>step_by(0)\<close> panics.
\<close>

section \<open>Fields\<close>

datatype CronError = InvalidField string string | WrongFieldCount nat string

datatype Field = Any | Values "nat list"

text \<open>The numbers of an inclusive range in steps.\<close>

definition step_range :: "nat \<Rightarrow> nat \<Rightarrow> nat \<Rightarrow> nat list" where
  "step_range lo hi step = map (\<lambda>i. lo + i * step) [0..<(if lo \<le> hi then (hi - lo) div step + 1 else 0)]"

definition parse_range :: "string \<Rightarrow> string \<Rightarrow> string + nat \<times> nat" where
  "parse_range lo_str hi_str = (case parse_u32 lo_str of
     None \<Rightarrow> Inl (''invalid range start: '' @ lo_str)
   | Some lo \<Rightarrow> (case parse_u32 hi_str of
       None \<Rightarrow> Inl (''invalid range end: '' @ hi_str)
     | Some hi \<Rightarrow> Inr (lo, hi)))"

definition within :: "nat \<Rightarrow> nat \<Rightarrow> nat list \<Rightarrow> nat list" where
  "within mn mx vs = filter (\<lambda>v. mn \<le> v \<and> v \<le> mx) vs"

definition parse_step :: "nat \<Rightarrow> nat \<Rightarrow> string \<Rightarrow> string \<Rightarrow> (string + nat list) run" where
  "parse_step mn mx range_str step_str = (case parse_u32 step_str of
     None \<Rightarrow> Returned (Inl (''invalid step: '' @ step_str))
   | Some step \<Rightarrow>
       (case (if range_str = ''*'' then Inr (mn, mx)
              else case split_once (CHR ''-'') range_str of
                Some (lo_str, hi_str) \<Rightarrow> parse_range lo_str hi_str
              | None \<Rightarrow> Inl (''invalid step range: '' @ range_str)) of
          Inl e \<Rightarrow> Returned (Inl e)
        | Inr (lo, hi) \<Rightarrow> if step = 0 then Panicked else Returned (Inr (within mn mx (step_range lo hi step)))))"

definition parse_part :: "nat \<Rightarrow> nat \<Rightarrow> string \<Rightarrow> (string + nat list) run" where
  "parse_part mn mx raw =
     (let part = trim raw
      in case split_once (CHR ''/'') part of
           Some (range_str, step_str) \<Rightarrow> parse_step mn mx range_str step_str
         | None \<Rightarrow> Returned (case split_once (CHR ''-'') part of
             Some (lo_str, hi_str) \<Rightarrow> bind_res (parse_range lo_str hi_str) (\<lambda>(lo, hi). Inr (within mn mx [lo..<Suc hi]))
           | None \<Rightarrow> (case parse_u32 part of
               None \<Rightarrow> Inl (''invalid value: '' @ part)
             | Some v \<Rightarrow> if v < mn \<or> v > mx
                 then Inl (''value '' @ show_nat v @ '' out of range ['' @ show_nat mn @ '', '' @ show_nat mx @ '']'')
                 else Inr [v])))"

fun parse_parts :: "nat \<Rightarrow> nat \<Rightarrow> string list \<Rightarrow> (string + nat list) run" where
  "parse_parts mn mx [] = Returned (Inr [])"
| "parse_parts mn mx (p # ps) = bind_run (parse_part mn mx p) (\<lambda>r. case r of
     Inl e \<Rightarrow> Returned (Inl e)
   | Inr vs \<Rightarrow> bind_run (parse_parts mn mx ps) (\<lambda>r. Returned (bind_res r (\<lambda>ws. Inr (vs @ ws)))))"

definition parse_field :: "string \<Rightarrow> nat \<Rightarrow> nat \<Rightarrow> (string + Field) run" where
  "parse_field raw mn mx =
     (if trim raw = ''*'' then Returned (Inr Any)
      else bind_run (parse_parts mn mx (split_char (CHR '','') (trim raw)))
        (\<lambda>r. Returned (bind_res r (\<lambda>vs. Inr (Values (remdups_adj (sort vs)))))))"

fun field_matches :: "Field \<Rightarrow> nat \<Rightarrow> bool" where
  "field_matches Any v = True"
| "field_matches (Values vs) v = (v \<in> set vs)"

section \<open>Expressions\<close>

record CronExpr =
  cr_minute :: Field
  cr_hour :: Field
  cr_dom :: Field
  cr_month :: Field
  cr_dow :: Field

definition named :: "string \<Rightarrow> (string + Field) run \<Rightarrow> (CronError + Field) run" where
  "named name r = bind_run r (\<lambda>r. Returned (case r of Inl e \<Rightarrow> Inl (InvalidField name e) | Inr f \<Rightarrow> Inr f))"

definition then_field :: "(CronError + 'a) run \<Rightarrow> ('a \<Rightarrow> (CronError + 'b) run) \<Rightarrow> (CronError + 'b) run" where
  "then_field r f = bind_run r (\<lambda>r. case r of Inl e \<Rightarrow> Returned (Inl e) | Inr x \<Rightarrow> f x)"

definition cron_parse :: "string \<Rightarrow> (CronError + CronExpr) run" where
  "cron_parse expr =
     (let parts = split_whitespace expr
      in if length parts \<noteq> 5 then Returned (Inl (WrongFieldCount (length parts) expr))
         else then_field (named ''minute'' (parse_field (parts ! 0) 0 59)) (\<lambda>mi.
              then_field (named ''hour'' (parse_field (parts ! 1) 0 23)) (\<lambda>ho.
              then_field (named ''dom'' (parse_field (parts ! 2) 1 31)) (\<lambda>dm.
              then_field (named ''month'' (parse_field (parts ! 3) 1 12)) (\<lambda>mo.
              then_field (named ''dow'' (parse_field (parts ! 4) 0 7)) (\<lambda>dw.
                Returned (Inr \<lparr>cr_minute = mi, cr_hour = ho, cr_dom = dm, cr_month = mo, cr_dow = dw\<rparr>)))))))"

record date_time =
  dt_year :: int
  dt_month :: nat
  dt_day :: nat
  dt_hour :: nat
  dt_minute :: nat
  days_from_sunday :: nat
  dt_instant :: int

definition cron_matches :: "CronExpr \<Rightarrow> date_time \<Rightarrow> bool" where
  "cron_matches e dt =
     (let weekday_num = days_from_sunday dt; dow_val = (if weekday_num = 0 then 0 else weekday_num)
      in field_matches (cr_minute e) (dt_minute dt) \<and> field_matches (cr_hour e) (dt_hour dt)
         \<and> field_matches (cr_dom e) (dt_day dt) \<and> field_matches (cr_month e) (dt_month dt)
         \<and> (field_matches (cr_dow e) dow_val \<or> dow_val = 7 \<and> field_matches (cr_dow e) 0))"

section \<open>Scheduler\<close>

record CronTask =
  task_name :: string
  task_expr :: string
  parsed :: CronExpr
  task_goal :: string
  task_priority :: u8

definition cron_task_new :: "string \<Rightarrow> string \<Rightarrow> string \<Rightarrow> u8 \<Rightarrow> (CronError + CronTask) run" where
  "cron_task_new name expr goal_desc prio = then_field (cron_parse expr) (\<lambda>p.
     Returned (Inr \<lparr>task_name = name, task_expr = expr, parsed = p, task_goal = goal_desc, task_priority = prio\<rparr>))"

definition should_trigger :: "CronTask \<Rightarrow> date_time \<Rightarrow> bool" where
  "should_trigger t now = cron_matches (parsed t) now"

record CronScheduler =
  cron_tasks :: "CronTask list"
  last_trigger :: "(string \<times> date_time) list"

definition cron_new :: CronScheduler where
  "cron_new = \<lparr>cron_tasks = [], last_trigger = []\<rparr>"

definition cron_register :: "CronTask \<Rightarrow> CronScheduler \<Rightarrow> CronScheduler" where
  "cron_register t s = s\<lparr>cron_tasks := cron_tasks s @ [t]\<rparr>"

definition show_int :: "int \<Rightarrow> string" where
  "show_int i = (if i < 0 then ''-'' else []) @ show_nat (nat \<bar>i\<bar>)"

definition two_digits :: "nat \<Rightarrow> string" where
  "two_digits n = (if n < 10 then ''0'' else []) @ show_nat n"

definition minute_key :: "date_time \<Rightarrow> string" where
  "minute_key now = show_int (dt_year now) @ ''-'' @ two_digits (dt_month now) @ ''-'' @ two_digits (dt_day now)
     @ ''T'' @ two_digits (dt_hour now) @ '':'' @ two_digits (dt_minute now)"

text \<open>\<open>num_minutes\<close> of a signed duration rounds towards zero.\<close>

definition minutes_between :: "date_time \<Rightarrow> date_time \<Rightarrow> int" where
  "minutes_between now v = (let d = dt_instant now - dt_instant v in if d < 0 then - ((- d) div 60) else d div 60)"

definition prune :: "date_time \<Rightarrow> (string \<times> date_time) list \<Rightarrow> (string \<times> date_time) list" where
  "prune now m = (if length m > 1440 then filter (\<lambda>(key, v). minutes_between now v < 120) m else m)"

definition cron_tick :: "date_time \<Rightarrow> CronScheduler \<Rightarrow> CronTask list \<times> CronScheduler" where
  "cron_tick now s =
     (if map_of (last_trigger s) (minute_key now) \<noteq> None then ([], s)
      else (filter (\<lambda>t. should_trigger t now) (cron_tasks s),
            s\<lparr>last_trigger := prune now (AList.update (minute_key now) now (last_trigger s))\<rparr>))"

definition task_count :: "CronScheduler \<Rightarrow> nat" where
  "task_count s = length (cron_tasks s)"

section \<open>What a parsed field means\<close>

text \<open>The items of a field as the grammar has them, how they are written and which numbers they stand for.\<close>

datatype cron_item = Single nat | Range nat nat | Stepped nat nat nat | Every nat

fun item_text :: "cron_item \<Rightarrow> string" where
  "item_text (Single v) = show_nat v"
| "item_text (Range lo hi) = show_nat lo @ ''-'' @ show_nat hi"
| "item_text (Stepped lo hi s) = show_nat lo @ ''-'' @ show_nat hi @ ''/'' @ show_nat s"
| "item_text (Every s) = ''*/'' @ show_nat s"

fun item_ok :: "nat \<Rightarrow> nat \<Rightarrow> cron_item \<Rightarrow> bool" where
  "item_ok mn mx (Single v) = (mn \<le> v \<and> v \<le> mx)"
| "item_ok mn mx (Range lo hi) = (lo < 2 ^ 32 \<and> hi < 2 ^ 32)"
| "item_ok mn mx (Stepped lo hi s) = (lo < 2 ^ 32 \<and> hi < 2 ^ 32 \<and> 0 < s \<and> s < 2 ^ 32)"
| "item_ok mn mx (Every s) = (0 < s \<and> s < 2 ^ 32)"

fun item_means :: "nat \<Rightarrow> nat \<Rightarrow> cron_item \<Rightarrow> nat \<Rightarrow> bool" where
  "item_means mn mx (Single x) v = (v = x)"
| "item_means mn mx (Range lo hi) v = (lo \<le> v \<and> v \<le> hi)"
| "item_means mn mx (Stepped lo hi s) v = (lo \<le> v \<and> v \<le> hi \<and> s dvd v - lo)"
| "item_means mn mx (Every s) v = (mn \<le> v \<and> v \<le> mx \<and> s dvd v - mn)"

lemma show_nat_free [simp]:
  "CHR ''-'' \<notin> set (show_nat n)" "CHR ''/'' \<notin> set (show_nat n)" "CHR '','' \<notin> set (show_nat n)"
  "CHR ''*'' \<notin> set (show_nat n)"
  by (auto dest!: show_nat_plain)

lemma item_text_plain: "c \<in> set (item_text it) \<Longrightarrow> c \<in> set ''0123456789-/*''"
  by (cases it) (auto dest!: show_nat_plain)

lemma plain_chars: "c \<in> set ''0123456789-/*,'' \<Longrightarrow> ascii c \<and> \<not> ascii_ws c"
  by (auto simp: ascii_def ascii_ws_def)

lemma trim_item: "trim (item_text it) = item_text it"
  by (rule trim_plain, rule plain_chars) (auto dest!: item_text_plain)

lemma set_step_range: "0 < s \<Longrightarrow> set (step_range lo hi s) = {v. lo \<le> v \<and> v \<le> hi \<and> s dvd v - lo}"
proof -
  assume s: "0 < s"
  have "v \<in> (\<lambda>i. lo + i * s) ` {0..<(hi - lo) div s + 1} \<longleftrightarrow> lo \<le> v \<and> v \<le> hi \<and> s dvd v - lo"
    if "lo \<le> hi" for v
  proof
    assume "v \<in> (\<lambda>i. lo + i * s) ` {0..<(hi - lo) div s + 1}"
    then obtain i where i: "v = lo + i * s" "i \<in> {0..<(hi - lo) div s + 1}" by (rule imageE)
    then have "i * s \<le> (hi - lo) div s * s" by simp
    also have "\<dots> \<le> hi - lo" by simp
    finally show "lo \<le> v \<and> v \<le> hi \<and> s dvd v - lo" using i that by simp
  next
    assume "lo \<le> v \<and> v \<le> hi \<and> s dvd v - lo"
    then obtain i where "v - lo = i * s" "lo \<le> v" "v \<le> hi" by (auto simp: mult.commute dvd_def)
    moreover from this have "i \<le> (hi - lo) div s"
      using s div_le_mono [of "i * s" "hi - lo" s] by simp
    ultimately have "v = lo + i * s" "i \<in> {0..<(hi - lo) div s + 1}" by auto
    then show "v \<in> (\<lambda>i. lo + i * s) ` {0..<(hi - lo) div s + 1}" by (rule image_eqI)
  qed
  then show ?thesis by (auto simp: step_range_def)
qed

lemma parse_range_show: "lo < 2 ^ 32 \<Longrightarrow> hi < 2 ^ 32 \<Longrightarrow> parse_range (show_nat lo) (show_nat hi) = Inr (lo, hi)"
  by (simp add: parse_range_def parse_show_nat)

lemma split_slash:
  "split_once (CHR ''/'') (show_nat lo @ CHR ''-'' # show_nat hi @ CHR ''/'' # show_nat s)
     = Some (show_nat lo @ ''-'' @ show_nat hi, show_nat s)"
  using split_once_append [of "CHR ''/''" "show_nat lo @ ''-'' @ show_nat hi" "show_nat s"] by simp

lemma parse_item:
  assumes "item_ok mn mx it" "mx < 2 ^ 32"
  shows "\<exists>vs. parse_part mn mx (item_text it) = Returned (Inr vs)
    \<and> set vs = {v. item_means mn mx it v \<and> mn \<le> v \<and> v \<le> mx}"
proof -
  note part = parse_part_def [of mn mx "item_text it", unfolded Let_def trim_item]
  show ?thesis
  proof (cases it)
    case (Single v)
    then have "split_once (CHR ''/'') (item_text it) = None" "split_once (CHR ''-'') (item_text it) = None"
      by (simp_all add: split_once_None_iff)
    then show ?thesis using Single assms unfolding part by (auto simp: parse_show_nat)
  next
    case (Range lo hi)
    then have "split_once (CHR ''/'') (item_text it) = None"
        "split_once (CHR ''-'') (item_text it) = Some (show_nat lo, show_nat hi)"
      by (simp_all add: split_once_None_iff split_once_append)
    then show ?thesis using Range assms unfolding part by (auto simp: parse_range_show within_def)
  next
    case (Stepped lo hi s)
    then have "split_once (CHR ''/'') (item_text it) = Some (show_nat lo @ ''-'' @ show_nat hi, show_nat s)"
      by (simp add: split_slash)
    moreover have "show_nat lo @ CHR ''-'' # show_nat hi \<noteq> ''*''"
      by (cases "show_nat lo") auto
    ultimately show ?thesis
      using Stepped assms unfolding part
      by (auto simp: parse_step_def parse_show_nat split_once_append parse_range_show within_def set_step_range)
  next
    case (Every s)
    then have "split_once (CHR ''/'') (item_text it) = Some (''*'', show_nat s)"
      by simp
    then show ?thesis
      using Every assms unfolding part
      by (auto simp: parse_step_def parse_show_nat within_def set_step_range)
  qed
qed

lemma parse_items:
  assumes "list_all (item_ok mn mx) its" "mx < 2 ^ 32"
  shows "\<exists>vs. parse_parts mn mx (map item_text its) = Returned (Inr vs)
    \<and> set vs = {v. (\<exists>it \<in> set its. item_means mn mx it v) \<and> mn \<le> v \<and> v \<le> mx}"
  using assms(1)
proof (induction its)
  case (Cons it its)
  obtain vs where "parse_part mn mx (item_text it) = Returned (Inr vs)"
      "set vs = {v. item_means mn mx it v \<and> mn \<le> v \<and> v \<le> mx}"
    using parse_item [of mn mx it] assms(2) Cons.prems by auto
  moreover obtain ws where "parse_parts mn mx (map item_text its) = Returned (Inr ws)"
      "set ws = {v. (\<exists>it \<in> set its. item_means mn mx it v) \<and> mn \<le> v \<and> v \<le> mx}"
    using Cons by auto
  ultimately show ?case by auto
qed simp

lemma sorted_dedup: "sorted (xs :: nat list) \<Longrightarrow> sorted_wrt (<) (remdups_adj xs)"
  by (induction xs rule: remdups_adj.induct) (auto simp: less_le)

lemma field_text_not_star:
  assumes "its \<noteq> []"
  shows "join '','' (map item_text its) \<noteq> ''*''"
proof
  assume star: "join '','' (map item_text its) = ''*''"
  then have "map item_text its = split_char (CHR '','') ''*''"
    using split_char_join [of "map item_text its" "CHR '',''"] assms item_text_plain by fastforce
  then obtain it where "its = [it]" "item_text it = ''*''" by auto
  then have "set (item_text it) = {CHR ''*''}" by simp
  then have only: "c \<in> set (item_text it) \<longleftrightarrow> c = CHR ''*''" for c by simp
  show False
    using only [of "CHR ''-''"] only [of "CHR ''/''"] only [of "CHR ''*''"] by (cases it) simp_all
qed

text \<open>Reading back what is written: a field made of numbers, ranges, stepped ranges and stepped
  wildcards, joined by commas, parses, and the parsed field matches a number exactly when the number is
  within the limits of the field and one of the items stands for it. The values are kept in strictly
  ascending order and within the limits.\<close>

theorem cron_field_roundtrip:
  assumes "its \<noteq> []" "list_all (item_ok mn mx) its" "mx < 2 ^ 32"
  shows "\<exists>vs. parse_field (join '','' (map item_text its)) mn mx = Returned (Inr (Values vs))
    \<and> sorted_wrt (<) vs \<and> (\<forall>v. field_matches (Values vs) v \<longleftrightarrow>
        mn \<le> v \<and> v \<le> mx \<and> (\<exists>it \<in> set its. item_means mn mx it v))"
proof -
  let ?s = "join '','' (map item_text its)"
  have "set (join '','' ps) \<subseteq> insert (CHR '','') (\<Union> (set ` set ps))" for ps :: "string list"
    by (induction "'',''" ps rule: join.induct) auto
  then have "c \<in> set ''0123456789-/*,''" if "c \<in> set ?s" for c
    using that item_text_plain by fastforce
  then have trim: "trim ?s = ?s" by (rule trim_plain [OF plain_chars])
  have split: "split_char (CHR '','') ?s = map item_text its"
    using split_char_join [of "map item_text its" "CHR '',''"] assms(1) item_text_plain by fastforce
  obtain vs where "parse_parts mn mx (map item_text its) = Returned (Inr vs)"
      and vs: "set vs = {v. (\<exists>it \<in> set its. item_means mn mx it v) \<and> mn \<le> v \<and> v \<le> mx}"
    using parse_items [OF assms(2,3)] by blast
  then have "parse_field ?s mn mx = Returned (Inr (Values (remdups_adj (sort vs))))"
    using field_text_not_star [OF assms(1)] by (simp add: parse_field_def trim split)
  moreover have "sorted_wrt (<) (remdups_adj (sort vs))"
    by (simp add: sorted_dedup)
  ultimately show ?thesis using vs by auto
qed

definition half_hours :: "cron_item list" where
  "half_hours = [Single 7, Range 20 70, Every 30]"

theorem cron_field_roundtrip_witness:
  "\<exists>vs. parse_field (join '','' (map item_text half_hours)) 0 59 = Returned (Inr (Values vs)) \<and> sorted_wrt (<) vs
    \<and> field_matches (Values vs) 0 \<and> field_matches (Values vs) 7 \<and> \<not> field_matches (Values vs) 8
    \<and> field_matches (Values vs) 59"
proof -
  have "half_hours \<noteq> []" "list_all (item_ok 0 59) half_hours" "(59 :: nat) < 2 ^ 32"
    by (simp_all add: half_hours_def)
  from cron_field_roundtrip [OF this] show ?thesis
    by (fastforce simp: half_hours_def)
qed

section \<open>The scheduler fires once a minute\<close>

definition same_minute :: "date_time \<Rightarrow> date_time \<Rightarrow> bool" where
  "same_minute a b \<longleftrightarrow> dt_year a = dt_year b \<and> dt_month a = dt_month b \<and> dt_day a = dt_day b
     \<and> dt_hour a = dt_hour b \<and> dt_minute a = dt_minute b"

text \<open>What the clock promises: fields in range, and two times are in the same minute of the calendar
  exactly when they are in the same minute since the epoch.\<close>

definition calendar :: "date_time set \<Rightarrow> bool" where
  "calendar T \<longleftrightarrow> (\<forall>a \<in> T. dt_month a < 100 \<and> dt_day a < 100 \<and> dt_hour a < 100 \<and> dt_minute a < 100)
     \<and> (\<forall>a \<in> T. \<forall>b \<in> T. same_minute a b \<longleftrightarrow> dt_instant a div 60 = dt_instant b div 60)"

text \<open>The specification: on its first tick in a minute the scheduler returns all tasks that match, on
  every later tick in that minute none.\<close>

fun first_ticks :: "CronTask list \<Rightarrow> date_time list \<Rightarrow> date_time list \<Rightarrow> CronTask list list" where
  "first_ticks ts past [] = []"
| "first_ticks ts past (now # rest) =
     (if \<exists>t \<in> set past. same_minute t now then [] else filter (\<lambda>t. should_trigger t now) ts)
     # first_ticks ts (past @ [now]) rest"

fun run_ticks :: "CronScheduler \<Rightarrow> date_time list \<Rightarrow> CronTask list list" where
  "run_ticks s [] = []"
| "run_ticks s (now # rest) = (case cron_tick now s of (fired, s') \<Rightarrow> fired # run_ticks s' rest)"

lemma show_nat_inject: "show_nat m = show_nat n \<longleftrightarrow> m = n"
  by (metis digits_val_show_nat option.inject)

lemma show_int_inject: "show_int i = show_int j \<longleftrightarrow> i = j"
proof -
  have neg: "show_nat m \<noteq> CHR ''-'' # t" for m t
    using show_nat_free(1) [of m] by (metis list.set_intros(1))
  have "nat \<bar>i\<bar> = nat \<bar>j\<bar> \<longleftrightarrow> \<bar>i\<bar> = \<bar>j\<bar>" by (simp add: eq_nat_nat_iff)
  then show ?thesis using neg neg [symmetric]
    by (cases "i < 0"; cases "j < 0") (simp_all add: show_int_def show_nat_inject)
qed

lemma two_digits_length: "n < 100 \<Longrightarrow> length (two_digits n) = 2"
  by (auto simp: two_digits_def show_nat.simps [of n] show_nat.simps [of "n div 10"])

lemma two_digits_inject: "m < 100 \<Longrightarrow> n < 100 \<Longrightarrow> two_digits m = two_digits n \<longleftrightarrow> m = n"
proof -
  have "dec_digit (CHR ''0'') = Some 0" by (simp add: dec_digit_def)
  then have "digits_val dec_digit 10 0 (two_digits n) = Some n" for n
    by (simp add: two_digits_def digits_val_show_nat)
  then show ?thesis by (metis option.inject)
qed

lemma minute_key_inject:
  assumes "calendar T" "a \<in> T" "b \<in> T"
  shows "minute_key a = minute_key b \<longleftrightarrow> same_minute a b"
proof
  assume key: "minute_key a = minute_key b"
  let ?r = "\<lambda>x. ''-'' @ two_digits (dt_month x) @ ''-'' @ two_digits (dt_day x) @ ''T'' @ two_digits (dt_hour x)
    @ '':'' @ two_digits (dt_minute x)"
  have small: "dt_month x < 100" "dt_day x < 100" "dt_hour x < 100" "dt_minute x < 100" if "x \<in> {a, b}" for x
    using assms that by (auto simp: calendar_def)
  have "length (?r a) = length (?r b)" by (simp add: two_digits_length small)
  then have "show_int (dt_year a) = show_int (dt_year b)" "?r a = ?r b"
    using key by (simp_all add: minute_key_def)
  then show "same_minute a b"
    using small by (simp add: same_minute_def show_int_inject two_digits_length two_digits_inject)
qed (simp add: same_minute_def minute_key_def)

text \<open>The table holds only minutes of the past, and a minute of the past that is missing has been pruned:
  it is more than a minute old.\<close>

definition ticked :: "date_time list \<Rightarrow> CronScheduler \<Rightarrow> bool" where
  "ticked past s \<longleftrightarrow> (\<forall>key v. map_of (last_trigger s) key = Some v \<longrightarrow> v \<in> set past \<and> minute_key v = key)
     \<and> (\<forall>t \<in> set past. map_of (last_trigger s) (minute_key t) = None \<longrightarrow>
          (\<exists>p \<in> set past. dt_instant p - dt_instant t \<ge> 120))
     \<and> distinct (map fst (last_trigger s))"

lemma map_of_filter_distinct:
  "distinct (map fst m) \<Longrightarrow>
    map_of (filter (\<lambda>(key, v). P v) m) key = (case map_of m key of Some v \<Rightarrow> if P v then Some v else None | None \<Rightarrow> None)"
  by (induction m) (force split: option.splits)+

lemma prune_map_of:
  assumes "distinct (map fst m)"
  shows "map_of (prune now m) key = (case map_of m key of
     Some v \<Rightarrow> if length m > 1440 \<and> \<not> minutes_between now v < 120 then None else Some v | None \<Rightarrow> None)"
    "distinct (map fst (prune now m))"
  using assms
  by (auto simp: prune_def map_of_filter_distinct distinct_map_filter split: option.split)

lemma cron_tick_fired:
  assumes "ticked past s" "calendar (set (past @ [now]))" "\<forall>t \<in> set past. dt_instant t \<le> dt_instant now"
  shows "map_of (last_trigger s) (minute_key now) \<noteq> None \<longleftrightarrow> (\<exists>t \<in> set past. same_minute t now)"
proof
  assume "map_of (last_trigger s) (minute_key now) \<noteq> None"
  then obtain v where "map_of (last_trigger s) (minute_key now) = Some v" by auto
  then have "v \<in> set past" "minute_key v = minute_key now"
    using assms(1) unfolding ticked_def by blast+
  then show "\<exists>t \<in> set past. same_minute t now"
    using minute_key_inject [OF assms(2)] by auto
next
  assume "\<exists>t \<in> set past. same_minute t now"
  then obtain t where t: "t \<in> set past" "same_minute t now" by blast
  have key: "minute_key t = minute_key now"
    using minute_key_inject [OF assms(2)] t by simp
  have "dt_instant t div 60 = dt_instant now div 60"
    using assms(2) t by (simp add: calendar_def)
  then have "dt_instant now - dt_instant t < 60" by linarith
  then have "\<not> (\<exists>p \<in> set past. dt_instant p - dt_instant t \<ge> 120)"
    using assms(3) by force
  then show "map_of (last_trigger s) (minute_key now) \<noteq> None"
    using assms(1) t(1) key unfolding ticked_def by metis
qed

lemma ticked_step:
  assumes "ticked past s" "calendar (set (past @ [now]))" "\<forall>t \<in> set past. dt_instant t \<le> dt_instant now"
  shows "ticked (past @ [now]) (snd (cron_tick now s))"
proof (cases "map_of (last_trigger s) (minute_key now)")
  case (Some v)
  then show ?thesis
    using assms(1) by (auto simp: ticked_def cron_tick_def)
next
  case None
  define m where "m = AList.update (minute_key now) now (last_trigger s)"
  have dist: "distinct (map fst m)"
    using assms(1) by (simp add: m_def ticked_def distinct_update)
  have at: "map_of m key = (if key = minute_key now then Some now else map_of (last_trigger s) key)" for key
    by (simp add: m_def update_conv')
  have tick: "last_trigger (snd (cron_tick now s)) = prune now m"
    using None by (simp add: cron_tick_def m_def)
  have old: "\<exists>p \<in> set (past @ [now]). dt_instant p - dt_instant t \<ge> 120"
    if t: "t \<in> set (past @ [now])" and gone: "map_of (prune now m) (minute_key t) = None" for t
  proof (cases "map_of m (minute_key t)")
    case None
    then show ?thesis using t assms(1) by (auto simp: at ticked_def split: if_splits)
  next
    case (Some v)
    then have v: "v \<in> set (past @ [now])" "minute_key v = minute_key t"
      using assms(1) by (auto simp: at ticked_def split: if_splits)
    have "\<not> minutes_between now v < 120"
      using gone Some dist by (auto simp: prune_map_of split: if_splits)
    then have "dt_instant now - dt_instant v \<ge> 7200"
      by (auto simp: minutes_between_def Let_def split: if_splits)
    moreover have "dt_instant v div 60 = dt_instant t div 60"
      using minute_key_inject [OF assms(2) v(1) t] v assms(2) t unfolding calendar_def by blast
    ultimately show ?thesis by (intro bexI [of _ now]) (linarith, simp)
  qed
  show ?thesis
    unfolding ticked_def tick
    using old dist assms(1)
    by (auto simp: prune_map_of at ticked_def split: option.splits if_splits)
qed

text \<open>C32: The scheduler refines its specification: over any sequence of ticks at times that do not go
  back, the first tick in each minute returns exactly the registered tasks whose expression matches, in
  the order of registration, and every later tick in the same minute returns none, also when the table
  of minutes is pruned.\<close>

theorem cron_fires_once_a_minute:
  assumes "calendar (set clock)" "sorted_wrt (\<lambda>a b. dt_instant a \<le> dt_instant b) clock"
  shows "run_ticks (fold cron_register tasks cron_new) clock = first_ticks tasks [] clock"
proof -
  have reg: "cron_tasks (fold cron_register ts s) = cron_tasks s @ ts
      \<and> last_trigger (fold cron_register ts s) = last_trigger s" for ts s
    by (induction ts arbitrary: s) (simp_all add: cron_register_def)
  have "run_ticks s ts = first_ticks (cron_tasks s) past ts"
    if "ticked past s" "calendar (set (past @ ts))"
      "sorted_wrt (\<lambda>a b. dt_instant a \<le> dt_instant b) (past @ ts)" for past ts s
    using that
  proof (induction ts arbitrary: past s)
    case (Cons now ts)
    have cal: "calendar (set (past @ [now]))" using Cons.prems(2) by (auto simp: calendar_def)
    have mono: "\<forall>t \<in> set past. dt_instant t \<le> dt_instant now"
      using Cons.prems(3) by (auto simp: sorted_wrt_append)
    obtain fired s' where tick: "cron_tick now s = (fired, s')" by fastforce
    have "ticked (past @ [now]) s'" using ticked_step [OF Cons.prems(1) cal mono] tick by simp
    moreover have "cron_tasks s' = cron_tasks s" using tick by (auto simp: cron_tick_def split: if_splits)
    ultimately have "run_ticks s' ts = first_ticks (cron_tasks s) (past @ [now]) ts"
      using Cons.IH [of "past @ [now]" s'] Cons.prems(2,3) by simp
    moreover have "fired = (if \<exists>t \<in> set past. same_minute t now then []
        else filter (\<lambda>t. should_trigger t now) (cron_tasks s))"
      using tick cron_tick_fired [OF Cons.prems(1) cal mono] by (auto simp: cron_tick_def split: if_splits)
    ultimately show ?case using tick by simp
  qed simp
  from this [of "[]" "fold cron_register tasks cron_new" clock] show ?thesis
    using reg [of tasks cron_new] assms by (simp add: ticked_def cron_new_def)
qed

definition at_seconds :: "int \<Rightarrow> date_time" where
  "at_seconds s = \<lparr>dt_year = 2026, dt_month = 6, dt_day = 16, dt_hour = 10, dt_minute = nat (s div 60),
     days_from_sunday = 2, dt_instant = s\<rparr>"

definition every_minute :: CronTask where
  "every_minute = \<lparr>task_name = ''tick'', task_expr = ''* * * * *'', parsed = \<lparr>cr_minute = Any, cr_hour = Any,
     cr_dom = Any, cr_month = Any, cr_dow = Any\<rparr>, task_goal = ''look'', task_priority = 5\<rparr>"

theorem cron_fires_once_a_minute_witness:
  "run_ticks (fold cron_register [every_minute] cron_new) [at_seconds 5, at_seconds 30, at_seconds 61]
     = [[every_minute], [], [every_minute]]"
proof -
  have "calendar (set [at_seconds 5, at_seconds 30, at_seconds 61])"
    by (simp add: calendar_def same_minute_def at_seconds_def)
  moreover have "sorted_wrt (\<lambda>a b. dt_instant a \<le> dt_instant b) [at_seconds 5, at_seconds 30, at_seconds 61]"
    by (simp add: at_seconds_def)
  ultimately show ?thesis
    using cron_fires_once_a_minute [of "[at_seconds 5, at_seconds 30, at_seconds 61]" "[every_minute]"]
    by (simp add: same_minute_def at_seconds_def should_trigger_def cron_matches_def every_minute_def)
qed

section \<open>Error paths\<close>

text \<open>A step of zero panics instead of being reported.\<close>

lemma zero_step_panics: "parse_field ''*/0'' mn mx = Panicked"
proof -
  have "show_nat 0 = ''0''" by (simp add: show_nat.simps dec_char_def)
  then have "parse_u32 ''0'' = Some 0" using parse_show_nat [of 0 4294967296] by simp
  moreover have "trim ''*/0'' = ''*/0''" by (rule trim_plain) (auto simp: ascii_def ascii_ws_def)
  ultimately show ?thesis
    by (simp add: parse_field_def parse_part_def parse_step_def)
qed

text \<open>The day 7 is accepted and stands for Sunday in the comment, but matches no day.\<close>

lemma day_seven_never_matches:
  assumes "cr_dow e = Values [7]" "days_from_sunday dt < 7"
  shows "\<not> cron_matches e dt"
  using assms by (auto simp: cron_matches_def)

text \<open>A range written backwards, or outside the limits, is accepted and matches nothing.\<close>

lemma empty_range_accepted:
  assumes "item_ok mn mx (Range lo hi)" "hi < lo \<or> mx < lo" "mx < 2 ^ 32"
  shows "parse_field (item_text (Range lo hi)) mn mx = Returned (Inr (Values []))"
proof -
  obtain vs where vs: "parse_part mn mx (item_text (Range lo hi)) = Returned (Inr vs)"
      "set vs = {v. item_means mn mx (Range lo hi) v \<and> mn \<le> v \<and> v \<le> mx}"
    using parse_item [OF assms(1,3)] by blast
  have "set vs = {}" using vs(2) assms(2) by auto
  then have none: "vs = []" by simp
  have "item_text (Range lo hi) \<noteq> ''*''" using field_text_not_star [of "[Range lo hi]"] by simp
  moreover have "split_char (CHR '','') (item_text (Range lo hi)) = [item_text (Range lo hi)]"
    by (rule split_char_single) (auto dest!: item_text_plain simp del: item_text.simps)
  ultimately show ?thesis
    using vs(1) none unfolding parse_field_def trim_item by (simp del: item_text.simps)
qed

end
