(* ===== verification/Retry_Budget.thy ===== *)
theory Retry_Budget
  imports Token_Bucket Llm "HOL-Library.AList"
begin

text \<open>
  The ceiling of retries that all requests of the process share per provider
  (\<open>soul_llm/src/retry_budget.rs\<close>): a token bucket behind a lock for every provider endpoint, in a registry
  that creates them on first use. A poisoned lock is \<open>None\<close>. Time is a number of nanoseconds; the clock is
  read before the lock is taken, so that the readings need not come in order.
\<close>

section \<open>Budgets\<close>

definition DEFAULT_REFILL_PER_SEC :: real where "DEFAULT_REFILL_PER_SEC = 2"
definition DEFAULT_CAPACITY :: real where "DEFAULT_CAPACITY = 20"

record BucketState =
  st_tokens :: real
  last_refill :: nat

record RetryBudget =
  inner :: "BucketState option"
  capacity :: real
  refill_per_sec :: real

definition retry_budget_new :: "real \<Rightarrow> real \<Rightarrow> nat \<Rightarrow> RetryBudget" where
  "retry_budget_new cap refill now =
     \<lparr>inner = Some \<lparr>st_tokens = cap, last_refill = now\<rparr>, capacity = cap, refill_per_sec = refill\<rparr>"

text \<open>The critical section of \<open>try_acquire_at\<close>.\<close>

definition state_acquire :: "(real \<Rightarrow> real) \<Rightarrow> real \<Rightarrow> real \<Rightarrow> nat \<Rightarrow> BucketState \<Rightarrow> bool \<times> BucketState" where
  "state_acquire rnd cap refill now st =
     (let elapsed = now - last_refill st;
          st = (if elapsed > 0
                then st\<lparr>st_tokens := min (rnd (st_tokens st + rnd (as_secs_f64 rnd elapsed * refill))) cap,
                        last_refill := now\<rparr>
                else st)
      in if st_tokens st \<ge> 1 then (True, st\<lparr>st_tokens := rnd (st_tokens st - 1)\<rparr>) else (False, st))"

definition try_acquire_at :: "(real \<Rightarrow> real) \<Rightarrow> nat \<Rightarrow> RetryBudget \<Rightarrow> bool \<times> RetryBudget" where
  "try_acquire_at rnd now b = (case inner b of
     None \<Rightarrow> (False, b)
   | Some st \<Rightarrow> (case state_acquire rnd (capacity b) (refill_per_sec b) now st of
       (ok, st) \<Rightarrow> (ok, b\<lparr>inner := Some st\<rparr>)))"

definition retry_available :: "RetryBudget \<Rightarrow> real" where
  "retry_available b = (case inner b of None \<Rightarrow> 0 | Some st \<Rightarrow> st_tokens st)"

type_synonym retry_registry = "(string \<times> RetryBudget) list"

definition provider_key :: "string \<Rightarrow> string \<Rightarrow> string" where
  "provider_key name base_url = name @ ''@'' @ base_url"

definition shared_for :: "nat \<Rightarrow> string \<Rightarrow> retry_registry \<Rightarrow> RetryBudget \<times> retry_registry" where
  "shared_for now key reg = (case map_of reg key of
     Some b \<Rightarrow> (b, reg)
   | None \<Rightarrow> let b = retry_budget_new DEFAULT_CAPACITY DEFAULT_REFILL_PER_SEC now in (b, AList.update key b reg))"

text \<open>What the retry loop does before it waits: look the budget up, created at \<open>made\<close> when it is new, and ask it.\<close>

definition acquire_shared :: "(real \<Rightarrow> real) \<Rightarrow> string \<Rightarrow> nat \<Rightarrow> nat \<Rightarrow> retry_registry \<Rightarrow> bool \<times> retry_registry" where
  "acquire_shared rnd key made now reg =
     (let (b, reg) = shared_for made key reg; (ok, b) = try_acquire_at rnd now b in (ok, AList.update key b reg))"

section \<open>Bounds on the retries\<close>

record retry_request =
  rq_key :: string
  rq_made :: nat
  rq_now :: nat

fun acquire_requests :: "(real \<Rightarrow> real) \<Rightarrow> retry_request list \<Rightarrow> retry_registry \<Rightarrow> (string \<times> bool) list" where
  "acquire_requests rnd [] reg = []"
| "acquire_requests rnd (q # qs) reg =
     (let (ok, reg) = acquire_shared rnd (rq_key q) (rq_made q) (rq_now q) reg
      in (rq_key q, ok) # acquire_requests rnd qs reg)"

definition granted :: "string \<Rightarrow> (string \<times> bool) list \<Rightarrow> nat" where
  "granted key rs = length (filter (\<lambda>r. r = (key, True)) rs)"

lemma state_acquire_spend:
  assumes "state_acquire rnd (real cap) (real rate) now st = (ok, st')"
  shows "now > last_refill st \<Longrightarrow> spend rnd (topped_up rnd rate cap (now - last_refill st) (st_tokens st)) = (ok, st_tokens st')"
    and "now \<le> last_refill st \<Longrightarrow> spend rnd (st_tokens st) = (ok, st_tokens st')"
    and "last_refill st' = max now (last_refill st)"
  using assms by (auto simp: state_acquire_def spend_def topped_up_def Let_def split: if_splits)

lemma provider_bucket:
  assumes r: "rounds rnd" and w: "rounds_within bound err rnd" and e: "0 \<le> err"
    and c: "real cap \<le> bound" "1 \<le> cap" "1 \<le> rate" "cap \<le> 2 ^ 53"
    and h: "horizon \<le> 2 ^ 53" "(horizon + 2 * err) * real rate \<le> bound"
  shows "steady_bucket (state_acquire rnd (real cap) (real rate)) st_tokens last_refill (real cap) (real rate)
    (err * (2 * real rate + 3)) horizon"
proof
  show "0 \<le> real rate" "0 \<le> err * (2 * real rate + 3)" using e by simp_all
  fix b t ok b'
  assume "state_acquire rnd (real cap) (real rate) t b = (ok, b')"
  note s = state_acquire_spend [OF this]
  show "last_refill b' = t" if "last_refill b \<le> t" using s(3) that by simp
  show "last_refill b' = last_refill b" if "t < last_refill b" using s(3) that by simp
  assume b: "0 \<le> st_tokens b" "st_tokens b \<le> real cap"
  define x where "x = (if t > last_refill b then topped_up rnd rate cap (t - last_refill b) (st_tokens b) else st_tokens b)"
  have x: "0 \<le> x" "x \<le> real cap" using topped_up_range [OF r b(1)] b by (auto simp: x_def)
  have sp: "spend rnd x = (ok, st_tokens b')" using s(1,2) by (auto simp: x_def)
  show "0 \<le> st_tokens b' \<and> st_tokens b' \<le> real cap" using spend_range [OF r c(4) x sp] .
  have paid: "st_tokens b' + of_bool ok \<le> x + err" using x(2) c(1) by (intro spend_pays [OF w e _ sp]) simp
  with x(2) slack_ge [OF e, of rate] show "st_tokens b' + of_bool ok \<le> real cap + err * (2 * real rate + 3)" by simp
  assume d: "secs (t - last_refill b) \<le> horizon"
  show "st_tokens b' + of_bool ok \<le> st_tokens b + real rate * secs (t - last_refill b) + err * (2 * real rate + 3)"
  proof (cases "last_refill b < t")
    case True
    show ?thesis by (rule topped_up_spend_pays [OF r w e c(1-3) h d b s(1) [OF True]])
  next
    case False
    then show ?thesis using paid slack_ge [OF e, of rate] by (simp add: x_def secs_def)
  qed
qed

text \<open>The budget every provider gets, in binary64, over windows of up to an hour.\<close>

interpretation retry_bucket: steady_bucket
  "state_acquire f64_round (real 20) (real 2)" st_tokens last_refill "real 20" "real 2" "1 / 2 ^ 41 * (2 * real 2 + 3)" 3600
  by (rule provider_bucket [where bound = 8192]) (use rounds_within_f64 [of 13] in \<open>simp_all add: rounds_f64\<close>)

text \<open>Every budget in the registry is a default one, within its capacity, and not refilled after \<open>tend\<close>.\<close>

definition budget_ok :: "nat \<Rightarrow> RetryBudget \<Rightarrow> bool" where
  "budget_ok tend b \<longleftrightarrow> capacity b = 20 \<and> refill_per_sec b = 2
     \<and> (\<forall>st. inner b = Some st \<longrightarrow> 0 \<le> st_tokens st \<and> st_tokens st \<le> 20 \<and> last_refill st \<le> tend)"

definition registry_ok :: "nat \<Rightarrow> retry_registry \<Rightarrow> bool" where
  "registry_ok tend reg \<longleftrightarrow> (\<forall>key b. map_of reg key = Some b \<longrightarrow> budget_ok tend b)"

lemma registry_ok_empty: "registry_ok tend []"
  by (simp add: registry_ok_def)

lemma new_budget_ok: "made \<le> tend \<Longrightarrow> budget_ok tend (retry_budget_new DEFAULT_CAPACITY DEFAULT_REFILL_PER_SEC made)"
  by (simp add: budget_ok_def retry_budget_new_def DEFAULT_CAPACITY_def DEFAULT_REFILL_PER_SEC_def)

text \<open>The budget a request finds.\<close>

definition budget_found :: "nat \<Rightarrow> string \<Rightarrow> retry_registry \<Rightarrow> RetryBudget" where
  "budget_found made key reg = fst (shared_for made key reg)"

lemma acquire_shared_eq:
  "acquire_shared rnd key made now reg = (ok, reg') \<Longrightarrow> try_acquire_at rnd now (budget_found made key reg) = (ok, b) \<Longrightarrow>
     map_of reg' = (map_of reg)(key \<mapsto> b)"
  "fst (acquire_shared rnd key made now reg) = fst (try_acquire_at rnd now (budget_found made key reg))"
  by (auto simp: acquire_shared_def budget_found_def shared_for_def AList.update_conv Let_def split_beta split: option.splits)

lemma asked:
  assumes "acquire_shared rnd key made now reg = (ok, reg')"
  shows "\<exists>b. try_acquire_at rnd now (budget_found made key reg) = (ok, b)"
  using acquire_shared_eq(2) [of rnd key made now reg] assms by (cases "try_acquire_at rnd now (budget_found made key reg)") simp

lemma found_ok: "registry_ok tend reg \<Longrightarrow> made \<le> tend \<Longrightarrow> budget_ok tend (budget_found made key reg)"
  by (auto simp: budget_found_def shared_for_def registry_ok_def new_budget_ok Let_def split: option.splits)

text \<open>One budget asked at a list of times.\<close>

fun budget_run :: "(real \<Rightarrow> real) \<Rightarrow> nat list \<Rightarrow> RetryBudget \<Rightarrow> nat" where
  "budget_run rnd [] b = 0"
| "budget_run rnd (t # ts) b = (case try_acquire_at rnd t b of (ok, b') \<Rightarrow> (if ok then 1 else 0) + budget_run rnd ts b')"

lemma budget_run_poisoned: "inner b = None \<Longrightarrow> budget_run rnd ts b = 0"
  by (induction ts) (simp_all add: try_acquire_at_def)

lemma budget_run_state:
  "inner b = Some st \<Longrightarrow> budget_run rnd ts b = fst (acquire_all (state_acquire rnd (capacity b) (refill_per_sec b)) ts st)"
  by (induction ts arbitrary: b st) (auto simp: try_acquire_at_def split_beta)

lemma granted_budget_run:
  "qs' = filter (\<lambda>q. rq_key q = key) qs \<Longrightarrow> (map_of reg key = None \<Longrightarrow> qs' \<noteq> [] \<Longrightarrow> made = rq_made (hd qs')) \<Longrightarrow>
     granted key (acquire_requests rnd qs reg) = budget_run rnd (map rq_now qs') (budget_found made key reg)"
proof (induction qs arbitrary: reg made qs')
  case (Cons q qs)
  obtain ok reg' where a: "acquire_shared rnd (rq_key q) (rq_made q) (rq_now q) reg = (ok, reg')" by fastforce
  show ?case
  proof (cases "rq_key q = key")
    case True
    have f: "budget_found (rq_made q) key reg = budget_found made key reg"
      using Cons.prems True by (cases "map_of reg key") (auto simp: budget_found_def shared_for_def)
    obtain b where b: "try_acquire_at rnd (rq_now q) (budget_found made key reg) = (ok, b)"
      using asked [OF a] True f by auto
    have m: "map_of reg' = (map_of reg)(key \<mapsto> b)" using acquire_shared_eq(1) [OF a, of b] b True f by simp
    then have "budget_found made key reg' = b" by (simp add: budget_found_def shared_for_def)
    then have "granted key (acquire_requests rnd qs reg') = budget_run rnd (map rq_now (filter (\<lambda>q. rq_key q = key) qs)) b"
      using Cons.IH [OF refl, of reg' made] m by simp
    then show ?thesis using Cons.prems(1) True a b by (simp add: granted_def)
  next
    case False
    obtain b where "try_acquire_at rnd (rq_now q) (budget_found (rq_made q) (rq_key q) reg) = (ok, b)"
      using asked [OF a] by blast
    from acquire_shared_eq(1) [OF a this] False have m: "map_of reg' key = map_of reg key" by simp
    then have "budget_found made key reg' = budget_found made key reg" by (auto simp: budget_found_def shared_for_def Let_def split: option.splits)
    then show ?thesis using Cons.IH [of qs' reg' made] Cons.prems False a m by (simp add: granted_def)
  qed
qed (simp add: granted_def)

text \<open>C30: The retries aimed at one provider are bounded over the whole process, in floating-point arithmetic. Whatever
  requests to whatever providers ask for a retry in a window, and in whatever order their readings of the clock
  come, one provider is granted at most 20 retries plus 2 for every second of the window, plus a rounding
  allowance of \<open>7 * err\<close> per request; and what the other providers do makes no difference to it.\<close>

theorem retry_budget_window:
  assumes "rounds rnd" "rounds_within bound err rnd" "0 \<le> err" "20 \<le> bound"
    and "secs (tend - start) \<le> 2 ^ 53" "(secs (tend - start) + 2 * err) * 2 \<le> bound"
    and "registry_ok tend reg"
    and "\<forall>q \<in> set qs. rq_made q \<le> tend \<and> start \<le> rq_now q \<and> rq_now q \<le> tend"
  shows "real (granted key (acquire_requests rnd qs reg)) \<le> 20 + 2 * secs (tend - start) + real (length qs) * (err * 7)
    \<and> granted key (acquire_requests rnd qs reg)
        = granted key (acquire_requests rnd (filter (\<lambda>q. rq_key q = key) qs) reg)"
proof
  let ?qs = "filter (\<lambda>q. rq_key q = key) qs"
  define made where "made = (if ?qs = [] then 0 else rq_made (hd ?qs))"
  have g: "granted key (acquire_requests rnd qs reg) = budget_run rnd (map rq_now ?qs) (budget_found made key reg)"
    by (rule granted_budget_run) (simp_all add: made_def)
  have "granted key (acquire_requests rnd ?qs reg) = budget_run rnd (map rq_now ?qs) (budget_found made key reg)"
    by (rule granted_budget_run) (simp_all add: made_def)
  with g show "granted key (acquire_requests rnd qs reg) = granted key (acquire_requests rnd ?qs reg)" by simp
  have "hd ?qs \<in> set qs" if "?qs \<noteq> []" using hd_in_set [OF that] by simp
  then have "made \<le> tend" using assms(8) by (auto simp: made_def)
  then have ok: "budget_ok tend (budget_found made key reg)" by (rule found_ok [OF assms(7)])
  have slack: "real (length ?qs) * (err * 7) \<le> real (length qs) * (err * 7)"
    using assms(3) by (intro mult_right_mono) auto
  show "real (granted key (acquire_requests rnd qs reg)) \<le> 20 + 2 * secs (tend - start) + real (length qs) * (err * 7)"
  proof (cases "inner (budget_found made key reg)")
    case None
    then show ?thesis using assms(3) secs_nonneg [of "tend - start"] by (simp add: g budget_run_poisoned)
  next
    case (Some st)
    then have st: "0 \<le> st_tokens st" "st_tokens st \<le> real 20" "last_refill st \<le> tend" and
      c: "capacity (budget_found made key reg) = real 20" "refill_per_sec (budget_found made key reg) = real 2"
      using ok by (auto simp: budget_ok_def)
    have "real (fst (acquire_all (state_acquire rnd (real 20) (real 2)) (map rq_now ?qs) st))
        \<le> real 20 + real 2 * secs (tend - start) + real (length (map rq_now ?qs)) * (err * (2 * real 2 + 3))"
      using assms(8) by (intro steady_bucket.steady_window [where horizon = "secs (tend - start)" and tend = tend,
        OF provider_bucket [OF assms(1-3)] st]) (use assms(4-6) in auto)
    then have "real (granted key (acquire_requests rnd qs reg)) \<le> 20 + 2 * secs (tend - start) + real (length ?qs) * (err * 7)"
      by (simp add: g budget_run_state [OF Some] c)
    with slack show ?thesis by linarith
  qed
qed

theorem retry_budget_window_witness:
  "real (granted (provider_key ''ollama'' ''http://a'') (acquire_requests f64_round
      [\<lparr>rq_key = provider_key ''ollama'' ''http://a'', rq_made = 0, rq_now = 5\<rparr>,
       \<lparr>rq_key = provider_key ''ollama'' ''http://b'', rq_made = 1, rq_now = 2\<rparr>,
       \<lparr>rq_key = provider_key ''ollama'' ''http://a'', rq_made = 3, rq_now = 3\<rparr>] []))
   \<le> 20 + 2 * secs (2000000000 - 0) + real (length
      [\<lparr>rq_key = provider_key ''ollama'' ''http://a'', rq_made = 0, rq_now = 5\<rparr>,
       \<lparr>rq_key = provider_key ''ollama'' ''http://b'', rq_made = 1, rq_now = 2\<rparr>,
       \<lparr>rq_key = provider_key ''ollama'' ''http://a'', rq_made = 3, rq_now = 3\<rparr>]) * ((1 / 2 ^ 41) * 7)"
  by (rule retry_budget_window [where bound = 8192, THEN conjunct1])
    (use rounds_within_f64 [of 13] in \<open>simp_all add: rounds_f64 registry_ok_empty secs_def\<close>)

text \<open>Every request a retry loop sends after its first was granted by the budget.\<close>

lemma retries_are_granted:
  "with_retry_from env pol provider a = (r, sent, waits) \<Longrightarrow> a \<le> i \<Longrightarrow> Suc i < a + sent \<Longrightarrow> allowance env i"
proof (induction env pol provider a arbitrary: r sent waits rule: with_retry_from.induct)
  case (1 env pol provider a)
  note eq = 1(2) [unfolded with_retry_from.simps [of env pol provider a]]
  show ?case
  proof (cases "\<exists>e d. provider a = Inl e \<and> retry_decide env pol a e = After d \<and> allowance env a")
    case True
    then obtain e d where e: "provider a = Inl e" "retry_decide env pol a e = After d" "allowance env a" by blast
    obtain r' sent' waits' where rest: "with_retry_from env pol provider (a + 1) = (r', sent', waits')"
      by (metis prod_cases3)
    then have "sent = sent' + 1" using eq e by simp
    with 1(1) [OF e(1,2) _ rest] e(3) 1(3,4) show ?thesis by (cases "i = a") auto
  next
    case False
    then have "sent = 1" using eq by (auto split: sum.splits RetryDecision.splits StopReason.splits if_splits prod.splits)
    with 1(3,4) show ?thesis by simp
  qed
qed

end
