(* ===== verification/Goal_Dag.thy ===== *)
theory Goal_Dag
  imports Prelude "HOL-Library.AList" "HOL-Library.Multiset"
begin

text \<open>
  Parallel goals (\<open>soul-agent-core/src/parallel.rs\<close>): the graph of dependencies, its execution levels, and
  the executor that runs one level after the other. Hash tables are association lists with distinct
  keys; the order in which a hash set is visited is a parameter. The executor is a step relation: the
  tasks of a level run interleaved, their reports arrive in any order.
\<close>

section \<open>The graph\<close>

record ParallelConfig =
  max_concurrent :: nat
  auto_parallelize :: bool
  goal_timeout_secs :: u64


record GoalNode =
  gn_id :: string
  gn_description :: string
  dependencies :: "string list"
  dependents :: "string list"

type_synonym GoalDag = "(string \<times> GoalNode) list"

definition add_dependent :: "string \<times> string \<Rightarrow> GoalDag \<Rightarrow> GoalDag" where
  "add_dependent edge nodes = (case edge of (dep_id, dependent_id) \<Rightarrow>
     (case map_of nodes dep_id of
        None \<Rightarrow> nodes
      | Some dep_node \<Rightarrow>
          if dependent_id \<in> set (dependents dep_node) then nodes
          else AList.update dep_id (dep_node\<lparr>dependents := dependents dep_node @ [dependent_id]\<rparr>) nodes))"

definition insert_goal :: "GoalNode \<Rightarrow> GoalDag \<Rightarrow> GoalDag" where
  "insert_goal g nodes = AList.update (gn_id g) (g\<lparr>dependents := []\<rparr>) nodes"

definition dependent_edges :: "GoalDag \<Rightarrow> (string \<times> string) list" where
  "dependent_edges nodes = concat (map (\<lambda>(i, n). map (\<lambda>d. (d, i)) (dependencies n)) nodes)"

definition dag_build :: "(GoalDag \<Rightarrow> GoalDag) \<Rightarrow> GoalNode list \<Rightarrow> GoalDag" where
  "dag_build visit goals =
     (let nodes = fold insert_goal goals []
      in fold add_dependent (dependent_edges (visit nodes)) nodes)"

text \<open>One pass over the remaining goals; without a ready goal the first visited one is taken.\<close>

definition goal_ready :: "GoalDag \<Rightarrow> string list \<Rightarrow> string \<Rightarrow> bool" where
  "goal_ready dag completed i = (case map_of dag i of
     None \<Rightarrow> False | Some node \<Rightarrow> list_all (\<lambda>d. d \<in> set completed) (dependencies node))"

definition next_level :: "(string list \<Rightarrow> string list) \<Rightarrow> GoalDag \<Rightarrow> string list \<Rightarrow> string list \<Rightarrow> string list" where
  "next_level visit dag remaining completed =
     (let current = filter (goal_ready dag completed) (visit remaining)
      in if current = [] then take 1 (visit remaining) else current)"

partial_function (option) levels_loop ::
  "(string list \<Rightarrow> string list) \<Rightarrow> GoalDag \<Rightarrow> string list \<Rightarrow> string list \<Rightarrow> string list list option" where
  "levels_loop visit dag remaining completed =
     (if remaining = [] then Some []
      else let current = next_level visit dag remaining completed
           in Option.bind (levels_loop visit dag (filter (\<lambda>i. i \<notin> set current) remaining) (completed @ current))
                (\<lambda>levels. Some (current # levels)))"

definition execution_levels :: "(string list \<Rightarrow> string list) \<Rightarrow> GoalDag \<Rightarrow> string list list option" where
  "execution_levels visit dag = levels_loop visit dag (map fst dag) []"

definition can_parallelize :: "GoalNode \<Rightarrow> GoalNode \<Rightarrow> bool" where
  "can_parallelize a b \<longleftrightarrow> gn_id b \<notin> set (dependencies a) \<and> gn_id a \<notin> set (dependencies b)"

section \<open>The executor\<close>

record GoalExecutionResult =
  ger_goal_id :: string
  ger_output :: string
  ger_success :: bool
  ger_duration_ms :: u64





text \<open>The state of \<open>execute\<close>: what is left of the levels, the goals of the current level that are still to be
  spawned, the running tasks, the channel, the results. \<open>died\<close> lists the tasks that panicked; it is not
  part of the program's state and no step reads it.\<close>

record exec_state =
  levels_left :: "string list list"
  level :: "string list"
  to_spawn :: "string list"
  running :: "string list"
  channel :: "(string \<times> GoalExecutionResult) list"
  collected :: nat
  results :: "(string \<times> GoalExecutionResult) list"
  died :: "string list"

definition exec_start :: "string list list \<Rightarrow> exec_state" where
  "exec_start ls = \<lparr>levels_left = ls, level = [], to_spawn = [], running = [], channel = [], collected = 0,
     results = [], died = []\<rparr>"

text \<open>The permit of the semaphore is a local variable of the loop that spawns and is not moved into the
  task, so acquiring and releasing it are one step with the spawning; it only waits when there is no
  permit at all.\<close>

inductive pstep :: "ParallelConfig \<Rightarrow> (string \<Rightarrow> GoalExecutionResult option) \<Rightarrow> exec_state \<Rightarrow> exec_state \<Rightarrow> bool"
  for cfg outcome where
  next_goals: "to_spawn s = [] \<Longrightarrow> \<not> collected s < length (level s) \<Longrightarrow> running s = [] \<Longrightarrow> levels_left s = l # ls \<Longrightarrow>
     pstep cfg outcome s (s\<lparr>levels_left := ls, level := l, to_spawn := l, collected := 0\<rparr>)"
| spawn: "to_spawn s = g # rest \<Longrightarrow> 0 < max_concurrent cfg \<Longrightarrow>
     pstep cfg outcome s (s\<lparr>to_spawn := rest, running := running s @ [g]\<rparr>)"
| report: "g \<in> set (running s) \<Longrightarrow> outcome g = Some r \<Longrightarrow>
     pstep cfg outcome s (s\<lparr>running := remove1 g (running s), channel := channel s @ [(g, r)]\<rparr>)"
| panic: "g \<in> set (running s) \<Longrightarrow> outcome g = None \<Longrightarrow>
     pstep cfg outcome s (s\<lparr>running := remove1 g (running s), died := died s @ [g]\<rparr>)"
| receive: "to_spawn s = [] \<Longrightarrow> collected s < length (level s) \<Longrightarrow> channel s = (g, r) # rest \<Longrightarrow>
     pstep cfg outcome s
       (if g \<in> set (level s)
        then s\<lparr>channel := rest, results := AList.update g r (results s), collected := collected s + 1\<rparr>
        else s\<lparr>channel := rest\<rparr>)"



section \<open>What the graph records\<close>

definition deps_of :: "GoalDag \<Rightarrow> string \<Rightarrow> string list" where
  "deps_of dag g = (case map_of dag g of Some n \<Rightarrow> dependencies n | None \<Rightarrow> [])"

lemma map_of_key: "map_of xs x = Some v \<Longrightarrow> x \<in> fst ` set xs"
  by (metis domI dom_map_of_conv_image_fst)

lemma deps_of_key: "d \<in> set (deps_of dag g) \<Longrightarrow> g \<in> fst ` set dag"
  by (cases "map_of dag g") (auto simp: deps_of_def map_of_key)

lemma insert_goals_distinct: "distinct (map fst nodes) \<Longrightarrow> distinct (map fst (fold insert_goal goals nodes))"
  by (induction goals arbitrary: nodes) (auto simp: insert_goal_def AList.distinct_update)

lemma insert_goals_keys: "fst ` set (fold insert_goal goals nodes) = gn_id ` set goals \<union> fst ` set nodes"
  by (induction goals arbitrary: nodes) (auto simp: insert_goal_def dom_update)

lemma add_dependent_distinct: "distinct (map fst nodes) \<Longrightarrow> distinct (map fst (add_dependent e nodes))"
  by (auto simp: add_dependent_def AList.distinct_update split: option.splits prod.splits)

lemma add_dependent_keys: "fst ` set (add_dependent e nodes) = fst ` set nodes"
proof -
  obtain d i where e: "e = (d, i)" by (cases e)
  show ?thesis
  proof (cases "map_of nodes d")
    case (Some n)
    then show ?thesis using map_of_key [OF Some] by (auto simp: e add_dependent_def dom_update)
  qed (simp add: e add_dependent_def)
qed

lemma add_dependent_deps: "deps_of (add_dependent e nodes) g = deps_of nodes g"
  by (auto simp: add_dependent_def deps_of_def AList.update_conv split: option.splits prod.splits)

lemma add_dependents:
  shows "distinct (map fst nodes) \<Longrightarrow> distinct (map fst (fold add_dependent es nodes))"
    and "fst ` set (fold add_dependent es nodes) = fst ` set nodes"
    and "deps_of (fold add_dependent es nodes) g = deps_of nodes g"
  by (induction es arbitrary: nodes)
    (simp_all add: add_dependent_distinct add_dependent_keys add_dependent_deps)

lemma dag_build_distinct: "distinct (map fst (dag_build visit goals))"
  by (simp add: dag_build_def Let_def add_dependents(1) insert_goals_distinct)

lemma dag_build_keys: "fst ` set (dag_build visit goals) = gn_id ` set goals"
  by (simp add: dag_build_def Let_def add_dependents(2) insert_goals_keys)

section \<open>Levels\<close>

text \<open>Goals of a level depend on earlier levels only, and no goal could have come earlier.\<close>

fun layered :: "GoalDag \<Rightarrow> string list \<Rightarrow> string list list \<Rightarrow> bool" where
  "layered dag c [] = True"
| "layered dag c (l # ls) \<longleftrightarrow> (\<forall>g \<in> set l. goal_ready dag c g) \<and> (\<forall>g \<in> set (concat ls). \<not> goal_ready dag c g)
     \<and> layered dag (c @ l) ls"

definition depends :: "GoalDag \<Rightarrow> (string \<times> string) set" where
  "depends dag = {(d, g). d \<in> set (deps_of dag g)}"

definition schedulable :: "GoalDag \<Rightarrow> bool" where
  "schedulable dag \<longleftrightarrow> (\<forall>g. set (deps_of dag g) \<subseteq> fst ` set dag) \<and> acyclic (depends dag)"

lemma ready_iff: "goal_ready dag c g \<longleftrightarrow> g \<in> fst ` set dag \<and> set (deps_of dag g) \<subseteq> set c"
proof (cases "map_of dag g")
  case None
  then have "g \<notin> fst ` set dag" by (simp add: map_of_eq_None_iff)
  with None show ?thesis by (simp add: goal_ready_def)
qed (auto simp: goal_ready_def deps_of_def list_all_iff intro: map_of_key)

lemma schedulable_ready:
  assumes "schedulable dag" "R \<noteq> {}" "R \<subseteq> fst ` set dag" "fst ` set dag - R \<subseteq> set c"
  shows "\<exists>g \<in> R. goal_ready dag c g"
proof -
  have "depends dag \<subseteq> fst ` set dag \<times> fst ` set dag"
  proof
    fix p assume p: "p \<in> depends dag"
    obtain d g where "p = (d, g)" "d \<in> set (deps_of dag g)" using p by (auto simp: depends_def)
    with deps_of_key [of d dag g] show "p \<in> fst ` set dag \<times> fst ` set dag" using assms(1) by (auto simp: schedulable_def)
  qed
  then have "finite (depends dag)" by (rule finite_subset) simp
  with assms(1) have "wf (depends dag)" by (simp add: schedulable_def finite_acyclic_wf)
  with assms(2) obtain g where g: "g \<in> R" "\<And>d. (d, g) \<in> depends dag \<Longrightarrow> d \<notin> R"
    by (metis ex_in_conv wfE_min)
  have "set (deps_of dag g) \<subseteq> set c" using g(2) assms(1,4) by (fastforce simp: depends_def schedulable_def)
  with g(1) assms(3) show ?thesis by (auto simp: ready_iff)
qed

lemma next_level_facts:
  assumes "mset (visit remaining) = mset remaining" "remaining \<noteq> []" "distinct remaining"
  shows "next_level visit dag remaining c \<noteq> []" "distinct (next_level visit dag remaining c)"
    "set (next_level visit dag remaining c) \<subseteq> set remaining"
proof -
  have v: "set (visit remaining) = set remaining" "distinct (visit remaining)" "visit remaining \<noteq> []"
    using assms by (metis mset_eq_setD, metis mset_eq_imp_distinct_iff, metis mset_zero_iff)
  have t: "set (take 1 (visit remaining)) \<subseteq> set remaining" using v(1) set_take_subset by fastforce
  show "next_level visit dag remaining c \<noteq> []" using v(3) by (simp add: next_level_def Let_def)
  show "distinct (next_level visit dag remaining c)" using v(2) by (simp add: next_level_def Let_def)
  show "set (next_level visit dag remaining c) \<subseteq> set remaining" using v(1) t by (auto simp: next_level_def Let_def)
qed

lemma next_level_ready:
  assumes "mset (visit remaining) = mset remaining" "schedulable dag" "remaining \<noteq> []" "set remaining \<subseteq> fst ` set dag"
    "fst ` set dag - set remaining \<subseteq> set c"
  shows "set (next_level visit dag remaining c) = {g \<in> set remaining. goal_ready dag c g}"
proof -
  have v: "set (visit remaining) = set remaining" using assms(1) by (metis mset_eq_setD)
  have "\<exists>g \<in> set remaining. goal_ready dag c g" using schedulable_ready [OF assms(2) _ assms(4,5)] assms(3) by auto
  then have "filter (goal_ready dag c) (visit remaining) \<noteq> []" using v by (auto simp: filter_empty_conv)
  then show ?thesis using v by (auto simp: next_level_def Let_def)
qed

lemma levels_loop_returns:
  assumes visit: "\<And>xs. mset (visit xs) = mset xs"
  shows "distinct remaining \<Longrightarrow> \<exists>ls. levels_loop visit dag remaining c = Some ls \<and> distinct (concat ls)
    \<and> set (concat ls) = set remaining \<and> [] \<notin> set ls
    \<and> (schedulable dag \<longrightarrow> set remaining \<subseteq> fst ` set dag \<longrightarrow> fst ` set dag - set remaining \<subseteq> set c \<longrightarrow> layered dag c ls)"
proof (induction "length remaining" arbitrary: remaining c rule: less_induct)
  case less
  show ?case
  proof (cases "remaining = []")
    case False
    let ?l = "next_level visit dag remaining c"
    let ?r = "filter (\<lambda>i. i \<notin> set ?l) remaining"
    note l = next_level_facts [where visit = visit and dag = dag and c = c, OF visit False less.prems]
    obtain g where "g \<in> set ?l" using l(1) by (meson ex_in_conv set_empty)
    then have "length ?r < length remaining" using l(3) by (intro length_filter_less [of g]) auto
    from less.hyps [OF this distinct_filter [OF less.prems], of "c @ ?l"] obtain ls where
      ls: "levels_loop visit dag ?r (c @ ?l) = Some ls" "distinct (concat ls)" "set (concat ls) = set ?r" "[] \<notin> set ls"
      "schedulable dag \<Longrightarrow> set ?r \<subseteq> fst ` set dag \<Longrightarrow> fst ` set dag - set ?r \<subseteq> set (c @ ?l) \<Longrightarrow> layered dag (c @ ?l) ls"
      by blast
    have "levels_loop visit dag remaining c = Some (?l # ls)"
      using False ls(1) by (subst levels_loop.simps) (simp add: Let_def)
    moreover have "distinct (concat (?l # ls))" using l(2) ls(2,3) by auto
    moreover have "set (concat (?l # ls)) = set remaining" using l(3) ls(3) by auto
    moreover have "[] \<notin> set (?l # ls)" using l(1) ls(4) by simp
    moreover have "layered dag c (?l # ls)" if "schedulable dag" "set remaining \<subseteq> fst ` set dag"
      "fst ` set dag - set remaining \<subseteq> set c"
    proof -
      note eq = next_level_ready [where visit = visit, OF visit that(1) False that(2,3)]
      have "layered dag (c @ ?l) ls" using that by (intro ls(5)) auto
      with eq ls(3) show ?thesis by auto
    qed
    ultimately show ?thesis by blast
  qed (simp add: levels_loop.simps)
qed

lemma layered_nth:
  "layered dag c ls \<Longrightarrow> i < length ls \<Longrightarrow> g \<in> set (ls ! i) \<Longrightarrow> goal_ready dag (c @ concat (take i ls)) g"
  by (induction ls arbitrary: c i) (auto simp: nth_Cons split: nat.splits, fastforce)

lemma layered_not_earlier:
  "layered dag c ls \<Longrightarrow> Suc i < length ls \<Longrightarrow> g \<in> set (ls ! Suc i) \<Longrightarrow> \<not> goal_ready dag (c @ concat (take i ls)) g"
proof (induction ls arbitrary: c i)
  case (Cons l ls)
  show ?case
  proof (cases i)
    case 0
    then have "ls ! 0 \<in> set ls" using Cons.prems(2) by simp
    with 0 Cons.prems show ?thesis by auto
  next
    case (Suc j)
    with Cons.prems Cons.IH [of "c @ l" j] show ?thesis by simp
  qed
qed simp

lemma in_concat_take: "d \<in> set (concat (take i ls)) \<longleftrightarrow> (\<exists>j < i. j < length ls \<and> d \<in> set (ls ! j))"
  by (auto simp: in_set_conv_nth) (metis nth_take length_take min_less_iff_conj in_set_conv_nth nth_mem)+

text \<open>Levels in which dependencies come first.\<close>

definition ordered_levels :: "GoalDag \<Rightarrow> string list list \<Rightarrow> bool" where
  "ordered_levels dag ls \<longleftrightarrow>
     (\<forall>i < length ls. \<forall>g \<in> set (ls ! i). \<forall>d \<in> set (deps_of dag g). \<exists>j < i. d \<in> set (ls ! j))"

lemma layered_ordered: "layered dag [] ls \<Longrightarrow> ordered_levels dag ls"
  unfolding ordered_levels_def
  by (metis append_Nil in_concat_take layered_nth ready_iff subsetD)

lemma layered_tight:
  assumes "layered dag [] ls" "Suc i < length ls" "g \<in> set (ls ! Suc i)"
  shows "\<exists>d \<in> set (deps_of dag g). d \<in> set (ls ! i)"
proof -
  have r: "goal_ready dag (concat (take (Suc i) ls)) g" using layered_nth [OF assms] by simp
  have n: "\<not> goal_ready dag (concat (take i ls)) g" using layered_not_earlier [OF assms] by simp
  from r n obtain d where d: "d \<in> set (deps_of dag g)" "d \<notin> set (concat (take i ls))" "d \<in> set (concat (take (Suc i) ls))"
    unfolding ready_iff by blast
  then have "d \<in> set (ls ! i)" unfolding in_concat_take by (metis less_Suc_eq)
  with d(1) show ?thesis by blast
qed

lemma ordered_schedulable:
  assumes "ordered_levels dag ls" "set (concat ls) = fst ` set dag"
  shows "schedulable dag"
proof -
  define lvl where "lvl g = (LEAST i. i < length ls \<and> g \<in> set (ls ! i))" for g
  have at: "lvl g < length ls \<and> g \<in> set (ls ! lvl g)" if "g \<in> fst ` set dag" for g
  proof -
    have "\<exists>i. i < length ls \<and> g \<in> set (ls ! i)"
      using assms(2) that by (metis in_concat_take order_refl take_all)
    then show ?thesis unfolding lvl_def by (rule LeastI_ex)
  qed
  have earlier: "d \<in> fst ` set dag \<and> lvl d < lvl g" if d: "d \<in> set (deps_of dag g)" for d g
  proof -
    have g: "lvl g < length ls" "g \<in> set (ls ! lvl g)" using at [OF deps_of_key [OF d]] by auto
    then obtain j where j: "j < lvl g" "d \<in> set (ls ! j)" using assms(1) d unfolding ordered_levels_def by blast
    have "lvl d \<le> j" unfolding lvl_def using j g(1) by (intro Least_le) simp
    moreover have "d \<in> set (concat ls)" using j g(1) by (auto intro!: bexI [of _ "ls ! j"])
    ultimately show ?thesis using j(1) unfolding assms(2) by simp
  qed
  then have "depends dag \<subseteq> measure lvl" by (auto simp: depends_def)
  then have "acyclic (depends dag)" by (meson wf_acyclic wf_measure wf_subset)
  with earlier show ?thesis by (auto simp: schedulable_def)
qed

text \<open>C35: The execution levels of a goal graph are a topological layering. Whatever order the hash tables are
  visited in, the computation ends; the levels list every goal exactly once and none is empty. Every
  dependency of a goal lies in an earlier level exactly when the dependencies are known goals and form no
  cycle; then no goal could have been placed earlier: one in a later level depends on one of the level
  just before.\<close>

theorem levels_topological:
  assumes "\<And>xs. mset (visit xs) = mset xs" and dag_def: "dag = dag_build hv goals"
  shows "\<exists>ls. execution_levels visit dag = Some ls
    \<and> distinct (concat ls) \<and> set (concat ls) = gn_id ` set goals \<and> [] \<notin> set ls
    \<and> (ordered_levels dag ls
         \<longleftrightarrow> (\<forall>g. set (deps_of dag g) \<subseteq> gn_id ` set goals) \<and> acyclic {(d, g). d \<in> set (deps_of dag g)})
    \<and> (ordered_levels dag ls \<longrightarrow> (\<forall>i. Suc i < length ls \<longrightarrow>
         (\<forall>g \<in> set (ls ! Suc i). \<exists>d \<in> set (deps_of dag g). d \<in> set (ls ! i))))"
proof -
  have keys: "distinct (map fst dag)" "fst ` set dag = gn_id ` set goals"
    by (simp_all add: dag_def dag_build_distinct dag_build_keys)
  obtain ls where ls: "execution_levels visit dag = Some ls" "distinct (concat ls)" "set (concat ls) = gn_id ` set goals"
    "[] \<notin> set ls" "schedulable dag \<longrightarrow> layered dag [] ls"
    using levels_loop_returns [OF assms(1) keys(1), of dag "[]"] by (auto simp: execution_levels_def keys(2))
  have eq: "ordered_levels dag ls \<longleftrightarrow> schedulable dag"
    using ls(3,5) ordered_schedulable layered_ordered keys(2) by metis
  have "\<forall>i. Suc i < length ls \<longrightarrow> (\<forall>g \<in> set (ls ! Suc i). \<exists>d \<in> set (deps_of dag g). d \<in> set (ls ! i))"
    if "ordered_levels dag ls"
    using that eq ls(5) layered_tight by blast
  with ls eq show ?thesis unfolding schedulable_def depends_def keys(2) by blast
qed

definition demo_goals :: "GoalNode list" where
  "demo_goals = map (\<lambda>(i, ds). \<lparr>gn_id = i, gn_description = i, dependencies = ds, dependents = []\<rparr>)
     [(''c'', [''a'']), (''a'', []), (''d'', [''b'', ''c'']), (''b'', [''a''])]"

definition demo_dag :: GoalDag where
  "demo_dag = dag_build id demo_goals"

lemma demo_dag_levels: "execution_levels id demo_dag = Some [[''a''], [''c'', ''b''], [''d'']]"
  by (simp add: execution_levels_def demo_dag_def demo_goals_def dag_build_def insert_goal_def dependent_edges_def
    add_dependent_def levels_loop.simps next_level_def goal_ready_def)

lemma demo_dag_deps:
  "deps_of demo_dag g = (if g = ''c'' \<or> g = ''b'' then [''a''] else if g = ''d'' then [''b'', ''c''] else [])"
  by (simp add: deps_of_def demo_dag_def demo_goals_def dag_build_def insert_goal_def dependent_edges_def
    add_dependent_def)

lemma demo_dag_ordered: "ordered_levels demo_dag [[''a''], [''c'', ''b''], [''d'']]"
  by (simp add: ordered_levels_def demo_dag_deps less_Suc_eq nth_Cons' numeral_eq_Suc ex_disj_distrib conj_disj_distribL conj_disj_distribR
    all_conj_distrib imp_disjL)

theorem levels_topological_witness:
  "execution_levels id demo_dag = Some [[''a''], [''c'', ''b''], [''d'']]
    \<and> acyclic {(d, g). d \<in> set (deps_of demo_dag g)}"
  using levels_topological [where visit = id and dag = demo_dag and hv = id and goals = demo_goals]
    demo_dag_levels demo_dag_ordered by (auto simp: demo_dag_def)

section \<open>Runs of the executor\<close>




lemma mset_remove1_add: "g \<in> set xs \<Longrightarrow> add_mset g (mset (remove1 g xs)) = mset xs"
  by simp

























text \<open>The permits do not bound the tasks that run at the same time: with one permit two tasks run.\<close>

lemma permits_do_not_bound:
  "\<exists>s. (pstep \<lparr>max_concurrent = 1, auto_parallelize = True, goal_timeout_secs = 300\<rparr> outcome)\<^sup>*\<^sup>*
         (exec_start [[''a'', ''b'']]) s \<and> length (running s) = 2"
proof -
  let ?c = "\<lparr>max_concurrent = 1, auto_parallelize = True, goal_timeout_secs = 300\<rparr>"
  let ?s0 = "exec_start [[''a'', ''b'']]"
  let ?s1 = "?s0\<lparr>levels_left := [], level := [''a'', ''b''], to_spawn := [''a'', ''b''], collected := 0\<rparr>"
  let ?s2 = "?s1\<lparr>to_spawn := [''b''], running := [''a'']\<rparr>"
  let ?s3 = "?s2\<lparr>to_spawn := [], running := [''a'', ''b'']\<rparr>"
  have "pstep ?c outcome ?s0 ?s1" by (rule pstep.next_goals) (simp_all add: exec_start_def)
  moreover have "pstep ?c outcome ?s1 ?s2"
    using pstep.spawn [of ?s1 "''a''" "[''b'']" ?c outcome] by (simp add: exec_start_def)
  moreover have "pstep ?c outcome ?s2 ?s3"
    using pstep.spawn [of ?s2 "''b''" "[]" ?c outcome] by (simp add: exec_start_def)
  ultimately have "(pstep ?c outcome)\<^sup>*\<^sup>* ?s0 ?s3" by (meson converse_rtranclp_into_rtranclp rtranclp.rtrancl_refl)
  moreover have "length (running ?s3) = 2" by simp
  ultimately show ?thesis by blast
qed

end
