(* ===== verification/Goal_Queue.thy ===== *)
theory Goal_Queue
  imports Binary64 Prelude
begin

text \<open>
  The priority queue of goals (\<open>soul-agent-core/src/prioritization.rs\<close>): the score of a goal, the heap of
  scores, preemption. Time is a number of nanoseconds. Every floating-point operation is the real
  operation followed by a rounding \<open>rnd\<close>; values are finite, \<open>None\<close> is not-a-number. The heap is the list
  of its entries; which of several entries with the greatest score it gives first is a parameter. The
  product of a score's bits and 3 wraps, as it does in a release build.
\<close>

section \<open>Ordering of scores\<close>

fun f64_to_ord_bits :: "real option \<Rightarrow> u64" where
  "f64_to_ord_bits None = 0"
| "f64_to_ord_bits (Some v) = to_bits v"

section \<open>Goals\<close>

datatype GoalPriority = Critical | High | Normal | Low

datatype PriorityGoalStatus = Pending | Running | Preempted | Completed | Failed | Blocked

record PriorityGoal =
  pg_id :: string
  pg_description :: string
  pg_priority :: GoalPriority
  pg_effective_score :: real
  created_at :: nat
  deadline :: "nat option"
  pg_dependencies :: "string list"
  pg_status :: PriorityGoalStatus

record PrioritizationConfig =
  critical_weight :: real
  high_weight :: real
  normal_weight :: real
  low_weight :: real
  aging_factor :: real
  deadline_factor :: real
  max_effective_score :: real
  enable_preemption :: bool

definition default_prioritization :: "(real \<Rightarrow> real) \<Rightarrow> PrioritizationConfig" where
  "default_prioritization rnd = \<lparr>critical_weight = 100, high_weight = 50, normal_weight = 20, low_weight = 5,
     aging_factor = rnd (1 / 10), deadline_factor = 2, max_effective_score = 200, enable_preemption = True\<rparr>"

record GoalHeapEntry =
  he_score :: u64
  he_goal_id :: string

record GoalPriorityQueue =
  gq_config :: PrioritizationConfig
  heap :: "GoalHeapEntry list"
  gq_running :: "PriorityGoal option"
  preempted :: "PriorityGoal list"

definition goal_queue_new :: "PrioritizationConfig \<Rightarrow> GoalPriorityQueue" where
  "goal_queue_new cfg = \<lparr>gq_config = cfg, heap = [], gq_running = None, preempted = []\<rparr>"

section \<open>Scores\<close>

definition whole_secs :: "(real \<Rightarrow> real) \<Rightarrow> nat \<Rightarrow> real" where
  "whole_secs rnd d = rnd (real (d div 10 ^ 9))"

definition base_weight :: "PrioritizationConfig \<Rightarrow> GoalPriority \<Rightarrow> real" where
  "base_weight cfg p = (case p of Critical \<Rightarrow> critical_weight cfg | High \<Rightarrow> high_weight cfg
     | Normal \<Rightarrow> normal_weight cfg | Low \<Rightarrow> low_weight cfg)"

definition deadline_bonus :: "(real \<Rightarrow> real) \<Rightarrow> PrioritizationConfig \<Rightarrow> nat \<Rightarrow> nat option \<Rightarrow> real" where
  "deadline_bonus rnd cfg now dl = (case dl of
     None \<Rightarrow> 0
   | Some t \<Rightarrow> let remaining = t - now in
       if remaining = 0 then max_effective_score cfg
       else rnd (deadline_factor cfg * rnd (3600 / max (whole_secs rnd remaining) 1)))"

definition calculate_score :: "(real \<Rightarrow> real) \<Rightarrow> PrioritizationConfig \<Rightarrow> nat \<Rightarrow> PriorityGoal \<Rightarrow> real" where
  "calculate_score rnd cfg now g =
     (let age_secs = whole_secs rnd (now - created_at g);
          aging_bonus = rnd (age_secs * aging_factor cfg)
      in min (rnd (rnd (base_weight cfg (pg_priority g) + aging_bonus) + deadline_bonus rnd cfg now (deadline g)))
           (max_effective_score cfg))"

section \<open>Operations\<close>

definition queue_push :: "(real \<Rightarrow> real) \<Rightarrow> nat \<Rightarrow> PriorityGoal \<Rightarrow> GoalPriorityQueue \<Rightarrow> GoalPriorityQueue" where
  "queue_push rnd now g q =
     q\<lparr>heap := heap q @ [\<lparr>he_score = f64_to_ord_bits (Some (calculate_score rnd (gq_config q) now g)),
                          he_goal_id = pg_id g\<rparr>]\<rparr>"

definition heap_peek :: "GoalHeapEntry list \<Rightarrow> u64 option" where
  "heap_peek es = (if es = [] then None else Some (Max (he_score ` set es)))"

definition should_preempt :: "(real \<Rightarrow> real) \<Rightarrow> nat \<Rightarrow> GoalPriorityQueue \<Rightarrow> bool" where
  "should_preempt rnd now q =
     (if \<not> enable_preemption (gq_config q) then False
      else case gq_running q of
        None \<Rightarrow> False
      | Some running \<Rightarrow> (case heap_peek (heap q) of
          None \<Rightarrow> False
        | Some peek \<Rightarrow>
            let critical_bits = f64_to_ord_bits (Some (critical_weight (gq_config q)))
            in if peek \<ge> critical_bits \<and> pg_priority running \<noteq> Critical then True
               else let running_score = f64_to_ord_bits (Some (calculate_score rnd (gq_config q) now running))
                    in peek > running_score * 3 div 2))"

definition heap_pop :: "(GoalHeapEntry list \<Rightarrow> GoalHeapEntry) \<Rightarrow> GoalHeapEntry list \<Rightarrow> GoalHeapEntry list option" where
  "heap_pop first es = (if es = [] then None else Some (remove1 (first es) es))"

definition placeholder_goal :: "nat \<Rightarrow> PriorityGoal" where
  "placeholder_goal now = \<lparr>pg_id = [], pg_description = [], pg_priority = Normal, pg_effective_score = 0,
     created_at = now, deadline = None, pg_dependencies = [], pg_status = Pending\<rparr>"

definition queue_pop :: "(GoalHeapEntry list \<Rightarrow> GoalHeapEntry) \<Rightarrow> nat \<Rightarrow> GoalPriorityQueue
    \<Rightarrow> PriorityGoal option \<times> GoalPriorityQueue" where
  "queue_pop first now q =
     (if preempted q \<noteq> [] then (Some (last (preempted q)), q\<lparr>preempted := butlast (preempted q)\<rparr>)
      else case heap_pop first (heap q) of
        None \<Rightarrow> (None, q)
      | Some es \<Rightarrow> (Some (placeholder_goal now), q\<lparr>heap := es\<rparr>))"

definition preempt_running :: "GoalPriorityQueue \<Rightarrow> PriorityGoal option \<times> GoalPriorityQueue" where
  "preempt_running q = (case gq_running q of
     None \<Rightarrow> (None, q)
   | Some g \<Rightarrow> let g = g\<lparr>pg_status := Preempted\<rparr>
              in (Some g, q\<lparr>gq_running := None, preempted := preempted q @ [g]\<rparr>))"

definition set_running :: "PriorityGoal \<Rightarrow> GoalPriorityQueue \<Rightarrow> GoalPriorityQueue" where
  "set_running g q = q\<lparr>gq_running := Some g\<rparr>"

definition dependencies_satisfied :: "PriorityGoal \<Rightarrow> string list \<Rightarrow> bool" where
  "dependencies_satisfied g completed \<longleftrightarrow>
     (if pg_dependencies g = [] then True else list_all (\<lambda>d. d \<in> set completed) (pg_dependencies g))"

definition queue_pending_count :: "GoalPriorityQueue \<Rightarrow> nat" where
  "queue_pending_count q = length (heap q) + length (preempted q)"

definition queue_is_empty :: "GoalPriorityQueue \<Rightarrow> bool" where
  "queue_is_empty q \<longleftrightarrow> heap q = [] \<and> preempted q = []"

definition refresh_scores :: "(real \<Rightarrow> real) \<Rightarrow> nat \<Rightarrow> PriorityGoal list \<Rightarrow> GoalPriorityQueue \<Rightarrow> GoalPriorityQueue" where
  "refresh_scores rnd now goals q =
     q\<lparr>heap := List.map_filter (\<lambda>e. map_option
         (\<lambda>g. \<lparr>he_score = f64_to_ord_bits (Some (calculate_score rnd (gq_config q) now g)), he_goal_id = he_goal_id e\<rparr>)
         (find (\<lambda>g. pg_id g = he_goal_id e) goals)) (heap q)\<rparr>"

section \<open>When the running goal is preempted\<close>

lemma log_floor: "1 \<le> x \<Longrightarrow> 2 ^ e \<le> x \<Longrightarrow> x < 2 ^ Suc e \<Longrightarrow> \<lfloor>log 2 x\<rfloor> = int e"
  by (rule floor_unique) (simp_all add: le_log_iff log_less_iff powr_realpow powr_add)

lemma magnitude_5: "f64_magnitude 5 = 1025 * 2 ^ 52 + 2 ^ 50"
  and magnitude_100: "f64_magnitude 100 = 1029 * 2 ^ 52 + 9 * 2 ^ 48"
  and magnitude_200: "f64_magnitude 200 = 1030 * 2 ^ 52 + 9 * 2 ^ 48"
  and fraction_100: "f64_fraction 100 = of_int (9 * 2 ^ 48)"
proof -
  have e: "\<lfloor>log 2 5\<rfloor> = int 2" "\<lfloor>log 2 100\<rfloor> = int 6" "\<lfloor>log 2 200\<rfloor> = int 7" by (rule log_floor; simp)+
  show f: "f64_fraction 100 = of_int (9 * 2 ^ 48)" by (simp add: f64_fraction_def e)
  have "int (f64_magnitude 5) = 1025 * 2 ^ 52 + 2 ^ 50" "int (f64_magnitude 100) = 1029 * 2 ^ 52 + 9 * 2 ^ 48"
    "int (f64_magnitude 200) = 1030 * 2 ^ 52 + 9 * 2 ^ 48"
    by (simp_all add: magnitude_normal e f64_fraction_def)
  then show "f64_magnitude 5 = 1025 * 2 ^ 52 + 2 ^ 50" "f64_magnitude 100 = 1029 * 2 ^ 52 + 9 * 2 ^ 48"
    "f64_magnitude 200 = 1030 * 2 ^ 52 + 9 * 2 ^ 48"
    by (simp_all only: of_nat_eq_iff [where 'a = int, symmetric] of_nat_add of_nat_mult of_nat_power of_nat_numeral)
qed

lemma bits_unat:
  assumes "1 \<le> x" "x \<le> 200"
  shows "unat (to_bits x) = f64_magnitude x"
proof -
  have "f64_magnitude x \<le> f64_magnitude 200" using assms by (intro magnitude_mono)
  then have "f64_magnitude x < 2 ^ 64" unfolding magnitude_200 by simp
  then show ?thesis using assms(1) by (simp add: to_bits_def unat_of_nat take_bit_nat_eq_self)
qed

text \<open>The scores the default weights give.\<close>

definition score_range :: "real \<Rightarrow> bool" where
  "score_range v \<longleftrightarrow> 5 \<le> v \<and> v \<le> 200"

lemma calculate_score_ge:
  assumes "rounds rnd" "real n \<le> base_weight (default_prioritization rnd) (pg_priority g)" "n \<le> 200"
  shows "real n \<le> calculate_score rnd (default_prioritization rnd) now g"
proof -
  let ?cfg = "default_prioritization rnd"
  have a: "0 \<le> rnd (whole_secs rnd (now - created_at g) * aging_factor ?cfg)"
    using rounds_nonneg [OF assms(1)]
    by (intro rounds_nonneg [OF assms(1)] mult_nonneg_nonneg) (simp_all add: whole_secs_def default_prioritization_def)
  have d: "0 \<le> deadline_bonus rnd ?cfg now (deadline g)"
    by (auto simp: deadline_bonus_def default_prioritization_def Let_def split: option.splits intro!: rounds_nonneg [OF assms(1)])
  have n: "n \<le> 2 ^ 53" using assms(3) by simp
  have "real n \<le> rnd (base_weight ?cfg (pg_priority g) + rnd (whole_secs rnd (now - created_at g) * aging_factor ?cfg))"
    using a assms(2) by (intro rounds_ge_nat [OF assms(1) _ n]) simp
  then have "real n \<le> rnd (rnd (base_weight ?cfg (pg_priority g)
      + rnd (whole_secs rnd (now - created_at g) * aging_factor ?cfg)) + deadline_bonus rnd ?cfg now (deadline g))"
    using d by (intro rounds_ge_nat [OF assms(1) _ n]) simp
  then show ?thesis using assms(3) by (simp add: calculate_score_def Let_def default_prioritization_def)
qed

lemma calculate_score_range:
  assumes "rounds rnd"
  shows "score_range (calculate_score rnd (default_prioritization rnd) now g)"
proof -
  have "real 5 \<le> base_weight (default_prioritization rnd) (pg_priority g)"
    by (cases "pg_priority g") (simp_all add: base_weight_def default_prioritization_def)
  from calculate_score_ge [OF assms this, of now] show ?thesis
    by (simp add: score_range_def calculate_score_def Let_def default_prioritization_def)
qed

lemma critical_score:
  "rounds rnd \<Longrightarrow> pg_priority g = Critical \<Longrightarrow> 100 \<le> calculate_score rnd (default_prioritization rnd) now g"
  using calculate_score_ge [of rnd 100 g now] by (simp add: base_weight_def default_prioritization_def)

lemma bits_ge_100:
  assumes "score_range v"
  shows "to_bits 100 \<le> to_bits v \<longleftrightarrow> 100 \<le> v"
proof -
  have "f64_magnitude v < f64_magnitude 100" if "v < 100"
    using that assms magnitude_less [OF _ _ fraction_100] by (simp add: score_range_def)
  moreover have "f64_magnitude 100 \<le> f64_magnitude v" if "100 \<le> v" using that by (intro magnitude_mono) simp_all
  moreover have "unat (to_bits v) = f64_magnitude v" "unat (to_bits 100) = f64_magnitude 100"
    using assms by (auto intro!: bits_unat simp: score_range_def)
  ultimately show ?thesis unfolding word_le_nat_alt by (metis leD not_le)
qed

text \<open>One and a half times the bits of a score exceed the bits of every score.\<close>

lemma ratio_rule_dead:
  assumes "score_range v" "score_range w"
  shows "\<not> to_bits v > to_bits w * 3 div 2"
proof -
  have v: "unat (to_bits v) \<le> 1030 * 2 ^ 52 + 9 * 2 ^ 48"
    using assms(1) magnitude_mono [of v 200] unfolding magnitude_200 [symmetric] by (simp add: bits_unat score_range_def)
  have w: "1025 * 2 ^ 52 + 2 ^ 50 \<le> unat (to_bits w)" "unat (to_bits w) \<le> 1030 * 2 ^ 52 + 9 * 2 ^ 48"
    using assms(2) magnitude_mono [of w 200] magnitude_mono [of 5 w]
    unfolding magnitude_200 [symmetric] magnitude_5 [symmetric] by (simp_all add: bits_unat score_range_def)
  have "unat (to_bits w * 3) = unat (to_bits w) * 3"
    by (subst unat_mult_lem [THEN iffD1]) (use w(2) in simp_all)
  then have "unat (to_bits w * 3 div 2) = unat (to_bits w) * 3 div 2" by (simp add: unat_div)
  moreover have "1030 * 2 ^ 52 + 9 * 2 ^ 48 \<le> unat (to_bits w) * 3 div 2" using w(1) by simp
  ultimately show ?thesis using v unfolding word_less_nat_alt by simp
qed

text \<open>The queues that arise from an empty one with the default configuration.\<close>

inductive queue_reach :: "(real \<Rightarrow> real) \<Rightarrow> (GoalHeapEntry list \<Rightarrow> GoalHeapEntry) \<Rightarrow> GoalPriorityQueue \<Rightarrow> bool" for rnd first where
  reach_new: "queue_reach rnd first (goal_queue_new (default_prioritization rnd))"
| reach_push: "queue_reach rnd first q \<Longrightarrow> queue_reach rnd first (queue_push rnd now g q)"
| reach_pop: "queue_reach rnd first q \<Longrightarrow> queue_reach rnd first (snd (queue_pop first now q))"
| reach_preempt: "queue_reach rnd first q \<Longrightarrow> queue_reach rnd first (snd (preempt_running q))"
| reach_run: "queue_reach rnd first q \<Longrightarrow> queue_reach rnd first (set_running g q)"
| reach_refresh: "queue_reach rnd first q \<Longrightarrow> queue_reach rnd first (refresh_scores rnd now goals q)"

definition queue_ok :: "(real \<Rightarrow> real) \<Rightarrow> GoalPriorityQueue \<Rightarrow> bool" where
  "queue_ok rnd q \<longleftrightarrow> gq_config q = default_prioritization rnd
     \<and> (\<forall>e \<in> set (heap q). \<exists>v. score_range v \<and> he_score e = to_bits v)"

lemma reach_ok:
  assumes "queue_reach rnd first q" "rounds rnd"
  shows "queue_ok rnd q"
  using assms(1)
proof induction
  case reach_new
  then show ?case by (simp add: queue_ok_def goal_queue_new_def)
next
  case (reach_push q now g)
  then show ?case using calculate_score_range [OF assms(2), of now g] by (auto simp: queue_ok_def queue_push_def)
next
  case (reach_pop q now)
  moreover have "set (remove1 (first (heap q)) (heap q)) \<subseteq> set (heap q)" by (rule set_remove1_subset)
  ultimately show ?case by (auto simp: queue_ok_def queue_pop_def heap_pop_def)
next
  case (reach_preempt q)
  then show ?case by (auto simp: queue_ok_def preempt_running_def Let_def split: option.splits)
next
  case (reach_run q g)
  then show ?case by (simp add: queue_ok_def set_running_def)
next
  case (reach_refresh q now goals)
  then show ?case using calculate_score_range [OF assms(2)]
    by (auto simp: queue_ok_def refresh_scores_def map_filter_def) blast
qed

lemma peek_range:
  assumes "queue_ok rnd q" "heap_peek (heap q) = Some peek"
  shows "\<exists>v. score_range v \<and> peek = to_bits v" "\<And>x. x \<le> peek \<longleftrightarrow> (\<exists>e \<in> set (heap q). x \<le> he_score e)"
proof -
  have p: "heap q \<noteq> []" "peek = Max (he_score ` set (heap q))" using assms(2) by (auto simp: heap_peek_def split: if_splits)
  then have "peek \<in> he_score ` set (heap q)" by (metis List.finite_set Max_in finite_imageI image_is_empty set_empty)
  then show "\<exists>v. score_range v \<and> peek = to_bits v" using assms(1) by (auto simp: queue_ok_def)
  show "x \<le> peek \<longleftrightarrow> (\<exists>e \<in> set (heap q). x \<le> he_score e)" for x
    unfolding p(2) using p(1) by (subst Max_ge_iff) auto
qed

text \<open>When the queue asks for the running goal to be preempted, under the default configuration: exactly when
  that goal is not critical and some queued entry has a score of at least 100, whatever its priority, since age
  and deadlines count too. The second rule of the code, a score one and a half times that of the running goal,
  never applies, because it multiplies the bits of a floating-point number. A critical goal that is pushed
  preempts every goal that is not critical.\<close>

theorem preemption_rule:
  assumes "rounds rnd" "queue_reach rnd first q"
  shows "(should_preempt rnd now q \<longleftrightarrow> (\<exists>r. gq_running q = Some r \<and> pg_priority r \<noteq> Critical
           \<and> (\<exists>e \<in> set (heap q). \<exists>v. he_score e = to_bits v \<and> score_range v \<and> 100 \<le> v)))
    \<and> (\<forall>r g t. gq_running q = Some r \<longrightarrow> pg_priority r \<noteq> Critical \<longrightarrow> pg_priority g = Critical \<longrightarrow>
           should_preempt rnd now (queue_push rnd t g q))"
proof -
  have rule: "should_preempt rnd now q \<longleftrightarrow> (\<exists>r. gq_running q = Some r \<and> pg_priority r \<noteq> Critical
      \<and> (\<exists>e \<in> set (heap q). \<exists>v. he_score e = to_bits v \<and> score_range v \<and> 100 \<le> v))"
    if ok: "queue_ok rnd q" for q
  proof (cases "heap_peek (heap q)")
    case None
    then show ?thesis by (auto simp: should_preempt_def heap_peek_def split: option.splits if_splits)
  next
    case (Some peek)
    obtain v where v: "score_range v" "peek = to_bits v" using peek_range(1) [OF ok Some] by blast
    have dead: "\<not> peek > to_bits (calculate_score rnd (default_prioritization rnd) now r) * 3 div 2" for r
      using ratio_rule_dead [OF v(1) calculate_score_range [OF assms(1)]] v(2) by simp
    have "to_bits 100 \<le> peek \<longleftrightarrow> (\<exists>e \<in> set (heap q). \<exists>v. he_score e = to_bits v \<and> score_range v \<and> 100 \<le> v)"
    proof -
      have "to_bits 100 \<le> he_score e \<longleftrightarrow> (\<exists>v. he_score e = to_bits v \<and> score_range v \<and> 100 \<le> v)"
        if e: "e \<in> set (heap q)" for e
      proof -
        obtain u where "score_range u" "he_score e = to_bits u" using ok e by (auto simp: queue_ok_def)
        with bits_ge_100 show ?thesis by metis
      qed
      then show ?thesis unfolding peek_range(2) [OF ok Some] by (intro bex_cong refl)
    qed
    moreover have "should_preempt rnd now q \<longleftrightarrow> (\<exists>r. gq_running q = Some r \<and> pg_priority r \<noteq> Critical \<and> to_bits 100 \<le> peek)"
    proof -
      have cfg: "gq_config q = default_prioritization rnd" using ok by (simp add: queue_ok_def)
      have d: "enable_preemption (default_prioritization rnd)" "critical_weight (default_prioritization rnd) = 100"
        by (simp_all add: default_prioritization_def)
      show ?thesis using dead by (cases "gq_running q") (simp_all add: should_preempt_def Some cfg d Let_def conj_commute)
    qed
    ultimately show ?thesis by blast
  qed
  have "should_preempt rnd now (queue_push rnd t g q)"
    if "gq_running q = Some r" "pg_priority r \<noteq> Critical" "pg_priority g = Critical" for r g t
  proof -
    have ok: "queue_ok rnd q" "queue_ok rnd (queue_push rnd t g q)"
      using reach_ok [OF _ assms(1)] assms(2) queue_reach.reach_push by blast+
    then have cfg: "gq_config q = default_prioritization rnd" by (simp add: queue_ok_def)
    let ?v = "calculate_score rnd (default_prioritization rnd) t g"
    have "100 \<le> ?v" using critical_score [OF assms(1) that(3)] .
    moreover have "\<lparr>he_score = to_bits ?v, he_goal_id = pg_id g\<rparr> \<in> set (heap (queue_push rnd t g q))"
      by (simp add: queue_push_def cfg)
    ultimately show ?thesis unfolding rule [OF ok(2)] using that calculate_score_range [OF assms(1)]
      by (intro exI [of _ r]) (auto simp: queue_push_def cfg)
  qed
  with rule [OF reach_ok [OF assms(2,1)]] show ?thesis by blast
qed

definition demo_priority_goal :: "GoalPriority \<Rightarrow> PriorityGoal" where
  "demo_priority_goal p = \<lparr>pg_id = ''g'', pg_description = ''demo'', pg_priority = p, pg_effective_score = 0, created_at = 0,
     deadline = None, pg_dependencies = [], pg_status = Pending\<rparr>"

theorem preemption_rule_witness:
  "should_preempt f64_round 0 (queue_push f64_round 0 (demo_priority_goal Critical)
     (set_running (demo_priority_goal High) (goal_queue_new (default_prioritization f64_round))))"
proof -
  have "queue_reach f64_round hd (set_running (demo_priority_goal High) (goal_queue_new (default_prioritization f64_round)))"
    by (intro queue_reach.intros)
  note preemption_rule [OF rounds_f64 this, of 0, THEN conjunct2]
  then show ?thesis by (simp add: set_running_def demo_priority_goal_def)
qed

text \<open>The heap keeps scores and identifiers only: what is popped from it is an empty goal, whatever was pushed.\<close>

lemma pop_forgets_goal:
  "preempted q = [] \<Longrightarrow> queue_pop first now q = (Some g, q') \<Longrightarrow> g = placeholder_goal now"
  by (auto simp: queue_pop_def split: option.splits)

text \<open>A preempted goal comes back first, and the number of goals is kept.\<close>

lemma preempted_first:
  assumes "preempt_running q = (Some g, q')"
  shows "queue_pop first now q' = (Some g, q'\<lparr>preempted := preempted q\<rparr>)" "pg_status g = Preempted"
    "queue_pending_count q' = Suc (queue_pending_count q)"
  using assms by (auto simp: preempt_running_def queue_pop_def queue_pending_count_def Let_def split: option.splits)

end
