(* ===== verification/Router.thy ===== *)
theory Router
  imports Complex_Main Strategy Llm "HOL-Library.AList"
begin

text \<open>
  The model router (\<open>soul-agent-core/src/router.rs\<close>): the choice of a model for a task from domain,
  complexity and success so far, and the chain of fallbacks. The clients of the models are a parameter,
  the answer of the model of a name. Arithmetic in \<open>f32\<close> and \<open>f64\<close> is the real operation followed by a
  rounding, \<open>rnd32\<close> and \<open>rnd\<close>; \<open>try_read\<close> may find the statistics locked, which is a parameter too.
\<close>

section \<open>Configuration\<close>

datatype ProviderKind = Ollama | OpenAI | Anthropic

record LlmConfig =
  lc_provider :: ProviderKind
  lc_base_url :: string
  lc_model :: string
  lc_temperature :: real
  lc_max_tokens :: nat
  lc_http_timeout :: nat
  lc_connect_timeout :: nat
  lc_auth_token :: "string option"
  lc_goal_token_budget :: nat
  lc_tokens_per_minute_budget :: nat
  lc_pool_max_idle :: nat
  lc_pool_idle_timeout :: nat
  lc_max_concurrent_requests :: nat
  lc_retry :: RetryPolicy

definition default_llm_config :: "(real \<Rightarrow> real) \<Rightarrow> LlmConfig" where
  "default_llm_config rnd32 = \<lparr>lc_provider = Ollama, lc_base_url = ''http://127.0.0.1:11434'', lc_model = ''qwen3:8b'',
     lc_temperature = rnd32 (7 / 10), lc_max_tokens = 2048, lc_http_timeout = 30, lc_connect_timeout = 5,
     lc_auth_token = None, lc_goal_token_budget = 50000, lc_tokens_per_minute_budget = 100000, lc_pool_max_idle = 10,
     lc_pool_idle_timeout = 30, lc_max_concurrent_requests = 8, lc_retry = default_retry\<rparr>"

datatype ModelTier = FastLocal | CodeSpecialist | GeneralPurpose | CloudPremium

record RouterEntryConfig =
  re_name :: string
  re_llm_config :: LlmConfig
  re_tier :: ModelTier
  re_domains :: "TaskDomain list"
  min_complexity :: real
  max_complexity :: real
  fallback_names :: "string list"

record RouterConfig =
  rc_entries :: "RouterEntryConfig list"
  rc_max_consecutive_failures :: nat
  rc_cooldown_secs :: nat

definition default_router_config :: "(real \<Rightarrow> real) \<Rightarrow> RouterConfig" where
  "default_router_config rnd32 = \<lparr>rc_entries =
     [\<lparr>re_name = ''qwen3-4b'',
       re_llm_config = (default_llm_config rnd32)\<lparr>lc_model := ''qwen3:4b'', lc_temperature := rnd32 (3 / 10),
         lc_max_tokens := 2048, lc_http_timeout := 60, lc_connect_timeout := 5, lc_goal_token_budget := 500000,
         lc_tokens_per_minute_budget := 50000, lc_pool_max_idle := 2, lc_pool_idle_timeout := 30\<rparr>,
       re_tier = FastLocal, re_domains = [System_Domain, General_Domain],
       min_complexity = 0, max_complexity = rnd32 (4 / 10), fallback_names = [''default'']\<rparr>,
      \<lparr>re_name = ''default'',
       re_llm_config = (default_llm_config rnd32)\<lparr>lc_model := ''qwen3:8b'', lc_temperature := rnd32 (5 / 10),
         lc_max_tokens := 4096, lc_http_timeout := 120, lc_connect_timeout := 5, lc_goal_token_budget := 1000000,
         lc_tokens_per_minute_budget := 100000, lc_pool_max_idle := 2, lc_pool_idle_timeout := 30\<rparr>,
       re_tier = GeneralPurpose,
       re_domains = [General_Domain, System_Domain, Research_Domain, Creative_Domain, Code_Domain],
       min_complexity = 0, max_complexity = 1, fallback_names = [''cloud'']\<rparr>,
      \<lparr>re_name = ''cloud'',
       re_llm_config = (default_llm_config rnd32)\<lparr>lc_model := ''deepseek-v4:cloud'', lc_temperature := rnd32 (7 / 10),
         lc_max_tokens := 8192, lc_http_timeout := 180, lc_connect_timeout := 10, lc_goal_token_budget := 2000000,
         lc_tokens_per_minute_budget := 200000, lc_pool_max_idle := 2, lc_pool_idle_timeout := 30\<rparr>,
       re_tier = CloudPremium, re_domains = [Creative_Domain, Research_Domain],
       min_complexity = rnd32 (5 / 10), max_complexity = 1, fallback_names = [''default'']\<rparr>],
     rc_max_consecutive_failures = 3, rc_cooldown_secs = 60\<rparr>"

section \<open>The router\<close>

record ModelStats =
  total_calls :: nat
  successful_calls :: nat
  failed_calls :: nat
  consecutive_failures :: nat
  total_latency_ms :: nat
  last_failure_time :: "nat option"

definition default_stats :: ModelStats where
  "default_stats = \<lparr>total_calls = 0, successful_calls = 0, failed_calls = 0, consecutive_failures = 0,
     total_latency_ms = 0, last_failure_time = None\<rparr>"

record LlmRouter =
  ro_clients :: "(string \<times> LlmConfig) list"
  ro_entries :: "RouterEntryConfig list"
  ro_stats :: "(string \<times> ModelStats) list"
  ro_max_failures :: nat
  ro_cooldown_secs :: nat

definition router_new :: "RouterConfig \<Rightarrow> LlmRouter" where
  "router_new c = \<lparr>ro_clients = fold (\<lambda>e. AList.update (re_name e) (re_llm_config e)) (rc_entries c) [],
     ro_entries = rc_entries c,
     ro_stats = fold (\<lambda>e. AList.update (re_name e) default_stats) (rc_entries c) [],
     ro_max_failures = rc_max_consecutive_failures c, ro_cooldown_secs = rc_cooldown_secs c\<rparr>"

definition router_single :: "string \<Rightarrow> LlmConfig \<Rightarrow> LlmRouter" where
  "router_single model_name c = router_new \<lparr>rc_entries =
     [\<lparr>re_name = model_name, re_llm_config = c, re_tier = GeneralPurpose,
       re_domains = [General_Domain, System_Domain, Code_Domain, Research_Domain, Creative_Domain],
       min_complexity = 0, max_complexity = 1, fallback_names = []\<rparr>],
     rc_max_consecutive_failures = 3, rc_cooldown_secs = 60\<rparr>"

text \<open>Whether an entry rests after failures; the clock counts nanoseconds.\<close>

definition in_cooldown :: "nat \<Rightarrow> LlmRouter \<Rightarrow> string \<Rightarrow> bool" where
  "in_cooldown now r name = (case map_of (ro_stats r) name of
     None \<Rightarrow> False
   | Some s \<Rightarrow> consecutive_failures s \<ge> ro_max_failures r \<and> (case last_failure_time s of
       None \<Rightarrow> False
     | Some t \<Rightarrow> (now - t) div 10 ^ 9 < ro_cooldown_secs r))"

definition complexity_fit :: "(real \<Rightarrow> real) \<Rightarrow> real \<Rightarrow> RouterEntryConfig \<Rightarrow> real" where
  "complexity_fit rnd32 complexity e =
     (if complexity \<ge> min_complexity e \<and> complexity \<le> max_complexity e then 1
      else let dist = (if complexity < min_complexity e then rnd32 (min_complexity e - complexity)
                       else rnd32 (complexity - max_complexity e))
           in max (rnd32 (1 - dist)) 0)"

definition success_bonus :: "(real \<Rightarrow> real) \<Rightarrow> LlmRouter \<Rightarrow> string \<Rightarrow> real" where
  "success_bonus rnd r name = (case map_of (ro_stats r) name of
     None \<Rightarrow> 1 / 2
   | Some s \<Rightarrow> if total_calls s > 0 then rnd (rnd (real (successful_calls s)) / rnd (real (total_calls s))) else 1 / 2)"

definition cost_penalty :: "(real \<Rightarrow> real) \<Rightarrow> (real \<Rightarrow> real) \<Rightarrow> TaskDomain \<Rightarrow> real \<Rightarrow> ModelTier \<Rightarrow> real" where
  "cost_penalty rnd rnd32 task_domain complexity tier =
     (if tier = CloudPremium \<and> complexity < 1 / 2 then rnd (- 3 / 10)
      else if tier = FastLocal \<and> complexity > rnd32 (6 / 10) then rnd (- 2 / 10)
      else if tier = CodeSpecialist \<and> task_domain \<noteq> Code_Domain then rnd (- 1 / 10)
      else 0)"

definition entry_score :: "(real \<Rightarrow> real) \<Rightarrow> (real \<Rightarrow> real) \<Rightarrow> LlmRouter \<Rightarrow> bool \<Rightarrow> TaskDomain \<Rightarrow> real
    \<Rightarrow> RouterEntryConfig \<Rightarrow> real" where
  "entry_score rnd rnd32 r readable task_domain complexity e =
     (let domain_score = (if task_domain \<in> set (re_domains e) then 1 else rnd32 (2 / 10));
          fit = complexity_fit rnd32 complexity e;
          bonus = (if readable then success_bonus rnd r (re_name e) else 1 / 2);
          penalty = cost_penalty rnd rnd32 task_domain complexity (re_tier e)
      in rnd32 (rnd32 (rnd32 (rnd32 (domain_score * rnd32 (3 / 10)) + rnd32 (fit * rnd32 (35 / 100)))
           + rnd32 (rnd32 bonus * (1 / 4))) + rnd32 penalty))"

text \<open>The loop over the entries with the best name and score so far; \<open>None\<close> is minus infinity. The lock is
  tried twice for each entry.\<close>

fun best_loop :: "(RouterEntryConfig \<Rightarrow> real) \<Rightarrow> (RouterEntryConfig \<Rightarrow> bool) \<Rightarrow> RouterEntryConfig list
    \<Rightarrow> string \<times> real option \<Rightarrow> string \<times> real option" where
  "best_loop score skip [] best = best"
| "best_loop score skip (e # es) best =
     (if skip e then best_loop score skip es best
      else if (case snd best of None \<Rightarrow> True | Some b \<Rightarrow> score e > b)
           then best_loop score skip es (re_name e, Some (score e))
           else best_loop score skip es best)"

record router_env =
  env_rnd :: "real \<Rightarrow> real"
  env_rnd32 :: "real \<Rightarrow> real"
  env_now :: nat
  env_readable :: "string \<Rightarrow> bool"
  env_readable_again :: "string \<Rightarrow> bool"

definition router_score :: "router_env \<Rightarrow> LlmRouter \<Rightarrow> TaskDomain \<Rightarrow> real \<Rightarrow> RouterEntryConfig \<Rightarrow> real" where
  "router_score env r task_domain complexity e =
     entry_score (env_rnd env) (env_rnd32 env) r (env_readable_again env (re_name e)) task_domain complexity e"

definition select_best :: "router_env \<Rightarrow> TaskDomain \<Rightarrow> real \<Rightarrow> LlmRouter \<Rightarrow> string run" where
  "select_best env task_domain complexity r = (case ro_entries r of
     [] \<Rightarrow> Panicked
   | e # _ \<Rightarrow> Returned (fst (best_loop
       (router_score env r task_domain complexity)
       (\<lambda>e. env_readable env (re_name e) \<and> in_cooldown (env_now env) r (re_name e))
       (ro_entries r) (re_name e, None))))"

definition fallback_chain :: "LlmRouter \<Rightarrow> string \<Rightarrow> string list" where
  "fallback_chain r name = (case find (\<lambda>e. re_name e = name) (ro_entries r) of
     Some e \<Rightarrow> fallback_names e | None \<Rightarrow> [])"

definition router_record_success :: "string \<Rightarrow> LlmRouter \<Rightarrow> LlmRouter" where
  "router_record_success name r = (case map_of (ro_stats r) name of
     None \<Rightarrow> r
   | Some s \<Rightarrow> r\<lparr>ro_stats := AList.update name (s\<lparr>total_calls := total_calls s + 1,
         successful_calls := successful_calls s + 1, consecutive_failures := 0\<rparr>) (ro_stats r)\<rparr>)"

definition router_record_failure :: "nat \<Rightarrow> string \<Rightarrow> LlmRouter \<Rightarrow> LlmRouter" where
  "router_record_failure now name r = (case map_of (ro_stats r) name of
     None \<Rightarrow> r
   | Some s \<Rightarrow> r\<lparr>ro_stats := AList.update name (s\<lparr>total_calls := total_calls s + 1,
         failed_calls := failed_calls s + 1, consecutive_failures := consecutive_failures s + 1,
         last_failure_time := Some now\<rparr>) (ro_stats r)\<rparr>)"

definition reset_failures :: "string \<Rightarrow> LlmRouter \<Rightarrow> LlmRouter" where
  "reset_failures name r = (case map_of (ro_stats r) name of
     None \<Rightarrow> r
   | Some s \<Rightarrow> r\<lparr>ro_stats := AList.update name (s\<lparr>consecutive_failures := 0, last_failure_time := None\<rparr>) (ro_stats r)\<rparr>)"

fun replace_entry :: "RouterEntryConfig \<Rightarrow> RouterEntryConfig list \<Rightarrow> RouterEntryConfig list" where
  "replace_entry e [] = [e]"
| "replace_entry e (x # xs) = (if re_name x = re_name e then e # xs else x # replace_entry e xs)"

definition add_model :: "RouterEntryConfig \<Rightarrow> LlmRouter \<Rightarrow> LlmRouter" where
  "add_model e r = r\<lparr>ro_clients := AList.update (re_name e) (re_llm_config e) (ro_clients r),
     ro_entries := replace_entry e (ro_entries r)\<rparr>"

definition available_count :: "nat \<Rightarrow> bool \<Rightarrow> LlmRouter \<Rightarrow> nat" where
  "available_count now readable r =
     length (filter (\<lambda>e. \<not> (readable \<and> in_cooldown now r (re_name e))) (ro_entries r))"

section \<open>Routing with fallbacks\<close>

text \<open>The state of a routed call: the router, the names in \<open>tried\<close>, and the names of the models that were
  called, in their order, for which \<open>answer\<close> gives the outcome. \<open>clock\<close> is the time of a call by its number.\<close>

record route_state =
  rs_router :: LlmRouter
  rs_tried :: "string list"
  rs_calls :: "string list"

definition try_model :: "(string \<Rightarrow> string + 'a) \<Rightarrow> string \<Rightarrow> route_state \<Rightarrow> (string + 'a) \<times> route_state" where
  "try_model answer name s = (case map_of (ro_clients (rs_router s)) name of
     None \<Rightarrow> (Inl (''Unknown model: '' @ name), s)
   | Some _ \<Rightarrow> (answer name, s\<lparr>rs_calls := rs_calls s @ [name]\<rparr>))"

definition attempt_model :: "(string \<Rightarrow> string + 'a) \<Rightarrow> (nat \<Rightarrow> nat) \<Rightarrow> string \<Rightarrow> route_state \<Rightarrow> 'a option \<times> route_state" where
  "attempt_model answer clock name s = (case try_model answer name s of
     (Inr resp, s) \<Rightarrow> (Some resp, s\<lparr>rs_router := router_record_success name (rs_router s)\<rparr>)
   | (Inl _, s) \<Rightarrow> (None, s\<lparr>rs_router := router_record_failure (clock (length (rs_calls s))) name (rs_router s)\<rparr>))"

fun fallback_loop :: "(string \<Rightarrow> string + 'a) \<Rightarrow> (nat \<Rightarrow> nat) \<Rightarrow> string list \<Rightarrow> route_state \<Rightarrow> 'a option \<times> route_state" where
  "fallback_loop answer clock [] s = (None, s)"
| "fallback_loop answer clock (n # ns) s =
     (if n \<in> set (rs_tried s) then fallback_loop answer clock ns s
      else case attempt_model answer clock n (s\<lparr>rs_tried := rs_tried s @ [n]\<rparr>) of
             (Some resp, s) \<Rightarrow> (Some resp, s)
           | (None, s) \<Rightarrow> fallback_loop answer clock ns s)"

fun last_resort :: "(string \<Rightarrow> string + 'a) \<Rightarrow> (nat \<Rightarrow> nat) \<Rightarrow> RouterEntryConfig list \<Rightarrow> route_state \<Rightarrow> 'a option \<times> route_state" where
  "last_resort answer clock [] s = (None, s)"
| "last_resort answer clock (e # es) s =
     (if re_name e \<in> set (rs_tried s) then last_resort answer clock es s
      else case attempt_model answer clock (re_name e) s of
             (Some resp, s) \<Rightarrow> (Some resp, s)
           | (None, s) \<Rightarrow> last_resort answer clock es s)"

definition route_from :: "(string \<Rightarrow> string + 'a) \<Rightarrow> (nat \<Rightarrow> nat) \<Rightarrow> string \<Rightarrow> LlmRouter \<Rightarrow> 'a option \<times> route_state" where
  "route_from answer clock primary r =
     (case attempt_model answer clock primary \<lparr>rs_router = r, rs_tried = [primary], rs_calls = []\<rparr> of
        (Some resp, s) \<Rightarrow> (Some resp, s)
      | (None, s) \<Rightarrow> (case fallback_loop answer clock (fallback_chain r primary) s of
          (Some resp, s) \<Rightarrow> (Some resp, s)
        | (None, s) \<Rightarrow> last_resort answer clock (ro_entries r) s))"

definition arrow :: string where "arrow = [CHR 0x20, CHR 0xE2, CHR 0x86, CHR 0x92, CHR 0x20]"

definition router_chat :: "router_env \<Rightarrow> (string \<Rightarrow> string + 'a) \<Rightarrow> (nat \<Rightarrow> nat) \<Rightarrow> TaskDomain \<Rightarrow> real \<Rightarrow> LlmRouter
    \<Rightarrow> ((string + 'a) \<times> route_state) run" where
  "router_chat env answer clock task_domain complexity r =
     bind_run (select_best env task_domain complexity r) (\<lambda>primary. Returned
       (case route_from answer clock primary r of
          (Some resp, s) \<Rightarrow> (Inr resp, s)
        | (None, s) \<Rightarrow> (Inl (''All '' @ show_nat (length (ro_entries r)) @ '' models failed. Tried: ''
                            @ join arrow (rs_tried s)), s)))"

definition router_generate :: "router_env \<Rightarrow> (string \<Rightarrow> string + 'a) \<Rightarrow> (nat \<Rightarrow> nat) \<Rightarrow> TaskDomain \<Rightarrow> real \<Rightarrow> LlmRouter
    \<Rightarrow> ((string + 'a) \<times> route_state) run" where
  "router_generate env answer clock task_domain complexity r =
     bind_run (select_best env task_domain complexity r) (\<lambda>primary. Returned
       (case route_from answer clock primary r of
          (Some resp, s) \<Rightarrow> (Inr resp, s)
        | (None, s) \<Rightarrow> (Inl ''All models exhausted'', s)))"

section \<open>The order of the attempts\<close>

text \<open>Names of a list that are not excluded, each once.\<close>

fun fresh :: "string list \<Rightarrow> string list \<Rightarrow> string list" where
  "fresh tried [] = []"
| "fresh tried (n # ns) = (if n \<in> set tried then fresh tried ns else n # fresh (tried @ [n]) ns)"

definition route_order :: "LlmRouter \<Rightarrow> string \<Rightarrow> string list" where
  "route_order r primary =
     (let fb = fresh [primary] (fallback_chain r primary)
      in filter (\<lambda>n. n \<in> fst ` set (ro_clients r))
           (primary # fb @ filter (\<lambda>n. n \<noteq> primary \<and> n \<notin> set fb) (map re_name (ro_entries r))))"

text \<open>Models asked in an order until one answers: the answer and the models asked.\<close>

fun ask_in_order :: "(string \<Rightarrow> string + 'a) \<Rightarrow> string list \<Rightarrow> 'a option \<times> string list" where
  "ask_in_order answer [] = (None, [])"
| "ask_in_order answer (n # ns) = (case answer n of
     Inr resp \<Rightarrow> (Some resp, [n])
   | Inl _ \<Rightarrow> (case ask_in_order answer ns of (r, asked) \<Rightarrow> (r, n # asked)))"

lemma ask_append:
  "ask_in_order answer (xs @ ys) = (case ask_in_order answer xs of
     (Some resp, asked) \<Rightarrow> (Some resp, asked)
   | (None, asked) \<Rightarrow> (case ask_in_order answer ys of (r, later) \<Rightarrow> (r, asked @ later)))"
  by (induction xs) (auto split: sum.splits prod.splits option.splits)

lemma record_clients [simp]:
  "ro_clients (router_record_success n r) = ro_clients r" "ro_clients (router_record_failure now n r) = ro_clients r"
  by (simp_all add: router_record_success_def router_record_failure_def split: option.splits)

text \<open>What an attempt adds to the state: \<open>follows\<close> relates it to asking the known models of a list.\<close>

definition follows :: "(string \<Rightarrow> string + 'a) \<Rightarrow> string list \<Rightarrow> route_state \<Rightarrow> 'a option \<times> route_state \<Rightarrow> bool" where
  "follows answer names s out \<longleftrightarrow>
     (case ask_in_order answer (filter (\<lambda>n. n \<in> fst ` set (ro_clients (rs_router s))) names) of
        (r, asked) \<Rightarrow> fst out = r \<and> rs_calls (snd out) = rs_calls s @ asked)
     \<and> ro_clients (rs_router (snd out)) = ro_clients (rs_router s)"

lemma attempt_follows: "follows answer [n] s (attempt_model answer clock n s)"
proof (cases "map_of (ro_clients (rs_router s)) n")
  case None
  then have "n \<notin> fst ` set (ro_clients (rs_router s))" by (simp add: map_of_eq_None_iff)
  with None show ?thesis by (simp add: follows_def attempt_model_def try_model_def)
next
  case (Some c)
  then have "n \<in> fst ` set (ro_clients (rs_router s))" by (metis domI dom_map_of_conv_image_fst)
  with Some show ?thesis by (cases "answer n") (simp_all add: follows_def attempt_model_def try_model_def)
qed

lemma follows_continue:
  assumes "follows answer xs s out" "fst out = None \<Longrightarrow> follows answer ys (snd out) out'" "fst out \<noteq> None \<Longrightarrow> out' = out"
  shows "follows answer (xs @ ys) s out'"
  using assms by (cases "fst out") (auto simp: follows_def ask_append split: prod.splits option.splits)

lemma attempt_tried [simp]: "rs_tried (snd (attempt_model answer clock n s)) = rs_tried s"
  by (auto simp: attempt_model_def try_model_def split: option.splits sum.splits prod.splits)

lemma fallback_follows:
  "follows answer (fresh (rs_tried s) ns) s (fallback_loop answer clock ns s)
   \<and> (fst (fallback_loop answer clock ns s) = None \<longrightarrow>
        rs_tried (snd (fallback_loop answer clock ns s)) = rs_tried s @ fresh (rs_tried s) ns)"
proof (induction ns arbitrary: s)
  case (Cons n ns)
  show ?case
  proof (cases "n \<in> set (rs_tried s)")
    case False
    let ?s = "s\<lparr>rs_tried := rs_tried s @ [n]\<rparr>"
    obtain o' s' where a: "attempt_model answer clock n ?s = (o', s')" by fastforce
    have f: "follows answer [n] s (o', s')" using attempt_follows [of answer n ?s clock] a by (simp add: follows_def)
    have t: "rs_tried s' = rs_tried s @ [n]" using attempt_tried [of answer clock n ?s] a by simp
    have "follows answer ([n] @ fresh (rs_tried s @ [n]) ns) s (fallback_loop answer clock (n # ns) s)"
      by (rule follows_continue [OF f]) (use Cons.IH [of s'] t a False in \<open>auto split: option.splits\<close>)
    then show ?thesis using Cons.IH [of s'] t a False by (auto split: option.splits)
  qed (use Cons.IH [of s] in simp)
qed (simp add: follows_def)

lemma last_resort_follows:
  "follows answer (filter (\<lambda>n. n \<notin> set (rs_tried s)) (map re_name es)) s (last_resort answer clock es s)
   \<and> rs_tried (snd (last_resort answer clock es s)) = rs_tried s"
proof (induction es arbitrary: s)
  case (Cons e es)
  show ?case
  proof (cases "re_name e \<in> set (rs_tried s)")
    case False
    obtain o' s' where a: "attempt_model answer clock (re_name e) s = (o', s')" by fastforce
    have f: "follows answer [re_name e] s (o', s')" using attempt_follows [of answer "re_name e" s clock] a by simp
    have t: "rs_tried s' = rs_tried s" using attempt_tried [of answer clock "re_name e" s] a by simp
    have "follows answer ([re_name e] @ filter (\<lambda>n. n \<notin> set (rs_tried s)) (map re_name es)) s (last_resort answer clock (e # es) s)"
      by (rule follows_continue [OF f]) (use Cons.IH [of s'] t a False in \<open>auto split: option.splits\<close>)
    then show ?thesis using Cons.IH [of s'] t a False by (auto split: option.splits)
  qed (use Cons.IH [of s] in simp)
qed (simp add: follows_def)

text \<open>Routers as they are built: distinct names, a client for each of them and for nothing else.\<close>

definition router_wf :: "LlmRouter \<Rightarrow> bool" where
  "router_wf r \<longleftrightarrow> distinct (map re_name (ro_entries r)) \<and> fst ` set (ro_clients r) = set (map re_name (ro_entries r))"

lemma clients_of_entries:
  "fst ` set (fold (\<lambda>e. AList.update (re_name e) (re_llm_config e)) es m) = set (map re_name es) \<union> fst ` set m"
  by (induction es arbitrary: m) (auto simp: dom_update)

lemma router_new_wf: "distinct (map re_name (rc_entries c)) \<Longrightarrow> router_wf (router_new c)"
  by (simp add: router_wf_def router_new_def clients_of_entries)

lemma replace_entry_names:
  "map re_name (replace_entry e es) = (if re_name e \<in> set (map re_name es) then map re_name es else map re_name es @ [re_name e])"
  by (induction es) auto

lemma add_model_wf: "router_wf r \<Longrightarrow> router_wf (add_model e r)"
  by (auto simp: router_wf_def add_model_def replace_entry_names dom_update)

lemma recording_keeps_wf:
  "router_wf r \<Longrightarrow> router_wf (router_record_success n r)" "router_wf r \<Longrightarrow> router_wf (router_record_failure now n r)"
  by (simp_all add: router_wf_def router_record_success_def router_record_failure_def split: option.splits)

lemma fresh_facts: "distinct (fresh tried ns)" "set (fresh tried ns) = set ns - set tried"
  by (induction ns arbitrary: tried) auto

lemma route_order_facts:
  assumes "router_wf r" "primary \<in> set (map re_name (ro_entries r))"
  shows "distinct (route_order r primary)" "set (route_order r primary) = set (map re_name (ro_entries r))"
    "hd (route_order r primary) = primary"
  using assms fresh_facts [of "[primary]" "fallback_chain r primary"]
  by (auto simp: route_order_def router_wf_def Let_def intro: distinct_filter)

lemma route_from_order:
  "follows answer (primary # fresh [primary] (fallback_chain r primary)
      @ filter (\<lambda>n. n \<noteq> primary \<and> n \<notin> set (fresh [primary] (fallback_chain r primary))) (map re_name (ro_entries r)))
     \<lparr>rs_router = r, rs_tried = [primary], rs_calls = []\<rparr> (route_from answer clock primary r)"
proof -
  let ?s0 = "\<lparr>rs_router = r, rs_tried = [primary], rs_calls = []\<rparr>" and ?fb = "fresh [primary] (fallback_chain r primary)"
  let ?rest = "filter (\<lambda>n. n \<noteq> primary \<and> n \<notin> set ?fb) (map re_name (ro_entries r))"
  obtain o1 s1 where a: "attempt_model answer clock primary ?s0 = (o1, s1)" by fastforce
  have f: "follows answer [primary] ?s0 (o1, s1)" using attempt_follows [of answer primary ?s0 clock] a by simp
  have t: "rs_tried s1 = [primary]" using attempt_tried [of answer clock primary ?s0] a by simp
  obtain o2 s2 where b: "fallback_loop answer clock (fallback_chain r primary) s1 = (o2, s2)" by fastforce
  have f2: "follows answer ?fb s1 (o2, s2)" "o2 = None \<Longrightarrow> set (rs_tried s2) = {primary} \<union> set ?fb"
    using fallback_follows [of answer s1 "fallback_chain r primary" clock] b t by auto
  define rest where "rest = (if o2 = None then last_resort answer clock (ro_entries r) s2 else (o2, s2))"
  have "follows answer (?fb @ ?rest) s1 rest"
  proof (rule follows_continue [OF f2(1)])
    assume "fst (o2, s2) = None"
    then show "follows answer ?rest (snd (o2, s2)) rest"
      using last_resort_follows [of answer s2 "ro_entries r" clock] f2(2) by (simp add: rest_def)
  qed (auto simp: rest_def)
  then have "follows answer ([primary] @ ?fb @ ?rest) ?s0 (route_from answer clock primary r)"
    by (intro follows_continue [OF f]) (auto simp: route_from_def a b rest_def split: option.splits)
  then show ?thesis by simp
qed

lemma route_from_asks:
  assumes "route_from answer clock primary r = (res, s)"
  shows "ask_in_order answer (route_order r primary) = (res, rs_calls s)"
  using route_from_order [of answer primary r clock] unfolding follows_def route_order_def Let_def assms
  by (auto simp only: route_state.select_convs fst_conv snd_conv append_Nil split: prod.splits)

lemma ask_in_order_facts:
  assumes "ask_in_order answer ns = (res, asked)"
  shows "prefix asked ns" "res = None \<longleftrightarrow> (\<forall>n \<in> set ns. \<exists>e. answer n = Inl e)" "res = None \<Longrightarrow> asked = ns"
    "res = Some resp \<Longrightarrow> asked \<noteq> [] \<and> answer (last asked) = Inr resp \<and> (\<forall>n \<in> set (butlast asked). \<exists>e. answer n = Inl e)"
  using assms by (induction ns arbitrary: asked) (auto split: sum.splits prod.splits if_splits)

section \<open>The choice of a model\<close>

lemma best_loop_spec:
  "best_loop score skip es (n, b) = (n', b') \<Longrightarrow>
     (n' = n \<and> b' = b \<and> (\<forall>e \<in> set es. skip e \<or> (\<exists>x. b = Some x \<and> score e \<le> x)))
   \<or> (\<exists>e \<in> set es. \<not> skip e \<and> n' = re_name e \<and> b' = Some (score e)
        \<and> (\<forall>e' \<in> set es. skip e' \<or> score e' \<le> score e) \<and> (\<forall>x. b = Some x \<longrightarrow> x < score e))"
proof (induction es arbitrary: n b)
  case (Cons e es)
  consider "skip e" | "\<not> skip e" "\<exists>x. b = Some x \<and> score e \<le> x" | "\<not> skip e" "\<And>x. b = Some x \<Longrightarrow> x < score e"
    by (meson not_le)
  then show ?case
  proof cases
    case 1
    with Cons.prems Cons.IH [of n b] show ?thesis by auto
  next
    case 2
    then obtain x where x: "b = Some x" "score e \<le> x" by blast
    with 2 Cons.prems have "best_loop score skip es (n, b) = (n', b')" by simp
    from Cons.IH [OF this] x show ?thesis by auto
  next
    case 3
    then have "best_loop score skip es (re_name e, Some (score e)) = (n', b')"
      using Cons.prems by (auto split: option.splits)
    from Cons.IH [OF this] 3 show ?thesis by (auto intro: less_trans order.trans)
  qed
qed auto

text \<open>A model is passed over when its statistics can be read at its turn and show that it rests; under
  contention of the lock it counts as available.\<close>

definition seen_resting :: "router_env \<Rightarrow> LlmRouter \<Rightarrow> RouterEntryConfig \<Rightarrow> bool" where
  "seen_resting env r e \<longleftrightarrow> env_readable env (re_name e) \<and> in_cooldown (env_now env) r (re_name e)"

text \<open>C36: How a router with at least one model and with distinct model names, each with its client, serves a
  request, by chat or by generation, whatever the contention of its statistics lock. It never panics. The model it
  asks first has the best score of those not seen resting after repeated failures, or is the first of the list if all
  are seen resting; a model whose statistics are locked at its turn is not seen resting, and one whose statistics are
  locked when it is scored gets the neutral success rate. In particular, if the lock can be read throughout, a resting
  model is asked first only if all rest. Then every model is asked at most once, in a fixed order: the chosen one,
  its fallbacks, the others; the first answer is returned and nobody is asked after it; the request fails only if
  every model of the router fails.\<close>

theorem router_serves:
  assumes "router_wf r" "ro_entries r \<noteq> []"
  shows "\<exists>primary res s. select_best env task_domain complexity r = Returned primary
    \<and> router_chat env answer clock task_domain complexity r = Returned (res, s)
    \<and> (if \<forall>e \<in> set (ro_entries r). seen_resting env r e then primary = re_name (hd (ro_entries r))
       else \<exists>e \<in> set (ro_entries r). primary = re_name e \<and> \<not> seen_resting env r e
          \<and> (\<forall>e' \<in> set (ro_entries r). seen_resting env r e'
               \<or> router_score env r task_domain complexity e' \<le> router_score env r task_domain complexity e))
    \<and> ((\<forall>n. env_readable env n) \<longrightarrow> in_cooldown (env_now env) r primary
         \<longrightarrow> (\<forall>e \<in> set (ro_entries r). in_cooldown (env_now env) r (re_name e)))
    \<and> prefix (rs_calls s) (route_order r primary) \<and> distinct (route_order r primary)
    \<and> hd (route_order r primary) = primary \<and> set (route_order r primary) = set (map re_name (ro_entries r))
    \<and> (\<forall>resp. res = Inr resp \<longrightarrow> answer (last (rs_calls s)) = Inr resp
         \<and> (\<forall>n \<in> set (butlast (rs_calls s)). \<exists>e. answer n = Inl e))
    \<and> ((\<exists>e. res = Inl e) \<longleftrightarrow> (\<forall>n \<in> set (map re_name (ro_entries r)). \<exists>e. answer n = Inl e))
    \<and> (\<exists>res'. router_generate env answer clock task_domain complexity r = Returned (res', s)
         \<and> (\<forall>resp. res' = Inr resp \<longleftrightarrow> res = Inr resp))"
proof -
  obtain e0 es where es: "ro_entries r = e0 # es" using assms(2) by (cases "ro_entries r") auto
  let ?skip = "\<lambda>e. env_readable env (re_name e) \<and> in_cooldown (env_now env) r (re_name e)"
  obtain primary b where best: "best_loop (router_score env r task_domain complexity) ?skip (ro_entries r) (re_name e0, None) = (primary, b)"
    by fastforce
  have sel: "select_best env task_domain complexity r = Returned primary" using best by (simp add: select_best_def es)
  note choice = best_loop_spec [OF best]
  have p: "primary \<in> set (map re_name (ro_entries r))" using choice es by auto
  note order = route_order_facts [OF assms(1) p]
  obtain out s where rf: "route_from answer clock primary r = (out, s)" by fastforce
  note asked = ask_in_order_facts [OF route_from_asks [OF rf]]
  define res where "res = (case out of Some resp \<Rightarrow> Inr resp | None \<Rightarrow> Inl (''All '' @ show_nat (length (ro_entries r))
    @ '' models failed. Tried: '' @ join arrow (rs_tried s)))"
  have chat: "router_chat env answer clock task_domain complexity r = Returned (res, s)"
    by (simp add: router_chat_def sel rf res_def split: option.splits)
  define res' where "res' = (case out of Some resp \<Rightarrow> Inr resp | None \<Rightarrow> Inl ''All models exhausted'')"
  have gen: "router_generate env answer clock task_domain complexity r = Returned (res', s)"
    by (simp add: router_generate_def sel rf res'_def split: option.splits)
  have out: "(\<exists>e. res = Inl e) \<longleftrightarrow> out = None" "\<And>resp. res = Inr resp \<longleftrightarrow> out = Some resp"
    "\<And>resp. res' = Inr resp \<longleftrightarrow> res = Inr resp"
    by (auto simp: res_def res'_def split: option.splits)
  have first: "if \<forall>e \<in> set (ro_entries r). seen_resting env r e then primary = re_name (hd (ro_entries r))
       else \<exists>e \<in> set (ro_entries r). primary = re_name e \<and> \<not> seen_resting env r e
          \<and> (\<forall>e' \<in> set (ro_entries r). seen_resting env r e'
               \<or> router_score env r task_domain complexity e' \<le> router_score env r task_domain complexity e)"
    using choice es by (auto simp: seen_resting_def)
  have rests: "(\<forall>n. env_readable env n) \<longrightarrow> in_cooldown (env_now env) r primary
      \<longrightarrow> (\<forall>e \<in> set (ro_entries r). in_cooldown (env_now env) r (re_name e))"
    using first by (auto simp: seen_resting_def split: if_splits)
  have fails: "(\<exists>e. res = Inl e) \<longleftrightarrow> (\<forall>n \<in> set (map re_name (ro_entries r)). \<exists>e. answer n = Inl e)"
    unfolding out(1) asked(2) order(2) ..
  have "\<forall>resp. res = Inr resp \<longrightarrow> answer (last (rs_calls s)) = Inr resp
      \<and> (\<forall>n \<in> set (butlast (rs_calls s)). \<exists>e. answer n = Inl e)"
    using asked(4) unfolding out(2) by blast
  with sel chat gen first rests fails order asked(1) out(3) show ?thesis by blast
qed

text \<open>The default router with one model down.\<close>

definition demo_env :: router_env where
  "demo_env = \<lparr>env_rnd = id, env_rnd32 = id, env_now = 0, env_readable = \<lambda>_. True, env_readable_again = \<lambda>_. True\<rparr>"

theorem router_serves_witness:
  "\<exists>res s. router_chat demo_env (\<lambda>n. if n = ''cloud'' then Inr n else Inl ''down'') id Code_Domain 1 (router_new (default_router_config id))
     = Returned (res, s) \<and> (\<exists>resp. res = Inr resp)"
proof -
  have wf: "router_wf (router_new (default_router_config id))" by (rule router_new_wf) (simp add: default_router_config_def)
  have ne: "ro_entries (router_new (default_router_config id)) \<noteq> []" by (simp add: router_new_def default_router_config_def)
  let ?answer = "\<lambda>n. if n = ''cloud'' then Inr n else Inl ''down''"
  obtain res s where rs: "router_chat demo_env ?answer id Code_Domain 1 (router_new (default_router_config id)) = Returned (res, s)"
    "(\<exists>e. res = Inl e) \<longleftrightarrow> (\<forall>n \<in> set (map re_name (ro_entries (router_new (default_router_config id)))). \<exists>e. ?answer n = Inl e)"
    using router_serves [OF wf ne, of demo_env Code_Domain 1 ?answer id] by blast
  have "\<not> (\<exists>e. res = Inl e)" unfolding rs(2) by (simp add: router_new_def default_router_config_def)
  with rs(1) show ?thesis by (metis sum.exhaust)
qed

text \<open>A model that is added at run time has no statistics: its failures are not counted, so that it never rests.\<close>

lemma added_model_never_rests:
  assumes "map_of (ro_stats r) (re_name e) = None"
  shows "router_record_failure now (re_name e) (add_model e r) = add_model e r" "\<not> in_cooldown t (add_model e r) (re_name e)"
  using assms by (simp_all add: router_record_failure_def add_model_def in_cooldown_def)

text \<open>A model rests after its failures in a row, for the length of the cooldown, and a success ends that.\<close>

lemma cooldown_after_failure:
  assumes "map_of (ro_stats r) n = Some s" "ro_max_failures r \<le> consecutive_failures s + 1"
  shows "in_cooldown t (router_record_failure now n r) n \<longleftrightarrow> (t - now) div 10 ^ 9 < ro_cooldown_secs r"
    "0 < ro_max_failures r \<Longrightarrow> \<not> in_cooldown t (router_record_success n r) n"
  using assms by (simp_all add: router_record_failure_def router_record_success_def in_cooldown_def AList.update_conv)

end
