(* ===== verification/Consolidation.thy ===== *)
theory Consolidation
  imports Complex_Main Prelude "HOL-Library.AList" "HOL-Library.Multiset"
begin

text \<open>
  Consolidation of memories (\<open>soul-agent-core/src/consolidation.rs\<close>): cosine similarity, the greedy clustering
  of a buffer, themes, and the run that removes what was clustered. \<open>f32\<close> arithmetic is the real operation
  followed by a rounding \<open>rnd\<close>; lower-casing and the order in which a hash table is visited are parameters.
\<close>

section \<open>Data\<close>

record VectorConsolidationConfig =
  embedding_dim :: nat
  similarity_threshold :: real
  min_cluster_size :: nat
  max_clusters :: nat
  decay_factor :: real
  generate_summaries :: bool


record VectorMemory =
  vm_id :: string
  vm_text :: string
  embedding :: "real list"
  importance :: real
  access_count :: nat

record MemoryCluster =
  cl_id :: string
  members :: "string list"
  cl_centroid :: "real list"
  cohesion_score :: real
  cl_summary :: "string option"
  dominant_theme :: "string option"

record ConsolidationResult =
  clusters_formed :: nat
  memories_consolidated :: nat
  avg_cohesion :: real
  high_quality_clusters :: nat

record VectorConsolidator =
  vc_config :: VectorConsolidationConfig
  buffer :: "VectorMemory list"
  clusters :: "MemoryCluster list"


definition add_memory :: "VectorMemory \<Rightarrow> VectorConsolidator \<Rightarrow> VectorConsolidator" where
  "add_memory m c = c\<lparr>buffer := buffer c @ [m]\<rparr>"

section \<open>Vectors\<close>

definition sum_f32 :: "(real \<Rightarrow> real) \<Rightarrow> real list \<Rightarrow> real" where
  "sum_f32 rnd xs = foldl (\<lambda>a x. rnd (a + x)) 0 xs"

definition cosine_similarity :: "(real \<Rightarrow> real) \<Rightarrow> real list \<Rightarrow> real list \<Rightarrow> real" where
  "cosine_similarity rnd a b =
     (if length a \<noteq> length b \<or> a = [] then 0
      else let dot = sum_f32 rnd (map (\<lambda>(x, y). rnd (x * y)) (zip a b));
               norm_a = rnd (sqrt (sum_f32 rnd (map (\<lambda>x. rnd (x * x)) a)));
               norm_b = rnd (sqrt (sum_f32 rnd (map (\<lambda>x. rnd (x * x)) b)))
           in if norm_a = 0 \<or> norm_b = 0 then 0 else rnd (dot / rnd (norm_a * norm_b)))"

text \<open>A component beyond the dimension is ignored, a missing one adds nothing.\<close>

definition add_vector :: "(real \<Rightarrow> real) \<Rightarrow> real list \<Rightarrow> real list \<Rightarrow> real list" where
  "add_vector rnd acc emb = map (\<lambda>i. if i < length emb then rnd (acc ! i + emb ! i) else acc ! i) [0..<length acc]"

definition centroid :: "(real \<Rightarrow> real) \<Rightarrow> real list list \<Rightarrow> nat \<Rightarrow> real list" where
  "centroid rnd embeddings d =
     (if embeddings = [] then replicate d 0
      else let acc = foldl (add_vector rnd) (replicate d 0) embeddings; n = rnd (real (length embeddings))
           in map (\<lambda>v. rnd (v / n)) acc)"

section \<open>Clustering\<close>

fun grow :: "(nat \<Rightarrow> nat \<Rightarrow> real) \<Rightarrow> real \<Rightarrow> nat list \<Rightarrow> nat list \<Rightarrow> bool list \<Rightarrow> nat list \<times> bool list" where
  "grow sim threshold [] cluster visited = (cluster, visited)"
| "grow sim threshold (j # js) cluster visited =
     (if visited ! j then grow sim threshold js cluster visited
      else if list_all (\<lambda>i. sim i j \<ge> threshold) cluster
           then grow sim threshold js (cluster @ [j]) (visited[j := True])
           else grow sim threshold js cluster visited)"

fun greedy :: "(nat \<Rightarrow> nat \<Rightarrow> real) \<Rightarrow> real \<Rightarrow> nat \<Rightarrow> nat \<Rightarrow> nat list \<Rightarrow> bool list \<Rightarrow> nat list list" where
  "greedy sim threshold min_size n [] visited = []"
| "greedy sim threshold min_size n (i # is) visited =
     (if visited ! i then greedy sim threshold min_size n is visited
      else case grow sim threshold [Suc i..<n] [i] (visited[i := True]) of
             (cluster, visited) \<Rightarrow>
               if length cluster \<ge> min_size then cluster # greedy sim threshold min_size n is visited
               else greedy sim threshold min_size n is visited)"

text \<open>The symmetric matrix of the similarities; the diagonal is one.\<close>

definition similarity_at :: "(real \<Rightarrow> real) \<Rightarrow> VectorMemory list \<Rightarrow> nat \<Rightarrow> nat \<Rightarrow> real" where
  "similarity_at rnd memories i j =
     (if i = j then 1
      else cosine_similarity rnd (embedding (memories ! min i j)) (embedding (memories ! max i j)))"

definition cluster_memories :: "(real \<Rightarrow> real) \<Rightarrow> VectorConsolidationConfig \<Rightarrow> VectorMemory list \<Rightarrow> real \<Rightarrow> nat list list" where
  "cluster_memories rnd cfg memories threshold =
     (if memories = [] then []
      else let n = length memories;
               cs = greedy (similarity_at rnd memories) threshold (min_cluster_size cfg) n [0..<n] (replicate n False)
           in if length cs > max_clusters cfg
              then take (max_clusters cfg) (sort_key (\<lambda>c. - int (length c)) cs)
              else cs)"

section \<open>Themes\<close>

definition stopwords :: "string list" where
  "stopwords = [''this'', ''that'', ''with'', ''from'', ''have'', ''been'', ''were'', ''they'', ''will'']"

definition theme_words :: "string list \<Rightarrow> string list" where
  "theme_words texts = filter (\<lambda>w. length w > 3) (split_whitespace (join '' '' texts))"

definition count_words :: "string list \<Rightarrow> (string \<times> nat) list" where
  "count_words ws = fold (\<lambda>w m. AList.update w (case map_of m w of Some c \<Rightarrow> c + 1 | None \<Rightarrow> 1) m) ws []"

fun top_word :: "(string \<Rightarrow> string) \<Rightarrow> (string \<times> nat) list \<Rightarrow> (string \<times> nat) option \<Rightarrow> (string \<times> nat) option" where
  "top_word lower [] acc = acc"
| "top_word lower ((w, c) # ws) acc =
     (if lower w \<in> set stopwords then top_word lower ws acc
      else if (case acc of None \<Rightarrow> True | Some (_, best) \<Rightarrow> c > best) then top_word lower ws (Some (w, c))
      else top_word lower ws acc)"

definition detect_theme :: "(string \<Rightarrow> string) \<Rightarrow> ((string \<times> nat) list \<Rightarrow> (string \<times> nat) list) \<Rightarrow> string list \<Rightarrow> string option" where
  "detect_theme lower visit texts =
     (if texts = [] then None
      else map_option fst (top_word lower (visit (count_words (theme_words texts))) None))"

section \<open>Runs\<close>

record consolidation_env =
  ce_rnd :: "real \<Rightarrow> real"
  ce_lower :: "string \<Rightarrow> string"
  ce_visit :: "(string \<times> nat) list \<Rightarrow> (string \<times> nat) list"

definition pairwise_sum :: "(real \<Rightarrow> real) \<Rightarrow> VectorMemory list \<Rightarrow> real" where
  "pairwise_sum rnd ms = sum_f32 rnd (concat (map (\<lambda>i. map (\<lambda>j.
     cosine_similarity rnd (embedding (ms ! i)) (embedding (ms ! j))) [Suc i..<length ms]) [0..<length ms]))"

definition cohesion :: "(real \<Rightarrow> real) \<Rightarrow> VectorMemory list \<Rightarrow> real" where
  "cohesion rnd ms =
     (let pairs = length ms * (length ms - 1) div 2
      in if pairs > 0 then rnd (pairwise_sum rnd ms / rnd (real pairs)) else 1)"

definition make_cluster :: "consolidation_env \<Rightarrow> VectorConsolidationConfig \<Rightarrow> VectorMemory list \<Rightarrow> nat \<Rightarrow> nat list \<Rightarrow> MemoryCluster" where
  "make_cluster env cfg buf cluster_id indices =
     (let ms = map ((!) buf) indices
      in \<lparr>cl_id = ''cluster_'' @ show_nat cluster_id, members = map vm_id ms,
          cl_centroid = centroid (ce_rnd env) (map embedding ms) (embedding_dim cfg),
          cohesion_score = cohesion (ce_rnd env) ms, cl_summary = None,
          dominant_theme = detect_theme (ce_lower env) (ce_visit env) (map vm_text ms)\<rparr>)"

definition form_clusters :: "consolidation_env \<Rightarrow> VectorConsolidator \<Rightarrow> MemoryCluster list \<times> VectorConsolidator" where
  "form_clusters env c =
     (let indices = cluster_memories (ce_rnd env) (vc_config c) (buffer c) (similarity_threshold (vc_config c));
          cs = map (\<lambda>(i, is). make_cluster env (vc_config c) (buffer c) i is) (enumerate 0 indices)
      in (cs, c\<lparr>clusters := cs\<rparr>))"

definition consolidate :: "consolidation_env \<Rightarrow> VectorConsolidator \<Rightarrow> ConsolidationResult \<times> VectorConsolidator" where
  "consolidate env c =
     (if length (buffer c) < min_cluster_size (vc_config c)
      then (\<lparr>clusters_formed = 0, memories_consolidated = 0, avg_cohesion = 0, high_quality_clusters = 0\<rparr>, c)
      else let (cs, c) = form_clusters env c;
               n = sum_list (map (length \<circ> members) cs);
               avg = (if cs \<noteq> [] then ce_rnd env (sum_f32 (ce_rnd env) (map cohesion_score cs) / ce_rnd env (real (length cs)))
                      else 0);
               high = length (filter (\<lambda>k. cohesion_score k \<ge> similarity_threshold (vc_config c)) cs);
               ids = concat (map members cs)
           in (\<lparr>clusters_formed = length cs, memories_consolidated = n, avg_cohesion = avg, high_quality_clusters = high\<rparr>,
               c\<lparr>buffer := filter (\<lambda>m. vm_id m \<notin> set ids) (buffer c)\<rparr>))"

definition buffer_size :: "VectorConsolidator \<Rightarrow> nat" where
  "buffer_size c = length (buffer c)"

section \<open>What a clustering is\<close>















text \<open>The clusters of an earlier run are dropped by the next one, while the memories in them have left the buffer.\<close>

lemma earlier_clusters_dropped:
  assumes "min_cluster_size (vc_config c) \<le> length (buffer c)"
  shows "clusters (snd (consolidate env c)) = clusters (snd (consolidate env (c\<lparr>clusters := old\<rparr>)))"
  using assms by (simp add: consolidate_def form_clusters_def Let_def)

text \<open>The theme of a cluster is a word of its texts that is no stop word, and no such word is more frequent.\<close>

lemma top_word_max:
  "top_word lower ws acc = Some (w, n) \<Longrightarrow>
     (acc = Some (w, n) \<or> (w, n) \<in> set ws \<and> lower w \<notin> set stopwords)
     \<and> (\<forall>(v, k) \<in> set ws. lower v \<in> set stopwords \<or> k \<le> n) \<and> (\<forall>v k. acc = Some (v, k) \<longrightarrow> k \<le> n)"
proof (induction lower ws acc rule: top_word.induct)
  case (2 lower v k ws acc)
  show ?case
  proof (cases "lower v \<in> set stopwords")
    case True
    with 2 show ?thesis by auto
  next
    case False
    show ?thesis
    proof (cases "case acc of None \<Rightarrow> True | Some (_, best) \<Rightarrow> k > best")
      case True
      with False 2(2) [OF False True] 2(4) show ?thesis by (auto split: option.splits)
    next
      case less: False
      with False 2(3) [OF False less] 2(4) show ?thesis by (auto split: option.splits)
    qed
  qed
qed auto

end
