(* ===== verification/Ws_Bridge.thy ===== *)
theory Ws_Bridge
  imports Gateway_Limits Gateway_Scope
begin

text \<open>
  The WebSocket bridge of \<open>src/ws_bridge.rs\<close>: its configuration, the topic patterns, and the server
  as a transition system. One step is what a task does between two points where it can be
  interrupted: accepting a stream, the handshake, each of the two updates of the shared state when
  a client arrives and when it leaves, and one turn of the \<open>select!\<close> loop. The labels carry what the
  outside decides: which branch is ready and with what, and whether a send succeeds. Steps of
  different tasks come in any order.

  What \<open>serde_json\<close> reads and writes is a parameter. The internal bus (\<open>bus/src/lib.rs\<close>) is a
  broadcast channel; the model keeps the messages the bridge put on it, and what a receiver gets
  from it is on the labels.
\<close>

unbundle bit_operations_syntax

section \<open>Configuration\<close>

datatype UnauthenticatedAccess = Deny | Allow

record WsBridgeConfig =
  ws_listen :: string
  shared_secret :: "string option"
  ws_max_connections :: nat
  ws_max_message_bytes :: nat
  unauthenticated_access :: UnauthenticatedAccess

definition DEFAULT_WS_MAX_CONNECTIONS :: nat where "DEFAULT_WS_MAX_CONNECTIONS = 64"
definition DEFAULT_WS_MAX_MESSAGE_BYTES :: nat where "DEFAULT_WS_MAX_MESSAGE_BYTES = 256 * 1024"

definition default_ws_config :: WsBridgeConfig where
  "default_ws_config = \<lparr>ws_listen = ''127.0.0.1:9022'', shared_secret = None,
     ws_max_connections = DEFAULT_WS_MAX_CONNECTIONS, ws_max_message_bytes = DEFAULT_WS_MAX_MESSAGE_BYTES,
     unauthenticated_access = Deny\<rparr>"

text \<open>A secret that is blank counts as none.\<close>

definition effective_secret :: "WsBridgeConfig \<Rightarrow> string option" where
  "effective_secret cfg =
     Option.bind (map_option trim (shared_secret cfg)) (\<lambda>s. if s = [] then None else Some s)"

definition ws_is_authenticated :: "WsBridgeConfig \<Rightarrow> bool" where
  "ws_is_authenticated cfg \<longleftrightarrow> effective_secret cfg \<noteq> None"

text \<open>The comparison of the bridge leaves early on a different length.\<close>

definition ws_constant_time_eq :: "u8 list \<Rightarrow> u8 list \<Rightarrow> bool" where
  "ws_constant_time_eq a b =
     (if length a \<noteq> length b then False
      else fold (\<lambda>(x, y) acc. acc OR (x XOR y)) (zip a b) 0 = (0 :: u8))"

section \<open>Messages and topics\<close>

datatype BusEventKind = QueryReceived | ResponseGenerated | EvaluationCompleted | ConceptUpdated
  | EdgeWeightAdjusted | ActionExecuted | SenateCompleted | ReasoningEvaluated | RandomWalkDiscovery
  | Heartbeat

datatype 'v BusMessage = HnnStatus string string real | SynergyDetection string string
  | AvidDiscovery string string | EvolveOptimization u32 real
  | Event BusEventKind string 'v string | Custom string 'v

datatype 'v WsClientMessage = Publish string 'v | Subscribe string | Unsubscribe string

record 'v WsForwardMessage =
  forward_topic :: string
  forward_payload :: 'v

fun extract_topic_payload :: "'v BusMessage \<Rightarrow> (string \<times> 'v) option" where
  "extract_topic_payload (Custom topic payload) = Some (topic, payload)"
| "extract_topic_payload _ = None"

definition match_topic :: "string \<Rightarrow> string \<Rightarrow> bool" where
  "match_topic pattern topic =
     (if pattern = ''*'' then True
      else case strip_prefix (rev ''.*'') (rev pattern) of
        Some pre \<Rightarrow> starts_with topic (rev pre)
      | None \<Rightarrow>
        (case strip_prefix ''*.'' pattern of
           Some suf \<Rightarrow> starts_with (rev topic) (rev suf)
         | None \<Rightarrow> pattern = topic))"

text \<open>The parts of \<open>serde_json\<close> and of the derived code: \<open>value_of\<close> parses any JSON text,
  \<open>str_field\<close> is \<open>get\<close> followed by \<open>as_str\<close>, \<open>client_message\<close> reads a client's message (with the text
  of the error), \<open>forward_text\<close> writes a forwarded message.\<close>

record 'v serde =
  value_of :: "string \<Rightarrow> 'v option"
  str_field :: "string \<Rightarrow> 'v \<Rightarrow> string option"
  client_message :: "string \<Rightarrow> string + 'v WsClientMessage"
  forward_text :: "'v WsForwardMessage \<Rightarrow> string + string"

definition quoted :: "string \<Rightarrow> string" where
  "quoted s = [CHR 0x22] @ s @ [CHR 0x22]"

definition auth_ok :: string where
  "auth_ok = ''{'' @ quoted ''type'' @ '':'' @ quoted ''auth_ok'' @ ''}''"

definition auth_error :: string where
  "auth_error = ''{'' @ quoted ''type'' @ '':'' @ quoted ''auth_error'' @ ''}''"

section \<open>State\<close>

text \<open>Where the task of a connection is: before the handshake; with its peer name; counted; in the
  loop; after the loop; after its topics are removed; after \<open>handle_connection\<close>. In the loop, each
  branch of the \<open>select!\<close> is open or was disabled in this turn.\<close>

datatype conn_phase = Accepted | Registered | Counted | Serving | Closing | Unsubscribed | Returned_Task

record ws_conn =
  cn_phase :: conn_phase
  peer_id :: string
  cn_authenticated :: bool
  bus_disabled :: bool
  client_disabled :: bool

record 'v WsBridgeState =
  br_config :: WsBridgeConfig
  subscriptions :: "string \<Rightarrow> string list option"
  connected_clients :: nat
  peer_counter :: u64
  br_limiter :: ConnectionLimiter
  conns :: "nat \<Rightarrow> ws_conn option"
  next_conn :: nat
  br_published :: "'v BusMessage list"
  br_frames :: "(nat \<times> string) list"

definition bridge_new :: "WsBridgeConfig \<Rightarrow> 'v WsBridgeState" where
  "bridge_new cfg = \<lparr>br_config = cfg, subscriptions = (\<lambda>_. None), connected_clients = 0,
     peer_counter = 0, br_limiter = connection_limiter_new (ws_max_connections cfg),
     conns = (\<lambda>_. None), next_conn = 0, br_published = [], br_frames = []\<rparr>"

definition new_conn :: ws_conn where
  "new_conn = \<lparr>cn_phase = Accepted, peer_id = [], cn_authenticated = False,
     bus_disabled = False, client_disabled = False\<rparr>"

definition set_conn :: "nat \<Rightarrow> ws_conn \<Rightarrow> 'v WsBridgeState \<Rightarrow> 'v WsBridgeState" where
  "set_conn t c b = b\<lparr>conns := (conns b)(t := Some c)\<rparr>"

definition to_phase :: "conn_phase \<Rightarrow> ws_conn \<Rightarrow> ws_conn" where
  "to_phase p c = c\<lparr>cn_phase := p\<rparr>"

definition restart_select :: "ws_conn \<Rightarrow> ws_conn" where
  "restart_select c = c\<lparr>bus_disabled := False, client_disabled := False\<rparr>"

definition send_frame :: "nat \<Rightarrow> bool \<Rightarrow> string \<Rightarrow> 'v WsBridgeState \<Rightarrow> 'v WsBridgeState" where
  "send_frame t ok text b = (if ok then b\<lparr>br_frames := br_frames b @ [(t, text)]\<rparr> else b)"

section \<open>Operations\<close>

definition should_forward :: "string \<Rightarrow> 'v WsBridgeState \<Rightarrow> string \<Rightarrow> bool" where
  "should_forward peer b topic =
     (case subscriptions b peer of
        Some topics \<Rightarrow> list_ex (\<lambda>pat. match_topic pat topic) topics
      | None \<Rightarrow> False)"

definition handle_client_message :: "'v serde \<Rightarrow> string \<Rightarrow> string \<Rightarrow> 'v WsBridgeState \<Rightarrow> (string + unit) \<times> 'v WsBridgeState" where
  "handle_client_message sd text peer b =
     (case client_message sd text of
        Inl e \<Rightarrow> (Inl e, b)
      | Inr (Publish topic payload) \<Rightarrow> (Inr (), b\<lparr>br_published := br_published b @ [Custom topic payload]\<rparr>)
      | Inr (Subscribe topic) \<Rightarrow>
          (Inr (), case subscriptions b peer of
             Some topics \<Rightarrow>
               if topic \<in> set topics then b
               else b\<lparr>subscriptions := (subscriptions b)(peer := Some (topics @ [topic]))\<rparr>
           | None \<Rightarrow> b)
      | Inr (Unsubscribe topic) \<Rightarrow>
          (Inr (), case subscriptions b peer of
             Some topics \<Rightarrow> b\<lparr>subscriptions := (subscriptions b)(peer := Some (filter (\<lambda>t. t \<noteq> topic) topics))\<rparr>
           | None \<Rightarrow> b))"

definition presented :: "'v serde \<Rightarrow> string \<Rightarrow> string option" where
  "presented sd text = Option.bind (value_of sd text) (str_field sd ''token'')"

definition token_accepted :: "'v serde \<Rightarrow> WsBridgeConfig \<Rightarrow> string \<Rightarrow> bool" where
  "token_accepted sd cfg text =
     (case (presented sd text, effective_secret cfg) of
        (Some token, Some secret) \<Rightarrow> ws_constant_time_eq (as_bytes token) (as_bytes secret)
      | _ \<Rightarrow> False)"

datatype 'v bus_answer = Received "'v BusMessage" | Recv_Error

datatype client_answer = Text_In string | Other_Frame | Read_Error | Stream_Ended

datatype 'v bridge_label = Accept_Stream | Accept_Error | Handshake nat bool | Count_Client nat
  | Insert_Topics nat | Bus_Branch nat "'v bus_answer" bool | Client_Branch nat client_answer bool
  | Else_Branch nat | Remove_Topics nat | Uncount_Client nat | Drop_Permit nat

text \<open>The accept loop of \<open>run_server\<close>.\<close>

definition accept_stream :: "'v WsBridgeState \<Rightarrow> 'v WsBridgeState" where
  "accept_stream b =
     (case try_acquire (br_limiter b) of
        (True, l) \<Rightarrow> (set_conn (next_conn b) new_conn b)\<lparr>br_limiter := l, next_conn := next_conn b + 1\<rparr>
      | (False, l) \<Rightarrow> b\<lparr>br_limiter := l\<rparr>)"

text \<open>The start of \<open>handle_connection\<close>, up to the name of the peer.\<close>

definition handshake :: "nat \<Rightarrow> ws_conn \<Rightarrow> bool \<Rightarrow> 'v WsBridgeState \<Rightarrow> 'v WsBridgeState" where
  "handshake t c upgraded b =
     (if effective_secret (br_config b) = None \<and> unauthenticated_access (br_config b) = Deny
      then set_conn t (to_phase Returned_Task c) b
      else if \<not> upgraded then set_conn t (to_phase Returned_Task c) b
      else (set_conn t (to_phase Registered (c\<lparr>peer_id := ''ws-'' @ show_nat (unat (peer_counter b))\<rparr>)) b)
             \<lparr>peer_counter := peer_counter b + 1\<rparr>)"

definition count_client :: "nat \<Rightarrow> ws_conn \<Rightarrow> 'v WsBridgeState \<Rightarrow> 'v WsBridgeState" where
  "count_client t c b = (set_conn t (to_phase Counted c) b)\<lparr>connected_clients := connected_clients b + 1\<rparr>"

definition insert_topics :: "nat \<Rightarrow> ws_conn \<Rightarrow> 'v WsBridgeState \<Rightarrow> 'v WsBridgeState" where
  "insert_topics t c b =
     (set_conn t (restart_select (to_phase Serving
         (c\<lparr>cn_authenticated := (effective_secret (br_config b) = None)\<rparr>))) b)
       \<lparr>subscriptions := (subscriptions b)(peer_id c := Some [''*''])\<rparr>"

text \<open>One turn of the loop: a message of the bus, a message of the client, or neither.\<close>

fun bus_branch :: "'v serde \<Rightarrow> nat \<Rightarrow> ws_conn \<Rightarrow> 'v bus_answer \<Rightarrow> bool \<Rightarrow> 'v WsBridgeState \<Rightarrow> 'v WsBridgeState" where
  "bus_branch sd t c Recv_Error sent b = set_conn t (c\<lparr>bus_disabled := True\<rparr>) b"
| "bus_branch sd t c (Received msg) sent b =
     (case extract_topic_payload msg of
        None \<Rightarrow> set_conn t (restart_select c) b
      | Some (topic, payload) \<Rightarrow>
        if should_forward (peer_id c) b topic then
          case forward_text sd \<lparr>forward_topic = topic, forward_payload = payload\<rparr> of
            Inl e \<Rightarrow> set_conn t (restart_select c) b
          | Inr json \<Rightarrow>
            if sent then set_conn t (restart_select c) (send_frame t sent json b)
            else set_conn t (to_phase Closing c) b
        else set_conn t (restart_select c) b)"

fun client_branch :: "'v serde \<Rightarrow> nat \<Rightarrow> ws_conn \<Rightarrow> client_answer \<Rightarrow> bool \<Rightarrow> 'v WsBridgeState \<Rightarrow> 'v WsBridgeState" where
  "client_branch sd t c (Text_In text) sent b =
     (if \<not> cn_authenticated c then
        if token_accepted sd (br_config b) text
        then set_conn t (restart_select (c\<lparr>cn_authenticated := True\<rparr>)) (send_frame t sent auth_ok b)
        else set_conn t (to_phase Closing c) (send_frame t sent auth_error b)
      else set_conn t (restart_select c) (snd (handle_client_message sd text (peer_id c) b)))"
| "client_branch sd t c Other_Frame sent b = set_conn t (restart_select c) b"
| "client_branch sd t c Read_Error sent b = set_conn t (to_phase Closing c) b"
| "client_branch sd t c Stream_Ended sent b = set_conn t (c\<lparr>client_disabled := True\<rparr>) b"

definition remove_topics :: "nat \<Rightarrow> ws_conn \<Rightarrow> 'v WsBridgeState \<Rightarrow> 'v WsBridgeState" where
  "remove_topics t c b = (set_conn t (to_phase Unsubscribed c) b)\<lparr>subscriptions := (subscriptions b)(peer_id c := None)\<rparr>"

definition uncount_client :: "nat \<Rightarrow> ws_conn \<Rightarrow> 'v WsBridgeState \<Rightarrow> 'v WsBridgeState" where
  "uncount_client t c b = (set_conn t (to_phase Returned_Task c) b)\<lparr>connected_clients := connected_clients b - 1\<rparr>"

definition end_task :: "nat \<Rightarrow> 'v WsBridgeState \<Rightarrow> 'v WsBridgeState" where
  "end_task t b = b\<lparr>conns := (conns b)(t := None), br_limiter := drop_permit (br_limiter b)\<rparr>"

definition at_phase :: "conn_phase \<Rightarrow> nat \<Rightarrow> 'v WsBridgeState \<Rightarrow> (ws_conn \<Rightarrow> 'v WsBridgeState) \<Rightarrow> 'v WsBridgeState option" where
  "at_phase p t b f =
     Option.bind (conns b t) (\<lambda>c. if cn_phase c = p then Some (f c) else None)"

fun bridge_step :: "'v serde \<Rightarrow> 'v bridge_label \<Rightarrow> 'v WsBridgeState \<Rightarrow> 'v WsBridgeState option" where
  "bridge_step sd Accept_Stream b = Some (accept_stream b)"
| "bridge_step sd Accept_Error b = Some b"
| "bridge_step sd (Handshake t upgraded) b = at_phase Accepted t b (\<lambda>c. handshake t c upgraded b)"
| "bridge_step sd (Count_Client t) b = at_phase Registered t b (\<lambda>c. count_client t c b)"
| "bridge_step sd (Insert_Topics t) b = at_phase Counted t b (\<lambda>c. insert_topics t c b)"
| "bridge_step sd (Bus_Branch t answer sent) b =
     Option.bind (conns b t) (\<lambda>c.
       if cn_phase c = Serving \<and> \<not> bus_disabled c then Some (bus_branch sd t c answer sent b) else None)"
| "bridge_step sd (Client_Branch t answer sent) b =
     Option.bind (conns b t) (\<lambda>c.
       if cn_phase c = Serving \<and> \<not> client_disabled c then Some (client_branch sd t c answer sent b) else None)"
| "bridge_step sd (Else_Branch t) b =
     Option.bind (conns b t) (\<lambda>c.
       if cn_phase c = Serving \<and> bus_disabled c \<and> client_disabled c
       then Some (set_conn t (to_phase Closing c) b) else None)"
| "bridge_step sd (Remove_Topics t) b = at_phase Closing t b (\<lambda>c. remove_topics t c b)"
| "bridge_step sd (Uncount_Client t) b = at_phase Unsubscribed t b (\<lambda>c. uncount_client t c b)"
| "bridge_step sd (Drop_Permit t) b = at_phase Returned_Task t b (\<lambda>c. end_task t b)"

fun bridge_run :: "'v serde \<Rightarrow> 'v bridge_label list \<Rightarrow> 'v WsBridgeState \<Rightarrow> 'v WsBridgeState option" where
  "bridge_run sd [] b = Some b"
| "bridge_run sd (l # ls) b = Option.bind (bridge_step sd l b) (bridge_run sd ls)"

section \<open>Interface of a pool of permits\<close>

locale permit_pool =
  fixes acquire :: "'p \<Rightarrow> bool \<times> 'p" and release :: "'p \<Rightarrow> 'p" and free :: "'p \<Rightarrow> nat" and capacity :: "'p \<Rightarrow> nat"
  assumes acquire_free: "free p > 0 \<Longrightarrow> acquire p = (True, p') \<Longrightarrow> Suc (free p') = free p"
    and acquire_iff: "fst (acquire p) \<longleftrightarrow> free p > 0"
    and acquire_refused: "acquire p = (False, p') \<Longrightarrow> p' = p"
    and acquire_capacity: "capacity (snd (acquire p)) = capacity p"
    and release_free: "free (release p) = Suc (free p)"
    and release_capacity: "capacity (release p) = capacity p"
begin

definition held :: "nat \<Rightarrow> 'p \<Rightarrow> bool" where
  "held n p \<longleftrightarrow> free p + n = capacity p"

lemma held_acquire: "held n p \<Longrightarrow> acquire p = (True, p') \<Longrightarrow> held (Suc n) p'"
  using acquire_free [of p p'] acquire_iff [of p] acquire_capacity [of p] by (simp add: held_def)

lemma held_refused: "held n p \<Longrightarrow> acquire p = (False, p') \<Longrightarrow> p' = p \<and> n = capacity p"
  using acquire_refused [of p p'] acquire_iff [of p] by (simp add: held_def)

lemma held_release: "held (Suc n) p \<Longrightarrow> held n (release p)"
  by (simp add: held_def release_free release_capacity)

lemma held_bound: "held n p \<Longrightarrow> n \<le> capacity p"
  by (simp add: held_def)

end

interpretation pool: permit_pool try_acquire drop_permit available_permits conn_capacity
  by unfold_locales (auto simp: try_acquire_def drop_permit_def split: if_splits)

section \<open>Comparison and topics\<close>

lemma fold_or8_zero: "fold (\<lambda>(x, y) acc. acc OR (x XOR y)) ps d = (0 :: u8) \<longleftrightarrow> d = 0 \<and> (\<forall>(x, y) \<in> set ps. x = y)"
  by (induction ps arbitrary: d) (auto simp: or_eq_0_iff xor_zero_iff)

lemma ws_constant_time_eq_iff [simp]: "ws_constant_time_eq a b \<longleftrightarrow> a = b"
  by (auto simp: ws_constant_time_eq_def fold_or8_zero list_eq_iff_zip_eq)

lemma token_accepted_iff: "token_accepted sd cfg x \<longleftrightarrow> presented sd x \<noteq> None \<and> presented sd x = effective_secret cfg"
  by (auto simp: token_accepted_def split: option.splits)

lemma should_forward_all: "subscriptions b p = Some [''*''] \<Longrightarrow> should_forward p b topic"
  by (simp add: should_forward_def match_topic_def)

end
