(* ===== verification/Ws_Theorems.thy ===== *)
theory Ws_Theorems
  imports Ws_Bridge
begin

text \<open>
  Invariants of the WebSocket bridge over its runs: permits, the counter of clients, the names of the
  peers and the topic table follow the phases of the connections, and the authentication of a
  connection and the messages on the bus come from what the clients presented.
\<close>

section \<open>Connections by phase\<close>

definition having :: "(ws_conn \<Rightarrow> bool) \<Rightarrow> 'v WsBridgeState \<Rightarrow> nat set" where
  "having P b = {t. \<exists>c. conns b t = Some c \<and> P c}"

definition named_phase :: "conn_phase \<Rightarrow> bool" where
  "named_phase p \<longleftrightarrow> p \<in> {Registered, Counted, Serving, Closing, Unsubscribed}"

definition counted_phase :: "conn_phase \<Rightarrow> bool" where
  "counted_phase p \<longleftrightarrow> p \<in> {Counted, Serving, Closing, Unsubscribed}"

definition listed_phase :: "conn_phase \<Rightarrow> bool" where
  "listed_phase p \<longleftrightarrow> p \<in> {Serving, Closing}"

lemmas phase_defs = named_phase_def counted_phase_def listed_phase_def

text \<open>The invariant in four parts: permits, the counter of clients, the names of the peers (for a
  run of \<open>n\<close> steps), and the topics.\<close>

definition permits_ok :: "WsBridgeConfig \<Rightarrow> 'v WsBridgeState \<Rightarrow> bool" where
  "permits_ok cfg b \<longleftrightarrow> br_config b = cfg \<and> having (\<lambda>_. True) b \<subseteq> {..<next_conn b}
     \<and> conn_capacity (br_limiter b) = max (ws_max_connections cfg) 1
     \<and> pool.held (card (having (\<lambda>_. True) b)) (br_limiter b)"

definition count_ok :: "'v WsBridgeState \<Rightarrow> bool" where
  "count_ok b \<longleftrightarrow> connected_clients b = card (having (counted_phase \<circ> cn_phase) b)"

definition peer_name :: "nat \<Rightarrow> string" where
  "peer_name i = ''ws-'' @ show_nat i"

definition names_ok :: "nat \<Rightarrow> 'v WsBridgeState \<Rightarrow> bool" where
  "names_ok n b \<longleftrightarrow> unat (peer_counter b) \<le> n
     \<and> (\<forall>t c. conns b t = Some c \<and> named_phase (cn_phase c) \<longrightarrow>
          (\<exists>i < unat (peer_counter b). peer_id c = peer_name i))
     \<and> (\<forall>t t' c c'. conns b t = Some c \<and> conns b t' = Some c' \<and> named_phase (cn_phase c) \<and> named_phase (cn_phase c') \<and>
          peer_id c = peer_id c' \<longrightarrow> t = t')"

definition listed_peers :: "'v WsBridgeState \<Rightarrow> string set" where
  "listed_peers b = {p. \<exists>t c. conns b t = Some c \<and> listed_phase (cn_phase c) \<and> peer_id c = p}"

definition topics_ok :: "'v WsBridgeState \<Rightarrow> bool" where
  "topics_ok b \<longleftrightarrow> dom (subscriptions b) = listed_peers b
     \<and> (\<forall>t c. conns b t = Some c \<and> cn_phase c = Serving \<and> \<not> cn_authenticated c \<longrightarrow>
          subscriptions b (peer_id c) = Some [''*''])"

lemma handle_client_message_frame [simp]:
  "conns (snd (handle_client_message sd x p b)) = conns b"
  "br_config (snd (handle_client_message sd x p b)) = br_config b"
  "connected_clients (snd (handle_client_message sd x p b)) = connected_clients b"
  "peer_counter (snd (handle_client_message sd x p b)) = peer_counter b"
  "br_limiter (snd (handle_client_message sd x p b)) = br_limiter b"
  "next_conn (snd (handle_client_message sd x p b)) = next_conn b"
  by (auto simp: handle_client_message_def split: sum.split WsClientMessage.split option.split)

lemma send_frame_frame [simp]:
  "conns (send_frame t ok x b) = conns b"
  "br_config (send_frame t ok x b) = br_config b"
  "connected_clients (send_frame t ok x b) = connected_clients b"
  "peer_counter (send_frame t ok x b) = peer_counter b"
  "br_limiter (send_frame t ok x b) = br_limiter b"
  "next_conn (send_frame t ok x b) = next_conn b"
  "subscriptions (send_frame t ok x b) = subscriptions b"
  "br_published (send_frame t ok x b) = br_published b"
  by (auto simp: send_frame_def)

lemmas step_defs = at_phase_def accept_stream_def handshake_def count_client_def insert_topics_def
  remove_topics_def uncount_client_def end_task_def set_conn_def to_phase_def restart_select_def


lemma having_upd: "conns b' = (conns b)(t := Some c) \<Longrightarrow>
    having P b' = (if P c then insert t (having P b) else having P b - {t})"
  by (auto simp: having_def)

text \<open>The turns of the loop only change the state of their own connection, and end in the loop or
  behind it.\<close>

lemma bus_branch_turn:
  obtains c' where "conns (bus_branch sd t c a s b) = (conns b)(t := Some c')" "peer_id c' = peer_id c"
    "cn_authenticated c' = cn_authenticated c" "cn_phase c' \<in> {cn_phase c, Closing}"
    "br_config (bus_branch sd t c a s b) = br_config b"
    "connected_clients (bus_branch sd t c a s b) = connected_clients b"
    "peer_counter (bus_branch sd t c a s b) = peer_counter b"
    "br_limiter (bus_branch sd t c a s b) = br_limiter b"
    "next_conn (bus_branch sd t c a s b) = next_conn b"
    "subscriptions (bus_branch sd t c a s b) = subscriptions b"
    "br_published (bus_branch sd t c a s b) = br_published b"
proof (cases a)
  case (Received m)
  then show ?thesis
    by (intro that [of "the (conns (bus_branch sd t c a s b) t)"])
      (auto simp: set_conn_def restart_select_def to_phase_def split: option.split sum.split)
qed (auto simp: set_conn_def intro!: that)

lemma client_branch_turn:
  obtains c' where "conns (client_branch sd t c a s b) = (conns b)(t := Some c')" "peer_id c' = peer_id c"
    "cn_phase c' \<in> {cn_phase c, Closing}" "cn_authenticated c \<Longrightarrow> cn_authenticated c'"
    "br_config (client_branch sd t c a s b) = br_config b"
    "connected_clients (client_branch sd t c a s b) = connected_clients b"
    "peer_counter (client_branch sd t c a s b) = peer_counter b"
    "br_limiter (client_branch sd t c a s b) = br_limiter b"
    "next_conn (client_branch sd t c a s b) = next_conn b"
proof (cases a)
  case (Text_In x)
  then show ?thesis
    by (intro that [of "the (conns (client_branch sd t c a s b) t)"])
      (auto simp: set_conn_def restart_select_def to_phase_def)
qed (auto simp: set_conn_def restart_select_def to_phase_def intro!: that)

text \<open>Every step leaves the connections alone, adds one, ends one, or moves one: then the counter,
  the name and the topics of that connection follow its phases.\<close>

definition moves :: "nat \<Rightarrow> ws_conn \<Rightarrow> ws_conn \<Rightarrow> 'v WsBridgeState \<Rightarrow> 'v WsBridgeState \<Rightarrow> bool" where
  "moves t c c' b b' \<longleftrightarrow> conns b t = Some c \<and> conns b' = (conns b)(t := Some c')
     \<and> br_config b' = br_config b \<and> br_limiter b' = br_limiter b \<and> next_conn b' = next_conn b
     \<and> connected_clients b' = connected_clients b + of_bool (counted_phase (cn_phase c')) - of_bool (counted_phase (cn_phase c))
     \<and> (if named_phase (cn_phase c') \<and> \<not> named_phase (cn_phase c)
        then peer_id c' = peer_name (unat (peer_counter b)) \<and> peer_counter b' = peer_counter b + 1
        else peer_id c' = peer_id c \<and> peer_counter b' = peer_counter b)"

definition retopics :: "ws_conn \<Rightarrow> ws_conn \<Rightarrow> 'v WsBridgeState \<Rightarrow> 'v WsBridgeState \<Rightarrow> bool" where
  "retopics c c' b b' \<longleftrightarrow>
     (case (listed_phase (cn_phase c), listed_phase (cn_phase c')) of
        (False, False) \<Rightarrow> subscriptions b' = subscriptions b
      | (False, True) \<Rightarrow> named_phase (cn_phase c) \<and> subscriptions b' = (subscriptions b)(peer_id c := Some [''*''])
      | (True, False) \<Rightarrow> subscriptions b' = (subscriptions b)(peer_id c := None)
      | (True, True) \<Rightarrow> cn_phase c = Serving \<and> (cn_authenticated c \<longrightarrow> cn_authenticated c')
          \<and> (subscriptions b' = subscriptions b \<or>
             cn_authenticated c \<and> (\<exists>ts. subscriptions b' = (subscriptions b)(peer_id c := Some ts))))"

lemma client_message_topics:
  "subscriptions (snd (handle_client_message sd x p b)) = subscriptions b \<or>
   (\<exists>ts. subscriptions (snd (handle_client_message sd x p b)) = (subscriptions b)(p := Some ts))"
  by (auto simp: handle_client_message_def split: sum.split WsClientMessage.split option.split)

lemma client_branch_topics:
  "subscriptions (client_branch sd t c a s b) = subscriptions b \<or>
   cn_authenticated c \<and> (\<exists>ts. subscriptions (client_branch sd t c a s b) = (subscriptions b)(peer_id c := Some ts))"
  using client_message_topics [of sd _ "peer_id c" b] by (cases a) (auto simp: set_conn_def)

lemma bridge_step_kinds:
  assumes "bridge_step sd l b = Some b'"
  obtains (idle) "b' = b"
  | (accepted) "b' = accept_stream b"
  | (moved) t c c' where "moves t c c' b b'" "retopics c c' b b'"
  | (ended) t c where "conns b t = Some c" "cn_phase c = Returned_Task" "b' = end_task t b"
proof (cases l)
  case (Bus_Branch t a s)
  with assms obtain c where c: "conns b t = Some c" "cn_phase c = Serving" "b' = bus_branch sd t c a s b"
    by (auto split: if_splits bind_splits)
  show ?thesis by (rule bus_branch_turn [of sd t c a s b]) (rule moved [of t c], auto simp: moves_def retopics_def phase_defs c)
next
  case (Client_Branch t a s)
  with assms obtain c where c: "conns b t = Some c" "cn_phase c = Serving" "b' = client_branch sd t c a s b"
    by (auto split: if_splits bind_splits)
  show ?thesis using client_branch_topics [of sd t c a s b]
    by (rule_tac client_branch_turn [of sd t c a s b]) (rule moved [of t c], auto simp: moves_def retopics_def phase_defs c)
next
  case (Handshake t u)
  with assms obtain c where c: "conns b t = Some c" "cn_phase c = Accepted" "b' = handshake t c u b"
    by (auto simp: at_phase_def split: if_splits bind_splits)
  show ?thesis
    by (rule moved [of t c "the (conns b' t)"])
      (auto simp: c moves_def retopics_def phase_defs handshake_def set_conn_def to_phase_def peer_name_def)
next
  case (Count_Client t)
  with assms obtain c where c: "conns b t = Some c" "cn_phase c = Registered" "b' = count_client t c b"
    by (auto simp: at_phase_def split: if_splits bind_splits)
  show ?thesis
    by (rule moved [of t c "the (conns b' t)"])
      (auto simp: c moves_def retopics_def phase_defs count_client_def set_conn_def to_phase_def)
next
  case (Insert_Topics t)
  with assms obtain c where c: "conns b t = Some c" "cn_phase c = Counted" "b' = insert_topics t c b"
    by (auto simp: at_phase_def split: if_splits bind_splits)
  show ?thesis
    by (rule moved [of t c "the (conns b' t)"])
      (auto simp: c moves_def retopics_def phase_defs insert_topics_def set_conn_def to_phase_def restart_select_def)
next
  case (Else_Branch t)
  with assms obtain c where c: "conns b t = Some c" "cn_phase c = Serving" "b' = set_conn t (to_phase Closing c) b"
    by (auto split: if_splits bind_splits)
  show ?thesis
    by (rule moved [of t c "the (conns b' t)"]) (auto simp: c moves_def retopics_def phase_defs set_conn_def to_phase_def)
next
  case (Remove_Topics t)
  with assms obtain c where c: "conns b t = Some c" "cn_phase c = Closing" "b' = remove_topics t c b"
    by (auto simp: at_phase_def split: if_splits bind_splits)
  show ?thesis
    by (rule moved [of t c "the (conns b' t)"])
      (auto simp: c moves_def retopics_def phase_defs remove_topics_def set_conn_def to_phase_def)
next
  case (Uncount_Client t)
  with assms obtain c where c: "conns b t = Some c" "cn_phase c = Unsubscribed" "b' = uncount_client t c b"
    by (auto simp: at_phase_def split: if_splits bind_splits)
  show ?thesis
    by (rule moved [of t c "the (conns b' t)"])
      (auto simp: c moves_def retopics_def phase_defs uncount_client_def set_conn_def to_phase_def)
next
  case (Drop_Permit t)
  with assms obtain c where "conns b t = Some c" "cn_phase c = Returned_Task" "b' = end_task t b"
    by (auto simp: at_phase_def split: if_splits bind_splits)
  then show ?thesis by (rule ended)
next
  case Accept_Stream
  with assms show ?thesis by (intro accepted) simp
next
  case Accept_Error
  with assms show ?thesis by (intro idle) simp
qed


lemma permits_step: assumes "permits_ok cfg b" "bridge_step sd l b = Some b'" shows "permits_ok cfg b'"
  using assms(2)
proof (cases rule: bridge_step_kinds)
  case accepted
  have f: "finite (having (\<lambda>_. True) b)" "next_conn b \<notin> having (\<lambda>_. True) b"
    using assms(1) by (auto simp: permits_ok_def intro: finite_subset)
  show ?thesis
  proof (cases "try_acquire (br_limiter b)")
    case (Pair ok l)
    then have h: "having (\<lambda>_. True) b' = (if ok then insert (next_conn b) (having (\<lambda>_. True) b) else having (\<lambda>_. True) b)"
      by (auto simp: accepted accept_stream_def having_def set_conn_def)
    then have "pool.held (card (having (\<lambda>_. True) b')) l"
      using f Pair assms(1) pool.held_acquire [of _ "br_limiter b" l]
        pool.held_refused [of "card (having (\<lambda>_. True) b)" "br_limiter b" l]
      by (cases ok) (simp_all add: permits_ok_def)
    with h Pair assms(1) pool.acquire_capacity [of "br_limiter b"] show ?thesis
      by (cases ok) (auto simp: accepted permits_ok_def accept_stream_def set_conn_def)
  qed
next
  case (moved t c c')
  then have "having (\<lambda>_. True) b' = having (\<lambda>_. True) b" by (auto simp: moves_def having_def)
  with moved(1) assms(1) show ?thesis by (simp add: permits_ok_def moves_def)
next
  case (ended t c)
  have h: "having (\<lambda>_. True) b' = having (\<lambda>_. True) b - {t}" "t \<in> having (\<lambda>_. True) b" "finite (having (\<lambda>_. True) b)"
    using ended assms(1) by (auto simp: end_task_def having_def permits_ok_def intro: finite_subset split: if_splits)
  then have "card (having (\<lambda>_. True) b) = Suc (card (having (\<lambda>_. True) b'))"
    by (simp only: card.remove [of _ t])
  with h(1) assms(1) ended show ?thesis
    by (auto simp: permits_ok_def end_task_def pool.held_release pool.release_capacity)
qed (use assms(1) in simp)

lemma count_step: assumes "permits_ok cfg b" "count_ok b" "bridge_step sd l b = Some b'" shows "count_ok b'"
  using assms(3)
proof (cases rule: bridge_step_kinds)
  case accepted
  have "next_conn b \<notin> having (\<lambda>_. True) b" using assms(1) by (auto simp: permits_ok_def)
  then have "having (counted_phase \<circ> cn_phase) b' = having (counted_phase \<circ> cn_phase) b"
    by (auto simp: accepted accept_stream_def try_acquire_def having_def set_conn_def new_conn_def phase_defs)
  with assms(2) show ?thesis by (auto simp: count_ok_def accepted accept_stream_def try_acquire_def set_conn_def)
next
  case (moved t c c')
  let ?A = "having (counted_phase \<circ> cn_phase)"
  have fin: "finite (?A b)"
    using assms(1) by (auto simp: permits_ok_def having_def intro: finite_subset [of _ "{..<next_conn b}"])
  have t: "t \<in> ?A b \<longleftrightarrow> counted_phase (cn_phase c)" using moved(1) by (auto simp: moves_def having_def)
  have "?A b' = (if counted_phase (cn_phase c') then insert t (?A b) else ?A b - {t})"
    using moved(1) by (subst having_upd [of b' b t c']) (auto simp: moves_def)
  then have "card (?A b') = card (?A b) + of_bool (counted_phase (cn_phase c')) - of_bool (counted_phase (cn_phase c))"
    using fin t by (auto simp: card_insert_if)
  with moved(1) assms(2) show ?thesis by (simp add: count_ok_def moves_def)
next
  case (ended t c)
  then have "having (counted_phase \<circ> cn_phase) b' = having (counted_phase \<circ> cn_phase) b"
    by (auto simp: end_task_def having_def phase_defs)
  with assms(2) ended show ?thesis by (simp add: count_ok_def end_task_def)
qed (use assms(2) in simp)


lemma peer_name_inject [simp]: "peer_name i = peer_name j \<longleftrightarrow> i = j"
  unfolding peer_name_def by (metis digits_val_show_nat option.inject same_append_eq)

lemma conns_accept: "conns (accept_stream b) t = Some c \<Longrightarrow> conns b t = Some c \<or> t = next_conn b \<and> c = new_conn"
  by (auto simp: accept_stream_def try_acquire_def set_conn_def split: if_splits)

lemma unat_Suc: "unat (x + 1 :: u64) = Suc (unat x)" if "Suc (unat x) < 2 ^ 64"
  using that by (simp add: unat_word_ariths)

lemma names_moves:
  assumes "names_ok n b" "moves t c c' b b'" "Suc n < 2 ^ 64"
  shows "names_ok (Suc n) b'"
proof -
  note m = assms(2) [unfolded moves_def]
  have le: "unat (peer_counter b) \<le> n"
    and old: "\<And>s d. conns b s = Some d \<Longrightarrow> named_phase (cn_phase d) \<Longrightarrow> \<exists>i < unat (peer_counter b). peer_id d = peer_name i"
    and inj: "\<And>s s' d d'. conns b s = Some d \<Longrightarrow> conns b s' = Some d' \<Longrightarrow> named_phase (cn_phase d) \<Longrightarrow>
      named_phase (cn_phase d') \<Longrightarrow> peer_id d = peer_id d' \<Longrightarrow> s = s'"
    using assms(1) unfolding names_ok_def by blast+
  have ct: "unat (peer_counter b') = unat (peer_counter b) + of_bool (named_phase (cn_phase c') \<and> \<not> named_phase (cn_phase c))"
    using m le assms(3) by (cases "named_phase (cn_phase c') \<and> \<not> named_phase (cn_phase c)") (simp_all add: unat_Suc)
  have nm: "\<exists>i < unat (peer_counter b'). peer_id c' = peer_name i" if "named_phase (cn_phase c')"
    using that m ct old [of t c] by (cases "named_phase (cn_phase c)") auto
  have nm': "\<exists>i < unat (peer_counter b'). peer_id d = peer_name i" if "conns b' s = Some d" "named_phase (cn_phase d)" for s d
  proof (cases "s = t")
    case False
    with that m old [of s d] obtain i where "i < unat (peer_counter b)" "peer_id d = peer_name i" by auto
    with ct show ?thesis by (intro exI [of _ i]) auto
  qed (use that m nm in simp)
  have fresh: "peer_id d \<noteq> peer_id c'" if "conns b s = Some d" "named_phase (cn_phase d)" "named_phase (cn_phase c')" "s \<noteq> t" for s d
  proof (cases "named_phase (cn_phase c)")
    case True
    with that m inj [of s d t c] show ?thesis by auto
  next
    case False
    with that(3) m have "peer_id c' = peer_name (unat (peer_counter b))" by simp
    with old [OF that(1,2)] show ?thesis by auto
  qed
  have "s = s'" if "conns b' s = Some d" "conns b' s' = Some d'" "named_phase (cn_phase d)" "named_phase (cn_phase d')"
    "peer_id d = peer_id d'" for s s' d d'
  proof (rule ccontr)
    assume "s \<noteq> s'"
    have cs: "conns b' = (conns b)(t := Some c')" using m by simp
    show False
      using that fresh [of s d] fresh [of s' d'] inj [of s d s' d'] \<open>s \<noteq> s'\<close> unfolding cs by (cases "s = t"; cases "s' = t") auto
  qed
  moreover have "unat (peer_counter b') \<le> Suc n" using ct le by auto
  ultimately show ?thesis using nm' unfolding names_ok_def by blast
qed

lemma names_step:
  assumes "names_ok n b" "bridge_step sd l b = Some b'" "Suc n < 2 ^ 64"
  shows "names_ok (Suc n) b'"
  using assms(2)
proof (cases rule: bridge_step_kinds)
  case accepted
  have "peer_counter b' = peer_counter b"
    by (simp add: accepted accept_stream_def try_acquire_def set_conn_def)
  moreover have "conns b s = Some d" if "conns b' s = Some d" "named_phase (cn_phase d)" for s d
    using conns_accept [of b s d] that by (auto simp: accepted new_conn_def phase_defs)
  ultimately show ?thesis using assms(1) unfolding names_ok_def by (metis le_SucI)
next
  case (moved t c c')
  with assms(1,3) show ?thesis by (blast intro: names_moves)
next
  case (ended t c)
  have "conns b s = Some d" if "conns b' s = Some d" for s d
    using that by (auto simp: ended end_task_def split: if_splits)
  moreover have "peer_counter b' = peer_counter b" by (simp add: ended end_task_def)
  ultimately show ?thesis using assms(1) unfolding names_ok_def by (metis le_SucI)
qed (use assms(1) in \<open>auto simp: names_ok_def\<close>)


lemma listed_moves:
  assumes "names_ok n b" "moves t c c' b b'" "listed_phase (cn_phase c') \<Longrightarrow> named_phase (cn_phase c)"
  shows "listed_peers b' = (listed_peers b - (if listed_phase (cn_phase c) then {peer_id c} else {}))
    \<union> (if listed_phase (cn_phase c') then {peer_id c} else {})"
proof -
  have cs: "conns b t = Some c" "conns b' = (conns b)(t := Some c')" using assms(2) by (auto simp: moves_def)
  have inj: "\<And>s d. conns b s = Some d \<Longrightarrow> named_phase (cn_phase d) \<Longrightarrow> named_phase (cn_phase c) \<Longrightarrow> peer_id d = peer_id c \<Longrightarrow> s = t"
    using assms(1) cs(1) unfolding names_ok_def by blast
  have sub: "listed_phase p \<Longrightarrow> named_phase p" for p by (auto simp: phase_defs)
  have p: "listed_phase (cn_phase c') \<Longrightarrow> peer_id c' = peer_id c"
    using assms(2,3) unfolding moves_def by metis
  have rest: "{p. \<exists>s d. s \<noteq> t \<and> conns b s = Some d \<and> listed_phase (cn_phase d) \<and> peer_id d = p} =
      listed_peers b - (if listed_phase (cn_phase c) then {peer_id c} else {})"
  proof (cases "listed_phase (cn_phase c)")
    case True
    then have "conns b s = Some d \<and> listed_phase (cn_phase d) \<and> peer_id d = p \<Longrightarrow> s \<noteq> t \<longleftrightarrow> p \<noteq> peer_id c" for s d p
      using inj [of s d] sub [of "cn_phase c"] sub [of "cn_phase d"] cs(1) by auto
    with True show ?thesis unfolding listed_peers_def by (simp, blast)
  next
    case False
    then have "\<And>s d. conns b s = Some d \<Longrightarrow> listed_phase (cn_phase d) \<Longrightarrow> s \<noteq> t" using cs(1) by auto
    with False show ?thesis unfolding listed_peers_def by auto
  qed
  have "listed_peers b' = {p. \<exists>s d. s \<noteq> t \<and> conns b s = Some d \<and> listed_phase (cn_phase d) \<and> peer_id d = p}
      \<union> (if listed_phase (cn_phase c') then {peer_id c'} else {})"
    unfolding listed_peers_def cs(2) by (auto split: if_splits)
  with rest p show ?thesis by simp
qed

lemma topics_moves:
  assumes "topics_ok b" "names_ok n b" "moves t c c' b b'" "retopics c c' b b'"
  shows "topics_ok b'"
proof -
  have m: "conns b t = Some c" "conns b' = (conns b)(t := Some c')" using assms(3) by (auto simp: moves_def)
  have dom: "dom (subscriptions b) = listed_peers b"
    and all: "\<And>s d. conns b s = Some d \<Longrightarrow> cn_phase d = Serving \<Longrightarrow> \<not> cn_authenticated d \<Longrightarrow> subscriptions b (peer_id d) = Some [''*'']"
    using assms(1) unfolding topics_ok_def by blast+
  have nm: "listed_phase (cn_phase c') \<or> listed_phase (cn_phase c) \<Longrightarrow> named_phase (cn_phase c)"
    using assms(4) by (auto simp: retopics_def phase_defs split: bool.splits)
  have cin: "peer_id c \<in> dom (subscriptions b)" if "listed_phase (cn_phase c)"
    using that m dom unfolding listed_peers_def by blast
  have "listed_peers b' = (listed_peers b - (if listed_phase (cn_phase c) then {peer_id c} else {}))
    \<union> (if listed_phase (cn_phase c') then {peer_id c} else {})"
    using assms(2,3) nm by (intro listed_moves) auto
  then have "dom (subscriptions b') = listed_peers b'"
    unfolding dom [symmetric] using assms(4) cin by (auto simp: retopics_def split: bool.splits)
  moreover have "subscriptions b' (peer_id d) = Some [''*'']"
    if "conns b' s = Some d" "cn_phase d = Serving" "\<not> cn_authenticated d" for s d
  proof (cases "s = t")
    case True
    with that m(2) have d: "d = c'" "listed_phase (cn_phase c')" by (auto simp: listed_phase_def)
    then have "peer_id c' = peer_id c" using nm assms(3) unfolding moves_def by metis
    with d that assms(4) all [OF m(1)] show ?thesis by (auto simp: retopics_def split: bool.splits)
  next
    case False
    with that m(2) have d: "conns b s = Some d" by simp
    have ne: "peer_id d \<noteq> peer_id c" if "named_phase (cn_phase c)"
    proof -
      have "named_phase (cn_phase d)" using \<open>cn_phase d = Serving\<close> by (simp add: named_phase_def)
      with that d m(1) False assms(2) show ?thesis unfolding names_ok_def by blast
    qed
    show ?thesis using all [OF d that(2,3)] ne nm assms(4) by (auto simp: retopics_def split: bool.splits)
  qed
  ultimately show ?thesis unfolding topics_ok_def by blast
qed

lemma listed_peers_cong:
  "(\<And>s d. conns b' s = Some d \<and> listed_phase (cn_phase d) \<longleftrightarrow> conns b s = Some d \<and> listed_phase (cn_phase d)) \<Longrightarrow>
     listed_peers b' = listed_peers b"
  unfolding listed_peers_def conj_assoc [symmetric] by presburger

lemma topics_step:
  assumes "topics_ok b" "names_ok n b" "permits_ok cfg b" "bridge_step sd l b = Some b'"
  shows "topics_ok b'"
  using assms(4)
proof (cases rule: bridge_step_kinds)
  case accepted
  have fresh: "conns b (next_conn b) = None"
    using assms(3) by (cases "conns b (next_conn b)") (auto simp: permits_ok_def having_def)
  have "conns b' s = Some d \<and> listed_phase (cn_phase d) \<longleftrightarrow> conns b s = Some d \<and> listed_phase (cn_phase d)" for s d
    using fresh by (auto simp: accepted accept_stream_def try_acquire_def set_conn_def new_conn_def listed_phase_def)
  then have "listed_peers b' = listed_peers b" by (rule listed_peers_cong)
  moreover have "subscriptions b' = subscriptions b"
    by (simp add: accepted accept_stream_def try_acquire_def set_conn_def)
  moreover have "conns b s = Some d" if "conns b' s = Some d" "cn_phase d = Serving" for s d
    using conns_accept [of b s d] that by (auto simp: accepted new_conn_def)
  ultimately show ?thesis using assms(1) unfolding topics_ok_def by metis
next
  case (moved t c c')
  with assms(1,2) show ?thesis by (blast intro: topics_moves)
next
  case (ended t c)
  have "listed_peers b' = listed_peers b"
    by (rule listed_peers_cong) (use ended in \<open>auto simp: end_task_def listed_phase_def\<close>)
  with ended assms(1) show ?thesis unfolding topics_ok_def by (auto simp: end_task_def split: if_splits)
qed (use assms(1) in simp)

definition bridge_ok :: "WsBridgeConfig \<Rightarrow> nat \<Rightarrow> 'v WsBridgeState \<Rightarrow> bool" where
  "bridge_ok cfg n b \<longleftrightarrow> permits_ok cfg b \<and> count_ok b \<and> names_ok n b \<and> topics_ok b"

lemma bridge_ok_new: "bridge_ok cfg 0 (bridge_new cfg)"
  by (simp add: bridge_ok_def bridge_new_def permits_ok_def count_ok_def names_ok_def topics_ok_def having_def
      listed_peers_def connection_limiter_new_def pool.held_def)

lemma bridge_ok_step:
  "bridge_ok cfg n b \<Longrightarrow> bridge_step sd l b = Some b' \<Longrightarrow> Suc n < 2 ^ 64 \<Longrightarrow> bridge_ok cfg (Suc n) b'"
  unfolding bridge_ok_def by (blast intro: permits_step count_step names_step topics_step)

lemma bridge_ok_run:
  "bridge_ok cfg n b \<Longrightarrow> bridge_run sd ls b = Some b' \<Longrightarrow> n + length ls < 2 ^ 64 \<Longrightarrow> bridge_ok cfg (n + length ls) b'"
proof (induction ls arbitrary: n b)
  case (Cons l ls)
  then obtain b1 where b1: "bridge_step sd l b = Some b1" "bridge_run sd ls b1 = Some b'"
    by (auto split: bind_splits)
  have "bridge_ok cfg (Suc n) b1" using Cons.prems b1(1) by (intro bridge_ok_step [of cfg n b]) auto
  from Cons.IH [OF this b1(2)] Cons.prems show ?case by simp
qed auto

section \<open>Who publishes\<close>

text \<open>Connection \<open>t\<close> may use the bus: there is no secret and the configuration says so, or it has
  presented the secret.\<close>

definition authorised :: "'v serde \<Rightarrow> WsBridgeConfig \<Rightarrow> 'v bridge_label list \<Rightarrow> nat \<Rightarrow> bool" where
  "authorised sd cfg ls t \<longleftrightarrow>
     (case effective_secret cfg of
        None \<Rightarrow> unauthenticated_access cfg = Allow
      | Some secret \<Rightarrow> \<exists>x s. Client_Branch t (Text_In x) s \<in> set ls \<and> presented sd x = Some secret)"

text \<open>Message \<open>m\<close> was published at some point of the history, by a connection that was authorised
  before.\<close>

definition published_by :: "'v serde \<Rightarrow> WsBridgeConfig \<Rightarrow> 'v bridge_label list \<Rightarrow> 'v BusMessage \<Rightarrow> bool" where
  "published_by sd cfg ls m \<longleftrightarrow>
     (\<exists>before after t x s topic payload. ls = before @ Client_Branch t (Text_In x) s # after
        \<and> client_message sd x = Inr (Publish topic payload) \<and> m = Custom topic payload \<and> authorised sd cfg before t)"

lemma authorised_mono: "authorised sd cfg ls t \<Longrightarrow> authorised sd cfg (ls @ ls') t"
  unfolding authorised_def by (auto split: option.splits)

lemma published_by_mono: "published_by sd cfg ls m \<Longrightarrow> published_by sd cfg (ls @ ls') m"
  unfolding published_by_def by (metis append_Cons append_assoc)

definition access_ok :: "'v serde \<Rightarrow> WsBridgeConfig \<Rightarrow> 'v bridge_label list \<Rightarrow> 'v WsBridgeState \<Rightarrow> bool" where
  "access_ok sd cfg ls b \<longleftrightarrow> br_config b = cfg
     \<and> (\<forall>t c. conns b t = Some c \<and> cn_authenticated c \<longrightarrow> authorised sd cfg ls t)
     \<and> (\<forall>t c. conns b t = Some c \<and> named_phase (cn_phase c) \<longrightarrow> effective_secret cfg \<noteq> None \<or> unauthenticated_access cfg = Allow)
     \<and> (\<forall>m \<in> set (br_published b). published_by sd cfg ls m)"

lemma bridge_run_snoc: "bridge_run sd (ls @ [l]) b = Option.bind (bridge_run sd ls b) (bridge_step sd l)"
  by (induction ls arbitrary: b) (auto split: bind_splits)

text \<open>Authentication and publication in one step.\<close>

lemma step_authenticates:
  assumes "bridge_step sd l b = Some b'" "conns b' t = Some c'" "cn_authenticated c'"
  shows "(\<exists>c. conns b t = Some c \<and> cn_authenticated c) \<or> (\<exists>c. conns b t = Some c \<and> named_phase (cn_phase c) \<and> effective_secret (br_config b) = None)
    \<or> (\<exists>x s. l = Client_Branch t (Text_In x) s \<and> token_accepted sd (br_config b) x)"
proof (cases l)
  case (Client_Branch u a s)
  with assms obtain c where "conns b u = Some c" "b' = client_branch sd u c a s b" by (auto split: if_splits bind_splits)
  with assms Client_Branch show ?thesis
    by (cases a) (auto simp: set_conn_def restart_select_def to_phase_def split: if_splits)
next
  case (Bus_Branch u a s)
  with assms obtain c where c: "conns b u = Some c" "b' = bus_branch sd u c a s b" by (auto split: if_splits bind_splits)
  show ?thesis by (rule bus_branch_turn [of sd u c a s b]) (use assms c in \<open>auto split: if_splits\<close>)
next
  case (Insert_Topics u)
  with assms show ?thesis by (auto simp: step_defs phase_defs split: if_splits bind_splits)
next
  case (Handshake u a)
  with assms show ?thesis by (auto simp: step_defs split: if_splits bind_splits)
qed (use assms in \<open>auto simp: step_defs try_acquire_def new_conn_def split: if_splits bind_splits\<close>)

lemma step_publishes:
  assumes "bridge_step sd l b = Some b'" "br_published b' \<noteq> br_published b"
  shows "\<exists>t c x s topic payload. l = Client_Branch t (Text_In x) s \<and> conns b t = Some c \<and> cn_authenticated c
    \<and> client_message sd x = Inr (Publish topic payload) \<and> br_published b' = br_published b @ [Custom topic payload]"
proof (cases l)
  case (Client_Branch u a s)
  with assms obtain c where "conns b u = Some c" "b' = client_branch sd u c a s b" by (auto split: if_splits bind_splits)
  with assms Client_Branch show ?thesis
    by (cases a) (auto simp: set_conn_def handle_client_message_def split: if_splits sum.splits WsClientMessage.splits option.splits)
next
  case (Bus_Branch u a s)
  with assms obtain c where c: "conns b u = Some c" "b' = bus_branch sd u c a s b" by (auto split: if_splits bind_splits)
  show ?thesis by (rule bus_branch_turn [of sd u c a s b]) (use assms c in auto)
qed (use assms in \<open>auto simp: step_defs try_acquire_def split: if_splits bind_splits\<close>)

lemma step_names:
  assumes "bridge_step sd l b = Some b'" "conns b' t = Some c'" "named_phase (cn_phase c')"
  shows "(\<exists>c. conns b t = Some c \<and> named_phase (cn_phase c)) \<or> effective_secret (br_config b) \<noteq> None \<or>
    unauthenticated_access (br_config b) = Allow"
proof (cases l)
  case (Client_Branch u a s)
  with assms obtain c where c: "conns b u = Some c" "cn_phase c = Serving" "b' = client_branch sd u c a s b" by (auto split: if_splits bind_splits)
  show ?thesis
    by (rule client_branch_turn [of sd u c a s b]) (use assms c in \<open>auto simp: named_phase_def split: if_splits\<close>)
next
  case (Bus_Branch u a s)
  with assms obtain c where c: "conns b u = Some c" "cn_phase c = Serving" "b' = bus_branch sd u c a s b" by (auto split: if_splits bind_splits)
  show ?thesis by (rule bus_branch_turn [of sd u c a s b]) (use assms c in \<open>auto simp: named_phase_def split: if_splits\<close>)
next
  case (Handshake u a)
  with assms show ?thesis by (cases "unauthenticated_access (br_config b)") (auto simp: step_defs phase_defs split: if_splits bind_splits)
qed (use assms in \<open>auto simp: step_defs try_acquire_def new_conn_def phase_defs split: if_splits bind_splits\<close>)

lemma step_config: "bridge_step sd l b = Some b' \<Longrightarrow> br_config b' = br_config b"
  by (erule bridge_step_kinds)
    (auto simp: moves_def accept_stream_def try_acquire_def set_conn_def end_task_def)

lemma access_step:
  assumes "access_ok sd cfg ls b" "bridge_step sd l b = Some b'"
  shows "access_ok sd cfg (ls @ [l]) b'"
proof -
  have cfg: "br_config b = cfg"
    and auth: "\<And>t c. conns b t = Some c \<Longrightarrow> cn_authenticated c \<Longrightarrow> authorised sd cfg ls t"
    and nm: "\<And>t c. conns b t = Some c \<Longrightarrow> named_phase (cn_phase c) \<Longrightarrow> effective_secret cfg \<noteq> None \<or> unauthenticated_access cfg = Allow"
    and pub: "\<And>m. m \<in> set (br_published b) \<Longrightarrow> published_by sd cfg ls m"
    using assms(1) unfolding access_ok_def by blast+
  have "authorised sd cfg (ls @ [l]) t" if "conns b' t = Some c'" "cn_authenticated c'" for t c'
    using step_authenticates [OF assms(2) that]
  proof (elim disjE exE conjE)
    fix c assume "conns b t = Some c" "cn_authenticated c"
    then show ?thesis by (intro authorised_mono auth)
  next
    fix c assume "conns b t = Some c" "named_phase (cn_phase c)" "effective_secret (br_config b) = None"
    then show ?thesis using nm [of t c] cfg by (simp add: authorised_def)
  next
    fix x s assume "l = Client_Branch t (Text_In x) s" "token_accepted sd (br_config b) x"
    then show ?thesis using cfg by (fastforce simp: authorised_def token_accepted_iff split: option.splits)
  qed
  moreover have "published_by sd cfg (ls @ [l]) m" if "m \<in> set (br_published b')" for m
  proof (cases "br_published b' = br_published b")
    case True
    with that pub show ?thesis by (simp add: published_by_mono)
  next
    case False
    from step_publishes [OF assms(2) False] that pub auth show ?thesis
      by (auto simp: published_by_mono) (fastforce simp: published_by_def)
  qed
  moreover have "effective_secret cfg \<noteq> None \<or> unauthenticated_access cfg = Allow" if "conns b' t = Some c'" "named_phase (cn_phase c')" for t c'
    using step_names [OF assms(2) that] nm cfg by auto
  ultimately show ?thesis using step_config [OF assms(2)] cfg unfolding access_ok_def by metis
qed

lemma access_run: "bridge_run sd ls (bridge_new cfg) = Some b \<Longrightarrow> access_ok sd cfg ls b"
proof (induction ls arbitrary: b rule: rev_induct)
  case Nil
  then show ?case by (auto simp: access_ok_def bridge_new_def)
next
  case (snoc l ls)
  then show ?case by (auto simp: bridge_run_snoc intro: access_step split: bind_splits)
qed

text \<open>An instance for the examples: JSON values are strings, every text is a token and a
  publication under its own name.\<close>

definition demo_serde :: "string serde" where
  "demo_serde = \<lparr>value_of = Some, str_field = (\<lambda>key v. if key = ''token'' then Some v else None),
     client_message = (\<lambda>x. Inr (Publish x x)), forward_text = (\<lambda>f. Inr (forward_payload f))\<rparr>"

definition demo_config :: WsBridgeConfig where
  "demo_config = default_ws_config\<lparr>shared_secret := Some '' s3cret '', ws_max_connections := 2\<rparr>"

definition demo_run :: "string bridge_label list" where
  "demo_run = [Accept_Stream, Accept_Stream, Accept_Stream, Handshake 1 True, Handshake 0 True, Count_Client 0,
     Insert_Topics 0, Bus_Branch 0 (Received (Custom ''private'' ''note'')) True, Client_Branch 0 (Text_In ''s3cret'') True,
     Client_Branch 0 (Text_In ''hello'') True, Client_Branch 0 Stream_Ended True, Count_Client 1, Insert_Topics 1,
     Bus_Branch 0 Recv_Error True, Else_Branch 0]"

lemmas demo_defs = demo_serde_def demo_run_def bridge_new_def step_defs
  connection_limiter_new_def try_acquire_def new_conn_def should_forward_def match_topic_def token_accepted_def
  presented_def handle_client_message_def send_frame_def

lemma demo_secret: "effective_secret demo_config = Some ''s3cret''"
  by (simp add: effective_secret_def demo_config_def trim_ascii ascii_def ascii_ws_def)

lemma demo_cap: "ws_max_connections demo_config = 2"
  by (simp add: demo_config_def)

lemma demo_names: "show_nat 0 = ''0''" "show_nat 1 = ''1''" "show_nat (Suc 0) = ''1''"
  by code_simp+

lemma demo_published:
  "\<exists>b. bridge_run demo_serde demo_run (bridge_new demo_config) = Some b \<and> br_published b = [Custom ''hello'' ''hello'']"
proof -
  have "map_option br_published (bridge_run demo_serde demo_run (bridge_new demo_config)) = Some [Custom ''hello'' ''hello'']"
    by (simp add: demo_defs demo_secret demo_cap demo_names)
  then show ?thesis by auto
qed

section \<open>Theorems\<close>

text \<open>C11: Only clients that know the secret reach the bus. Over any run of the bridge, with any number
  of clients whose steps interleave in any way, every message the bridge put on the internal bus is
  the publication of a client's text, and before that text the same connection had presented the
  configured secret. Only when the configuration has no secret and explicitly allows
  unauthenticated access is there no such proof; with no secret and no such permission nothing is
  ever published.\<close>

theorem bridge_publishers:
  assumes "bridge_run sd ls (bridge_new cfg) = Some b" "m \<in> set (br_published b)"
  shows "\<exists>before after t x s topic payload. ls = before @ Client_Branch t (Text_In x) s # after
    \<and> client_message sd x = Inr (Publish topic payload) \<and> m = Custom topic payload
    \<and> (case effective_secret cfg of
         None \<Rightarrow> unauthenticated_access cfg = Allow
       | Some secret \<Rightarrow> \<exists>y s'. Client_Branch t (Text_In y) s' \<in> set before \<and> presented sd y = Some secret)"
  using access_run [OF assms(1)] assms(2) unfolding access_ok_def published_by_def authorised_def by blast

theorem bridge_publishers_witness:
  "\<exists>b. bridge_run demo_serde demo_run (bridge_new demo_config) = Some b
   \<and> br_published b = [Custom ''hello'' ''hello''] \<and> (\<exists>before after t x s topic payload. demo_run = before @ Client_Branch t (Text_In x) s # after
    \<and> client_message demo_serde x = Inr (Publish topic payload) \<and> Custom ''hello'' ''hello'' = Custom topic payload
    \<and> (case effective_secret demo_config of
         None \<Rightarrow> unauthenticated_access demo_config = Allow
       | Some secret \<Rightarrow> \<exists>y s'. Client_Branch t (Text_In y) s' \<in> set before \<and> presented demo_serde y = Some secret))"
proof -
  obtain b where b: "bridge_run demo_serde demo_run (bridge_new demo_config) = Some b" "br_published b = [Custom ''hello'' ''hello'']"
    using demo_published by blast
  from b bridge_publishers [OF b(1), of "Custom ''hello'' ''hello''"] show ?thesis by simp
qed

text \<open>C23: The books of the bridge. In every state of a run of fewer than \<open>2^64\<close> steps, the permits in
  use are the live connections, at most as many as configured; the counter of clients is the number
  of connections between their registration and their removal; the topic table has exactly one
  entry for each connection in or just behind its loop; and different registered connections have
  different names. When all connections are gone, nothing is left behind.\<close>

theorem bridge_accounting:
  assumes "bridge_run sd ls (bridge_new cfg) = Some b" "length ls < 2 ^ 64"
  shows "in_flight (br_limiter b) = card {t. conns b t \<noteq> None}
    \<and> in_flight (br_limiter b) \<le> max (ws_max_connections cfg) 1
    \<and> connected_clients b = card {t. \<exists>c. conns b t = Some c \<and> cn_phase c \<in> {Counted, Serving, Closing, Unsubscribed}}
    \<and> dom (subscriptions b) = {p. \<exists>t c. conns b t = Some c \<and> cn_phase c \<in> {Serving, Closing} \<and> peer_id c = p}
    \<and> (\<forall>t t' c c'. conns b t = Some c \<and> conns b t' = Some c' \<and> cn_phase c \<in> {Serving, Closing} \<and>
         cn_phase c' \<in> {Serving, Closing} \<and> peer_id c = peer_id c' \<longrightarrow> t = t')
    \<and> ((\<forall>t. conns b t = None) \<longrightarrow> subscriptions b = Map.empty \<and> connected_clients b = 0)"
proof -
  have ok: "permits_ok cfg b" "count_ok b" "names_ok (length ls) b" "topics_ok b"
    using bridge_ok_run [OF bridge_ok_new assms(1)] assms(2) by (simp_all add: bridge_ok_def)
  have fl: "in_flight (br_limiter b) = card {t. conns b t \<noteq> None}" "in_flight (br_limiter b) \<le> max (ws_max_connections cfg) 1"
    using ok(1) by (auto simp: permits_ok_def in_flight_def having_def pool.held_def)
  have cc: "connected_clients b = card {t. \<exists>c. conns b t = Some c \<and> cn_phase c \<in> {Counted, Serving, Closing, Unsubscribed}}"
    using ok(2) by (simp add: count_ok_def having_def counted_phase_def)
  have ss: "dom (subscriptions b) = {p. \<exists>t c. conns b t = Some c \<and> cn_phase c \<in> {Serving, Closing} \<and> peer_id c = p}"
    using ok(4) by (simp add: topics_ok_def listed_peers_def listed_phase_def)
  have un: "\<forall>t t' c c'. conns b t = Some c \<and> conns b t' = Some c' \<and> cn_phase c \<in> {Serving, Closing} \<and>
         cn_phase c' \<in> {Serving, Closing} \<and> peer_id c = peer_id c' \<longrightarrow> t = t'"
    using ok(3) unfolding names_ok_def named_phase_def by blast
  show ?thesis using fl cc ss un by auto
qed

theorem bridge_accounting_witness:
  "\<exists>b. bridge_run demo_serde demo_run (bridge_new demo_config) = Some b
    \<and> in_flight (br_limiter b) = card {t. conns b t \<noteq> None} \<and> in_flight (br_limiter b) \<le> 2"
proof -
  obtain b where b: "bridge_run demo_serde demo_run (bridge_new demo_config) = Some b"
    using demo_published by blast
  have "length demo_run < 2 ^ 64" by (simp add: demo_run_def)
  from b bridge_accounting [OF b this] show ?thesis by (simp add: demo_config_def)
qed

text \<open>What the bridge does not protect: while a client that has not presented the secret is in the
  loop, every message of the bus is forwarded to it, whatever the topic. Its entry in the topic
  table is there from the start and matches everything, and the branch of the bus does not look at
  the authentication.\<close>

lemma unauthenticated_tap:
  assumes "bridge_run sd ls (bridge_new cfg) = Some b" "length ls < 2 ^ 64"
    and "conns b t = Some c" "cn_phase c = Serving" "\<not> cn_authenticated c" "\<not> bus_disabled c"
    and "forward_text sd \<lparr>forward_topic = topic, forward_payload = payload\<rparr> = Inr json"
  shows "\<exists>b'. bridge_step sd (Bus_Branch t (Received (Custom topic payload)) True) b = Some b'
    \<and> br_frames b' = br_frames b @ [(t, json)]"
proof -
  have "topics_ok b" using bridge_ok_run [OF bridge_ok_new assms(1)] assms(2) by (simp add: bridge_ok_def)
  then have "should_forward (peer_id c) b topic" using assms by (intro should_forward_all) (simp add: topics_ok_def)
  with assms show ?thesis by (simp add: set_conn_def send_frame_def)
qed

end
