(* ===== verification/Startup_Guard.thy ===== *)
theory Startup_Guard
  imports Gateway_Routes Ws_Theorems Sandbox_Check
begin

text \<open>
  The decision whether the process may start. The crate \<open>soul-prod-guard\<close> turns a mode and a posture
  into a report or a refusal; \<open>src/prod_guard.rs\<close> gathers the posture from the command line, the
  environment and the file system; \<open>src/api.rs\<close> has the credential of the API listener and the layers
  in front of its routes; \<open>soul-auth\<close> has the shared token check of the other listeners. The
  theorems say what a start in production guarantees of the listeners behind it.

  File system and path look-up are parameters (\<open>startup_os\<close>), and so are the handlers of the API.
  Log lines are left out.
\<close>

unbundle bit_operations_syntax

section \<open>Mode and posture\<close>

datatype RuntimeMode = Development | Production

datatype ModeError = Unset | Unsupported string

definition from_env_value :: "string option \<Rightarrow> ModeError + RuntimeMode" where
  "from_env_value v =
     (case map_option trim v of
        None \<Rightarrow> Inl Unset
      | Some s \<Rightarrow>
          if s = [] then Inl Unset
          else if s = ''production'' then Inr Production
          else if s = ''development'' then Inr Development
          else Inl (Unsupported s))"

definition mode_from_env :: "environment \<Rightarrow> ModeError + RuntimeMode" where
  "mode_from_env env = from_env_value (env ''SOULSYSTEM_ENV'')"

fun mode_as_str :: "RuntimeMode \<Rightarrow> string" where
  "mode_as_str Development = ''development''"
| "mode_as_str Production = ''production''"

record ListenerPosture =
  listener_name :: string
  bind_addr :: string
  tls_enabled :: bool
  listener_authenticated :: bool

record SecurityPosture =
  listeners :: "ListenerPosture list"
  auth_material_present :: bool
  workspace_root_canonical :: bool
  sandbox_backend_present :: bool
  isolation_backend_available :: bool
  self_modification_enabled :: bool
  self_modification_signed_and_gated :: bool
  webhook_providers :: "string list"
  webhook_providers_with_secret :: "string list"
  insecure_permission_paths :: "string list"
  default_or_example_secret_names :: "string list"
  experimental_runtime_selected :: "string option"

datatype GuardViolation = MissingAuthMaterial | WorkspaceRootNotCanonical | MissingSandboxBackend
  | IsolationBackendUnavailable | NonLoopbackBindWithoutTls string string
  | UnauthenticatedListener string string | SelfModificationWithoutSigning
  | WebhookProviderWithoutSecret string | DefaultOrExampleSecret string
  | InsecureFilePermissions string | ExperimentalRuntimeInProduction string

fun violation_code :: "GuardViolation \<Rightarrow> string" where
  "violation_code MissingAuthMaterial = ''missing_auth_material''"
| "violation_code WorkspaceRootNotCanonical = ''workspace_root_not_canonical''"
| "violation_code MissingSandboxBackend = ''missing_sandbox_backend''"
| "violation_code IsolationBackendUnavailable = ''isolation_backend_unavailable''"
| "violation_code (NonLoopbackBindWithoutTls _ _) = ''non_loopback_bind_without_tls''"
| "violation_code (UnauthenticatedListener _ _) = ''unauthenticated_listener''"
| "violation_code SelfModificationWithoutSigning = ''self_modification_without_signing''"
| "violation_code (WebhookProviderWithoutSecret _) = ''webhook_provider_without_secret''"
| "violation_code (DefaultOrExampleSecret _) = ''default_or_example_secret''"
| "violation_code (InsecureFilePermissions _) = ''insecure_file_permissions''"
| "violation_code (ExperimentalRuntimeInProduction _) = ''experimental_runtime_in_production''"

fun show_violation :: "GuardViolation \<Rightarrow> string" where
  "show_violation MissingAuthMaterial = ''no authentication material is configured''"
| "show_violation WorkspaceRootNotCanonical = ''workspace/data root does not exist or cannot be canonicalised''"
| "show_violation MissingSandboxBackend = ''no sandbox executor is present for process execution''"
| "show_violation IsolationBackendUnavailable =
     ''mandatory OS isolation backend (bubblewrap/namespaces) is unavailable''"
| "show_violation (NonLoopbackBindWithoutTls l a) =
     ''listener '' @ str_debug l @ '' binds non-loopback address '' @ a @ '' without TLS''"
| "show_violation (UnauthenticatedListener l a) =
     ''listener '' @ str_debug l @ '' on '' @ a @ '' has no authentication layer''"
| "show_violation SelfModificationWithoutSigning =
     ''self-modification is enabled without a signing and approval policy''"
| "show_violation (WebhookProviderWithoutSecret p) =
     ''webhook provider '' @ str_debug p @ '' has no verification secret configured''"
| "show_violation (DefaultOrExampleSecret n) = ''secret '' @ str_debug n @ '' still holds a default/example value''"
| "show_violation (InsecureFilePermissions p) =
     ''config/secret file '' @ str_debug p @ '' has insecure (group/world-accessible) permissions''"
| "show_violation (ExperimentalRuntimeInProduction r) =
     ''experimental runtime '' @ str_debug r @ '' cannot be selected in production''"

record AuditEvent =
  audit_decision :: string
  audit_outcome :: string
  audit_detail :: string

record GuardReport =
  report_mode :: RuntimeMode
  report_violations :: "GuardViolation list"
  report_audit :: "AuditEvent list"

record StartupRejected =
  rejected_violations :: "GuardViolation list"
  rejected_details :: string
  rejected_audit :: "AuditEvent list"

definition has_findings :: "GuardReport \<Rightarrow> bool" where
  "has_findings r \<longleftrightarrow> report_violations r \<noteq> []"

definition show_rejected :: "StartupRejected \<Rightarrow> string" where
  "show_rejected r = ''production startup rejected: '' @ show_nat (length (rejected_violations r))
     @ '' fail-closed security violation(s): '' @ rejected_details r"

section \<open>Addresses\<close>

definition host_of :: "string \<Rightarrow> string" where
  "host_of addr =
     (let s = trim addr;
          plain = (if count_list s (CHR '':'') \<ge> 2 then s
                   else case split_once (CHR '':'') s of Some (host, _) \<Rightarrow> host | None \<Rightarrow> s)
      in case strip_prefix ''['' s of
           Some rest \<Rightarrow>
             if CHR '']'' \<in> set rest then takeWhile (\<lambda>c. c \<noteq> CHR '']'') rest else plain
         | None \<Rightarrow> plain)"

definition is_loopback_bind :: "string \<Rightarrow> bool" where
  "is_loopback_bind addr =
     (let host = host_of addr in
      if eq_ignore_ascii_case host ''localhost'' then True
      else if host = ''::1'' then True
      else case split_char (CHR ''.'') host of
             [a, _, _, _] \<Rightarrow>
               (case parse_unsigned dec_digit 10 256 a of Some first \<Rightarrow> first = 127 | None \<Rightarrow> False)
           | _ \<Rightarrow> False)"

section \<open>Evaluation\<close>

definition listener_violations :: "ListenerPosture \<Rightarrow> GuardViolation list" where
  "listener_violations l =
     (if \<not> is_loopback_bind (bind_addr l) \<and> \<not> tls_enabled l
      then [NonLoopbackBindWithoutTls (listener_name l) (bind_addr l)] else [])
     @ (if \<not> listener_authenticated l then [UnauthenticatedListener (listener_name l) (bind_addr l)] else [])"

definition guard_violations :: "SecurityPosture \<Rightarrow> GuardViolation list" where
  "guard_violations p =
     concat (map listener_violations (listeners p))
     @ (if \<not> auth_material_present p then [MissingAuthMaterial] else [])
     @ (if \<not> workspace_root_canonical p then [WorkspaceRootNotCanonical] else [])
     @ (if \<not> sandbox_backend_present p then [MissingSandboxBackend] else [])
     @ (if \<not> isolation_backend_available p then [IsolationBackendUnavailable] else [])
     @ (if self_modification_enabled p \<and> \<not> self_modification_signed_and_gated p
        then [SelfModificationWithoutSigning] else [])
     @ map WebhookProviderWithoutSecret
         (filter (\<lambda>w. w \<notin> set (webhook_providers_with_secret p)) (webhook_providers p))
     @ map DefaultOrExampleSecret (default_or_example_secret_names p)
     @ map InsecureFilePermissions (insecure_permission_paths p)
     @ (case experimental_runtime_selected p of Some r \<Rightarrow> [ExperimentalRuntimeInProduction r] | None \<Rightarrow> [])"

definition render_details :: "GuardViolation list \<Rightarrow> string" where
  "render_details vs =
     join ''; '' (map (\<lambda>(i, v). ''['' @ show_nat i @ ''] '' @ show_violation v @ '' ('' @ violation_code v @ '')'')
       (enumerate 1 vs))"

definition evaluate_posture :: "RuntimeMode \<Rightarrow> SecurityPosture \<Rightarrow> StartupRejected + GuardReport" where
  "evaluate_posture mode p =
     (let vs = guard_violations p; details = render_details vs in
      if mode = Production \<and> vs \<noteq> [] then
        Inl \<lparr>rejected_violations = vs, rejected_details = details,
          rejected_audit = [\<lparr>audit_decision = ''startup_security_validation'', audit_outcome = ''rejected'',
            audit_detail = ''production start refused with '' @ show_nat (length vs) @ '' violation(s): '' @ details\<rparr>]\<rparr>
      else
        Inr \<lparr>report_mode = mode, report_violations = vs,
          report_audit = [\<lparr>audit_decision = ''startup_security_validation'',
            audit_outcome = (if vs = [] then ''pass'' else ''warn''),
            audit_detail =
              (if vs = [] then mode_as_str mode @ '' mode startup security validation passed''
               else mode_as_str mode @ '' mode startup: '' @ show_nat (length vs)
                 @ '' prerequisite(s) unmet (warning only): '' @ details)\<rparr>]\<rparr>)"

section \<open>The API listener\<close>

record ApiAuth =
  api_token :: "string option"
  api_scopes :: ScopeSet

definition api_scoped :: "string option \<Rightarrow> ScopeSet \<Rightarrow> ApiAuth" where
  "api_scoped token ss =
     \<lparr>api_token = Option.bind (map_option trim token) (\<lambda>t. if t = [] then None else Some t), api_scopes = ss\<rparr>"

definition api_new :: "string option \<Rightarrow> ApiAuth" where
  "api_new token = api_scoped token all_scopes"

definition api_with_scopes :: "ScopeSet \<Rightarrow> ApiAuth \<Rightarrow> ApiAuth" where
  "api_with_scopes ss auth = auth\<lparr>api_scopes := ss\<rparr>"

definition api_from_env :: "environment \<Rightarrow> ApiAuth" where
  "api_from_env env =
     (let token = env ''SOULSYSTEM_API_TOKEN'' in
      case env ''SOULSYSTEM_API_SCOPES'' of
        Some raw \<Rightarrow> if trim raw \<noteq> [] then api_scoped token (fst (scope_set_parse raw)) else api_new token
      | None \<Rightarrow> api_new token)"

definition api_is_configured :: "ApiAuth \<Rightarrow> bool" where
  "api_is_configured auth \<longleftrightarrow> api_token auth \<noteq> None"

definition api_constant_time_eq :: "u8 list \<Rightarrow> u8 list \<Rightarrow> bool" where
  "api_constant_time_eq a b =
     (if length a \<noteq> length b then False
      else fold (\<lambda>(x, y) diff. diff OR (x XOR y)) (zip a b) 0 = (0 :: u8))"

definition api_authenticate :: "ApiAuth \<Rightarrow> string option \<Rightarrow> bool" where
  "api_authenticate auth provided =
     (case (api_token auth, provided) of
        (Some expected, Some given) \<Rightarrow> api_constant_time_eq (as_bytes expected) (as_bytes given)
      | _ \<Rightarrow> False)"

type_synonym 's api_next = "Request \<Rightarrow> 's \<Rightarrow> Response \<times> 's"

definition api_require_auth :: "ApiAuth \<Rightarrow> 's api_next \<Rightarrow> 's api_next" where
  "api_require_auth auth next_h req st =
     (let provided = Option.bind (req_header req ''authorization'') (strip_prefix ''Bearer '') in
      if api_authenticate auth provided then next_h req st
      else (respond 401 (error_response ''unauthorized''), st))"

definition api_require_scope :: "ApiAuth \<Rightarrow> Scope \<Rightarrow> 's api_next \<Rightarrow> 's api_next" where
  "api_require_scope auth required next_h req st =
     (if allows (api_scopes auth) required then next_h req st
      else (respond 403 (error_response (''this credential lacks the '' @ [CHR 0x27] @ scope_as_str required @ [CHR 0x27] @ '' scope'')), st))"

text \<open>The routes by scope; a handler is named by its function.\<close>

definition api_read_routes :: "(Method \<times> string list \<times> string) list" where
  "api_read_routes =
     [(POST, [''api'', ''memory'', ''search''], ''memory_search_handler''),
      (POST, [''api'', ''memory'', ''context''], ''memory_context_handler''),
      (GET, [''api'', ''zerobot'', ''health''], ''zerobot_health_handler''),
      (GET, [''api'', ''bridges'', ''status''], ''bridges_status_handler''),
      (GET, [''api'', ''bridges'', ''organs''], ''organs_status_handler''),
      (GET, [''api'', ''bridges'', ''mesh''], ''mesh_status_handler''),
      (GET, [''api'', ''bridges'', ''services''], ''services_status_handler''),
      (GET, [''metrics''], ''metrics_handler'')]"

definition api_write_routes :: "(Method \<times> string list \<times> string) list" where
  "api_write_routes = [(POST, [''api'', ''memory'', ''store''], ''memory_store_handler'')]"

definition api_exec_routes :: "(Method \<times> string list \<times> string) list" where
  "api_exec_routes =
     [(POST, [''api'', ''exec''], ''exec_handler''),
      (POST, [''api'', ''pty'', ''create''], ''pty_create_handler''),
      (POST, [''api'', ''pty'', ''write''], ''pty_write_handler''),
      (GET, [''api'', ''pty'', ''read'', '':session_id''], ''pty_read_handler''),
      (POST, [''api'', ''pty'', ''destroy''], ''pty_destroy_handler''),
      (POST, [''api'', ''zerobot'', ''chat''], ''zerobot_chat_handler''),
      (POST, [''api'', ''bridges'', ''probe''], ''bridges_probe_handler'')]"

definition api_routes :: "(Method \<times> string list \<times> Scope \<times> string) list" where
  "api_routes = map (\<lambda>(m, p, h). (m, p, Read, h)) api_read_routes
     @ map (\<lambda>(m, p, h). (m, p, Write, h)) api_write_routes
     @ map (\<lambda>(m, p, h). (m, p, Exec, h)) api_exec_routes"

text \<open>Authentication is the outer layer, the scope the inner one; \<open>/health\<close> has neither. \<open>None\<close> where
  the router has no handler and answers by itself.\<close>

definition api_router :: "ApiAuth \<Rightarrow> (string \<Rightarrow> 's api_next) \<Rightarrow> Request \<Rightarrow> 's \<Rightarrow> (Response \<times> 's) option" where
  "api_router auth handler req st =
     (if method_matches GET (req_method req) \<and> match_segments [''health''] (req_path req)
      then Some (handler ''health_handler'' req st)
      else map_option (\<lambda>(sc, h). api_require_auth auth (api_require_scope auth sc (handler h)) req st)
             (find_route api_routes req))"

section \<open>Gathering the posture\<close>

definition DEFAULT_SECRET_SENTINELS :: "string list" where
  "DEFAULT_SECRET_SENTINELS = [[], ''changeme'', ''change-me'', ''example'', ''example-token'', ''placeholder'',
     ''secret'', ''test'', ''token'', ''dev'', ''default'']"

text \<open>The questions to the operating system: does a path canonicalise, does it exist, is it a regular
  file, and its permission bits.\<close>

record startup_os =
  canonicalises :: "string \<Rightarrow> bool"
  path_exists :: "string \<Rightarrow> bool"
  is_file :: "string \<Rightarrow> bool"
  permission_mode :: "string \<Rightarrow> u32 option"

definition resolve_mode :: "environment \<Rightarrow> ModeError + RuntimeMode" where
  "resolve_mode env =
     (case mode_from_env env of
        Inr mode \<Rightarrow> Inr mode
      | Inl Unset \<Rightarrow> Inr Development
      | Inl (Unsupported v) \<Rightarrow> Inl (Unsupported v))"

definition join_dir :: "string \<Rightarrow> string \<Rightarrow> string" where
  "join_dir dir exe = (if dir = [] \<or> last dir = CHR ''/'' then dir @ exe else dir @ ''/'' @ exe)"

definition which_in_path :: "startup_os \<Rightarrow> environment \<Rightarrow> string \<Rightarrow> bool" where
  "which_in_path os env exe =
     (case env ''PATH'' of
        None \<Rightarrow> False
      | Some path \<Rightarrow> list_ex (\<lambda>dir. is_file os (join_dir dir exe)) (split_char (CHR '':'') path))"

definition isolation_available :: "startup_os \<Rightarrow> environment \<Rightarrow> bool" where
  "isolation_available os env = which_in_path os env ''bwrap''"

definition is_default_secret :: "string \<Rightarrow> bool" where
  "is_default_secret v \<longleftrightarrow> to_ascii_lowercase (trim v) \<in> set DEFAULT_SECRET_SENTINELS"

definition entry_token :: "string \<Rightarrow> (string \<times> string) option" where
  "entry_token entry =
     (case split_once (CHR ''='') entry of
        None \<Rightarrow> None
      | Some (who, token) \<Rightarrow>
          if trim who \<noteq> [] \<and> trim token \<noteq> []
          then Some (''SOULSYSTEM_GATEWAY_TOKENS:'' @ trim who, trim token) else None)"

definition gateway_tokens :: "environment \<Rightarrow> (string \<times> string) list" where
  "gateway_tokens env =
     (case env ''SOULSYSTEM_GATEWAY_TOKENS'' of
        Some entries \<Rightarrow> List.map_filter entry_token (split_char (CHR '','') entries)
      | None \<Rightarrow> []) @
     (case env ''SOULSYSTEM_GATEWAY_TOKEN'' of
        Some token \<Rightarrow> if token \<noteq> [] then [(''SOULSYSTEM_GATEWAY_TOKEN'', token)] else []
      | None \<Rightarrow> [])"

definition is_world_or_group_accessible :: "startup_os \<Rightarrow> string \<Rightarrow> bool" where
  "is_world_or_group_accessible os path =
     (case permission_mode os path of Some mode \<Rightarrow> mode AND 63 \<noteq> 0 | None \<Rightarrow> False)"

definition assemble_posture ::
  "startup_os \<Rightarrow> environment \<Rightarrow> string \<Rightarrow> string \<Rightarrow> bool \<Rightarrow> bool \<Rightarrow> WsBridgeConfig \<Rightarrow> bool \<Rightarrow> string option \<Rightarrow> SecurityPosture" where
  "assemble_posture os env gateway_addr data_dir gateway_authenticated gateway_tls_enabled ws api_authenticated experimental =
     (let tokens = gateway_tokens env;
          config_file = (case env ''SOULSYSTEM_CONFIG_FILE'' of Some f \<Rightarrow> f | None \<Rightarrow> ''soulsystem.toml'')
      in \<lparr>listeners =
            [\<lparr>listener_name = ''gateway'', bind_addr = gateway_addr, tls_enabled = gateway_tls_enabled,
              listener_authenticated = gateway_authenticated\<rparr>,
             \<lparr>listener_name = ''api'', bind_addr = ''127.0.0.1:9023'', tls_enabled = False,
              listener_authenticated = api_authenticated\<rparr>,
             \<lparr>listener_name = ''ws_bridge'', bind_addr = ws_listen ws, tls_enabled = False,
              listener_authenticated = ws_is_authenticated ws\<rparr>],
          auth_material_present = (tokens \<noteq> [] \<and> list_all (\<lambda>(_, token). \<not> is_default_secret token) tokens),
          workspace_root_canonical = canonicalises os data_dir,
          sandbox_backend_present = True,
          isolation_backend_available = isolation_available os env,
          self_modification_enabled = False,
          self_modification_signed_and_gated = False,
          webhook_providers = [],
          webhook_providers_with_secret = [],
          insecure_permission_paths =
            (if path_exists os config_file \<and> is_world_or_group_accessible os config_file then [config_file] else []),
          default_or_example_secret_names = map fst (filter (\<lambda>(_, token). is_default_secret token) tokens),
          experimental_runtime_selected = experimental\<rparr>)"

datatype StartupError = Mode_Refused ModeError | Start_Refused StartupRejected

definition enforce_startup_security ::
  "startup_os \<Rightarrow> environment \<Rightarrow> string \<Rightarrow> string \<Rightarrow> GatewayAuth \<Rightarrow> bool \<Rightarrow> WsBridgeConfig \<Rightarrow> ApiAuth \<Rightarrow> string option \<Rightarrow> StartupError + GuardReport" where
  "enforce_startup_security os env gateway_addr data_dir gateway_auth gateway_tls_enabled ws api_auth experimental =
     (case resolve_mode env of
        Inl e \<Rightarrow> Inl (Mode_Refused e)
      | Inr mode \<Rightarrow>
          map_sum Start_Refused id (evaluate_posture mode
            (assemble_posture os env gateway_addr data_dir (auth_is_configured gateway_auth) gateway_tls_enabled ws
               (api_is_configured api_auth) experimental)))"

text \<open>\<open>SecretString::from_env\<close>, and how \<open>main\<close> builds the configuration of the bridge and calls the
  guard. The command line gives the address, whether a certificate was loaded, and the runtime.\<close>

definition secret_from_env :: "environment \<Rightarrow> string \<Rightarrow> string option" where
  "secret_from_env env var = Option.bind (env var) (\<lambda>s. if trim s \<noteq> [] then Some s else None)"

definition main_ws_config :: "environment \<Rightarrow> WsBridgeConfig" where
  "main_ws_config env = \<lparr>ws_listen = ''127.0.0.1:9022'',
     shared_secret = secret_from_env env ''SOULSYSTEM_WS_BRIDGE_SECRET'',
     ws_max_connections = DEFAULT_WS_MAX_CONNECTIONS, ws_max_message_bytes = DEFAULT_WS_MAX_MESSAGE_BYTES,
     unauthenticated_access =
       (case env ''SOULSYSTEM_WS_BRIDGE_ALLOW_UNAUTHENTICATED'' of
          Some v \<Rightarrow> if v = ''1'' \<or> eq_ignore_ascii_case v ''true'' then Allow else Deny
        | None \<Rightarrow> Deny)\<rparr>"

record startup_cli =
  cli_gateway_addr :: string
  cli_tls :: bool
  cli_entity :: bool
  cli_data_dir :: string

definition main_startup :: "startup_os \<Rightarrow> environment \<Rightarrow> startup_cli \<Rightarrow> StartupError + GuardReport" where
  "main_startup os env cli =
     enforce_startup_security os env (cli_gateway_addr cli) (cli_data_dir cli) (auth_from_env env) (cli_tls cli)
       (main_ws_config env) (api_from_env env) (if cli_entity cli then Some ''soul_entity'' else None)"

section \<open>Shared token authentication\<close>

record Credential =
  credential_principal :: string
  credential_token :: string

type_synonym TokenAuth = "Credential list"

definition token_from_pairs :: "(string \<times> string) list \<Rightarrow> TokenAuth" where
  "token_from_pairs pairs =
     map (\<lambda>(p, t). \<lparr>credential_principal = p, credential_token = t\<rparr>) (filter (\<lambda>(p, t). p \<noteq> [] \<and> t \<noteq> []) pairs)"

definition token_entry :: "string \<Rightarrow> Credential option" where
  "token_entry entry =
     (case split_once (CHR ''='') entry of
        None \<Rightarrow> None
      | Some (who, token) \<Rightarrow>
          let who = trim who; token = trim token in
          if who \<noteq> [] \<and> token \<noteq> []
          then Some \<lparr>credential_principal = who, credential_token = token\<rparr> else None)"

definition token_from_env :: "environment \<Rightarrow> string \<Rightarrow> string \<Rightarrow> TokenAuth" where
  "token_from_env env multi_var single_var =
     (case env multi_var of
        Some entries \<Rightarrow> List.map_filter token_entry (split_char (CHR '','') entries)
      | None \<Rightarrow> []) @
     (case env single_var of
        Some token \<Rightarrow>
          let token = trim token in
          if token \<noteq> [] then [\<lparr>credential_principal = ''default'', credential_token = token\<rparr>] else []
      | None \<Rightarrow> [])"

definition token_is_configured :: "TokenAuth \<Rightarrow> bool" where
  "token_is_configured auth \<longleftrightarrow> auth \<noteq> []"

definition token_authenticate :: "TokenAuth \<Rightarrow> string option \<Rightarrow> string option" where
  "token_authenticate auth provided =
     (case provided of
        None \<Rightarrow> None
      | Some given \<Rightarrow>
          fold (\<lambda>credential matched.
              if constant_time_eq (as_bytes (credential_token credential)) (as_bytes given)
              then Some (credential_principal credential) else matched) auth None)"

definition token_authenticate_header :: "TokenAuth \<Rightarrow> string option \<Rightarrow> string option" where
  "token_authenticate_header auth header = token_authenticate auth (Option.bind header (strip_prefix ''Bearer ''))"

datatype AuthStartupError = ProductionWithoutCredentials string string

definition enforce_startup :: "environment \<Rightarrow> TokenAuth \<Rightarrow> string \<Rightarrow> string \<Rightarrow> AuthStartupError + unit" where
  "enforce_startup env auth service vars =
     (let production = (case mode_from_env env of Inr m \<Rightarrow> m = Production | Inl _ \<Rightarrow> True) in
      if token_is_configured auth then Inr ()
      else if production then Inl (ProductionWithoutCredentials service vars)
      else Inr ())"

end
