(* ===== verification/Startup_Theorems.thy ===== *)
theory Startup_Theorems
  imports Startup_Guard
begin

text \<open>
  What the startup guard decides, and what a start in production means for the three listeners: the
  gateway's credentials, the API's token and the bridge's secret.
\<close>

section \<open>Addresses\<close>

text \<open>The socket addresses a listener can be bound to, and their text as \<open>SocketAddr\<close> prints it. The text
  of an IPv6 address (without a scope id) is made of hexadecimal digits, colons and dots, with a colon
  before the first dot; the text of the loopback address is \<open>::1\<close>.\<close>

datatype socket_addr = V4 u8 u8 u8 u8 u16 | V6 string u16

fun render_addr :: "socket_addr \<Rightarrow> string" where
  "render_addr (V4 a b c d p) =
     join ''.'' [show_nat (unat a), show_nat (unat b), show_nat (unat c), show_nat (unat d)] @ '':'' @ show_nat (unat p)"
| "render_addr (V6 t p) = ''['' @ t @ '']:'' @ show_nat (unat p)"

fun addr_ok :: "socket_addr \<Rightarrow> bool" where
  "addr_ok (V4 a b c d p) = True"
| "addr_ok (V6 t p) = (set t \<subseteq> set ''0123456789abcdef:.'' \<and> CHR '':'' \<in> set (takeWhile (\<lambda>c. c \<noteq> CHR ''.'') t))"

text \<open>\<open>127.0.0.0/8\<close> and \<open>::1\<close>.\<close>

fun on_loopback :: "socket_addr \<Rightarrow> bool" where
  "on_loopback (V4 a b c d p) = (a = 127)"
| "on_loopback (V6 t p) = (t = ''::1'')"

definition addr_chars :: string where "addr_chars = ''0123456789abcdef:.[]''"

lemma trim_addr: "set s \<subseteq> set addr_chars \<Longrightarrow> trim s = s"
proof -
  have "list_all (\<lambda>c. ascii c \<and> \<not> ascii_ws c) addr_chars" by code_simp
  then have "ascii c \<and> \<not> ascii_ws c" if "c \<in> set addr_chars" for c using that by (simp add: list_all_iff)
  then show "set s \<subseteq> set addr_chars \<Longrightarrow> trim s = s" by (intro trim_plain) blast
qed

lemma show_nat_addr: "set (show_nat n) \<subseteq> set addr_chars"
proof -
  have "set ''0123456789'' \<subseteq> set addr_chars" by (simp add: addr_chars_def)
  then show ?thesis using show_nat_plain by blast
qed

lemma show_nat_no [simp]:
  "CHR '':'' \<notin> set (show_nat n)" "CHR ''.'' \<notin> set (show_nat n)" "CHR ''['' \<notin> set (show_nat n)"
  by (auto dest!: show_nat_plain)

lemma digits_val_colon: "CHR '':'' \<in> set s \<Longrightarrow> digits_val dec_digit radix acc s = None"
proof (induction s arbitrary: acc)
  case (Cons c s)
  have "dec_digit (CHR '':'') = None" by code_simp
  with Cons show ?case by (auto split: option.split)
qed simp

lemma parse_colon: "CHR '':'' \<in> set s \<Longrightarrow> parse_unsigned dec_digit 10 bound s = None"
  using digits_val_colon [of s 10 0] digits_val_colon [of "tl s" 10 0]
  by (cases s) (auto simp: parse_unsigned_def Let_def)

lemma not_localhost:
  assumes "c \<in> set h" "c = CHR '':'' \<or> c = CHR ''.''"
  shows "\<not> eq_ignore_ascii_case h ''localhost''"
proof
  assume e: "eq_ignore_ascii_case h ''localhost''"
  have "map_of lower_pairs c = None" "c \<notin> set (to_ascii_lowercase ''localhost'')"
    using assms(2) by (auto, code_simp+)
  moreover have "c \<in> set (to_ascii_lowercase h)"
    using assms(1) \<open>map_of lower_pairs c = None\<close> unfolding to_ascii_lowercase_def by force
  ultimately show False using e by (simp add: eq_ignore_ascii_case_def)
qed

lemma is_loopback_v6:
  assumes "addr_ok (V6 t p)"
  shows "is_loopback_bind (render_addr (V6 t p)) \<longleftrightarrow> t = ''::1''"
proof -
  have chars: "set t \<subseteq> set ''0123456789abcdef:.''" "CHR '':'' \<in> set (takeWhile (\<lambda>c. c \<noteq> CHR ''.'') t)"
    using assms by simp_all
  have "set ''0123456789abcdef:.'' \<subseteq> set addr_chars" "set ''['' \<subseteq> set addr_chars" "set '']:'' \<subseteq> set addr_chars"
    by (simp_all add: addr_chars_def)
  then have "set (render_addr (V6 t p)) \<subseteq> set addr_chars"
    using chars(1) show_nat_addr unfolding render_addr.simps set_append by blast
  then have trim: "trim (render_addr (V6 t p)) = render_addr (V6 t p)" by (rule trim_addr)
  have "CHR '']'' \<notin> set t" using chars(1) by auto
  then have "takeWhile (\<lambda>c. c \<noteq> CHR '']'') (t @ '']:'' @ show_nat (unat p)) = t"
    by (subst takeWhile_append2) auto
  then have host: "host_of (render_addr (V6 t p)) = t"
    unfolding host_of_def trim by (simp add: strip_prefix_def)
  have colon: "CHR '':'' \<in> set t" using chars(2) by (rule set_takeWhileD [THEN conjunct1])
  have "parse_unsigned dec_digit 10 256 (hd (split_char (CHR ''.'') t)) = None"
    unfolding split_char_hd using parse_colon chars(2) by blast
  then show ?thesis
    using not_localhost [OF colon] unfolding is_loopback_bind_def host Let_def
    by (auto split: list.splits)
qed

lemma is_loopback_v4: "is_loopback_bind (render_addr (V4 a b c d p)) \<longleftrightarrow> a = 127"
proof -
  let ?ds = "[show_nat (unat a), show_nat (unat b), show_nat (unat c), show_nat (unat d)]"
  let ?h = "join ''.'' ?ds" and ?r = "render_addr (V4 a b c d p)"
  have r: "?r = ?h @ CHR '':'' # show_nat (unat p)" by simp
  have h: "CHR '':'' \<notin> set ?h" "CHR ''['' \<notin> set ?h" "CHR ''.'' \<in> set ?h" "?h \<noteq> []" by simp_all
  have "set '':'' \<subseteq> set addr_chars" "set ''.'' \<subseteq> set addr_chars" by (simp_all add: addr_chars_def)
  then have "set ?h \<subseteq> set addr_chars" "set ?r \<subseteq> set addr_chars"
    using show_nat_addr by (auto simp del: join.simps simp: join.simps)
  then have trim: "trim ?r = ?r" by (intro trim_addr)
  have "count_list ?r (CHR '':'') = 1"
    unfolding r using h(1) by (simp add: count_list_0_iff count_notin del: join.simps)
  moreover have "split_once (CHR '':'') ?r = Some (?h, show_nat (unat p))"
    unfolding r by (rule split_once_append [OF h(1)])
  moreover have "strip_prefix ''['' ?r = None"
  proof -
    have "CHR ''['' \<notin> set ?r" by simp
    then have "\<not> starts_with ?r ''[''" unfolding starts_with_iff by (metis append_Cons list.set_intros(1))
    then show ?thesis by (simp add: strip_prefix_def)
  qed
  ultimately have host: "host_of ?r = ?h" unfolding host_of_def trim Let_def by simp
  have split: "split_char (CHR ''.'') ?h = ?ds" by (rule split_char_join) auto
  have "set ?h \<noteq> set ''::1''" using h(1) by (metis list.set_intros(1))
  then have "?h \<noteq> ''::1''" by metis
  moreover have "unat a < 256" using unsigned_less [of a, where 'a = nat] by simp
  then have "parse_unsigned dec_digit 10 256 (show_nat (unat a)) = Some (unat a)" by (rule parse_show_nat)
  moreover have "unat a = 127 \<longleftrightarrow> a = 127" using word_unat_eq_iff [of a 127] by simp
  ultimately show ?thesis
    using not_localhost [OF h(3)] unfolding is_loopback_bind_def host Let_def split by simp
qed

lemma is_loopback_render: "addr_ok a \<Longrightarrow> is_loopback_bind (render_addr a) \<longleftrightarrow> on_loopback a"
  using is_loopback_v4 is_loopback_v6 by (cases a) simp_all

section \<open>The guard against its specification\<close>

text \<open>What each violation says of a posture.\<close>

fun unmet :: "SecurityPosture \<Rightarrow> GuardViolation \<Rightarrow> bool" where
  "unmet p MissingAuthMaterial = (\<not> auth_material_present p)"
| "unmet p WorkspaceRootNotCanonical = (\<not> workspace_root_canonical p)"
| "unmet p MissingSandboxBackend = (\<not> sandbox_backend_present p)"
| "unmet p IsolationBackendUnavailable = (\<not> isolation_backend_available p)"
| "unmet p (NonLoopbackBindWithoutTls n a) =
     (\<exists>l \<in> set (listeners p). listener_name l = n \<and> bind_addr l = a \<and> \<not> is_loopback_bind a \<and> \<not> tls_enabled l)"
| "unmet p (UnauthenticatedListener n a) =
     (\<exists>l \<in> set (listeners p). listener_name l = n \<and> bind_addr l = a \<and> \<not> listener_authenticated l)"
| "unmet p SelfModificationWithoutSigning = (self_modification_enabled p \<and> \<not> self_modification_signed_and_gated p)"
| "unmet p (WebhookProviderWithoutSecret w) =
     (w \<in> set (webhook_providers p) \<and> w \<notin> set (webhook_providers_with_secret p))"
| "unmet p (DefaultOrExampleSecret n) = (n \<in> set (default_or_example_secret_names p))"
| "unmet p (InsecureFilePermissions f) = (f \<in> set (insecure_permission_paths p))"
| "unmet p (ExperimentalRuntimeInProduction r) = (experimental_runtime_selected p = Some r)"

lemma listener_violations_iff:
  "v \<in> set (listener_violations l) \<longleftrightarrow>
     (v = NonLoopbackBindWithoutTls (listener_name l) (bind_addr l) \<and> \<not> is_loopback_bind (bind_addr l) \<and> \<not> tls_enabled l)
     \<or> (v = UnauthenticatedListener (listener_name l) (bind_addr l) \<and> \<not> listener_authenticated l)"
  by (auto simp: listener_violations_def)

lemma guard_violations_iff: "v \<in> set (guard_violations p) \<longleftrightarrow> unmet p v"
  by (cases v) (auto simp: guard_violations_def listener_violations_iff split: option.split)

lemma set_guard_violations: "set (guard_violations p) = {v. unmet p v}"
  by (auto simp: guard_violations_iff)

lemma evaluate_production: "evaluate_posture Production p = Inr r \<longleftrightarrow>
    (\<forall>v. \<not> unmet p v) \<and> r = \<lparr>report_mode = Production, report_violations = [],
      report_audit = [\<lparr>audit_decision = ''startup_security_validation'', audit_outcome = ''pass'',
        audit_detail = ''production mode startup security validation passed''\<rparr>]\<rparr>"
proof -
  have "guard_violations p = [] \<longleftrightarrow> (\<forall>v. \<not> unmet p v)"
    by (simp add: set_empty [symmetric] set_guard_violations del: set_empty)
  then show ?thesis by (auto simp: evaluate_posture_def Let_def)
qed

section \<open>Credentials\<close>

text \<open>The guard looks at exactly the tokens the gateway accepts.\<close>

lemma entry_token_credential: "map_option snd (entry_token e) = map_option cred_token (entry_credential e)"
  by (auto simp: entry_token_def entry_credential_def Let_def split: option.split prod.split)

lemma map_filter_agree:
  "(\<And>x. map_option f (g x) = map_option f' (g' x)) \<Longrightarrow> map f (List.map_filter g xs) = map f' (List.map_filter g' xs)"
proof (induction xs)
  case (Cons x xs)
  then show ?case using Cons.prems [of x] by (cases "g x"; cases "g' x") (auto simp: List.map_filter_simps)
qed (simp add: List.map_filter_simps)

lemma gateway_tokens_auth: "map snd (gateway_tokens env) = map cred_token (auth_from_env env)"
  by (auto simp: gateway_tokens_def auth_from_env_def entry_token_credential intro!: map_filter_agree split: option.split)

lemma api_constant_time_eq_iff [simp]: "api_constant_time_eq a b \<longleftrightarrow> a = b"
  by (auto simp: api_constant_time_eq_def fold_or8_zero list_eq_iff_zip_eq)

lemma api_authenticate_iff: "api_authenticate auth provided \<longleftrightarrow> api_token auth \<noteq> None \<and> provided = api_token auth"
  by (auto simp: api_authenticate_def split: option.splits)

text \<open>The value of a variable, blank counting as unset.\<close>

definition set_value :: "environment \<Rightarrow> string \<Rightarrow> string option" where
  "set_value env var = Option.bind (map_option trim (env var)) (\<lambda>s. if s = [] then None else Some s)"

lemma api_token_from_env: "api_token (api_from_env env) = set_value env ''SOULSYSTEM_API_TOKEN''"
  by (auto simp: api_from_env_def api_scoped_def api_new_def set_value_def Let_def split: option.split)

lemma effective_secret_main: "effective_secret (main_ws_config env) = set_value env ''SOULSYSTEM_WS_BRIDGE_SECRET''"
  by (auto simp: effective_secret_def main_ws_config_def secret_from_env_def set_value_def bind_eq_Some_conv split: bind_splits)

lemma api_router_guarded:
  assumes "api_router auth handler req st = Some out" "req_path req \<noteq> [''health'']"
  shows "(resp_status (fst out) \<in> {401, 403} \<and> snd out = st)
    \<or> (\<exists>t sc h. api_token auth = Some t \<and> req_header req ''authorization'' = Some (''Bearer '' @ t)
         \<and> find_route api_routes req = Some (sc, h) \<and> allows (api_scopes auth) sc \<and> out = handler h req st)"
proof -
  have "\<not> match_segments [''health''] (req_path req)"
    using assms(2) by (cases "req_path req" rule: list.exhaust; cases "tl (req_path req)") auto
  then obtain sc h where r: "find_route api_routes req = Some (sc, h)"
    "out = api_require_auth auth (api_require_scope auth sc (handler h)) req st"
    using assms(1) by (auto simp: api_router_def)
  then show ?thesis
    by (auto simp: api_require_auth_def api_require_scope_def api_authenticate_iff Let_def respond_def
        bind_eq_Some_conv strip_prefix_Some_iff)
qed

lemma map_sum_Inr_iff: "map_sum f id x = Inr y \<longleftrightarrow> x = Inr y"
  by (cases x) auto

text \<open>What the posture of a start says when nothing is unmet.\<close>

lemma listeners_met:
  assumes "\<And>v. \<not> unmet p v" "l \<in> set (listeners p)"
  shows "listener_authenticated l" "is_loopback_bind (bind_addr l) \<or> tls_enabled l"
  using assms(2) assms(1) [of "UnauthenticatedListener (listener_name l) (bind_addr l)"]
    assms(1) [of "NonLoopbackBindWithoutTls (listener_name l) (bind_addr l)"] by auto

lemma production_posture:
  assumes "main_startup os env cli = Inr r" "resolve_mode env = Inr Production"
  shows "\<not> unmet (assemble_posture os env (cli_gateway_addr cli) (cli_data_dir cli) (auth_is_configured (auth_from_env env))
      (cli_tls cli) (main_ws_config env) (api_is_configured (api_from_env env))
      (if cli_entity cli then Some ''soul_entity'' else None)) v"
  using assms by (auto simp: main_startup_def enforce_startup_security_def map_sum_Inr_iff evaluate_production)

lemma production_facts:
  assumes "main_startup os env cli = Inr r" "resolve_mode env = Inr Production"
  shows "auth_from_env env \<noteq> []" "list_all (\<lambda>c. \<not> is_default_secret (cred_token c)) (auth_from_env env)"
    "is_loopback_bind (cli_gateway_addr cli) \<or> cli_tls cli" "api_is_configured (api_from_env env)"
    "ws_is_authenticated (main_ws_config env)" "canonicalises os (cli_data_dir cli)" "isolation_available os env"
    "\<not> cli_entity cli"
proof -
  let ?p = "assemble_posture os env (cli_gateway_addr cli) (cli_data_dir cli) (auth_is_configured (auth_from_env env))
      (cli_tls cli) (main_ws_config env) (api_is_configured (api_from_env env))
      (if cli_entity cli then Some ''soul_entity'' else None)"
  note u = production_posture [OF assms]
  note l = listeners_met [where p = ?p, OF u]
  have tok: "gateway_tokens env \<noteq> []" "list_all (\<lambda>(_, token). \<not> is_default_secret token) (gateway_tokens env)"
    using u [of MissingAuthMaterial] by (simp_all add: assemble_posture_def Let_def)
  from tok(1) gateway_tokens_auth [of env] show "auth_from_env env \<noteq> []" by auto
  have "list_all (\<lambda>t. \<not> is_default_secret t) (map snd (gateway_tokens env))"
    using tok(2) by (auto simp: list_all_iff)
  then show "list_all (\<lambda>c. \<not> is_default_secret (cred_token c)) (auth_from_env env)"
    unfolding gateway_tokens_auth by (simp add: list_all_iff)
  show "is_loopback_bind (cli_gateway_addr cli) \<or> cli_tls cli"
    using l(2) [of "listeners ?p ! 0"] by (simp add: assemble_posture_def Let_def)
  show "api_is_configured (api_from_env env)"
    using l(1) [of "listeners ?p ! 1"] by (simp add: assemble_posture_def Let_def)
  show "ws_is_authenticated (main_ws_config env)"
    using l(1) [of "listeners ?p ! 2"] by (simp add: assemble_posture_def Let_def)
  show "canonicalises os (cli_data_dir cli)" using u [of WorkspaceRootNotCanonical] by (simp add: assemble_posture_def Let_def)
  show "isolation_available os env" using u [of IsolationBackendUnavailable] by (simp add: assemble_posture_def Let_def)
  show "\<not> cli_entity cli"
    using u [of "ExperimentalRuntimeInProduction ''soul_entity''"] by (auto simp: assemble_posture_def Let_def)
qed

section \<open>An example, and what the guard does not look at\<close>

definition example_variables :: "(string \<times> string) list" where
  "example_variables =
     [(''SOULSYSTEM_ENV'', ''production''), (''SOULSYSTEM_GATEWAY_TOKEN'', ''k7Zq-91x''), (''SOULSYSTEM_API_TOKEN'', ''changeme''),
      (''SOULSYSTEM_WS_BRIDGE_SECRET'', ''token''), (''SOULSYSTEM_WS_BRIDGE_ALLOW_UNAUTHENTICATED'', ''1''), (''PATH'', ''/bin:/usr/bin'')]"

definition example_startup_env :: environment where
  "example_startup_env = map_of example_variables"

definition example_startup_os :: startup_os where
  "example_startup_os = \<lparr>canonicalises = (\<lambda>p. p = ''data''), path_exists = (\<lambda>p. True),
     is_file = (\<lambda>p. p = ''/usr/bin/bwrap''), permission_mode = (\<lambda>p. Some 384)\<rparr>"

definition example_cli :: startup_cli where
  "example_cli = \<lparr>cli_gateway_addr = ''127.0.0.1:7878'', cli_tls = False, cli_entity = False, cli_data_dir = ''data''\<rparr>"

lemmas trim_eval = trim_ascii ascii_def ascii_ws_def

lemma example_mode: "resolve_mode example_startup_env = Inr Production"
  by (simp add: resolve_mode_def mode_from_env_def from_env_value_def example_startup_env_def example_variables_def trim_eval)

lemma example_loopback: "is_loopback_bind ''127.0.0.1:7878''" "is_loopback_bind ''127.0.0.1:9023''" "is_loopback_bind ''127.0.0.1:9022''"
  by code_simp+

text \<open>The host part only has to look like an address that begins with 127: a name of four labels does.\<close>

lemma loopback_by_name: "is_loopback_bind ''127.evil.example.com:7878''"
  by code_simp

text \<open>The placeholders are looked for among the gateway's tokens only: a start in production is let
  through although the API's token and the bridge's secret are on the list of placeholders.\<close>

lemma default_examples: "is_default_secret ''changeme''" "is_default_secret ''token''" "\<not> is_default_secret ''k7Zq-91x''"
  by (code_simp)+

lemma example_values:
  "set_value example_startup_env ''SOULSYSTEM_API_TOKEN'' = Some ''changeme''"
  "set_value example_startup_env ''SOULSYSTEM_WS_BRIDGE_SECRET'' = Some ''token''"
  by (simp_all add: set_value_def example_startup_env_def example_variables_def trim_eval)

lemma example_tokens:
  "gateway_tokens example_startup_env = [(''SOULSYSTEM_GATEWAY_TOKEN'', ''k7Zq-91x'')]" "auth_from_env example_startup_env \<noteq> []"
  by (simp_all add: gateway_tokens_def auth_from_env_def example_startup_env_def example_variables_def)

lemma example_probes:
  "isolation_available example_startup_os example_startup_env"
  "\<not> is_world_or_group_accessible example_startup_os f" "canonicalises example_startup_os ''data''"
  by (simp_all add: isolation_available_def which_in_path_def join_dir_def is_world_or_group_accessible_def
      example_startup_os_def example_startup_env_def example_variables_def)

lemma placeholders_pass:
  "\<exists>r. main_startup example_startup_os example_startup_env example_cli = Inr r
     \<and> set_value example_startup_env ''SOULSYSTEM_API_TOKEN'' = Some ''changeme'' \<and> is_default_secret ''changeme''
     \<and> set_value example_startup_env ''SOULSYSTEM_WS_BRIDGE_SECRET'' = Some ''token'' \<and> is_default_secret ''token''"
proof -
  have "api_is_configured (api_from_env example_startup_env)" "ws_is_authenticated (main_ws_config example_startup_env)"
    by (simp_all add: api_is_configured_def api_token_from_env ws_is_authenticated_def effective_secret_main example_values)
  then have "\<not> unmet (assemble_posture example_startup_os example_startup_env ''127.0.0.1:7878'' ''data'' True False
      (main_ws_config example_startup_env) (api_is_configured (api_from_env example_startup_env)) None) v" for v
    by (cases v) (auto simp: assemble_posture_def Let_def example_tokens example_probes default_examples example_loopback main_ws_config_def)
  then show ?thesis
    by (simp add: main_startup_def enforce_startup_security_def example_mode example_cli_def map_sum_Inr_iff
        evaluate_production auth_is_configured_def example_tokens example_values default_examples)
qed

text \<open>The two guards read an unset mode differently: the binary starts in development, the shared
  token check treats it as production.\<close>

lemma unset_mode:
  assumes "env ''SOULSYSTEM_ENV'' = None"
  shows "resolve_mode env = Inr Development" "enforce_startup env [] service vars = Inl (ProductionWithoutCredentials service vars)"
  using assms by (simp_all add: resolve_mode_def mode_from_env_def from_env_value_def enforce_startup_def token_is_configured_def)

section \<open>The shared token check\<close>

lemma token_authenticate_header_iff:
  assumes "\<forall>c \<in> set auth. length (credential_token c) < 2 ^ 64" "\<forall>h. header = Some h \<longrightarrow> length h < 2 ^ 64"
  shows "token_authenticate_header auth header \<noteq> None \<longleftrightarrow>
    (\<exists>c \<in> set auth. header = Some (''Bearer '' @ credential_token c))"
proof (cases "Option.bind header (strip_prefix ''Bearer '')")
  case None
  then have "header \<noteq> Some (''Bearer '' @ t)" for t
    by (cases header) (auto simp: strip_prefix_def starts_with_iff)
  with None show ?thesis by (auto simp: token_authenticate_header_def token_authenticate_def)
next
  case (Some given)
  then have h: "header = Some (''Bearer '' @ given)" by (auto simp: bind_eq_Some_conv strip_prefix_Some_iff)
  with assms(2) have "length given < 2 ^ 64" by auto
  with assms(1) have "filter (\<lambda>c. constant_time_eq (as_bytes (credential_token c)) (as_bytes given)) auth =
      filter (\<lambda>c. credential_token c = given) auth"
    by (intro filter_cong) (auto simp: constant_time_eq_bytes)
  then have "token_authenticate_header auth header = (case filter (\<lambda>c. credential_token c = given) auth of
      [] \<Rightarrow> None | _ \<Rightarrow> Some (credential_principal (last (filter (\<lambda>c. credential_token c = given) auth))))"
    using Some by (simp add: token_authenticate_header_def token_authenticate_def fold_last_match split: list.split)
  then have "token_authenticate_header auth header \<noteq> None \<longleftrightarrow> filter (\<lambda>c. credential_token c = given) auth \<noteq> []"
    by (auto split: list.splits)
  then show ?thesis using h by (auto simp: filter_empty_conv)
qed

lemma token_entry_nonempty: "token_entry e = Some c \<Longrightarrow> credential_token c \<noteq> []"
  by (cases "split_once (CHR ''='') e") (auto simp: token_entry_def Let_def split: if_splits)

lemma token_from_env_nonempty: "c \<in> set (token_from_env env multi single) \<Longrightarrow> credential_token c \<noteq> []"
  by (auto simp: token_from_env_def set_map_filter_iff Let_def dest: token_entry_nonempty split: option.splits if_splits)

text \<open>A listener that starts without credentials is in explicit development, and then refuses every
  request.\<close>

lemma enforce_startup_open:
  assumes "enforce_startup env auth service vars = Inr ()" "auth = []"
  shows "mode_from_env env = Inr Development \<and> token_authenticate_header auth header = None"
  using assms by (auto simp: enforce_startup_def token_is_configured_def token_authenticate_header_def
      token_authenticate_def split: sum.splits if_splits option.splits intro: RuntimeMode.exhaust)

section \<open>Theorems\<close>

text \<open>A posture whose listeners are bound to socket addresses: name, address, whether it serves TLS and
  whether it authenticates.\<close>

definition posture_at :: "(string \<times> socket_addr \<times> bool \<times> bool) list \<Rightarrow> SecurityPosture \<Rightarrow> SecurityPosture" where
  "posture_at ls p = p\<lparr>listeners := map (\<lambda>(n, a, tls, auth). \<lparr>listener_name = n, bind_addr = render_addr a,
     tls_enabled = tls, listener_authenticated = auth\<rparr>) ls\<rparr>"

lemma no_violations_iff:
  "guard_violations p = [] \<longleftrightarrow>
     (\<forall>l \<in> set (listeners p). (is_loopback_bind (bind_addr l) \<or> tls_enabled l) \<and> listener_authenticated l)
     \<and> auth_material_present p \<and> workspace_root_canonical p \<and> sandbox_backend_present p
     \<and> isolation_backend_available p \<and> (self_modification_enabled p \<longrightarrow> self_modification_signed_and_gated p)
     \<and> set (webhook_providers p) \<subseteq> set (webhook_providers_with_secret p)
     \<and> default_or_example_secret_names p = [] \<and> insecure_permission_paths p = []
     \<and> experimental_runtime_selected p = None"
  by (auto simp: guard_violations_def listener_violations_def filter_empty_conv split: option.splits)

text \<open>C18: The guard fails closed. Let the listeners be bound to socket addresses (as \<open>main\<close> parses them;
  IPv4, or IPv6 without a scope id). A start in production is accepted exactly when every listener
  authenticates and serves TLS or is bound to \<open>127.0.0.0/8\<close> or \<open>::1\<close>, and authentication material, a
  canonical data root, a sandbox and an isolation backend are present, self-modification is off or signed and
  gated, every webhook provider has a secret, no secret is a default one, no file is insecure, and no
  experimental runtime is selected; a listener on another address without TLS is named in the refusal.
  Development is never refused, and reports findings exactly when production would refuse.\<close>

theorem startup_fails_closed:
  assumes "\<forall>(n, a, tls, auth) \<in> set ls. addr_ok a"
  shows "((\<exists>r. evaluate_posture Production (posture_at ls p) = Inr r) \<longleftrightarrow>
      (\<forall>(n, a, tls, auth) \<in> set ls. auth \<and> (tls \<or> on_loopback a))
      \<and> auth_material_present p \<and> workspace_root_canonical p \<and> sandbox_backend_present p
      \<and> isolation_backend_available p \<and> (self_modification_enabled p \<longrightarrow> self_modification_signed_and_gated p)
      \<and> set (webhook_providers p) \<subseteq> set (webhook_providers_with_secret p)
      \<and> default_or_example_secret_names p = [] \<and> insecure_permission_paths p = []
      \<and> experimental_runtime_selected p = None)
    \<and> (\<forall>e. evaluate_posture Production (posture_at ls p) = Inl e \<longrightarrow>
         (\<forall>(n, a, tls, auth) \<in> set ls. \<not> tls \<and> \<not> on_loopback a \<longrightarrow>
            NonLoopbackBindWithoutTls n (render_addr a) \<in> set (rejected_violations e)))
    \<and> (\<exists>r. evaluate_posture Development (posture_at ls p) = Inr r
         \<and> (has_findings r \<longleftrightarrow> (\<exists>e. evaluate_posture Production (posture_at ls p) = Inl e)))"
proof -
  let ?p = "posture_at ls p"
  have loop: "is_loopback_bind (render_addr a) \<longleftrightarrow> on_loopback a" if "(n, a, tls, auth) \<in> set ls" for n a tls auth
    using assms is_loopback_render that by blast
  have "(\<exists>r. evaluate_posture Production ?p = Inr r) \<longleftrightarrow> guard_violations ?p = []"
    by (simp add: evaluate_posture_def Let_def)
  moreover have "guard_violations ?p = [] \<longleftrightarrow>
      (\<forall>(n, a, tls, auth) \<in> set ls. auth \<and> (tls \<or> on_loopback a))
      \<and> auth_material_present p \<and> workspace_root_canonical p \<and> sandbox_backend_present p
      \<and> isolation_backend_available p \<and> (self_modification_enabled p \<longrightarrow> self_modification_signed_and_gated p)
      \<and> set (webhook_providers p) \<subseteq> set (webhook_providers_with_secret p)
      \<and> default_or_example_secret_names p = [] \<and> insecure_permission_paths p = []
      \<and> experimental_runtime_selected p = None"
    unfolding no_violations_iff using loop by (auto simp: posture_at_def)
  moreover have "NonLoopbackBindWithoutTls n (render_addr a) \<in> set (rejected_violations e)"
    if "evaluate_posture Production ?p = Inl e" "(n, a, tls, auth) \<in> set ls" "\<not> tls" "\<not> on_loopback a" for e n a tls auth
  proof -
    have "rejected_violations e = guard_violations ?p"
      using that(1) by (auto simp: evaluate_posture_def Let_def split: if_splits)
    moreover have "unmet ?p (NonLoopbackBindWithoutTls n (render_addr a))"
      using that(2-4) loop [OF that(2)] by (force simp: posture_at_def)
    ultimately show ?thesis by (simp add: guard_violations_iff del: unmet.simps)
  qed
  moreover have "\<exists>r. evaluate_posture Development ?p = Inr r
      \<and> (has_findings r \<longleftrightarrow> (\<exists>e. evaluate_posture Production ?p = Inl e))"
    by (simp add: evaluate_posture_def has_findings_def Let_def)
  ultimately show ?thesis by blast
qed

definition example_posture :: SecurityPosture where
  "example_posture = \<lparr>listeners = [], auth_material_present = True, workspace_root_canonical = True,
     sandbox_backend_present = True, isolation_backend_available = True, self_modification_enabled = False,
     self_modification_signed_and_gated = False, webhook_providers = [''slack''],
     webhook_providers_with_secret = [''slack''], insecure_permission_paths = [],
     default_or_example_secret_names = [], experimental_runtime_selected = None\<rparr>"

theorem startup_fails_closed_witness:
  "(\<exists>r. evaluate_posture Production (posture_at [(''gateway'', V4 127 0 0 1 7878, False, True),
       (''bridge'', V6 ''::1'' 9000, False, True), (''api'', V4 10 0 0 1 443, True, True)] example_posture) = Inr r)
   \<and> \<not> (\<exists>r. evaluate_posture Production (posture_at [(''gateway'', V4 0 0 0 0 7878, False, True)] example_posture) = Inr r)"
proof -
  have "addr_ok (V6 ''::1'' 9000)" by simp
  then show ?thesis
    using startup_fails_closed [of "[(''gateway'', V4 127 0 0 1 7878, False, True),
        (''bridge'', V6 ''::1'' 9000, False, True), (''api'', V4 10 0 0 1 443, True, True)]" example_posture]
      startup_fails_closed [of "[(''gateway'', V4 0 0 0 0 7878, False, True)]" example_posture]
    by (simp add: example_posture_def)
qed

text \<open>C8: What a start in production guarantees. When \<open>main\<close> gets past the guard with
  \<open>SOULSYSTEM_ENV=production\<close>: the gateway has a credential and none of its tokens is a known
  placeholder; its address is loopback or it serves TLS; a request to the API other than its health
  probe is refused without effect, or carried the token of \<open>SOULSYSTEM_API_TOKEN\<close> and reached a
  handler its scopes allow; every message the bridge ever puts on the bus comes from a connection
  that had presented \<open>SOULSYSTEM_WS_BRIDGE_SECRET\<close>, whatever
  \<open>SOULSYSTEM_WS_BRIDGE_ALLOW_UNAUTHENTICATED\<close> says; the data directory exists, bubblewrap is on the
  path, and the experimental runtime is not selected.\<close>

theorem production_start:
  assumes "main_startup os env cli = Inr r" "resolve_mode env = Inr Production"
  shows "auth_from_env env \<noteq> [] \<and> list_all (\<lambda>c. \<not> is_default_secret (cred_token c)) (auth_from_env env)
    \<and> (is_loopback_bind (cli_gateway_addr cli) \<or> cli_tls cli)
    \<and> (\<exists>token. set_value env ''SOULSYSTEM_API_TOKEN'' = Some token \<and>
         (\<forall>handler req st out. api_router (api_from_env env) handler req (st :: 's) = Some out \<and> req_path req \<noteq> [''health''] \<longrightarrow>
            (resp_status (fst out) \<in> {401, 403} \<and> snd out = st)
            \<or> (\<exists>sc h. req_header req ''authorization'' = Some (''Bearer '' @ token) \<and>
                 find_route api_routes req = Some (sc, h) \<and> allows (api_scopes (api_from_env env)) sc \<and> out = handler h req st)))
    \<and> (\<exists>secret. set_value env ''SOULSYSTEM_WS_BRIDGE_SECRET'' = Some secret \<and>
         (\<forall>(sd :: 'v serde) ls b m. bridge_run sd ls (bridge_new (main_ws_config env)) = Some b \<and> m \<in> set (br_published b) \<longrightarrow>
            (\<exists>before after t x s topic payload y s'. ls = before @ Client_Branch t (Text_In x) s # after \<and>
               client_message sd x = Inr (Publish topic payload) \<and> m = Custom topic payload \<and>
               Client_Branch t (Text_In y) s' \<in> set before \<and> presented sd y = Some secret)))
    \<and> canonicalises os (cli_data_dir cli) \<and> isolation_available os env \<and> \<not> cli_entity cli"
proof -
  note f = production_facts [OF assms]
  obtain token where tk: "set_value env ''SOULSYSTEM_API_TOKEN'' = Some token" "api_token (api_from_env env) = Some token"
    using f(4) by (auto simp: api_is_configured_def api_token_from_env)
  obtain secret where sc: "set_value env ''SOULSYSTEM_WS_BRIDGE_SECRET'' = Some secret" "effective_secret (main_ws_config env) = Some secret"
    using f(5) by (auto simp: ws_is_authenticated_def effective_secret_main)
  have api: "(resp_status (fst out) \<in> {401, 403} \<and> snd out = st)
      \<or> (\<exists>sc h. req_header req ''authorization'' = Some (''Bearer '' @ token) \<and>
           find_route api_routes req = Some (sc, h) \<and> allows (api_scopes (api_from_env env)) sc \<and> out = handler h req st)"
    if "api_router (api_from_env env) handler req st = Some out" "req_path req \<noteq> [''health'']" for handler req and st :: 's and out
    using api_router_guarded [OF that] tk(2) by auto
  have bus: "\<exists>before after t x s topic payload y s'. ls = before @ Client_Branch t (Text_In x) s # after \<and>
      client_message sd x = Inr (Publish topic payload) \<and> m = Custom topic payload \<and>
      Client_Branch t (Text_In y) s' \<in> set before \<and> presented sd y = Some secret"
    if "bridge_run sd ls (bridge_new (main_ws_config env)) = Some b" "m \<in> set (br_published b)" for sd :: "'v serde" and ls b m
    using access_run [OF that(1)] that(2) sc(2) unfolding access_ok_def published_by_def authorised_def by fastforce
  show ?thesis using f tk(1) sc(1) api bus by blast
qed

theorem production_start_witness:
  "\<exists>r secret. main_startup example_startup_os example_startup_env example_cli = Inr r \<and> resolve_mode example_startup_env = Inr Production
     \<and> list_all (\<lambda>c. \<not> is_default_secret (cred_token c)) (auth_from_env example_startup_env)
     \<and> set_value example_startup_env ''SOULSYSTEM_WS_BRIDGE_SECRET'' = Some secret
     \<and> (\<forall>(sd :: string serde) ls b m. bridge_run sd ls (bridge_new (main_ws_config example_startup_env)) = Some b \<and> m \<in> set (br_published b) \<longrightarrow>
          (\<exists>before after t x s topic payload y s'. ls = before @ Client_Branch t (Text_In x) s # after \<and>
             client_message sd x = Inr (Publish topic payload) \<and> m = Custom topic payload \<and>
             Client_Branch t (Text_In y) s' \<in> set before \<and> presented sd y = Some secret))"
proof -
  obtain r where "main_startup example_startup_os example_startup_env example_cli = Inr r" using placeholders_pass by blast
  from this production_start [OF this example_mode, where 's = unit and 'v = string] show ?thesis
    using example_mode by blast
qed

end
