(* ===== verification/Mesh_Spawn.thy ===== *)
theory Mesh_Spawn
  imports Startup_Theorems Tools Sandbox_Theorems
begin

text \<open>
  The orchestrator of the mesh (\<open>soullink-orchestrator-standalone\<close>): its registry of brains, the choice
  of brains for a question, the route that starts a brain in the sandbox, the watch over a started
  brain, and the authentication in front of all routes. The other handlers are a parameter.

  The registry is a concurrent hash table; here it is the list of its entries in the order an
  iteration visits them. JSON is the parsed value.
\<close>

section \<open>Registry\<close>

record BrainConfig =
  brain_port :: u16
  brain_url :: string
  brain_speciality :: "string list"
  brain_version :: string
  spawned_by :: string

record AppState =
  brains :: "(string \<times> BrainConfig) list"
  brain_dir :: string
  query_count :: u64
  spawn_count :: u64

definition default_brain :: "u16 \<Rightarrow> string list \<Rightarrow> BrainConfig" where
  "default_brain p spec = \<lparr>brain_port = p, brain_url = ''http://localhost:'' @ show_nat (unat p),
     brain_speciality = spec, brain_version = ''v12'', spawned_by = ''default''\<rparr>"

definition create_default_brains :: "(string \<times> BrainConfig) list" where
  "create_default_brains =
     [(''science'', default_brain 9010 [''physics'', ''math'', ''chemistry'', ''computation'', ''science'']),
      (''mind'', default_brain 9011 [''neuroscience'', ''language'', ''philosophy'', ''memory'', ''mind'']),
      (''engineer'', default_brain 9012 [''optimization'', ''logic'', ''algebra'', ''computation'', ''engineering'']),
      (''crypto'', default_brain 9013 [''trading'', ''blockchain'', ''defi'', ''markets'', ''crypto'', ''finance'']),
      (''creative'', default_brain 9014 [''patterns'', ''geometry'', ''art'', ''vision'', ''design'', ''creative'']),
      (''meta'', default_brain 9015 [''learning'', ''optimization'', ''meta'', ''reinforcement''])]"

text \<open>The order of the entries is the hash tables' own: any list with these entries.\<close>

definition app_state_new :: "(string \<times> BrainConfig) list \<Rightarrow> string \<Rightarrow> AppState" where
  "app_state_new entries dir = \<lparr>brains = entries, brain_dir = dir, query_count = 0, spawn_count = 0\<rparr>"

definition increment_query_count :: "AppState \<Rightarrow> AppState" where
  "increment_query_count st = st\<lparr>query_count := query_count st + 1\<rparr>"

definition increment_spawn_count :: "AppState \<Rightarrow> AppState" where
  "increment_spawn_count st = st\<lparr>spawn_count := spawn_count st + 1\<rparr>"

definition brain_exists :: "string \<Rightarrow> AppState \<Rightarrow> bool" where
  "brain_exists n st \<longleftrightarrow> n \<in> fst ` set (brains st)"

definition get_brain_port :: "string \<Rightarrow> AppState \<Rightarrow> u16 option" where
  "get_brain_port n st = map_option brain_port (map_of (brains st) n)"

definition get_used_ports :: "AppState \<Rightarrow> u16 list" where
  "get_used_ports st = map (brain_port \<circ> snd) (brains st)"

text \<open>Two for every speciality the question mentions, half a point for \<open>meta\<close>; the three best in
  stable order, and always \<open>meta\<close>.\<close>

definition brain_score :: "string \<Rightarrow> string \<times> BrainConfig \<Rightarrow> real" where
  "brain_score q = (\<lambda>(key, b).
     (\<Sum>kw \<leftarrow> brain_speciality b. if contains q kw then 2 else 0) + (if key = ''meta'' then 1 / 2 else 0))"

definition select_brains :: "string \<Rightarrow> AppState \<Rightarrow> string list" where
  "select_brains query st =
     (let q = to_lowercase query;
          scores = map (\<lambda>e. (fst e, brain_score q e)) (brains st);
          selected = map fst (take 3 (sort_key (\<lambda>p. - snd p) scores));
          selected = (if ''meta'' \<in> set selected then selected else selected @ [''meta''])
      in remdups_adj selected)"

section \<open>Starting a brain\<close>

definition MAX_LIVE_BRAINS :: nat where "MAX_LIVE_BRAINS = 16"
definition MAX_BRAIN_PORT :: nat where "MAX_BRAIN_PORT = 9999"

definition ascii_alphanumeric :: "char \<Rightarrow> bool" where
  "ascii_alphanumeric c \<longleftrightarrow> (let n = (of_char c :: nat) in 48 \<le> n \<and> n \<le> 57 \<or> 65 \<le> n \<and> n \<le> 90 \<or> 97 \<le> n \<and> n \<le> 122)"

definition valid_domain :: "string \<Rightarrow> bool" where
  "valid_domain d \<longleftrightarrow> d \<noteq> [] \<and> length d \<le> 64
     \<and> list_all (\<lambda>c. ascii_alphanumeric c \<or> c = CHR ''_'' \<or> c = CHR ''-'') d \<and> \<not> starts_with d ''-''"

definition brain_policy :: "string option \<Rightarrow> SandboxPolicy" where
  "brain_policy home = (default_policy home)\<lparr>network_isolated := False, timeout := 30 * 1000000000\<rparr>"

text \<open>The search for a port, on natural numbers: it never passes \<open>MAX_BRAIN_PORT\<close>.\<close>

function port_search :: "nat list \<Rightarrow> nat \<Rightarrow> nat option" where
  "port_search used p =
     (if p \<in> set used then (if p \<ge> MAX_BRAIN_PORT then None else port_search used (p + 1)) else Some p)"
  by auto
termination by (relation "measure (\<lambda>(used, p). MAX_BRAIN_PORT - p)") auto

declare port_search.simps [simp del]

definition requested_domain :: "json \<Rightarrow> string" where
  "requested_domain body = (case Option.bind (json_get ''domain'' body) json_as_str of Some d \<Rightarrow> d | None \<Rightarrow> [])"

definition requested_speciality :: "string \<Rightarrow> json \<Rightarrow> string list" where
  "requested_speciality domain_name body =
     (case json_get ''speciality'' body of Some (JArray vs) \<Rightarrow> List.map_filter json_as_str vs | _ \<Rightarrow> [domain_name])"

definition brain_spec :: "string \<Rightarrow> string \<Rightarrow> string list \<Rightarrow> SpawnSpec" where
  "brain_spec dir domain_name speciality =
     fold (\<lambda>s spec. spec_value s (spec_flag ''--speciality'' spec)) speciality
       (spec_value domain_name (spec_flag ''--brain'' (spec_flag (dir @ ''/brain_v12.py'') (spec_new ''python3''))))"

datatype spawn_answer = Domain_Required | Domain_Invalid | Brain_Exists string | Limit_Reached | No_Free_Port
  | Spawn_Refused SandboxError | Spawned string nat

text \<open>The whole handler: the answer, the process it started, the state.\<close>

definition route_spawn ::
  "('o exec_os_scheme) \<Rightarrow> string option \<Rightarrow> json \<Rightarrow> AppState \<Rightarrow> spawn_answer \<times> Child option \<times> AppState" where
  "route_spawn os home body st =
     (let domain_name = requested_domain body in
      if domain_name = [] then (Domain_Required, None, st)
      else if \<not> valid_domain domain_name then (Domain_Invalid, None, st)
      else if brain_exists domain_name st then (Brain_Exists domain_name, None, st)
      else let used_ports = get_used_ports st in
      if length used_ports \<ge> MAX_LIVE_BRAINS then (Limit_Reached, None, st)
      else case port_search (map unat used_ports) 9016 of
        None \<Rightarrow> (No_Free_Port, None, st)
      | Some p \<Rightarrow>
        (case spawn_supervised os (brain_spec (brain_dir st) domain_name (requested_speciality domain_name body))
                (sandbox_new (brain_policy home)) of
           Inl e \<Rightarrow> (Spawn_Refused e, None, st)
         | Inr child \<Rightarrow> (Spawned domain_name p, Some child, increment_spawn_count st)))"

text \<open>The task that watches a started brain: six polls, and the end of its process group when the
  client cannot be built or no poll succeeds.\<close>

datatype watch_end = Brain_Active | Group_Killed

definition watch_brain :: "bool \<Rightarrow> (nat \<Rightarrow> bool) \<Rightarrow> watch_end" where
  "watch_brain client_built answered =
     (if \<not> client_built then Group_Killed
      else if list_ex answered [0..<6] then Brain_Active else Group_Killed)"

fun show_spawn_answer :: "spawn_answer \<Rightarrow> json" where
  "show_spawn_answer Domain_Required = JObject [(''ok'', JBool False), (''error'', JString ''domain requis'')]"
| "show_spawn_answer Domain_Invalid = JObject [(''ok'', JBool False), (''error'', JString
     (''domain invalide: alphanum'' @ [CHR 0xC3, CHR 0xA9] @ ''rique, '' @ [CHR 0x27] @ ''_'' @ [CHR 0x27] @ '' et '' @ [CHR 0x27]
      @ ''-'' @ [CHR 0x27] @ '' uniquement, 1-64 caract'' @ [CHR 0xC3, CHR 0xA8] @ ''res, ne peut pas commencer par ''
      @ [CHR 0x27] @ ''-'' @ [CHR 0x27]))]"
| "show_spawn_answer (Brain_Exists d) = JObject [(''ok'', JBool False), (''error'', JString
     (''Brain '' @ [CHR 0x27] @ d @ [CHR 0x27] @ '' existe d'' @ [CHR 0xC3, CHR 0xA9] @ ''j'' @ [CHR 0xC3, CHR 0xA0]))]"
| "show_spawn_answer Limit_Reached = JObject [(''ok'', JBool False), (''error'', JString
     (''limite de '' @ show_nat MAX_LIVE_BRAINS @ '' brains atteinte '' @ [CHR 0xE2, CHR 0x80, CHR 0x94] @ '' arr'' @ [CHR 0xC3, CHR 0xAA]
      @ ''ter un brain avant d'' @ [CHR 0x27] @ ''en lancer un autre''))]"
| "show_spawn_answer No_Free_Port = JObject [(''ok'', JBool False), (''error'', JString ''aucun port libre dans la plage 9016-9999'')]"
| "show_spawn_answer (Spawn_Refused e) = JObject [(''ok'', JBool False), (''error'', JString
     (''spawn refus'' @ [CHR 0xC3, CHR 0xA9] @ '': '' @ show_sandbox_error e))]"
| "show_spawn_answer (Spawned d p) = JObject [(''ok'', JBool True), (''domain'', JString d), (''port'', JNumber (show_nat p)),
     (''msg'', JString (''Spawn Brain-'' @ d @ '' en cours sur :'' @ show_nat p)), (''check'', JString ''/api/mesh/status dans 30s'')]"

section \<open>Routes\<close>

definition TOKENS_VAR :: string where "TOKENS_VAR = ''SOULLINK_ORCHESTRATOR_TOKENS''"
definition TOKEN_VAR :: string where "TOKEN_VAR = ''SOULLINK_ORCHESTRATOR_TOKEN''"
definition AUTH_VARS :: string where
  "AUTH_VARS = ''SOULLINK_ORCHESTRATOR_TOKENS or SOULLINK_ORCHESTRATOR_TOKEN''"
definition SERVICE :: string where "SERVICE = ''soullink-orchestrator''"

definition mesh_auth_from_env :: "environment \<Rightarrow> TokenAuth" where
  "mesh_auth_from_env env = token_from_env env TOKENS_VAR TOKEN_VAR"

definition mesh_routes :: "(Method \<times> string list \<times> string) list" where
  "mesh_routes =
     [(GET, [], ''route_index''),
      (GET, [''api'', ''mesh'', ''status''], ''route_status''),
      (GET, [''api'', ''mesh'', ''turbulence''], ''route_turbulence''),
      (POST, [''api'', ''mesh'', ''query''], ''route_query''),
      (POST, [''api'', ''mesh'', ''think''], ''route_think''),
      (POST, [''api'', ''mesh'', ''reinforce''], ''route_reinforce''),
      (POST, [''api'', ''mesh'', ''stimulate''], ''route_stimulate''),
      (POST, [''api'', ''mesh'', ''spawn''], ''route_spawn''),
      (GET, [''api'', ''mesh'', ''brains''], ''route_brains''),
      (GET, [''metrics''], ''route_metrics'')]"

text \<open>What the router does with a request: it has no route, it refuses, or it calls a handler for a
  principal.\<close>

datatype mesh_decision = No_Route | Unauthorised | Handled string string

definition mesh_require_auth :: "TokenAuth \<Rightarrow> Request \<Rightarrow> string \<Rightarrow> mesh_decision" where
  "mesh_require_auth auth req handler =
     (case token_authenticate_header auth (req_header req ''authorization'') of
        Some who \<Rightarrow> Handled handler who
      | None \<Rightarrow> Unauthorised)"

definition build_router :: "TokenAuth \<Rightarrow> Request \<Rightarrow> mesh_decision" where
  "build_router auth req =
     (case find_route mesh_routes req of None \<Rightarrow> No_Route | Some h \<Rightarrow> mesh_require_auth auth req h)"

text \<open>\<open>main\<close> up to the listener, and one request to it. The body of a request to the spawn route is its
  parsed JSON; the other handlers are a parameter, and start no process.\<close>

definition mesh_main :: "environment \<Rightarrow> AuthStartupError + TokenAuth" where
  "mesh_main env =
     (let gate = mesh_auth_from_env env in bind_res (enforce_startup env gate SERVICE AUTH_VARS) (\<lambda>_. Inr gate))"

definition mesh_request ::
  "('o exec_os_scheme) \<Rightarrow> string option \<Rightarrow> (string \<Rightarrow> json \<Rightarrow> AppState \<Rightarrow> AppState) \<Rightarrow> TokenAuth \<Rightarrow> Request \<Rightarrow> json \<Rightarrow> AppState
     \<Rightarrow> mesh_decision \<times> Child option \<times> AppState" where
  "mesh_request os home other gate req body st =
     (case build_router gate req of
        Handled h who \<Rightarrow>
          if h = ''route_spawn'' then (Handled h who, snd (route_spawn os home body st)) else (Handled h who, None, other h body st)
      | d \<Rightarrow> (d, None, st))"

section \<open>The choice of brains\<close>

lemma with_meta:
  assumes "length s \<le> 3" "t = (if m \<in> set s then s else s @ [m])"
  shows "m \<in> set (remdups_adj t) \<and> length (remdups_adj t) \<le> 4"
proof -
  have "length t \<le> 4" using assms by auto
  then have "length (remdups_adj t) \<le> 4" by (rule order.trans [OF remdups_adj_length])
  with assms(2) show ?thesis by auto
qed

lemma select_brains_meta: "''meta'' \<in> set (select_brains query st) \<and> length (select_brains query st) \<le> 4"
  unfolding select_brains_def Let_def by (rule with_meta [OF _ refl]) simp

section \<open>The port search\<close>

lemma port_search_Some: "port_search used p = Some q \<Longrightarrow> q \<notin> set used \<and> p \<le> q \<and> (p \<le> MAX_BRAIN_PORT \<longrightarrow> q \<le> MAX_BRAIN_PORT)"
proof (induction used p rule: port_search.induct)
  case (1 used p)
  from 1(2) show ?case using 1(1) by (subst (asm) port_search.simps) (force split: if_splits)
qed

lemma port_search_first: "p \<notin> set used \<Longrightarrow> port_search used p = Some p"
  by (subst port_search.simps) simp

section \<open>What a brain is started with\<close>

definition brain_args :: "string \<Rightarrow> string \<Rightarrow> string list \<Rightarrow> spec_arg list" where
  "brain_args dir d specs = [Flag (dir @ ''/brain_v12.py''), Flag ''--brain'', Value d]
     @ concat (map (\<lambda>s. [Flag ''--speciality'', Value s]) specs)"

lemma brain_spec_args: "brain_spec dir d specs = spec_of ''python3'' (brain_args dir d specs)"
proof -
  have "fold (\<lambda>s sp. spec_value s (spec_flag ''--speciality'' sp)) specs sp =
      fold add_arg (concat (map (\<lambda>s. [Flag ''--speciality'', Value s]) specs)) sp" for sp
    by (induction specs arbitrary: sp) auto
  then show ?thesis by (simp add: brain_spec_def spec_of_def brain_args_def)
qed

lemma valid_domain_not_sentinel: "valid_domain d \<Longrightarrow> d \<noteq> VALUE_SENTINEL"
  by (auto simp: valid_domain_def VALUE_SENTINEL_def ascii_alphanumeric_def)

lemma valid_domain_chars:
  "valid_domain d \<Longrightarrow> 0 < length d \<and> length d \<le> 64 \<and> hd d \<noteq> CHR ''-''
     \<and> (\<forall>c \<in> set d. ascii_alphanumeric c \<or> c = CHR ''_'' \<or> c = CHR ''-'')"
  by (cases d) (auto simp: valid_domain_def list_all_iff)

lemma route_spawn_Some:
  assumes "route_spawn os home body st = (a, Some child, st')"
  obtains d p where "d = requested_domain body" "a = Spawned d p" "valid_domain d" "\<not> brain_exists d st"
    "length (brains st) < MAX_LIVE_BRAINS" "port_search (map unat (get_used_ports st)) 9016 = Some p"
    "spawn_supervised os (brain_spec (brain_dir st) d (requested_speciality d body)) (sandbox_new (brain_policy home)) = Inr child"
    "st' = increment_spawn_count st"
proof -
  have "length (get_used_ports st) = length (brains st)" by (simp add: get_used_ports_def)
  with assms that show thesis
    by (auto simp: route_spawn_def Let_def not_le split: if_splits option.splits sum.splits)
qed

lemma script_not_sentinel: "dir @ ''/brain_v12.py'' \<noteq> VALUE_SENTINEL"
proof
  assume "dir @ ''/brain_v12.py'' = VALUE_SENTINEL"
  then have "last (dir @ ''/brain_v12.py'') = last VALUE_SENTINEL" by (rule arg_cong)
  then show False by (simp add: VALUE_SENTINEL_def)
qed

text \<open>The specialities of a resolved specification. A speciality that is the marker of \<open>SpawnSpec::value\<close>
  itself makes the next \<open>--speciality\<close> a value that looks like an option, which is refused; as the last
  one it disappears.\<close>

definition speciality_args :: "string list \<Rightarrow> string list \<Rightarrow> bool" where
  "speciality_args specs tail \<longleftrightarrow>
     (\<exists>vals. (\<forall>s \<in> set vals. \<not> starts_with s ''-'' \<and> CHR 0x00 \<notin> set s)
        \<and> (specs = vals \<and> tail = concat (map (\<lambda>s. [''--speciality'', s]) vals)
           \<or> specs = vals @ [VALUE_SENTINEL] \<and> tail = concat (map (\<lambda>s. [''--speciality'', s]) vals) @ [''--speciality'']))"

lemma speciality_args_Cons:
  assumes "speciality_args specs tail" "\<not> starts_with s ''-''" "CHR 0x00 \<notin> set s"
  shows "speciality_args (s # specs) (''--speciality'' # s # tail)"
proof -
  obtain vals where v: "\<forall>s \<in> set vals. \<not> starts_with s ''-'' \<and> CHR 0x00 \<notin> set s"
    "specs = vals \<and> tail = concat (map (\<lambda>s. [''--speciality'', s]) vals)
     \<or> specs = vals @ [VALUE_SENTINEL] \<and> tail = concat (map (\<lambda>s. [''--speciality'', s]) vals) @ [''--speciality'']"
    using assms(1) unfolding speciality_args_def by blast
  then show ?thesis
    unfolding speciality_args_def using assms(2,3) by (intro exI [of _ "s # vals"]) auto
qed

lemma flag_not_sentinel: "''--speciality'' \<noteq> VALUE_SENTINEL" "''--brain'' \<noteq> VALUE_SENTINEL"
  by (simp_all add: VALUE_SENTINEL_def)

lemma resolve_specialities:
  assumes "resolve_args False (concat (map (\<lambda>s. [''--speciality'', VALUE_SENTINEL, s]) specs)) = Inr tail"
  shows "speciality_args specs tail"
  using assms
proof (induction specs arbitrary: tail)
  case Nil
  then show ?case by (simp add: speciality_args_def)
next
  case (Cons s specs)
  show ?case
  proof (cases "s = VALUE_SENTINEL")
    case True
    then have "specs = []" "tail = [''--speciality'']"
      using Cons.prems flag_not_sentinel by (cases specs; auto simp: map_sum_Inr_iff split: if_splits)+
    then show ?thesis using True by (simp add: speciality_args_def exI [of _ "[]"])
  next
    case False
    let ?rest = "resolve_args False (concat (map (\<lambda>s. [''--speciality'', VALUE_SENTINEL, s]) specs))"
    have "\<not> starts_with s ''-'' \<and> CHR 0x00 \<notin> set s \<and> map_sum id (Cons ''--speciality'') (map_sum id (Cons s) ?rest) = Inr tail"
      using Cons.prems False flag_not_sentinel(1) by (simp split: if_splits)
    then obtain t where "?rest = Inr t" "tail = ''--speciality'' # s # t" "\<not> starts_with s ''-''" "CHR 0x00 \<notin> set s"
      by (cases ?rest) auto
    then show ?thesis using Cons.IH speciality_args_Cons by blast
  qed
qed

lemma concat_raw: "concat (map raw_args (concat (map (\<lambda>s. [Flag ''--speciality'', Value s]) specs)))
    = concat (map (\<lambda>s. [''--speciality'', VALUE_SENTINEL, s]) specs)"
  by (induction specs) auto

lemma brain_command:
  assumes "spawn_supervised os (brain_spec dir d specs) (sandbox_new pol) = Inr child" "valid_domain d"
  obtains tail where "speciality_args specs tail"
    "check_argv pol (''python3'' # (dir @ ''/brain_v12.py'') # ''--brain'' # d # tail) = Inr ''python3''"
    "confined os pol (- 1) None (''python3'' # (dir @ ''/brain_v12.py'') # ''--brain'' # d # tail) child"
proof -
  obtain c where c: "supervised_command pol (brain_spec dir d specs) = Inr c" "command_spawn os pol (- 1) c = Inr child"
    using assms(1) by (auto simp: spawn_supervised_def sandbox_new_def bind_res_Inr_iff map_sum_Inr_iff)
  note s = supervised_command_Inr [OF c(1)]
  have "args (brain_spec dir d specs) = [dir @ ''/brain_v12.py'', ''--brain'', VALUE_SENTINEL, d]
      @ concat (map (\<lambda>s. [''--speciality'', VALUE_SENTINEL, s]) specs)" "program (brain_spec dir d specs) = ''python3''"
    using fold_add_arg [of "brain_args dir d specs" "spec_new ''python3''"]
      concat_raw [of specs] unfolding brain_spec_args spec_of_def
    by (simp_all add: brain_args_def spec_new_def del: fold_simps)
  then obtain tail where t: "cmd_argv c = ''python3'' # (dir @ ''/brain_v12.py'') # ''--brain'' # d # tail"
    "resolve_args False (concat (map (\<lambda>s. [''--speciality'', VALUE_SENTINEL, s]) specs)) = Inr tail"
    using s(1) valid_domain_not_sentinel [OF assms(2)] script_not_sentinel [of dir] flag_not_sentinel
    by (cases "resolve_args False (concat (map (\<lambda>s. [''--speciality'', VALUE_SENTINEL, s]) specs))")
       (auto simp: preview_def resolve_def eq_commute [of _ "cmd_argv c"] split: if_splits)
  show thesis
    using that [OF resolve_specialities [OF t(2)]] s(2) command_spawn_confined [OF c(2) s(3)] by (simp add: t(1))
qed

section \<open>Who reaches the spawn route\<close>

lemma mesh_request_Some:
  assumes "mesh_request os home other gate req body st = (dec, Some child, st')"
  obtains who where "build_router gate req = Handled ''route_spawn'' who" "route_spawn os home body st = (fst (route_spawn os home body st), Some child, st')"
    "token_authenticate_header gate (req_header req ''authorization'') = Some who" "find_route mesh_routes req = Some ''route_spawn''"
proof -
  obtain who where b: "build_router gate req = Handled ''route_spawn'' who" "snd (route_spawn os home body st) = (Some child, st')"
    using assms by (auto simp: mesh_request_def split: mesh_decision.splits if_splits)
  then have "find_route mesh_routes req = Some ''route_spawn''"
    "token_authenticate_header gate (req_header req ''authorization'') = Some who"
    by (auto simp: build_router_def mesh_require_auth_def split: option.splits)
  then show thesis using that b by (metis prod.collapse)
qed

lemma spawn_route: "find_route mesh_routes req = Some ''route_spawn'' \<Longrightarrow>
    req_method req = POST \<and> match_segments [''api'', ''mesh'', ''spawn''] (req_path req)"
  by (auto simp: find_route_def mesh_routes_def split: if_splits)

lemma mesh_main_gate:
  "mesh_main env = Inr gate \<Longrightarrow> gate = token_from_env env TOKENS_VAR TOKEN_VAR \<and> (gate = [] \<longrightarrow> mode_from_env env = Inr Development)"
  using enforce_startup_open [of env gate SERVICE AUTH_VARS]
  by (auto simp: mesh_main_def mesh_auth_from_env_def bind_res_Inr_iff Let_def)

section \<open>The registry\<close>

text \<open>Starting a brain does not enter it into the registry: the handler leaves the entries as they are,
  and its decision depends on nothing else.\<close>

lemma route_spawn_brains: "brains (snd (snd (route_spawn os home body st))) = brains st"
  "brain_dir (snd (snd (route_spawn os home body st))) = brain_dir st"
  by (auto simp: route_spawn_def Let_def increment_spawn_count_def split: option.splits sum.splits)

lemma route_spawn_again:
  assumes "brains st' = brains st" "brain_dir st' = brain_dir st"
  shows "fst (route_spawn os home body st') = fst (route_spawn os home body st)"
    "fst (snd (route_spawn os home body st')) = fst (snd (route_spawn os home body st))"
  using assms by (auto simp: route_spawn_def Let_def brain_exists_def get_used_ports_def split: option.splits sum.splits)

text \<open>The same request \<open>n\<close> times.\<close>

primrec spawn_times :: "('o exec_os_scheme) \<Rightarrow> string option \<Rightarrow> json \<Rightarrow> nat \<Rightarrow> AppState \<Rightarrow> (spawn_answer \<times> Child option) list" where
  "spawn_times os home body 0 st = []"
| "spawn_times os home body (Suc n) st =
     (let (a, started, st) = route_spawn os home body st in (a, started) # spawn_times os home body n st)"

text \<open>The ceiling does not bind: a request that starts a brain once starts it any number of times, with
  the same name and for the same port, whatever \<open>MAX_LIVE_BRAINS\<close> says.\<close>

lemma spawns_unbounded:
  assumes "route_spawn os home body st = (Spawned d p, Some child, st')"
  shows "spawn_times os home body n st = replicate n (Spawned d p, Some child)"
proof -
  have "spawn_times os home body n s = replicate n (Spawned d p, Some child)"
    if "brains s = brains st" "brain_dir s = brain_dir st" for s
    using that
  proof (induction n arbitrary: s)
    case (Suc n)
    let ?r = "route_spawn os home body s"
    have "fst ?r = Spawned d p" "fst (snd ?r) = Some child" using route_spawn_again [OF Suc.prems, of os home body] assms by simp_all
    moreover have "spawn_times os home body n (snd (snd ?r)) = replicate n (Spawned d p, Some child)"
      using Suc.prems by (intro Suc.IH) (simp_all add: route_spawn_brains)
    ultimately show ?case by (simp add: case_prod_beta)
  qed simp
  then show ?thesis by blast
qed

lemma default_port:
  assumes "set (brains st) = set create_default_brains" "route_spawn os home body st = (Spawned d p, Some child, st')"
  shows "p = 9016"
proof -
  have "9016 \<notin> set (map unat (get_used_ports st))"
  proof -
    have "set (map unat (get_used_ports st)) = (\<lambda>e. unat (brain_port (snd e))) ` set create_default_brains"
      by (simp add: get_used_ports_def image_image assms(1) [symmetric])
    then show ?thesis by (simp add: create_default_brains_def default_brain_def)
  qed
  then have "port_search (map unat (get_used_ports st)) 9016 = Some 9016" by (rule port_search_first)
  with assms(2) show ?thesis by (auto elim: route_spawn_Some)
qed

section \<open>An example\<close>

definition example_body :: json where
  "example_body = JObject [(''domain'', JString ''poetry'')]"

definition example_mesh :: AppState where
  "example_mesh = app_state_new create_default_brains ''/brains''"

definition brain_argv :: "string list" where
  "brain_argv = [''python3'', ''/brains/brain_v12.py'', ''--brain'', ''poetry'', ''--speciality'', ''poetry'']"

lemma brain_argv_plain: "plain (join '' '' brain_argv)"
  by (simp add: brain_argv_def plain_def plain_char_def ascii_def)

lemma brain_policy_fields:
  "whitelist (brain_policy home) = None" "block_shell_bypass (brain_policy home)" "block_sensitive_paths (brain_policy home)"
  "working_dir (brain_policy home) = None"
  by (simp_all add: brain_policy_def default_policy_def)

lemma brain_argv_checked: "check_argv (brain_policy None) brain_argv = Inr ''python3''"
proof -
  have "normalize (join '' '' brain_argv) = join '' '' brain_argv" by (rule normalize_plain [OF brain_argv_plain])
  then show ?thesis
    by (simp add: check_argv_def Let_def brain_policy_fields trim_eval brain_argv_def
        whitelisted_def find_pattern_def FORBIDDEN_PATTERNS_def SHELL_BYPASS_TOKENS_def
        SENSITIVE_PATHS_def BANNED_BINARIES_def)
qed

lemma brain_hook:
  "\<exists>lims calls. apply_sandbox_pre_exec calm_os (brain_policy None) sock None (inherited_limits calm_os) = (Continue lims, calls)"
  by (simp add: hook_eval calm_os_def brain_policy_def policy_eval Let_def)

lemma example_spec: "resolve (brain_spec ''/brains'' ''poetry'' [''poetry'']) =
    Inr (''python3'', [''/brains/brain_v12.py'', ''--brain'', ''poetry'', ''--speciality'', ''poetry''])"
  by (simp add: brain_spec_def resolve_def spec_new_def spec_flag_def spec_value_def trim_eval VALUE_SENTINEL_def)

lemma example_started:
  "route_spawn calm_os None example_body example_mesh = (Spawned ''poetry'' 9016, Some hello_child, increment_spawn_count example_mesh)"
proof -
  obtain lims calls where h: "apply_sandbox_pre_exec calm_os (brain_policy None) (- 1) None (inherited_limits calm_os) = (Continue lims, calls)"
    using brain_hook by blast
  have x: "exec_answer calm_os argv = Inr hello_child" for argv by (simp add: calm_os_def)
  have "spawn_supervised calm_os (brain_spec ''/brains'' ''poetry'' [''poetry'']) (sandbox_new (brain_policy None)) = Inr hello_child"
    using brain_argv_checked [unfolded brain_argv_def]
    by (simp add: spawn_supervised_def sandbox_new_def supervised_command_def example_spec command_spawn_def apply_hook_def h x)
  moreover have "valid_domain ''poetry''" by (simp add: valid_domain_def ascii_alphanumeric_def)
  moreover have "port_search (map unat (get_used_ports example_mesh)) 9016 = Some 9016"
    by (rule port_search_first) (simp add: get_used_ports_def example_mesh_def app_state_new_def create_default_brains_def default_brain_def)
  ultimately show ?thesis
    by (simp add: route_spawn_def requested_domain_def requested_speciality_def example_body_def Let_def
        brain_exists_def get_used_ports_def MAX_LIVE_BRAINS_def example_mesh_def app_state_new_def create_default_brains_def)
qed

definition example_mesh_env :: environment where
  "example_mesh_env = map_of [(''SOULSYSTEM_ENV'', ''production''), (''SOULLINK_ORCHESTRATOR_TOKEN'', ''k7Zq-91x'')]"

definition spawn_request :: Request where
  "spawn_request = \<lparr>req_method = POST, req_path = [''api'', ''mesh'', ''spawn''],
     req_header = [''authorization'' \<mapsto> ''Bearer k7Zq-91x''], req_body = [], req_principal = None\<rparr>"

section \<open>Theorems\<close>

text \<open>C14: Whoever asks for it, the spawn route starts only a brain, confined and with a clean argument
  vector. When a request made it start a process, the requested domain is made of 1 to 64 letters, digits,
  underscores and hyphens, does not begin with a hyphen and is not the name of a registered brain, fewer than
  \<open>MAX_LIVE_BRAINS\<close> brains are registered, and the port it announces is a free one from 9016 to 9999. The
  process executed \<open>python3\<close> on the brain script with that domain and with the requested specialities,
  none of which is read as an option or has a NUL byte, after the vector passed the sandbox's checks and the
  isolation hook had continued (or it left inside the hook and executed nothing). The one exception is a last
  speciality equal to the sandbox's own value marker, which is dropped after its \<open>--speciality\<close>.\<close>

theorem mesh_spawn_guarded:
  assumes "route_spawn os home body st = (a, Some child, st')"
  shows "\<exists>d p tail. d = requested_domain body \<and> a = Spawned d p
    \<and> 0 < length d \<and> length d \<le> 64 \<and> hd d \<noteq> CHR ''-''
    \<and> (\<forall>c \<in> set d. ascii_alphanumeric c \<or> c = CHR ''_'' \<or> c = CHR ''-'')
    \<and> d \<notin> fst ` set (brains st) \<and> length (brains st) < 16
    \<and> 9016 \<le> p \<and> p \<le> 9999 \<and> p \<notin> (\<lambda>b. unat (brain_port (snd b))) ` set (brains st)
    \<and> (\<exists>vals. (\<forall>s \<in> set vals. \<not> starts_with s ''-'' \<and> CHR 0x00 \<notin> set s)
         \<and> (requested_speciality d body = vals \<and> tail = concat (map (\<lambda>s. [''--speciality'', s]) vals)
            \<or> requested_speciality d body = vals @ [VALUE_SENTINEL]
              \<and> tail = concat (map (\<lambda>s. [''--speciality'', s]) vals) @ [''--speciality'']))
    \<and> check_argv (brain_policy home) (''python3'' # (brain_dir st @ ''/brain_v12.py'') # ''--brain'' # d # tail)
        = Inr ''python3''
    \<and> confined os (brain_policy home) (- 1) None
        (''python3'' # (brain_dir st @ ''/brain_v12.py'') # ''--brain'' # d # tail) child"
proof -
  from assms obtain d p where s: "d = requested_domain body" "a = Spawned d p" "valid_domain d" "\<not> brain_exists d st"
    "length (brains st) < MAX_LIVE_BRAINS" "port_search (map unat (get_used_ports st)) 9016 = Some p"
    "spawn_supervised os (brain_spec (brain_dir st) d (requested_speciality d body)) (sandbox_new (brain_policy home)) = Inr child"
    by (rule route_spawn_Some)
  from brain_command [OF s(7,3)] obtain tail where t: "speciality_args (requested_speciality d body) tail"
    "check_argv (brain_policy home) (''python3'' # (brain_dir st @ ''/brain_v12.py'') # ''--brain'' # d # tail) = Inr ''python3''"
    "confined os (brain_policy home) (- 1) None (''python3'' # (brain_dir st @ ''/brain_v12.py'') # ''--brain'' # d # tail) child" .
  have port: "9016 \<le> p \<and> p \<le> 9999 \<and> p \<notin> (\<lambda>b. unat (brain_port (snd b))) ` set (brains st)"
    using port_search_Some [OF s(6)] by (auto simp: get_used_ports_def MAX_BRAIN_PORT_def)
  have "d \<notin> fst ` set (brains st)" "length (brains st) < 16"
    using s(4,5) by (auto simp: brain_exists_def MAX_LIVE_BRAINS_def)
  with t port s(1,2) valid_domain_chars [OF s(3)] show ?thesis
    unfolding speciality_args_def by blast
qed

theorem mesh_spawn_guarded_witness:
  "\<exists>tail. check_argv (brain_policy None) (''python3'' # ''/brains/brain_v12.py'' # ''--brain'' # ''poetry'' # tail) = Inr ''python3''
     \<and> confined calm_os (brain_policy None) (- 1) None
         (''python3'' # ''/brains/brain_v12.py'' # ''--brain'' # ''poetry'' # tail) hello_child"
proof -
  have "brain_dir example_mesh = ''/brains''" by (simp add: example_mesh_def app_state_new_def)
  then show ?thesis using mesh_spawn_guarded [OF example_started] by auto
qed

text \<open>The routes of the orchestrator are behind its token authentication, contrary to what the
  documentation of the spawn route says: a process is started only for a POST to the spawn route with a
  bearer token that is configured in the environment.\<close>

theorem mesh_spawn_authenticated:
  assumes "mesh_main env = Inr gate" "mesh_request os home other gate req body st = (dec, Some child, st')"
    and "\<forall>c \<in> set gate. length (credential_token c) < 2 ^ 64" "\<forall>h. req_header req ''authorization'' = Some h \<longrightarrow> length h < 2 ^ 64"
  shows "(\<exists>c \<in> set (token_from_env env TOKENS_VAR TOKEN_VAR).
       credential_token c \<noteq> [] \<and> req_header req ''authorization'' = Some (''Bearer '' @ credential_token c))
    \<and> req_method req = POST \<and> match_segments [''api'', ''mesh'', ''spawn''] (req_path req)
    \<and> route_spawn os home body st = (fst (route_spawn os home body st), Some child, st')"
proof -
  from assms(2) obtain who where w: "route_spawn os home body st = (fst (route_spawn os home body st), Some child, st')"
    "token_authenticate_header gate (req_header req ''authorization'') = Some who" "find_route mesh_routes req = Some ''route_spawn''"
    by (rule mesh_request_Some)
  have g: "gate = token_from_env env TOKENS_VAR TOKEN_VAR" using mesh_main_gate [OF assms(1)] by simp
  have "\<exists>c \<in> set gate. req_header req ''authorization'' = Some (''Bearer '' @ credential_token c)"
    using token_authenticate_header_iff [OF assms(3,4)] w(2) by simp
  then show ?thesis using g w(1) spawn_route [OF w(3)] token_from_env_nonempty by blast
qed

theorem mesh_spawn_authenticated_witness:
  "\<exists>c \<in> set (token_from_env example_mesh_env TOKENS_VAR TOKEN_VAR).
     credential_token c \<noteq> [] \<and> req_header spawn_request ''authorization'' = Some (''Bearer '' @ credential_token c)"
proof -
  let ?gate = "[\<lparr>credential_principal = ''default'', credential_token = ''k7Zq-91x''\<rparr>]"
  have t: "token_from_env example_mesh_env TOKENS_VAR TOKEN_VAR = ?gate"
    by (simp add: token_from_env_def example_mesh_env_def TOKENS_VAR_def TOKEN_VAR_def trim_eval)
  have m: "mesh_main example_mesh_env = Inr ?gate"
    by (simp add: mesh_main_def mesh_auth_from_env_def t enforce_startup_def token_is_configured_def)
  have "token_authenticate_header ?gate (req_header spawn_request ''authorization'') = Some ''default''"
    by (simp add: token_authenticate_header_def token_authenticate_def spawn_request_def strip_prefix_def constant_time_eq_bytes)
  then have "build_router ?gate spawn_request = Handled ''route_spawn'' ''default''"
    by (simp add: build_router_def mesh_require_auth_def find_route_def mesh_routes_def) (simp add: spawn_request_def)
  then have r: "mesh_request calm_os None (\<lambda>_ _ st. st) ?gate spawn_request example_body example_mesh =
      (Handled ''route_spawn'' ''default'', Some hello_child, increment_spawn_count example_mesh)"
    by (simp add: mesh_request_def example_started)
  show ?thesis
    using mesh_spawn_authenticated [OF m r] by (simp add: spawn_request_def)
qed

end
