(* ===== verification/Spec2Isabelle.thy ===== *)
theory Spec2Isabelle
  imports Goal_Loop Circuit Tools_Confine Provenance Sandbox_Theorems Rotation Ipc_Bus Deque Gateway_Routes Cron
    Retry_Budget Goal_Dag Goal_Queue Router Consolidation Startup_Theorems Mesh_Spawn
begin

text \<open>
  \<^bold>\<open>SoulSystem: the operational core\<close>

  SoulSystem is an autonomous agent runtime written in Rust. A language model chooses tool calls; the
  runtime decides whether they may run, runs them confined, screens what they return before it is
  remembered, and exposes the agent over HTTP and inter-process queues. This development models the
  crates on that path, one theory per component, in the order in which a request meets them.

  \<^bold>\<open>Parts and theories\<close>

  \<^item> \<open>Prelude\<close>, \<open>Utf8\<close>: results and panics, the string functions of the standard library on UTF-8
    bytes, integer parsing and printing, byte encodings, and the locale \<open>bounded_history\<close> of rings that
    drop their oldest entries. \<open>Binary64\<close>: rounding and bits of floating-point numbers. \<open>Token_Bucket\<close>: the
    locales \<open>token_bucket\<close> and \<open>steady_bucket\<close>, interpreted by the limiter of the gateway and the retry
    budget. The bounded histories are interpreted by the verdict history of the sandbox, the provenance
    log, the working memory and the action history.
  \<^item> \<open>Agent\<close>, \<open>Agent_Run\<close>, \<open>Agent_Theorems\<close> (\<open>soul-agent-core/src/lib.rs\<close>, \<open>soul_llm/src/legacy.rs\<close>): the
    agent as a record with the trail of its effects; the model call behind the circuit breaker, the
    handling of one tool call, the turn and the ReAct loop. Shown: every dispatched tool has its own
    clear reading of the latch, the budgets and the gate before it; a call is dispatched exactly when its
    guards pass; what a memory stores is the screened form of the output of a dispatched tool or of an
    answer of the model; calls of the model, and requests per call, are bounded.
  \<^item> \<open>Strategy\<close> (\<open>soul-agent-core/src/strategy.rs\<close>), \<open>Thoughts\<close> (\<open>soullink-reasoning\<close>, the loss of
    \<open>soullink-eval\<close>), \<open>Skills\<close> and \<open>Skill_Theorems\<close> (\<open>soul-skills\<close>): the choice of a strategy, the tree of
    thoughts, and the skill library with its validator, inducer and Markdown format. Shown: every node of
    the tree has its path to the root, the library retains only valid skills, where a skill is written,
    and what is read back.
  \<^item> \<open>Agent_Task\<close>, \<open>Task_Theorems\<close> (\<open>soul-agent-core/src/lib.rs\<close>): a whole task, that is the strategies around
    the ReAct loop, the record of the outcome, distillation and crystallisation of skills. Shown: the
    guards and the screening hold under every strategy, with the facts and skills distilled from an
    answer, which the code stores unscreened, as the named exception; the tree of thoughts never succeeds.
  \<^item> \<open>Goal_Loop\<close> (\<open>AutonomousLoop\<close>, same file): the background loop over goals. Shown: every goal is settled
    in a bounded number of iterations.
  \<^item> \<open>Llm\<close> (\<open>soul_llm/src/error.rs\<close>, \<open>retry.rs\<close>, \<open>client.rs\<close>, \<open>budget.rs\<close>): error classification, the retry policy
    and loop, the token budget. Shown: the loop ends within its attempts and how each end arises,
    for policies whose backoff products fit a duration.
  \<^item> \<open>Retry_Budget\<close> (\<open>soul_llm/src/retry_budget.rs\<close>): the ceiling of retries per provider. Shown: the retries
    granted in any window are bounded, whatever the order of the clock readings.
  \<^item> \<open>Goal_Dag\<close> (\<open>soul-agent-core/src/parallel.rs\<close>), \<open>Goal_Queue\<close> (\<open>prioritization.rs\<close>), \<open>Router\<close> (\<open>router.rs\<close>),
    \<open>Consolidation\<close> (\<open>consolidation.rs\<close>): parallel goals as a step relation, the priority queue, the model
    router, the clustering of memories. Shown: levels are a topological layering and every execution ends,
    with all outcomes unless a goal panics; when a goal is preempted; which model is asked and in which
    order, also when the lock of the statistics is contended; what a consolidation moves.
  \<^item> \<open>Cron\<close> (\<open>soul_entity/src/cron.rs\<close>): expressions, matching, and the scheduler that starts the due
    tasks once in every minute.
  \<^item> \<open>Planner\<close> (\<open>soul_planner\<close>), \<open>Compaction\<close> (\<open>soul-compaction\<close>): the heuristic control loop and the
    compactor of conversations the agent calls.
  \<^item> \<open>Provenance\<close> (\<open>soul-agent-core/src/provenance.rs\<close>, \<open>screening.rs\<close>, \<open>emergency_stop.rs\<close>): the log of
    memory decisions with its bounded index, screening, the emergency-stop latch. Shown: what a lookup
    answers agrees with the decisions recorded, and survives persisting and opening.
  \<^item> \<open>Gate\<close> (\<open>soullink-gate\<close>): the injection scanner and the approval gate. Shown: the score and verdict
    equal a measure of the text, fenced text cannot close its fence, the gate's decision in each mode.
  \<^item> \<open>Circuit\<close> (\<open>soullink-circuit\<close>): the breaker as a state machine. Shown: while no probe fails it is the
    machine of the module's diagram; a failed probe leaves it, and then the breaker keeps admitting.
  \<^item> \<open>Tools\<close>, \<open>Tools_Confine\<close> (\<open>soul_tools\<close>): permission levels, the registry, path confinement, atomic
    writes and dispatch. Shown: what a file tool touches lies in the workspace, with the exception that
    is proved beside it; a file gets its new content whole, from a temporary file beside it.
  \<^item> \<open>Sandbox_Policy\<close>, \<open>Sandbox_Normalize\<close>, \<open>Sandbox_Seccomp\<close>, \<open>Sandbox_Check\<close>, \<open>Sandbox_Isolation\<close>,
    \<open>Sandbox_Egress\<close>, \<open>Sandbox_Exec\<close>, \<open>Sandbox_Theorems\<close> (\<open>soul_sandbox\<close>): policy tables, normalisation of
    commands, seccomp programs with an interpreter for them, checks, the hook between fork and exec, the
    egress supervisor and execution with its deadline. Shown: a verdict is that of a process started from the
    sanitised form of a command that passed the checks, behind the hook; the hook continues exactly if every
    mandatory isolation call succeeded; the filters mean what the profile says, the supervisor answers every
    trapped connect according to the policy, the wait returns by its deadline.
  \<^item> \<open>Journal\<close>, \<open>Rotation\<close> (\<open>soul_journal\<close>): the lock-free segment as interleaved writers and readers of a
    byte array, and rotating segments. Shown: no torn reads and round trips on a new segment, and that
    reopening a file overwrites it.
  \<^item> \<open>Ipc_Bus\<close> (\<open>soul_ipc/src/bus.rs\<close>) and \<open>Deque\<close> (\<open>soul_scheduler\<close>): the bounded multi-producer queue and
    the work-stealing deque as step relations, with refinement to lists and exactly-once or at-most-once
    delivery.
  \<^item> \<open>Gateway_Scope\<close>, \<open>Gateway_Limits\<close>, \<open>Webhook_Auth\<close>, \<open>Gateway\<close>, \<open>Gateway_Routes\<close> (\<open>soul_gateway\<close>): scopes and
    credentials, the token buckets, webhook signatures with their replay window, and the routes with
    their layers. Shown: an operator request is authorised for its scope, a scope list is never
    exceeded, a webhook acts only when verified, the rate in every window is bounded.
  \<^item> \<open>Ws_Bridge\<close>, \<open>Ws_Theorems\<close> (\<open>src/ws_bridge.rs\<close>): the bridge between WebSocket clients and the
    internal bus as a transition system of all its connections. Shown: what is published was published
    by a client that presented the secret, the counters and the topic table follow the connections, and
    that a client without the secret still receives the messages of the bus.
  \<^item> \<open>Startup_Guard\<close>, \<open>Startup_Theorems\<close> (\<open>soul-prod-guard\<close>, \<open>src/prod_guard.rs\<close>, \<open>soul-auth\<close>, the access
    layers of \<open>src/api.rs\<close> and the call in \<open>src/main.rs\<close>): the decision whether the process may start.
    Shown: in production the guard lets exactly the safe postures start, a bind address read as the
    socket address it is; and what a start in production means for
    the gateway, the API and the bridge.
  \<^item> \<open>Mesh_Spawn\<close> (\<open>soullink-orchestrator-standalone\<close>): the registry of brains and the route that starts one
    in the sandbox. Shown: the route starts only a brain, confined, with a checked argument vector; that
    the routes are behind the token check; and that the ceiling on live brains does not bind.

  \<^bold>\<open>How they interact\<close>

  The startup guard looks at the credentials of the gateway, the API and the bridge before any of them
  listens. The gateway authorises a request and hands it to the agent; the agent asks the model through the
  breaker (\<open>Circuit\<close>) and the retry loop (\<open>Llm\<close>), and for every tool call reads the latch
  (\<open>Provenance\<close>), takes the permission from the registry (\<open>Tools\<close>), asks the gate (\<open>Gate\<close>) and
  dispatches; a shell command goes through the sandbox; the result is screened and recorded with its
  provenance. Around this loop a task selects its strategy, and after a success distils facts and skills
  into the memories and the skill library; the goal loop hands the agent one task after the other. The
  agent and task theorems are stated over the composed definitions.

  \<^bold>\<open>Conventions\<close>

  A Rust \<open>Result\<close> is a sum with the error on the left; a panic is \<open>Panicked\<close>, \<open>Crashed\<close> or \<open>Panics\<close>, a call
  that does not return \<open>Blocks\<close> or \<open>Waiting\<close>. Integers that may wrap are words; counters that are only
  incremented are natural numbers (2^64 increments are out of reach). Strings are their UTF-8 bytes.
  Floating point is the real operation followed by a rounding, a parameter of which the theorems name what
  they use and which \<open>f64_round\<close> of \<open>Binary64\<close> instantiates; iteration orders of
  hash tables, clocks, random numbers, JSON, the file system, the operating system, the network and the
  language model are parameters. Concurrency is interleaving of atomic steps in a sequentially
  consistent memory; the memory orderings of the source are at least as strong as the proofs need under
  that reading. No fuel is used: every loop is a total function with a termination proof, a partial
  function whose return is proved, or a step relation.

  \<^bold>\<open>Not modelled\<close>

  Vendored and experimental crates (\<open>intel-integrations\<close>, \<open>avid\<close>, \<open>scirust-*\<close>, \<open>forges\<close> and others), the
  vector and causal memories (numerical or statistical contracts), terminals and daemons (input and
  output), the handlers of the API listener, the metrics the agent collects about a run (global error, reward, trajectories,
  the knowledge graph), and the HTTP clients of the providers. Tracing
  output is left out except where formatting it can panic.
\<close>

end
